(* ===== verification/Prelude.thy ===== *)
theory Prelude
  imports Main "HOL-Library.Multiset" "HOL-Library.Sublist"
begin

text \<open>
  Shared vocabulary of the development: results with an error branch (a Go function that
  returns \<open>(T, error)\<close>), loops that stop at the first error, comparison functions as
  \<open>slices.SortFunc\<close> takes them, association lists standing for Go maps and for tables
  with a primary key, and the collections of rewrite rules the component proofs share.
\<close>

named_theorems result_simps \<open>rewriting of results and of early returns\<close>
named_theorems table_simps \<open>reading a table after an insert, an update or a delete\<close>
named_theorems str_simps \<open>facts about the Go string operations\<close>

section \<open>Results\<close>

text \<open>\<open>bindR e f\<close> is \<open>x, err := e; if err != nil { return err }; f(x)\<close>.\<close>

primrec bindR :: "'e + 'a \<Rightarrow> ('a \<Rightarrow> 'e + 'b) \<Rightarrow> 'e + 'b" where
  "bindR (Inl e) f = Inl e"
| "bindR (Inr x) f = f x"

text \<open>\<open>requireR c e f\<close> is \<open>if !c { return e }; f\<close>.\<close>

definition requireR :: "bool \<Rightarrow> 'e \<Rightarrow> 'e + 'a \<Rightarrow> 'e + 'a" where
  "requireR c e f = (if c then f else Inl e)"

lemma bindR_eq_Inr [result_simps]:
  "bindR m f = Inr y \<longleftrightarrow> (\<exists>x. m = Inr x \<and> f x = Inr y)"
  by (cases m) auto

lemma bindR_eq_Inl [result_simps]:
  "bindR m f = Inl e \<longleftrightarrow> m = Inl e \<or> (\<exists>x. m = Inr x \<and> f x = Inl e)"
  by (cases m) auto

lemma requireR_eq_Inr [result_simps]: "requireR c e f = Inr y \<longleftrightarrow> c \<and> f = Inr y"
  by (simp add: requireR_def)

lemma requireR_eq_Inl [result_simps]:
  "requireR c e f = Inl e' \<longleftrightarrow> (\<not> c \<and> e = e') \<or> (c \<and> f = Inl e')"
  by (auto simp: requireR_def)

lemma requireR_True [simp]: "requireR True e f = f"
  by (simp add: requireR_def)

lemma requireR_False [simp]: "requireR False e f = Inl e"
  by (simp add: requireR_def)

lemma if_Inl_eq_Inr: "(if c then Inl err else f) = Inr y \<longleftrightarrow> \<not> c \<and> f = Inr y"
  by simp

lemma bindR_cong [fundef_cong]:
  "m = m' \<Longrightarrow> (\<And>x. m' = Inr x \<Longrightarrow> f x = g x) \<Longrightarrow> bindR m f = bindR m' g"
  by (cases m') auto

lemma bindR_assoc: "bindR (bindR m f) g = bindR m (\<lambda>x. bindR (f x) g)"
  by (cases m) auto

text \<open>
  A loop over a slice whose body updates a state and may return early with an error:
  \<open>for _, x := range xs { if err := body(x); err != nil { return err } }\<close>.
\<close>

primrec forR :: "'a list \<Rightarrow> ('a \<Rightarrow> 's \<Rightarrow> 'e + 's) \<Rightarrow> 's \<Rightarrow> 'e + 's" where
  "forR [] body s = Inr s"
| "forR (x # xs) body s = bindR (body x s) (forR xs body)"

lemma forR_append: "forR (xs @ ys) body s = bindR (forR xs body s) (forR ys body)"
proof (induction xs arbitrary: s)
  case (Cons x xs)
  then show ?case by (cases "body x s") auto
qed simp

text \<open>An invariant of the loop body is an invariant of the loop.\<close>

lemma forR_invariant:
  assumes "forR xs body s = Inr t" and "P s"
    and "\<And>x a b. x \<in> set xs \<Longrightarrow> P a \<Longrightarrow> body x a = Inr b \<Longrightarrow> P b"
  shows "P t"
  using assms
proof (induction xs arbitrary: s)
  case (Cons x xs)
  from Cons.prems(1) obtain a where a: "body x s = Inr a" "forR xs body a = Inr t"
    by (auto simp: result_simps)
  have "P a"
    using Cons.prems(3) [of x s a] Cons.prems(2) a(1) by simp
  with a(2) show ?case
    using Cons.IH [of a] Cons.prems(3) by auto
qed simp

section \<open>Comparison functions and sorting\<close>

text \<open>
  \<open>slices.SortFunc\<close> needs a strict weak ordering given as a three-way comparison. The
  interface of such a comparison is a locale; its client is the sort below.
  Go's sort is not stable, so where two elements compare equal their order is not
  determined; the theorems that use \<open>sort_func\<close> rest only on the result being a sorted
  permutation of the input.
\<close>

definition cmp_compare :: "'a::linorder \<Rightarrow> 'a \<Rightarrow> int" where
  "cmp_compare x y = (if x < y then -1 else if y < x then 1 else 0)"

primrec insert_func :: "('a \<Rightarrow> 'a \<Rightarrow> int) \<Rightarrow> 'a \<Rightarrow> 'a list \<Rightarrow> 'a list" where
  "insert_func cmp x [] = [x]"
| "insert_func cmp x (y # ys) = (if cmp x y \<le> 0 then x # y # ys else y # insert_func cmp x ys)"

primrec sort_func :: "('a \<Rightarrow> 'a \<Rightarrow> int) \<Rightarrow> 'a list \<Rightarrow> 'a list" where
  "sort_func cmp [] = []"
| "sort_func cmp (x # xs) = insert_func cmp x (sort_func cmp xs)"

lemma mset_insert_func [simp]: "mset (insert_func cmp x xs) = add_mset x (mset xs)"
  by (induction xs) auto

lemma mset_sort_func [simp]: "mset (sort_func cmp xs) = mset xs"
  by (induction xs) auto

lemma set_insert_func [simp]: "set (insert_func cmp x xs) = insert x (set xs)"
  by (induction xs) auto

lemma set_sort_func [simp]: "set (sort_func cmp xs) = set xs"
  by (induction xs) auto

lemma length_sort_func [simp]: "length (sort_func cmp xs) = length xs"
  by (metis mset_sort_func size_mset)

lemma distinct_sort_func [simp]: "distinct (sort_func cmp xs) = distinct xs"
  by (metis mset_eq_imp_distinct_iff mset_sort_func)

locale comparison =
  fixes cmp :: "'a \<Rightarrow> 'a \<Rightarrow> int"
  assumes cmp_flip: "cmp x y > 0 \<longleftrightarrow> cmp y x < 0"
    and cmp_trans: "cmp x y \<le> 0 \<Longrightarrow> cmp y z \<le> 0 \<Longrightarrow> cmp x z \<le> 0"
begin

lemma cmp_total: "cmp x y \<le> 0 \<or> cmp y x \<le> 0"
  using cmp_flip [of x y] by linarith

lemma cmp_refl: "cmp x x = 0"
  using cmp_flip [of x x] by linarith

lemma sorted_insert_func:
  "sorted_wrt (\<lambda>x y. cmp x y \<le> 0) ys \<Longrightarrow> sorted_wrt (\<lambda>x y. cmp x y \<le> 0) (insert_func cmp x ys)"
proof (induction ys)
  case (Cons y ys)
  show ?case
  proof (cases "cmp x y \<le> 0")
    case True
    with Cons.prems show ?thesis by (auto intro: cmp_trans)
  next
    case False
    then have "cmp y x \<le> 0" using cmp_total by blast
    with Cons False show ?thesis by auto
  qed
qed simp

lemma sorted_sort_func: "sorted_wrt (\<lambda>x y. cmp x y \<le> 0) (sort_func cmp xs)"
  by (induction xs) (auto intro: sorted_insert_func)

text \<open>Without ties the sorted permutation is unique, so Go's unstable sort returns it too.\<close>

lemma sorted_unique:
  assumes "mset xs = mset ys"
    and "sorted_wrt (\<lambda>x y. cmp x y < 0) xs" and "sorted_wrt (\<lambda>x y. cmp x y \<le> 0) ys"
  shows "xs = ys"
  using assms
proof (induction xs arbitrary: ys)
  case (Cons x xs)
  then obtain y ys' where ys: "ys = y # ys'"
    by (cases ys) auto
  have "y = x"
  proof (rule ccontr)
    assume "y \<noteq> x"
    with Cons.prems(1) ys have "y \<in> set xs" "x \<in> set ys'"
      by (metis list.set_intros(1) set_ConsD mset_eq_setD)+
    with Cons.prems ys have "cmp x y < 0" "cmp y x \<le> 0"
      by auto
    then show False using cmp_flip [of y x] by simp
  qed
  with Cons ys show ?case by auto
qed simp

end

text \<open>Lexicographic combination of two comparisons (\<open>if order := a; order != 0 { return order }; return b\<close>).\<close>

definition cmp_then :: "int \<Rightarrow> int \<Rightarrow> int" where
  "cmp_then a b = (if a \<noteq> 0 then a else b)"

lemma comparison_key:
  fixes f :: "'a \<Rightarrow> 'b::linorder"
  assumes "\<And>x y. (cmp x y < 0) = (f x < f y)" and "\<And>x y. (cmp x y > 0) = (f y < f x)"
  shows "comparison cmp"
proof
  show "(cmp x y > 0) = (cmp y x < 0)" for x y
    using assms by simp
  show "cmp x z \<le> 0" if "cmp x y \<le> 0" "cmp y z \<le> 0" for x y z
  proof -
    from that have "\<not> f y < f x" "\<not> f z < f y"
      using assms(2) by (metis not_less)+
    then have "\<not> f z < f x" by force
    then show ?thesis using assms(2) by (metis not_less)
  qed
qed

lemma cmp_compare_sign [simp]:
  "cmp_compare x y < 0 \<longleftrightarrow> x < y" "cmp_compare x y > 0 \<longleftrightarrow> y < x" "cmp_compare x y = 0 \<longleftrightarrow> x = y"
  by (auto simp: cmp_compare_def)

interpretation compare: comparison "cmp_compare :: 'a::linorder \<Rightarrow> 'a \<Rightarrow> int"
  by (rule comparison_key [where f = "\<lambda>x. x"]) auto

section \<open>Lists as tables\<close>

text \<open>The first row with a key, as a query on a unique column returns it.\<close>

definition row_with :: "('r \<Rightarrow> bool) \<Rightarrow> 'r list \<Rightarrow> 'r option" where
  "row_with P rows = find P rows"

text \<open>\<open>UPDATE t SET ... WHERE P\<close>.\<close>

definition update_rows :: "('r \<Rightarrow> bool) \<Rightarrow> ('r \<Rightarrow> 'r) \<Rightarrow> 'r list \<Rightarrow> 'r list" where
  "update_rows P f rows = map (\<lambda>r. if P r then f r else r) rows"

text \<open>\<open>DELETE FROM t WHERE P\<close>.\<close>

definition delete_rows :: "('r \<Rightarrow> bool) \<Rightarrow> 'r list \<Rightarrow> 'r list" where
  "delete_rows P rows = filter (\<lambda>r. \<not> P r) rows"

lemma row_with_Some: "row_with P rows = Some r \<Longrightarrow> r \<in> set rows \<and> P r"
  by (auto simp: row_with_def find_Some_iff)

lemma row_with_None [table_simps]: "row_with P rows = None \<longleftrightarrow> (\<forall>r \<in> set rows. \<not> P r)"
  by (auto simp: row_with_def find_None_iff)

lemma set_update_rows [table_simps]:
  "set (update_rows P f rows) = (\<lambda>r. if P r then f r else r) ` set rows"
  by (simp add: update_rows_def)

lemma set_delete_rows [table_simps]: "set (delete_rows P rows) = {r \<in> set rows. \<not> P r}"
  by (simp add: delete_rows_def)

lemma length_update_rows [simp]: "length (update_rows P f rows) = length rows"
  by (simp add: update_rows_def)

lemma map_update_rows_same [table_simps]:
  "(\<And>r. P r \<Longrightarrow> k (f r) = k r) \<Longrightarrow> map k (update_rows P f rows) = map k rows"
  by (induction rows) (auto simp: update_rows_def)

lemma distinct_map_delete_rows: "distinct (map k rows) \<Longrightarrow> distinct (map k (delete_rows P rows))"
  by (simp add: delete_rows_def distinct_map_filter)

lemma row_with_simps [simp]:
  "row_with P [] = None"
  "row_with P (r # rows) = (if P r then Some r else row_with P rows)"
  by (simp_all add: row_with_def)

lemma row_with_append:
  "row_with P (xs @ ys) = (case row_with P xs of None \<Rightarrow> row_with P ys | Some r \<Rightarrow> Some r)"
  by (induction xs) auto

lemma row_with_update:
  "(\<And>r. P r \<Longrightarrow> Q (f r) = Q r) \<Longrightarrow>
   row_with Q (update_rows P f rows) = map_option (\<lambda>r. if P r then f r else r) (row_with Q rows)"
  by (induction rows) (auto simp: update_rows_def)

text \<open>With a unique key the row that a query finds is the row that has the key.\<close>

lemma row_with_unique:
  assumes "distinct (map k rows)" and "r \<in> set rows" and "k r = x"
    and "\<And>r'. r' \<in> set rows \<Longrightarrow> P r' \<Longrightarrow> k r' = x" and "P r"
  shows "row_with P rows = Some r"
  using assms
proof (induction rows)
  case (Cons a rows)
  show ?case
  proof (cases "P a")
    case True
    with Cons.prems have "a = r"
      by (auto simp: image_iff)
    with True show ?thesis by (simp add: row_with_def)
  next
    case False
    with Cons show ?thesis by (auto simp: row_with_def)
  qed
qed simp

lemma distinct_map_inj:
  "distinct (map k rows) \<Longrightarrow> r \<in> set rows \<Longrightarrow> r' \<in> set rows \<Longrightarrow> k r = k r' \<Longrightarrow> r = r'"
  by (auto simp: distinct_map inj_on_def)

section \<open>Transition systems\<close>

text \<open>
  A component with state is a start state, commands and a step for each. An invariant of
  every step is an invariant of every run.
\<close>

locale invariant_system =
  fixes start :: 's
    and step :: "'c \<Rightarrow> 's \<Rightarrow> 's"
    and inv :: "'s \<Rightarrow> bool"
  assumes inv_start: "inv start"
    and inv_step: "inv s \<Longrightarrow> inv (step c s)"
begin

lemma inv_fold: "inv s \<Longrightarrow> inv (fold step cs s)"
  by (induction cs arbitrary: s) (auto intro: inv_step)

lemma inv_run: "inv (fold step cs start)"
  by (rule inv_fold) (rule inv_start)

end

text \<open>A relation between earlier and later states that every step respects.\<close>

locale monotone_system = invariant_system +
  fixes later :: "'s \<Rightarrow> 's \<Rightarrow> bool"
  assumes later_refl: "inv s \<Longrightarrow> later s s"
    and later_trans: "inv s \<Longrightarrow> later s t \<Longrightarrow> later t u \<Longrightarrow> later s u"
    and later_step: "inv s \<Longrightarrow> later s (step c s)"
begin

lemma later_fold: "inv s \<Longrightarrow> later s (fold step cs s)"
proof (induction cs arbitrary: s)
  case (Cons c cs)
  then have "later (step c s) (fold step cs (step c s))" by (intro Cons.IH inv_step)
  with later_step [OF Cons.prems] have "later s (fold step cs (step c s))" by (rule later_trans [OF Cons.prems])
  then show ?case by simp
qed (simp add: later_refl)

text \<open>A longer run is later than the run it extends.\<close>

lemma later_run: "later (fold step cs start) (fold step (cs @ ds) start)"
  using later_fold [OF inv_run, of cs ds] by simp

end

end
