(* ===== verification/GoStrings.thy ===== *)
theory GoStrings
  imports Prelude "HOL-Library.List_Lexorder" "HOL-Library.Char_ord"
begin

text \<open>
  The operations of Go's standard packages \<open>strings\<close>, \<open>unicode/utf8\<close>, \<open>strconv\<close> and
  \<open>path\<close> that the modelled code uses. A Go string is a sequence of bytes, here a
  \<open>char list\<close> (a HOL \<open>char\<close> is a byte), so that lengths, offsets and comparisons are Go's;
  the linear order on strings is the bytewise lexicographic one of \<open>cmp.Compare\<close> and
  \<open>slices.Sort\<close>. Everything is computable.
\<close>

abbreviation byte :: "char \<Rightarrow> nat" where
  "byte c \<equiv> of_char c"

section \<open>Prefixes, suffixes, searching\<close>

definition HasPrefix :: "string \<Rightarrow> string \<Rightarrow> bool" where
  "HasPrefix s p = prefix p s"

definition HasSuffix :: "string \<Rightarrow> string \<Rightarrow> bool" where
  "HasSuffix s p = suffix p s"

definition TrimPrefix :: "string \<Rightarrow> string \<Rightarrow> string" where
  "TrimPrefix s p = (if HasPrefix s p then drop (length p) s else s)"

definition TrimSuffix :: "string \<Rightarrow> string \<Rightarrow> string" where
  "TrimSuffix s p = (if HasSuffix s p then take (length s - length p) s else s)"

definition CutPrefix :: "string \<Rightarrow> string \<Rightarrow> string option" where
  "CutPrefix s p = (if HasPrefix s p then Some (drop (length p) s) else None)"

text \<open>\<open>strings.Index\<close> with \<open>None\<close> for -1.\<close>

fun Index :: "string \<Rightarrow> string \<Rightarrow> nat option" where
  "Index [] sub = (if sub = [] then Some 0 else None)"
| "Index (c # cs) sub =
     (if prefix sub (c # cs) then Some 0 else map_option Suc (Index cs sub))"

fun LastIndex :: "string \<Rightarrow> string \<Rightarrow> nat option" where
  "LastIndex [] sub = (if sub = [] then Some 0 else None)"
| "LastIndex (c # cs) sub =
     (case LastIndex cs sub of
        Some i \<Rightarrow> Some (Suc i)
      | None \<Rightarrow> if prefix sub (c # cs) then Some 0 else None)"

definition Contains :: "string \<Rightarrow> string \<Rightarrow> bool" where
  "Contains s sub = (Index s sub \<noteq> None)"

text \<open>\<open>strings.Cut\<close>: the text before and after the first separator, and whether it was found.\<close>

definition Cut :: "string \<Rightarrow> string \<Rightarrow> string \<times> string \<times> bool" where
  "Cut s sep = (case Index s sep of
     Some i \<Rightarrow> (take i s, drop (i + length sep) s, True)
   | None \<Rightarrow> (s, [], False))"

text \<open>An occurrence of a substring at a byte offset.\<close>

definition occurs_at :: "string \<Rightarrow> nat \<Rightarrow> string \<Rightarrow> bool" where
  "occurs_at sub i s = (i \<le> length s \<and> prefix sub (drop i s))"

lemma occurs_at_0 [simp]: "occurs_at sub 0 s = prefix sub s"
  by (simp add: occurs_at_def)

lemma occurs_at_Suc [simp]: "occurs_at sub (Suc i) (c # cs) = occurs_at sub i cs"
  by (simp add: occurs_at_def)

lemma occurs_at_Nil: "occurs_at sub i [] \<longleftrightarrow> i = 0 \<and> sub = []"
  by (auto simp: occurs_at_def)

lemma occurs_at_iff: "occurs_at sub i s \<longleftrightarrow> i + length sub \<le> length s \<and> take (length sub) (drop i s) = sub"
proof -
  have "prefix sub (drop i s) \<longleftrightarrow> length sub \<le> length (drop i s) \<and> take (length sub) (drop i s) = sub"
    by (metis append_take_drop_id prefixI prefix_length_le take_append append_eq_conv_conj
        prefixE length_take min.absorb2)
  then show ?thesis by (auto simp: occurs_at_def)
qed

lemma Index_Some:
  "Index s sub = Some i \<longleftrightarrow> occurs_at sub i s \<and> (\<forall>j < i. \<not> occurs_at sub j s)"
proof (induction s arbitrary: i)
  case Nil
  then show ?case by (auto simp: occurs_at_Nil)
next
  case (Cons c cs)
  show ?case
  proof (cases i)
    case 0
    then show ?thesis by (auto simp: split: option.splits)
  next
    case (Suc k)
    then show ?thesis
      using Cons.IH [of k] by (auto simp: All_less_Suc2)
  qed
qed

lemma Index_None: "Index s sub = None \<longleftrightarrow> (\<forall>i. \<not> occurs_at sub i s)"
proof (induction s)
  case Nil
  then show ?case by (auto simp: occurs_at_Nil)
next
  case (Cons c cs)
  have "(\<forall>i. \<not> occurs_at sub i (c # cs)) \<longleftrightarrow>
      \<not> prefix sub (c # cs) \<and> (\<forall>i. \<not> occurs_at sub i cs)"
    by (metis not0_implies_Suc occurs_at_0 occurs_at_Suc)
  with Cons show ?case by auto
qed

lemma LastIndex_None: "LastIndex s sub = None \<longleftrightarrow> (\<forall>i. \<not> occurs_at sub i s)"
proof (induction s)
  case Nil
  then show ?case by (auto simp: occurs_at_Nil)
next
  case (Cons c cs)
  have "(\<forall>i. \<not> occurs_at sub i (c # cs)) \<longleftrightarrow>
      \<not> prefix sub (c # cs) \<and> (\<forall>i. \<not> occurs_at sub i cs)"
    by (metis not0_implies_Suc occurs_at_0 occurs_at_Suc)
  with Cons show ?case by (auto split: option.splits)
qed

lemma LastIndex_Some:
  "LastIndex s sub = Some i \<longleftrightarrow> occurs_at sub i s \<and> (\<forall>j > i. \<not> occurs_at sub j s)"
proof (induction s arbitrary: i)
  case Nil
  then show ?case by (auto simp: occurs_at_Nil)
next
  case (Cons c cs)
  have later: "(\<forall>j > i. \<not> occurs_at sub j (c # cs)) \<longleftrightarrow>
      (\<forall>j. i \<le> j \<longrightarrow> \<not> occurs_at sub j cs)" for i
    by (metis less_Suc_eq_le not0_implies_Suc not_less_zero occurs_at_Suc)
  show ?case
  proof (cases i)
    case 0
    then show ?thesis
      using later [of 0] LastIndex_None [of cs sub] by (auto split: option.splits)
  next
    case (Suc k)
    have "(\<forall>j. Suc k \<le> j \<longrightarrow> \<not> occurs_at sub j cs) = (\<forall>j>k. \<not> occurs_at sub j cs)"
      by (simp add: Suc_le_eq)
    with Suc show ?thesis
      using later [of i] Cons.IH [of k] LastIndex_None [of cs sub]
      by (auto split: option.splits)
  qed
qed

section \<open>Splitting, joining, replacing\<close>

text \<open>\<open>strings.Split\<close> with a separator of one byte, and \<open>strings.Join\<close>.\<close>

fun Split :: "char \<Rightarrow> string \<Rightarrow> string list" where
  "Split c [] = [[]]"
| "Split c (x # xs) =
     (if x = c then [] # Split c xs
      else (case Split c xs of [] \<Rightarrow> [[x]] | y # ys \<Rightarrow> (x # y) # ys))"

fun Join :: "string list \<Rightarrow> string \<Rightarrow> string" where
  "Join [] sep = []"
| "Join [x] sep = x"
| "Join (x # y # ys) sep = x @ sep @ Join (y # ys) sep"

lemma Split_not_Nil [simp]: "Split c s \<noteq> []"
  by (cases s) (auto split: list.splits)

lemma Join_Split [simp]: "Join (Split c s) [c] = s"
proof (induction s)
  case (Cons x xs)
  obtain y ys where y: "Split c xs = y # ys"
    by (cases "Split c xs") auto
  with Cons.IH have "Join (y # ys) [c] = xs" by simp
  with y show ?case by (cases ys) auto
qed simp

lemma Split_no_sep: "x \<in> set (Split c s) \<Longrightarrow> c \<notin> set x"
  by (induction s arbitrary: x) (auto split: if_splits list.splits)

lemma Split_single: "c \<notin> set x \<Longrightarrow> Split c x = [x]"
  by (induction x) auto

lemma Split_append: "c \<notin> set x \<Longrightarrow> Split c (x @ c # ys) = x # Split c ys"
  by (induction x) auto

lemma Split_Join:
  "xs \<noteq> [] \<Longrightarrow> (\<And>x. x \<in> set xs \<Longrightarrow> c \<notin> set x) \<Longrightarrow> Split c (Join xs [c]) = xs"
  by (induction xs "[c]" rule: Join.induct) (auto simp: Split_single Split_append)

lemma Split_append_Split:
  "Split c (x @ c # ys) = Split c x @ Split c ys"
  by (induction x) (auto split: list.splits)

text \<open>\<open>strings.ReplaceAll\<close> with a non-empty old text.\<close>

function ReplaceAll :: "string \<Rightarrow> string \<Rightarrow> string \<Rightarrow> string" where
  "ReplaceAll s old new =
     (if old = [] then s
      else case Index s old of
        None \<Rightarrow> s
      | Some i \<Rightarrow> take i s @ new @ ReplaceAll (drop (i + length old) s) old new)"
  by pat_completeness auto
termination
  by (relation "measure (\<lambda>(s, old, new). length s)") (auto simp: Index_Some occurs_at_iff simp flip: length_greater_0_conv)

declare ReplaceAll.simps [simp del]

lemma ReplaceAll_absent: "Index s old = None \<Longrightarrow> ReplaceAll s old new = s"
  by (simp add: ReplaceAll.simps)

section \<open>Trimming\<close>

text \<open>\<open>strings.Trim(s, "c")\<close> for a cutset of one byte.\<close>

definition TrimRightByte :: "char \<Rightarrow> string \<Rightarrow> string" where
  "TrimRightByte c s = rev (dropWhile (\<lambda>x. x = c) (rev s))"

definition TrimByte :: "char \<Rightarrow> string \<Rightarrow> string" where
  "TrimByte c s = TrimRightByte c (dropWhile (\<lambda>x. x = c) s)"

text \<open>
  \<open>strings.TrimSpace\<close> removes the runes of \<open>unicode.IsSpace\<close> at both ends; these are
  their UTF-8 encodings. No encoding is a prefix or a suffix of another, so removing
  encodings is removing runes.
\<close>

definition white_space :: "string list" where
  "white_space =
     [[CHR 0x09], [CHR 0x0A], [CHR 0x0B], [CHR 0x0C], [CHR 0x0D], [CHR 0x20],
      [CHR 0xC2, CHR 0x85], [CHR 0xC2, CHR 0xA0], [CHR 0xE1, CHR 0x9A, CHR 0x80]] @
     map (\<lambda>n. [CHR 0xE2, CHR 0x80, char_of n]) ([128..<139] @ [0xA8, 0xA9, 0xAF]) @
     [[CHR 0xE2, CHR 0x81, CHR 0x9F], [CHR 0xE3, CHR 0x80, CHR 0x80]]"

lemma white_space_eq [code]: "white_space =
    [[CHR 0x09], [CHR 0x0A], [CHR 0x0B], [CHR 0x0C], [CHR 0x0D], [CHR 0x20], [CHR 0xC2, CHR 0x85],
     [CHR 0xC2, CHR 0xA0], [CHR 0xE1, CHR 0x9A, CHR 0x80], [CHR 0xE2, CHR 0x80, CHR 0x80],
     [CHR 0xE2, CHR 0x80, CHR 0x81], [CHR 0xE2, CHR 0x80, CHR 0x82], [CHR 0xE2, CHR 0x80, CHR 0x83],
     [CHR 0xE2, CHR 0x80, CHR 0x84], [CHR 0xE2, CHR 0x80, CHR 0x85], [CHR 0xE2, CHR 0x80, CHR 0x86],
     [CHR 0xE2, CHR 0x80, CHR 0x87], [CHR 0xE2, CHR 0x80, CHR 0x88], [CHR 0xE2, CHR 0x80, CHR 0x89],
     [CHR 0xE2, CHR 0x80, CHR 0x8A], [CHR 0xE2, CHR 0x80, CHR 0xA8], [CHR 0xE2, CHR 0x80, CHR 0xA9],
     [CHR 0xE2, CHR 0x80, CHR 0xAF], [CHR 0xE2, CHR 0x81, CHR 0x9F], [CHR 0xE3, CHR 0x80, CHR 0x80]]"
  by code_simp

definition leading_space :: "string \<Rightarrow> string option" where
  "leading_space s = find (\<lambda>w. prefix w s) white_space"

definition trailing_space :: "string \<Rightarrow> string option" where
  "trailing_space s = find (\<lambda>w. suffix w s) white_space"

lemma white_space_not_Nil: "w \<in> set white_space \<Longrightarrow> w \<noteq> []"
  by (auto simp: white_space_def)

lemma leading_space_Some:
  "leading_space s = Some w \<Longrightarrow> prefix w s \<and> w \<noteq> []"
  by (auto simp: leading_space_def find_Some_iff dest: nth_mem white_space_not_Nil)

lemma trailing_space_Some:
  "trailing_space s = Some w \<Longrightarrow> suffix w s \<and> w \<noteq> []"
  by (auto simp: trailing_space_def find_Some_iff dest: nth_mem white_space_not_Nil)

function TrimLeftSpace :: "string \<Rightarrow> string" where
  "TrimLeftSpace s = (case leading_space s of None \<Rightarrow> s | Some w \<Rightarrow> TrimLeftSpace (drop (length w) s))"
  by pat_completeness auto
termination
  by (relation "measure length") (auto dest!: leading_space_Some simp: prefix_def)

function TrimRightSpace :: "string \<Rightarrow> string" where
  "TrimRightSpace s =
     (case trailing_space s of None \<Rightarrow> s | Some w \<Rightarrow> TrimRightSpace (take (length s - length w) s))"
  by pat_completeness auto
termination
  by (relation "measure length") (auto dest!: trailing_space_Some simp: suffix_def)

declare TrimLeftSpace.simps [simp del] TrimRightSpace.simps [simp del]

definition TrimSpace :: "string \<Rightarrow> string" where
  "TrimSpace s = TrimRightSpace (TrimLeftSpace s)"

lemma TrimLeftSpace_suffix: "suffix (TrimLeftSpace s) s"
proof (induction s rule: TrimLeftSpace.induct)
  case (1 s)
  then show ?case
    by (subst TrimLeftSpace.simps)
      (auto split: option.splits intro: suffix_order.trans suffix_drop)
qed

lemma TrimRightSpace_prefix: "prefix (TrimRightSpace s) s"
proof (induction s rule: TrimRightSpace.induct)
  case (1 s)
  then show ?case
    by (subst TrimRightSpace.simps)
      (auto split: option.splits intro: prefix_order.trans take_is_prefix)
qed

lemma leading_TrimLeftSpace: "leading_space (TrimLeftSpace s) = None"
proof (induction s rule: TrimLeftSpace.induct)
  case (1 s)
  then show ?case by (subst TrimLeftSpace.simps) (auto split: option.splits)
qed

lemma trailing_TrimRightSpace: "trailing_space (TrimRightSpace s) = None"
proof (induction s rule: TrimRightSpace.induct)
  case (1 s)
  then show ?case by (subst TrimRightSpace.simps) (auto split: option.splits)
qed

lemma leading_space_prefix: "prefix p s \<Longrightarrow> leading_space s = None \<Longrightarrow> leading_space p = None"
  by (auto simp: leading_space_def find_None_iff dest: prefix_order.trans)

lemma TrimSpace_id:
  "leading_space s = None \<Longrightarrow> trailing_space s = None \<Longrightarrow> TrimSpace s = s"
  by (simp add: TrimSpace_def TrimLeftSpace.simps [of s] TrimRightSpace.simps [of s])

lemma TrimSpace_clean:
  "leading_space (TrimSpace s) = None" "trailing_space (TrimSpace s) = None"
  using leading_space_prefix [OF TrimRightSpace_prefix leading_TrimLeftSpace]
  by (simp_all add: TrimSpace_def trailing_TrimRightSpace)

lemma TrimSpace_idem [simp]: "TrimSpace (TrimSpace s) = TrimSpace s"
  by (simp add: TrimSpace_id TrimSpace_clean)

lemma TrimSpace_Nil [simp]: "TrimSpace [] = []"
  by (rule TrimSpace_id) (simp_all add: leading_space_def trailing_space_def white_space_def)

lemma set_TrimSpace: "set (TrimSpace s) \<subseteq> set s"
  unfolding TrimSpace_def
  by (meson TrimLeftSpace_suffix TrimRightSpace_prefix set_mono_prefix set_mono_suffix subset_trans)

text \<open>A string without white-space bytes is not trimmed.\<close>

lemma white_space_bytes:
  "w \<in> set white_space \<Longrightarrow> \<exists>c \<in> set w. byte c \<le> 32 \<or> 128 \<le> byte c"
  by (auto simp: white_space_def)

lemma TrimSpace_plain:
  assumes "\<And>c. c \<in> set s \<Longrightarrow> 32 < byte c \<and> byte c < 128"
  shows "TrimSpace s = s"
proof (rule TrimSpace_id)
  have out: "\<not> set w \<subseteq> set s" if "w \<in> set white_space" for w
    using white_space_bytes [OF that] assms by (metis leD subsetD)
  show "leading_space s = None"
    using out by (auto simp: leading_space_def find_None_iff dest: set_mono_prefix)
  show "trailing_space s = None"
    using out by (auto simp: trailing_space_def find_None_iff dest: set_mono_suffix)
qed

text \<open>Evaluation looks for white space only after a byte that can begin or end it.\<close>

definition graphic :: "char \<Rightarrow> bool" where
  "graphic c = (\<not> digit7 c \<and> (digit6 c \<or> (digit5 c \<and> (digit0 c \<or> digit1 c \<or> digit2 c \<or> digit3 c \<or> digit4 c))))"

lemma graphic_byte: "graphic c \<Longrightarrow> 32 < byte c \<and> byte c < 128"
  by (cases c) (auto simp: graphic_def)

lemma white_space_ends: "w \<in> set white_space \<Longrightarrow> \<not> graphic (hd w) \<and> \<not> graphic (last w)"
proof -
  assume "w \<in> set white_space"
  then have "byte (hd w) \<le> 32 \<or> 128 \<le> byte (hd w)" "byte (last w) \<le> 32 \<or> 128 \<le> byte (last w)"
    by (auto simp: white_space_def)
  then show ?thesis using graphic_byte by (meson not_le)
qed

lemma leading_space_code [code]:
  "leading_space s = (if s = [] \<or> graphic (hd s) then None else find (\<lambda>w. prefix w s) white_space)"
proof (cases "s = []")
  case False
  have "\<not> prefix w s" if "w \<in> set white_space" "graphic (hd s)" for w
  proof
    assume "prefix w s"
    then have "hd w = hd s"
      using white_space_not_Nil [OF that(1)] by (auto simp: prefix_def)
    then show False using white_space_ends [OF that(1)] that(2) by simp
  qed
  then show ?thesis using False by (auto simp: leading_space_def find_None_iff)
qed (use white_space_not_Nil in \<open>auto simp: leading_space_def find_None_iff\<close>)

lemma trailing_space_code [code]:
  "trailing_space s = (if s = [] \<or> graphic (last s) then None else find (\<lambda>w. suffix w s) white_space)"
proof (cases "s = []")
  case False
  have "\<not> suffix w s" if "w \<in> set white_space" "graphic (last s)" for w
  proof
    assume "suffix w s"
    then have "last w = last s"
      using white_space_not_Nil [OF that(1)] by (auto simp: suffix_def)
    then show False using white_space_ends [OF that(1)] that(2) by simp
  qed
  then show ?thesis using False by (auto simp: trailing_space_def find_None_iff)
qed (use white_space_not_Nil in \<open>auto simp: trailing_space_def find_None_iff\<close>)

section \<open>Runes\<close>

text \<open>
  \<open>utf8.DecodeRuneInString\<close> on a non-empty string: the rune and its width, \<open>(0xFFFD, 1)\<close>
  for an invalid encoding.
\<close>

definition is_cont :: "nat \<Rightarrow> nat \<Rightarrow> nat \<Rightarrow> bool" where
  "is_cont lo hi b = (lo \<le> b \<and> b \<le> hi)"

definition rune_error :: "nat \<times> nat" where
  "rune_error = (0xFFFD, 1)"

definition decode_rune :: "string \<Rightarrow> nat \<times> nat" where
  "decode_rune s = (case s of
     [] \<Rightarrow> (0xFFFD, 0)
   | c0 # cs \<Rightarrow>
      (let b = (\<lambda>i. if i < length s then byte (s ! i) else 0); b0 = b 0 in
       if b0 < 0x80 then (b0, 1)
       else if b0 < 0xC2 then rune_error
       else if b0 < 0xE0 then
         (if is_cont 0x80 0xBF (b 1) then ((b0 mod 32) * 64 + b 1 mod 64, 2) else rune_error)
       else if b0 < 0xF0 then
         (if is_cont (if b0 = 0xE0 then 0xA0 else 0x80) (if b0 = 0xED then 0x9F else 0xBF) (b 1)
             \<and> is_cont 0x80 0xBF (b 2)
          then ((b0 mod 16) * 4096 + (b 1 mod 64) * 64 + b 2 mod 64, 3) else rune_error)
       else if b0 < 0xF5 then
         (if is_cont (if b0 = 0xF0 then 0x90 else 0x80) (if b0 = 0xF4 then 0x8F else 0xBF) (b 1)
             \<and> is_cont 0x80 0xBF (b 2) \<and> is_cont 0x80 0xBF (b 3)
          then ((b0 mod 8) * 262144 + (b 1 mod 64) * 4096 + (b 2 mod 64) * 64 + b 3 mod 64, 4)
          else rune_error)
       else rune_error))"

lemma decode_rune_width: "s \<noteq> [] \<Longrightarrow> 0 < snd (decode_rune s)"
  by (cases s) (auto simp: decode_rune_def rune_error_def Let_def)

text \<open>\<open>[]rune(s)\<close> as the byte string of each rune, and its length.\<close>

function runes :: "string \<Rightarrow> string list" where
  "runes s = (if s = [] then [] else
     take (snd (decode_rune s)) s # runes (drop (snd (decode_rune s)) s))"
  by pat_completeness auto
termination
  by (relation "measure length") (auto simp: decode_rune_width)

declare runes.simps [simp del]

lemma concat_runes: "concat (runes s) = s"
proof (induction s rule: runes.induct)
  case (1 s)
  then show ?case by (subst runes.simps) auto
qed

section \<open>Numbers\<close>

text \<open>\<open>strconv.FormatInt(n, 10)\<close> and \<open>fmt.Sprint\<close> on integers.\<close>

definition digit_char :: "nat \<Rightarrow> char" where
  "digit_char d = char_of (48 + d)"

fun show_nat :: "nat \<Rightarrow> string" where
  "show_nat n = (if n < 10 then [digit_char n] else show_nat (n div 10) @ [digit_char (n mod 10)])"

declare show_nat.simps [simp del]

definition show_int :: "int \<Rightarrow> string" where
  "show_int i = (if i < 0 then CHR ''-'' # show_nat (nat (- i)) else show_nat (nat i))"

definition is_digit :: "char \<Rightarrow> bool" where
  "is_digit c = (48 \<le> byte c \<and> byte c \<le> 57)"

definition digits_value :: "string \<Rightarrow> nat" where
  "digits_value s = foldl (\<lambda>n c. 10 * n + (byte c - 48)) 0 s"

text \<open>\<open>strconv.ParseUint(s, 10, 64)\<close>: base ten accepts neither a sign nor an underscore.\<close>

definition parse_uint64 :: "string \<Rightarrow> nat option" where
  "parse_uint64 s =
     (if s \<noteq> [] \<and> list_all is_digit s \<and> digits_value s < 2 ^ 64 then Some (digits_value s) else None)"

text \<open>\<open>strconv.ParseInt(s, 10, 64)\<close>: an optional sign, then digits, in the range of \<open>int64\<close>.\<close>

definition parse_int64 :: "string \<Rightarrow> int option" where
  "parse_int64 s = (case s of
     [] \<Rightarrow> None
   | c # cs \<Rightarrow>
      (let neg = (c = CHR ''-''); ds = (if c = CHR ''-'' \<or> c = CHR ''+'' then cs else s) in
       if ds \<noteq> [] \<and> list_all is_digit ds then
         (if neg then (if digits_value ds \<le> 2 ^ 63 then Some (- int (digits_value ds)) else None)
          else (if digits_value ds < 2 ^ 63 then Some (int (digits_value ds)) else None))
       else None))"

lemma byte_digit_char [simp]: "d < 10 \<Longrightarrow> byte (digit_char d) = 48 + d"
  by (simp add: digit_char_def)

lemma is_digit_digit_char [simp]: "d < 10 \<Longrightarrow> is_digit (digit_char d)"
  by (simp add: is_digit_def)

lemma show_nat_digits: "list_all is_digit (show_nat n)"
proof (induction n rule: show_nat.induct)
  case (1 n)
  then show ?case by (subst show_nat.simps) simp
qed

lemma show_nat_not_Nil [simp]: "show_nat n \<noteq> []"
  by (subst show_nat.simps) simp

lemma digits_value_snoc: "digits_value (s @ [c]) = 10 * digits_value s + (byte c - 48)"
  by (simp add: digits_value_def)

lemma digits_value_show_nat [simp]: "digits_value (show_nat n) = n"
proof (induction n rule: show_nat.induct)
  case (1 n)
  show ?case
  proof (cases "n < 10")
    case True
    then show ?thesis by (subst show_nat.simps) (simp add: digits_value_def)
  next
    case False
    with 1 have "digits_value (show_nat (n div 10)) = n div 10" by simp
    with False show ?thesis
      by (subst show_nat.simps) (simp add: digits_value_snoc)
  qed
qed

lemma parse_uint64_show: "n < 2 ^ 64 \<Longrightarrow> parse_uint64 (show_nat n) = Some n"
  by (simp add: parse_uint64_def show_nat_digits)

lemma hd_show_nat_digit: "is_digit (hd (show_nat n))"
  using show_nat_digits [of n] by (cases "show_nat n") auto

lemma parse_int64_show:
  assumes "0 \<le> i" and "i < 2 ^ 63"
  shows "parse_int64 (show_int i) = Some i"
proof -
  obtain c cs where s: "show_nat (nat i) = c # cs"
    by (cases "show_nat (nat i)") auto
  have "is_digit c"
    using hd_show_nat_digit [of "nat i"] s by simp
  then have "c \<noteq> CHR ''-''" "c \<noteq> CHR ''+''"
    by (auto simp: is_digit_def)
  moreover have "list_all is_digit (c # cs)"
    using show_nat_digits [of "nat i"] s by simp
  moreover have "digits_value (c # cs) = nat i"
    using digits_value_show_nat [of "nat i"] s by simp
  moreover have "nat i < 2 ^ 63" using assms by simp
  ultimately show ?thesis
    using assms s by (simp add: parse_int64_def show_int_def Let_def)
qed

lemma show_nat_inj: "show_nat m = show_nat n \<Longrightarrow> m = n"
  by (metis digits_value_show_nat)

lemma show_int_inj: "show_int i = show_int j \<Longrightarrow> i = j"
proof -
  assume eq: "show_int i = show_int j"
  have no_minus: "show_nat n \<noteq> CHR ''-'' # s" for n s
    using show_nat_digits [of n] by (auto simp: is_digit_def)
  show "i = j"
  proof (cases "i < 0"; cases "j < 0")
    assume "i < 0" "j < 0"
    with eq have "nat (- i) = nat (- j)"
      by (auto simp: show_int_def intro: show_nat_inj)
    with \<open>i < 0\<close> \<open>j < 0\<close> show ?thesis by simp
  next
    assume "\<not> i < 0" "\<not> j < 0"
    with eq have "nat i = nat j"
      by (auto simp: show_int_def intro: show_nat_inj)
    with \<open>\<not> i < 0\<close> \<open>\<not> j < 0\<close> show ?thesis by simp
  qed (use eq no_minus in \<open>auto simp: show_int_def dest: sym\<close>)
qed

end
