(* ===== verification/Domain.thy ===== *)
theory Domain
  imports GoStrings
begin

text \<open>
  The data model of \<open>pkg/domain\<close>: accounts, pages, review requests, comments, access
  rules and the errors that cross the layers. The string enumerations of the Go code stay
  strings (any value can reach the validation functions); a timestamp is an integer that
  counts ticks from Go's zero time, so that 0 is \<open>time.Time{}\<close>; a Go map is an association
  list read by its first entry for a key.
\<close>

type_synonym time = int
type_synonym strmap = "(string \<times> string) list"

definition strmap_equal :: "strmap \<Rightarrow> strmap \<Rightarrow> bool" where
  "strmap_equal m n = list_all (\<lambda>k. map_of m k = map_of n k) (map fst m @ map fst n)"

lemma strmap_equal_iff: "strmap_equal m n \<longleftrightarrow> map_of m = map_of n"
proof
  assume eq: "strmap_equal m n"
  show "map_of m = map_of n"
  proof
    fix k
    show "map_of m k = map_of n k"
    proof (cases "k \<in> fst ` set m \<union> fst ` set n")
      case True
      with eq show ?thesis by (auto simp: strmap_equal_def list_all_iff)
    next
      case False
      then have "map_of m k = None" "map_of n k = None"
        by (auto simp: map_of_eq_None_iff)
      then show ?thesis by simp
    qed
  qed
qed (simp add: strmap_equal_def list_all_iff)

section \<open>Errors\<close>

text \<open>
  The error values of \<open>errors.go\<close>. \<open>InfrastructureError\<close> stands for an error that the
  application does not classify (a failed constraint without a domain meaning, a failed call).
\<close>

datatype error =
    ErrNotFound
  | ErrRevisionNotFound
  | ErrCommentNotFound
  | ErrAlreadyExists
  | ErrForbidden
  | ErrRegistrationDisabled
  | ErrIdentityApprovalRequired
  | ErrIdentityRejected
  | ErrPageInBin
  | ErrStaleReview
  | ErrReviewPending
  | ErrReviewClosed
  | ErrReviewChangesRequired
  | ErrReviewSuggestionConflict
  | ErrStaleSuggestion
  | ErrDiscussionsDisabled
  | ValidationError "(string \<times> string) list"
  | GroupAssignmentError string
  | PageEditConflictError int
  | InfrastructureError string

abbreviation NewValidationError :: "string \<Rightarrow> string \<Rightarrow> error" where
  "NewValidationError field message \<equiv> ValidationError [(field, message)]"

text \<open>\<open>errors.Is(err, domain.ErrNotFound)\<close> and \<open>errors.Is(err, domain.ErrForbidden)\<close> follow the wrapping.\<close>

definition is_not_found :: "error \<Rightarrow> bool" where
  "is_not_found e = (e = ErrNotFound \<or> e = ErrRevisionNotFound \<or> e = ErrCommentNotFound)"

definition is_forbidden :: "error \<Rightarrow> bool" where
  "is_forbidden e = (case e of ErrForbidden \<Rightarrow> True | GroupAssignmentError _ \<Rightarrow> True | _ \<Rightarrow> False)"

definition UserMessage :: "(string \<times> string) list \<Rightarrow> string" where
  "UserMessage fields = (case fields of [] \<Rightarrow> [] | f # _ \<Rightarrow> snd f)"

section \<open>Enumerations\<close>

abbreviation "PageReviewStatusPending \<equiv> ''pending''"
abbreviation "PageReviewStatusChangesRequested \<equiv> ''changes_requested''"
abbreviation "PageReviewStatusApproved \<equiv> ''approved''"
abbreviation "PageReviewStatusCanceled \<equiv> ''canceled''"
abbreviation "PageReviewStatusSuperseded \<equiv> ''superseded''"
abbreviation "PageReviewCommentSideOld \<equiv> ''old''"
abbreviation "PageReviewCommentSideNew \<equiv> ''new''"
abbreviation "PageAccessView \<equiv> ''view''"
abbreviation "PageAccessEdit \<equiv> ''edit''"
abbreviation "PageStatusDraft \<equiv> ''draft''"
abbreviation "PageStatusVerified \<equiv> ''verified''"
abbreviation "PageStatusDeprecated \<equiv> ''deprecated''"
abbreviation "PageStatusArchived \<equiv> ''archived''"
abbreviation "UserRoleAdmin \<equiv> ''admin''"
abbreviation "UserRoleEditor \<equiv> ''editor''"
abbreviation "UserRoleViewer \<equiv> ''viewer''"
abbreviation "ProfileSourceLocal \<equiv> ''local''"
abbreviation "ProfileSourceOIDC \<equiv> ''oidc''"
abbreviation "ProfileSourceProxy \<equiv> ''proxy''"

definition PageStatuses :: "string list" where
  "PageStatuses = [PageStatusDraft, PageStatusVerified, PageStatusDeprecated, PageStatusArchived]"

definition ValidPageStatus :: "string \<Rightarrow> bool" where
  "ValidPageStatus v = (v \<in> set [PageStatusDraft, PageStatusVerified, PageStatusDeprecated, PageStatusArchived])"

definition ValidUserRole :: "string \<Rightarrow> bool" where
  "ValidUserRole v = (v = UserRoleAdmin \<or> v = UserRoleEditor \<or> v = UserRoleViewer)"

definition ValidReviewIntervalDays :: "int \<Rightarrow> bool" where
  "ValidReviewIntervalDays days = (days \<ge> 0 \<and> days \<le> 3650)"

definition ValidNavigationStyle :: "string \<Rightarrow> bool" where
  "ValidNavigationStyle v = (v = ''sidebar'' \<or> v = ''topbar'' \<or> v = ''tree'')"

definition ValidNavigationDensity :: "string \<Rightarrow> bool" where
  "ValidNavigationDensity v = (v = ''comfortable'' \<or> v = ''compact'')"

definition ValidRobotsPolicy :: "string \<Rightarrow> bool" where
  "ValidRobotsPolicy v = (v = ''allow'' \<or> v = ''disallow'' \<or> v = ''none'')"

definition ValidTypographySize :: "string \<Rightarrow> bool" where
  "ValidTypographySize v = (v = ''compact'' \<or> v = ''standard'' \<or> v = ''large'')"

definition ValidSidebarWidth :: "int \<Rightarrow> bool" where
  "ValidSidebarWidth width = (width \<ge> 220 \<and> width \<le> 420)"

section \<open>Accounts\<close>

record user =
  u_id :: int
  u_username :: string
  u_email :: string
  u_display :: string
  u_role :: string
  u_enabled :: bool
  u_external_admin :: bool
  u_session_version :: int

definition IsAdministrator :: "user \<Rightarrow> bool" where
  "IsAdministrator u = (u_role u = UserRoleAdmin \<or> u_external_admin u)"

definition CanEditContent :: "user \<Rightarrow> bool" where
  "CanEditContent u = (IsAdministrator u \<or> u_role u = UserRoleEditor)"

text \<open>An account with the fields the authorization reads; the others are immaterial there.\<close>

definition account :: "int \<Rightarrow> string \<Rightarrow> user" where
  "account i role = \<lparr>u_id = i, u_username = [], u_email = [], u_display = [], u_role = role,
     u_enabled = True, u_external_admin = False, u_session_version = 1\<rparr>"

record group =
  g_id :: int
  g_name :: string

section \<open>Pages\<close>

record page_heading =
  hd_level :: int
  hd_id :: string
  hd_title :: string

record page_render =
  rd_html :: string
  rd_contents :: "page_heading list"
  rd_fingerprint :: string

text \<open>The plugin-usage index is derived data that the modelled code only stores: its encoded form.\<close>

type_synonym plugin_usage = "string option"

record page_property =
  pp_key :: string
  pp_value :: string

record page =
  pg_id :: int
  pg_slug :: string
  pg_title :: string
  pg_icon :: string
  pg_language :: string
  pg_markdown :: string
  pg_usage :: plugin_usage
  pg_render :: page_render
  pg_created_by :: int
  pg_updated_by :: int
  pg_created_at :: time
  pg_updated_at :: time
  pg_tags :: "string list"
  pg_groups :: "group list"
  pg_view_count :: int
  pg_status :: string
  pg_owner_group :: int
  pg_last_reviewed :: "time option"
  pg_review_interval :: int
  pg_deprecated_target :: string
  pg_properties :: "page_property list"

text \<open>The zero value \<open>domain.Page{}\<close>.\<close>

definition zero_page :: page where
  "zero_page = \<lparr>pg_id = 0, pg_slug = [], pg_title = [], pg_icon = [], pg_language = [], pg_markdown = [],
     pg_usage = None, pg_render = \<lparr>rd_html = [], rd_contents = [], rd_fingerprint = []\<rparr>,
     pg_created_by = 0, pg_updated_by = 0, pg_created_at = 0, pg_updated_at = 0, pg_tags = [],
     pg_groups = [], pg_view_count = 0, pg_status = [], pg_owner_group = 0, pg_last_reviewed = None,
     pg_review_interval = 0, pg_deprecated_target = [], pg_properties = []\<rparr>"

record page_metadata =
  md_status :: string
  md_owner_group :: int
  md_review_interval :: int
  md_mark_reviewed :: bool
  md_deprecated_target :: string
  md_usage :: plugin_usage

record page_link =
  ln_target_id :: int
  ln_resolved_slug :: string
  ln_target_slug :: string
  ln_target_title :: string
  ln_exists :: bool

record move_options =
  mo_children :: bool
  mo_update_links :: bool

section \<open>Access rules\<close>

record page_access =
  pa_restricted :: bool
  pa_can_view :: bool
  pa_can_edit :: bool

record access_rule =
  ar_id :: int
  ar_path :: string
  ar_group :: int
  ar_access :: string

section \<open>Reviews and discussions\<close>

record review_request =
  rr_id :: int
  rr_page_slug :: string
  rr_revision :: int
  rr_requested_by :: int
  rr_reviewer_group :: int
  rr_reviewers :: "int list"
  rr_reviewed_by :: int
  rr_status :: string
  rr_note :: string
  rr_decision_note :: string
  rr_previous_status :: string
  rr_created_at :: time
  rr_updated_at :: time

record review_comment =
  rc_id :: int
  rc_request :: int
  rc_author :: int
  rc_side :: string
  rc_start :: int
  rc_end :: int
  rc_body :: string
  rc_suggestion :: bool
  rc_original :: string
  rc_replacement :: string
  rc_applied_by :: int
  rc_applied_at :: "time option"
  rc_created_at :: time

record comment_suggestion =
  sg_revision :: int
  sg_start :: int
  sg_end :: int
  sg_original :: string
  sg_replacement :: string
  sg_applied_by :: int
  sg_applied_at :: "time option"

record page_comment =
  pc_id :: int
  pc_page :: int
  pc_author :: int
  pc_parent :: int
  pc_anchor :: string
  pc_quote :: string
  pc_body :: string
  pc_suggestion :: "comment_suggestion option"
  pc_resolved :: "time option"
  pc_created_at :: time

section \<open>Profile updates\<close>

record user_profile =
  pr_user :: int
  pr_source :: string
  pr_username :: string
  pr_email :: string
  pr_display :: string
  pr_provider_username :: string
  pr_provider_email :: string
  pr_provider_display :: string
  pr_username_overridden :: bool
  pr_email_overridden :: bool
  pr_display_overridden :: bool
  pr_proxy_username :: string

record account_update =
  au_user :: int
  au_username :: "string option"
  au_email :: "string option"
  au_display :: "string option"
  au_revert_username :: bool
  au_revert_email :: bool
  au_revert_display :: bool
  au_role :: string
  au_enabled :: bool
  au_groups :: "int list"
  au_local_credential :: "bool option"
  au_password_hash :: string

definition updatedProfileField ::
  "string \<Rightarrow> bool \<Rightarrow> string \<Rightarrow> string option \<Rightarrow> bool \<Rightarrow> bool \<Rightarrow> string \<times> bool" where
  "updatedProfileField current overridden provider replacement revert providerManaged =
     (if revert then (provider, False)
      else case replacement of
        Some r \<Rightarrow> (TrimSpace r, providerManaged)
      | None \<Rightarrow> (current, overridden))"

definition UpdatedProfile :: "account_update \<Rightarrow> user_profile \<Rightarrow> user_profile" where
  "UpdatedProfile u p =
     (let managed = (pr_source p \<noteq> ProfileSourceLocal);
          (un, uo) = updatedProfileField (pr_username p) (pr_username_overridden p)
                       (pr_provider_username p) (au_username u) (au_revert_username u) managed;
          (em, eo) = updatedProfileField (pr_email p) (pr_email_overridden p)
                       (pr_provider_email p) (au_email u) (au_revert_email u) managed;
          (dn, dno) = updatedProfileField (pr_display p) (pr_display_overridden p)
                       (pr_provider_display p) (au_display u) (au_revert_display u) managed
      in p\<lparr>pr_username := un, pr_username_overridden := uo,
           pr_email := em, pr_email_overridden := eo,
           pr_display := dn, pr_display_overridden := dno\<rparr>)"

section \<open>Page URLs\<close>

definition PageURL :: "int \<Rightarrow> string \<Rightarrow> string" where
  "PageURL pid slug =
     (let path = ''/p/'' @ show_int pid; s = TrimByte (CHR ''/'') (TrimSpace slug) in
      if s = [] then path else path @ ''/'' @ s)"

end
