(* ===== verification/Slugs.thy ===== *)
theory Slugs
  imports Domain
begin

text \<open>
  Canonical page paths: the ASCII classes of \<open>pkg/ascii\<close>, \<open>Slug\<close> of
  \<open>pkg/markdown/slug.go\<close> and the move rules of \<open>pkg/pagemove\<close>. The lemmas show that a
  slug stays inside its alphabet, never starts or ends with a hyphen, and is a fixed point
  of \<open>Slug\<close>; and that a normalised move never moves a tree into itself.
\<close>

section \<open>ASCII classes\<close>

definition IsASCII :: "char \<Rightarrow> bool" where
  "IsASCII c = (byte c \<le> 0x7F)"

definition IsLowercaseLetter :: "char \<Rightarrow> bool" where
  "IsLowercaseLetter c = (97 \<le> byte c \<and> byte c \<le> 122)"

definition IsUppercaseLetter :: "char \<Rightarrow> bool" where
  "IsUppercaseLetter c = (65 \<le> byte c \<and> byte c \<le> 90)"

definition IsLetter :: "char \<Rightarrow> bool" where
  "IsLetter c = (IsLowercaseLetter c \<or> IsUppercaseLetter c)"

definition IsDigit :: "char \<Rightarrow> bool" where
  "IsDigit c = (48 \<le> byte c \<and> byte c \<le> 57)"

definition IsAlphanumeric :: "char \<Rightarrow> bool" where
  "IsAlphanumeric c = (IsLetter c \<or> IsDigit c)"

definition IsHexDigit :: "char \<Rightarrow> bool" where
  "IsHexDigit c = (IsDigit c \<or> (97 \<le> byte c \<and> byte c \<le> 102) \<or> (65 \<le> byte c \<and> byte c \<le> 70))"

definition ToLowerByte :: "char \<Rightarrow> char" where
  "ToLowerByte c = (if 65 \<le> byte c \<and> byte c \<le> 90 then char_of (byte c + 32) else c)"

lemmas ascii_defs = IsASCII_def IsLowercaseLetter_def IsUppercaseLetter_def IsLetter_def
  IsDigit_def IsAlphanumeric_def IsHexDigit_def

lemma byte_ToLowerByte:
  "byte (ToLowerByte c) = (if 65 \<le> byte c \<and> byte c \<le> 90 then byte c + 32 else byte c)"
  by (simp add: ToLowerByte_def)

lemma byte_eq_iff: "byte c = byte d \<longleftrightarrow> c = d"
  by (metis char_of_char)

lemma ToLowerByte_idem [simp]: "ToLowerByte (ToLowerByte c) = ToLowerByte c"
  by (simp add: byte_eq_iff [symmetric] byte_ToLowerByte)

section \<open>Slug\<close>

text \<open>\<open>isSlugByte\<close>: letters, digits, slash, underscore, hyphen.\<close>

definition isSlugByte :: "char \<Rightarrow> bool" where
  "isSlugByte c = (IsAlphanumeric c \<or> c = CHR ''/'' \<or> c = CHR ''_'' \<or> c = CHR ''-'')"

definition writePendingSlugSeparator :: "string \<Rightarrow> bool \<Rightarrow> string" where
  "writePendingSlugSeparator output pending =
     (if pending \<and> length output > 0 then output @ ''-'' else output)"

text \<open>The builder is returned next to the flag that a separator remains pending.\<close>

definition writeSlugByte :: "string \<Rightarrow> char \<Rightarrow> bool \<Rightarrow> string \<times> bool" where
  "writeSlugByte output c separator =
     (if \<not> isSlugByte c then (output, True)
      else (writePendingSlugSeparator output separator @ [c], False))"

definition writeSlugRune :: "string \<Rightarrow> nat \<Rightarrow> bool \<Rightarrow> string \<times> bool" where
  "writeSlugRune output r separator =
     (if r > 0x7F then (output, True) else writeSlugByte output (char_of r) separator)"

text \<open>
  \<open>unicode.ToLower\<close> on a rune above ASCII, up to the choice of the non-ASCII result: only
  U+0130 and U+212A have an ASCII lower case, and \<open>writeSlugRune\<close> does not look further at
  any other.
\<close>

definition rune_ToLower :: "nat \<Rightarrow> nat" where
  "rune_ToLower r = (if r = 0x130 then 0x69 else if r = 0x212A then 0x6B else r)"

function slug_loop :: "string \<Rightarrow> string \<Rightarrow> bool \<Rightarrow> string" where
  "slug_loop s output separator =
     (case s of
        [] \<Rightarrow> output
      | c # cs \<Rightarrow>
          if IsASCII c then
            (case writeSlugByte output (ToLowerByte c) separator of
               (output', separator') \<Rightarrow> slug_loop cs output' separator')
          else
            (case writeSlugRune output (rune_ToLower (fst (decode_rune s))) separator of
               (output', separator') \<Rightarrow> slug_loop (drop (snd (decode_rune s)) s) output' separator'))"
  by pat_completeness auto
termination
  by (relation "measure (\<lambda>(s, output, separator). length s)") (auto simp: decode_rune_width)

declare slug_loop.simps [simp del]

definition Slug :: "string \<Rightarrow> string" where
  "Slug v = TrimByte (CHR ''-'') (slug_loop (TrimSpace v) [] False)"

text \<open>The canonical alphabet: slug bytes without capitals.\<close>

definition slug_char :: "char \<Rightarrow> bool" where
  "slug_char c = (isSlugByte c \<and> \<not> IsUppercaseLetter c)"

lemma slug_char_ToLowerByte: "isSlugByte (ToLowerByte c) \<Longrightarrow> slug_char (ToLowerByte c)"
  by (auto simp: slug_char_def IsUppercaseLetter_def byte_ToLowerByte)

lemma slug_char_low_rune: "(r::nat) \<le> 0x7F \<Longrightarrow> isSlugByte (char_of r) \<Longrightarrow>
    r \<in> {0x69, 0x6B} \<Longrightarrow> slug_char (char_of r)"
  by (auto simp: slug_char_def IsUppercaseLetter_def)

lemma writeSlugByte_alphabet:
  assumes "list_all slug_char out" and "isSlugByte c \<longrightarrow> slug_char c"
  shows "list_all slug_char (fst (writeSlugByte out c sep))"
  using assms
  by (auto simp: writeSlugByte_def writePendingSlugSeparator_def slug_char_def isSlugByte_def
      IsUppercaseLetter_def)

text \<open>A rune decoded from a non-ASCII first byte is above ASCII.\<close>

lemma mod_window: "k * n \<le> b \<Longrightarrow> b < k * n + n \<Longrightarrow> b mod n = b - k * n" for b :: nat
  by (metis add_diff_inverse_nat add_less_cancel_left mod_less mod_mult_self3 not_less)

lemma decode_rune_not_ASCII:
  assumes "\<not> IsASCII c"
  shows "fst (decode_rune (c # cs)) > 0x7F"
proof -
  let ?b = "byte c"
  have two: "2 \<le> ?b mod 32" if "194 \<le> ?b" "?b < 224"
    using that mod_window [of 6 32 ?b] by simp
  have three: "?b = 224 \<or> 1 \<le> ?b mod 16" if "224 \<le> ?b" "?b < 240"
    using that mod_window [of 14 16 ?b] by simp linarith
  have four: "?b = 240 \<or> 1 \<le> ?b mod 8" if "240 \<le> ?b" "?b < 245"
    using that mod_window [of 30 8 ?b] by simp linarith
  have cont: "32 \<le> n mod 64" if "160 \<le> n" "n \<le> 191" for n :: nat
    using that mod_window [of 2 64 n] by simp
  have cont4: "16 \<le> n mod 64" if "144 \<le> n" "n \<le> 191" for n :: nat
    using that mod_window [of 2 64 n] by simp
  consider "?b < 194" | "194 \<le> ?b \<and> ?b < 224" | "224 \<le> ?b \<and> ?b < 240"
    | "240 \<le> ?b \<and> ?b < 245" | "245 \<le> ?b" by linarith
  then show ?thesis
  proof cases
    case 1
    with assms show ?thesis by (simp add: decode_rune_def IsASCII_def rune_error_def Let_def)
  next
    case 2
    with two show ?thesis by (simp add: decode_rune_def rune_error_def Let_def)
  next
    case 3
    with three show ?thesis
      by (auto simp: decode_rune_def rune_error_def Let_def is_cont_def dest!: cont)
  next
    case 4
    with four show ?thesis
      by (auto simp: decode_rune_def rune_error_def Let_def is_cont_def dest!: cont4)
  next
    case 5
    then show ?thesis by (simp add: decode_rune_def rune_error_def Let_def)
  qed
qed

lemma slug_loop_alphabet:
  "list_all slug_char out \<Longrightarrow> list_all slug_char (slug_loop s out sep)"
proof (induction s out sep rule: slug_loop.induct)
  case (1 s out sep)
  show ?case
  proof (cases s)
    case Nil
    with "1.prems" show ?thesis by (simp add: slug_loop.simps)
  next
    case (Cons c cs)
    show ?thesis
    proof (cases "IsASCII c")
      case True
      obtain o' p' where w: "writeSlugByte out (ToLowerByte c) sep = (o', p')"
        by fastforce
      have "list_all slug_char o'"
        using writeSlugByte_alphabet [OF "1.prems", of "ToLowerByte c" sep] w
          slug_char_ToLowerByte by simp
      then show ?thesis
        using "1.IH"(1) [OF Cons True w [symmetric]] Cons True w
        by (simp add: slug_loop.simps [of "c # cs"])
    next
      case False
      let ?r = "rune_ToLower (fst (decode_rune s))"
      obtain o' p' where w: "writeSlugRune out ?r sep = (o', p')"
        by fastforce
      have "?r > 0x7F \<or> ?r \<in> {0x69, 0x6B}"
        using decode_rune_not_ASCII [OF False, of cs] Cons by (auto simp: rune_ToLower_def)
      then have "list_all slug_char (fst (writeSlugRune out ?r sep))"
        using "1.prems" writeSlugByte_alphabet [OF "1.prems", of "char_of ?r" sep]
          slug_char_low_rune [of ?r]
        by (auto simp: writeSlugRune_def)
      then have "list_all slug_char o'"
        using w by simp
      then show ?thesis
        using "1.IH"(2) [OF Cons False w [symmetric]] Cons False w
        by (simp add: slug_loop.simps [of "c # cs"])
    qed
  qed
qed

lemma set_TrimByte: "set (TrimByte c s) \<subseteq> set s"
proof
  fix x
  assume "x \<in> set (TrimByte c s)"
  then have "x \<in> set (rev (dropWhile (\<lambda>x. x = c) s))"
    unfolding TrimByte_def TrimRightByte_def
    by (metis set_dropWhileD set_rev)
  then have "x \<in> set (dropWhile (\<lambda>x. x = c) s)" by simp
  then show "x \<in> set s" by (rule set_dropWhileD)
qed

lemma hd_dropWhile_neq: "dropWhile (\<lambda>x. x = c) s \<noteq> [] \<Longrightarrow> hd (dropWhile (\<lambda>x. x = c) s) \<noteq> c"
  by (induction s) auto

lemma last_TrimRightByte: "TrimRightByte c s \<noteq> [] \<Longrightarrow> last (TrimRightByte c s) \<noteq> c"
  unfolding TrimRightByte_def by (simp add: last_rev hd_dropWhile_neq)

lemma TrimRightByte_prefix: "prefix (TrimRightByte c s) s"
  unfolding TrimRightByte_def
  by (metis rev_rev_ident suffix_dropWhile suffix_to_prefix)

lemma hd_TrimByte: "TrimByte c s \<noteq> [] \<Longrightarrow> hd (TrimByte c s) \<noteq> c"
proof -
  assume ne: "TrimByte c s \<noteq> []"
  let ?t = "dropWhile (\<lambda>x. x = c) s"
  have "prefix (TrimByte c s) ?t"
    by (simp add: TrimByte_def TrimRightByte_prefix)
  then obtain zs where zs: "?t = TrimByte c s @ zs"
    by (auto simp: prefix_def)
  then have "?t \<noteq> []" using ne by (metis append_is_Nil_conv)
  then have "hd ?t \<noteq> c" by (rule hd_dropWhile_neq)
  then show ?thesis using zs ne by simp
qed

lemma last_TrimByte: "TrimByte c s \<noteq> [] \<Longrightarrow> last (TrimByte c s) \<noteq> c"
  unfolding TrimByte_def by (rule last_TrimRightByte)

lemma TrimByte_id: "s = [] \<or> (hd s \<noteq> c \<and> last s \<noteq> c) \<Longrightarrow> TrimByte c s = s"
proof -
  assume "s = [] \<or> (hd s \<noteq> c \<and> last s \<noteq> c)"
  moreover have "dropWhile (\<lambda>x. x = c) s = s" if "s \<noteq> []" "hd s \<noteq> c"
    using that by (cases s) auto
  moreover have "dropWhile (\<lambda>x. x = c) (rev s) = rev s" if "s \<noteq> []" "last s \<noteq> c"
    using that by (cases "rev s") (auto simp: last_rev)
  ultimately show ?thesis
    by (cases "s = []") (simp_all add: TrimByte_def TrimRightByte_def)
qed

lemma TrimByte_idem [simp]: "TrimByte c (TrimByte c s) = TrimByte c s"
  using hd_TrimByte last_TrimByte by (intro TrimByte_id) blast

lemma slug_alphabet: "c \<in> set (Slug v) \<Longrightarrow> slug_char c"
  using slug_loop_alphabet [of "[]" "TrimSpace v" False] set_TrimByte
  unfolding Slug_def list_all_iff by (auto dest: subsetD)

lemma slug_char_plain: "slug_char c \<Longrightarrow> 32 < byte c \<and> byte c < 128 \<and> IsASCII c"
  by (auto simp: slug_char_def isSlugByte_def ascii_defs)

lemma slug_char_lower: "slug_char c \<Longrightarrow> ToLowerByte c = c"
  by (auto simp: slug_char_def IsUppercaseLetter_def ToLowerByte_def)

lemma slug_loop_copy:
  "list_all slug_char s \<Longrightarrow> slug_loop s out False = out @ s"
proof (induction s arbitrary: out)
  case Nil
  then show ?case by (simp add: slug_loop.simps)
next
  case (Cons c cs)
  then have "IsASCII c" "ToLowerByte c = c" "isSlugByte c"
    by (auto simp: slug_char_plain slug_char_lower slug_char_def)
  with Cons show ?case
    by (subst slug_loop.simps) (simp add: writeSlugByte_def writePendingSlugSeparator_def)
qed

text \<open>A string over the alphabet without a hyphen at its ends is its own slug.\<close>

lemma Slug_fixed:
  assumes "list_all slug_char s" and "s = [] \<or> (hd s \<noteq> CHR ''-'' \<and> last s \<noteq> CHR ''-'')"
  shows "Slug s = s"
proof -
  have "TrimSpace s = s"
    using assms(1) by (intro TrimSpace_plain) (auto simp: list_all_iff dest: slug_char_plain)
  with assms show ?thesis
    by (simp add: Slug_def slug_loop_copy TrimByte_id)
qed

lemma Slug_ends: "Slug v = [] \<or> (hd (Slug v) \<noteq> CHR ''-'' \<and> last (Slug v) \<noteq> CHR ''-'')"
  unfolding Slug_def using hd_TrimByte last_TrimByte by blast

lemma Slug_idem [simp]: "Slug (Slug v) = Slug v"
  by (intro Slug_fixed Slug_ends) (auto simp: list_all_iff slug_alphabet)

section \<open>Page moves\<close>

definition NormalizeMove :: "string \<Rightarrow> string \<Rightarrow> move_options \<Rightarrow> error + (string \<times> string)" where
  "NormalizeMove oldSlug newSlug options =
     (let old = TrimByte (CHR ''/'') (TrimSpace oldSlug); new = Slug newSlug in
      if old = [] \<or> new = [] then
        Inl (NewValidationError ''slug'' ''A destination path is required.'')
      else if old = new then
        Inl (NewValidationError ''slug'' ''Choose a different destination path.'')
      else if mo_children options \<and> HasPrefix new (old @ ''/'') then
        Inl (NewValidationError ''slug'' ''A page tree cannot be moved inside itself.'')
      else Inr (old, new))"

definition NormalizeTarget :: "string \<Rightarrow> error + string" where
  "NormalizeTarget target =
     (let t = Slug target in
      if t = [] then Inl (NewValidationError ''target'' ''A target path is required.'') else Inr t)"

text \<open>\<open>path.Base\<close>: the last element of a path.\<close>

definition path_Base :: "string \<Rightarrow> string" where
  "path_Base p =
     (if p = [] then ''.''
      else let q = TrimRightByte (CHR ''/'') p in
        if q = [] then ''/'' else last (Split (CHR ''/'') q))"

definition MoveDestination :: "string \<Rightarrow> string \<Rightarrow> error + (string \<times> string)" where
  "MoveDestination source target =
     (let s = TrimByte (CHR ''/'') (TrimSpace source) in
      if s = [] then Inl (NewValidationError ''pages'' ''Choose valid pages to move.'')
      else let d = target @ ''/'' @ path_Base s in
        if s = d then
          Inl (NewValidationError ''target'' ''Choose a different destination for every selected page.'')
        else Inr (s, d))"

text \<open>Below: the descendants of a path are the paths that extend it by a slash.\<close>

definition below :: "string \<Rightarrow> string \<Rightarrow> bool" where
  "below p q = prefix (p @ ''/'') q"

lemma NormalizeMove_Inr:
  "NormalizeMove oldSlug newSlug options = Inr (old, new) \<Longrightarrow>
     old \<noteq> [] \<and> new \<noteq> [] \<and> old \<noteq> new \<and> new = Slug newSlug \<and>
     old = TrimByte (CHR ''/'') (TrimSpace oldSlug) \<and>
     (mo_children options \<longrightarrow> \<not> below old new)"
  by (auto simp: NormalizeMove_def Let_def below_def HasPrefix_def split: if_splits)

section \<open>Properties\<close>

text \<open>C26: A slug is canonical. It uses only lower-case letters, digits, slash, underscore and
  hyphen, neither starts nor ends with a hyphen, and slugging it again changes nothing; a text
  that already has this form is its own slug.\<close>

theorem slug_canonical:
  "list_all slug_char (Slug v) \<and>
   (Slug v = [] \<or> (hd (Slug v) \<noteq> CHR ''-'' \<and> last (Slug v) \<noteq> CHR ''-'')) \<and>
   Slug (Slug v) = Slug v \<and>
   (Slug v = v) = (list_all slug_char v \<and> (v = [] \<or> (hd v \<noteq> CHR ''-'' \<and> last v \<noteq> CHR ''-'')))"
proof -
  have alpha: "list_all slug_char (Slug w)" for w
    by (simp add: list_all_iff slug_alphabet)
  have "list_all slug_char v" "v = [] \<or> (hd v \<noteq> CHR ''-'' \<and> last v \<noteq> CHR ''-'')" if "Slug v = v"
    using alpha [of v] Slug_ends [of v] that by simp_all
  then show ?thesis
    using alpha [of v] Slug_ends [of v] Slug_fixed [of v] by auto
qed

text \<open>A normalised move is refused exactly when the old path is blank, the new path has no
  slug, both are the same path, or a whole tree would move below itself; otherwise it goes from
  the trimmed old path to the slug of the new one.\<close>

lemma normalize_move_spec:
  "NormalizeMove oldSlug newSlug options = Inr (a, b) \<longleftrightarrow>
     a = TrimByte (CHR ''/'') (TrimSpace oldSlug) \<and> b = Slug newSlug \<and>
     a \<noteq> [] \<and> b \<noteq> [] \<and> a \<noteq> b \<and> \<not> (mo_children options \<and> below a b)"
  by (auto simp: NormalizeMove_def Let_def below_def HasPrefix_def)

end
