(* ===== verification/Access.thy ===== *)
theory Access
  imports Slugs
begin

text \<open>
  Inherited path authorization: the SQL of \<open>internal/postgres/page_access.go\<close>, the
  service of \<open>internal/application/access/access.go\<close>, the policy helpers of
  \<open>require.go\<close> and \<open>pages/page_authorization.go\<close>. Two interfaces are locales: what the
  service relies on from its repository, and what every page use case relies on from the
  policy. Both are interpreted on the model of the Postgres store.
\<close>

section \<open>SQL LIKE\<close>

text \<open>\<open>text LIKE pattern\<close> of PostgreSQL on ASCII text, with its default escape character.\<close>

function like :: "string \<Rightarrow> string \<Rightarrow> bool" where
  "like pat s =
     (case pat of
        [] \<Rightarrow> s = []
      | p # ps \<Rightarrow>
          if p = CHR ''%'' then
            like ps s \<or> (case s of [] \<Rightarrow> False | c # cs \<Rightarrow> like pat cs)
          else if p = CHR ''_'' then (case s of [] \<Rightarrow> False | c # cs \<Rightarrow> like ps cs)
          else if p = CHR 0x5C then
            (case ps of [] \<Rightarrow> False
             | q # qs \<Rightarrow> (case s of [] \<Rightarrow> False | c # cs \<Rightarrow> c = q \<and> like qs cs))
          else (case s of [] \<Rightarrow> False | c # cs \<Rightarrow> c = p \<and> like ps cs))"
  by pat_completeness auto
termination
  by (relation "measure (\<lambda>(pat, s). length pat + length s)") auto

declare like.simps [simp del]

definition plain :: "string \<Rightarrow> bool" where
  "plain p = list_all (\<lambda>c. c \<noteq> CHR ''%'' \<and> c \<noteq> CHR ''_'' \<and> c \<noteq> CHR 0x5C) p"

lemma like_Nil [simp]: "like [] s = (s = [])"
  by (simp add: like.simps)

lemma like_percent: "like ''%'' s"
proof (induction s)
  case Nil
  show ?case by (simp add: like.simps)
next
  case (Cons c cs)
  show ?case using Cons.IH by (subst like.simps) simp
qed

lemma like_char:
  "c \<noteq> CHR ''%'' \<Longrightarrow> c \<noteq> CHR ''_'' \<Longrightarrow> c \<noteq> CHR 0x5C \<Longrightarrow>
   like (c # ps) s = (case s of [] \<Rightarrow> False | d # ds \<Rightarrow> d = c \<and> like ps ds)"
  by (subst like.simps) simp

lemma like_plain_append:
  "plain p \<Longrightarrow> like (p @ q) s \<longleftrightarrow> (\<exists>t. s = p @ t \<and> like q t)"
proof (induction p arbitrary: s)
  case (Cons c p)
  then show ?case by (cases s) (auto simp: plain_def like_char)
qed simp

text \<open>On a path without wildcards the pattern means the descendants of the path.\<close>

lemma like_subtree: "plain p \<Longrightarrow> like (p @ ''/%'') s \<longleftrightarrow> below p s"
proof -
  assume "plain p"
  moreover have "like ''/%'' t \<longleftrightarrow> (\<exists>u. t = CHR ''/'' # u)" for t
    by (cases t) (auto simp: like_char like_percent)
  ultimately show ?thesis
    by (auto simp: like_plain_append below_def prefix_def)
qed

section \<open>The rule table\<close>

record access_tables =
  at_rules :: "access_rule list"
  at_next :: int
  at_members :: "(int \<times> int) list"
  at_groups :: "int list"

definition rule_matches :: "string \<Rightarrow> access_rule \<Rightarrow> bool" where
  "rule_matches p r = (ar_path r = p \<or> like (ar_path r @ ''/%'') p)"

definition longer_first :: "string \<Rightarrow> string \<Rightarrow> int" where
  "longer_first a b = cmp_compare (length b) (length a)"

text \<open>
  \<open>GROUP BY path ORDER BY length(path) DESC LIMIT 1\<close>. The order says nothing about two matching
  paths of one length, which a wildcard in a rule path makes possible, and the two queries that
  use it need not agree on such a tie. They take the choice as a parameter \<open>pick\<close>, of which
  \<open>nearest_choice\<close> is all that SQL promises; \<open>nearest_path\<close> is one such choice.
\<close>

definition nearest_choice :: "access_rule list \<Rightarrow> (string \<Rightarrow> string option) \<Rightarrow> bool" where
  "nearest_choice rules pick = (\<forall>p. case pick p of
     None \<Rightarrow> \<forall>r \<in> set rules. \<not> rule_matches p r
   | Some n \<Rightarrow> (\<exists>r \<in> set rules. ar_path r = n \<and> rule_matches p r) \<and>
        (\<forall>r \<in> set rules. rule_matches p r \<longrightarrow> length (ar_path r) \<le> length n))"

definition nearest_path :: "access_rule list \<Rightarrow> string \<Rightarrow> string option" where
  "nearest_path rules p =
     (case sort_func longer_first (remdups (map ar_path (filter (rule_matches p) rules))) of
        [] \<Rightarrow> None | n # _ \<Rightarrow> Some n)"

definition granted :: "access_tables \<Rightarrow> string \<Rightarrow> int \<Rightarrow> string list \<Rightarrow> bool" where
  "granted t n uid levels =
     list_ex (\<lambda>r. ar_path r = n \<and> list_ex (\<lambda>m. m = (uid, ar_group r)) (at_members t)
                  \<and> ar_access r \<in> set levels) (at_rules t)"

definition PageAccess_by ::
  "(string \<Rightarrow> string option) \<Rightarrow> access_tables \<Rightarrow> string \<Rightarrow> int \<Rightarrow> error + page_access" where
  "PageAccess_by pick t p uid = Inr (case pick p of
     None \<Rightarrow> \<lparr>pa_restricted = False, pa_can_view = False, pa_can_edit = False\<rparr>
   | Some n \<Rightarrow> \<lparr>pa_restricted = True,
                pa_can_view = granted t n uid [PageAccessView, PageAccessEdit],
                pa_can_edit = granted t n uid [PageAccessEdit]\<rparr>)"

definition PageAccess :: "access_tables \<Rightarrow> string \<Rightarrow> int \<Rightarrow> error + page_access" where
  "PageAccess t = PageAccess_by (nearest_path (at_rules t)) t"

text \<open>
  The set-based query: every requested path is joined with its nearest path, the rules there
  and the memberships of the user; an outer join keeps a row of nulls, and \<open>bool_or\<close> runs
  over the rows of a group.
\<close>

definition left_join :: "'a list \<Rightarrow> 'a option list" where
  "left_join rows = (if rows = [] then [None] else map Some rows)"

definition batch_rows ::
  "access_tables \<Rightarrow> string option \<Rightarrow> int \<Rightarrow> (access_rule option \<times> (int \<times> int) option) list" where
  "batch_rows t near uid =
     concat (map (\<lambda>r. map (\<lambda>m. (r, m))
         (left_join (case r of
            None \<Rightarrow> []
          | Some r' \<Rightarrow> filter (\<lambda>m. snd m = ar_group r' \<and> fst m = uid) (at_members t))))
       (left_join (case near of None \<Rightarrow> [] | Some n \<Rightarrow> filter (\<lambda>r. ar_path r = n) (at_rules t))))"

definition row_grants :: "string list \<Rightarrow> access_rule option \<times> (int \<times> int) option \<Rightarrow> bool" where
  "row_grants levels row =
     (snd row \<noteq> None \<and> (case fst row of None \<Rightarrow> False | Some r \<Rightarrow> ar_access r \<in> set levels))"

definition PageAccessBatch_by ::
  "(string \<Rightarrow> string option) \<Rightarrow> access_tables \<Rightarrow> string list \<Rightarrow> int \<Rightarrow> error + (string \<times> page_access) list" where
  "PageAccessBatch_by pick t paths uid =
     (if paths = [] then Inr []
      else Inr (map (\<lambda>p. let near = pick p; rows = batch_rows t near uid in
             (p, \<lparr>pa_restricted = (near \<noteq> None),
                  pa_can_view = list_ex (row_grants [PageAccessView, PageAccessEdit]) rows,
                  pa_can_edit = list_ex (row_grants [PageAccessEdit]) rows\<rparr>)) (remdups paths)))"

definition PageAccessBatch ::
  "access_tables \<Rightarrow> string list \<Rightarrow> int \<Rightarrow> error + (string \<times> page_access) list" where
  "PageAccessBatch t = PageAccessBatch_by (nearest_path (at_rules t)) t"

text \<open>\<open>INSERT ... ON CONFLICT(path,group_id) DO UPDATE SET access\<close>, with the foreign key and the check.\<close>

definition store_SavePageAccessRule ::
  "access_tables \<Rightarrow> string \<Rightarrow> int \<Rightarrow> string \<Rightarrow> error + access_tables" where
  "store_SavePageAccessRule t path gid acc =
     (if acc \<noteq> PageAccessView \<and> acc \<noteq> PageAccessEdit
        then Inl (InfrastructureError ''page_access_rules_access_check'')
      else if gid \<notin> set (at_groups t)
        then Inl (InfrastructureError ''page_access_rules_group_id_fkey'')
      else if list_ex (\<lambda>r. ar_path r = path \<and> ar_group r = gid) (at_rules t)
        then Inr (t\<lparr>at_rules := update_rows (\<lambda>r. ar_path r = path \<and> ar_group r = gid)
                     (\<lambda>r. r\<lparr>ar_access := acc\<rparr>) (at_rules t)\<rparr>)
      else Inr (t\<lparr>at_rules := at_rules t @
                     [\<lparr>ar_id = at_next t, ar_path = path, ar_group = gid, ar_access = acc\<rparr>],
                  at_next := at_next t + 1\<rparr>))"

definition store_DeletePageAccessRule :: "access_tables \<Rightarrow> int \<Rightarrow> error + access_tables" where
  "store_DeletePageAccessRule t i =
     (if list_ex (\<lambda>r. ar_id r = i) (at_rules t)
      then Inr (t\<lparr>at_rules := delete_rows (\<lambda>r. ar_id r = i) (at_rules t)\<rparr>)
      else Inl ErrNotFound)"

section \<open>The access service\<close>

definition normalizeAccessPath :: "string \<Rightarrow> string" where
  "normalizeAccessPath path = TrimByte (CHR ''/'') (Slug path)"

definition CanView ::
  "(string \<Rightarrow> int \<Rightarrow> error + page_access) \<Rightarrow> user \<Rightarrow> string \<Rightarrow> error + bool" where
  "CanView repo u path =
     (if IsAdministrator u then Inr True
      else bindR (repo (normalizeAccessPath path) (u_id u))
        (\<lambda>a. Inr (\<not> pa_restricted a \<or> pa_can_view a)))"

definition CanEdit ::
  "(string \<Rightarrow> int \<Rightarrow> error + page_access) \<Rightarrow> user \<Rightarrow> string \<Rightarrow> error + bool" where
  "CanEdit repo u path =
     (if IsAdministrator u then Inr True
      else if \<not> CanEditContent u then Inr False
      else bindR (repo (normalizeAccessPath path) (u_id u))
        (\<lambda>a. Inr (\<not> pa_restricted a \<or> pa_can_edit a)))"

text \<open>The slug of a page is a parameter: the code filters pages and the paths of links alike.\<close>

definition FilterPages ::
  "(string list \<Rightarrow> int \<Rightarrow> error + (string \<times> page_access) list) \<Rightarrow> user \<Rightarrow> page list \<Rightarrow> error + page list" where
  "FilterPages batch u pages =
     (if IsAdministrator u \<or> pages = [] then Inr pages
      else bindR (batch (map (\<lambda>p. normalizeAccessPath (pg_slug p)) pages) (u_id u))
        (\<lambda>grants. Inr (filter (\<lambda>p. case map_of grants (normalizeAccessPath (pg_slug p)) of
             None \<Rightarrow> False
           | Some g \<Rightarrow> \<not> pa_restricted g \<or> pa_can_view g) pages)))"

definition SavePageAccessRule ::
  "access_tables \<Rightarrow> string \<Rightarrow> int \<Rightarrow> string \<Rightarrow> error + access_tables" where
  "SavePageAccessRule t path gid acc =
     (let p = normalizeAccessPath path in
      if p = [] then Inl (NewValidationError ''path'' ''A page path is required.'')
      else if gid \<le> 0 then Inl (NewValidationError ''group_id'' ''Choose a group.'')
      else if acc \<noteq> PageAccessView \<and> acc \<noteq> PageAccessEdit
        then Inl (NewValidationError ''access'' ''Choose view or edit access.'')
      else store_SavePageAccessRule t p gid acc)"

definition DeletePageAccessRule :: "access_tables \<Rightarrow> int \<Rightarrow> error + access_tables" where
  "DeletePageAccessRule t i =
     (if i \<le> 0 then Inl (NewValidationError ''rule'' ''Choose a valid access rule.'')
      else store_DeletePageAccessRule t i)"

section \<open>The policy of a use case\<close>

record policy =
  pol_view :: "user \<Rightarrow> string \<Rightarrow> error + bool"
  pol_edit :: "user \<Rightarrow> string \<Rightarrow> error + bool"

definition RequireView :: "policy \<Rightarrow> user \<Rightarrow> string \<Rightarrow> error + unit" where
  "RequireView pol actor path =
     (if TrimSpace path = [] then Inr ()
      else bindR (pol_view pol actor path)
        (\<lambda>allowed. if \<not> allowed then Inl ErrNotFound else Inr ()))"

definition RequireEdit :: "policy \<Rightarrow> user \<Rightarrow> string \<Rightarrow> error + unit" where
  "RequireEdit pol actor path =
     (if TrimSpace path = [] then Inr ()
      else bindR (pol_edit pol actor path)
        (\<lambda>allowed. if \<not> allowed then Inl ErrForbidden else Inr ()))"

text \<open>\<open>pageAuthorization\<close>: a use case may be built without a policy.\<close>

definition requireView :: "policy option \<Rightarrow> user \<Rightarrow> string \<Rightarrow> error + unit" where
  "requireView a actor slug = (case a of None \<Rightarrow> Inr () | Some pol \<Rightarrow> RequireView pol actor slug)"

definition requireEdit :: "policy option \<Rightarrow> user \<Rightarrow> string \<Rightarrow> error + unit" where
  "requireEdit a actor slug = (case a of None \<Rightarrow> Inr () | Some pol \<Rightarrow> RequireEdit pol actor slug)"

definition store_policy :: "access_tables \<Rightarrow> policy" where
  "store_policy t = \<lparr>pol_view = CanView (PageAccess t), pol_edit = CanEdit (PageAccess t)\<rparr>"

section \<open>The interfaces\<close>

text \<open>What page use cases rely on from \<open>appaccess.Policy\<close>.\<close>

locale page_policy =
  fixes pol :: policy
  assumes admin_view: "IsAdministrator u \<Longrightarrow> pol_view pol u p = Inr True"
    and admin_edit: "IsAdministrator u \<Longrightarrow> pol_edit pol u p = Inr True"
    and edit_role: "pol_edit pol u p = Inr True \<Longrightarrow> CanEditContent u"
    and edit_view: "pol_edit pol u p = Inr True \<Longrightarrow> pol_view pol u p = Inr True"
begin

lemma RequireEdit_RequireView: "RequireEdit pol u p = Inr () \<Longrightarrow> RequireView pol u p = Inr ()"
  by (auto simp: RequireEdit_def RequireView_def result_simps edit_view split: if_splits)

lemma RequireEdit_role: "RequireEdit pol u p = Inr () \<Longrightarrow> TrimSpace p \<noteq> [] \<Longrightarrow> CanEditContent u"
  by (auto simp: RequireEdit_def result_simps split: if_splits intro: edit_role)

lemma admin_allowed: "IsAdministrator u \<Longrightarrow> RequireEdit pol u p = Inr () \<and> RequireView pol u p = Inr ()"
  by (simp add: RequireEdit_def RequireView_def admin_view admin_edit)

end

text \<open>
  What the service relies on from its repository: the two queries agree, and an edit grant
  is a view grant.
\<close>

locale access_repository =
  fixes single :: "string \<Rightarrow> int \<Rightarrow> error + page_access"
    and batch :: "string list \<Rightarrow> int \<Rightarrow> error + (string \<times> page_access) list"
  assumes batch_single:
      "batch ps u = Inr m \<Longrightarrow> p \<in> set ps \<Longrightarrow> \<exists>a. map_of m p = Some a \<and> single p u = Inr a"
    and batch_total: "(\<And>p. p \<in> set ps \<Longrightarrow> \<exists>a. single p u = Inr a) \<Longrightarrow> \<exists>m. batch ps u = Inr m"
    and edit_grant: "single p u = Inr a \<Longrightarrow> pa_can_edit a \<Longrightarrow> pa_can_view a"
begin

lemma CanEdit_CanView: "CanEdit single u p = Inr True \<Longrightarrow> CanView single u p = Inr True"
  by (auto simp: CanEdit_def CanView_def result_simps edit_grant split: if_splits)

lemma FilterPages_CanView:
  assumes "FilterPages batch u pages = Inr vis"
  shows "vis = filter (\<lambda>p. CanView single u (pg_slug p) = Inr True) pages"
proof (cases "IsAdministrator u \<or> pages = []")
  case True
  with assms show ?thesis by (auto simp: FilterPages_def CanView_def)
next
  case False
  let ?n = "\<lambda>p. normalizeAccessPath (pg_slug p)"
  from assms False obtain m where m: "batch (map ?n pages) (u_id u) = Inr m"
    and vis: "vis = filter (\<lambda>p. case map_of m (?n p) of
                  None \<Rightarrow> False | Some g \<Rightarrow> \<not> pa_restricted g \<or> pa_can_view g) pages"
    by (auto simp: FilterPages_def result_simps)
  have "(case map_of m (?n p) of None \<Rightarrow> False | Some g \<Rightarrow> \<not> pa_restricted g \<or> pa_can_view g)
          \<longleftrightarrow> CanView single u (pg_slug p) = Inr True" if p: "p \<in> set pages" for p
  proof -
    from batch_single [OF m, of "?n p"] p obtain a
      where "map_of m (?n p) = Some a" "single (?n p) (u_id u) = Inr a" by auto
    with False show ?thesis by (simp add: CanView_def)
  qed
  then show ?thesis unfolding vis by (intro filter_cong) auto
qed

lemma FilterPages_total:
  assumes "\<And>p. \<exists>a. single p (u_id u) = Inr a"
  shows "\<exists>vis. FilterPages batch u pages = Inr vis"
  using batch_total [of "map (\<lambda>p. normalizeAccessPath (pg_slug p)) pages" "u_id u"] assms
  by (auto simp: FilterPages_def)

end

sublocale access_repository \<subseteq> service: page_policy
  "\<lparr>pol_view = CanView single, pol_edit = CanEdit single\<rparr>"
  by unfold_locales (auto simp: CanView_def CanEdit_def CanEditContent_def CanEdit_CanView
      intro: edit_grant split: if_splits simp: result_simps)

section \<open>The store provides the interfaces\<close>

lemma granted_iff:
  "granted t n uid levels \<longleftrightarrow> (\<exists>r \<in> set (at_rules t).
     ar_path r = n \<and> (uid, ar_group r) \<in> set (at_members t) \<and> ar_access r \<in> set levels)"
  by (auto simp: granted_def list_ex_iff)

lemma Some_in_left_join: "Some x \<in> set (left_join rows) \<longleftrightarrow> x \<in> set rows"
  by (auto simp: left_join_def)

lemma batch_rows_grant:
  "list_ex (row_grants levels) (batch_rows t near uid) \<longleftrightarrow>
     (case near of None \<Rightarrow> False | Some n \<Rightarrow> granted t n uid levels)"
proof -
  let ?rules = "case near of None \<Rightarrow> [] | Some n \<Rightarrow> filter (\<lambda>r. ar_path r = n) (at_rules t)"
  let ?mem = "\<lambda>r. filter (\<lambda>m. snd m = ar_group r \<and> fst m = uid) (at_members t)"
  have "list_ex (row_grants levels) (batch_rows t near uid) \<longleftrightarrow>
      (\<exists>r m. Some r \<in> set (left_join ?rules) \<and> Some m \<in> set (left_join (?mem r))
             \<and> ar_access r \<in> set levels)"
    unfolding batch_rows_def list_ex_iff row_grants_def
    by (force split: option.splits)
  also have "\<dots> \<longleftrightarrow> (case near of None \<Rightarrow> False | Some n \<Rightarrow> granted t n uid levels)"
    by (force simp: Some_in_left_join granted_iff split: option.splits)
  finally show ?thesis .
qed

lemma nearest_path_None:
  "nearest_path rules p = None \<longleftrightarrow> (\<forall>r \<in> set rules. \<not> rule_matches p r)"
proof -
  let ?ps = "remdups (map ar_path (filter (rule_matches p) rules))"
  have "nearest_path rules p = None \<longleftrightarrow> sort_func longer_first ?ps = []"
    by (cases "sort_func longer_first ?ps") (auto simp: nearest_path_def)
  also have "\<dots> \<longleftrightarrow> set (sort_func longer_first ?ps) = {}"
    by (simp only: set_empty)
  also have "\<dots> \<longleftrightarrow> (\<forall>r \<in> set rules. \<not> rule_matches p r)"
    by (simp add: filter_empty_conv) blast
  finally show ?thesis .
qed

interpretation longer: comparison longer_first
  by unfold_locales (auto simp: longer_first_def cmp_compare_def split: if_splits)

lemma nearest_path_Some:
  assumes "nearest_path rules p = Some n"
  shows "\<exists>r \<in> set rules. ar_path r = n \<and> rule_matches p r"
    and "\<And>r. r \<in> set rules \<Longrightarrow> rule_matches p r \<Longrightarrow> length (ar_path r) \<le> length n"
proof -
  let ?ps = "remdups (map ar_path (filter (rule_matches p) rules))"
  from assms obtain rest where s: "sort_func longer_first ?ps = n # rest"
    by (auto simp: nearest_path_def split: list.splits)
  have all: "set (n # rest) = set ?ps"
    using set_sort_func [of longer_first ?ps] s by simp
  then have "n \<in> set ?ps" by auto
  then show "\<exists>r \<in> set rules. ar_path r = n \<and> rule_matches p r" by auto
  fix r assume "r \<in> set rules" "rule_matches p r"
  then have "ar_path r \<in> set (n # rest)" using all by auto
  moreover have "sorted_wrt (\<lambda>x y. longer_first x y \<le> 0) (n # rest)"
    using longer.sorted_sort_func [of ?ps] s by simp
  ultimately show "length (ar_path r) \<le> length n"
    by (auto simp: longer_first_def cmp_compare_def split: if_splits)
qed

interpretation store_access: access_repository "PageAccess_by pick t" "PageAccessBatch_by pick t" for pick t
proof
  fix ps u m p
  assume m: "PageAccessBatch_by pick t ps u = Inr m" and p: "p \<in> set ps"
  then have ne: "ps \<noteq> []" by auto
  let ?a = "\<lambda>p. let near = pick p; rows = batch_rows t near u in
       \<lparr>pa_restricted = (near \<noteq> None),
        pa_can_view = list_ex (row_grants [PageAccessView, PageAccessEdit]) rows,
        pa_can_edit = list_ex (row_grants [PageAccessEdit]) rows\<rparr>"
  have "m = map (\<lambda>p. (p, ?a p)) (remdups ps)"
    using m ne by (simp add: PageAccessBatch_by_def Let_def)
  with p have "map_of m p = Some (?a p)"
    by (simp add: map_of_map_restrict)
  moreover have "PageAccess_by pick t p u = Inr (?a p)"
    by (auto simp: PageAccess_by_def batch_rows_grant Let_def split: option.splits)
  ultimately show "\<exists>a. map_of m p = Some a \<and> PageAccess_by pick t p u = Inr a"
    by blast
next
  show "\<exists>m. PageAccessBatch_by pick t ps u = Inr m" for ps u
    by (simp add: PageAccessBatch_by_def)
next
  show "pa_can_view a" if "PageAccess_by pick t p u = Inr a" "pa_can_edit a" for p u a
    using that by (auto simp: PageAccess_by_def granted_iff split: option.splits)
qed

interpretation wired: page_policy "store_policy t" for t
  unfolding store_policy_def PageAccess_def by (rule store_access.service.page_policy_axioms)

section \<open>The nearest rule set\<close>

definition governs :: "string \<Rightarrow> string \<Rightarrow> bool" where
  "governs n p = (n = p \<or> below n p)"

lemma rule_matches_plain: "plain (ar_path r) \<Longrightarrow> rule_matches p r \<longleftrightarrow> governs (ar_path r) p"
  by (auto simp: rule_matches_def governs_def like_subtree)

lemma governs_prefix: "governs n p \<Longrightarrow> prefix n p"
  by (auto simp: governs_def below_def prefix_def)

text \<open>The paths that govern one page form a chain.\<close>

lemma governs_chain:
  assumes "governs m p" and "governs n p" and "length m \<le> length n"
  shows "governs m n"
proof (cases "m = n")
  case False
  from assms have "prefix m n"
    by (meson governs_prefix prefix_length_prefix)
  with False obtain c zs where n: "n = m @ c # zs"
    by (auto simp: prefix_def) (metis append.right_neutral neq_Nil_conv)
  then have "prefix (m @ [c]) p"
    using governs_prefix [OF assms(2)] by (auto simp: prefix_def)
  moreover have "prefix (m @ ''/'') p"
    using assms(1) n governs_prefix [OF assms(2)]
    by (auto simp: governs_def below_def prefix_def)
  ultimately have "c = CHR ''/''"
    by (auto simp: prefix_def)
  with n show ?thesis by (simp add: governs_def below_def)
qed (simp add: governs_def)

lemma governs_antisym: "governs m n \<Longrightarrow> governs n m \<Longrightarrow> m = n"
  by (meson governs_prefix prefix_order.antisym)

lemma nearest_path_deepest:
  assumes "\<And>r. r \<in> set rules \<Longrightarrow> plain (ar_path r)"
  shows "nearest_path rules p = Some n \<longleftrightarrow>
     n \<in> ar_path ` set rules \<and> governs n p \<and>
     (\<forall>m \<in> ar_path ` set rules. governs m p \<longrightarrow> governs m n)" (is "?l = ?r")
proof
  assume l: ?l
  from nearest_path_Some [OF l] assms show ?r
    by (auto simp: rule_matches_plain intro: governs_chain)
next
  assume r: ?r
  then have "nearest_path rules p \<noteq> None"
    using assms by (auto simp: nearest_path_None rule_matches_plain)
  then obtain n' where n': "nearest_path rules p = Some n'" by auto
  from nearest_path_Some [OF n'] assms have "n' \<in> ar_path ` set rules" "governs n' p"
    "\<And>m. m \<in> ar_path ` set rules \<Longrightarrow> governs m p \<Longrightarrow> length m \<le> length n'"
    by (auto simp: rule_matches_plain)
  with r have "governs n' n" "governs n n'"
    by (auto intro: governs_chain)
  with n' show ?l using governs_antisym by blast
qed

lemma nearest_path_choice: "nearest_choice rules (nearest_path rules)"
  unfolding nearest_choice_def
  using nearest_path_None [of rules] nearest_path_Some [of rules] by (auto split: option.split)

text \<open>Without wildcards there is nothing to choose.\<close>

lemma nearest_choice_plain:
  assumes "\<And>r. r \<in> set rules \<Longrightarrow> plain (ar_path r)" and "nearest_choice rules pick"
  shows "pick = nearest_path rules"
proof
  fix p
  show "pick p = nearest_path rules p"
  proof (cases "pick p")
    case None
    with assms(2) have "\<forall>r \<in> set rules. \<not> rule_matches p r"
      unfolding nearest_choice_def by (auto dest: spec [of _ p])
    then have "nearest_path rules p = None" by (simp add: nearest_path_None)
    with None show ?thesis by simp
  next
    case (Some n)
    with assms(2) have n: "\<exists>r \<in> set rules. ar_path r = n \<and> rule_matches p r"
      "\<forall>r \<in> set rules. rule_matches p r \<longrightarrow> length (ar_path r) \<le> length n"
      unfolding nearest_choice_def by (auto dest: spec [of _ p])
    then have "nearest_path rules p = Some n"
      using assms(1) by (auto simp: nearest_path_deepest rule_matches_plain intro: governs_chain)
    with Some show ?thesis by simp
  qed
qed

text \<open>The deepest rule path that governs a page path.\<close>

definition deepest :: "access_rule list \<Rightarrow> string \<Rightarrow> string \<Rightarrow> bool" where
  "deepest rules p n =
     (n \<in> ar_path ` set rules \<and> governs n p \<and>
      (\<forall>m \<in> ar_path ` set rules. governs m p \<longrightarrow> governs m n))"

section \<open>The rule table keeps one row per path and group\<close>

definition access_wf :: "access_tables \<Rightarrow> bool" where
  "access_wf t =
     (distinct (map (\<lambda>r. (ar_path r, ar_group r)) (at_rules t)) \<and>
      distinct (map ar_id (at_rules t)) \<and>
      (\<forall>r \<in> set (at_rules t). ar_id r < at_next t \<and> ar_access r \<in> {PageAccessView, PageAccessEdit}))"

definition level_at :: "access_tables \<Rightarrow> string \<Rightarrow> int \<Rightarrow> string option" where
  "level_at t q h = map_option ar_access (row_with (\<lambda>r. ar_path r = q \<and> ar_group r = h) (at_rules t))"

lemma level_at_save:
  assumes "store_SavePageAccessRule t path g acc = Inr t'"
  shows "level_at t' q h = (if q = path \<and> h = g then Some acc else level_at t q h)"
proof (cases "list_ex (\<lambda>r. ar_path r = path \<and> ar_group r = g) (at_rules t)")
  case True
  let ?P = "\<lambda>r. ar_path r = path \<and> ar_group r = g"
  let ?Q = "\<lambda>r. ar_path r = q \<and> ar_group r = h"
  have t': "at_rules t' = update_rows ?P (\<lambda>r. r\<lparr>ar_access := acc\<rparr>) (at_rules t)"
    using assms True by (auto simp: store_SavePageAccessRule_def split: if_splits)
  obtain y where y: "row_with ?P (at_rules t) = Some y"
    using True by (cases "row_with ?P (at_rules t)") (auto simp: row_with_None list_ex_iff)
  have lvl: "level_at t' q h =
      map_option (\<lambda>r. ar_access (if ?P r then r\<lparr>ar_access := acc\<rparr> else r)) (row_with ?Q (at_rules t))"
    unfolding level_at_def t' by (subst row_with_update) (simp_all add: option.map_comp o_def)
  show ?thesis
  proof (cases "q = path \<and> h = g")
    case True
    then have "row_with ?Q (at_rules t) = Some y" using y by simp
    then show ?thesis using True row_with_Some [OF y] lvl by simp
  next
    case False
    then have "\<And>r. row_with ?Q (at_rules t) = Some r \<Longrightarrow> \<not> ?P r"
      by (auto dest: row_with_Some)
    then show ?thesis
      using False unfolding lvl by (cases "row_with ?Q (at_rules t)") (auto simp: level_at_def)
  qed
next
  case False
  then have none: "row_with (\<lambda>r. ar_path r = path \<and> ar_group r = g) (at_rules t) = None"
    by (auto simp: row_with_None list_ex_iff)
  have "at_rules t' = at_rules t @ [\<lparr>ar_id = at_next t, ar_path = path, ar_group = g, ar_access = acc\<rparr>]"
    using assms False by (auto simp: store_SavePageAccessRule_def split: if_splits)
  with none show ?thesis
    by (auto simp: level_at_def row_with_append split: option.splits)
qed

lemma access_wf_save:
  assumes "store_SavePageAccessRule t path g acc = Inr t'" and "access_wf t"
  shows "access_wf t'"
  using assms unfolding store_SavePageAccessRule_def access_wf_def
  by (auto simp: table_simps list_ex_iff split: if_splits) force+

lemma access_wf_delete:
  assumes "store_DeletePageAccessRule t i = Inr t'" and "access_wf t"
  shows "access_wf t'"
  using assms unfolding store_DeletePageAccessRule_def access_wf_def
  by (auto simp: table_simps intro: distinct_map_delete_rows split: if_splits)

section \<open>Properties\<close>

text \<open>Whatever the database does about ties, if both queries do the same.\<close>

lemma filter_pages_one_choice:
  "FilterPages (PageAccessBatch_by pick t) u pages =
     Inr (filter (\<lambda>p. CanView (PageAccess_by pick t) u (pg_slug p) = Inr True) pages)"
proof -
  obtain vis where "FilterPages (PageAccessBatch_by pick t) u pages = Inr vis"
    using store_access.FilterPages_total [of pick t u pages] by (auto simp: PageAccess_by_def)
  then show ?thesis
    using store_access.FilterPages_CanView [of pick t u pages vis] by simp
qed

text \<open>C10: Filtering a page list with the set-based query of the store keeps exactly the pages that
  the single-path check lets the account view, in their order, and it never fails: whichever
  longest matching rule path the database picks in the one query and in the other, provided no rule
  path has a LIKE wildcard.\<close>

theorem filter_pages_is_can_view:
  assumes "\<And>r. r \<in> set (at_rules t) \<Longrightarrow> plain (ar_path r)"
    and "nearest_choice (at_rules t) single" and "nearest_choice (at_rules t) batch"
  shows "FilterPages (PageAccessBatch_by batch t) u pages =
     Inr (filter (\<lambda>p. CanView (PageAccess_by single t) u (pg_slug p) = Inr True) pages)"
proof -
  have "single = batch"
    using nearest_choice_plain [OF assms(1,2)] nearest_choice_plain [OF assms(1,3)] by simp
  then show ?thesis by (simp add: filter_pages_one_choice)
qed

definition tie_tables :: "string \<Rightarrow> access_tables" where
  "tie_tables path = \<lparr>at_rules = [\<lparr>ar_id = 1, ar_path = path, ar_group = 7, ar_access = ''view''\<rparr>,
       \<lparr>ar_id = 2, ar_path = ''axb'', ar_group = 8, ar_access = ''view''\<rparr>],
     at_next = 3, at_members = [(3, 7)], at_groups = [7, 8]\<rparr>"

theorem filter_pages_is_can_view_witness:
  "let t = tie_tables ''a''; near = nearest_path (at_rules t); page = (\<lambda>slug. zero_page\<lparr>pg_slug := slug\<rparr>) in
   FilterPages (PageAccessBatch_by near t) (account 3 ''editor'') [page ''a/x'', page ''axb/c'', page ''z''] =
     Inr [page ''a/x'', page ''z'']"
proof -
  let ?t = "tie_tables ''a''" and ?u = "account 3 ''editor''" and ?page = "\<lambda>slug. zero_page\<lparr>pg_slug := slug\<rparr>"
  let ?near = "nearest_path (at_rules ?t)" and ?pages = "[?page ''a/x'', ?page ''axb/c'', ?page ''z'']"
  have "FilterPages (PageAccessBatch_by ?near ?t) ?u ?pages =
      Inr (filter (\<lambda>p. CanView (PageAccess_by ?near ?t) ?u (pg_slug p) = Inr True) ?pages)"
    by (rule filter_pages_is_can_view [OF _ nearest_path_choice nearest_path_choice])
      (auto simp: tie_tables_def plain_def)
  moreover have "CanView (PageAccess_by ?near ?t) ?u ''a/x'' = Inr True"
    "CanView (PageAccess_by ?near ?t) ?u ''axb/c'' = Inr False" "CanView (PageAccess_by ?near ?t) ?u ''z'' = Inr True"
    by code_simp+
  ultimately show ?thesis by (simp add: Let_def)
qed

text \<open>
  With a wildcard the two queries may disagree: both rules of this table match the path, they are of
  one length, and the member of the first group may view the page or not.
\<close>

lemma tied_rules_disagree:
  "\<exists>single batch. nearest_choice (at_rules (tie_tables ''a_b'')) single \<and> nearest_choice (at_rules (tie_tables ''a_b'')) batch \<and>
     CanView (PageAccess_by single (tie_tables ''a_b'')) (account 3 ''editor'') ''axb/c'' = Inr True \<and>
     CanView (PageAccess_by batch (tie_tables ''a_b'')) (account 3 ''editor'') ''axb/c'' = Inr False"
proof -
  let ?t = "tie_tables ''a_b''" and ?near = "nearest_path (at_rules (tie_tables ''a_b''))"
  let ?single = "?near(''axb/c'' := Some ''a_b'')" and ?batch = "?near(''axb/c'' := Some ''axb'')"
  have m: "list_all (rule_matches ''axb/c'') (at_rules ?t)" by code_simp
  have n: "normalizeAccessPath ''axb/c'' = ''axb/c''" by code_simp
  have c: "nearest_choice (at_rules ?t) (?near(''axb/c'' := Some k))" if "k \<in> {''a_b'', ''axb''}" for k
    using nearest_path_choice [of "at_rules ?t"] m that unfolding nearest_choice_def
    by (auto simp: tie_tables_def)
  have "CanView (PageAccess_by ?single ?t) (account 3 ''editor'') ''axb/c'' = Inr True"
    "CanView (PageAccess_by ?batch ?t) (account 3 ''editor'') ''axb/c'' = Inr False"
    by (simp_all add: CanView_def PageAccess_by_def n granted_def tie_tables_def account_def IsAdministrator_def)
  with c show ?thesis by blast
qed

text \<open>Passing the edit check of the wired policy implies passing its view check, and on a
  non-blank path it implies a role that may edit content.\<close>

lemma require_edit_implies_view:
  assumes "requireEdit (Some (store_policy t)) u p = Inr ()"
  shows "requireView (Some (store_policy t)) u p = Inr () \<and> (TrimSpace p = [] \<or> CanEditContent u)"
  using assms wired.RequireEdit_RequireView [of t u p] wired.RequireEdit_role [of t u p]
  by (auto simp: requireEdit_def requireView_def)

text \<open>C11: The nearest rule set decides. When no rule path has a LIKE wildcard, an account may view a
  path exactly if it is an administrator, or no rule path equals the path or is an ancestor of
  it, or one of its groups has a rule at the deepest such path; rules further up do not count.\<close>

theorem nearest_rules_decide:
  assumes "\<And>r. r \<in> set (at_rules t) \<Longrightarrow> plain (ar_path r)"
  shows "CanView (PageAccess t) u path = Inr
    (IsAdministrator u \<or>
     (\<forall>r \<in> set (at_rules t). \<not> governs (ar_path r) (normalizeAccessPath path)) \<or>
     (\<exists>r \<in> set (at_rules t). deepest (at_rules t) (normalizeAccessPath path) (ar_path r) \<and>
        (u_id u, ar_group r) \<in> set (at_members t) \<and> ar_access r \<in> {PageAccessView, PageAccessEdit}))"
proof -
  let ?p = "normalizeAccessPath path"
  have deep: "nearest_path (at_rules t) ?p = Some n \<longleftrightarrow> deepest (at_rules t) ?p n" for n
    using nearest_path_deepest [OF assms] by (simp add: deepest_def)
  show ?thesis
  proof (cases "nearest_path (at_rules t) ?p")
    case None
    then have "\<forall>r \<in> set (at_rules t). \<not> governs (ar_path r) ?p"
      using assms by (auto simp: nearest_path_None rule_matches_plain)
    with None show ?thesis by (simp add: CanView_def PageAccess_def PageAccess_by_def)
  next
    case (Some n)
    then have n: "deepest (at_rules t) ?p m \<longleftrightarrow> m = n" for m
      using deep [of m] by auto
    then have "deepest (at_rules t) ?p n" by simp
    then have "\<exists>r \<in> set (at_rules t). governs (ar_path r) ?p"
      by (auto simp: deepest_def)
    with Some n show ?thesis
      by (auto simp: CanView_def PageAccess_def PageAccess_by_def granted_iff)
  qed
qed

theorem nearest_rules_decide_witness:
  "CanView (PageAccess \<lparr>at_rules = [\<lparr>ar_id = 1, ar_path = ''a'', ar_group = 7, ar_access = ''view''\<rparr>,
       \<lparr>ar_id = 2, ar_path = ''a/b'', ar_group = 8, ar_access = ''edit''\<rparr>],
       at_next = 3, at_members = [(3, 7)], at_groups = [7, 8]\<rparr>)
     (account 3 ''editor'') ''a/b/c'' = Inr False"
proof -
  have n: "normalizeAccessPath ''a/b/c'' = ''a/b/c''" by code_simp
  show ?thesis
    by (subst nearest_rules_decide)
      (auto simp: n plain_def deepest_def governs_def below_def IsAdministrator_def account_def)
qed

text \<open>Filtering fails closed: whatever a repository answers, an account that is not an
  administrator sees a page only if the answer holds a grant for the page's normalised path
  that leaves it unrestricted or allows viewing.\<close>

lemma filter_pages_fails_closed:
  assumes "FilterPages batch u pages = Inr vis" and "\<not> IsAdministrator u" and "p \<in> set vis"
  shows "p \<in> set pages \<and> (\<exists>grants g.
    batch (map (\<lambda>p. normalizeAccessPath (pg_slug p)) pages) (u_id u) = Inr grants \<and>
    map_of grants (normalizeAccessPath (pg_slug p)) = Some g \<and> (pa_restricted g \<longrightarrow> pa_can_view g))"
  using assms by (auto simp: FilterPages_def result_simps split: if_splits option.splits)

text \<open>Saving a rule writes exactly one entry of the rule table: the level of the group at the
  normalised path becomes the requested one, every other entry is unchanged, and the table
  keeps one row per path and group with a valid level.\<close>

lemma save_rule_sets_level:
  assumes "SavePageAccessRule t path g acc = Inr t'" and "access_wf t"
  shows "access_wf t' \<and> normalizeAccessPath path \<noteq> [] \<and>
    (\<forall>q h. level_at t' q h =
       (if q = normalizeAccessPath path \<and> h = g then Some acc else level_at t q h))"
  using assms access_wf_save level_at_save
  by (auto simp: SavePageAccessRule_def Let_def split: if_splits)

text \<open>
  The rule query compares paths with LIKE, and an underscore of a rule path is a wildcard
  there: a rule at one path also restricts a path that is neither that path nor below it.
\<close>

theorem underscore_rule_overmatches:
  "PageAccess \<lparr>at_rules = [\<lparr>ar_id = 1, ar_path = ''team_a'', ar_group = 7, ar_access = ''view''\<rparr>],
      at_next = 2, at_members = [], at_groups = [7]\<rparr> ''team-a/notes'' 3
     = Inr \<lparr>pa_restricted = True, pa_can_view = False, pa_can_edit = False\<rparr>
   \<and> \<not> governs ''team_a'' ''team-a/notes''"
  by code_simp

end
