(* ===== verification/Revisions.thy ===== *)
theory Revisions
  imports Domain
begin

text \<open>
  Comparison of persisted revisions (\<open>pkg/revision\<close>): the line counts, the display rows of a
  unified patch with their line numbers, the list of changed metadata fields and the safe
  metadata differences. The patch itself comes from \<open>go-difflib\<close>, which is a parameter, as is
  the formatting of a timestamp, which depends on its location.
\<close>

section \<open>Line counts\<close>

definition newline :: char where
  "newline = CHR 0x0A"

text \<open>The lines of a body: \<open>strings.Split\<close>, except that an empty body has none.\<close>

definition body_lines :: "string \<Rightarrow> string list" where
  "body_lines s = (if s = [] then [] else Split newline s)"

text \<open>
  The inner loop of \<open>lineChanges\<close>: \<open>dynamic\<close> is one row of the table of longest common
  subsequences, updated from left to right; \<open>diag\<close> is the diagonal entry of the row before.
\<close>

fun lcs_columns :: "'a \<Rightarrow> 'a list \<Rightarrow> nat \<Rightarrow> int \<Rightarrow> int list \<Rightarrow> int list" where
  "lcs_columns left [] index diag dynamic = dynamic"
| "lcs_columns left (right # rest) index diag dynamic =
     (let old = dynamic ! (index + 1);
          dynamic' = (if left = right then dynamic[index + 1 := diag + 1]
                      else if dynamic ! index > dynamic ! (index + 1)
                        then dynamic[index + 1 := dynamic ! index]
                      else dynamic)
      in lcs_columns left rest (index + 1) old dynamic')"

definition lcs_rows :: "'a list \<Rightarrow> 'a list \<Rightarrow> int list" where
  "lcs_rows before after =
     fold (\<lambda>left dynamic. lcs_columns left after 0 0 dynamic) before (replicate (length after + 1) 0)"

definition lineChanges :: "string \<Rightarrow> string \<Rightarrow> int \<times> int" where
  "lineChanges previous current =
     (let before = body_lines previous; after = body_lines current;
          common = lcs_rows before after ! length after
      in (int (length after) - common, int (length before) - common))"

text \<open>The textbook recursion, from the end of the lists.\<close>

fun lcs :: "'a list \<Rightarrow> 'a list \<Rightarrow> int" where
  "lcs [] ys = 0"
| "lcs xs [] = 0"
| "lcs (x # xs) (y # ys) = (if x = y then lcs xs ys + 1 else max (lcs xs (y # ys)) (lcs (x # xs) ys))"

lemma lcs_Nil2 [simp]: "lcs xs [] = 0"
  by (cases xs) auto

text \<open>The entries up to the index are of the new row, the later ones of the old row.\<close>

lemma lcs_columns_spec:
  assumes "length dynamic = length ys + 1" and "k \<le> length ys" and "rest = drop k ys"
    and "\<And>j. j \<le> k \<Longrightarrow> dynamic ! j = lcs (x # xs) (rev (take j ys))"
    and "\<And>j. k < j \<Longrightarrow> j \<le> length ys \<Longrightarrow> dynamic ! j = lcs xs (rev (take j ys))"
    and "diag = lcs xs (rev (take k ys))"
  shows "length (lcs_columns x rest k diag dynamic) = length ys + 1 \<and>
    (\<forall>j \<le> length ys. lcs_columns x rest k diag dynamic ! j = lcs (x # xs) (rev (take j ys)))"
  using assms
proof (induction x rest k diag dynamic rule: lcs_columns.induct)
  case (1 left index diag dynamic)
  then have "index = length ys" by simp
  with 1 show ?case by simp
next
  case (2 left right rest index diag dynamic)
  from 2(4) have lt: "index < length ys"
    by (metis drop_eq_Nil2 list.distinct(1) not_le)
  have r: "right = ys ! index" and rest: "rest = drop (index + 1) ys"
    using 2(4) Cons_nth_drop_Suc [OF lt] by (metis Suc_eq_plus1 list.inject)+
  have tk: "rev (take (index + 1) ys) = right # rev (take index ys)"
    using lt r by (simp add: take_Suc_conv_app_nth)
  have old: "dynamic ! (index + 1) = lcs xs (rev (take (index + 1) ys))"
    using 2(6) lt by simp
  let ?d = "if left = right then dynamic[index + 1 := diag + 1]
            else if dynamic ! index > dynamic ! (index + 1) then dynamic[index + 1 := dynamic ! index]
            else dynamic"
  have new: "?d ! (index + 1) = lcs (left # xs) (rev (take (index + 1) ys))"
    using 2(5) [of index] old 2(7) lt 2(2) tk by auto
  have other: "?d ! j = dynamic ! j" if "j \<noteq> index + 1" for j
    using that by simp
  show ?case
    unfolding lcs_columns.simps Let_def
  proof (rule 2(1))
    show "dynamic ! (index + 1) = dynamic ! (index + 1)" ..
    show "length ?d = length ys + 1" using 2(2) by simp
    show "index + 1 \<le> length ys" using lt by simp
    show "?d ! j = lcs (left # xs) (rev (take j ys))" if "j \<le> index + 1" for j
      using that new other 2(5) by (cases "j = index + 1") auto
    show "?d ! j = lcs xs (rev (take j ys))" if "index + 1 < j" "j \<le> length ys" for j
      using that other 2(6) by auto
    show "dynamic ! (index + 1) = lcs xs (rev (take (index + 1) ys))" by (rule old)
  qed (use rest in simp_all)
qed

lemma lcs_rows_spec:
  "length (lcs_rows xs ys) = length ys + 1 \<and>
   (\<forall>j \<le> length ys. lcs_rows xs ys ! j = lcs (rev xs) (rev (take j ys)))"
proof (induction xs rule: rev_induct)
  case Nil
  show ?case by (simp add: lcs_rows_def nth_append del: replicate_Suc)
next
  case (snoc x xs)
  have "lcs_rows (xs @ [x]) ys = lcs_columns x ys 0 0 (lcs_rows xs ys)"
    by (simp add: lcs_rows_def)
  moreover have "lcs_rows xs ys ! 0 = 0"
    using snoc by simp
  ultimately show ?case
    using lcs_columns_spec [of "lcs_rows xs ys" ys 0 ys x "rev xs" 0] snoc by simp
qed

text \<open>The recursion computes the length of a longest common subsequence.\<close>

lemma lcs_attained: "\<exists>zs. subseq zs xs \<and> subseq zs ys \<and> int (length zs) = lcs xs ys"
proof (induction xs ys rule: lcs.induct)
  case (3 x xs y ys)
  show ?case
  proof (cases "x = y")
    case True
    with 3(1) obtain zs where "subseq zs xs" "subseq zs ys" "int (length zs) = lcs xs ys"
      by blast
    with True show ?thesis by (intro exI [of _ "x # zs"]) simp
  next
    case False
    from 3(2) [OF False] obtain zs where zs: "subseq zs xs" "subseq zs (y # ys)"
      "int (length zs) = lcs xs (y # ys)" by blast
    from 3(3) [OF False] obtain ws where ws: "subseq ws (x # xs)" "subseq ws ys"
      "int (length ws) = lcs (x # xs) ys" by blast
    have "subseq zs (x # xs)" "subseq ws (y # ys)"
      using zs ws by (auto intro: list_emb_Cons)
    with zs ws False show ?thesis by (metis lcs.simps(3) max_def)
  qed
qed auto

lemma lcs_maximal: "subseq zs xs \<Longrightarrow> subseq zs ys \<Longrightarrow> int (length zs) \<le> lcs xs ys"
proof (induction xs ys arbitrary: zs rule: lcs.induct)
  case (3 x xs y ys)
  show ?case
  proof (cases zs)
    case Nil
    have "0 \<le> lcs (x # xs) (y # ys)"
      using lcs_attained [of "x # xs" "y # ys"] by (metis of_nat_0_le_iff)
    then show ?thesis using Nil by simp
  next
    case (Cons z zs')
    show ?thesis
    proof (cases "x = y")
      case True
      have "subseq zs' xs" "subseq zs' ys"
        using 3(4) 3(5) Cons by (auto split: if_splits dest: subseq_Cons')
      with True 3(1) [of zs'] Cons show ?thesis by simp
    next
      case False
      then have "subseq zs xs \<or> subseq zs ys"
        using 3(4) 3(5) Cons by (auto split: if_splits)
      with False 3(2) [of zs] 3(3) [of zs] 3(4) 3(5) show ?thesis
        by auto
    qed
  qed
qed auto

section \<open>The rows of a patch\<close>

datatype diff_line_kind =
  DiffLineContext | DiffLineHeader | DiffLineHunk | DiffLineAdded | DiffLineRemoved | DiffLineNote

record diff_line =
  dl_kind :: diff_line_kind
  dl_marker :: string
  dl_text :: string
  dl_old :: int
  dl_new :: int

definition rangeStart :: "string \<Rightarrow> int" where
  "rangeStart v = (case parse_int64 (fst (Cut v '','')) of None \<Rightarrow> 0 | Some n \<Rightarrow> n)"

definition hunkStarts :: "string \<Rightarrow> int \<times> int" where
  "hunkStarts header =
     (case CutPrefix header ''@@ -'' of
        None \<Rightarrow> (0, 0)
      | Some body \<Rightarrow>
          (case Cut body '' +'' of (oldRange, body, ok) \<Rightarrow>
             if \<not> ok then (0, 0)
             else (case Cut body '' @@'' of (newRange, _, ok) \<Rightarrow>
               if \<not> ok then (0, 0) else (rangeStart oldRange, rangeStart newRange))))"

text \<open>One round of the loop of \<open>diff\<close>: the display row and the two line counters.\<close>

definition diff_row :: "string \<Rightarrow> int \<Rightarrow> int \<Rightarrow> diff_line \<times> int \<times> int" where
  "diff_row line oldLine newLine =
     (let item = \<lparr>dl_kind = DiffLineContext, dl_marker = [], dl_text = line, dl_old = 0, dl_new = 0\<rparr> in
      if HasPrefix line ''--- '' \<or> HasPrefix line ''+++ '' then
        (item\<lparr>dl_kind := DiffLineHeader\<rparr>, oldLine, newLine)
      else if HasPrefix line ''@@'' then
        (item\<lparr>dl_kind := DiffLineHunk\<rparr>, fst (hunkStarts line), snd (hunkStarts line))
      else if HasPrefix line ''+'' then
        (item\<lparr>dl_kind := DiffLineAdded, dl_marker := ''+'', dl_text := TrimPrefix line ''+'',
              dl_new := newLine\<rparr>, oldLine, newLine + 1)
      else if HasPrefix line ''-'' then
        (item\<lparr>dl_kind := DiffLineRemoved, dl_marker := ''-'', dl_text := TrimPrefix line ''-'',
              dl_old := oldLine\<rparr>, oldLine + 1, newLine)
      else if HasPrefix line '' '' then
        (item\<lparr>dl_marker := '' '', dl_text := TrimPrefix line '' '', dl_old := oldLine, dl_new := newLine\<rparr>,
         oldLine + 1, newLine + 1)
      else if HasPrefix line [CHR 0x5C] then (item\<lparr>dl_kind := DiffLineNote\<rparr>, oldLine, newLine)
      else (item, oldLine, newLine))"

primrec diff_rows :: "string list \<Rightarrow> int \<Rightarrow> int \<Rightarrow> diff_line list" where
  "diff_rows [] oldLine newLine = []"
| "diff_rows (line # lines) oldLine newLine =
     (case diff_row line oldLine newLine of (item, oldLine', newLine') \<Rightarrow>
        item # diff_rows lines oldLine' newLine')"

text \<open>
  \<open>unified a b from to context\<close> is \<open>difflib.GetUnifiedDiffString\<close>, with \<open>None\<close> for an error;
  \<open>split_lines\<close> is \<open>difflib.SplitLines\<close>.
\<close>

definition revision_diff ::
  "(string \<Rightarrow> string list) \<Rightarrow> (string list \<Rightarrow> string list \<Rightarrow> string \<Rightarrow> string \<Rightarrow> int \<Rightarrow> string option) \<Rightarrow>
   string \<Rightarrow> string \<Rightarrow> int \<Rightarrow> diff_line list" where
  "revision_diff split_lines unified previous current number =
     (let fromFile = (if number = 1 then ''/dev/null'' else ''revision '' @ show_int (number - 1)) in
      case unified (split_lines previous) (split_lines current) fromFile
             (''revision '' @ show_int number) 3 of
        None \<Rightarrow> []
      | Some patch \<Rightarrow>
          if patch = [] then []
          else diff_rows (Split newline (TrimSuffix patch [newline])) 0 0)"

section \<open>Metadata snapshots\<close>

record page_snapshot =
  sn_slug :: string
  sn_title :: string
  sn_icon :: string
  sn_language :: string
  sn_tags :: "string list"
  sn_groups :: "int list"
  sn_status :: string
  sn_owner :: int
  sn_interval :: int
  sn_target :: string
  sn_properties :: strmap
  sn_reviewed :: "time option"

definition equalReviewTime :: "time option \<Rightarrow> time option \<Rightarrow> bool" where
  "equalReviewTime l r = (case (l, r) of (Some a, Some b) \<Rightarrow> a = b | (None, None) \<Rightarrow> True | _ \<Rightarrow> False)"

definition ChangedFields :: "page_snapshot option \<Rightarrow> page_snapshot \<Rightarrow> string list" where
  "ChangedFields previous c =
     (case previous of None \<Rightarrow> [] | Some p \<Rightarrow>
        (if sn_slug p \<noteq> sn_slug c then [''path''] else []) @
        (if sn_title p \<noteq> sn_title c then [''title''] else []) @
        (if sn_icon p \<noteq> sn_icon c then [''icon''] else []) @
        (if sn_language p \<noteq> sn_language c then [''language''] else []) @
        (if sn_tags p \<noteq> sn_tags c then [''tags''] else []) @
        (if sn_groups p \<noteq> sn_groups c then [''collaborators''] else []) @
        (if sn_status p \<noteq> sn_status c then [''status''] else []) @
        (if sn_owner p \<noteq> sn_owner c then [''owner''] else []) @
        (if sn_interval p \<noteq> sn_interval c then [''review interval''] else []) @
        (if sn_target p \<noteq> sn_target c then [''replacement page''] else []) @
        (if \<not> strmap_equal (sn_properties p) (sn_properties c) then [''properties''] else []) @
        (if \<not> equalReviewTime (sn_reviewed p) (sn_reviewed c) then [''reviewed at''] else []))"

record metadata_difference =
  df_name :: string
  df_before :: string
  df_after :: string

text \<open>\<open>string(runes[:120])\<close> writes the replacement character for a byte that is not valid UTF-8.\<close>

definition valid_rune_bytes :: "string \<Rightarrow> string" where
  "valid_rune_bytes r = (if decode_rune r = rune_error then [CHR 0xEF, CHR 0xBF, CHR 0xBD] else r)"

definition displayValue :: "string \<Rightarrow> string" where
  "displayValue v =
     (if v = [] then ''(none)''
      else let rs = runes v in
        if length rs > 120
          then concat (map valid_rune_bytes (take 120 rs)) @ [CHR 0xE2, CHR 0x80, CHR 0xA6]
        else v)"

definition snapshot_ids :: "int list \<Rightarrow> string" where
  "snapshot_ids numbers = Join (map show_int numbers) '', ''"

definition add_difference :: "string \<Rightarrow> string \<Rightarrow> string \<Rightarrow> metadata_difference list" where
  "add_difference label old current =
     (if old \<noteq> current
      then [\<lparr>df_name = label, df_before = displayValue old, df_after = displayValue current\<rparr>] else [])"

definition review_date :: "(time \<Rightarrow> string) \<Rightarrow> time option \<Rightarrow> string" where
  "review_date format t = (case t of None \<Rightarrow> [] | Some t \<Rightarrow> format t)"

definition CompareSnapshots ::
  "(time \<Rightarrow> string) \<Rightarrow> page_snapshot \<Rightarrow> page_snapshot \<Rightarrow> metadata_difference list" where
  "CompareSnapshots format b a =
     add_difference ''path'' (sn_slug b) (sn_slug a) @
     add_difference ''title'' (sn_title b) (sn_title a) @
     add_difference ''icon'' (sn_icon b) (sn_icon a) @
     add_difference ''language'' (sn_language b) (sn_language a) @
     (if sn_tags b \<noteq> sn_tags a
      then add_difference ''tags'' (Join (sn_tags b) '', '') (Join (sn_tags a) '', '') else []) @
     (if sn_groups b \<noteq> sn_groups a
      then add_difference ''collaborators'' (snapshot_ids (sn_groups b)) (snapshot_ids (sn_groups a))
      else []) @
     add_difference ''status'' (sn_status b) (sn_status a) @
     add_difference ''owner'' (show_int (sn_owner b)) (show_int (sn_owner a)) @
     add_difference ''review interval'' (show_int (sn_interval b)) (show_int (sn_interval a)) @
     add_difference ''replacement page'' (sn_target b) (sn_target a) @
     (if \<not> strmap_equal (sn_properties b) (sn_properties a)
      then [\<lparr>df_name = ''properties'', df_before = ''(values hidden)'', df_after = ''(values hidden)''\<rparr>]
      else []) @
     (if \<not> equalReviewTime (sn_reviewed b) (sn_reviewed a)
      then [\<lparr>df_name = ''reviewed at'', df_before = displayValue (review_date format (sn_reviewed b)),
             df_after = displayValue (review_date format (sn_reviewed a))\<rparr>]
      else [])"

section \<open>Analysed revisions\<close>

record page_revision =
  rv_id :: int
  rv_number :: int
  rv_author :: string
  rv_created :: time
  rv_message :: string
  rv_snapshot :: "page_snapshot option"
  rv_changes :: "string list"
  rv_metadata_diff :: "metadata_difference list"
  rv_markdown :: string
  rv_previous :: string
  rv_added :: int
  rv_removed :: int
  rv_diff :: "diff_line list"

text \<open>The library functions a comparison uses.\<close>

record diff_library =
  dlib_split :: "string \<Rightarrow> string list"
  dlib_unified :: "string list \<Rightarrow> string list \<Rightarrow> string \<Rightarrow> string \<Rightarrow> int \<Rightarrow> string option"
  dlib_format :: "time \<Rightarrow> string"

definition Analyze :: "diff_library \<Rightarrow> page_revision \<Rightarrow> page_revision" where
  "Analyze lib r =
     (let (added, removed) = lineChanges (rv_previous r) (rv_markdown r) in
      r\<lparr>rv_added := added, rv_removed := removed,
        rv_diff := revision_diff (dlib_split lib) (dlib_unified lib) (rv_previous r) (rv_markdown r)
                     (rv_number r)\<rparr>)"

text \<open>The records are newest first, so the next one is the preceding revision.\<close>

fun AnalyzeAll :: "diff_library \<Rightarrow> page_revision list \<Rightarrow> page_revision list" where
  "AnalyzeAll lib [] = []"
| "AnalyzeAll lib (r # rest) =
     (let analyzed = Analyze lib r in
      (case rest of
         [] \<Rightarrow> analyzed
       | older # _ \<Rightarrow>
           (case (rv_snapshot r, rv_snapshot older) of
              (Some s, Some t) \<Rightarrow> analyzed\<lparr>rv_metadata_diff := CompareSnapshots (dlib_format lib) t s\<rparr>
            | _ \<Rightarrow> analyzed)) # AnalyzeAll lib rest)"

end
