(* ===== verification/RevisionProperties.thy ===== *)
theory RevisionProperties
  imports Revisions
begin

text \<open>
  The properties of revision comparison: the line counts are those of a smallest edit script, the
  rows of a hunk carry the line numbers of both sides, and the metadata differences show the
  changed fields without the values of properties.
\<close>

section \<open>Facts about the parts\<close>

lemma subseq_rev_mono: "subseq xs ys \<Longrightarrow> subseq (rev xs) (rev ys)"
proof (induction rule: list_emb.induct)
  case (list_emb_Nil ys)
  then show ?case by simp
next
  case (list_emb_Cons xs ys y)
  then show ?case by (simp add: subseq_rev_drop_many)
next
  case (list_emb_Cons2 x y xs ys)
  then show ?case by (simp add: list_emb_append_mono)
qed

lemma lineChanges_lcs:
  "lineChanges p c = (int (length (body_lines c)) - lcs (rev (body_lines p)) (rev (body_lines c)),
     int (length (body_lines p)) - lcs (rev (body_lines p)) (rev (body_lines c)))"
  using lcs_rows_spec [of "body_lines p" "body_lines c"] by (simp add: lineChanges_def Let_def)

text \<open>A line of a hunk body: an added, a removed or a context line that does not look like a header.\<close>

definition body_row :: "string \<Rightarrow> bool" where
  "body_row l = (l \<noteq> [] \<and> hd l \<in> {CHR ''+'', CHR ''-'', CHR '' ''} \<and>
     \<not> HasPrefix l ''--- '' \<and> \<not> HasPrefix l ''+++ '')"

definition old_side :: "string \<Rightarrow> bool" where
  "old_side l = (hd l \<noteq> CHR ''+'')"

definition new_side :: "string \<Rightarrow> bool" where
  "new_side l = (hd l \<noteq> CHR ''-'')"

lemma diff_row_body:
  assumes "body_row l"
  shows "diff_row l o' n = (\<lparr>dl_kind = (if \<not> old_side l then DiffLineAdded else if \<not> new_side l then DiffLineRemoved
       else DiffLineContext), dl_marker = [hd l], dl_text = tl l, dl_old = (if old_side l then o' else 0),
       dl_new = (if new_side l then n else 0)\<rparr>,
     o' + (if old_side l then 1 else 0), n + (if new_side l then 1 else 0))"
proof -
  obtain c cs where l: "l = c # cs" using assms by (cases l) (auto simp: body_row_def)
  have no: "\<not> HasPrefix (c # cs) ''--- ''" "\<not> HasPrefix (c # cs) ''+++ ''"
    using assms l by (auto simp: body_row_def)
  have at: "\<not> HasPrefix (c # cs) ''@@''" using assms l by (auto simp: body_row_def HasPrefix_def)
  have trim: "TrimPrefix (c # cs) [c] = cs" by (simp add: TrimPrefix_def HasPrefix_def)
  consider "c = CHR ''+''" | "c = CHR ''-''" | "c = CHR '' ''"
    using assms l by (auto simp: body_row_def)
  then show ?thesis
    using no at trim unfolding diff_row_def l Let_def
    by cases (simp_all add: old_side_def new_side_def HasPrefix_def)
qed

text \<open>Joining with a comma and a space is injective on parts without a comma.\<close>

lemma Join_Cons: "Join (x # xs) sep = x @ (if xs = [] then [] else sep @ Join xs sep)"
  by (cases xs) auto

lemma Join_comma_inj:
  assumes "\<forall>x \<in> set xs. x \<noteq> [] \<and> CHR '','' \<notin> set x" and "\<forall>y \<in> set ys. y \<noteq> [] \<and> CHR '','' \<notin> set y"
    and "Join xs '', '' = Join ys '', ''"
  shows "xs = ys"
  using assms
proof (induction xs arbitrary: ys)
  case Nil
  then show ?case by (cases ys) (auto simp: Join_Cons split: if_splits)
next
  case (Cons x xs)
  then obtain y zs where ys: "ys = y # zs" by (cases ys) (auto simp: Join_Cons split: if_splits)
  let ?t = "\<lambda>v. takeWhile (\<lambda>c. c \<noteq> CHR '','') v" and ?d = "\<lambda>v. dropWhile (\<lambda>c. c \<noteq> CHR '','') v"
  have tw: "?t (Join (u # us) '', '') = u \<and> ?d (Join (u # us) '', '') = (if us = [] then [] else '', '' @ Join us '', '')"
    if "CHR '','' \<notin> set u" for u us
  proof -
    have "\<forall>c \<in> set u. c \<noteq> CHR '',''" using that by metis
    then have "?d u = []" "?t u = u" by simp_all
    then show ?thesis by (simp add: Join_Cons takeWhile_tail dropWhile_append3)
  qed
  have x: "CHR '','' \<notin> set x" "CHR '','' \<notin> set y" using Cons.prems ys by auto
  have "x = y" "(if xs = [] then [] else '', '' @ Join xs '', '') = (if zs = [] then [] else '', '' @ Join zs '', '')"
    using tw [OF x(1), of xs] tw [OF x(2), of zs] Cons.prems(3) ys by metis+
  then show ?case
    using Cons.IH [of zs] Cons.prems(1,2) ys by (auto split: if_splits)
qed

lemma snapshot_ids_inj: "snapshot_ids xs = snapshot_ids ys \<longleftrightarrow> xs = ys"
proof
  have digits: "CHR '','' \<notin> set (show_nat n)" for n
    using show_nat_digits [of n] by (auto simp: list_all_iff is_digit_def)
  have parts: "\<forall>x \<in> set (map show_int zs). x \<noteq> [] \<and> CHR '','' \<notin> set x" for zs
    using digits by (auto simp: show_int_def)
  assume "snapshot_ids xs = snapshot_ids ys"
  then have "map show_int xs = map show_int ys"
    unfolding snapshot_ids_def by (intro Join_comma_inj parts)
  moreover have "inj show_int" by (rule injI) (rule show_int_inj)
  ultimately show "xs = ys" by (simp add: inj_map_eq_map)
qed simp

text \<open>
  Two cases where the display is not what it seems: a removed line that starts with two dashes
  and a space reads as a file header, so the rows after it carry wrong numbers; and tags that
  contain the separator can change without a difference being shown.
\<close>

lemma removed_dashes_shift_numbers:
  "map (\<lambda>r. (dl_kind r, dl_old r)) (diff_rows [''--- x'', ''-y''] 1 1) = [(DiffLineHeader, 0), (DiffLineRemoved, 1)]"
  by code_simp

definition plain_snapshot :: "string list \<Rightarrow> strmap \<Rightarrow> page_snapshot" where
  "plain_snapshot tags properties =
     \<lparr>sn_slug = ''a'', sn_title = ''T'', sn_icon = [], sn_language = [], sn_tags = tags, sn_groups = [],
      sn_status = ''draft'', sn_owner = 0, sn_interval = 0, sn_target = [], sn_properties = properties,
      sn_reviewed = None\<rparr>"

lemma tag_separator_hides_change:
  "ChangedFields (Some (plain_snapshot [''a, b''] [])) (plain_snapshot [''a'', ''b''] []) = [''tags''] \<and>
   CompareSnapshots show_int (plain_snapshot [''a, b''] []) (plain_snapshot [''a'', ''b''] []) = []"
  by code_simp

section \<open>Properties\<close>

text \<open>C31: The line counts of a revision are those of a smallest edit script: the unchanged lines are a
  common subsequence of the two bodies that no common subsequence exceeds, and the counts are
  what remains on each side.\<close>

theorem line_changes_minimal:
  "\<exists>zs. subseq zs (body_lines p) \<and> subseq zs (body_lines c) \<and>
     lineChanges p c = (int (length (body_lines c)) - int (length zs), int (length (body_lines p)) - int (length zs)) \<and>
     (\<forall>ws. subseq ws (body_lines p) \<longrightarrow> subseq ws (body_lines c) \<longrightarrow> length ws \<le> length zs)"
proof -
  let ?p = "body_lines p" and ?c = "body_lines c"
  obtain zs where z: "subseq zs (rev ?p)" "subseq zs (rev ?c)" "int (length zs) = lcs (rev ?p) (rev ?c)"
    using lcs_attained by blast
  have "subseq (rev zs) ?p" "subseq (rev zs) ?c"
    using subseq_rev_mono [OF z(1)] subseq_rev_mono [OF z(2)] by simp_all
  moreover have "length ws \<le> length zs" if "subseq ws ?p" "subseq ws ?c" for ws
    using lcs_maximal [OF subseq_rev_mono [OF that(1)] subseq_rev_mono [OF that(2)]] z(3) by simp
  ultimately show ?thesis
    by (intro exI [of _ "rev zs"]) (simp add: lineChanges_lcs z(3))
qed

theorem line_changes_minimal_witness:
  "\<exists>zs. subseq zs (body_lines ''a'') \<and>
     lineChanges ''a'' ''a'' = (int (length (body_lines ''a'')) - int (length zs), int (length (body_lines ''a'')) - int (length zs)) \<and>
     length [''a''] \<le> length zs"
proof -
  have b: "body_lines ''a'' = [''a'']" by code_simp
  have "subseq [''a''] (body_lines ''a'')" by (simp add: b)
  then show ?thesis
    using line_changes_minimal [of "''a''" "''a''"] by blast
qed

text \<open>The rows of a hunk carry the right line numbers: a row holds the text without its marker; it has
  a number on the old side exactly if it is not an added line, namely the start of the hunk plus
  the earlier lines of the old side, and correspondingly on the new side.\<close>

lemma diff_rows_numbered:
  assumes "list_all body_row body" and "k < length body"
  shows "diff_rows body o' n ! k =
    \<lparr>dl_kind = (if \<not> old_side (body ! k) then DiffLineAdded else if \<not> new_side (body ! k) then DiffLineRemoved
       else DiffLineContext), dl_marker = [hd (body ! k)], dl_text = tl (body ! k),
     dl_old = (if old_side (body ! k) then o' + int (length (filter old_side (take k body))) else 0),
     dl_new = (if new_side (body ! k) then n + int (length (filter new_side (take k body))) else 0)\<rparr>"
  using assms
proof (induction body arbitrary: k o' n)
  case (Cons l body)
  then show ?case by (cases k) (auto simp: diff_row_body)
qed simp

text \<open>The displayed metadata differences are the changed fields in their order, each once; the only
  change that is not displayed is one of the tags whose comma-separated lists coincide.\<close>

lemma metadata_diff_names:
  "map df_name (CompareSnapshots format b a) =
     filter (\<lambda>f. \<not> (f = ''tags'' \<and> Join (sn_tags b) '', '' = Join (sn_tags a) '', '')) (ChangedFields (Some b) a)"
proof -
  have show_inj: "show_int i = show_int j \<longleftrightarrow> i = j" for i j using show_int_inj by blast
  have add: "map df_name (add_difference l x y) = (if x \<noteq> y then [l] else [])" for l x y
    by (simp add: add_difference_def)
  have nest: "map df_name (if c then xs else ys) = (if c then map df_name xs else map df_name ys)" for c xs ys
    by simp
  have keep: "l \<noteq> ''tags'' \<Longrightarrow> filter (\<lambda>f. \<not> (f = ''tags'' \<and> P)) (if c then [l] else []) = (if c then [l] else [])"
    for l c P by simp
  have tags: "filter (\<lambda>f. \<not> (f = ''tags'' \<and> P)) (if c then [''tags''] else []) = (if c \<and> \<not> P then [''tags''] else [])"
    for c P by simp
  show ?thesis
    unfolding CompareSnapshots_def ChangedFields_def option.case map_append filter_append add nest tags
      list.map metadata_difference.simps snapshot_ids_inj show_inj
    by (subst keep, simp)+ simp
qed

text \<open>The displayed differences do not depend on the values of properties: as long as the properties
  differ, any other differing properties give the same display.\<close>

lemma metadata_diff_hides_properties:
  assumes "\<not> strmap_equal (sn_properties b) (sn_properties a)" and "\<not> strmap_equal m n"
  shows "CompareSnapshots format (b\<lparr>sn_properties := m\<rparr>) (a\<lparr>sn_properties := n\<rparr>) = CompareSnapshots format b a"
  using assms by (simp add: CompareSnapshots_def)

text \<open>No field counts as changed exactly if the two snapshots agree in every field, where properties
  are compared as maps.\<close>

lemma changed_fields_empty_iff:
  "ChangedFields (Some b) a = [] \<longleftrightarrow>
     b\<lparr>sn_properties := []\<rparr> = a\<lparr>sn_properties := []\<rparr> \<and> map_of (sn_properties b) = map_of (sn_properties a)"
proof -
  have t: "equalReviewTime x y \<longleftrightarrow> x = y" for x y
    by (auto simp: equalReviewTime_def split: option.splits)
  show ?thesis
    by (cases b, cases a) (auto simp: ChangedFields_def strmap_equal_iff t split: if_splits)
qed

end
