(* ===== verification/Suggestions.thy ===== *)
theory Suggestions
  imports Revisions "HOL-Library.Product_Lexorder"
begin

text \<open>
  Suggested changes as text edits: the line replacements of a page review
  (\<open>pkg/reviewsuggestions\<close>, and the input checks of \<open>pages/page_review_comments.go\<close>) and the
  inline replacements of a discussion (\<open>pages/suggestions.go\<close> and the pure helpers of
  \<open>pages/page_discussions.go\<close>). The refinement shown is that replacing from bottom to top
  implements one simultaneous replacement in the immutable source.
\<close>

section \<open>Line suggestions\<close>

definition LineRange :: "string \<Rightarrow> int \<Rightarrow> int \<Rightarrow> string option" where
  "LineRange markdown startLine endLine =
     (if startLine \<le> 0 \<or> endLine < startLine then None
      else let lines = Split newline markdown in
        if startLine > int (length lines) \<or> endLine > int (length lines) then None
        else Some (Join (drop (nat (startLine - 1)) (take (nat endLine) lines)) [newline]))"

definition replacementLines :: "string \<Rightarrow> string list" where
  "replacementLines replacement = (if replacement = [] then [] else Split newline replacement)"

definition suggestion_order :: "review_comment \<Rightarrow> review_comment \<Rightarrow> int" where
  "suggestion_order l r =
     cmp_then (cmp_compare (rc_start l) (rc_start r)) (cmp_compare (rc_end l) (rc_end r))"

primrec check_suggestions :: "string \<Rightarrow> int \<Rightarrow> review_comment list \<Rightarrow> error + unit" where
  "check_suggestions markdown previousEnd [] = Inr ()"
| "check_suggestions markdown previousEnd (s # rest) =
     (if rc_side s \<noteq> PageReviewCommentSideNew \<or> rc_start s \<le> previousEnd
        then Inl ErrReviewSuggestionConflict
      else if LineRange markdown (rc_start s) (rc_end s) \<noteq> Some (rc_original s) then Inl ErrStaleReview
      else check_suggestions markdown (rc_end s) rest)"

definition splice_lines :: "review_comment \<Rightarrow> string list \<Rightarrow> string list" where
  "splice_lines s lines =
     take (nat (rc_start s - 1)) lines @ replacementLines (rc_replacement s) @ drop (nat (rc_end s)) lines"

text \<open>The second loop runs over the ordered suggestions from the last to the first.\<close>

definition ApplySuggestions :: "string \<Rightarrow> review_comment list \<Rightarrow> error + string" where
  "ApplySuggestions markdown suggestions =
     (let ordered = sort_func suggestion_order suggestions in
      bindR (check_suggestions markdown 0 ordered)
        (\<lambda>_. Inr (Join (fold splice_lines (rev ordered) (Split newline markdown)) [newline])))"

text \<open>The specification: walk down the source once, copying what lies between the ranges.\<close>

primrec replaced_from :: "string list \<Rightarrow> nat \<Rightarrow> review_comment list \<Rightarrow> string list" where
  "replaced_from lines pos [] = drop pos lines"
| "replaced_from lines pos (s # rest) =
     take (nat (rc_start s - 1) - pos) (drop pos lines) @ replacementLines (rc_replacement s) @
     replaced_from lines (nat (rc_end s)) rest"

definition anchored :: "string \<Rightarrow> review_comment \<Rightarrow> bool" where
  "anchored markdown s =
     (rc_side s = PageReviewCommentSideNew \<and> LineRange markdown (rc_start s) (rc_end s) = Some (rc_original s))"

lemma LineRange_bounds:
  "LineRange md a b = Some t \<Longrightarrow> 0 < a \<and> a \<le> b \<and> b \<le> int (length (Split newline md))"
  by (auto simp: LineRange_def Let_def split: if_splits)

lemma check_suggestions_Inr:
  "check_suggestions md e ss = Inr () \<longleftrightarrow>
     list_all (anchored md) ss \<and> list_all (\<lambda>s. e < rc_start s) ss \<and>
     sorted_wrt (\<lambda>s t. rc_end s < rc_start t) ss"
proof (induction ss arbitrary: e)
  case (Cons s ss)
  have "rc_start s \<le> rc_end s" if "anchored md s"
    using that LineRange_bounds by (auto simp: anchored_def)
  then show ?case
    by (auto simp: Cons.IH anchored_def list_all_iff)
qed simp

lemma fold_splice:
  assumes "check_suggestions md e ss = Inr ()" and "0 \<le> e"
  shows "fold splice_lines (rev ss) (Split newline md) =
     take (nat e) (Split newline md) @ replaced_from (Split newline md) (nat e) ss"
  using assms
proof (induction ss arbitrary: e)
  case (Cons s ss)
  let ?lines = "Split newline md"
  have s: "LineRange md (rc_start s) (rc_end s) = Some (rc_original s)" "e < rc_start s"
    and rest: "check_suggestions md (rc_end s) ss = Inr ()"
    using Cons.prems by (auto split: if_splits)
  have b: "0 < rc_start s" "rc_start s \<le> rc_end s" "rc_end s \<le> int (length ?lines)"
    using LineRange_bounds [OF s(1)] by auto
  let ?a = "nat (rc_start s - 1)" and ?b = "nat (rc_end s)"
  have ab: "nat e \<le> ?a" "?a < ?b" "?b \<le> length ?lines"
    using b s(2) Cons.prems(2) by linarith+
  have "fold splice_lines (rev (s # ss)) ?lines =
      splice_lines s (take ?b ?lines @ replaced_from ?lines ?b ss)"
    using Cons.IH [OF rest] b by simp
  also have "\<dots> = take ?a ?lines @ replacementLines (rc_replacement s) @ replaced_from ?lines ?b ss"
    using ab by (simp add: splice_lines_def less_imp_le min_absorb1 min_absorb2 del: nat_le_iff zless_nat_conj)
  also have "take ?a ?lines = take (nat e) ?lines @ take (?a - nat e) (drop (nat e) ?lines)"
    using ab(1) by (metis le_add_diff_inverse take_add)
  finally show ?case by simp
qed simp

lemma suggestion_order_sign:
  "suggestion_order l r < 0 \<longleftrightarrow> (rc_start l, rc_end l) < (rc_start r, rc_end r)"
  "suggestion_order l r > 0 \<longleftrightarrow> (rc_start r, rc_end r) < (rc_start l, rc_end l)"
  by (auto simp: suggestion_order_def cmp_then_def cmp_compare_def less_prod_def')

interpretation suggestion: comparison suggestion_order
  by (rule comparison_key [where f = "\<lambda>s. (rc_start s, rc_end s)"]) (simp_all add: suggestion_order_sign)

text \<open>Two suggestions are apart if one ends before the other starts.\<close>

definition apart :: "review_comment \<Rightarrow> review_comment \<Rightarrow> bool" where
  "apart s t = (rc_end s < rc_start t \<or> rc_end t < rc_start s)"

primrec pairwise_apart :: "review_comment list \<Rightarrow> bool" where
  "pairwise_apart [] = True"
| "pairwise_apart (s # ss) = (list_all (apart s) ss \<and> pairwise_apart ss)"

lemma apart_sym: "apart s t \<longleftrightarrow> apart t s"
  by (auto simp: apart_def)

lemma pairwise_apart_insert:
  "pairwise_apart (insert_func suggestion_order s ss) \<longleftrightarrow> list_all (apart s) ss \<and> pairwise_apart ss"
  by (induction ss) (auto simp: list_all_iff apart_sym)

lemma pairwise_apart_sort: "pairwise_apart (sort_func suggestion_order ss) \<longleftrightarrow> pairwise_apart ss"
  by (induction ss) (simp_all add: pairwise_apart_insert list_all_iff)

text \<open>On a sorted list of non-empty ranges being apart means ending before the next start.\<close>

lemma sorted_apart:
  fixes ss :: "review_comment list"
  assumes "sorted_wrt (\<lambda>s t. suggestion_order s t \<le> 0) ss" and "\<And>s. s \<in> set ss \<Longrightarrow> rc_start s \<le> rc_end s"
  shows "sorted_wrt (\<lambda>s t. rc_end s < rc_start t) ss \<longleftrightarrow> pairwise_apart ss"
  using assms
proof (induction ss)
  case (Cons s ss)
  have "apart s t \<longleftrightarrow> rc_end s < rc_start t" if "t \<in> set ss" for t
  proof -
    have "\<not> suggestion_order s t > 0" using Cons.prems(1) that by auto
    then have "rc_start s \<le> rc_start t"
      by (auto simp: suggestion_order_sign less_prod_def')
    moreover have "rc_start t \<le> rc_end t" using Cons.prems(2) that by simp
    ultimately show ?thesis by (auto simp: apart_def)
  qed
  with Cons show ?case by (auto simp: list_all_iff)
qed simp

lemma check_sorted_suggestions:
  "check_suggestions md 0 (sort_func suggestion_order ss) = Inr () \<longleftrightarrow>
     list_all (anchored md) ss \<and> pairwise_apart ss"
proof -
  let ?o = "sort_func suggestion_order ss"
  have b: "0 < rc_start s \<and> rc_start s \<le> rc_end s" if "anchored md s" for s :: review_comment
    using that LineRange_bounds by (auto simp: anchored_def)
  have "check_suggestions md 0 ?o = Inr () \<longleftrightarrow>
      list_all (anchored md) ss \<and> sorted_wrt (\<lambda>s t. rc_end s < rc_start t) ?o"
    using b by (auto simp: check_suggestions_Inr list_all_iff)
  also have "\<dots> \<longleftrightarrow> list_all (anchored md) ss \<and> pairwise_apart ?o"
    using sorted_apart [OF suggestion.sorted_sort_func] b by (auto simp: list_all_iff)
  finally show ?thesis by (simp add: pairwise_apart_sort)
qed

lemma sort_suggestions_unique:
  assumes "mset xs = mset ys" and "list_all (anchored md) xs" and "pairwise_apart xs"
  shows "sort_func suggestion_order xs = sort_func suggestion_order ys"
proof (rule suggestion.sorted_unique)
  have "check_suggestions md 0 (sort_func suggestion_order xs) = Inr ()"
    using assms(2,3) by (simp add: check_sorted_suggestions)
  then have chk: "list_all (anchored md) (sort_func suggestion_order xs)"
    "sorted_wrt (\<lambda>s t. rc_end s < rc_start t) (sort_func suggestion_order xs)"
    by (auto simp: check_suggestions_Inr)
  show "sorted_wrt (\<lambda>s t. suggestion_order s t < 0) (sort_func suggestion_order xs)"
  proof (rule sorted_wrt_mono_rel [OF _ chk(2)])
    fix s t :: review_comment assume "s \<in> set (sort_func suggestion_order xs)" "rc_end s < rc_start t"
    moreover from this chk(1) have "rc_start s \<le> rc_end s"
      using LineRange_bounds by (auto simp: anchored_def list_all_iff)
    ultimately show "suggestion_order s t < 0"
      by (simp add: suggestion_order_sign less_prod_def')
  qed
qed (use assms(1) suggestion.sorted_sort_func in simp_all)

lemma ApplySuggestions_eq:
  "ApplySuggestions md ss = Inr out \<longleftrightarrow>
     list_all (anchored md) ss \<and> pairwise_apart ss \<and>
     out = Join (replaced_from (Split newline md) 0 (sort_func suggestion_order ss)) [newline]"
proof (cases "check_suggestions md 0 (sort_func suggestion_order ss)")
  case (Inl e)
  then show ?thesis
    using check_sorted_suggestions [of md ss] by (auto simp: ApplySuggestions_def)
next
  case (Inr u)
  then have c: "check_suggestions md 0 (sort_func suggestion_order ss) = Inr ()" by simp
  then show ?thesis
    using check_sorted_suggestions [of md ss] fold_splice [OF c]
    by (auto simp: ApplySuggestions_def)
qed

section \<open>Inline suggestions\<close>

text \<open>\<open>normalizeSuggestionText\<close>: browser line endings, and without the final newline of a text area.\<close>

definition normalizeSuggestionText :: "string \<Rightarrow> string" where
  "normalizeSuggestionText v =
     TrimSuffix (ReplaceAll (ReplaceAll v [CHR 0x0D, newline] [newline]) [CHR 0x0D] [newline]) [newline]"

definition validateInlineSuggestionInput :: "string \<Rightarrow> string \<Rightarrow> string \<Rightarrow> string \<Rightarrow> error + unit" where
  "validateInlineSuggestionInput slug anchor body replacement =
     (let fields =
        (if slug = [] then [(''slug'', ''A page path is required.'')] else []) @
        (if anchor = [] then [(''anchor'', ''Select text on the page before creating a suggestion.'')]
         else if length anchor > 8 * 1024
           then [(''anchor'', ''Select a shorter passage before creating a suggestion.'')]
         else []) @
        (if length body > 8 * 1024 then [(''body'', ''Keep suggestion comments below 8 KiB.'')] else []) @
        (if length replacement > 64 * 1024
         then [(''replacement'', ''Keep suggested Markdown below 64 KiB.'')] else [])
      in if fields \<noteq> [] then Inl (ValidationError fields) else Inr ())"

definition anchor_unmapped :: error where
  "anchor_unmapped = NewValidationError ''anchor''
     ''The selected text cannot be mapped exactly to the Markdown source. Select plain text without rendered formatting.''"

definition anchor_ambiguous :: error where
  "anchor_ambiguous = NewValidationError ''anchor''
     ''The selected text appears more than once in the Markdown source. Select a more specific passage.''"

definition locateInlineSuggestionSource :: "string \<Rightarrow> string \<Rightarrow> error + (int \<times> int)" where
  "locateInlineSuggestionSource markdown anchor =
     (case Index markdown anchor of
        None \<Rightarrow> Inl anchor_unmapped
      | Some start \<Rightarrow>
          if LastIndex markdown anchor \<noteq> Some start then Inl anchor_ambiguous
          else Inr (int start, int start + int (length anchor)))"

definition validSuggestionRange :: "comment_suggestion \<Rightarrow> int \<Rightarrow> bool" where
  "validSuggestionRange s sourceLength =
     (sg_start s \<ge> 0 \<and> sg_end s > sg_start s \<and> sg_end s \<le> sourceLength)"

text \<open>\<open>s[i:j]\<close> for indices inside the string.\<close>

definition slice :: "string \<Rightarrow> int \<Rightarrow> int \<Rightarrow> string" where
  "slice s i j = drop (nat i) (take (nat j) s)"

definition applyInlineSuggestion :: "string \<Rightarrow> comment_suggestion \<Rightarrow> error + string" where
  "applyInlineSuggestion markdown s =
     (if \<not> validSuggestionRange s (int (length markdown)) then Inl ErrStaleSuggestion
      else if slice markdown (sg_start s) (sg_end s) \<noteq> sg_original s then Inl ErrStaleSuggestion
      else Inr (take (nat (sg_start s)) markdown @ sg_replacement s @ drop (nat (sg_end s)) markdown))"

lemma locate_unique:
  "locateInlineSuggestionSource md a = Inr (i, j) \<longleftrightarrow>
     0 \<le> i \<and> occurs_at a (nat i) md \<and> (\<forall>k. occurs_at a k md \<longrightarrow> k = nat i) \<and> j = i + int (length a)"
  (is "?l \<longleftrightarrow> ?r")
proof
  assume ?l
  then obtain n where n: "Index md a = Some n" "LastIndex md a = Some n" "i = int n" "j = int n + int (length a)"
    by (auto simp: locateInlineSuggestionSource_def split: option.splits if_splits)
  have "\<not> occurs_at a k md" if "k < n" for k
    using n(1) that by (simp add: Index_Some)
  moreover have "\<not> occurs_at a k md" if "n < k" for k
    using n(2) that by (simp add: LastIndex_Some)
  ultimately have "k = n" if "occurs_at a k md" for k
    using that by (cases k n rule: linorder_cases) blast+
  moreover have "occurs_at a n md" using n(1) unfolding Index_Some by blast
  ultimately show ?r unfolding n(3,4) nat_int using of_nat_0_le_iff by blast
next
  assume r: ?r
  have only: "\<not> occurs_at a k md" if "k \<noteq> nat i" for k
    using r that by blast
  have "Index md a = Some (nat i)" "LastIndex md a = Some (nat i)"
    using conjunct1 [OF conjunct2 [OF r]] only by (simp_all add: Index_Some LastIndex_Some)
  moreover have "0 \<le> i" "j = i + int (length a)" using r by blast+
  ultimately show ?l by (simp add: locateInlineSuggestionSource_def)
qed

lemma applyInline_eq:
  "applyInlineSuggestion md s = Inr out \<longleftrightarrow>
     sg_original s \<noteq> [] \<and> (\<exists>pre post. md = pre @ sg_original s @ post \<and> int (length pre) = sg_start s \<and>
        sg_end s = sg_start s + int (length (sg_original s)) \<and> out = pre @ sg_replacement s @ post)"
  (is "?l \<longleftrightarrow> ?r")
proof
  assume l: ?l
  let ?i = "nat (sg_start s)" and ?j = "nat (sg_end s)"
  from l have v: "sg_start s \<ge> 0" "sg_end s > sg_start s" "sg_end s \<le> int (length md)"
    and o: "drop ?i (take ?j md) = sg_original s"
    and out: "out = take ?i md @ sg_replacement s @ drop ?j md"
    by (auto simp: applyInlineSuggestion_def validSuggestionRange_def slice_def split: if_splits)
  have len: "length (sg_original s) = ?j - ?i"
    using o v by (metis length_drop length_take min_absorb2 nat_le_iff)
  have "md = take ?i (take ?j md) @ drop ?i (take ?j md) @ drop ?j md"
    by (metis append.assoc append_take_drop_id)
  moreover have "take ?i (take ?j md) = take ?i md"
    using v by (simp add: min_def)
  ultimately have "md = take ?i md @ sg_original s @ drop ?j md"
    using o by simp
  moreover have "int (length (take ?i md)) = sg_start s"
    using v by simp
  moreover have "sg_original s \<noteq> []" using len v by auto
  moreover have "sg_end s = sg_start s + int (length (sg_original s))"
    using len v by linarith
  ultimately show ?r using out by blast
next
  assume ?r
  then obtain pre post where "sg_original s \<noteq> []" "md = pre @ sg_original s @ post"
    "sg_start s = int (length pre)" "sg_end s = int (length pre + length (sg_original s))"
    "out = pre @ sg_replacement s @ post" by auto
  then show ?l
    by (simp add: applyInlineSuggestion_def validSuggestionRange_def slice_def del: of_nat_add)
qed

lemma ReplaceAll_byte: "ReplaceAll s [c] [d] = map (\<lambda>x. if x = c then d else x) s"
proof (induction s "[c]" "[d]" rule: ReplaceAll.induct)
  case (1 s)
  show ?case
  proof (cases "Index s [c]")
    case None
    then have "c \<notin> set s"
      by (auto simp: Index_None occurs_at_def in_set_conv_nth prefix_def)
        (metis Cons_nth_drop_Suc append_Cons append_Nil less_imp_le)
    then have "map (\<lambda>x. if x = c then d else x) s = s" by (intro map_idI) auto
    with None show ?thesis by (simp add: ReplaceAll_absent)
  next
    case (Some i)
    then have o: "occurs_at [c] i s" "\<And>j. j < i \<Longrightarrow> \<not> occurs_at [c] j s"
      by (auto simp: Index_Some)
    then have i: "i < length s" "s ! i = c"
      by (auto simp: occurs_at_def prefix_def nth_via_drop)
        (metis drop_all linorder_not_le list.distinct(1))
    have "c \<notin> set (take i s)"
    proof
      assume "c \<in> set (take i s)"
      then obtain j where "j < i" "s ! j = c" using i(1) by (auto simp: in_set_conv_nth)
      then have "occurs_at [c] j s"
        using i(1) by (auto simp: occurs_at_def Cons_nth_drop_Suc [symmetric])
      with o(2) \<open>j < i\<close> show False by blast
    qed
    then have "map (\<lambda>x. if x = c then d else x) (take i s) = take i s"
      by (intro map_idI) auto
    moreover have "map (\<lambda>x. if x = c then d else x) s =
        map (\<lambda>x. if x = c then d else x) (take i s) @ map (\<lambda>x. if x = c then d else x) (c # drop (i + 1) s)"
      using id_take_nth_drop [OF i(1)] i(2) by (metis Suc_eq_plus1 map_append)
    ultimately have "map (\<lambda>x. if x = c then d else x) s = take i s @ d # map (\<lambda>x. if x = c then d else x) (drop (i + 1) s)"
      by simp
    with 1 Some show ?thesis by (subst ReplaceAll.simps) simp
  qed
qed

lemma normalizeSuggestionText_no_CR: "CHR 0x0D \<notin> set (normalizeSuggestionText v)"
proof -
  have "CHR 0x0D \<notin> set (ReplaceAll w [CHR 0x0D] [newline])" for w
    by (auto simp: ReplaceAll_byte newline_def)
  then show ?thesis
    by (auto simp: normalizeSuggestionText_def TrimSuffix_def dest: in_set_takeD)
qed

section \<open>The input of a review comment\<close>

record review_comment_input =
  ri_review :: int
  ri_slug :: string
  ri_side :: string
  ri_start :: int
  ri_end :: int
  ri_body :: string
  ri_suggestion :: bool
  ri_replacement :: string
  ri_actor :: user

definition normalizeReviewCommentInput :: "review_comment_input \<Rightarrow> review_comment_input" where
  "normalizeReviewCommentInput i =
     i\<lparr>ri_slug := TrimSpace (ri_slug i), ri_body := TrimSpace (ri_body i),
       ri_replacement := normalizeSuggestionText (ri_replacement i)\<rparr>"

definition validReviewCommentSide :: "string \<Rightarrow> bool" where
  "validReviewCommentSide side = (side = PageReviewCommentSideOld \<or> side = PageReviewCommentSideNew)"

definition validReviewCommentLineRange :: "int \<Rightarrow> int \<Rightarrow> bool" where
  "validReviewCommentLineRange startLine endLine =
     (startLine > 0 \<and> endLine \<ge> startLine \<and> endLine - startLine + 1 \<le> 200)"

definition validateReviewCommentIdentity :: "review_comment_input \<Rightarrow> (string \<times> string) list" where
  "validateReviewCommentIdentity i =
     (if ri_review i \<le> 0 then [(''review'', ''Choose a valid review request.'')] else []) @
     (if ri_slug i = [] then [(''slug'', ''A page path is required.'')] else []) @
     (if \<not> validReviewCommentSide (ri_side i)
      then [(''side'', ''Choose a valid side of the review diff.'')] else []) @
     (if \<not> validReviewCommentLineRange (ri_start i) (ri_end i)
      then [(''line'', ''Choose a valid review line range.'')] else [])"

definition validateReviewCommentContent :: "review_comment_input \<Rightarrow> (string \<times> string) list" where
  "validateReviewCommentContent i =
     (if length (ri_body i) > 8 * 1024 then [(''body'', ''Keep review comments below 8 KiB.'')] else []) @
     (if \<not> ri_suggestion i \<and> ri_body i = [] then [(''body'', ''A review comment is required.'')] else []) @
     (if ri_suggestion i \<and> ri_side i \<noteq> PageReviewCommentSideNew
      then [(''suggestion'', ''Suggestions can only replace lines in the reviewed revision.'')] else []) @
     (if ri_suggestion i \<and> length (ri_replacement i) > 64 * 1024
      then [(''replacement'', ''Keep suggested Markdown below 64 KiB.'')] else [])"

definition validateReviewCommentInput :: "review_comment_input \<Rightarrow> error + unit" where
  "validateReviewCommentInput i =
     (let fields = validateReviewCommentIdentity i @ validateReviewCommentContent i in
      if fields = [] then Inr () else Inl (ValidationError fields))"

text \<open>The lines of one side that the displayed diff shows.\<close>

definition visible_lines :: "diff_library \<Rightarrow> page_revision \<Rightarrow> string \<Rightarrow> int list" where
  "visible_lines lib r side =
     filter (\<lambda>n. n > 0)
       (map (\<lambda>l. if side = PageReviewCommentSideOld then dl_old l else dl_new l) (rv_diff (Analyze lib r)))"

definition reviewRangeVisible :: "diff_library \<Rightarrow> page_revision \<Rightarrow> string \<Rightarrow> int \<Rightarrow> int \<Rightarrow> bool" where
  "reviewRangeVisible lib r side startLine endLine =
     (list_all (\<lambda>n. n \<in> set (visible_lines lib r side)) [startLine..endLine] \<and>
      startLine > 0 \<and> endLine \<ge> startLine)"

definition line_not_in_diff :: error where
  "line_not_in_diff = NewValidationError ''line'' ''Choose a line that exists in this review diff.''"

definition reviewCommentOriginal :: "diff_library \<Rightarrow> page_revision \<Rightarrow> review_comment_input \<Rightarrow> error + string" where
  "reviewCommentOriginal lib r i =
     (if \<not> reviewRangeVisible lib r (ri_side i) (ri_start i) (ri_end i) then Inl line_not_in_diff
      else let source = (if ri_side i = PageReviewCommentSideOld then rv_previous r else rv_markdown r) in
        case LineRange source (ri_start i) (ri_end i) of None \<Rightarrow> Inl line_not_in_diff | Some t \<Rightarrow> Inr t)"

text \<open>
  The selection loop: the chosen comments and the selected identifiers that remain unmatched.
\<close>

primrec select_loop :: "bool \<Rightarrow> review_comment list \<Rightarrow> int list \<Rightarrow> review_comment list \<times> int list" where
  "select_loop al [] selected = ([], selected)"
| "select_loop al (c # cs) selected =
     (if \<not> rc_suggestion c \<or> rc_applied_at c \<noteq> None then select_loop al cs selected
      else if al then (case select_loop al cs selected of (chosen, rest) \<Rightarrow> (c # chosen, rest))
      else if rc_id c \<in> set selected then
        (case select_loop al cs (filter (\<lambda>i. i \<noteq> rc_id c) selected) of (chosen, rest) \<Rightarrow> (c # chosen, rest))
      else select_loop al cs selected)"

definition no_open_suggestion :: error where
  "no_open_suggestion = NewValidationError ''suggestion'' ''There are no pending review suggestions to apply.''"

definition selectedReviewSuggestions :: "review_comment list \<Rightarrow> int list \<Rightarrow> error + review_comment list" where
  "selectedReviewSuggestions comments selected =
     (if list_ex (\<lambda>i. i \<le> 0) selected
        then Inl (NewValidationError ''suggestion'' ''Choose valid review suggestions.'')
      else case select_loop (selected = []) comments selected of (chosen, rest) \<Rightarrow>
        if rest \<noteq> [] then Inl ErrNotFound
        else if chosen = [] then Inl no_open_suggestion
        else Inr chosen)"

text \<open>An open suggestion is one that was not applied.\<close>

definition open_suggestion :: "review_comment \<Rightarrow> bool" where
  "open_suggestion c = (rc_suggestion c \<and> rc_applied_at c = None)"

lemma select_loop_all: "select_loop True cs sel = (filter open_suggestion cs, sel)"
  by (induction cs) (auto simp: open_suggestion_def)

lemma select_loop_some:
  assumes "distinct (map rc_id cs)"
  shows "select_loop False cs sel =
    (filter (\<lambda>c. open_suggestion c \<and> rc_id c \<in> set sel) cs,
     filter (\<lambda>i. i \<notin> rc_id ` set (filter open_suggestion cs)) sel)"
  using assms
proof (induction cs arbitrary: sel)
  case (Cons c cs)
  have f: "filter (\<lambda>d. open_suggestion d \<and> rc_id d \<in> set sel \<and> rc_id d \<noteq> rc_id c) cs =
      filter (\<lambda>d. open_suggestion d \<and> rc_id d \<in> set sel) cs"
    using Cons.prems by (intro filter_cong) (auto simp: rev_image_eqI)
  show ?case
    using Cons f by (auto simp: open_suggestion_def intro!: filter_cong)
qed simp

section \<open>Properties\<close>

text \<open>C30: Applying review suggestions succeeds exactly when every suggestion is on the new side, its
  range exists and holds its original text, and no two ranges meet; the result is then the
  source in which all ranges are replaced at once, nothing else changed.\<close>

theorem apply_suggestions_spec:
  "ApplySuggestions md ss = Inr out \<longleftrightarrow>
     list_all (anchored md) ss \<and> pairwise_apart ss \<and>
     out = Join (replaced_from (Split newline md) 0 (sort_func suggestion_order ss)) [newline]"
  by (rule ApplySuggestions_eq)

text \<open>The order in which the suggestions are listed does not matter for whether they apply and
  for the resulting text.\<close>

lemma apply_suggestions_order:
  assumes "mset xs = mset ys"
  shows "(ApplySuggestions md xs = Inr out) = (ApplySuggestions md ys = Inr out)"
proof -
  have set: "set xs = set ys" using assms by (metis set_mset_mset)
  have half: "pairwise_apart ys" "sort_func suggestion_order xs = sort_func suggestion_order ys"
    if "list_all (anchored md) xs" "pairwise_apart xs" "mset xs = mset ys" for xs ys
  proof -
    show s: "sort_func suggestion_order xs = sort_func suggestion_order ys"
      using sort_suggestions_unique [OF that(3,1,2)] .
    show "pairwise_apart ys"
      using that(2) pairwise_apart_sort [of xs] pairwise_apart_sort [of ys] s by simp
  qed
  have la: "list_all (anchored md) xs = list_all (anchored md) ys"
    using set by (simp add: list_all_iff)
  show ?thesis
    unfolding ApplySuggestions_eq la
    using half [of xs ys] half [of ys xs] assms la by metis
qed

definition line_suggestion :: "int \<Rightarrow> int \<Rightarrow> string \<Rightarrow> string \<Rightarrow> review_comment" where
  "line_suggestion a b original replacement =
     \<lparr>rc_id = a, rc_request = 1, rc_author = 1, rc_side = PageReviewCommentSideNew, rc_start = a, rc_end = b,
      rc_body = [], rc_suggestion = True, rc_original = original, rc_replacement = replacement,
      rc_applied_by = 0, rc_applied_at = None, rc_created_at = 0\<rparr>"

text \<open>A located inline suggestion replaces the only occurrence of the selected text: the source
  splits around it in exactly one way, and applying the suggestion to the same source yields the
  parts around the replacement.\<close>

lemma inline_suggestion_replaces_unique:
  assumes "locateInlineSuggestionSource md a = Inr (i, j)" and "a \<noteq> []"
    and "sg_start s = i" and "sg_end s = j" and "sg_original s = slice md i j"
  shows "sg_original s = a \<and>
    (\<exists>!p. md = fst p @ a @ snd p) \<and>
    (\<exists>pre post. md = pre @ a @ post \<and> applyInlineSuggestion md s = Inr (pre @ sg_replacement s @ post))"
proof -
  let ?n = "nat i"
  have u: "0 \<le> i" "occurs_at a ?n md" "\<And>k. occurs_at a k md \<Longrightarrow> k = ?n" "j = i + int (length a)"
    using assms(1) unfolding locate_unique by blast+
  have len: "?n + length a \<le> length md" and tk: "take (length a) (drop ?n md) = a"
    using u(2) by (simp_all add: occurs_at_iff)
  have nj: "nat j = ?n + length a" using u(1,4) by simp
  have orig: "sg_original s = a"
    using assms(5) tk by (simp add: slice_def nj take_drop add.commute)
  let ?pre = "take ?n md" and ?post = "drop (?n + length a) md"
  have md: "md = ?pre @ a @ ?post"
    using tk by (metis append_take_drop_id drop_drop add.commute)
  have one: "p = (?pre, ?post)" if "md = fst p @ a @ snd p" for p
  proof -
    have "occurs_at a (length (fst p)) md"
      by (subst that) (simp add: occurs_at_def)
    then have "length (fst p) = ?n" by (rule u(3))
    moreover have "take (length (fst p)) md = fst p" by (subst that) simp
    moreover have "drop (length (fst p) + length a) md = snd p" by (subst that) simp
    ultimately show ?thesis by (metis prod.collapse)
  qed
  have "applyInlineSuggestion md s = Inr (?pre @ sg_replacement s @ ?post)"
    unfolding applyInline_eq
    using md orig assms(2-4) u(1,4) len
    by (intro conjI exI [of _ ?pre] exI [of _ ?post]) simp_all
  moreover have "\<exists>!p. md = fst p @ a @ snd p"
  proof (rule ex1I)
    show "md = fst (?pre, ?post) @ a @ snd (?pre, ?post)" using md by (simp only: fst_conv snd_conv)
  qed (rule one)
  ultimately show ?thesis using orig md by blast
qed

text \<open>The selection of suggestions is exact. With no identifier given it is every open suggestion
  of the review; with identifiers it is the open suggestions that have one of them, and it fails
  with a not-found error exactly when some identifier has no open suggestion.\<close>

lemma selected_suggestions_exact:
  assumes "distinct (map rc_id comments)" and "list_all (\<lambda>i. 0 < i) selected"
    and "filter open_suggestion comments \<noteq> []"
  shows "selectedReviewSuggestions comments selected =
    (if selected = [] then Inr (filter open_suggestion comments)
     else if \<exists>i \<in> set selected. \<forall>c \<in> set comments. \<not> (open_suggestion c \<and> rc_id c = i) then Inl ErrNotFound
     else Inr (filter (\<lambda>c. open_suggestion c \<and> rc_id c \<in> set selected) comments))"
proof (cases "selected = []")
  case True
  with assms(3) show ?thesis by (simp add: selectedReviewSuggestions_def select_loop_all)
next
  case False
  have pos: "\<not> list_ex (\<lambda>i. i \<le> 0) selected"
    using assms(2) by (auto simp: list_all_iff list_ex_iff)
  define ids where "ids = rc_id ` set (filter open_suggestion comments)"
  define chosen where "chosen = filter (\<lambda>c. open_suggestion c \<and> rc_id c \<in> set selected) comments"
  define rest where "rest = filter (\<lambda>i. i \<notin> ids) selected"
  have rest: "rest = [] \<longleftrightarrow> (\<forall>i \<in> set selected. i \<in> ids)"
    by (simp add: filter_empty_conv rest_def)
  have ids: "(\<forall>c \<in> set comments. \<not> (open_suggestion c \<and> rc_id c = i)) \<longleftrightarrow> i \<notin> ids" for i
    unfolding ids_def by auto
  have ne: "chosen \<noteq> []" if "rest = []"
  proof -
    obtain i where i: "i \<in> set selected" using False by (cases selected) auto
    with that rest have "i \<in> ids" by blast
    then obtain c where "c \<in> set comments" "open_suggestion c" "rc_id c = i"
      unfolding ids_def by auto
    with i have "c \<in> set chosen" unfolding chosen_def by simp
    then show ?thesis by (metis empty_iff set_empty)
  qed
  have bad: "(\<exists>i \<in> set selected. \<forall>c \<in> set comments. \<not> (open_suggestion c \<and> rc_id c = i)) \<longleftrightarrow> rest \<noteq> []"
    unfolding rest ids by blast
  have sel: "select_loop False comments selected = (chosen, rest)"
    unfolding select_loop_some [OF assms(1)] chosen_def rest_def ids_def ..
  have sf: "(selected = []) = False" using False by simp
  show ?thesis
    unfolding bad selectedReviewSuggestions_def sf sel chosen_def [symmetric]
    using pos ne by (cases "rest = []") simp_all
qed

end
