(* ===== verification/Store.thy ===== *)
theory Store
  imports Suggestions
begin

text \<open>
  The page tables of the Postgres store (\<open>internal/postgres\<close>) and the reads other operations
  build on. A table is the list of its rows; a transaction is a function on the whole state
  that either fails, leaving the state as it was, or returns the new state. The state
  predicates at the end are the consistency conditions that every operation keeps.
\<close>

section \<open>Tables\<close>

record page_row =
  pw_id :: int
  pw_slug :: string
  pw_title :: string
  pw_language :: string
  pw_markdown :: string
  pw_created_by :: int
  pw_updated_by :: int
  pw_created_at :: time
  pw_updated_at :: time
  pw_deleted_at :: "time option"
  pw_deleted_by :: int
  pw_view_count :: int
  pw_status :: string
  pw_owner :: int
  pw_reviewed :: "time option"
  pw_interval :: int
  pw_target :: string
  pw_usage :: plugin_usage
  pw_html :: string
  pw_contents :: "page_heading list"
  pw_fingerprint :: string
  pw_rendered_at :: "time option"

record revision_row =
  rw_id :: int
  rw_page :: int
  rw_number :: int
  rw_markdown :: string
  rw_by :: int
  rw_created :: time
  rw_message :: string
  rw_snapshot :: "page_snapshot option"
  rw_changes :: "string list"

record review_row =
  vw_id :: int
  vw_page :: int
  vw_revision :: int
  vw_requested_by :: int
  vw_reviewed_by :: int
  vw_group :: int
  vw_status :: string
  vw_note :: string
  vw_decision_note :: string
  vw_previous :: string
  vw_created :: time
  vw_updated :: time

record audit_event =
  ae_user :: int
  ae_action :: string
  ae_key :: string
  ae_detail :: string
  ae_revision :: "int option"

text \<open>The absent group of a nullable column is 0, as \<open>NULLIF($n,0)\<close> and \<open>coalesce(..,0)\<close> have it.\<close>

record db =
  db_pages :: "page_row list"
  db_aliases :: "(string \<times> int) list"
  db_revisions :: "revision_row list"
  db_reviews :: "review_row list"
  db_icons :: "(string \<times> string) list"
  db_tags :: "(int \<times> string) list"
  db_page_tags :: "(int \<times> int) list"
  db_page_groups :: "(int \<times> int) list"
  db_properties :: "(int \<times> string \<times> string) list"
  db_links :: "(int \<times> string) list"
  db_reviewers :: "(int \<times> int) list"
  db_review_comments :: "review_comment list"
  db_comments :: "page_comment list"
  db_audit :: "audit_event list"
  db_groups :: "group list"
  db_members :: "(int \<times> int) list"
  db_users :: "user list"
  db_discussions :: bool
  db_next_page :: int
  db_next_revision :: int
  db_next_tag :: int
  db_next_review :: int
  db_next_review_comment :: int
  db_next_comment :: int

text \<open>
  What a transaction takes from outside: its start time \<open>now()\<close>, \<open>strings.ToLower\<close> of Go and
  \<open>lower\<close> of the database on full Unicode text, and the formatting of a timestamp.
\<close>

record env =
  en_now :: time
  en_lower :: "string \<Rightarrow> string"
  en_sql_lower :: "string \<Rightarrow> string"
  en_format :: "time \<Rightarrow> string"

definition empty_db :: db where
  "empty_db = \<lparr>db_pages = [], db_aliases = [], db_revisions = [], db_reviews = [], db_icons = [],
     db_tags = [], db_page_tags = [], db_page_groups = [], db_properties = [], db_links = [],
     db_reviewers = [], db_review_comments = [], db_comments = [], db_audit = [], db_groups = [],
     db_members = [], db_users = [], db_discussions = True, db_next_page = 1, db_next_revision = 1,
     db_next_tag = 1, db_next_review = 1, db_next_review_comment = 1, db_next_comment = 1\<rparr>"

section \<open>Reading a page\<close>

text \<open>\<open>WHERE slug=$1 AND deleted_at IS NULL\<close>.\<close>

definition live :: "page_row \<Rightarrow> bool" where
  "live r = (pw_deleted_at r = None)"

definition live_row :: "db \<Rightarrow> string \<Rightarrow> page_row option" where
  "live_row d slug = row_with (\<lambda>r. pw_slug r = slug \<and> live r) (db_pages d)"

definition page_tag_names :: "db \<Rightarrow> int \<Rightarrow> string list" where
  "page_tag_names d pid =
     sort_func cmp_compare
       (concat (map (\<lambda>pt. map snd (filter (\<lambda>t. fst t = snd pt) (db_tags d)))
         (filter (\<lambda>pt. fst pt = pid) (db_page_tags d))))"

definition page_group_rows :: "db \<Rightarrow> int \<Rightarrow> group list" where
  "page_group_rows d pid = filter (\<lambda>g. (pid, g_id g) \<in> set (db_page_groups d)) (db_groups d)"

definition page_property_rows :: "db \<Rightarrow> int \<Rightarrow> page_property list" where
  "page_property_rows d pid =
     map (\<lambda>p. \<lparr>pp_key = fst (snd p), pp_value = snd (snd p)\<rparr>) (filter (\<lambda>p. fst p = pid) (db_properties d))"

definition page_icon :: "db \<Rightarrow> string \<Rightarrow> string" where
  "page_icon d slug = (case map_of (db_icons d) slug of None \<Rightarrow> [] | Some i \<Rightarrow> i)"

definition complete_page :: "db \<Rightarrow> page_row \<Rightarrow> page" where
  "complete_page d r =
     \<lparr>pg_id = pw_id r, pg_slug = pw_slug r, pg_title = pw_title r, pg_icon = page_icon d (pw_slug r),
      pg_language = pw_language r, pg_markdown = pw_markdown r, pg_usage = pw_usage r,
      pg_render = \<lparr>rd_html = pw_html r, rd_contents = pw_contents r, rd_fingerprint = pw_fingerprint r\<rparr>,
      pg_created_by = pw_created_by r, pg_updated_by = pw_updated_by r, pg_created_at = pw_created_at r,
      pg_updated_at = pw_updated_at r, pg_tags = page_tag_names d (pw_id r),
      pg_groups = page_group_rows d (pw_id r), pg_view_count = pw_view_count r, pg_status = pw_status r,
      pg_owner_group = pw_owner r, pg_last_reviewed = pw_reviewed r, pg_review_interval = pw_interval r,
      pg_deprecated_target = pw_target r, pg_properties = page_property_rows d (pw_id r)\<rparr>"

definition GetPage :: "db \<Rightarrow> string \<Rightarrow> error + page" where
  "GetPage d slug = (case live_row d slug of None \<Rightarrow> Inl ErrNotFound | Some r \<Rightarrow> Inr (complete_page d r))"

definition PageByID :: "db \<Rightarrow> int \<Rightarrow> error + page" where
  "PageByID d pid = (case row_with (\<lambda>r. pw_id r = pid \<and> live r) (db_pages d) of
     None \<Rightarrow> Inl ErrNotFound
   | Some r \<Rightarrow> Inr (zero_page\<lparr>pg_id := pw_id r, pg_slug := pw_slug r, pg_title := pw_title r\<rparr>))"

text \<open>The redirect targets of historical paths.\<close>

definition PageAliases :: "db \<Rightarrow> (string \<times> string) list" where
  "PageAliases d = concat (map (\<lambda>a.
     case row_with (\<lambda>r. pw_id r = snd a \<and> live r) (db_pages d) of
       None \<Rightarrow> [] | Some r \<Rightarrow> [(fst a, pw_slug r)]) (db_aliases d))"

section \<open>Reading revisions\<close>

definition revisions_of :: "db \<Rightarrow> int \<Rightarrow> revision_row list" where
  "revisions_of d pid = filter (\<lambda>r. rw_page r = pid) (db_revisions d)"

text \<open>\<open>coalesce(max(revision_number),0)\<close>.\<close>

definition current_revision :: "db \<Rightarrow> int \<Rightarrow> int" where
  "current_revision d pid = foldr max (map rw_number (revisions_of d pid)) 0"

definition revision_number :: "db \<Rightarrow> int \<Rightarrow> int \<Rightarrow> revision_row option" where
  "revision_number d pid n = row_with (\<lambda>r. rw_page r = pid \<and> rw_number r = n) (db_revisions d)"

definition to_revision :: "revision_row \<Rightarrow> page_revision" where
  "to_revision r = \<lparr>rv_id = rw_id r, rv_number = rw_number r, rv_author = [], rv_created = rw_created r,
     rv_message = rw_message r, rv_snapshot = rw_snapshot r, rv_changes = rw_changes r, rv_metadata_diff = [],
     rv_markdown = rw_markdown r, rv_previous = [], rv_added = 0, rv_removed = 0, rv_diff = []\<rparr>"

definition previous_markdown :: "db \<Rightarrow> int \<Rightarrow> int \<Rightarrow> string" where
  "previous_markdown d pid n = (case revision_number d pid (n - 1) of None \<Rightarrow> [] | Some r \<Rightarrow> rw_markdown r)"

text \<open>The newest revision with the number of revisions, which is 0 when there is none.\<close>

definition LatestRevision :: "db \<Rightarrow> string \<Rightarrow> page_revision option \<times> int" where
  "LatestRevision d slug =
     (case live_row d slug of
        None \<Rightarrow> (None, 0)
      | Some p \<Rightarrow>
          (case revision_number d (pw_id p) (current_revision d (pw_id p)) of
             None \<Rightarrow> (None, 0)
           | Some r \<Rightarrow> (Some ((to_revision r)\<lparr>rv_previous := previous_markdown d (pw_id p) (rw_number r)\<rparr>),
                        int (length (revisions_of d (pw_id p))))))"

definition Revision :: "db \<Rightarrow> string \<Rightarrow> int \<Rightarrow> error + page_revision" where
  "Revision d slug n =
     (case live_row d slug of
        None \<Rightarrow> Inl ErrRevisionNotFound
      | Some p \<Rightarrow>
          (case revision_number d (pw_id p) n of
             None \<Rightarrow> Inl ErrRevisionNotFound
           | Some r \<Rightarrow> Inr (to_revision r)))"

section \<open>Consistency\<close>

definition page_ids :: "db \<Rightarrow> int set" where
  "page_ids d = pw_id ` set (db_pages d)"

definition page_slugs :: "db \<Rightarrow> string set" where
  "page_slugs d = pw_slug ` set (db_pages d)"

text \<open>Paths and identifiers are unique over all pages, the recycle bin included.\<close>

definition pages_ok :: "db \<Rightarrow> bool" where
  "pages_ok d = (0 < db_next_page d \<and> distinct (map pw_slug (db_pages d)) \<and> distinct (map pw_id (db_pages d)) \<and>
     (\<forall>r \<in> set (db_pages d). 0 < pw_id r \<and> pw_id r < db_next_page d))"

text \<open>An alias belongs to one existing page and is not the current path of any page.\<close>

definition aliases_ok :: "db \<Rightarrow> bool" where
  "aliases_ok d = (distinct (map fst (db_aliases d)) \<and>
     (\<forall>a \<in> set (db_aliases d). snd a \<in> page_ids d \<and> fst a \<notin> page_slugs d))"

text \<open>Every page has the revisions 1 to n in the order of their creation.\<close>

definition revisions_ok :: "db \<Rightarrow> bool" where
  "revisions_ok d = (
     (\<forall>r \<in> set (db_revisions d). rw_page r \<in> page_ids d) \<and>
     (\<forall>pid. map rw_number (revisions_of d pid) = [1..int (length (revisions_of d pid))]))"

text \<open>The newest revision of a page holds the current text of the page.\<close>

definition head_ok :: "db \<Rightarrow> page_row \<Rightarrow> bool" where
  "head_ok d r = (revisions_of d (pw_id r) \<noteq> [] \<and> rw_markdown (last (revisions_of d (pw_id r))) = pw_markdown r)"

text \<open>A page has at most one pending review, and a review is about an existing revision.\<close>

definition pending :: "review_row \<Rightarrow> bool" where
  "pending v = (vw_status v = PageReviewStatusPending)"

definition reviews_ok :: "db \<Rightarrow> bool" where
  "reviews_ok d = (distinct (map vw_id (db_reviews d)) \<and>
     (\<forall>v \<in> set (db_reviews d). vw_id v < db_next_review d \<and> vw_page v \<in> page_ids d \<and>
        vw_revision v \<le> int (length (revisions_of d (vw_page v)))) \<and>
     distinct (map vw_page (filter pending (db_reviews d))))"

definition store_ok :: "db \<Rightarrow> bool" where
  "store_ok d = (pages_ok d \<and> aliases_ok d \<and> revisions_ok d \<and> reviews_ok d)"

definition db_ok :: "db \<Rightarrow> bool" where
  "db_ok d = (store_ok d \<and> (\<forall>r \<in> set (db_pages d). head_ok d r))"

section \<open>Facts about the tables\<close>

lemma live_row_Some: "live_row d slug = Some r \<Longrightarrow> r \<in> set (db_pages d) \<and> pw_slug r = slug \<and> live r"
  by (auto simp: live_row_def dest: row_with_Some)

lemma live_row_eq:
  assumes "pages_ok d"
  shows "live_row d slug = Some r \<longleftrightarrow> r \<in> set (db_pages d) \<and> pw_slug r = slug \<and> live r"
proof
  assume r: "r \<in> set (db_pages d) \<and> pw_slug r = slug \<and> live r"
  show "live_row d slug = Some r"
    unfolding live_row_def
    by (rule row_with_unique [where k = pw_slug and x = slug]) (use assms r in \<open>auto simp: pages_ok_def\<close>)
qed (rule live_row_Some)

lemma GetPage_Inr: "GetPage d slug = Inr p \<longleftrightarrow> (\<exists>r. live_row d slug = Some r \<and> p = complete_page d r)"
  by (auto simp: GetPage_def split: option.splits)

lemma complete_page_fields [simp]:
  "pg_id (complete_page d r) = pw_id r" "pg_slug (complete_page d r) = pw_slug r"
  "pg_title (complete_page d r) = pw_title r" "pg_markdown (complete_page d r) = pw_markdown r"
  "pg_language (complete_page d r) = pw_language r" "pg_status (complete_page d r) = pw_status r"
  "pg_owner_group (complete_page d r) = pw_owner r" "pg_review_interval (complete_page d r) = pw_interval r"
  "pg_deprecated_target (complete_page d r) = pw_target r" "pg_last_reviewed (complete_page d r) = pw_reviewed r"
  "pg_updated_at (complete_page d r) = pw_updated_at r" "pg_updated_by (complete_page d r) = pw_updated_by r"
  "pg_icon (complete_page d r) = page_icon d (pw_slug r)"
  "pg_tags (complete_page d r) = page_tag_names d (pw_id r)"
  "pg_groups (complete_page d r) = page_group_rows d (pw_id r)"
  "pg_properties (complete_page d r) = page_property_rows d (pw_id r)"
  by (simp_all add: complete_page_def)

text \<open>The consistency conditions read six fields of the state.\<close>

definition core :: "db \<Rightarrow> page_row list \<times> (string \<times> int) list \<times> revision_row list \<times> review_row list \<times> int \<times> int" where
  "core d = (db_pages d, db_aliases d, db_revisions d, db_reviews d, db_next_page d, db_next_review d)"

lemma core_eqD:
  assumes "core d = core d'"
  shows "db_pages d = db_pages d'" "db_aliases d = db_aliases d'" "db_revisions d = db_revisions d'"
    "db_reviews d = db_reviews d'" "db_next_page d = db_next_page d'" "db_next_review d = db_next_review d'"
    "page_ids d = page_ids d'" "page_slugs d = page_slugs d'" "revisions_of d = revisions_of d'"
    "current_revision d = current_revision d'" "head_ok d = head_ok d'" "live_row d = live_row d'"
  using assms
  by (auto simp: core_def page_ids_def page_slugs_def revisions_of_def current_revision_def head_ok_def
      live_row_def fun_eq_iff)

lemma store_ok_core:
  assumes "core d = core d'"
  shows "store_ok d = store_ok d'"
  unfolding store_ok_def pages_ok_def aliases_ok_def revisions_ok_def reviews_ok_def core_eqD [OF assms] ..

lemma db_ok_core:
  assumes "core d = core d'"
  shows "db_ok d = db_ok d'"
  unfolding db_ok_def store_ok_core [OF assms] core_eqD [OF assms] ..

lemma db_ok_empty: "db_ok empty_db"
  unfolding db_ok_def store_ok_def pages_ok_def aliases_ok_def revisions_ok_def reviews_ok_def
    revisions_of_def empty_db_def by simp

lemma foldr_max_snoc: "foldr max (xs @ [n]) (0::int) = foldr max xs (max n 0)"
  by simp

lemma foldr_max_init: "foldr max xs (max n m) = max n (foldr max xs (m::int))"
  by (induction xs) (auto simp: max.left_commute)

lemma foldr_max_upto: "foldr max [1..int n] 0 = int n"
proof (induction n)
  case (Suc n)
  have "[1..int (Suc n)] = [1..int n] @ [int (Suc n)]"
    by (subst upto_rec2) simp_all
  then have "foldr max [1..int (Suc n)] 0 = max (int (Suc n)) (foldr max [1..int n] 0)"
    by (simp only: foldr_max_snoc foldr_max_init)
  with Suc show ?case by simp
qed simp

lemma current_revision_length:
  "revisions_ok d \<Longrightarrow> current_revision d pid = int (length (revisions_of d pid))"
  by (simp add: revisions_ok_def current_revision_def foldr_max_upto)

lemma revision_number_nth:
  assumes "revisions_ok d" and "1 \<le> n" and "n \<le> int (length (revisions_of d pid))"
  shows "revision_number d pid n = Some (revisions_of d pid ! nat (n - 1))"
proof -
  let ?rs = "revisions_of d pid"
  have nums: "map rw_number ?rs = [1..int (length ?rs)]" using assms(1) by (simp add: revisions_ok_def)
  then have num: "rw_number (?rs ! k) = int k + 1" if "k < length ?rs" for k
    using that nth_map [of k ?rs rw_number] by (simp add: nth_upto)
  have "row_with (\<lambda>r. rw_page r = pid \<and> rw_number r = n) xs =
      row_with (\<lambda>r. rw_number r = n) (filter (\<lambda>r. rw_page r = pid) xs)" for xs
    by (induction xs) auto
  then have "row_with (\<lambda>r. rw_page r = pid \<and> rw_number r = n) (db_revisions d) = row_with (\<lambda>r. rw_number r = n) ?rs"
    by (simp add: revisions_of_def)
  also have "\<dots> = Some (?rs ! nat (n - 1))"
  proof (rule row_with_unique [where k = rw_number and x = n])
    show "distinct (map rw_number ?rs)" using nums by simp
  qed (use assms num in auto)
  finally show ?thesis by (simp add: revision_number_def)
qed

lemma LatestRevision_head:
  assumes "db_ok d" and "live_row d slug = Some p"
  shows "\<exists>rv n. LatestRevision d slug = (Some rv, n) \<and> 0 < n \<and> rv_number rv = n \<and>
    n = current_revision d (pw_id p) \<and> rv_markdown rv = pw_markdown p"
proof -
  let ?rs = "revisions_of d (pw_id p)"
  have r: "revisions_ok d" and h: "head_ok d p"
    using assms live_row_Some [OF assms(2)] by (auto simp: db_ok_def store_ok_def)
  have len: "0 < length ?rs" using h by (simp add: head_ok_def)
  have cur: "current_revision d (pw_id p) = int (length ?rs)" by (rule current_revision_length [OF r])
  have row: "revision_number d (pw_id p) (int (length ?rs)) = Some (last ?rs)"
    using revision_number_nth [OF r, of "int (length ?rs)" "pw_id p"] len
    by (simp add: last_conv_nth nat_diff_distrib')
  then have "rw_number (last ?rs) = int (length ?rs)"
    unfolding revision_number_def by (auto dest: row_with_Some)
  with row cur len h show ?thesis
    by (simp add: LatestRevision_def assms(2) to_revision_def head_ok_def)
qed

text \<open>Updating rows without their path and identifier.\<close>

lemma page_ids_update:
  "(\<And>r. pw_id (f r) = pw_id r) \<Longrightarrow> page_ids (d\<lparr>db_pages := update_rows P f (db_pages d)\<rparr>) = page_ids d"
  unfolding page_ids_def set_map [symmetric] by (simp add: map_update_rows_same del: set_map)

lemma page_slugs_update:
  "(\<And>r. pw_slug (f r) = pw_slug r) \<Longrightarrow> page_slugs (d\<lparr>db_pages := update_rows P f (db_pages d)\<rparr>) = page_slugs d"
  unfolding page_slugs_def set_map [symmetric] by (simp add: map_update_rows_same del: set_map)

lemma store_ok_update_page:
  assumes "store_ok d" and "\<And>r. pw_id (f r) = pw_id r" and "\<And>r. pw_slug (f r) = pw_slug r"
  shows "store_ok (d\<lparr>db_pages := update_rows P f (db_pages d)\<rparr>)"
  using assms
  unfolding store_ok_def pages_ok_def aliases_ok_def revisions_ok_def reviews_ok_def
  by (simp add: page_ids_update page_slugs_update table_simps revisions_of_def) auto

text \<open>Updating review rows so that no row becomes pending.\<close>

lemma distinct_filter_map_update:
  assumes "distinct (map k (filter P xs))" and "\<And>x. k (f x) = k x" and "\<And>x. P (f x) \<Longrightarrow> P x"
  shows "distinct (map k (filter P (update_rows Q f xs)))"
  using assms(1)
proof (induction xs)
  case (Cons x xs)
  have sub: "set (map k (filter P (update_rows Q f xs))) \<subseteq> set (map k (filter P xs))"
    using assms(2,3) by (fastforce simp: update_rows_def)
  show ?case using Cons sub assms(2,3) by (auto simp: update_rows_def split: if_splits)
qed (simp add: update_rows_def)

lemma store_ok_update_review:
  assumes "store_ok d" and "\<And>v. vw_id (f v) = vw_id v" and "\<And>v. vw_page (f v) = vw_page v"
    and "\<And>v. vw_revision (f v) = vw_revision v" and "\<And>v. pending (f v) \<Longrightarrow> pending v"
  shows "store_ok (d\<lparr>db_reviews := update_rows P f (db_reviews d)\<rparr>)"
proof -
  have "distinct (map vw_page (filter pending (update_rows P f (db_reviews d))))"
    using assms by (intro distinct_filter_map_update) (auto simp: store_ok_def reviews_ok_def)
  with assms show ?thesis
    unfolding store_ok_def pages_ok_def aliases_ok_def revisions_ok_def reviews_ok_def
    by (auto simp: table_simps revisions_of_def page_ids_def page_slugs_def)
qed

lemma head_ok_frame:
  "revisions_of d' (pw_id r) = revisions_of d (pw_id r) \<Longrightarrow> head_ok d' r = head_ok d r"
  by (simp add: head_ok_def)

end
