(* ===== verification/PageSave.thy ===== *)
theory PageSave
  imports Store
begin

text \<open>
  Saving a page: \<open>postgres/page_save.go\<close>, \<open>page_concurrency.go\<close>, \<open>page_revision_metadata.go\<close>,
  \<open>page_aliases.go\<close>, \<open>page_groups.go\<close>, \<open>page_properties.go\<close> and \<open>page_update_transaction.go\<close>.
  A save writes the row, the metadata tables and the links, appends a revision exactly if the
  text or a metadata field changed, and then closes the open reviews of the page.
\<close>

section \<open>The request\<close>

record save_request =
  sq_previous :: string
  sq_slug :: string
  sq_title :: string
  sq_icon :: string
  sq_language :: string
  sq_markdown :: string
  sq_message :: string
  sq_tags :: "string list"
  sq_links :: "string list"
  sq_groups :: "int list"
  sq_metadata :: page_metadata
  sq_properties :: strmap
  sq_render :: page_render
  sq_user :: user

text \<open>The encodings of the derived data cannot fail on values of these types.\<close>

definition preparePageDerivedData :: "page_render \<Rightarrow> page_render" where
  "preparePageDerivedData render =
     (if rd_fingerprint render = [] then render\<lparr>rd_html := [], rd_contents := []\<rparr> else render)"

definition preparePageSave :: "save_request \<Rightarrow> error + save_request" where
  "preparePageSave q =
     (let m = sq_metadata q in
      if \<not> ValidPageStatus (md_status m)
        then Inl (NewValidationError ''status'' ''Choose a valid page status.'')
      else if md_review_interval m < 0
        then Inl (NewValidationError ''review_interval_days'' ''Choose a valid review interval.'')
      else Inr (q\<lparr>sq_metadata := m\<lparr>md_deprecated_target := TrimSpace (md_deprecated_target m)\<rparr>,
                  sq_render := preparePageDerivedData (sq_render q)\<rparr>))"

section \<open>Groups of a page\<close>

definition pageGroupExists :: "db \<Rightarrow> int \<Rightarrow> bool" where
  "pageGroupExists d gid = list_ex (\<lambda>g. g_id g = gid) (db_groups d)"

definition userBelongsToGroup :: "db \<Rightarrow> int \<Rightarrow> int \<Rightarrow> bool" where
  "userBelongsToGroup d uid gid = list_ex (\<lambda>m. m = (uid, gid)) (db_members d)"

definition canAssignPageGroup :: "db \<Rightarrow> int \<Rightarrow> user \<Rightarrow> bool" where
  "canAssignPageGroup d gid u =
     (if IsAdministrator u then pageGroupExists d gid else userBelongsToGroup d (u_id u) gid)"

definition validateAssignableGroup :: "db \<Rightarrow> int \<Rightarrow> user \<Rightarrow> error + unit" where
  "validateAssignableGroup d gid u =
     (if gid = 0 then Inr ()
      else if gid < 0 then Inl (GroupAssignmentError ''owner_group_id'')
      else if \<not> canAssignPageGroup d gid u then Inl (GroupAssignmentError ''owner_group_id'')
      else Inr ())"

primrec assignablePageGroups :: "db \<Rightarrow> user \<Rightarrow> int list \<Rightarrow> int list \<Rightarrow> error + int list" where
  "assignablePageGroups d u [] unique = Inr unique"
| "assignablePageGroups d u (gid # gids) unique =
     (if gid \<le> 0 then Inl (GroupAssignmentError ''group_ids'')
      else if gid \<in> set unique then assignablePageGroups d u gids unique
      else if \<not> canAssignPageGroup d gid u then Inl (GroupAssignmentError ''group_ids'')
      else assignablePageGroups d u gids (unique @ [gid]))"

text \<open>Other users only clear the groups they belong to.\<close>

definition deleteAssignablePageGroups :: "int \<Rightarrow> user \<Rightarrow> db \<Rightarrow> db" where
  "deleteAssignablePageGroups pid u d =
     d\<lparr>db_page_groups := delete_rows (\<lambda>pg. fst pg = pid \<and>
         (IsAdministrator u \<or> userBelongsToGroup d (u_id u) (snd pg))) (db_page_groups d)\<rparr>"

text \<open>\<open>INSERT ... ON CONFLICT DO NOTHING\<close> on a table whose key is the whole row.\<close>

definition insert_missing :: "'r \<Rightarrow> 'r list \<Rightarrow> 'r list" where
  "insert_missing x rows = (if x \<in> set rows then rows else rows @ [x])"

definition replacePageGroups :: "int \<Rightarrow> int list \<Rightarrow> user \<Rightarrow> db \<Rightarrow> error + db" where
  "replacePageGroups pid gids u d =
     bindR (assignablePageGroups d u gids [])
       (\<lambda>unique. let d1 = deleteAssignablePageGroups pid u d in
          Inr (d1\<lparr>db_page_groups := fold (\<lambda>gid. insert_missing (pid, gid)) unique (db_page_groups d1)\<rparr>))"

section \<open>Tags, properties, links and icons\<close>

text \<open>The row of a tag, created when it is missing: \<open>ON CONFLICT(name) DO UPDATE ... RETURNING id\<close>.\<close>

definition upsert_tag :: "string \<Rightarrow> db \<Rightarrow> int \<times> db" where
  "upsert_tag tag d =
     (case row_with (\<lambda>t. snd t = tag) (db_tags d) of
        Some t \<Rightarrow> (fst t, d)
      | None \<Rightarrow> (db_next_tag d, d\<lparr>db_tags := db_tags d @ [(db_next_tag d, tag)], db_next_tag := db_next_tag d + 1\<rparr>))"

definition add_page_tag :: "int \<Rightarrow> string \<Rightarrow> db \<Rightarrow> db" where
  "add_page_tag pid tag d =
     (case upsert_tag tag d of (tid, d1) \<Rightarrow>
        d1\<lparr>db_page_tags := insert_missing (pid, tid) (db_page_tags d1)\<rparr>)"

definition replacePageTags :: "env \<Rightarrow> int \<Rightarrow> string list \<Rightarrow> db \<Rightarrow> db" where
  "replacePageTags e pid tags d =
     fold (\<lambda>t d. let tag = en_lower e (TrimSpace t) in if tag = [] then d else add_page_tag pid tag d)
       tags (d\<lparr>db_page_tags := delete_rows (\<lambda>pt. fst pt = pid) (db_page_tags d)\<rparr>)"

definition insert_property :: "env \<Rightarrow> int \<Rightarrow> string \<Rightarrow> string \<Rightarrow> db \<Rightarrow> error + db" where
  "insert_property e pid key val d =
     (if list_ex (\<lambda>p. fst p = pid \<and> fst (snd p) = key) (db_properties d)
        then Inl (InfrastructureError ''page_properties_pkey'')
      else if list_ex (\<lambda>p. fst p = pid \<and> en_sql_lower e (fst (snd p)) = en_sql_lower e key) (db_properties d)
        then Inl (InfrastructureError ''page_properties_key_ci_idx'')
      else Inr (d\<lparr>db_properties := db_properties d @ [(pid, key, val)]\<rparr>))"

definition replacePageProperties :: "env \<Rightarrow> int \<Rightarrow> strmap \<Rightarrow> db \<Rightarrow> error + db" where
  "replacePageProperties e pid properties d =
     forR (sort_func cmp_compare (remdups (map fst properties)))
       (\<lambda>k d. let val = TrimSpace (case map_of properties k of None \<Rightarrow> [] | Some v \<Rightarrow> v); key = TrimSpace k in
          if key = [] \<or> val = [] then Inr d else insert_property e pid key val d)
       (d\<lparr>db_properties := delete_rows (\<lambda>p. fst p = pid) (db_properties d)\<rparr>)"

definition replacePageLinks :: "int \<Rightarrow> string list \<Rightarrow> db \<Rightarrow> db" where
  "replacePageLinks pid links d =
     d\<lparr>db_links := fold (\<lambda>l. insert_missing (pid, l)) links (delete_rows (\<lambda>l. fst l = pid) (db_links d))\<rparr>"

definition savePageIcon :: "string \<Rightarrow> string \<Rightarrow> db \<Rightarrow> db" where
  "savePageIcon slug icon d =
     (let icon = TrimSpace icon; others = delete_rows (\<lambda>i. fst i = slug) (db_icons d) in
      if icon = [] then d\<lparr>db_icons := others\<rparr>
      else if list_ex (\<lambda>i. fst i = slug) (db_icons d)
        then d\<lparr>db_icons := update_rows (\<lambda>i. fst i = slug) (\<lambda>i. (slug, icon)) (db_icons d)\<rparr>
      else d\<lparr>db_icons := db_icons d @ [(slug, icon)]\<rparr>)"

section \<open>The page row\<close>

definition pageRecordLookupSlug :: "save_request \<Rightarrow> string" where
  "pageRecordLookupSlug q = (let previous = TrimSpace (sq_previous q) in
     if previous \<noteq> [] then previous else sq_slug q)"

text \<open>The identifier and whether the page is deleted; \<open>None\<close> when no row has the path.\<close>

definition loadPageRecordForUpdate :: "db \<Rightarrow> string \<Rightarrow> (int \<times> bool) option" where
  "loadPageRecordForUpdate d slug =
     map_option (\<lambda>r. (pw_id r, \<not> live r)) (row_with (\<lambda>r. pw_slug r = slug) (db_pages d))"

definition owner_exists :: "db \<Rightarrow> int \<Rightarrow> bool" where
  "owner_exists d gid = (gid = 0 \<or> pageGroupExists d gid)"

definition owner_missing :: error where
  "owner_missing = NewValidationError ''owner_group_id'' ''One or more selected groups no longer exist.''"

definition rendered_at :: "env \<Rightarrow> page_render \<Rightarrow> time option" where
  "rendered_at e render = (if rd_fingerprint render \<noteq> [] then Some (en_now e) else None)"

definition new_page_row :: "env \<Rightarrow> save_request \<Rightarrow> int \<Rightarrow> page_row" where
  "new_page_row e q i = (let m = sq_metadata q; r = sq_render q in
     \<lparr>pw_id = i, pw_slug = sq_slug q, pw_title = sq_title q, pw_language = sq_language q,
      pw_markdown = sq_markdown q, pw_created_by = u_id (sq_user q), pw_updated_by = u_id (sq_user q),
      pw_created_at = en_now e, pw_updated_at = en_now e, pw_deleted_at = None, pw_deleted_by = 0,
      pw_view_count = 0, pw_status = md_status m, pw_owner = md_owner_group m,
      pw_reviewed = (if md_mark_reviewed m then Some (en_now e) else None),
      pw_interval = md_review_interval m, pw_target = md_deprecated_target m, pw_usage = md_usage m,
      pw_html = rd_html r, pw_contents = rd_contents r, pw_fingerprint = rd_fingerprint r,
      pw_rendered_at = rendered_at e r\<rparr>)"

definition insertPageRecord :: "env \<Rightarrow> save_request \<Rightarrow> db \<Rightarrow> error + (int \<times> db)" where
  "insertPageRecord e q d =
     (if list_ex (\<lambda>a. fst a = sq_slug q) (db_aliases d) then Inl ErrAlreadyExists
      else if list_ex (\<lambda>r. pw_slug r = sq_slug q) (db_pages d) then Inl ErrAlreadyExists
      else if \<not> owner_exists d (md_owner_group (sq_metadata q)) then Inl owner_missing
      else Inr (db_next_page d, d\<lparr>db_pages := db_pages d @ [new_page_row e q (db_next_page d)],
                                  db_next_page := db_next_page d + 1\<rparr>))"

definition updated_row :: "env \<Rightarrow> save_request \<Rightarrow> page_row \<Rightarrow> page_row" where
  "updated_row e q r = (let m = sq_metadata q; rd = sq_render q in
     r\<lparr>pw_title := sq_title q, pw_language := sq_language q, pw_markdown := sq_markdown q,
       pw_updated_by := u_id (sq_user q), pw_updated_at := en_now e, pw_status := md_status m,
       pw_owner := md_owner_group m,
       pw_reviewed := (if md_mark_reviewed m then Some (en_now e) else pw_reviewed r),
       pw_interval := md_review_interval m, pw_target := md_deprecated_target m, pw_usage := md_usage m,
       pw_html := rd_html rd, pw_contents := rd_contents rd, pw_fingerprint := rd_fingerprint rd,
       pw_rendered_at := rendered_at e rd\<rparr>)"

definition updatePageRecord :: "env \<Rightarrow> int \<Rightarrow> save_request \<Rightarrow> db \<Rightarrow> error + db" where
  "updatePageRecord e i q d =
     (if \<not> owner_exists d (md_owner_group (sq_metadata q)) then Inl owner_missing
      else Inr (d\<lparr>db_pages := update_rows (\<lambda>r. pw_id r = i) (updated_row e q) (db_pages d)\<rparr>))"

section \<open>Paths and aliases\<close>

definition validatePageDestination :: "db \<Rightarrow> int \<Rightarrow> string \<Rightarrow> error + unit" where
  "validatePageDestination d i slug =
     (if list_ex (\<lambda>r. pw_slug r = slug \<and> pw_id r \<noteq> i) (db_pages d) \<or>
         list_ex (\<lambda>a. fst a = slug \<and> snd a \<noteq> i) (db_aliases d)
      then Inl ErrAlreadyExists else Inr ())"

definition removeCurrentSlugAlias :: "int \<Rightarrow> string \<Rightarrow> db \<Rightarrow> db" where
  "removeCurrentSlugAlias i slug d =
     d\<lparr>db_aliases := delete_rows (\<lambda>a. fst a = slug \<and> snd a = i) (db_aliases d)\<rparr>"

text \<open>\<open>UPDATE pages SET slug=...\<close> with further columns, under the unique index on the path.\<close>

definition set_page_slug :: "int \<Rightarrow> string \<Rightarrow> (page_row \<Rightarrow> page_row) \<Rightarrow> db \<Rightarrow> error + db" where
  "set_page_slug i slug f d =
     (if list_ex (\<lambda>r. pw_slug r = slug \<and> pw_id r \<noteq> i) (db_pages d) then Inl ErrAlreadyExists
      else Inr (d\<lparr>db_pages := update_rows (\<lambda>r. pw_id r = i) (\<lambda>r. (f r)\<lparr>pw_slug := slug\<rparr>) (db_pages d)\<rparr>))"

definition move_icon :: "string \<Rightarrow> string \<Rightarrow> db \<Rightarrow> error + db" where
  "move_icon old new d =
     (if list_ex (\<lambda>i. fst i = old) (db_icons d) \<and> list_ex (\<lambda>i. fst i = new) (db_icons d) \<and> old \<noteq> new
      then Inl (InfrastructureError ''navigation_icons_pkey'')
      else Inr (d\<lparr>db_icons := update_rows (\<lambda>i. fst i = old) (\<lambda>i. (new, snd i)) (db_icons d)\<rparr>))"

definition upsert_alias :: "string \<Rightarrow> int \<Rightarrow> db \<Rightarrow> db" where
  "upsert_alias a i d =
     (if list_ex (\<lambda>x. fst x = a) (db_aliases d)
      then d\<lparr>db_aliases := update_rows (\<lambda>x. fst x = a) (\<lambda>x. (a, i)) (db_aliases d)\<rparr>
      else d\<lparr>db_aliases := db_aliases d @ [(a, i)]\<rparr>)"

definition renamePageRecord :: "int \<Rightarrow> string \<Rightarrow> string \<Rightarrow> db \<Rightarrow> error + db" where
  "renamePageRecord i oldSlug newSlug d =
     (if oldSlug = newSlug then Inr d
      else bindR (validatePageDestination d i newSlug) (\<lambda>_.
        bindR (set_page_slug i newSlug (\<lambda>r. r) (removeCurrentSlugAlias i newSlug d)) (\<lambda>d1.
        bindR (move_icon oldSlug newSlug d1) (\<lambda>d2.
        Inr (upsert_alias oldSlug i d2)))))"

definition savePageRecord :: "env \<Rightarrow> save_request \<Rightarrow> db \<Rightarrow> error + (int \<times> db)" where
  "savePageRecord e q d =
     (let lookup = pageRecordLookupSlug q in
      case loadPageRecordForUpdate d lookup of
        None \<Rightarrow> insertPageRecord e q d
      | Some (i, deleted) \<Rightarrow>
          if deleted then Inl ErrPageInBin
          else bindR (renamePageRecord i lookup (sq_slug q) d) (\<lambda>d1.
               bindR (updatePageRecord e i q d1) (\<lambda>d2. Inr (i, d2))))"

section \<open>Revisions\<close>

definition snapshotPage :: "page \<Rightarrow> page_snapshot" where
  "snapshotPage p =
     \<lparr>sn_slug = pg_slug p, sn_title = pg_title p, sn_icon = pg_icon p, sn_language = pg_language p,
      sn_tags = sort_func cmp_compare (pg_tags p), sn_groups = sort_func cmp_compare (map g_id (pg_groups p)),
      sn_status = pg_status p, sn_owner = pg_owner_group p, sn_interval = pg_review_interval p,
      sn_target = pg_deprecated_target p,
      sn_properties = map (\<lambda>x. (pp_key x, pp_value x)) (rev (pg_properties p)),
      sn_reviewed = pg_last_reviewed p\<rparr>"

definition insertPageRevision ::
  "env \<Rightarrow> int \<Rightarrow> string \<Rightarrow> string \<Rightarrow> int \<Rightarrow> page_snapshot \<Rightarrow> string list \<Rightarrow> db \<Rightarrow> int \<times> db" where
  "insertPageRevision e pid markdown message actor snapshot changed d =
     (let n = current_revision d pid + 1 in
      (n, d\<lparr>db_revisions := db_revisions d @
              [\<lparr>rw_id = db_next_revision d, rw_page = pid, rw_number = n, rw_markdown = markdown, rw_by = actor,
                rw_created = en_now e, rw_message = message, rw_snapshot = Some snapshot, rw_changes = changed\<rparr>],
            db_next_revision := db_next_revision d + 1\<rparr>))"

definition appendPageRevision :: "env \<Rightarrow> int \<Rightarrow> string \<Rightarrow> string \<Rightarrow> int \<Rightarrow> db \<Rightarrow> error + db" where
  "appendPageRevision e pid markdown message actor d =
     (case row_with (\<lambda>r. pw_id r = pid) (db_pages d) of
        None \<Rightarrow> Inl (InfrastructureError ''no rows in result set'')
      | Some r \<Rightarrow> bindR (GetPage d (pw_slug r)) (\<lambda>p.
          Inr (snd (insertPageRevision e pid markdown message actor (snapshotPage p) [] d))))"

definition supersedePageReviews :: "env \<Rightarrow> int \<Rightarrow> db \<Rightarrow> db" where
  "supersedePageReviews e pid d =
     d\<lparr>db_reviews := update_rows
         (\<lambda>v. vw_page v = pid \<and> vw_status v \<in> {PageReviewStatusPending, PageReviewStatusChangesRequested})
         (\<lambda>v. v\<lparr>vw_status := PageReviewStatusSuperseded, vw_updated := en_now e\<rparr>) (db_reviews d)\<rparr>"

text \<open>The middle dot that joins the parts of a summary, and the arrow between two values.\<close>

definition dot_separator :: string where
  "dot_separator = '' '' @ [CHR 0xC2, CHR 0xB7] @ '' ''"

definition arrow_separator :: string where
  "arrow_separator = '' '' @ [CHR 0xE2, CHR 0x86, CHR 0x92] @ '' ''"

definition pageRevisionSummary :: "bool \<Rightarrow> string list \<Rightarrow> string \<Rightarrow> string" where
  "pageRevisionSummary contentChanged metadata action =
     (if action = ''page.created'' then ''Page created''
      else Join ((if action = ''page.revision_restored'' then [''Revision restored''] else []) @
                 (if contentChanged then [''Markdown changed''] else []) @
                 (if metadata \<noteq> [] then [''Changed: '' @ Join metadata '', ''] else [])) dot_separator)"

definition pageRevisionAuditSummary ::
  "env \<Rightarrow> bool \<Rightarrow> page_snapshot \<Rightarrow> page_snapshot \<Rightarrow> string \<Rightarrow> string" where
  "pageRevisionAuditSummary e contentChanged before after action =
     (let summary = pageRevisionSummary contentChanged (ChangedFields (Some before) after) action;
          items = map (\<lambda>f. df_name f @ '': '' @ df_before f @ arrow_separator @ df_after f)
                    (filter (\<lambda>f. df_name f \<noteq> ''properties'') (CompareSnapshots (en_format e) before after))
      in if items = [] then summary else summary @ dot_separator @ Join items ''; '')"

definition add_audit :: "int \<Rightarrow> string \<Rightarrow> string \<Rightarrow> string \<Rightarrow> int option \<Rightarrow> db \<Rightarrow> db" where
  "add_audit actor action key detail revision d =
     d\<lparr>db_audit := db_audit d @ [\<lparr>ae_user = actor, ae_action = action, ae_key = key, ae_detail = detail,
                                  ae_revision = revision\<rparr>]\<rparr>"

definition revision_action :: "page option \<Rightarrow> page \<Rightarrow> string \<Rightarrow> string" where
  "revision_action before after message =
     (if HasPrefix message ''Restore revision '' then ''page.revision_restored''
      else case before of
        None \<Rightarrow> ''page.created''
      | Some b \<Rightarrow> if pg_slug b \<noteq> pg_slug after then ''page.renamed'' else ''page.updated'')"

definition persistPageRevision :: "env \<Rightarrow> page option \<Rightarrow> page \<Rightarrow> string \<Rightarrow> int \<Rightarrow> db \<Rightarrow> bool \<times> db" where
  "persistPageRevision e before after message actor d =
     (let snapshot = snapshotPage after;
          previous = map_option snapshotPage before;
          changed = ChangedFields previous snapshot;
          contentChanged = (case before of None \<Rightarrow> True | Some b \<Rightarrow> pg_markdown b \<noteq> pg_markdown after)
      in if \<not> contentChanged \<and> changed = [] then (False, d)
      else let action = revision_action before after message;
               summary = (case previous of
                  None \<Rightarrow> pageRevisionSummary contentChanged changed action
                | Some s \<Rightarrow> pageRevisionAuditSummary e contentChanged s snapshot action);
               message' = (if TrimSpace message = [] then summary else message);
               (n, d1) = insertPageRevision e (pg_id after) (pg_markdown after) message' actor snapshot changed d
           in (True, add_audit actor action (pg_slug after)
                 (''r'' @ show_int n @ dot_separator @ summary) (Some n) d1))"

section \<open>The transactions\<close>

definition previousPageForSave :: "save_request \<Rightarrow> db \<Rightarrow> error + page option" where
  "previousPageForSave q d =
     (let slug = pageRecordLookupSlug q in
      case loadPageRecordForUpdate d slug of
        None \<Rightarrow> Inr None
      | Some (i, deleted) \<Rightarrow>
          if deleted then Inl ErrPageInBin else bindR (GetPage d slug) (\<lambda>p. Inr (Some p)))"

text \<open>The token of a save without a change goes back to what it was.\<close>

definition restore_token :: "int \<Rightarrow> page option \<Rightarrow> db \<Rightarrow> db" where
  "restore_token i before d =
     (case before of None \<Rightarrow> d | Some b \<Rightarrow>
        d\<lparr>db_pages := update_rows (\<lambda>r. pw_id r = i)
            (\<lambda>r. r\<lparr>pw_updated_at := pg_updated_at b, pw_updated_by := pg_updated_by b\<rparr>) (db_pages d)\<rparr>)"

definition executePageSaveTransaction :: "env \<Rightarrow> save_request \<Rightarrow> db \<Rightarrow> error + db" where
  "executePageSaveTransaction e q d =
     bindR (previousPageForSave q d) (\<lambda>before.
     bindR (savePageRecord e q d) (\<lambda>(i, d1).
     let d2 = savePageIcon (sq_slug q) (sq_icon q) d1; d3 = replacePageTags e i (sq_tags q) d2 in
     bindR (replacePageGroups i (sq_groups q) (sq_user q) d3) (\<lambda>d4.
     bindR (replacePageProperties e i (sq_properties q) d4) (\<lambda>d5.
     let d6 = replacePageLinks i (sq_links q) d5 in
     bindR (GetPage d6 (sq_slug q)) (\<lambda>after.
     case persistPageRevision e before after (sq_message q) (u_id (sq_user q)) d6 of (changed, d7) \<Rightarrow>
       if \<not> changed then Inr (restore_token i before d7)
       else Inr (supersedePageReviews e i d7))))))"

definition persistPageSaveTransaction :: "env \<Rightarrow> save_request \<Rightarrow> db \<Rightarrow> error + (page \<times> db)" where
  "persistPageSaveTransaction e q d =
     bindR (validateAssignableGroup d (md_owner_group (sq_metadata q)) (sq_user q)) (\<lambda>_.
     bindR (executePageSaveTransaction e q d) (\<lambda>d1.
     bindR (GetPage d1 (sq_slug q)) (\<lambda>p. Inr (p, d1))))"

definition store_SavePage :: "env \<Rightarrow> save_request \<Rightarrow> db \<Rightarrow> error + (page \<times> db)" where
  "store_SavePage e q d = bindR (preparePageSave q) (\<lambda>q'. persistPageSaveTransaction e q' d)"

definition ensurePageUnchanged :: "string \<Rightarrow> time \<Rightarrow> db \<Rightarrow> error + unit" where
  "ensurePageUnchanged slug expected d =
     (case row_with (\<lambda>r. pw_slug r = TrimSpace slug) (db_pages d) of
        None \<Rightarrow> Inl ErrNotFound
      | Some r \<Rightarrow>
          if \<not> live r then Inl ErrPageInBin
          else if pw_updated_at r = expected then Inr ()
          else Inl (PageEditConflictError (current_revision d (pw_id r))))"

definition store_SavePageIfUnchanged :: "env \<Rightarrow> time \<Rightarrow> save_request \<Rightarrow> db \<Rightarrow> error + (page \<times> db)" where
  "store_SavePageIfUnchanged e expected q d =
     (if expected = 0 \<or> TrimSpace (sq_previous q) = []
      then Inl (NewValidationError ''expected_updated_at'' ''Reload the page before saving it.'')
      else bindR (preparePageSave q) (\<lambda>q'.
        bindR (validateAssignableGroup d (md_owner_group (sq_metadata q')) (sq_user q')) (\<lambda>_.
        bindR (ensurePageUnchanged (sq_previous q') expected d) (\<lambda>_.
        bindR (executePageSaveTransaction e q' d) (\<lambda>d1.
        bindR (GetPage d1 (sq_slug q')) (\<lambda>p. Inr (p, d1)))))))"

section \<open>A prepared source update\<close>

record page_update =
  up_page :: int
  up_actor :: int
  up_markdown :: string
  up_message :: string
  up_links :: "string list"
  up_usage :: plugin_usage
  up_render :: page_render

definition source_row :: "env \<Rightarrow> page_update \<Rightarrow> page_row \<Rightarrow> page_row" where
  "source_row e u r = (let rd = up_render u in
     r\<lparr>pw_markdown := up_markdown u, pw_updated_by := up_actor u, pw_updated_at := en_now e,
       pw_usage := up_usage u, pw_html := rd_html rd, pw_contents := rd_contents rd,
       pw_fingerprint := rd_fingerprint rd, pw_rendered_at := rendered_at e rd\<rparr>)"

definition applyPreparedPageUpdate :: "env \<Rightarrow> page_update \<Rightarrow> (db \<Rightarrow> db) \<Rightarrow> db \<Rightarrow> error + db" where
  "applyPreparedPageUpdate e u afterReviews d =
     (let d1 = d\<lparr>db_pages := update_rows (\<lambda>r. pw_id r = up_page u) (source_row e u) (db_pages d)\<rparr> in
      bindR (appendPageRevision e (up_page u) (up_markdown u) (up_message u) (up_actor u) d1) (\<lambda>d2.
      Inr (replacePageLinks (up_page u) (up_links u) (afterReviews (supersedePageReviews e (up_page u) d2)))))"

section \<open>Operations outside the core\<close>

text \<open>The metadata tables, the links and the icons do not touch the core of the state.\<close>

lemma core_outside [simp]:
  "core (d\<lparr>db_icons := a\<rparr>) = core d" "core (d\<lparr>db_tags := b\<rparr>) = core d" "core (d\<lparr>db_page_tags := c\<rparr>) = core d"
  "core (d\<lparr>db_page_groups := c\<rparr>) = core d" "core (d\<lparr>db_properties := p\<rparr>) = core d"
  "core (d\<lparr>db_links := l\<rparr>) = core d" "core (d\<lparr>db_next_tag := n\<rparr>) = core d"
  "core (d\<lparr>db_audit := x\<rparr>) = core d" "core (d\<lparr>db_reviewers := c\<rparr>) = core d"
  "core (d\<lparr>db_review_comments := y\<rparr>) = core d" "core (d\<lparr>db_comments := z\<rparr>) = core d"
  "core (d\<lparr>db_next_comment := n\<rparr>) = core d" "core (d\<lparr>db_next_review_comment := n\<rparr>) = core d"
  by (simp_all add: core_def)

lemma core_savePageIcon [simp]: "core (savePageIcon slug icon d) = core d"
  by (simp add: savePageIcon_def Let_def)

lemma core_add_audit [simp]: "core (add_audit a b c x y d) = core d"
  by (simp add: add_audit_def)

lemma core_replacePageLinks [simp]: "core (replacePageLinks pid links d) = core d"
  by (simp add: replacePageLinks_def)

lemma core_add_page_tag [simp]: "core (add_page_tag pid tag d) = core d"
  by (simp add: add_page_tag_def upsert_tag_def split: option.splits)

lemma core_replacePageTags [simp]: "core (replacePageTags e pid tags d) = core d"
proof -
  have "core (fold (\<lambda>t d. let tag = en_lower e (TrimSpace t) in if tag = [] then d else add_page_tag pid tag d)
       tags d') = core d'" for d'
    by (induction tags arbitrary: d') (simp_all add: Let_def)
  then show ?thesis by (simp add: replacePageTags_def)
qed

lemma core_replacePageGroups: "replacePageGroups pid gids u d = Inr d' \<Longrightarrow> core d' = core d"
  by (auto simp: replacePageGroups_def result_simps Let_def deleteAssignablePageGroups_def)

lemma core_replacePageProperties:
  assumes "replacePageProperties e pid props d = Inr d'"
  shows "core d' = core d"
proof (rule forR_invariant [OF assms [unfolded replacePageProperties_def]])
  show "core (d\<lparr>db_properties := delete_rows (\<lambda>p. fst p = pid) (db_properties d)\<rparr>) = core d" by simp
qed (auto simp: Let_def insert_property_def split: if_splits)

lemma core_move_icon: "move_icon old new d = Inr d' \<Longrightarrow> core d' = core d"
  by (auto simp: move_icon_def split: if_splits)

section \<open>Consistency of the row operations\<close>

lemma store_ok_new_page:
  assumes "store_ok d" and "pw_id r = db_next_page d" and "pw_slug r \<notin> page_slugs d"
    and "pw_slug r \<notin> fst ` set (db_aliases d)"
  shows "store_ok (d\<lparr>db_pages := db_pages d @ [r], db_next_page := db_next_page d + 1\<rparr>)"
proof -
  let ?d = "d\<lparr>db_pages := db_pages d @ [r], db_next_page := db_next_page d + 1\<rparr>"
  have ids: "page_ids ?d = insert (pw_id r) (page_ids d)" and slugs: "page_slugs ?d = insert (pw_slug r) (page_slugs d)"
    and revs: "revisions_of ?d = revisions_of d"
    by (auto simp: page_ids_def page_slugs_def revisions_of_def fun_eq_iff)
  have new: "pw_id r \<notin> page_ids d"
    using assms(1,2) by (auto simp: store_ok_def pages_ok_def page_ids_def)
  have "pages_ok ?d"
    using assms(1-3) new by (auto simp: store_ok_def pages_ok_def page_ids_def page_slugs_def)
  moreover have "aliases_ok ?d"
    using assms(1,4) by (auto simp: store_ok_def aliases_ok_def ids slugs image_iff)
  moreover have "revisions_ok ?d"
    using assms(1) by (auto simp: store_ok_def revisions_ok_def ids revs)
  moreover have "reviews_ok ?d"
    using assms(1) by (auto simp: store_ok_def reviews_ok_def ids revs)
  ultimately show ?thesis by (simp add: store_ok_def)
qed

text \<open>Changing the path of one page, when no other page has the new path.\<close>

lemma distinct_set_one:
  assumes "distinct (map k xs)" and "distinct (map i xs)" and "\<And>x. x \<in> set xs \<Longrightarrow> i x \<noteq> c \<Longrightarrow> k x \<noteq> v"
    and "\<And>x. k (f x) = v"
  shows "distinct (map k (update_rows (\<lambda>x. i x = c) f xs))"
  using assms(1-3)
proof (induction xs)
  case (Cons x xs)
  have rest: "distinct (map k (update_rows (\<lambda>x. i x = c) f xs))"
    using Cons by simp
  show ?case
  proof (cases "i x = c")
    case True
    moreover have "i x \<notin> i ` set xs" using Cons.prems(2) by simp
    ultimately have no: "\<And>y. y \<in> set xs \<Longrightarrow> i y \<noteq> c" by (metis image_eqI)
    then have "update_rows (\<lambda>x. i x = c) f xs = xs"
      by (simp add: update_rows_def map_idI)
    moreover have "v \<notin> k ` set xs"
      using Cons.prems(3) no by auto
    ultimately show ?thesis using True rest assms(4) by (simp add: update_rows_def)
  next
    case False
    then have "k x \<noteq> v" using Cons.prems(3) by simp
    then have "k x \<notin> k ` set (update_rows (\<lambda>x. i x = c) f xs)"
      using Cons.prems(1) assms(4) by (auto simp: update_rows_def)
    moreover have "update_rows (\<lambda>x. i x = c) f (x # xs) = x # update_rows (\<lambda>x. i x = c) f xs"
      using False by (simp add: update_rows_def)
    ultimately show ?thesis using rest by simp
  qed
qed (simp add: update_rows_def)

lemma set_upsert_alias:
  "distinct (map fst (db_aliases d)) \<Longrightarrow>
   set (db_aliases (upsert_alias a i d)) = insert (a, i) {x \<in> set (db_aliases d). fst x \<noteq> a}"
  by (force simp: upsert_alias_def table_simps list_ex_iff)

lemma distinct_upsert_alias:
  assumes "distinct (map fst (db_aliases d))"
  shows "distinct (map fst (db_aliases (upsert_alias a i d)))"
proof -
  have "map fst (update_rows (\<lambda>x. fst x = a) (\<lambda>x. (a, i)) (db_aliases d)) = map fst (db_aliases d)"
    by (rule map_update_rows_same) simp
  with assms show ?thesis by (auto simp: upsert_alias_def list_ex_iff)
qed

lemma upsert_alias_fields [simp]:
  "db_pages (upsert_alias a i d) = db_pages d" "db_revisions (upsert_alias a i d) = db_revisions d"
  "db_reviews (upsert_alias a i d) = db_reviews d" "db_next_page (upsert_alias a i d) = db_next_page d"
  "db_next_review (upsert_alias a i d) = db_next_review d"
  by (simp_all add: upsert_alias_def)

lemma store_ok_rename:
  assumes ok: "store_ok d" and r: "r \<in> set (db_pages d)" "pw_id r = i" "pw_slug r = old" and ne: "old \<noteq> new"
    and al: "\<And>a. a \<in> set (db_aliases d) \<Longrightarrow> fst a = new \<Longrightarrow> snd a = i" and f: "\<And>x. pw_id (f x) = pw_id x"
    and s: "set_page_slug i new f (removeCurrentSlugAlias i new d) = Inr d1" and m: "move_icon old new d1 = Inr d2"
  shows "store_ok (upsert_alias old i d2)"
    and "db_pages (upsert_alias old i d2) = update_rows (\<lambda>r. pw_id r = i) (\<lambda>r. (f r)\<lparr>pw_slug := new\<rparr>) (db_pages d)"
    and "set (db_aliases (upsert_alias old i d2)) = insert (old, i) {a \<in> set (db_aliases d). fst a \<noteq> new \<and> fst a \<noteq> old}"
    and "db_revisions (upsert_alias old i d2) = db_revisions d" and "db_reviews (upsert_alias old i d2) = db_reviews d"
    and "db_next_page (upsert_alias old i d2) = db_next_page d"
proof -
  let ?g = "\<lambda>r. (f r)\<lparr>pw_slug := new\<rparr>"
  let ?e = "upsert_alias old i d2"
  note c = core_eqD [OF core_move_icon [OF m]]
  have other: "pw_slug x \<noteq> new" if "x \<in> set (db_pages d)" "pw_id x \<noteq> i" for x
    using s that by (auto simp: set_page_slug_def removeCurrentSlugAlias_def list_ex_iff split: if_splits)
  have d1: "d1 = (removeCurrentSlugAlias i new d)\<lparr>db_pages := update_rows (\<lambda>r. pw_id r = i) ?g (db_pages d)\<rparr>"
    using s by (auto simp: set_page_slug_def removeCurrentSlugAlias_def split: if_splits)
  show pages: "db_pages ?e = update_rows (\<lambda>r. pw_id r = i) ?g (db_pages d)"
    using c d1 by simp
  show revs: "db_revisions ?e = db_revisions d" and vs: "db_reviews ?e = db_reviews d"
    and np: "db_next_page ?e = db_next_page d"
    using c d1 by (simp_all add: removeCurrentSlugAlias_def)
  have nv: "db_next_review ?e = db_next_review d"
    using c d1 by (simp add: removeCurrentSlugAlias_def)
  have ad2: "db_aliases d2 = delete_rows (\<lambda>a. fst a = new \<and> snd a = i) (db_aliases d)"
    using c d1 by (simp add: removeCurrentSlugAlias_def)
  have da: "distinct (map fst (db_aliases d2))"
    unfolding ad2 using ok by (auto simp: store_ok_def aliases_ok_def intro: distinct_map_delete_rows)
  show als: "set (db_aliases ?e) = insert (old, i) {a \<in> set (db_aliases d). fst a \<noteq> new \<and> fst a \<noteq> old}"
    unfolding set_upsert_alias [OF da] ad2 using al by (auto simp: table_simps)
  have po: "pages_ok d" and ao: "aliases_ok d" using ok by (auto simp: store_ok_def)
  have ids: "page_ids ?e = page_ids d"
    unfolding page_ids_def pages set_map [symmetric] by (simp add: map_update_rows_same f del: set_map)
  have one: "x = r" if "x \<in> set (db_pages d)" "pw_id x = i" for x
    using distinct_map_inj [of pw_id "db_pages d" x r] po r that by (simp add: pages_ok_def)
  have slug_old: "x = r" if "x \<in> set (db_pages d)" "pw_slug x = old" for x
    using distinct_map_inj [of pw_slug "db_pages d" x r] po r that by (simp add: pages_ok_def)
  have slugs: "page_slugs ?e \<subseteq> insert new (page_slugs d - {old})"
    unfolding page_slugs_def pages using slug_old r(2) by (auto simp: table_simps)
  have "pages_ok ?e"
    unfolding pages_ok_def pages np
  proof (intro conjI)
    show "distinct (map pw_slug (update_rows (\<lambda>r. pw_id r = i) ?g (db_pages d)))"
      using po other by (intro distinct_set_one [where v = new]) (auto simp: pages_ok_def)
    show "distinct (map pw_id (update_rows (\<lambda>r. pw_id r = i) ?g (db_pages d)))"
      using po by (simp add: map_update_rows_same f pages_ok_def)
  qed (use po f in \<open>auto simp: pages_ok_def table_simps\<close>)
  moreover have "aliases_ok ?e"
    unfolding aliases_ok_def
  proof
    show "distinct (map fst (db_aliases ?e))" by (rule distinct_upsert_alias [OF da])
    have "i \<in> page_ids d" using r by (auto simp: page_ids_def)
    then show "\<forall>a \<in> set (db_aliases ?e). snd a \<in> page_ids ?e \<and> fst a \<notin> page_slugs ?e"
      using ao ne by (auto simp: als ids aliases_ok_def dest!: subsetD [OF slugs])
  qed
  moreover have "revisions_of ?e = revisions_of d"
    using revs by (simp add: revisions_of_def fun_eq_iff)
  moreover from this have "revisions_ok ?e" "reviews_ok ?e"
    using ok ids revs vs nv by (simp_all add: store_ok_def revisions_ok_def reviews_ok_def)
  ultimately show "store_ok ?e" by (simp add: store_ok_def)
qed

section \<open>Consistency of a new revision\<close>

lemma insertPageRevision_fields:
  assumes "insertPageRevision e pid md msg actor sn ch d = (n, d')"
  shows "n = current_revision d pid + 1" and "db_pages d' = db_pages d" and "db_aliases d' = db_aliases d"
    and "db_reviews d' = db_reviews d" and "db_next_page d' = db_next_page d" and "db_next_review d' = db_next_review d"
    and "\<exists>w. db_revisions d' = db_revisions d @ [w] \<and> rw_page w = pid \<and> rw_number w = n \<and> rw_markdown w = md"
  using assms by (auto simp: insertPageRevision_def Let_def)

lemma store_ok_new_revision:
  assumes ok: "store_ok d" and pid: "pid \<in> page_ids d"
    and ins: "insertPageRevision e pid md msg actor sn ch d = (n, d')"
  shows "store_ok d'" and "n = int (length (revisions_of d pid)) + 1"
    and "revisions_of d' pid \<noteq> []" and "rw_markdown (last (revisions_of d' pid)) = md"
    and "\<And>p. p \<noteq> pid \<Longrightarrow> revisions_of d' p = revisions_of d p"
    and "length (revisions_of d' pid) = Suc (length (revisions_of d pid))"
proof -
  note f = insertPageRevision_fields [OF ins]
  have rok: "revisions_ok d" using ok by (simp add: store_ok_def)
  show n: "n = int (length (revisions_of d pid)) + 1"
    using f(1) current_revision_length [OF rok] by simp
  obtain w where w: "db_revisions d' = db_revisions d @ [w]" "rw_page w = pid" "rw_number w = n" "rw_markdown w = md"
    using f(7) by auto
  have revs: "revisions_of d' p = (if p = pid then revisions_of d p @ [w] else revisions_of d p)" for p
    using w by (simp add: revisions_of_def)
  then show "revisions_of d' pid \<noteq> []" "rw_markdown (last (revisions_of d' pid)) = md"
    "length (revisions_of d' pid) = Suc (length (revisions_of d pid))"
    "\<And>p. p \<noteq> pid \<Longrightarrow> revisions_of d' p = revisions_of d p"
    using w by simp_all
  have ids: "page_ids d' = page_ids d" "page_slugs d' = page_slugs d"
    using f by (simp_all add: page_ids_def page_slugs_def)
  have "revisions_ok d'"
    unfolding revisions_ok_def
  proof (intro conjI allI)
    show "\<forall>r \<in> set (db_revisions d'). rw_page r \<in> page_ids d'"
      using rok pid w ids by (auto simp: revisions_ok_def)
    fix p
    have up: "[1..1 + int k] = [1..int k] @ [1 + int k]" for k
      by (subst upto_rec2) simp_all
    show "map rw_number (revisions_of d' p) = [1..int (length (revisions_of d' p))]"
      using rok w n by (auto simp: revs revisions_ok_def up add.commute)
  qed
  moreover have "reviews_ok d'"
    using ok f ids unfolding store_ok_def reviews_ok_def by (fastforce simp: revs)
  moreover have "pages_ok d'" "aliases_ok d'"
    using ok f ids by (simp_all add: store_ok_def pages_ok_def aliases_ok_def)
  ultimately show "store_ok d'" by (simp add: store_ok_def)
qed

lemma store_ok_supersede: "store_ok d \<Longrightarrow> store_ok (supersedePageReviews e pid d)"
  unfolding supersedePageReviews_def by (rule store_ok_update_review) (simp_all add: pending_def)

lemma supersede_fields [simp]:
  "db_pages (supersedePageReviews e pid d) = db_pages d" "db_revisions (supersedePageReviews e pid d) = db_revisions d"
  "db_aliases (supersedePageReviews e pid d) = db_aliases d" "live_row (supersedePageReviews e pid d) = live_row d"
  "revisions_of (supersedePageReviews e pid d) = revisions_of d" "page_ids (supersedePageReviews e pid d) = page_ids d"
  by (simp_all add: supersedePageReviews_def live_row_def revisions_of_def page_ids_def fun_eq_iff)

section \<open>The saved row\<close>

lemma row_by_slug:
  "row_with (\<lambda>r. pw_slug r = s) (db_pages d) = Some r \<Longrightarrow> r \<in> set (db_pages d) \<and> pw_slug r = s"
  by (auto dest: row_with_Some)

text \<open>The row a save leaves behind: a fresh one, or the row of the old path under the new path.\<close>

definition saved_row :: "env \<Rightarrow> save_request \<Rightarrow> db \<Rightarrow> int \<Rightarrow> page_row" where
  "saved_row e q d i =
     (case row_with (\<lambda>r. pw_slug r = pageRecordLookupSlug q) (db_pages d) of
        None \<Rightarrow> new_page_row e q i
      | Some r0 \<Rightarrow> updated_row e q (r0\<lparr>pw_slug := sq_slug q\<rparr>))"

lemma updated_row_simps [simp]:
  "pw_id (updated_row e q r) = pw_id r" "pw_slug (updated_row e q r) = pw_slug r"
  "live (updated_row e q r) = live r" "pw_markdown (updated_row e q r) = sq_markdown q"
  "pw_title (updated_row e q r) = sq_title q" "pw_language (updated_row e q r) = sq_language q"
  "pw_updated_at (updated_row e q r) = en_now e"
  by (simp_all add: updated_row_def Let_def live_def)

lemma new_page_row_simps [simp]:
  "pw_id (new_page_row e q i) = i" "pw_slug (new_page_row e q i) = sq_slug q"
  "live (new_page_row e q i)" "pw_markdown (new_page_row e q i) = sq_markdown q"
  "pw_title (new_page_row e q i) = sq_title q" "pw_language (new_page_row e q i) = sq_language q"
  "pw_updated_at (new_page_row e q i) = en_now e"
  by (simp_all add: new_page_row_def Let_def live_def)

lemma insertPageRecord_ok:
  assumes ok: "store_ok d" and s: "insertPageRecord e q d = Inr (i, d1)"
  shows "store_ok d1" and "db_pages d1 = db_pages d @ [new_page_row e q i]" and "i \<notin> page_ids d"
    and "db_revisions d1 = db_revisions d" and "db_reviews d1 = db_reviews d" and "db_aliases d1 = db_aliases d"
proof -
  from s have i: "i = db_next_page d"
    and d1: "d1 = d\<lparr>db_pages := db_pages d @ [new_page_row e q i], db_next_page := db_next_page d + 1\<rparr>"
    and n: "sq_slug q \<notin> fst ` set (db_aliases d)" "sq_slug q \<notin> page_slugs d"
    by (auto simp: insertPageRecord_def list_ex_iff page_slugs_def split: if_splits)
  show "store_ok d1"
    unfolding d1 using ok n i by (intro store_ok_new_page) simp_all
  show "i \<notin> page_ids d"
    using ok i by (auto simp: store_ok_def pages_ok_def page_ids_def)
qed (use s in \<open>auto simp: insertPageRecord_def split: if_splits\<close>)

lemma update_rows_compose:
  "(\<And>r. P (f r) = P r) \<Longrightarrow> update_rows P g (update_rows P f rows) = update_rows P (\<lambda>r. g (f r)) rows"
  by (simp add: update_rows_def)

lemma update_rows_only:
  assumes "distinct (map k rows)" and "r \<in> set rows"
  shows "set (update_rows (\<lambda>x. k x = k r) f rows) = insert (f r) {x \<in> set rows. k x \<noteq> k r}"
  using assms by (auto simp: table_simps dest: distinct_map_inj)


lemma savePageRecord_ok:
  assumes ok: "store_ok d" and s: "savePageRecord e q d = Inr (i, d1)"
  shows "store_ok d1" and "saved_row e q d i \<in> set (db_pages d1)"
    and "pw_id (saved_row e q d i) = i" and "pw_slug (saved_row e q d i) = sq_slug q"
    and "live (saved_row e q d i)" and "pw_markdown (saved_row e q d i) = sq_markdown q"
    and "\<And>r. r \<in> set (db_pages d1) \<Longrightarrow> pw_id r \<noteq> i \<Longrightarrow> r \<in> set (db_pages d)"
    and "db_revisions d1 = db_revisions d" and "db_reviews d1 = db_reviews d"
proof -
  let ?lookup = "pageRecordLookupSlug q"
  have "store_ok d1 \<and> saved_row e q d i \<in> set (db_pages d1) \<and> pw_id (saved_row e q d i) = i \<and>
    pw_slug (saved_row e q d i) = sq_slug q \<and> live (saved_row e q d i) \<and>
    pw_markdown (saved_row e q d i) = sq_markdown q \<and>
    (\<forall>r \<in> set (db_pages d1). pw_id r \<noteq> i \<longrightarrow> r \<in> set (db_pages d)) \<and>
    db_revisions d1 = db_revisions d \<and> db_reviews d1 = db_reviews d"
  proof (cases "row_with (\<lambda>r. pw_slug r = ?lookup) (db_pages d)")
    case None
    then have "insertPageRecord e q d = Inr (i, d1)"
      using s by (simp add: savePageRecord_def loadPageRecordForUpdate_def Let_def)
    note n = insertPageRecord_ok [OF ok this]
    show ?thesis
      using n None by (auto simp: saved_row_def)
  next
    case (Some r0)
    then have r0: "r0 \<in> set (db_pages d)" "pw_slug r0 = ?lookup" by (auto dest: row_by_slug)
    from s Some obtain d0 where live0: "live r0" and i: "i = pw_id r0"
      and ren: "renamePageRecord i ?lookup (sq_slug q) d = Inr d0" and upd: "updatePageRecord e i q d0 = Inr d1"
      by (auto simp: savePageRecord_def loadPageRecordForUpdate_def Let_def result_simps split: if_splits)
    have d0: "store_ok d0 \<and> db_revisions d0 = db_revisions d \<and> db_reviews d0 = db_reviews d \<and>
        db_pages d0 = update_rows (\<lambda>r. pw_id r = i) (\<lambda>r. r\<lparr>pw_slug := sq_slug q\<rparr>) (db_pages d)"
    proof (cases "?lookup = sq_slug q")
      case True
      have "update_rows (\<lambda>r. pw_id r = i) (\<lambda>r. r\<lparr>pw_slug := sq_slug q\<rparr>) (db_pages d) = db_pages d"
        unfolding update_rows_def
      proof (rule map_idI)
        fix r assume "r \<in> set (db_pages d)"
        then have "pw_id r = i \<Longrightarrow> r = r0"
          using distinct_map_inj [of pw_id "db_pages d" r r0] ok r0 i by (simp add: store_ok_def pages_ok_def)
        then show "(if pw_id r = i then r\<lparr>pw_slug := sq_slug q\<rparr> else r) = r"
          using r0 True by auto
      qed
      with True ren ok show ?thesis by (simp add: renamePageRecord_def)
    next
      case False
      with ren obtain x y where v: "validatePageDestination d i (sq_slug q) = Inr ()"
        and x: "set_page_slug i (sq_slug q) (\<lambda>r. r) (removeCurrentSlugAlias i (sq_slug q) d) = Inr x"
        and y: "move_icon ?lookup (sq_slug q) x = Inr y" and d0: "d0 = upsert_alias ?lookup i y"
        by (auto simp: renamePageRecord_def result_simps)
      have al: "snd a = i" if "a \<in> set (db_aliases d)" "fst a = sq_slug q" for a
        using v that by (auto simp: validatePageDestination_def list_ex_iff split: if_splits)
      have id: "pw_id ((\<lambda>r. r) z) = pw_id z" for z :: page_row by simp
      note n = store_ok_rename [OF ok r0(1) i [symmetric] r0(2) False al id x y]
      show ?thesis
        unfolding d0 by (intro conjI n)
    qed
    have d1: "d1 = d0\<lparr>db_pages := update_rows (\<lambda>r. pw_id r = i) (updated_row e q) (db_pages d0)\<rparr>"
      using upd by (auto simp: updatePageRecord_def split: if_splits)
    have pages: "db_pages d1 = update_rows (\<lambda>r. pw_id r = i)
        (\<lambda>r. updated_row e q (r\<lparr>pw_slug := sq_slug q\<rparr>)) (db_pages d)"
      unfolding d1 using d0 by (simp add: update_rows_compose)
    have "store_ok d1"
      unfolding d1 using d0 by (intro store_ok_update_page) simp_all
    moreover have sr: "saved_row e q d i = updated_row e q (r0\<lparr>pw_slug := sq_slug q\<rparr>)"
      using Some by (simp add: saved_row_def)
    moreover have "updated_row e q (r0\<lparr>pw_slug := sq_slug q\<rparr>) \<in> set (db_pages d1)"
      unfolding pages using r0(1) i by (auto simp: table_simps)
    moreover have "\<forall>r \<in> set (db_pages d1). pw_id r \<noteq> i \<longrightarrow> r \<in> set (db_pages d)"
      unfolding pages by (auto simp: table_simps)
    moreover have "live (r0\<lparr>pw_slug := sq_slug q\<rparr>)" using live0 by (simp add: live_def)
    ultimately show ?thesis using d0 i by (simp add: d1)
  qed
  then show "store_ok d1" "saved_row e q d i \<in> set (db_pages d1)"
    "pw_id (saved_row e q d i) = i" "pw_slug (saved_row e q d i) = sq_slug q"
    "live (saved_row e q d i)" "pw_markdown (saved_row e q d i) = sq_markdown q"
    "\<And>r. r \<in> set (db_pages d1) \<Longrightarrow> pw_id r \<noteq> i \<Longrightarrow> r \<in> set (db_pages d)"
    "db_revisions d1 = db_revisions d" "db_reviews d1 = db_reviews d"
    by blast+
qed

section \<open>The whole transaction\<close>

lemma persistPageRevision_cases:
  assumes "persistPageRevision e before after msg actor d = (changed, d')"
  shows "(\<not> changed \<and> d' = d \<and> (\<exists>b. before = Some b \<and> pg_markdown b = pg_markdown after \<and>
            ChangedFields (Some (snapshotPage b)) (snapshotPage after) = [])) \<or>
    (changed \<and> (\<exists>m fs n d0 a t.
        insertPageRevision e (pg_id after) (pg_markdown after) m actor (snapshotPage after) fs d = (n, d0) \<and>
        fs = ChangedFields (map_option snapshotPage before) (snapshotPage after) \<and>
        d' = add_audit actor a (pg_slug after) t (Some n) d0))"
proof -
  define sn where "sn = snapshotPage after"
  define previous where "previous = map_option snapshotPage before"
  define fs where "fs = ChangedFields previous sn"
  define cc where "cc = (case before of None \<Rightarrow> True | Some b \<Rightarrow> pg_markdown b \<noteq> pg_markdown after)"
  define action where "action = revision_action before after msg"
  define summary where "summary = (case previous of None \<Rightarrow> pageRevisionSummary cc fs action
      | Some s \<Rightarrow> pageRevisionAuditSummary e cc s sn action)"
  define m where "m = (if TrimSpace msg = [] then summary else msg)"
  obtain n d0 where ins: "insertPageRevision e (pg_id after) (pg_markdown after) m actor sn fs d = (n, d0)"
    by (rule prod.exhaust)
  have eq: "persistPageRevision e before after msg actor d = (if \<not> cc \<and> fs = [] then (False, d)
      else (True, add_audit actor action (pg_slug after) (''r'' @ show_int n @ dot_separator @ summary) (Some n) d0))"
    unfolding persistPageRevision_def Let_def
    unfolding sn_def [symmetric] previous_def [symmetric]
    unfolding fs_def [symmetric] cc_def [symmetric] action_def [symmetric]
    unfolding summary_def [symmetric]
    unfolding m_def [symmetric] ins by simp
  show ?thesis
  proof (cases "\<not> cc \<and> fs = []")
    case True
    then obtain b where "before = Some b" "pg_markdown b = pg_markdown after"
      by (auto simp: cc_def split: option.splits)
    moreover from this True have "ChangedFields (Some (snapshotPage b)) (snapshotPage after) = []"
      by (simp add: fs_def previous_def sn_def)
    ultimately show ?thesis using assms eq True by simp
  next
    case False
    then have "changed" "d' = add_audit actor action (pg_slug after) (''r'' @ show_int n @ dot_separator @ summary) (Some n) d0"
      using assms unfolding eq by auto
    with ins show ?thesis unfolding sn_def fs_def previous_def by blast
  qed
qed

lemma pages_row_unique:
  "store_ok d \<Longrightarrow> r \<in> set (db_pages d) \<Longrightarrow> r' \<in> set (db_pages d) \<Longrightarrow> pw_id r = pw_id r' \<Longrightarrow> r = r'"
  "store_ok d \<Longrightarrow> r \<in> set (db_pages d) \<Longrightarrow> r' \<in> set (db_pages d) \<Longrightarrow> pw_slug r = pw_slug r' \<Longrightarrow> r = r'"
  using distinct_map_inj [of pw_id] distinct_map_inj [of pw_slug]
  by (auto simp: store_ok_def pages_ok_def)

lemma previousPageForSave_Inr:
  assumes "previousPageForSave q d = Inr before" and ok: "store_ok d"
  shows "before = map_option (complete_page d) (row_with (\<lambda>r. pw_slug r = pageRecordLookupSlug q) (db_pages d))"
    and "\<And>r. row_with (\<lambda>r. pw_slug r = pageRecordLookupSlug q) (db_pages d) = Some r \<Longrightarrow> live r"
proof -
  let ?s = "pageRecordLookupSlug q"
  have "before = map_option (complete_page d) (row_with (\<lambda>r. pw_slug r = ?s) (db_pages d)) \<and>
    (\<forall>r. row_with (\<lambda>r. pw_slug r = ?s) (db_pages d) = Some r \<longrightarrow> live r)"
  proof (cases "row_with (\<lambda>r. pw_slug r = ?s) (db_pages d)")
    case None
    with assms show ?thesis by (simp add: previousPageForSave_def loadPageRecordForUpdate_def Let_def)
  next
    case (Some r)
    with assms(1) obtain p where live: "live r" and p: "GetPage d ?s = Inr p" "before = Some p"
      by (auto simp: previousPageForSave_def loadPageRecordForUpdate_def Let_def result_simps split: if_splits)
    from row_by_slug [OF Some] live have "live_row d ?s = Some r"
      using ok by (simp add: live_row_eq store_ok_def)
    with p Some live show ?thesis by (simp add: GetPage_def)
  qed
  then show "before = map_option (complete_page d) (row_with (\<lambda>r. pw_slug r = ?s) (db_pages d))"
    "\<And>r. row_with (\<lambda>r. pw_slug r = ?s) (db_pages d) = Some r \<Longrightarrow> live r"
    by auto
qed

text \<open>The stages of a save: the row, then the other tables, then the revision.\<close>

lemma executePageSave_stages:
  assumes ok: "store_ok d" and s: "executePageSaveTransaction e q d = Inr d'"
  obtains i d1 d6 d7 changed before where
    "savePageRecord e q d = Inr (i, d1)" and "core d6 = core d1"
    and "before = map_option (complete_page d) (row_with (\<lambda>r. pw_slug r = pageRecordLookupSlug q) (db_pages d))"
    and "live_row d6 (sq_slug q) = Some (saved_row e q d i)"
    and "persistPageRevision e before (complete_page d6 (saved_row e q d i)) (sq_message q) (u_id (sq_user q)) d6
           = (changed, d7)"
    and "d' = (if changed then supersedePageReviews e i d7 else restore_token i before d7)"
    and "\<exists>d3 d4 d5. d3 = replacePageTags e i (sq_tags q) (savePageIcon (sq_slug q) (sq_icon q) d1) \<and>
           replacePageGroups i (sq_groups q) (sq_user q) d3 = Inr d4 \<and>
           replacePageProperties e i (sq_properties q) d4 = Inr d5 \<and> d6 = replacePageLinks i (sq_links q) d5"
proof -
  from s obtain before i d1 d4 d5 after where b: "previousPageForSave q d = Inr before"
    and r: "savePageRecord e q d = Inr (i, d1)"
    and g: "replacePageGroups i (sq_groups q) (sq_user q)
              (replacePageTags e i (sq_tags q) (savePageIcon (sq_slug q) (sq_icon q) d1)) = Inr d4"
    and p: "replacePageProperties e i (sq_properties q) d4 = Inr d5"
    and a: "GetPage (replacePageLinks i (sq_links q) d5) (sq_slug q) = Inr after"
    and f: "(case persistPageRevision e before after (sq_message q) (u_id (sq_user q)) (replacePageLinks i (sq_links q) d5) of
              (changed, d7) \<Rightarrow> if \<not> changed then Inr (restore_token i before d7)
                 else Inr (supersedePageReviews e i d7)) = (Inr d' :: error + db)"
    unfolding executePageSaveTransaction_def Let_def by (auto simp: result_simps)
  let ?d6 = "replacePageLinks i (sq_links q) d5"
  have c: "core ?d6 = core d1"
    using core_replacePageProperties [OF p] core_replacePageGroups [OF g] by simp
  note n = savePageRecord_ok [OF ok r]
  have "live_row d1 (sq_slug q) = Some (saved_row e q d i)"
    using n(1-5) by (subst live_row_eq) (simp_all add: store_ok_def)
  then have lr: "live_row ?d6 (sq_slug q) = Some (saved_row e q d i)"
    by (simp add: core_eqD [OF c])
  then have after: "after = complete_page ?d6 (saved_row e q d i)"
    using a by (simp add: GetPage_def)
  obtain changed d7 where pr: "persistPageRevision e before (complete_page ?d6 (saved_row e q d i)) (sq_message q)
      (u_id (sq_user q)) ?d6 = (changed, d7)"
    by (cases "persistPageRevision e before (complete_page ?d6 (saved_row e q d i)) (sq_message q) (u_id (sq_user q)) ?d6")
  have "d' = (if changed then supersedePageReviews e i d7 else restore_token i before d7)"
    using f unfolding after pr by (simp split: if_splits)
  with r c previousPageForSave_Inr(1) [OF b ok] lr pr g p show ?thesis
    by (intro that) blast+
qed

lemma restore_token_frame:
  "db_revisions (restore_token i b d) = db_revisions d" "db_reviews (restore_token i b d) = db_reviews d"
  "db_aliases (restore_token i b d) = db_aliases d"
  by (simp_all add: restore_token_def split: option.splits)

lemma db_ok_update_page:
  assumes "db_ok d" and "\<And>r. pw_id (f r) = pw_id r" and "\<And>r. pw_slug (f r) = pw_slug r"
    and "\<And>r. pw_markdown (f r) = pw_markdown r"
  shows "db_ok (d\<lparr>db_pages := update_rows P f (db_pages d)\<rparr>)"
proof -
  have "store_ok (d\<lparr>db_pages := update_rows P f (db_pages d)\<rparr>)"
    using assms by (intro store_ok_update_page) (auto simp: db_ok_def)
  moreover have "head_ok d r \<Longrightarrow> head_ok (d\<lparr>db_pages := update_rows P f (db_pages d)\<rparr>) (f r)"
    "head_ok d r \<Longrightarrow> head_ok (d\<lparr>db_pages := update_rows P f (db_pages d)\<rparr>) r" for r
    using assms(2,4) by (simp_all add: head_ok_def revisions_of_def)
  ultimately show ?thesis
    using assms(1) by (auto simp: db_ok_def table_simps)
qed

lemma db_ok_restore_token: "db_ok d \<Longrightarrow> db_ok (restore_token i b d)"
  by (cases b) (auto simp: restore_token_def intro: db_ok_update_page)

lemma db_ok_supersede: "db_ok d \<Longrightarrow> db_ok (supersedePageReviews e pid d)"
  by (simp add: db_ok_def store_ok_supersede head_ok_def)

text \<open>A revision with the text of the page makes the page consistent again.\<close>

lemma db_ok_new_revision:
  assumes ok: "store_ok d" and r: "r \<in> set (db_pages d)"
    and others: "\<And>x. x \<in> set (db_pages d) \<Longrightarrow> pw_id x \<noteq> pw_id r \<Longrightarrow> head_ok d x"
    and ins: "insertPageRevision e (pw_id r) (pw_markdown r) msg actor sn ch d = (n, d')"
  shows "db_ok d'"
proof -
  have "pw_id r \<in> page_ids d" using r by (simp add: page_ids_def)
  note n = store_ok_new_revision [OF ok this ins]
  have "head_ok d' x" if "x \<in> set (db_pages d)" for x
  proof (cases "pw_id x = pw_id r")
    case True
    then have "x = r" using pages_row_unique(1) [OF ok that r] by simp
    with n(3,4) show ?thesis by (simp add: head_ok_def)
  next
    case False
    with others [OF that] n(5) show ?thesis by (simp add: head_ok_def)
  qed
  with n(1) insertPageRevision_fields(2) [OF ins] show ?thesis
    by (simp add: db_ok_def)
qed

lemma db_ok_executePageSave:
  assumes ok: "db_ok d" and s: "executePageSaveTransaction e q d = Inr d'"
  shows "db_ok d'"
proof -
  have sok: "store_ok d" using ok by (simp add: db_ok_def)
  from executePageSave_stages [OF sok s] obtain i d1 d6 d7 changed before where
    r: "savePageRecord e q d = Inr (i, d1)" and c: "core d6 = core d1"
    and b: "before = map_option (complete_page d) (row_with (\<lambda>r. pw_slug r = pageRecordLookupSlug q) (db_pages d))"
    and p: "persistPageRevision e before (complete_page d6 (saved_row e q d i)) (sq_message q) (u_id (sq_user q)) d6
           = (changed, d7)"
    and d': "d' = (if changed then supersedePageReviews e i d7 else restore_token i before d7)"
    by metis
  note n = savePageRecord_ok [OF sok r]
  let ?row = "saved_row e q d i"
  have ok6: "store_ok d6" using n(1) store_ok_core [OF c] by simp
  have row6: "?row \<in> set (db_pages d6)" using n(2) core_eqD(1) [OF c] by simp
  have revs: "revisions_of d6 = revisions_of d"
    using core_eqD(3) [OF c] n(8) by (simp add: revisions_of_def fun_eq_iff)
  have others: "head_ok d6 x" if "x \<in> set (db_pages d6)" "pw_id x \<noteq> i" for x
    using n(7) [of x] that core_eqD(1) [OF c] ok revs by (simp add: db_ok_def head_ok_def)
  show ?thesis
  proof (cases changed)
    case False
    with persistPageRevision_cases [OF p] obtain p0 where d7: "d7 = d6" and p0: "before = Some p0"
      and md: "pg_markdown p0 = pw_markdown ?row" by auto
    from p0 b obtain r0 where r0: "row_with (\<lambda>r. pw_slug r = pageRecordLookupSlug q) (db_pages d) = Some r0"
      and p0r: "p0 = complete_page d r0" by auto
    have "pw_id r0 = i" using n(3) by (simp add: saved_row_def r0)
    moreover have "head_ok d r0" using row_by_slug [OF r0] ok by (simp add: db_ok_def)
    ultimately have "head_ok d6 ?row" using md p0r n(3) revs by (simp add: head_ok_def)
    then have "head_ok d6 x" if "x \<in> set (db_pages d6)" for x
      using others [OF that] pages_row_unique(1) [OF ok6 that row6] n(3) by (cases "pw_id x = i") auto
    with ok6 have "db_ok d6" by (simp add: db_ok_def)
    with d' d7 False show ?thesis by (simp add: db_ok_restore_token)
  next
    case True
    with persistPageRevision_cases [OF p] obtain m fs k d0 a t where
      ins: "insertPageRevision e i (pw_markdown ?row) m (u_id (sq_user q)) (snapshotPage (complete_page d6 ?row)) fs d6 = (k, d0)"
      and d7: "d7 = add_audit (u_id (sq_user q)) a (pw_slug ?row) t (Some k) d0"
      using n(3) by auto
    have "db_ok d0"
      using db_ok_new_revision [OF ok6 row6, unfolded n(3)] others ins n(3) by blast
    then have "db_ok d7" using d7 db_ok_core [of d7 d0] by simp
    with d' True show ?thesis by (simp add: db_ok_supersede)
  qed
qed

lemma store_SavePage_cases:
  assumes "store_SavePage e q d = Inr (p, d')"
  obtains q' where "preparePageSave q = Inr q'" and "executePageSaveTransaction e q' d = Inr d'"
    and "GetPage d' (sq_slug q) = Inr p" and "sq_slug q' = sq_slug q" and "sq_previous q' = sq_previous q"
  using assms
  by (auto simp: store_SavePage_def persistPageSaveTransaction_def result_simps preparePageSave_def Let_def
      split: if_splits)

lemma store_SavePageIfUnchanged_cases:
  assumes "store_SavePageIfUnchanged e t q d = Inr (p, d')"
  shows "store_SavePage e q d = Inr (p, d')"
    and "\<exists>r. row_with (\<lambda>r. pw_slug r = TrimSpace (sq_previous q)) (db_pages d) = Some r \<and> live r \<and> pw_updated_at r = t"
    and "TrimSpace (sq_previous q) \<noteq> []"
  using assms
  by (auto simp: store_SavePageIfUnchanged_def store_SavePage_def persistPageSaveTransaction_def result_simps
      ensurePageUnchanged_def preparePageSave_def Let_def split: if_splits option.splits)

section \<open>What the metadata tables hold after a save\<close>

text \<open>Tag rows have unique identifiers and names, and page tags refer to them.\<close>

definition tags_ok :: "db \<Rightarrow> bool" where
  "tags_ok d = (distinct (map fst (db_tags d)) \<and> distinct (map snd (db_tags d)) \<and>
     (\<forall>t \<in> set (db_tags d). fst t < db_next_tag d) \<and> (\<forall>pt \<in> set (db_page_tags d). snd pt < db_next_tag d))"

lemma set_page_tag_names:
  "set (page_tag_names d pid) = {n. \<exists>t. (pid, t) \<in> set (db_page_tags d) \<and> (t, n) \<in> set (db_tags d)}"
  by (force simp: page_tag_names_def)

lemma set_insert_missing [simp]: "set (insert_missing x xs) = insert x (set xs)"
  by (auto simp: insert_missing_def)

lemma set_fold_insert_missing: "set (fold (\<lambda>x. insert_missing (f x)) xs rows) = set rows \<union> f ` set xs"
  by (induction xs arbitrary: rows) auto

lemma upsert_tag_ok:
  assumes "tags_ok d" and "upsert_tag tag d = (tid, d1)"
  shows "tags_ok d1" and "(tid, n) \<in> set (db_tags d1) \<longleftrightarrow> n = tag" and "tid < db_next_tag d1"
    and "db_page_tags d1 = db_page_tags d"
    and "t < db_next_tag d \<Longrightarrow> (t, n) \<in> set (db_tags d1) \<longleftrightarrow> (t, n) \<in> set (db_tags d)"
proof -
  have "tags_ok d1 \<and> ((tid, n) \<in> set (db_tags d1) \<longleftrightarrow> n = tag) \<and> tid < db_next_tag d1 \<and>
    db_page_tags d1 = db_page_tags d \<and> (t < db_next_tag d \<longrightarrow> (t, n) \<in> set (db_tags d1) \<longleftrightarrow> (t, n) \<in> set (db_tags d))"
  proof (cases "row_with (\<lambda>t. snd t = tag) (db_tags d)")
    case (Some x)
    then have x: "x \<in> set (db_tags d)" "snd x = tag" by (auto dest: row_with_Some)
    have "(fst x, n) \<in> set (db_tags d) \<Longrightarrow> n = tag"
      using distinct_map_inj [of fst "db_tags d" "(fst x, n)" x] assms(1) x
      by (metis fst_conv snd_conv tags_ok_def)
    with Some assms x show ?thesis by (auto simp: upsert_tag_def tags_ok_def)
  next
    case None
    then have "tag \<notin> snd ` set (db_tags d)" by (auto simp: row_with_None)
    with None assms show ?thesis by (fastforce simp: upsert_tag_def tags_ok_def)
  qed
  then show "tags_ok d1" "(tid, n) \<in> set (db_tags d1) \<longleftrightarrow> n = tag" "tid < db_next_tag d1"
    "db_page_tags d1 = db_page_tags d"
    "t < db_next_tag d \<Longrightarrow> (t, n) \<in> set (db_tags d1) \<longleftrightarrow> (t, n) \<in> set (db_tags d)" by blast+
qed

lemma add_page_tag_ok:
  assumes "tags_ok d"
  shows "tags_ok (add_page_tag pid tag d)"
    and "set (page_tag_names (add_page_tag pid tag d) p) =
           set (page_tag_names d p) \<union> (if p = pid then {tag} else {})"
proof -
  obtain tid d1 where u: "upsert_tag tag d = (tid, d1)" by (rule prod.exhaust)
  note n = upsert_tag_ok [OF assms u]
  have lt: "snd pt < db_next_tag d" if "pt \<in> set (db_page_tags d)" for pt
    using assms that by (simp add: tags_ok_def)
  show "tags_ok (add_page_tag pid tag d)"
    using n(1,3) by (auto simp: add_page_tag_def u tags_ok_def)
  show "set (page_tag_names (add_page_tag pid tag d) p) = set (page_tag_names d p) \<union> (if p = pid then {tag} else {})"
  proof -
    have "set (page_tag_names (add_page_tag pid tag d) p) =
        {m. \<exists>t. ((p, t) = (pid, tid) \<or> (p, t) \<in> set (db_page_tags d)) \<and> (t, m) \<in> set (db_tags d1)}"
      by (simp add: add_page_tag_def u set_page_tag_names n(4))
    also have "\<dots> = {m. p = pid \<and> (tid, m) \<in> set (db_tags d1)} \<union>
        {m. \<exists>t. (p, t) \<in> set (db_page_tags d) \<and> (t, m) \<in> set (db_tags d1)}"
      by blast
    also have "{m. p = pid \<and> (tid, m) \<in> set (db_tags d1)} = (if p = pid then {tag} else {})"
      using upsert_tag_ok(2) [OF assms u] by auto
    also have "{m. \<exists>t. (p, t) \<in> set (db_page_tags d) \<and> (t, m) \<in> set (db_tags d1)} = set (page_tag_names d p)"
      using upsert_tag_ok(5) [OF assms u] lt unfolding set_page_tag_names by (metis (no_types, lifting) snd_conv)
    finally show ?thesis by blast
  qed
qed

lemma replacePageTags_ok:
  assumes "tags_ok d"
  shows "tags_ok (replacePageTags e pid tags d)"
    and "set (page_tag_names (replacePageTags e pid tags d) pid) = (\<lambda>t. en_lower e (TrimSpace t)) ` set tags - {[]}"
proof -
  let ?step = "\<lambda>t d. let tag = en_lower e (TrimSpace t) in if tag = [] then d else add_page_tag pid tag d"
  have fold: "tags_ok (fold ?step ts d') \<and> set (page_tag_names (fold ?step ts d') pid) =
      set (page_tag_names d' pid) \<union> ((\<lambda>t. en_lower e (TrimSpace t)) ` set ts - {[]})" if "tags_ok d'" for ts d'
    using that
  proof (induction ts arbitrary: d')
    case (Cons t ts)
    have "tags_ok (?step t d')" using Cons.prems by (simp add: Let_def add_page_tag_ok)
    from Cons.IH [OF this] show ?case
      using Cons.prems by (auto simp: Let_def add_page_tag_ok)
  qed simp
  let ?d = "d\<lparr>db_page_tags := delete_rows (\<lambda>pt. fst pt = pid) (db_page_tags d)\<rparr>"
  have "tags_ok ?d" using assms by (auto simp: tags_ok_def table_simps)
  moreover have "set (page_tag_names ?d pid) = {}" by (auto simp: set_page_tag_names table_simps)
  ultimately show "tags_ok (replacePageTags e pid tags d)"
    "set (page_tag_names (replacePageTags e pid tags d) pid) = (\<lambda>t. en_lower e (TrimSpace t)) ` set tags - {[]}"
    using fold [of ?d tags] by (simp_all add: replacePageTags_def)
qed

definition property_pairs :: "db \<Rightarrow> int \<Rightarrow> (string \<times> string) set" where
  "property_pairs d pid = {kv. (pid, kv) \<in> set (db_properties d)}"

lemma replacePageProperties_pairs:
  assumes "replacePageProperties e pid m d = Inr d'"
  shows "property_pairs d' pid = {(TrimSpace k, TrimSpace v) |k v. map_of m k = Some v \<and> TrimSpace k \<noteq> [] \<and> TrimSpace v \<noteq> []}"
proof -
  let ?val = "\<lambda>k. TrimSpace (case map_of m k of None \<Rightarrow> [] | Some v \<Rightarrow> v)"
  let ?body = "\<lambda>k d. let val = ?val k; key = TrimSpace k in
          if key = [] \<or> val = [] then Inr d else insert_property e pid key val d"
  have loop: "property_pairs d2 pid = property_pairs d1 pid \<union>
      {(TrimSpace k, ?val k) |k. k \<in> set ks \<and> TrimSpace k \<noteq> [] \<and> ?val k \<noteq> []}" if "forR ks ?body d1 = Inr d2" for ks d1 d2
    using that
  proof (induction ks arbitrary: d1)
    case (Cons k ks)
    then obtain d0 where d0: "?body k d1 = Inr d0" "forR ks ?body d0 = Inr d2"
      by (auto simp: result_simps)
    have "property_pairs d0 pid = property_pairs d1 pid \<union>
        (if TrimSpace k \<noteq> [] \<and> ?val k \<noteq> [] then {(TrimSpace k, ?val k)} else {})"
      using d0(1) by (auto simp: Let_def insert_property_def property_pairs_def split: if_splits)
    with Cons.IH [OF d0(2)] show ?case by auto
  qed simp
  have keys: "set (sort_func cmp_compare (remdups (map fst m))) = dom (map_of m)"
    by (simp add: dom_map_of_conv_image_fst)
  have "property_pairs d' pid = {(TrimSpace k, ?val k) |k. k \<in> dom (map_of m) \<and> TrimSpace k \<noteq> [] \<and> ?val k \<noteq> []}"
    using loop [OF assms [unfolded replacePageProperties_def]] unfolding keys
    by (auto simp: property_pairs_def table_simps)
  also have "\<dots> = {(TrimSpace k, TrimSpace v) |k v. map_of m k = Some v \<and> TrimSpace k \<noteq> [] \<and> TrimSpace v \<noteq> []}"
    by force
  finally show ?thesis .
qed

lemma assignablePageGroups_Inr:
  "assignablePageGroups d u gids acc = Inr unique \<Longrightarrow>
     set unique = set acc \<union> set gids \<and> (\<forall>g \<in> set unique - set acc. canAssignPageGroup d g u)"
proof (induction gids arbitrary: acc)
  case (Cons g gids)
  then show ?case by (fastforce split: if_splits)
qed simp

lemma replacePageGroups_pairs:
  assumes "replacePageGroups pid gids u d = Inr d'"
  shows "(p, g) \<in> set (db_page_groups d') \<longleftrightarrow>
    (if p = pid then g \<in> set gids \<or> ((pid, g) \<in> set (db_page_groups d) \<and> \<not> IsAdministrator u \<and>
         \<not> userBelongsToGroup d (u_id u) g)
     else (p, g) \<in> set (db_page_groups d))"
    and "g \<in> set gids \<Longrightarrow> canAssignPageGroup d g u"
proof -
  from assms obtain unique where a: "assignablePageGroups d u gids [] = Inr unique"
    and d': "d' = (let d1 = deleteAssignablePageGroups pid u d in
        d1\<lparr>db_page_groups := fold (\<lambda>gid. insert_missing (pid, gid)) unique (db_page_groups d1)\<rparr>)"
    by (auto simp: replacePageGroups_def result_simps Let_def)
  from assignablePageGroups_Inr [OF a] have u: "set unique = set gids" "\<forall>g \<in> set gids. canAssignPageGroup d g u"
    by auto
  have s: "set (db_page_groups d') = {pg \<in> set (db_page_groups d). \<not> (fst pg = pid \<and>
      (IsAdministrator u \<or> userBelongsToGroup d (u_id u) (snd pg)))} \<union> (\<lambda>g. (pid, g)) ` set gids"
    unfolding d' Let_def using u by (simp add: set_fold_insert_missing deleteAssignablePageGroups_def table_simps)
  show "(p, g) \<in> set (db_page_groups d') \<longleftrightarrow>
    (if p = pid then g \<in> set gids \<or> ((pid, g) \<in> set (db_page_groups d) \<and> \<not> IsAdministrator u \<and>
         \<not> userBelongsToGroup d (u_id u) g)
     else (p, g) \<in> set (db_page_groups d))"
    unfolding s by auto
  show "g \<in> set gids \<Longrightarrow> canAssignPageGroup d g u" using u(2) by blast
qed

text \<open>The tables beside the core, and which step writes which of them.\<close>

definition meta :: "db \<Rightarrow> (int \<times> string) list \<times> (int \<times> int) list \<times> int \<times> (int \<times> int) list \<times>
    (int \<times> string \<times> string) list \<times> (int \<times> string) list \<times> group list \<times> (int \<times> int) list" where
  "meta d = (db_tags d, db_page_tags d, db_next_tag d, db_page_groups d, db_properties d, db_links d,
     db_groups d, db_members d)"

lemma meta_eqD:
  assumes "meta d = meta d'"
  shows "tags_ok d = tags_ok d'" "page_tag_names d = page_tag_names d'" "page_group_rows d = page_group_rows d'"
    "page_property_rows d = page_property_rows d'" "db_page_groups d = db_page_groups d'"
    "userBelongsToGroup d = userBelongsToGroup d'" "canAssignPageGroup d = canAssignPageGroup d'"
    "db_links d = db_links d'" "db_groups d = db_groups d'"
  using assms
  by (auto simp: meta_def tags_ok_def page_tag_names_def page_group_rows_def page_property_rows_def
      userBelongsToGroup_def canAssignPageGroup_def pageGroupExists_def fun_eq_iff)

lemma meta_savePageRecord: "savePageRecord e q d = Inr (i, d') \<Longrightarrow> meta d' = meta d"
  by (auto simp: savePageRecord_def insertPageRecord_def renamePageRecord_def updatePageRecord_def
      set_page_slug_def removeCurrentSlugAlias_def move_icon_def upsert_alias_def Let_def meta_def result_simps
      split: option.splits if_splits)

lemma meta_savePageIcon [simp]: "meta (savePageIcon s i d) = meta d"
  by (simp add: savePageIcon_def Let_def meta_def)

lemma meta_add_audit [simp]: "meta (add_audit a b c x y d) = meta d"
  by (simp add: add_audit_def meta_def)

lemma meta_supersede [simp]: "meta (supersedePageReviews e i d) = meta d"
  by (simp add: supersedePageReviews_def meta_def)

lemma meta_restore_token [simp]: "meta (restore_token i b d) = meta d"
  by (simp add: restore_token_def meta_def split: option.splits)

lemma meta_insertPageRevision: "insertPageRevision e p md m a s f d = (n, d') \<Longrightarrow> meta d' = meta d \<and> db_icons d' = db_icons d"
  by (auto simp: insertPageRevision_def Let_def meta_def)

lemma icons_frame [simp]:
  "db_icons (add_audit a b c x y d) = db_icons d" "db_icons (supersedePageReviews e i d) = db_icons d"
  "db_icons (restore_token i bf d) = db_icons d" "db_icons (replacePageLinks i ls d) = db_icons d"
  by (simp_all add: add_audit_def supersedePageReviews_def restore_token_def replacePageLinks_def split: option.splits)

text \<open>What the tag step leaves alone.\<close>

definition beside_tags :: "db \<Rightarrow> (string \<times> string) list \<times> (int \<times> int) list \<times> (int \<times> string \<times> string) list \<times>
    (int \<times> string) list \<times> group list \<times> (int \<times> int) list" where
  "beside_tags d = (db_icons d, db_page_groups d, db_properties d, db_links d, db_groups d, db_members d)"

lemma beside_replacePageTags: "beside_tags (replacePageTags e pid tags d) = beside_tags d"
proof -
  have step: "beside_tags (add_page_tag pid tag d') = beside_tags d'" for tag d'
    by (simp add: add_page_tag_def upsert_tag_def beside_tags_def split: option.splits)
  have "beside_tags (fold (\<lambda>t d. let tag = en_lower e (TrimSpace t) in if tag = [] then d else add_page_tag pid tag d)
       tags d') = beside_tags d'" for d'
    by (induction tags arbitrary: d') (simp_all add: Let_def step)
  then show ?thesis by (simp add: replacePageTags_def) (simp add: beside_tags_def)
qed

lemma replacePageGroups_frame:
  "replacePageGroups pid gids u d = Inr d' \<Longrightarrow> db_icons d' = db_icons d \<and> db_tags d' = db_tags d \<and>
     db_page_tags d' = db_page_tags d \<and> db_next_tag d' = db_next_tag d \<and> db_properties d' = db_properties d \<and>
     db_groups d' = db_groups d \<and> db_members d' = db_members d"
  by (auto simp: replacePageGroups_def result_simps Let_def deleteAssignablePageGroups_def)

lemma replacePageProperties_frame:
  assumes "replacePageProperties e pid m d = Inr d'"
  shows "db_icons d' = db_icons d \<and> db_tags d' = db_tags d \<and> db_page_tags d' = db_page_tags d \<and>
     db_next_tag d' = db_next_tag d \<and> db_page_groups d' = db_page_groups d \<and> db_groups d' = db_groups d \<and>
     db_members d' = db_members d"
  by (rule forR_invariant [OF assms [unfolded replacePageProperties_def]])
    (auto simp: Let_def insert_property_def split: if_splits)

lemma page_icon_save: "page_icon (savePageIcon slug icon d) slug = TrimSpace icon"
proof -
  have none: "map_of (delete_rows (\<lambda>i. fst i = slug) xs) slug = None" for xs :: "(string \<times> string) list"
    by (auto simp: map_of_eq_None_iff table_simps)
  have upd: "list_ex (\<lambda>i. fst i = slug) xs \<Longrightarrow>
      map_of (update_rows (\<lambda>i. fst i = slug) (\<lambda>i. (slug, v)) xs) slug = Some v" for xs :: "(string \<times> string) list" and v
    by (induction xs) (auto simp: update_rows_def)
  have app: "\<not> list_ex (\<lambda>i. fst i = slug) xs \<Longrightarrow> map_of xs slug = None" for xs :: "(string \<times> string) list"
    by (auto simp: map_of_eq_None_iff list_ex_iff)
  show ?thesis
    by (simp add: page_icon_def savePageIcon_def Let_def none upd map_add_def app)
qed

text \<open>The state and the page after a successful save.\<close>

lemma executePageSave_result:
  assumes ok: "store_ok d" and s: "executePageSaveTransaction e q d = Inr d'"
  obtains i d1 row where
    "savePageRecord e q d = Inr (i, d1)" and "live_row d' (sq_slug q) = Some row"
    and "row = saved_row e q d i \<or> (\<exists>t u. row = (saved_row e q d i)\<lparr>pw_updated_at := t, pw_updated_by := u\<rparr>)"
    and "page_icon d' (sq_slug q) = TrimSpace (sq_icon q)"
    and "tags_ok d \<Longrightarrow> tags_ok d' \<and> set (page_tag_names d' i) = (\<lambda>t. en_lower e (TrimSpace t)) ` set (sq_tags q) - {[]}"
    and "property_pairs d' i = {(TrimSpace k, TrimSpace v) |k v.
           map_of (sq_properties q) k = Some v \<and> TrimSpace k \<noteq> [] \<and> TrimSpace v \<noteq> []}"
    and "\<And>g. (i, g) \<in> set (db_page_groups d') \<longleftrightarrow> g \<in> set (sq_groups q) \<or>
           ((i, g) \<in> set (db_page_groups d) \<and> \<not> IsAdministrator (sq_user q) \<and>
            \<not> userBelongsToGroup d (u_id (sq_user q)) g)"
    and "\<And>g. g \<in> set (sq_groups q) \<Longrightarrow> canAssignPageGroup d g (sq_user q)"
    and "{l. (i, l) \<in> set (db_links d')} = set (sq_links q)"
proof -
  from executePageSave_stages [OF ok s] obtain i d1 d6 d7 changed before d3 d4 d5 where
    r: "savePageRecord e q d = Inr (i, d1)" and c: "core d6 = core d1"
    and lr: "live_row d6 (sq_slug q) = Some (saved_row e q d i)"
    and p: "persistPageRevision e before (complete_page d6 (saved_row e q d i)) (sq_message q) (u_id (sq_user q)) d6
           = (changed, d7)"
    and d': "d' = (if changed then supersedePageReviews e i d7 else restore_token i before d7)"
    and d3: "d3 = replacePageTags e i (sq_tags q) (savePageIcon (sq_slug q) (sq_icon q) d1)"
    and g: "replacePageGroups i (sq_groups q) (sq_user q) d3 = Inr d4"
    and pr: "replacePageProperties e i (sq_properties q) d4 = Inr d5" and d6: "d6 = replacePageLinks i (sq_links q) d5"
    by metis
  have m7: "meta d7 = meta d6 \<and> db_icons d7 = db_icons d6 \<and> db_pages d7 = db_pages d6"
    using persistPageRevision_cases [OF p] insertPageRevision_fields(2) meta_insertPageRevision
    by (auto simp: add_audit_def) (simp_all add: meta_def)
  have m: "meta d' = meta d6" and ic: "db_icons d' = db_icons d6" using m7 d' by auto
  note g4 = replacePageGroups_frame [OF g] and g5 = replacePageProperties_frame [OF pr]
  have bt: "beside_tags d3 = beside_tags (savePageIcon (sq_slug q) (sq_icon q) d1)"
    unfolding d3 by (rule beside_replacePageTags)
  have m1: "meta d1 = meta d" by (rule meta_savePageRecord [OF r])
  have tags6: "(db_tags d6, db_page_tags d6, db_next_tag d6) = (db_tags d3, db_page_tags d3, db_next_tag d3)"
    using g4 g5 d6 by (simp add: replacePageLinks_def)
  have row: "\<exists>row. live_row d' (sq_slug q) = Some row \<and> (row = saved_row e q d i \<or>
      (\<exists>t u. row = (saved_row e q d i)\<lparr>pw_updated_at := t, pw_updated_by := u\<rparr>))"
  proof (cases changed)
    case True
    then show ?thesis using d' lr m7 by (simp add: live_row_def)
  next
    case False
    have ok7: "pages_ok d7"
      using savePageRecord_ok(1) [OF ok r] store_ok_core [OF c] persistPageRevision_cases [OF p] False
      by (auto simp: store_ok_def)
    from False persistPageRevision_cases [OF p] obtain b where b: "before = Some b" "d7 = d6" by auto
    let ?f = "\<lambda>r :: page_row. r\<lparr>pw_updated_at := pg_updated_at b, pw_updated_by := pg_updated_by b\<rparr>"
    have n: "saved_row e q d i \<in> set (db_pages d6)" "pw_slug (saved_row e q d i) = sq_slug q" "live (saved_row e q d i)"
      using live_row_Some [OF lr] by auto
    have id: "pw_id (saved_row e q d i) = i" by (rule savePageRecord_ok(3) [OF ok r])
    have po: "pages_ok d'"
      using d' False b ok7 by (auto simp: restore_token_def pages_ok_def map_update_rows_same table_simps)
    have "?f (saved_row e q d i) \<in> set (db_pages d')"
      using d' False b n id by (auto simp: restore_token_def table_simps)
    then have "live_row d' (sq_slug q) = Some (?f (saved_row e q d i))"
      using n by (subst live_row_eq [OF po]) (simp add: live_def)
    then show ?thesis by blast
  qed
  then obtain row where R1: "live_row d' (sq_slug q) = Some row"
    and R2: "row = saved_row e q d i \<or> (\<exists>t u. row = (saved_row e q d i)\<lparr>pw_updated_at := t, pw_updated_by := u\<rparr>)"
    by blast
  have IC: "page_icon d' (sq_slug q) = TrimSpace (sq_icon q)"
  proof -
    have "db_icons d' = db_icons (savePageIcon (sq_slug q) (sq_icon q) d1)"
      using ic d6 g4 g5 bt by (simp add: beside_tags_def)
    then show ?thesis
      using page_icon_save [of "sq_slug q" "sq_icon q" d1] by (simp add: page_icon_def)
  qed
  have TG: "tags_ok d' \<and> set (page_tag_names d' i) = (\<lambda>t. en_lower e (TrimSpace t)) ` set (sq_tags q) - {[]}"
    if "tags_ok d"
  proof -
    have "tags_ok (savePageIcon (sq_slug q) (sq_icon q) d1)"
      using that meta_eqD(1) [OF m1] meta_eqD(1) [of "savePageIcon (sq_slug q) (sq_icon q) d1" d1] by simp
    note t = replacePageTags_ok [OF this, where e = e and pid = i and tags = "sq_tags q", folded d3]
    have "tags_ok d6 = tags_ok d3" "page_tag_names d6 = page_tag_names d3"
      using tags6 by (simp_all add: tags_ok_def page_tag_names_def fun_eq_iff)
    with t meta_eqD(1,2) [OF m] show ?thesis by simp
  qed
  have PP: "property_pairs d' i = {(TrimSpace k, TrimSpace v) |k v.
      map_of (sq_properties q) k = Some v \<and> TrimSpace k \<noteq> [] \<and> TrimSpace v \<noteq> []}"
    using replacePageProperties_pairs [OF pr] m d6 by (simp add: property_pairs_def meta_def replacePageLinks_def)
  have PG: "(i, h) \<in> set (db_page_groups d') \<longleftrightarrow> h \<in> set (sq_groups q) \<or>
      ((i, h) \<in> set (db_page_groups d) \<and> \<not> IsAdministrator (sq_user q) \<and> \<not> userBelongsToGroup d (u_id (sq_user q)) h)"
    and CA: "h \<in> set (sq_groups q) \<Longrightarrow> canAssignPageGroup d h (sq_user q)" for h
  proof -
    have "db_page_groups d' = db_page_groups d4"
      using m d6 g5 by (simp add: meta_def replacePageLinks_def)
    moreover have e3: "db_page_groups d3 = db_page_groups d" "db_members d3 = db_members d" "db_groups d3 = db_groups d"
      using bt m1 meta_savePageIcon [of "sq_slug q" "sq_icon q" d1] by (simp_all add: beside_tags_def meta_def)
    moreover have "userBelongsToGroup d3 = userBelongsToGroup d" "canAssignPageGroup d3 = canAssignPageGroup d"
      using e3 by (simp_all add: userBelongsToGroup_def canAssignPageGroup_def pageGroupExists_def fun_eq_iff)
    ultimately show "(i, h) \<in> set (db_page_groups d') \<longleftrightarrow> h \<in> set (sq_groups q) \<or>
      ((i, h) \<in> set (db_page_groups d) \<and> \<not> IsAdministrator (sq_user q) \<and> \<not> userBelongsToGroup d (u_id (sq_user q)) h)"
      "h \<in> set (sq_groups q) \<Longrightarrow> canAssignPageGroup d h (sq_user q)"
      using replacePageGroups_pairs [OF g] by simp_all
  qed
  have LN: "{l. (i, l) \<in> set (db_links d')} = set (sq_links q)"
    using m d6 by (auto simp: meta_def replacePageLinks_def set_fold_insert_missing table_simps)
  show ?thesis by (rule that [OF r R1 R2 IC TG PP PG CA LN])
qed

end
