(* ===== verification/SaveProperties.thy ===== *)
theory SaveProperties
  imports PageSave
begin

text \<open>
  The properties of saving a page, over the transactions of \<open>PageSave\<close>: consistency, what is
  read back, when a revision is written, the version token, renames and the assignment of
  groups; and the sample state on which their witnesses run.
\<close>

section \<open>A sample state\<close>

definition sample_env :: "time \<Rightarrow> env" where
  "sample_env t = \<lparr>en_now = t, en_lower = (\<lambda>s. s), en_sql_lower = (\<lambda>s. s), en_format = show_int\<rparr>"

definition sample_request :: "string \<Rightarrow> string \<Rightarrow> string \<Rightarrow> save_request" where
  "sample_request previous slug markdown =
     \<lparr>sq_previous = previous, sq_slug = slug, sq_title = ''T'', sq_icon = [], sq_language = [],
      sq_markdown = markdown, sq_message = ''m'', sq_tags = [''go''], sq_links = [], sq_groups = [],
      sq_metadata = \<lparr>md_status = PageStatusVerified, md_owner_group = 0, md_review_interval = 0,
        md_mark_reviewed = False, md_deprecated_target = [], md_usage = None\<rparr>,
      sq_properties = [(''k'', ''v'')], sq_render = \<lparr>rd_html = [], rd_contents = [], rd_fingerprint = []\<rparr>,
      sq_user = account 1 UserRoleAdmin\<rparr>"

definition state_of :: "error + ('a \<times> db) \<Rightarrow> db" where
  "state_of r = (case r of Inl _ \<Rightarrow> empty_db | Inr (_, d) \<Rightarrow> d)"

lemma state_of_Inr: "\<not> isl r \<Longrightarrow> \<exists>x. r = Inr (x, state_of r)"
  by (cases r) (auto simp: state_of_def)

text \<open>A state with a page, an account or an entry of the audit log was reached.\<close>

lemma state_of_reached: "db_audit (state_of r) \<noteq> [] \<Longrightarrow> \<exists>x. r = Inr (x, state_of r)"
  by (cases r) (auto simp: state_of_def empty_db_def)

definition sample_db :: db where
  "sample_db = state_of (store_SavePage (sample_env 10) (sample_request [] ''a'' ''x'') empty_db)"

lemma sample_db_eq [code]: "sample_db =
   \<lparr>db_pages = [\<lparr>pw_id = 1, pw_slug = ''a'', pw_title = ''T'', pw_language = [],
     pw_markdown = ''x'', pw_created_by = 1, pw_updated_by = 1, pw_created_at = 10, pw_updated_at = 10,
     pw_deleted_at = None, pw_deleted_by = 0, pw_view_count = 0, pw_status = PageStatusVerified, pw_owner = 0,
     pw_reviewed = None, pw_interval = 0, pw_target = [], pw_usage = None, pw_html = [], pw_contents = [],
     pw_fingerprint = [], pw_rendered_at = None\<rparr>], db_aliases = [], db_revisions = [\<lparr>rw_id = 1,
     rw_page = 1, rw_number = 1, rw_markdown = ''x'', rw_by = 1, rw_created = 10, rw_message = ''m'',
     rw_snapshot = Some \<lparr>sn_slug = ''a'', sn_title = ''T'', sn_icon = [], sn_language = [],
     sn_tags = [''go''], sn_groups = [], sn_status = PageStatusVerified, sn_owner = 0, sn_interval = 0,
     sn_target = [], sn_properties = [(''k'', ''v'')], sn_reviewed = None\<rparr>, rw_changes = []\<rparr>],
     db_reviews = [], db_icons = [], db_tags = [(1, ''go'')], db_page_tags = [(1, 1)], db_page_groups = [],
     db_properties = [(1, ''k'', ''v'')], db_links = [], db_reviewers = [], db_review_comments = [],
     db_comments = [], db_audit = [\<lparr>ae_user = 1, ae_action = ''page.created'', ae_key = ''a'',
     ae_detail = [CHR ''r'', CHR ''1'', CHR '' '', CHR 0xC2, CHR 0xB7, CHR '' '', CHR ''P'', CHR ''a'',
     CHR ''g'', CHR ''e'', CHR '' '', CHR ''c'', CHR ''r'', CHR ''e'', CHR ''a'', CHR ''t'', CHR ''e'',
     CHR ''d''], ae_revision = Some 1\<rparr>], db_groups = [], db_members = [], db_users = [],
     db_discussions = True, db_next_page = 2, db_next_revision = 2, db_next_tag = 2, db_next_review = 1,
     db_next_review_comment = 1, db_next_comment = 1\<rparr>"
  by code_simp

lemma sample_saved: "\<exists>p. store_SavePage (sample_env 10) (sample_request [] ''a'' ''x'') empty_db = Inr (p, sample_db)"
  unfolding sample_db_def by (rule state_of_reached, fold sample_db_def) (simp add: sample_db_eq)

lemma sample_db_ok: "db_ok sample_db"
proof -
  obtain p where "store_SavePage (sample_env 10) (sample_request [] ''a'' ''x'') empty_db = Inr (p, sample_db)"
    using sample_saved by blast
  then show ?thesis
    using db_ok_executePageSave [OF db_ok_empty] by (auto elim!: store_SavePage_cases)
qed

section \<open>Facts about a save\<close>

lemma complete_page_cong:
  assumes "meta d = meta d'" and "db_icons d = db_icons d'"
  shows "complete_page d = complete_page d'"
  using meta_eqD [OF assms(1)] assms(2) by (simp add: fun_eq_iff complete_page_def page_icon_def)

lemma snapshot_of_token [simp]:
  "snapshotPage (complete_page d (r\<lparr>pw_updated_at := t, pw_updated_by := u\<rparr>)) = snapshotPage (complete_page d r)"
  by (simp add: snapshotPage_def complete_page_def)

lemma open_reviews_superseded:
  assumes "v \<in> set (db_reviews (supersedePageReviews e i d))" and "vw_page v = i"
  shows "vw_status v \<notin> {PageReviewStatusPending, PageReviewStatusChangesRequested}"
proof -
  define S where "S = {PageReviewStatusPending, PageReviewStatusChangesRequested}"
  define closed where "closed = PageReviewStatusSuperseded"
  have no: "closed \<notin> S" by (simp add: S_def closed_def)
  have "set (db_reviews (supersedePageReviews e i d)) =
      (\<lambda>x. if vw_page x = i \<and> vw_status x \<in> S then x\<lparr>vw_status := closed, vw_updated := en_now e\<rparr> else x) `
        set (db_reviews d)"
    unfolding supersedePageReviews_def S_def [symmetric] closed_def [symmetric] by (simp add: set_update_rows)
  with assms(1) obtain x where
    "v = (if vw_page x = i \<and> vw_status x \<in> S then x\<lparr>vw_status := closed, vw_updated := en_now e\<rparr> else x)"
    by blast
  with no assms(2) have "vw_status v \<notin> S" by (auto split: if_splits)
  then show ?thesis by (simp only: S_def not_False_eq_True)
qed

text \<open>Either nothing changed and the state keeps its history, or exactly one revision was added.\<close>

lemma executePageSave_revision:
  assumes ok: "db_ok d" and s: "executePageSaveTransaction e q d = Inr d'"
    and p: "GetPage d' (sq_slug q) = Inr p"
  shows "(db_revisions d' = db_revisions d \<and> db_reviews d' = db_reviews d \<and>
       (\<exists>b. GetPage d (pageRecordLookupSlug q) = Inr b \<and> pg_id b = pg_id p \<and> pg_markdown b = pg_markdown p \<and>
          ChangedFields (Some (snapshotPage b)) (snapshotPage p) = [] \<and> pg_updated_at p = pg_updated_at b)) \<or>
    (\<exists>w. db_revisions d' = db_revisions d @ [w] \<and> rw_page w = pg_id p \<and>
       rw_number w = current_revision d (pg_id p) + 1 \<and> rw_markdown w = pg_markdown p \<and>
       rw_snapshot w = Some (snapshotPage p) \<and> pg_updated_at p = en_now e \<and>
       (\<forall>v \<in> set (db_reviews d'). vw_page v = pg_id p \<longrightarrow>
          vw_status v \<notin> {PageReviewStatusPending, PageReviewStatusChangesRequested}))"
proof -
  have sok: "store_ok d" using ok by (simp add: db_ok_def)
  obtain i d1 d6 d7 changed before where
    r: "savePageRecord e q d = Inr (i, d1)" and c: "core d6 = core d1"
    and b: "before = map_option (complete_page d) (row_with (\<lambda>r. pw_slug r = pageRecordLookupSlug q) (db_pages d))"
    and lr: "live_row d6 (sq_slug q) = Some (saved_row e q d i)"
    and pr: "persistPageRevision e before (complete_page d6 (saved_row e q d i)) (sq_message q) (u_id (sq_user q)) d6
           = (changed, d7)"
    and d': "d' = (if changed then supersedePageReviews e i d7 else restore_token i before d7)"
    by (rule executePageSave_stages [OF sok s]) (rule that; assumption)
  let ?row = "saved_row e q d i"
  note n = savePageRecord_ok [OF sok r]
  have revs: "db_revisions d6 = db_revisions d" "db_reviews d6 = db_reviews d"
    using core_eqD(3,4) [OF c] n(8,9) by simp_all
  have cur: "current_revision d6 = current_revision d"
    using revs by (simp add: current_revision_def revisions_of_def fun_eq_iff)
  show ?thesis
  proof (cases changed)
    case False
    with persistPageRevision_cases [OF pr] obtain b0 where b0: "before = Some b0" "d7 = d6"
      "pg_markdown b0 = pw_markdown ?row" "ChangedFields (Some (snapshotPage b0)) (snapshotPage (complete_page d6 ?row)) = []"
      by auto
    from b0(1) b obtain r0 where r0: "row_with (\<lambda>r. pw_slug r = pageRecordLookupSlug q) (db_pages d) = Some r0"
      and b0r: "b0 = complete_page d r0" by auto
    obtain before' where bef: "previousPageForSave q d = Inr before'"
      using s unfolding executePageSaveTransaction_def by (cases "previousPageForSave q d") simp_all
    have live0: "live r0" using previousPageForSave_Inr(2) [OF bef sok r0] by simp
    have "live_row d (pageRecordLookupSlug q) = Some r0"
      using row_by_slug [OF r0] live0 sok by (simp add: live_row_eq store_ok_def)
    then have g: "GetPage d (pageRecordLookupSlug q) = Inr b0" by (simp add: GetPage_def b0r)
    let ?f = "\<lambda>r :: page_row. r\<lparr>pw_updated_at := pg_updated_at b0, pw_updated_by := pg_updated_by b0\<rparr>"
    have dd: "d' = d6\<lparr>db_pages := update_rows (\<lambda>r. pw_id r = i) ?f (db_pages d6)\<rparr>"
      using d' False b0 by (simp add: restore_token_def)
    have row6: "?row \<in> set (db_pages d6)" using live_row_Some [OF lr] by simp
    have "pages_ok d6" using n(1) store_ok_core [OF c] by (simp add: store_ok_def)
    then have po: "pages_ok d'"
      unfolding dd by (auto simp: pages_ok_def map_update_rows_same table_simps)
    have "?f ?row \<in> set (db_pages d')" using row6 n(3) by (auto simp: dd table_simps)
    then have "live_row d' (sq_slug q) = Some (?f ?row)"
      using n(4,5) by (subst live_row_eq [OF po]) (simp add: live_def)
    then have pp: "p = complete_page d' (?f ?row)" using p by (simp add: GetPage_def)
    have cp: "complete_page d' = complete_page d6"
      by (rule complete_page_cong) (simp_all add: dd meta_def)
    have "pw_id r0 = i" using n(3) by (simp add: saved_row_def r0)
    then have e1: "pg_id b0 = pg_id p" "pg_updated_at p = pg_updated_at b0"
      using n(3) by (simp_all add: pp b0r)
    have e2: "pg_markdown b0 = pg_markdown p" using b0(3) by (simp add: pp)
    have "snapshotPage p = snapshotPage (complete_page d6 ?row)"
      unfolding pp cp by (rule snapshot_of_token)
    then have e3: "ChangedFields (Some (snapshotPage b0)) (snapshotPage p) = []"
      using b0(4) by (simp only:)
    have e4: "db_revisions d' = db_revisions d" "db_reviews d' = db_reviews d"
      using revs by (simp_all add: dd)
    show ?thesis
      by (intro disjI1 conjI e4 exI [of _ b0] g e1 e2 e3)
  next
    case True
    with persistPageRevision_cases [OF pr] obtain m fs k d0 a t where
      ins: "insertPageRevision e i (pw_markdown ?row) m (u_id (sq_user q)) (snapshotPage (complete_page d6 ?row)) fs d6 = (k, d0)"
      and d7: "d7 = add_audit (u_id (sq_user q)) a (pw_slug ?row) t (Some k) d0"
      using n(3) by auto
    have dd: "d' = supersedePageReviews e i (add_audit (u_id (sq_user q)) a (pw_slug ?row) t (Some k) d0)"
      using d' True d7 by simp
    have "live_row d' (sq_slug q) = Some ?row"
      using lr insertPageRevision_fields(2) [OF ins] by (simp add: dd live_row_def add_audit_def)
    then have "p = complete_page d' ?row" using p by (simp add: GetPage_def)
    moreover have "complete_page d' = complete_page d6"
      using meta_insertPageRevision [OF ins] by (intro complete_page_cong) (simp_all add: dd)
    ultimately have pp: "p = complete_page d6 ?row" by simp
    have up: "pw_updated_at ?row = en_now e" by (simp add: saved_row_def split: option.splits)
    have id: "pg_id p = i" and md: "pg_markdown p = pw_markdown ?row" and at: "pg_updated_at p = en_now e"
      using n(3) up by (simp_all add: pp)
    obtain w where w: "db_revisions d' = db_revisions d @ [w]" "rw_page w = i" "rw_number w = current_revision d i + 1"
        "rw_markdown w = pw_markdown ?row" "rw_snapshot w = Some (snapshotPage (complete_page d6 ?row))"
      using ins revs(1) by (auto simp: dd add_audit_def insertPageRevision_def Let_def cur supersedePageReviews_def)
    have sup: "\<forall>v \<in> set (db_reviews d'). vw_page v = pg_id p \<longrightarrow>
          vw_status v \<notin> {PageReviewStatusPending, PageReviewStatusChangesRequested}"
      unfolding dd id using open_reviews_superseded by blast
    have w': "rw_page w = pg_id p" "rw_number w = current_revision d (pg_id p) + 1" "rw_markdown w = pg_markdown p"
      "rw_snapshot w = Some (snapshotPage p)"
      using w unfolding id md by (simp_all only: pp)
    show ?thesis
      by (intro disjI2 exI [of _ w] conjI w(1) w' at sup)
  qed
qed

lemma saved_row_fields [simp]:
  "pw_title (saved_row e q d i) = sq_title q" "pw_language (saved_row e q d i) = sq_language q"
  "pw_markdown (saved_row e q d i) = sq_markdown q" "pw_status (saved_row e q d i) = md_status (sq_metadata q)"
  "pw_owner (saved_row e q d i) = md_owner_group (sq_metadata q)"
  "pw_interval (saved_row e q d i) = md_review_interval (sq_metadata q)"
  "pw_target (saved_row e q d i) = md_deprecated_target (sq_metadata q)"
  by (simp_all add: saved_row_def updated_row_def new_page_row_def Let_def split: option.splits)

lemma preparePageSave_fields:
  assumes "preparePageSave q = Inr q'"
  shows "sq_slug q' = sq_slug q" "sq_previous q' = sq_previous q" "sq_title q' = sq_title q"
    "sq_language q' = sq_language q" "sq_markdown q' = sq_markdown q" "sq_icon q' = sq_icon q"
    "sq_tags q' = sq_tags q" "sq_links q' = sq_links q" "sq_groups q' = sq_groups q" "sq_user q' = sq_user q"
    "sq_properties q' = sq_properties q" "md_status (sq_metadata q') = md_status (sq_metadata q)"
    "md_owner_group (sq_metadata q') = md_owner_group (sq_metadata q)"
    "md_review_interval (sq_metadata q') = md_review_interval (sq_metadata q)"
    "md_deprecated_target (sq_metadata q') = TrimSpace (md_deprecated_target (sq_metadata q))"
    "pageRecordLookupSlug q' = pageRecordLookupSlug q"
  using assms by (auto simp: preparePageSave_def Let_def pageRecordLookupSlug_def split: if_splits)

lemma set_page_property_rows:
  "(\<lambda>x. (pp_key x, pp_value x)) ` set (page_property_rows d i) = property_pairs d i"
  by (force simp: page_property_rows_def property_pairs_def)

text \<open>The aliases after a save that renames.\<close>

lemma savePageRecord_alias:
  assumes ok: "store_ok d" and s: "savePageRecord e q d = Inr (i, d1)"
    and r0: "row_with (\<lambda>r. pw_slug r = pageRecordLookupSlug q) (db_pages d) = Some r0"
    and ne: "pageRecordLookupSlug q \<noteq> sq_slug q"
  shows "(pageRecordLookupSlug q, i) \<in> set (db_aliases d1)" and "i = pw_id r0"
proof -
  let ?lookup = "pageRecordLookupSlug q"
  from s r0 obtain d0 where i: "i = pw_id r0"
    and ren: "renamePageRecord i ?lookup (sq_slug q) d = Inr d0" and upd: "updatePageRecord e i q d0 = Inr d1"
    by (auto simp: savePageRecord_def loadPageRecordForUpdate_def Let_def result_simps split: if_splits)
  from ren ne obtain x y where y: "d0 = upsert_alias ?lookup i y"
    by (auto simp: renamePageRecord_def result_simps)
  have "(?lookup, i) \<in> set (db_aliases (upsert_alias ?lookup i y))"
    by (force simp: upsert_alias_def table_simps list_ex_iff)
  moreover have "db_aliases d1 = db_aliases d0"
    using upd by (auto simp: updatePageRecord_def split: if_splits)
  ultimately show "(?lookup, i) \<in> set (db_aliases d1)" "i = pw_id r0" using y i by simp_all
qed

lemma executePageSave_aliases:
  assumes ok: "store_ok d" and s: "executePageSaveTransaction e q d = Inr d'"
  obtains i d1 where "savePageRecord e q d = Inr (i, d1)" and "db_aliases d' = db_aliases d1"
proof -
  from executePageSave_stages [OF ok s] obtain i d1 d6 d7 changed before where
    r: "savePageRecord e q d = Inr (i, d1)" and c: "core d6 = core d1"
    and p: "persistPageRevision e before (complete_page d6 (saved_row e q d i)) (sq_message q) (u_id (sq_user q)) d6
           = (changed, d7)"
    and d': "d' = (if changed then supersedePageReviews e i d7 else restore_token i before d7)"
    by metis
  have "db_aliases d7 = db_aliases d6"
    using persistPageRevision_cases [OF p] insertPageRevision_fields(3) by (auto simp: add_audit_def)
  with d' core_eqD(2) [OF c] have "db_aliases d' = db_aliases d1" by (simp add: restore_token_frame)
  with r show ?thesis by (rule that)
qed

lemma save_keeps_consistency_lemma:
  "db_ok d \<Longrightarrow> store_SavePage e q d = Inr (p, d') \<Longrightarrow> db_ok d'"
  by (auto elim!: store_SavePage_cases intro: db_ok_executePageSave)

text \<open>The history after a save, as \<open>executePageSave_revision\<close> but for the whole transaction.\<close>

lemma store_SavePage_revision:
  assumes "db_ok d" and "store_SavePage e q d = Inr (p, d')"
  shows "(db_revisions d' = db_revisions d \<and> db_reviews d' = db_reviews d \<and>
       (\<exists>b. GetPage d (pageRecordLookupSlug q) = Inr b \<and> pg_id b = pg_id p \<and> pg_markdown b = pg_markdown p \<and>
          ChangedFields (Some (snapshotPage b)) (snapshotPage p) = [] \<and> pg_updated_at p = pg_updated_at b)) \<or>
    (\<exists>w. db_revisions d' = db_revisions d @ [w] \<and> rw_page w = pg_id p \<and>
       rw_number w = current_revision d (pg_id p) + 1 \<and> rw_markdown w = pg_markdown p \<and>
       rw_snapshot w = Some (snapshotPage p) \<and> pg_updated_at p = en_now e \<and>
       (\<forall>v \<in> set (db_reviews d'). vw_page v = pg_id p \<longrightarrow>
          vw_status v \<notin> {PageReviewStatusPending, PageReviewStatusChangesRequested}))"
proof -
  from store_SavePage_cases [OF assms(2)] obtain q' where q: "preparePageSave q = Inr q'"
    and x: "executePageSaveTransaction e q' d = Inr d'" and g: "GetPage d' (sq_slug q) = Inr p" by metis
  have "GetPage d' (sq_slug q') = Inr p" using g preparePageSave_fields(1) [OF q] by simp
  from executePageSave_revision [OF assms(1) x this] show ?thesis
    unfolding preparePageSave_fields(16) [OF q] .
qed

text \<open>A save of an existing page keeps its identifier.\<close>

lemma store_SavePage_id:
  assumes "db_ok d" and "store_SavePage e q d = Inr (p, d')" and "GetPage d (pageRecordLookupSlug q) = Inr b"
  shows "pg_id p = pg_id b"
proof -
  from store_SavePage_cases [OF assms(2)] obtain q' where q: "preparePageSave q = Inr q'"
    and x: "executePageSaveTransaction e q' d = Inr d'" and g: "GetPage d' (sq_slug q) = Inr p" by metis
  note f = preparePageSave_fields [OF q]
  have ok: "store_ok d" using assms(1) by (simp add: db_ok_def)
  obtain i d1 row where r: "savePageRecord e q' d = Inr (i, d1)" and lr: "live_row d' (sq_slug q') = Some row"
    and row: "row = saved_row e q' d i \<or> (\<exists>t u. row = (saved_row e q' d i)\<lparr>pw_updated_at := t, pw_updated_by := u\<rparr>)"
    by (rule executePageSave_result [OF ok x]) (rule that; assumption)
  have "pg_id p = i"
    using g lr f(1) row savePageRecord_ok(3) [OF ok r] by (auto simp: GetPage_def)
  from assms(3) obtain r0 where r0: "live_row d (pageRecordLookupSlug q') = Some r0" "b = complete_page d r0"
    by (auto simp: GetPage_Inr f)
  have "row_with (\<lambda>r. pw_slug r = pageRecordLookupSlug q') (db_pages d) = Some r0"
    using ok live_row_Some [OF r0(1)]
    by (intro row_with_unique [where k = pw_slug and x = "pageRecordLookupSlug q'"]) (auto simp: store_ok_def pages_ok_def)
  then have "pw_id (saved_row e q' d i) = pw_id r0" by (simp add: saved_row_def)
  with savePageRecord_ok(3) [OF ok r] \<open>pg_id p = i\<close> r0(2) show ?thesis by simp
qed

text \<open>What a save stores is what reading the page returns.\<close>

lemma store_SavePage_reads_back:
  assumes "db_ok d" and "store_SavePage e q d = Inr (p, d')"
  shows "GetPage d' (sq_slug q) = Inr p \<and> pg_slug p = sq_slug q \<and> pg_title p = sq_title q \<and>
    pg_language p = sq_language q \<and> pg_markdown p = sq_markdown q \<and> pg_icon p = TrimSpace (sq_icon q) \<and>
    pg_status p = md_status (sq_metadata q) \<and> pg_owner_group p = md_owner_group (sq_metadata q) \<and>
    pg_review_interval p = md_review_interval (sq_metadata q) \<and>
    pg_deprecated_target p = TrimSpace (md_deprecated_target (sq_metadata q)) \<and>
    (tags_ok d \<longrightarrow> set (pg_tags p) = (\<lambda>t. en_lower e (TrimSpace t)) ` set (sq_tags q) - {[]}) \<and>
    (\<lambda>x. (pp_key x, pp_value x)) ` set (pg_properties p) =
      {(TrimSpace k, TrimSpace v) |k v. map_of (sq_properties q) k = Some v \<and> TrimSpace k \<noteq> [] \<and> TrimSpace v \<noteq> []} \<and>
    {l. (pg_id p, l) \<in> set (db_links d')} = set (sq_links q)"
proof -
  from store_SavePage_cases [OF assms(2)] obtain q' where q: "preparePageSave q = Inr q'"
    and x: "executePageSaveTransaction e q' d = Inr d'" and g: "GetPage d' (sq_slug q) = Inr p" by metis
  note f = preparePageSave_fields [OF q]
  have ok: "store_ok d" using assms(1) by (simp add: db_ok_def)
  obtain i d1 row where r: "savePageRecord e q' d = Inr (i, d1)" and lr: "live_row d' (sq_slug q') = Some row"
    and row: "row = saved_row e q' d i \<or> (\<exists>t u. row = (saved_row e q' d i)\<lparr>pw_updated_at := t, pw_updated_by := u\<rparr>)"
    and icon: "page_icon d' (sq_slug q') = TrimSpace (sq_icon q')"
    and tags: "tags_ok d \<Longrightarrow> tags_ok d' \<and> set (page_tag_names d' i) = (\<lambda>t. en_lower e (TrimSpace t)) ` set (sq_tags q') - {[]}"
    and props: "property_pairs d' i = {(TrimSpace k, TrimSpace v) |k v.
           map_of (sq_properties q') k = Some v \<and> TrimSpace k \<noteq> [] \<and> TrimSpace v \<noteq> []}"
    and links: "{l. (i, l) \<in> set (db_links d')} = set (sq_links q')"
    by (rule executePageSave_result [OF ok x]) (rule that; (assumption | simp only:))
  have p: "p = complete_page d' row" using g lr f(1) by (simp add: GetPage_def)
  have id: "pw_id row = i" "pw_slug row = sq_slug q'"
    using row savePageRecord_ok(3,4) [OF ok r] by auto
  have fields: "pw_title row = sq_title q" "pw_language row = sq_language q" "pw_markdown row = sq_markdown q"
    "pw_status row = md_status (sq_metadata q)" "pw_owner row = md_owner_group (sq_metadata q)"
    "pw_interval row = md_review_interval (sq_metadata q)"
    "pw_target row = TrimSpace (md_deprecated_target (sq_metadata q))"
    using row f by auto
  show ?thesis
    unfolding p complete_page_fields set_page_property_rows id icon props fields links
    using g [unfolded p] tags f by simp
qed

text \<open>The groups of a page after a save, and the groups that exist.\<close>

lemma executePageSave_group_table:
  assumes "executePageSaveTransaction e q d = Inr d'"
  shows "db_groups d' = db_groups d"
proof -
  from assms obtain before i d1 d4 d5 after where
    1: "savePageRecord e q d = Inr (i, d1)"
    and 4: "replacePageGroups i (sq_groups q) (sq_user q)
      (replacePageTags e i (sq_tags q) (savePageIcon (sq_slug q) (sq_icon q) d1)) = Inr d4"
    and 5: "replacePageProperties e i (sq_properties q) d4 = Inr d5"
    and 6: "(case persistPageRevision e before after (sq_message q) (u_id (sq_user q)) (replacePageLinks i (sq_links q) d5) of
       (changed, d7) \<Rightarrow> if \<not> changed then Inr (restore_token i before d7) else Inr (supersedePageReviews e i d7)) =
       (Inr d' :: error + db)"
    by (auto simp: executePageSaveTransaction_def result_simps Let_def)
  have "db_groups d1 = db_groups d" using meta_savePageRecord [OF 1] by (rule meta_eqD)
  moreover have "db_groups (replacePageTags e i (sq_tags q) (savePageIcon (sq_slug q) (sq_icon q) d1)) = db_groups d1"
    using beside_replacePageTags [of e i "sq_tags q" "savePageIcon (sq_slug q) (sq_icon q) d1"]
      meta_eqD(9) [OF meta_savePageIcon, of "sq_slug q" "sq_icon q" d1]
    by (simp add: beside_tags_def)
  moreover have "db_groups d' = db_groups d5"
    using 6 by (auto simp: persistPageRevision_def Let_def add_audit_def insertPageRevision_def restore_token_def
        supersedePageReviews_def replacePageLinks_def split: if_splits option.splits prod.splits)
  ultimately show ?thesis
    using replacePageGroups_frame [OF 4] replacePageProperties_frame [OF 5] by simp
qed

lemma store_SavePage_groups:
  assumes "db_ok d" and "store_SavePage e q d = Inr (p, d')"
  shows "db_groups d' = db_groups d"
    and "(pg_id p, g) \<in> set (db_page_groups d') \<longleftrightarrow> g \<in> set (sq_groups q) \<or>
      ((pg_id p, g) \<in> set (db_page_groups d) \<and> \<not> IsAdministrator (sq_user q) \<and> \<not> userBelongsToGroup d (u_id (sq_user q)) g)"
    and "g \<in> set (sq_groups q) \<Longrightarrow> canAssignPageGroup d g (sq_user q)"
proof -
  from store_SavePage_cases [OF assms(2)] obtain q' where q: "preparePageSave q = Inr q'"
    and x: "executePageSaveTransaction e q' d = Inr d'" and gp: "GetPage d' (sq_slug q) = Inr p" by metis
  note f = preparePageSave_fields [OF q]
  have ok: "store_ok d" using assms(1) by (simp add: db_ok_def)
  obtain i d1 row where r: "savePageRecord e q' d = Inr (i, d1)" and lr: "live_row d' (sq_slug q') = Some row"
    and row: "row = saved_row e q' d i \<or> (\<exists>t u. row = (saved_row e q' d i)\<lparr>pw_updated_at := t, pw_updated_by := u\<rparr>)"
    and groups: "\<And>g. (i, g) \<in> set (db_page_groups d') \<longleftrightarrow> g \<in> set (sq_groups q') \<or>
           ((i, g) \<in> set (db_page_groups d) \<and> \<not> IsAdministrator (sq_user q') \<and>
            \<not> userBelongsToGroup d (u_id (sq_user q')) g)"
    and can: "\<And>g. g \<in> set (sq_groups q') \<Longrightarrow> canAssignPageGroup d g (sq_user q')"
    by (rule executePageSave_result [OF ok x]) (rule that; (assumption | simp only:))
  have id: "pg_id p = i"
    using gp lr f(1) row savePageRecord_ok(3) [OF ok r] by (auto simp: GetPage_def)
  show "db_groups d' = db_groups d" by (rule executePageSave_group_table [OF x])
  show "(pg_id p, g) \<in> set (db_page_groups d') \<longleftrightarrow> g \<in> set (sq_groups q) \<or>
      ((pg_id p, g) \<in> set (db_page_groups d) \<and> \<not> IsAdministrator (sq_user q) \<and> \<not> userBelongsToGroup d (u_id (sq_user q)) g)"
    using groups [of g] by (simp add: id f)
  show "g \<in> set (sq_groups q) \<Longrightarrow> canAssignPageGroup d g (sq_user q)"
    using can [of g] by (simp add: f)
qed

definition sample_editor_request :: "int list \<Rightarrow> save_request" where
  "sample_editor_request gids = (sample_request ''a'' ''a'' ''y'')\<lparr>sq_groups := gids, sq_user := account 2 UserRoleEditor\<rparr>"

text \<open>The sample page, saved again with another text or under another path.\<close>

definition edited_db :: db where
  "edited_db = state_of (store_SavePage (sample_env 20) (sample_request ''a'' ''a'' ''y'') sample_db)"

lemma edited_db_eq [code]: "edited_db =
   \<lparr>db_pages = [\<lparr>pw_id = 1, pw_slug = ''a'', pw_title = ''T'', pw_language = [],
     pw_markdown = ''y'', pw_created_by = 1, pw_updated_by = 1, pw_created_at = 10, pw_updated_at = 20,
     pw_deleted_at = None, pw_deleted_by = 0, pw_view_count = 0, pw_status = PageStatusVerified, pw_owner = 0,
     pw_reviewed = None, pw_interval = 0, pw_target = [], pw_usage = None, pw_html = [], pw_contents = [],
     pw_fingerprint = [], pw_rendered_at = None\<rparr>], db_aliases = [], db_revisions = [\<lparr>rw_id = 1,
     rw_page = 1, rw_number = 1, rw_markdown = ''x'', rw_by = 1, rw_created = 10, rw_message = ''m'',
     rw_snapshot = Some \<lparr>sn_slug = ''a'', sn_title = ''T'', sn_icon = [], sn_language = [],
     sn_tags = [''go''], sn_groups = [], sn_status = PageStatusVerified, sn_owner = 0, sn_interval = 0,
     sn_target = [], sn_properties = [(''k'', ''v'')], sn_reviewed = None\<rparr>, rw_changes = []\<rparr>,
     \<lparr>rw_id = 2, rw_page = 1, rw_number = 2, rw_markdown = ''y'', rw_by = 1, rw_created = 20,
     rw_message = ''m'', rw_snapshot = Some \<lparr>sn_slug = ''a'', sn_title = ''T'', sn_icon = [],
     sn_language = [], sn_tags = [''go''], sn_groups = [], sn_status = PageStatusVerified, sn_owner = 0,
     sn_interval = 0, sn_target = [], sn_properties = [(''k'', ''v'')], sn_reviewed = None\<rparr>,
     rw_changes = []\<rparr>], db_reviews = [], db_icons = [], db_tags = [(1, ''go'')], db_page_tags = [(1,
     1)], db_page_groups = [], db_properties = [(1, ''k'', ''v'')], db_links = [], db_reviewers = [],
     db_review_comments = [], db_comments = [], db_audit = [\<lparr>ae_user = 1, ae_action = ''page.created'',
     ae_key = ''a'', ae_detail = [CHR ''r'', CHR ''1'', CHR '' '', CHR 0xC2, CHR 0xB7, CHR '' '', CHR ''P'',
     CHR ''a'', CHR ''g'', CHR ''e'', CHR '' '', CHR ''c'', CHR ''r'', CHR ''e'', CHR ''a'', CHR ''t'',
     CHR ''e'', CHR ''d''], ae_revision = Some 1\<rparr>, \<lparr>ae_user = 1, ae_action = ''page.updated'',
     ae_key = ''a'', ae_detail = [CHR ''r'', CHR ''2'', CHR '' '', CHR 0xC2, CHR 0xB7, CHR '' '', CHR ''M'',
     CHR ''a'', CHR ''r'', CHR ''k'', CHR ''d'', CHR ''o'', CHR ''w'', CHR ''n'', CHR '' '', CHR ''c'',
     CHR ''h'', CHR ''a'', CHR ''n'', CHR ''g'', CHR ''e'', CHR ''d''], ae_revision = Some 2\<rparr>],
     db_groups = [], db_members = [], db_users = [], db_discussions = True, db_next_page = 2,
     db_next_revision = 3, db_next_tag = 2, db_next_review = 1, db_next_review_comment = 1,
     db_next_comment = 1\<rparr>"
  by code_simp

lemma sample_edited:
  "\<exists>p. store_SavePage (sample_env 20) (sample_request ''a'' ''a'' ''y'') sample_db = Inr (p, edited_db) \<and>
     pg_id p = 1 \<and> pg_markdown p = ''y''"
proof -
  have "case store_SavePage (sample_env 20) (sample_request ''a'' ''a'' ''y'') sample_db of
      Inl _ \<Rightarrow> False | Inr x \<Rightarrow> pg_id (fst x) = 1 \<and> pg_markdown (fst x) = ''y''" by code_simp
  then show ?thesis unfolding edited_db_def state_of_def by (auto split: sum.splits)
qed

lemma sample_renamed: "\<exists>p d'. store_SavePage (sample_env 20) (sample_request ''a'' ''b'' ''y'') sample_db = Inr (p, d')"
proof -
  have "\<not> isl (store_SavePage (sample_env 20) (sample_request ''a'' ''b'' ''y'') sample_db)" by code_simp
  then show ?thesis by (blast dest: state_of_Inr)
qed

section \<open>Properties\<close>

text \<open>A save keeps the store consistent: paths and identifiers stay unique, an alias belongs to one
  existing page and is nobody's current path, the revisions of each page are numbered from 1
  without a gap and the newest holds the text of the page, reviews refer to existing revisions
  and no page has two pending reviews.\<close>

lemma save_keeps_consistency:
  assumes "db_ok d" and "store_SavePage e q d = Inr (p, d')"
  shows "db_ok d'"
  by (rule save_keeps_consistency_lemma [OF assms])

text \<open>C29: What a save stores is what reading the page returns: the fields of the request, the icon and
  the deprecation target without surrounding white space, the tags in lower case and without
  empty ones, the properties with trimmed keys and values and without empty ones, and exactly
  the requested links.\<close>

theorem save_reads_back:
  assumes "db_ok d" and "tags_ok d" and "store_SavePage e q d = Inr (p, d')"
  shows "GetPage d' (sq_slug q) = Inr p \<and> pg_slug p = sq_slug q \<and> pg_title p = sq_title q \<and>
    pg_language p = sq_language q \<and> pg_markdown p = sq_markdown q \<and> pg_icon p = TrimSpace (sq_icon q) \<and>
    pg_status p = md_status (sq_metadata q) \<and> pg_owner_group p = md_owner_group (sq_metadata q) \<and>
    pg_review_interval p = md_review_interval (sq_metadata q) \<and>
    pg_deprecated_target p = TrimSpace (md_deprecated_target (sq_metadata q)) \<and>
    set (pg_tags p) = (\<lambda>t. en_lower e (TrimSpace t)) ` set (sq_tags q) - {[]} \<and>
    (\<lambda>x. (pp_key x, pp_value x)) ` set (pg_properties p) =
      {(TrimSpace k, TrimSpace v) |k v. map_of (sq_properties q) k = Some v \<and> TrimSpace k \<noteq> [] \<and> TrimSpace v \<noteq> []} \<and>
    {l. (pg_id p, l) \<in> set (db_links d')} = set (sq_links q)"
  using store_SavePage_reads_back [OF assms(1,3)] assms(2) by simp

theorem save_reads_back_witness:
  "\<exists>p d'. store_SavePage (sample_env 20) (sample_request ''a'' ''b'' ''y'') sample_db = Inr (p, d') \<and>
     GetPage d' ''b'' = Inr p \<and> pg_markdown p = ''y'' \<and> set (pg_tags p) = {''go''}"
proof -
  obtain p d' where s: "store_SavePage (sample_env 20) (sample_request ''a'' ''b'' ''y'') sample_db = Inr (p, d')"
    using sample_renamed by blast
  have tags: "tags_ok sample_db" by code_simp
  have "TrimSpace ''go'' = ''go''" by code_simp
  with save_reads_back [OF sample_db_ok tags s] s show ?thesis
    by (simp add: sample_request_def sample_env_def)
qed

text \<open>C28: A successful save either leaves the history and the reviews of all pages as they were, and then
  the page had the same text and the same metadata before and keeps its version token, or it
  adds exactly one revision, numbered one above the newest, that holds the text and the metadata
  of the saved page, and no review of the page stays open.\<close>

theorem save_appends_one_revision:
  assumes "db_ok d" and "store_SavePage e q d = Inr (p, d')"
  shows "(db_revisions d' = db_revisions d \<and> db_reviews d' = db_reviews d \<and>
       (\<exists>b. GetPage d (pageRecordLookupSlug q) = Inr b \<and> pg_id b = pg_id p \<and> pg_markdown b = pg_markdown p \<and>
          ChangedFields (Some (snapshotPage b)) (snapshotPage p) = [] \<and> pg_updated_at p = pg_updated_at b)) \<or>
    (\<exists>w. db_revisions d' = db_revisions d @ [w] \<and> rw_page w = pg_id p \<and>
       rw_number w = current_revision d (pg_id p) + 1 \<and> rw_markdown w = pg_markdown p \<and>
       rw_snapshot w = Some (snapshotPage p) \<and> pg_updated_at p = en_now e \<and>
       (\<forall>v \<in> set (db_reviews d'). vw_page v = pg_id p \<longrightarrow>
          vw_status v \<notin> {PageReviewStatusPending, PageReviewStatusChangesRequested}))"
  by (rule store_SavePage_revision [OF assms])

theorem save_appends_one_revision_witness:
  "\<exists>p d'. store_SavePage (sample_env 20) (sample_request ''a'' ''a'' ''y'') sample_db = Inr (p, d') \<and>
     (\<exists>w. db_revisions d' = db_revisions sample_db @ [w] \<and> rw_number w = 2 \<and> rw_markdown w = ''y'')"
proof -
  obtain p where s: "store_SavePage (sample_env 20) (sample_request ''a'' ''a'' ''y'') sample_db = Inr (p, edited_db)"
    and p: "pg_id p = 1" "pg_markdown p = ''y''"
    using sample_edited by blast
  have c: "db_revisions edited_db \<noteq> db_revisions sample_db" "current_revision sample_db 1 = 1" by code_simp+
  with save_appends_one_revision [OF sample_db_ok s] p
  have "\<exists>w. db_revisions edited_db = db_revisions sample_db @ [w] \<and> rw_number w = 2 \<and> rw_markdown w = ''y''"
    by auto
  with s show ?thesis by blast
qed

text \<open>C27: No update is lost: when two editors read the same version of a page and the first one saves
  a change that creates a revision, keeps the slug and is stamped with another time than the version
  read, then the second one's save that directly follows with the version token of the version both
  read fails with a conflict that names the revision the first save created. The second request is
  one that passes the checks before the version check: its preparation and that of its owner group.\<close>

theorem no_lost_update:
  assumes "db_ok d" and "GetPage d slug = Inr p" and "TrimSpace slug = slug" and "slug \<noteq> []"
    and first: "store_SavePageIfUnchanged e1 (pg_updated_at p) q1 d = Inr (p1, d1)"
    and "TrimSpace (sq_previous q1) = slug" and "sq_slug q1 = slug"
    and "db_revisions d1 \<noteq> db_revisions d" and "en_now e1 \<noteq> pg_updated_at p"
    and "pg_updated_at p \<noteq> 0" and "TrimSpace (sq_previous q2) = slug" and "preparePageSave q2 = Inr q2'"
    and "validateAssignableGroup d1 (md_owner_group (sq_metadata q2)) (sq_user q2) = Inr ()"
  shows "store_SavePageIfUnchanged e2 (pg_updated_at p) q2 d1 =
    Inl (PageEditConflictError (current_revision d (pg_id p) + 1))"
proof -
  note s1 = store_SavePageIfUnchanged_cases [OF first]
  have look: "pageRecordLookupSlug q1 = slug"
    using assms(4,6) by (simp add: pageRecordLookupSlug_def Let_def)
  have ok1: "db_ok d1" using save_keeps_consistency_lemma [OF assms(1) s1(1)] .
  from store_SavePage_revision [OF assms(1) s1(1)] assms(8) obtain w where
    w: "db_revisions d1 = db_revisions d @ [w]" "rw_page w = pg_id p1" "rw_number w = current_revision d (pg_id p1) + 1"
      "pg_updated_at p1 = en_now e1"
    by auto
  have g1: "GetPage d1 slug = Inr p1"
    using s1(1) assms(7) by (auto elim!: store_SavePage_cases)
  have idp: "pg_id p1 = pg_id p"
    using store_SavePage_id [OF assms(1) s1(1)] assms(2) look by simp
  from g1 obtain r1 where r1: "live_row d1 slug = Some r1" "p1 = complete_page d1 r1" by (auto simp: GetPage_Inr)
  have "row_with (\<lambda>r. pw_slug r = slug) (db_pages d1) = Some r1"
  proof (rule row_with_unique [where k = pw_slug and x = slug])
    show "distinct (map pw_slug (db_pages d1))" using ok1 by (simp add: db_ok_def store_ok_def pages_ok_def)
  qed (use live_row_Some [OF r1(1)] in auto)
  moreover have "current_revision d1 (pg_id p) = current_revision d (pg_id p) + 1"
  proof -
    have ok: "revisions_ok d" "revisions_ok d1" using assms(1) ok1 by (auto simp: db_ok_def store_ok_def)
    have "revisions_of d1 (pg_id p) = revisions_of d (pg_id p) @ [w]"
      using w idp by (simp add: revisions_of_def)
    then show ?thesis unfolding current_revision_length [OF ok(1)] current_revision_length [OF ok(2)] by simp
  qed
  moreover have "live r1" "pw_id r1 = pg_id p" "pw_updated_at r1 \<noteq> pg_updated_at p"
    using live_row_Some [OF r1(1)] idp w(4) assms(9) r1(2) by auto
  ultimately have e: "ensurePageUnchanged slug (pg_updated_at p) d1 =
      Inl (PageEditConflictError (current_revision d (pg_id p) + 1))"
    using assms(3) by (simp add: ensurePageUnchanged_def)
  note f = preparePageSave_fields [OF assms(12)]
  have "ensurePageUnchanged (sq_previous q2) t d1 = ensurePageUnchanged slug t d1" for t
    using assms(3,11) by (simp add: ensurePageUnchanged_def)
  with e assms(4,10-13) f show ?thesis
    by (simp add: store_SavePageIfUnchanged_def)
qed

theorem no_lost_update_witness:
  "store_SavePageIfUnchanged (sample_env 30) 10 (sample_request ''a'' ''a'' ''z'')
     (state_of (store_SavePageIfUnchanged (sample_env 20) 10 (sample_request ''a'' ''a'' ''y'') sample_db)) =
   Inl (PageEditConflictError 2)"
proof -
  let ?q1 = "sample_request ''a'' ''a'' ''y''" and ?q2 = "sample_request ''a'' ''a'' ''z''"
  let ?s = "store_SavePageIfUnchanged (sample_env 20) 10 ?q1 sample_db"
  let ?p = "projr (GetPage sample_db ''a'')"
  have "case ?s of Inl _ \<Rightarrow> False | Inr x \<Rightarrow> db_revisions (snd x) \<noteq> db_revisions sample_db" by code_simp
  then obtain p1 where s: "?s = Inr (p1, state_of ?s)" and r: "db_revisions (state_of ?s) \<noteq> db_revisions sample_db"
    by (auto simp: state_of_def split: sum.splits)
  have c: "\<not> isl (GetPage sample_db ''a'')" "pg_updated_at ?p = 10" "pg_id ?p = 1"
    "current_revision sample_db 1 = 1" "TrimSpace ''a'' = ''a''" "\<not> isl (preparePageSave ?q2)"
    by code_simp+
  have g: "GetPage sample_db ''a'' = Inr ?p" using c(1) by simp
  have v: "validateAssignableGroup (state_of ?s) (md_owner_group (sq_metadata ?q2)) (sq_user ?q2) = Inr ()"
    by (simp add: validateAssignableGroup_def sample_request_def)
  have pr: "preparePageSave ?q2 = Inr (projr (preparePageSave ?q2))" using c(6) by simp
  have f: "sq_previous ?q1 = ''a''" "sq_slug ?q1 = ''a''" "sq_previous ?q2 = ''a''" "en_now (sample_env 20) = 20"
    by (simp_all add: sample_request_def sample_env_def)
  have t: "TrimSpace (sq_previous ?q1) = ''a''" "TrimSpace (sq_previous ?q2) = ''a''" using f c(5) by simp_all
  have n: "en_now (sample_env 20) \<noteq> pg_updated_at ?p" "pg_updated_at ?p \<noteq> 0" using f c(2) by simp_all
  have s': "store_SavePageIfUnchanged (sample_env 20) (pg_updated_at ?p) ?q1 sample_db = Inr (p1, state_of ?s)"
    unfolding c(2) by (rule s)
  from no_lost_update [OF sample_db_ok g c(5) _ s' t(1) f(2) r n t(2) pr v, where ?e2.0 = "sample_env 30"] c(2-4)
  show ?thesis by simp
qed

text \<open>Renaming a page keeps its identity and leaves the old path behind as a redirect to the new one:
  the old path is free of pages, its alias resolves to the new path, and reading the new path
  gives the page with the identifier it had before.\<close>

lemma rename_leaves_alias:
  assumes "db_ok d" and "store_SavePage e q d = Inr (p, d')" and "GetPage d old = Inr b"
    and "TrimSpace (sq_previous q) = old" and "old \<noteq> []" and "old \<noteq> sq_slug q"
  shows "pg_id p = pg_id b \<and> pg_slug p = sq_slug q \<and> GetPage d' (sq_slug q) = Inr p \<and>
    GetPage d' old = Inl ErrNotFound \<and> (old, sq_slug q) \<in> set (PageAliases d')"
proof -
  have look: "pageRecordLookupSlug q = old" using assms(4,5) by (simp add: pageRecordLookupSlug_def Let_def)
  have id: "pg_id p = pg_id b" using store_SavePage_id [OF assms(1,2)] assms(3) look by simp
  from store_SavePage_cases [OF assms(2)] obtain q' where q: "preparePageSave q = Inr q'"
    and x: "executePageSaveTransaction e q' d = Inr d'" and g: "GetPage d' (sq_slug q) = Inr p" by metis
  note f = preparePageSave_fields [OF q]
  have ok: "store_ok d" and ok': "store_ok d'"
    using assms(1) save_keeps_consistency_lemma [OF assms(1,2)] by (auto simp: db_ok_def)
  from executePageSave_aliases [OF ok x] obtain i d1 where r: "savePageRecord e q' d = Inr (i, d1)"
    and al: "db_aliases d' = db_aliases d1" .
  from assms(3) obtain r0 where r0: "live_row d old = Some r0" "b = complete_page d r0" by (auto simp: GetPage_Inr)
  have "row_with (\<lambda>r. pw_slug r = pageRecordLookupSlug q') (db_pages d) = Some r0"
    using ok live_row_Some [OF r0(1)] look f(16)
    by (intro row_with_unique [where k = pw_slug and x = old]) (auto simp: store_ok_def pages_ok_def)
  from savePageRecord_alias [OF ok r this] look f(1,16) assms(6) have a: "(old, i) \<in> set (db_aliases d')" "i = pw_id r0"
    by (simp_all add: al)
  then have "old \<notin> page_slugs d'" using ok' by (force simp: store_ok_def aliases_ok_def)
  then have free: "live_row d' old = None"
    by (auto simp: live_row_def row_with_None page_slugs_def)
  from g obtain r' where r': "live_row d' (sq_slug q) = Some r'" "p = complete_page d' r'" by (auto simp: GetPage_Inr)
  note lr = live_row_Some [OF r'(1)]
  have "row_with (\<lambda>r. pw_id r = i \<and> live r) (db_pages d') = Some r'"
  proof (rule row_with_unique [where k = pw_id and x = i])
    show "distinct (map pw_id (db_pages d'))" using ok' by (simp add: store_ok_def pages_ok_def)
  qed (use lr id r'(2) r0(2) a(2) in auto)
  with a(1) lr have "(old, sq_slug q) \<in> set (PageAliases d')"
    by (force simp: PageAliases_def)
  with id g lr r'(2) free show ?thesis by (simp add: GetPage_def)
qed

text \<open>A user who is not an administrator can neither add a group the user is not a member of to a
  page nor take it from the page: whatever the request says, a successful save leaves the
  assignment of such a group as it was.\<close>

lemma save_respects_membership:
  assumes "db_ok d" and "store_SavePage e q d = Inr (p, d')"
    and "\<not> IsAdministrator (sq_user q)" and "\<not> userBelongsToGroup d (u_id (sq_user q)) g"
  shows "(pg_id p, g) \<in> set (db_page_groups d') \<longleftrightarrow> (pg_id p, g) \<in> set (db_page_groups d)"
  using store_SavePage_groups [OF assms(1,2)] assms(3,4) by (auto simp: canAssignPageGroup_def)

end
