(* ===== verification/PageMove.thy ===== *)
theory PageMove
  imports SaveProperties Access
begin

text \<open>
  Moving pages: \<open>postgres/page_moves.go\<close>. One transaction loads the page and, if asked, its
  descendants, checks every destination, moves the deepest paths first, leaves an alias at each
  old path, retargets the link index and source_changes direct wiki links in the sources of other
  pages, each rewrite with a revision.
\<close>

section \<open>The moved pages\<close>

record moved_page =
  mp_id :: int
  mp_old :: string
  mp_new :: string

definition shorter_path :: "page_row \<Rightarrow> page_row \<Rightarrow> int" where
  "shorter_path l r =
     cmp_then (cmp_compare (length (pw_slug l)) (length (pw_slug r))) (cmp_compare (pw_slug l) (pw_slug r))"

definition in_moved_tree :: "string \<Rightarrow> bool \<Rightarrow> page_row \<Rightarrow> bool" where
  "in_moved_tree oldSlug moveChildren r =
     (live r \<and> (pw_slug r = oldSlug \<or> (moveChildren \<and> like (oldSlug @ ''/%'') (pw_slug r))))"

definition loadMovedPages :: "db \<Rightarrow> string \<Rightarrow> string \<Rightarrow> bool \<Rightarrow> moved_page list" where
  "loadMovedPages d oldSlug newSlug moveChildren =
     map (\<lambda>r. \<lparr>mp_id = pw_id r, mp_old = pw_slug r, mp_new = newSlug @ TrimPrefix (pw_slug r) oldSlug\<rparr>)
       (sort_func shorter_path (filter (in_moved_tree oldSlug moveChildren) (db_pages d)))"

definition validateMoveDestinations :: "db \<Rightarrow> moved_page list \<Rightarrow> error + unit" where
  "validateMoveDestinations d moved =
     forR moved (\<lambda>m u. validatePageDestination d (mp_id m) (mp_new m)) ()"

section \<open>Moving\<close>

definition move_one :: "env \<Rightarrow> int \<Rightarrow> moved_page \<Rightarrow> db \<Rightarrow> error + db" where
  "move_one e user m d =
     bindR (set_page_slug (mp_id m) (mp_new m) (\<lambda>r. r\<lparr>pw_updated_by := user, pw_updated_at := en_now e\<rparr>)
              (removeCurrentSlugAlias (mp_id m) (mp_new m) d)) (\<lambda>d1.
     bindR (move_icon (mp_old m) (mp_new m) d1) (\<lambda>d2.
     Inr (upsert_alias (mp_old m) (mp_id m) d2)))"

definition applyPageMoves :: "env \<Rightarrow> int \<Rightarrow> moved_page list \<Rightarrow> db \<Rightarrow> error + db" where
  "applyPageMoves e user moved d = forR (rev moved) (move_one e user) d"

text \<open>The key of the link index is the page with the target.\<close>

definition retarget_link :: "moved_page \<Rightarrow> db \<Rightarrow> error + db" where
  "retarget_link m d =
     (if mp_old m \<noteq> mp_new m \<and>
         list_ex (\<lambda>l. snd l = mp_old m \<and> list_ex (\<lambda>k. k = (fst l, mp_new m)) (db_links d)) (db_links d)
      then Inl (InfrastructureError ''page_links_pkey'')
      else Inr (d\<lparr>db_links := update_rows (\<lambda>l. snd l = mp_old m) (\<lambda>l. (fst l, mp_new m)) (db_links d)\<rparr>))"

definition retargetMovedPageLinks :: "moved_page list \<Rightarrow> db \<Rightarrow> error + db" where
  "retargetMovedPageLinks moved d = forR moved retarget_link d"

section \<open>Rewriting incoming links\<close>

definition rewriteDirectWikiTarget :: "string \<Rightarrow> string \<Rightarrow> string \<Rightarrow> string" where
  "rewriteDirectWikiTarget source oldSlug newSlug =
     (let s1 = ReplaceAll source (''[['' @ oldSlug @ '']]'') (''[['' @ newSlug @ '']]'');
          s2 = ReplaceAll s1 (''[['' @ oldSlug @ ''|'') (''[['' @ newSlug @ ''|'')
      in ReplaceAll s2 (''[['' @ oldSlug @ ''#'') (''[['' @ newSlug @ ''#''))"

definition rewritten_source :: "moved_page list \<Rightarrow> string \<Rightarrow> string" where
  "rewritten_source moved source = fold (\<lambda>m s. rewriteDirectWikiTarget s (mp_old m) (mp_new m)) moved source"

text \<open>The pages whose source changes, with the new source.\<close>

definition link_edits :: "moved_page list \<Rightarrow> db \<Rightarrow> (int \<times> string) list" where
  "link_edits moved d =
     map (\<lambda>r. (pw_id r, rewritten_source moved (pw_markdown r)))
       (filter (\<lambda>r. live r \<and> Contains (pw_markdown r) ''[['' \<and>
                    rewritten_source moved (pw_markdown r) \<noteq> pw_markdown r) (db_pages d))"

definition write_link_edit :: "env \<Rightarrow> int \<Rightarrow> int \<times> string \<Rightarrow> db \<Rightarrow> error + db" where
  "write_link_edit e user edit d =
     appendPageRevision e (fst edit) (snd edit) ''Update links after page move'' user
       (d\<lparr>db_pages := update_rows (\<lambda>r. pw_id r = fst edit)
            (\<lambda>r. r\<lparr>pw_markdown := snd edit, pw_usage := None, pw_updated_by := user, pw_updated_at := en_now e\<rparr>)
            (db_pages d)\<rparr>)"

definition rewriteIncomingWikiLinks :: "env \<Rightarrow> moved_page list \<Rightarrow> int \<Rightarrow> db \<Rightarrow> error + db" where
  "rewriteIncomingWikiLinks e moved user d = forR (link_edits moved d) (write_link_edit e user) d"

section \<open>The transactions\<close>

definition insertPageActionAudit :: "int \<Rightarrow> string \<Rightarrow> string \<Rightarrow> string \<Rightarrow> db \<Rightarrow> db" where
  "insertPageActionAudit actor action slug detail d = add_audit actor action slug detail None d"

definition movePage :: "env \<Rightarrow> string \<Rightarrow> string \<Rightarrow> move_options \<Rightarrow> user \<Rightarrow> db \<Rightarrow> error + db" where
  "movePage e oldSlug newSlug options u d =
     bindR (NormalizeMove oldSlug newSlug options) (\<lambda>(old, new).
     let moved = loadMovedPages d old new (mo_children options) in
     if moved = [] then Inl ErrNotFound
     else bindR (validateMoveDestinations d moved) (\<lambda>_.
       bindR (applyPageMoves e (u_id u) moved d) (\<lambda>d1.
       bindR (retargetMovedPageLinks moved d1) (\<lambda>d2.
       bindR (if mo_update_links options then rewriteIncomingWikiLinks e moved (u_id u) d2 else Inr d2) (\<lambda>d3.
       Inr (fold (\<lambda>m. insertPageActionAudit (u_id u) ''page.moved'' (mp_new m)
                   (mp_old m @ arrow_separator @ mp_new m)) moved d3))))))"

definition MovePage :: "env \<Rightarrow> string \<Rightarrow> string \<Rightarrow> move_options \<Rightarrow> user \<Rightarrow> db \<Rightarrow> error + db" where
  "MovePage e oldSlug newSlug options u d = movePage e oldSlug newSlug options u d"

definition longer_path :: "string \<Rightarrow> string \<Rightarrow> int" where
  "longer_path l r = cmp_compare (length r) (length l)"

definition BulkMovePages :: "env \<Rightarrow> string list \<Rightarrow> string \<Rightarrow> user \<Rightarrow> db \<Rightarrow> error + db" where
  "BulkMovePages e slugs target u d =
     bindR (NormalizeTarget target) (\<lambda>t.
     forR (sort_func longer_path slugs)
       (\<lambda>slug d. bindR (MoveDestination slug t) (\<lambda>(source, destination).
          movePage e source destination \<lparr>mo_children = False, mo_update_links = True\<rparr> u d)) d)"

section \<open>Facts about the moved pages\<close>

lemma loadMovedPages_in:
  "m \<in> set (loadMovedPages d old new ch) \<longleftrightarrow>
     (\<exists>r \<in> set (db_pages d). in_moved_tree old ch r \<and>
        m = \<lparr>mp_id = pw_id r, mp_old = pw_slug r, mp_new = new @ TrimPrefix (pw_slug r) old\<rparr>)"
  by (auto simp: loadMovedPages_def)

lemma distinct_map_mset: "mset xs = mset ys \<Longrightarrow> distinct (map f xs) = distinct (map f ys)"
  by (metis mset_eq_imp_distinct_iff mset_map)

lemma loadMovedPages_distinct:
  assumes "pages_ok d"
  shows "distinct (map mp_id (loadMovedPages d old new ch))"
proof -
  let ?rows = "filter (in_moved_tree old ch) (db_pages d)"
  have "distinct (map pw_id ?rows)" using assms by (simp add: pages_ok_def distinct_map_filter)
  then have "distinct (map pw_id (sort_func shorter_path ?rows))"
    using distinct_map_mset [of "sort_func shorter_path ?rows" ?rows pw_id] by simp
  then show ?thesis by (simp add: loadMovedPages_def o_def)
qed

lemma validateMoveDestinations_Inr:
  assumes "validateMoveDestinations d moved = Inr ()" and "m \<in> set moved"
  shows "validatePageDestination d (mp_id m) (mp_new m) = Inr ()"
proof -
  have "forR ms (\<lambda>m u. validatePageDestination d (mp_id m) (mp_new m)) () = Inr () \<Longrightarrow>
      \<forall>m \<in> set ms. validatePageDestination d (mp_id m) (mp_new m) = Inr ()" for ms
    by (induction ms) (auto simp: result_simps)
  from this [of moved] assms show ?thesis unfolding validateMoveDestinations_def by blast
qed

lemma TrimPrefix_neq:
  assumes "new \<noteq> old" and "new \<noteq> []"
  shows "new @ TrimPrefix s old \<noteq> s"
  using assms by (auto simp: TrimPrefix_def HasPrefix_def prefix_def)

section \<open>The loop of moves\<close>

text \<open>
  The moved pages have distinct identifiers and old paths, none keeps its path, and no old path
  is the destination of another one.
\<close>

definition moves_ok :: "moved_page list \<Rightarrow> bool" where
  "moves_ok ms = (distinct (map mp_id ms) \<and> distinct (map mp_old ms) \<and> (\<forall>m \<in> set ms. mp_new m \<noteq> mp_old m) \<and>
     (\<forall>m \<in> set ms. \<forall>k \<in> set ms. mp_id m \<noteq> mp_id k \<longrightarrow> mp_old m \<noteq> mp_new k))"

text \<open>The pages still to move are where they were, and their destinations are nobody else's alias.\<close>

definition ready :: "db \<Rightarrow> moved_page list \<Rightarrow> bool" where
  "ready d ms = (\<forall>m \<in> set ms. (\<exists>r \<in> set (db_pages d). pw_id r = mp_id m \<and> pw_slug r = mp_old m) \<and>
     (\<forall>a \<in> set (db_aliases d). fst a = mp_new m \<longrightarrow> snd a = mp_id m))"

definition at_new_path :: "env \<Rightarrow> int \<Rightarrow> moved_page \<Rightarrow> page_row \<Rightarrow> page_row" where
  "at_new_path e user m r = r\<lparr>pw_updated_by := user, pw_updated_at := en_now e, pw_slug := mp_new m\<rparr>"

definition moved_row :: "env \<Rightarrow> int \<Rightarrow> moved_page list \<Rightarrow> page_row \<Rightarrow> page_row" where
  "moved_row e user ms r = (case row_with (\<lambda>m. mp_id m = pw_id r) ms of None \<Rightarrow> r | Some m \<Rightarrow> at_new_path e user m r)"

lemma at_new_path_simps [simp]:
  "pw_id (at_new_path e u m r) = pw_id r" "pw_slug (at_new_path e u m r) = mp_new m"
  "pw_markdown (at_new_path e u m r) = pw_markdown r" "pw_deleted_at (at_new_path e u m r) = pw_deleted_at r"
  by (simp_all add: at_new_path_def)

lemma moved_row_simps [simp]:
  "pw_id (moved_row e u ms r) = pw_id r" "pw_markdown (moved_row e u ms r) = pw_markdown r"
  "pw_deleted_at (moved_row e u ms r) = pw_deleted_at r" "live (moved_row e u ms r) = live r"
  by (simp_all add: moved_row_def live_def split: option.splits)

lemma move_one_ok:
  assumes ok: "store_ok d" and rd: "ready d (m # ms)" and mo: "moves_ok (m # ms)" and s: "move_one e user m d = Inr d'"
  shows "store_ok d'" and "ready d' ms"
    and "db_pages d' = update_rows (\<lambda>r. pw_id r = mp_id m) (at_new_path e user m) (db_pages d)"
    and "set (db_aliases d') = insert (mp_old m, mp_id m) {a \<in> set (db_aliases d). fst a \<noteq> mp_new m \<and> fst a \<noteq> mp_old m}"
    and "db_revisions d' = db_revisions d" and "db_reviews d' = db_reviews d"
proof -
  let ?f = "\<lambda>r :: page_row. r\<lparr>pw_updated_by := user, pw_updated_at := en_now e\<rparr>"
  from s obtain d1 d2 where s1: "set_page_slug (mp_id m) (mp_new m) ?f (removeCurrentSlugAlias (mp_id m) (mp_new m) d) = Inr d1"
    and s2: "move_icon (mp_old m) (mp_new m) d1 = Inr d2" and d': "d' = upsert_alias (mp_old m) (mp_id m) d2"
    by (auto simp: move_one_def result_simps)
  from rd obtain r where r: "r \<in> set (db_pages d)" "pw_id r = mp_id m" "pw_slug r = mp_old m"
    by (auto simp: ready_def)
  have al: "a \<in> set (db_aliases d) \<Longrightarrow> fst a = mp_new m \<Longrightarrow> snd a = mp_id m" for a
    using rd by (simp add: ready_def)
  have ne: "mp_old m \<noteq> mp_new m" using mo by (auto simp: moves_ok_def)
  have id: "pw_id (?f z) = pw_id z" for z by simp
  note n = store_ok_rename [OF ok r ne al id s1 s2]
  have f: "(\<lambda>r. (?f r)\<lparr>pw_slug := mp_new m\<rparr>) = at_new_path e user m" by (simp add: at_new_path_def fun_eq_iff)
  show ok': "store_ok d'" and pages: "db_pages d' = update_rows (\<lambda>r. pw_id r = mp_id m) (at_new_path e user m) (db_pages d)"
    and als: "set (db_aliases d') = insert (mp_old m, mp_id m) {a \<in> set (db_aliases d). fst a \<noteq> mp_new m \<and> fst a \<noteq> mp_old m}"
    and "db_revisions d' = db_revisions d" "db_reviews d' = db_reviews d"
    unfolding d' using n f by simp_all
  show "ready d' ms"
    unfolding ready_def
  proof (intro ballI conjI)
    fix k assume k: "k \<in> set ms"
    then have neq: "mp_id k \<noteq> mp_id m" and new: "mp_old m \<noteq> mp_new k"
      using mo by (auto simp: moves_ok_def image_iff)
    from rd k obtain x where "x \<in> set (db_pages d)" "pw_id x = mp_id k" "pw_slug x = mp_old k"
      by (auto simp: ready_def)
    then show "\<exists>r \<in> set (db_pages d'). pw_id r = mp_id k \<and> pw_slug r = mp_old k"
      using neq by (auto simp: pages table_simps intro!: bexI [of _ x])
    fix a assume "a \<in> set (db_aliases d')"
    then show "fst a = mp_new k \<longrightarrow> snd a = mp_id k"
      using rd k new by (auto simp: als ready_def)
  qed
qed

lemma moves_ok_Cons: "moves_ok (m # ms) \<Longrightarrow> moves_ok ms"
  by (auto simp: moves_ok_def)

lemma moves_loop:
  assumes "store_ok d" and "ready d ms" and "moves_ok ms" and "forR ms (move_one e user) d = Inr d'"
  shows "store_ok d' \<and> db_pages d' = map (moved_row e user ms) (db_pages d) \<and>
    db_revisions d' = db_revisions d \<and> db_reviews d' = db_reviews d \<and>
    (\<forall>m \<in> set ms. (mp_old m, mp_id m) \<in> set (db_aliases d')) \<and>
    (\<forall>a \<in> set (db_aliases d). (\<forall>m \<in> set ms. fst a \<noteq> mp_new m \<and> fst a \<noteq> mp_old m) \<longrightarrow> a \<in> set (db_aliases d'))"
  using assms
proof (induction ms arbitrary: d)
  case Nil
  then show ?case by (simp add: moved_row_def)
next
  case (Cons m ms)
  from Cons.prems(4) obtain d1 where s: "move_one e user m d = Inr d1" and rest: "forR ms (move_one e user) d1 = Inr d'"
    by (auto simp: result_simps)
  note n = move_one_ok [OF Cons.prems(1-3) s]
  have mo: "moves_ok ms" using Cons.prems(3) by (rule moves_ok_Cons)
  note ih = Cons.IH [OF n(1,2) mo rest]
  note i1 = conjunct1 [OF ih] and j1 = conjunct2 [OF ih]
  note ihp = conjunct1 [OF j1] and j2 = conjunct2 [OF j1]
  note i3 = conjunct1 [OF j2] and j3 = conjunct2 [OF j2]
  note i4 = conjunct1 [OF j3] and j4 = conjunct2 [OF j3]
  note rest_old = conjunct1 [OF j4] and keep = conjunct2 [OF j4]
  have row: "moved_row e user ms (if pw_id r = mp_id m then at_new_path e user m r else r) = moved_row e user (m # ms) r" for r
  proof (cases "pw_id r = mp_id m")
    case True
    moreover have "mp_id m \<notin> mp_id ` set ms" using Cons.prems(3) unfolding moves_ok_def by simp
    ultimately have "row_with (\<lambda>k. mp_id k = pw_id r) ms = None"
      unfolding row_with_None by (metis image_eqI)
    with True show ?thesis by (simp add: moved_row_def)
  qed (simp add: moved_row_def)
  have pages: "db_pages d' = map (moved_row e user (m # ms)) (db_pages d)"
    unfolding ihp n(3) update_rows_def map_map o_def row ..
  have "\<forall>k \<in> set ms. mp_old m \<noteq> mp_new k \<and> mp_old m \<noteq> mp_old k"
  proof
    fix k assume k: "k \<in> set ms"
    then have "mp_id m \<noteq> mp_id k" "mp_old m \<noteq> mp_old k"
      using Cons.prems(3) unfolding moves_ok_def by (metis distinct.simps(2) image_eqI list.simps(9) set_map)+
    with k Cons.prems(3) show "mp_old m \<noteq> mp_new k \<and> mp_old m \<noteq> mp_old k"
      unfolding moves_ok_def by simp
  qed
  moreover have "(mp_old m, mp_id m) \<in> set (db_aliases d1)" unfolding n(4) by (rule insertI1)
  ultimately have this_old: "(mp_old m, mp_id m) \<in> set (db_aliases d')"
    using bspec [OF keep, of "(mp_old m, mp_id m)"] by simp
  have old: "\<forall>k \<in> set (m # ms). (mp_old k, mp_id k) \<in> set (db_aliases d')"
    using this_old rest_old by simp
  have "\<forall>a \<in> set (db_aliases d). (\<forall>k \<in> set (m # ms). fst a \<noteq> mp_new k \<and> fst a \<noteq> mp_old k) \<longrightarrow> a \<in> set (db_aliases d')"
  proof (intro ballI impI)
    fix a assume a: "a \<in> set (db_aliases d)" "\<forall>k \<in> set (m # ms). fst a \<noteq> mp_new k \<and> fst a \<noteq> mp_old k"
    then have "a \<in> set (db_aliases d1)" unfolding n(4) by simp
    with a(2) show "a \<in> set (db_aliases d')" using bspec [OF keep, of a] by simp
  qed
  with i1 i3 i4 n(5,6) pages old show ?case by (intro conjI) simp_all
qed

lemma moves_ok_rev: "moves_ok (rev ms) = moves_ok ms"
  by (simp add: moves_ok_def rev_map [symmetric])

lemma ready_rev: "ready d (rev ms) = ready d ms"
  by (simp add: ready_def)

text \<open>What the checks before the loop give.\<close>

lemma moves_start:
  assumes ok: "store_ok d" and ne: "old \<noteq> new" "new \<noteq> []"
    and moved: "moved = loadMovedPages d old new ch" and v: "validateMoveDestinations d moved = Inr ()"
  shows "moves_ok moved" and "ready d moved"
proof -
  let ?rows = "filter (in_moved_tree old ch) (db_pages d)"
  have po: "pages_ok d" using ok by (simp add: store_ok_def)
  have "distinct (map pw_slug (sort_func shorter_path ?rows))"
    using distinct_map_mset [of "sort_func shorter_path ?rows" ?rows pw_slug] po by (simp add: pages_ok_def distinct_map_filter)
  then have ds: "distinct (map mp_old moved)" by (simp add: moved loadMovedPages_def o_def)
  have val: "validatePageDestination d (mp_id m) (mp_new m) = Inr ()" if "m \<in> set moved" for m
    by (rule validateMoveDestinations_Inr [OF v that])
  have row: "\<exists>r \<in> set (db_pages d). pw_id r = mp_id m \<and> pw_slug r = mp_old m" if "m \<in> set moved" for m
    using that unfolding moved loadMovedPages_in by auto
  have other: "mp_old m \<noteq> mp_new k" if "m \<in> set moved" "k \<in> set moved" "mp_id m \<noteq> mp_id k" for m k
    using row [OF that(1)] val [OF that(2)] that(3)
    by (auto simp: validatePageDestination_def list_ex_iff split: if_splits)
  have "mp_new m \<noteq> mp_old m" if "m \<in> set moved" for m
    using that TrimPrefix_neq [OF ne(1) [symmetric] ne(2)] unfolding moved loadMovedPages_in by auto
  with ds other loadMovedPages_distinct [OF po, of old new ch] show "moves_ok moved"
    by (auto simp: moves_ok_def moved)
  show "ready d moved"
    unfolding ready_def
  proof (intro ballI conjI)
    fix m assume m: "m \<in> set moved"
    from row [OF m] show "\<exists>r \<in> set (db_pages d). pw_id r = mp_id m \<and> pw_slug r = mp_old m" .
    fix a assume "a \<in> set (db_aliases d)"
    with val [OF m] show "fst a = mp_new m \<longrightarrow> snd a = mp_id m"
      by (auto simp: validatePageDestination_def list_ex_iff split: if_splits)
  qed
qed

section \<open>Consistency of a move\<close>

lemma core_retarget: "retargetMovedPageLinks moved d = Inr d' \<Longrightarrow> core d' = core d"
  unfolding retargetMovedPageLinks_def
  by (erule forR_invariant) (auto simp: retarget_link_def split: if_splits)

text \<open>A revision with the text of the page, appended by \<open>appendPageRevision\<close>.\<close>

lemma appendPageRevision_ok:
  assumes ok: "store_ok d" and s: "appendPageRevision e i md msg actor d = Inr d'"
    and others: "\<forall>x \<in> set (db_pages d). pw_id x \<noteq> i \<longrightarrow> head_ok d x"
    and body: "\<forall>x \<in> set (db_pages d). pw_id x = i \<longrightarrow> pw_markdown x = md"
  shows "db_ok d'" and "db_pages d' = db_pages d" and "db_aliases d' = db_aliases d" and "db_reviews d' = db_reviews d"
    and "\<exists>w. db_revisions d' = db_revisions d @ [w] \<and> rw_page w = i \<and> rw_number w = current_revision d i + 1 \<and>
           rw_markdown w = md"
proof -
  from s obtain r p where r: "row_with (\<lambda>r. pw_id r = i) (db_pages d) = Some r"
    and d': "d' = snd (insertPageRevision e i md msg actor (snapshotPage p) [] d)"
    by (auto simp: appendPageRevision_def result_simps split: option.splits)
  obtain n where ins: "insertPageRevision e i md msg actor (snapshotPage p) [] d = (n, d')"
    using d' by (metis prod.collapse)
  from row_with_Some [OF r] have rr: "r \<in> set (db_pages d)" "pw_id r = i" by auto
  note f = insertPageRevision_fields [OF ins]
  show "db_ok d'"
    by (rule db_ok_new_revision [OF ok rr(1)]) (use others rr body ins in auto)
  show "db_pages d' = db_pages d" "db_aliases d' = db_aliases d" "db_reviews d' = db_reviews d"
    by (rule f)+
  show "\<exists>w. db_revisions d' = db_revisions d @ [w] \<and> rw_page w = i \<and> rw_number w = current_revision d i + 1 \<and>
           rw_markdown w = md"
    using f(1,7) by simp
qed

text \<open>What identifies a row for its readers.\<close>

definition row_key :: "page_row \<Rightarrow> int \<times> string \<times> time option" where
  "row_key r = (pw_id r, pw_slug r, pw_deleted_at r)"

lemma row_key_update:
  "(\<And>r. row_key (f r) = row_key r) \<Longrightarrow> map row_key (update_rows P f rows) = map row_key rows"
  by (rule map_update_rows_same)

text \<open>The row that a rewritten source leaves.\<close>

definition edited_row :: "env \<Rightarrow> int \<Rightarrow> string \<Rightarrow> page_row \<Rightarrow> page_row" where
  "edited_row e user md r = r\<lparr>pw_markdown := md, pw_usage := None, pw_updated_by := user, pw_updated_at := en_now e\<rparr>"

lemma edited_row_simps [simp]:
  "pw_id (edited_row e u md r) = pw_id r" "pw_slug (edited_row e u md r) = pw_slug r"
  "pw_markdown (edited_row e u md r) = md" "row_key (edited_row e u md r) = row_key r"
  by (simp_all add: edited_row_def row_key_def)

lemma write_link_edit_ok:
  assumes ok: "db_ok d" and s: "write_link_edit e user edit d = Inr d'"
  shows "db_ok d'" and "map row_key (db_pages d') = map row_key (db_pages d)" and "db_aliases d' = db_aliases d"
    and "db_reviews d' = db_reviews d"
proof -
  define d0 where "d0 = d\<lparr>db_pages := update_rows (\<lambda>r. pw_id r = fst edit) (edited_row e user (snd edit)) (db_pages d)\<rparr>"
  have s': "appendPageRevision e (fst edit) (snd edit) ''Update links after page move'' user d0 = Inr d'"
    using s by (simp add: write_link_edit_def d0_def edited_row_def [abs_def])
  have pages: "db_pages d0 = update_rows (\<lambda>r. pw_id r = fst edit) (edited_row e user (snd edit)) (db_pages d)"
    and als: "db_aliases d0 = db_aliases d" and vs: "db_reviews d0 = db_reviews d" and revs: "revisions_of d0 = revisions_of d"
    by (simp_all add: d0_def revisions_of_def fun_eq_iff)
  have sok: "store_ok d0" unfolding d0_def using ok by (intro store_ok_update_page) (simp_all add: db_ok_def)
  have others: "\<forall>x \<in> set (db_pages d0). pw_id x \<noteq> fst edit \<longrightarrow> head_ok d0 x"
  proof (intro ballI impI)
    fix x assume "x \<in> set (db_pages d0)" "pw_id x \<noteq> fst edit"
    then have "x \<in> set (db_pages d)" by (auto simp: pages table_simps split: if_splits)
    then show "head_ok d0 x" using ok by (simp add: db_ok_def head_ok_def revs)
  qed
  have body: "\<forall>x \<in> set (db_pages d0). pw_id x = fst edit \<longrightarrow> pw_markdown x = snd edit"
    by (auto simp: pages table_simps split: if_splits)
  note n = appendPageRevision_ok [OF sok s' others body]
  show "db_ok d'" by (rule n(1))
  show "map row_key (db_pages d') = map row_key (db_pages d)"
    unfolding n(2) pages by (rule row_key_update) simp
  show "db_aliases d' = db_aliases d" "db_reviews d' = db_reviews d" unfolding n(3,4) als vs by (rule refl)+
qed

lemma rewriteIncomingWikiLinks_ok:
  assumes "db_ok d" and "rewriteIncomingWikiLinks e moved user d = Inr d'"
  shows "db_ok d' \<and> map row_key (db_pages d') = map row_key (db_pages d) \<and> db_aliases d' = db_aliases d \<and>
    db_reviews d' = db_reviews d"
  by (rule forR_invariant [OF assms(2) [unfolded rewriteIncomingWikiLinks_def]])
    (use assms(1) in \<open>auto dest: write_link_edit_ok\<close>)

lemma core_move_audits [simp]:
  "core (fold (\<lambda>m. insertPageActionAudit a b (f m) (g m)) ms d) = core d"
  by (induction ms arbitrary: d) (simp_all add: insertPageActionAudit_def)

lemma db_ok_moved_rows:
  assumes ok: "db_ok d" and sok: "store_ok d1" and pages: "db_pages d1 = map f (db_pages d)"
    and f: "\<And>r. pw_id (f r) = pw_id r" "\<And>r. pw_markdown (f r) = pw_markdown r" and revs: "db_revisions d1 = db_revisions d"
  shows "db_ok d1"
proof -
  have "head_ok d1 (f r)" if "r \<in> set (db_pages d)" for r
    using ok that by (simp add: db_ok_def head_ok_def f revisions_of_def revs)
  with sok show ?thesis by (simp add: db_ok_def pages)
qed

lemma movePage_result:
  assumes ok: "db_ok d" and s: "movePage e oldSlug newSlug opts u d = Inr d'"
  obtains old new moved where "NormalizeMove oldSlug newSlug opts = Inr (old, new)"
    and "moved = loadMovedPages d old new (mo_children opts)" and "moved \<noteq> []" and "moves_ok moved"
    and "db_ok d'" and "map row_key (db_pages d') = map (\<lambda>r. row_key (moved_row e (u_id u) (rev moved) r)) (db_pages d)"
    and "\<And>m. m \<in> set moved \<Longrightarrow> (mp_old m, mp_id m) \<in> set (db_aliases d')"
    and "db_reviews d' = db_reviews d"
proof -
  from s obtain old new d1 d2 d3 where nm: "NormalizeMove oldSlug newSlug opts = Inr (old, new)"
    and ne: "loadMovedPages d old new (mo_children opts) \<noteq> []"
    and v: "validateMoveDestinations d (loadMovedPages d old new (mo_children opts)) = Inr ()"
    and a: "applyPageMoves e (u_id u) (loadMovedPages d old new (mo_children opts)) d = Inr d1"
    and t: "retargetMovedPageLinks (loadMovedPages d old new (mo_children opts)) d1 = Inr d2"
    and w: "(if mo_update_links opts then rewriteIncomingWikiLinks e (loadMovedPages d old new (mo_children opts)) (u_id u) d2
             else Inr d2) = Inr d3"
    and d': "d' = fold (\<lambda>m. insertPageActionAudit (u_id u) ''page.moved'' (mp_new m)
                   (mp_old m @ arrow_separator @ mp_new m)) (loadMovedPages d old new (mo_children opts)) d3"
    unfolding movePage_def Let_def by (auto simp: bindR_eq_Inr if_Inl_eq_Inr split_paired_all)
  define moved where "moved = loadMovedPages d old new (mo_children opts)"
  note folded = v a t w [folded moved_def]
  have sok: "store_ok d" using ok by (simp add: db_ok_def)
  from NormalizeMove_Inr [OF nm] have "old \<noteq> new" "new \<noteq> []" by auto
  note st = moves_start [OF sok this moved_def v [folded moved_def]]
  from moves_loop [OF sok, of "rev moved" e "u_id u" d1] st a
  have L: "store_ok d1" "db_pages d1 = map (moved_row e (u_id u) (rev moved)) (db_pages d)"
    "db_revisions d1 = db_revisions d" "db_reviews d1 = db_reviews d"
    "\<forall>m \<in> set moved. (mp_old m, mp_id m) \<in> set (db_aliases d1)"
    unfolding applyPageMoves_def moved_def [symmetric] ready_rev moves_ok_rev set_rev by blast+
  have ok1: "db_ok d1" by (rule db_ok_moved_rows [OF ok L(1,2) _ _ L(3)]) simp_all
  note c2 = core_retarget [OF t]
  have ok2: "db_ok d2" using ok1 db_ok_core [OF c2] by simp
  have k: "db_ok d3 \<and> map row_key (db_pages d3) = map row_key (db_pages d2) \<and> db_aliases d3 = db_aliases d2 \<and>
      db_reviews d3 = db_reviews d2"
    using w rewriteIncomingWikiLinks_ok [OF ok2] ok2 by (auto split: if_splits)
  have c: "core d' = core d3" unfolding d' by simp
  note C = core_eqD [OF c] and C2 = core_eqD [OF c2]
  have "db_ok d'" using k db_ok_core [OF c] by simp
  moreover have "map row_key (db_pages d') = map (\<lambda>r. row_key (moved_row e (u_id u) (rev moved) r)) (db_pages d)"
    using k C(1) C2(1) L(2) by simp
  moreover have "(mp_old m, mp_id m) \<in> set (db_aliases d')" if "m \<in> set moved" for m
    using k C(2) C2(2) L(5) that by simp
  moreover have "db_reviews d' = db_reviews d" using k C(4) C2(4) L(4) by simp
  ultimately show ?thesis
    using that nm moved_def ne [folded moved_def] st(1) by blast
qed

lemma movePage_keeps_ok: "db_ok d \<Longrightarrow> movePage e oldSlug newSlug opts u d = Inr d' \<Longrightarrow> db_ok d'"
  by (erule movePage_result)

lemma BulkMovePages_keeps_ok:
  assumes "db_ok d" and "BulkMovePages e slugs target u d = Inr d'"
  shows "db_ok d'"
proof -
  from assms(2) obtain t where "forR (sort_func longer_path slugs)
       (\<lambda>slug d. bindR (MoveDestination slug t) (\<lambda>(source, destination).
          movePage e source destination \<lparr>mo_children = False, mo_update_links = True\<rparr> u d)) d = Inr d'"
    by (auto simp: BulkMovePages_def result_simps)
  then show ?thesis
    by (rule forR_invariant) (use assms(1) in \<open>auto simp: result_simps dest: movePage_keeps_ok\<close>)
qed

section \<open>What the rewriting of links does\<close>

definition rewritten_row :: "env \<Rightarrow> int \<Rightarrow> (int \<times> string) list \<Rightarrow> page_row \<Rightarrow> page_row" where
  "rewritten_row e user edits r = (case map_of edits (pw_id r) of None \<Rightarrow> r | Some md \<Rightarrow> edited_row e user md r)"

lemma write_link_edit_effect:
  assumes ok: "db_ok d" and s: "write_link_edit e user (i, md) d = Inr d'"
  shows "db_pages d' = update_rows (\<lambda>r. pw_id r = i) (edited_row e user md) (db_pages d)"
    and "length (revisions_of d' p) = length (revisions_of d p) + (if p = i then 1 else 0)"
proof -
  let ?d0 = "d\<lparr>db_pages := update_rows (\<lambda>r. pw_id r = i) (edited_row e user md) (db_pages d)\<rparr>"
  have s': "appendPageRevision e i md ''Update links after page move'' user ?d0 = Inr d'"
    using s by (simp add: write_link_edit_def edited_row_def [abs_def])
  then obtain r q where r: "row_with (\<lambda>r. pw_id r = i) (db_pages ?d0) = Some r"
    and d': "d' = snd (insertPageRevision e i md ''Update links after page move'' user (snapshotPage q) [] ?d0)"
    by (auto simp: appendPageRevision_def result_simps split: option.splits)
  show "db_pages d' = update_rows (\<lambda>r. pw_id r = i) (edited_row e user md) (db_pages d)"
    "length (revisions_of d' p) = length (revisions_of d p) + (if p = i then 1 else 0)"
    unfolding d' by (simp_all add: insertPageRevision_def Let_def revisions_of_def)
qed

lemma link_edit_loop:
  assumes "db_ok d" and "distinct (map fst edits)" and "forR edits (write_link_edit e user) d = Inr d'"
  shows "db_pages d' = map (rewritten_row e user edits) (db_pages d) \<and>
    length (revisions_of d' p) = length (revisions_of d p) + (if p \<in> fst ` set edits then 1 else 0)"
  using assms
proof (induction edits arbitrary: d)
  case Nil
  then show ?case by (simp add: rewritten_row_def)
next
  case (Cons edit edits)
  obtain i md where edit: "edit = (i, md)" by (rule prod.exhaust)
  from Cons.prems(3) edit obtain d1 where s: "write_link_edit e user (i, md) d = Inr d1"
    and rest: "forR edits (write_link_edit e user) d1 = Inr d'"
    by (auto simp: result_simps)
  note n = write_link_edit_effect(1) [OF Cons.prems(1) s] write_link_edit_effect(2) [OF Cons.prems(1) s, of p]
  have ok1: "db_ok d1" by (rule write_link_edit_ok(1) [OF Cons.prems(1) s])
  have dist: "distinct (map fst edits)" and new: "i \<notin> fst ` set edits" using Cons.prems(2) edit by simp_all
  note ih = Cons.IH [OF ok1 dist rest]
  have none: "map_of edits i = None" using new by (simp add: map_of_eq_None_iff)
  have "rewritten_row e user edits (if pw_id r = i then edited_row e user md r else r) = rewritten_row e user (edit # edits) r" for r
    using none by (simp add: rewritten_row_def edit)
  then have "db_pages d' = map (rewritten_row e user (edit # edits)) (db_pages d)"
    using conjunct1 [OF ih] n(1) by (simp add: update_rows_def)
  moreover have "length (revisions_of d' p) = length (revisions_of d p) + (if p \<in> fst ` set (edit # edits) then 1 else 0)"
    using conjunct2 [OF ih] n(2) new edit by auto
  ultimately show ?case by blast
qed

definition source_changes :: "moved_page list \<Rightarrow> page_row \<Rightarrow> bool" where
  "source_changes moved r = (live r \<and> Contains (pw_markdown r) ''[['' \<and> rewritten_source moved (pw_markdown r) \<noteq> pw_markdown r)"

lemma link_edits_of:
  assumes "store_ok d" and "r \<in> set (db_pages d)"
  shows "map_of (link_edits moved d) (pw_id r) =
      (if source_changes moved r then Some (rewritten_source moved (pw_markdown r)) else None)"
    and "distinct (map fst (link_edits moved d))"
proof -
  let ?rows = "filter (source_changes moved) (db_pages d)"
  have eq: "link_edits moved d = map (\<lambda>r. (pw_id r, rewritten_source moved (pw_markdown r))) ?rows"
    by (simp add: link_edits_def source_changes_def [abs_def])
  have dist: "distinct (map pw_id ?rows)" using assms(1) by (simp add: store_ok_def pages_ok_def distinct_map_filter)
  then show d: "distinct (map fst (link_edits moved d))" by (simp add: eq o_def)
  show "map_of (link_edits moved d) (pw_id r) =
      (if source_changes moved r then Some (rewritten_source moved (pw_markdown r)) else None)"
  proof (cases "source_changes moved r")
    case True
    then have "(pw_id r, rewritten_source moved (pw_markdown r)) \<in> set (link_edits moved d)"
      using assms(2) by (auto simp: eq)
    with d True show ?thesis by simp
  next
    case False
    have "x = r" if "x \<in> set (db_pages d)" "pw_id x = pw_id r" for x
      by (rule pages_row_unique(1) [OF assms(1) that(1) assms(2) that(2)])
    with False have "pw_id r \<notin> fst ` set (link_edits moved d)" by (auto simp: eq)
    with False show ?thesis by (simp add: map_of_eq_None_iff)
  qed
qed

section \<open>Two defects of the move\<close>

text \<open>
  An underscore in the moved path matches any character, so the move of a tree takes the pages
  of another tree along, to a path that repeats their old one; and a page that links to the old
  and to the new path makes the move fail, since both entries of the link index would coincide.
\<close>

definition page_at :: "int \<Rightarrow> string \<Rightarrow> page_row" where
  "page_at i slug = (new_page_row (sample_env 10) (sample_request [] slug ''x'') i)"

lemma wildcard_move_takes_other_tree:
  "map mp_new (loadMovedPages (empty_db\<lparr>db_pages := [page_at 1 ''a_b'', page_at 2 ''axb/c'']\<rparr>) ''a_b'' ''n'' True) =
     [''n'', ''naxb/c'']"
  by code_simp

lemma links_to_both_paths_block_move:
  "retargetMovedPageLinks [\<lparr>mp_id = 1, mp_old = ''a'', mp_new = ''b''\<rparr>] (empty_db\<lparr>db_links := [(7, ''a''), (7, ''b'')]\<rparr>) =
     Inl (InfrastructureError ''page_links_pkey'')"
  by code_simp

section \<open>Properties\<close>

lemma aliases_resolve:
  assumes "store_ok d" and "(a, i) \<in> set (db_aliases d)" and "r \<in> set (db_pages d)" and "pw_id r = i" and "live r"
  shows "(a, pw_slug r) \<in> set (PageAliases d)"
proof -
  have "row_with (\<lambda>r. pw_id r = i \<and> live r) (db_pages d) = Some r"
    using assms by (intro row_with_unique [where k = pw_id and x = i]) (auto simp: store_ok_def pages_ok_def)
  with assms(2) show ?thesis by (force simp: PageAliases_def)
qed

text \<open>Where the pages of a move end up.\<close>

lemma MovePage_relocates:
  assumes "db_ok d" and "MovePage e oldSlug newSlug opts u d = Inr d'"
    and "NormalizeMove oldSlug newSlug opts = Inr (old, new)" and "plain old" and "r \<in> set (db_pages d)"
  shows "\<exists>r' \<in> set (db_pages d'). pw_id r' = pw_id r \<and> pw_deleted_at r' = pw_deleted_at r \<and>
    (if live r \<and> (pw_slug r = old \<or> (mo_children opts \<and> below old (pw_slug r)))
     then pw_slug r' = new @ drop (length old) (pw_slug r) \<and> (pw_slug r, pw_slug r') \<in> set (PageAliases d')
     else pw_slug r' = pw_slug r)"
proof -
  from assms(2) have mv: "movePage e oldSlug newSlug opts u d = Inr d'" by (simp add: MovePage_def)
  from movePage_result [OF assms(1) mv] assms(3) obtain moved where
    moved: "moved = loadMovedPages d old new (mo_children opts)" and mo: "moves_ok moved" and ok': "db_ok d'"
    and keys: "map row_key (db_pages d') = map (\<lambda>r. row_key (moved_row e (u_id u) (rev moved) r)) (db_pages d)"
    and al: "\<And>m. m \<in> set moved \<Longrightarrow> (mp_old m, mp_id m) \<in> set (db_aliases d')"
    by (metis Inr_inject prod.inject)
  let ?in = "live r \<and> (pw_slug r = old \<or> (mo_children opts \<and> below old (pw_slug r)))"
  have tree: "in_moved_tree old (mo_children opts) x \<longleftrightarrow> live x \<and> (pw_slug x = old \<or> (mo_children opts \<and> below old (pw_slug x)))" for x
    by (simp add: in_moved_tree_def like_subtree [OF assms(4)])
  have "row_key (moved_row e (u_id u) (rev moved) r) \<in> set (map row_key (db_pages d'))"
    unfolding keys using assms(5) by simp
  then obtain r' where r': "r' \<in> set (db_pages d')" "row_key r' = row_key (moved_row e (u_id u) (rev moved) r)" by auto
  then have id: "pw_id r' = pw_id r" "pw_deleted_at r' = pw_deleted_at r"
    and slug: "pw_slug r' = pw_slug (moved_row e (u_id u) (rev moved) r)" by (simp_all add: row_key_def)
  show ?thesis
  proof (cases ?in)
    case True
    then have pre: "TrimPrefix (pw_slug r) old = drop (length old) (pw_slug r)"
      by (auto simp: TrimPrefix_def HasPrefix_def below_def prefix_def)
    define m where "m = \<lparr>mp_id = pw_id r, mp_old = pw_slug r, mp_new = new @ drop (length old) (pw_slug r)\<rparr>"
    have m: "m \<in> set moved"
      unfolding moved loadMovedPages_in m_def using True assms(5) tree pre by (intro bexI [of _ r]) simp_all
    have "row_with (\<lambda>k. mp_id k = pw_id r) (rev moved) = Some m"
      using mo m by (intro row_with_unique [where k = mp_id and x = "pw_id r"]) (auto simp: moves_ok_def m_def rev_map [symmetric])
    then have s: "pw_slug r' = new @ drop (length old) (pw_slug r)" by (simp add: slug moved_row_def m_def)
    have "(pw_slug r, pw_slug r') \<in> set (PageAliases d')"
      using al [OF m] r'(1) id True ok' by (intro aliases_resolve [where i = "pw_id r"]) (simp_all add: m_def db_ok_def live_def)
    with s True r'(1) id show ?thesis by auto
  next
    case False
    have "mp_id m \<noteq> pw_id r" if "m \<in> set moved" for m
    proof
      assume "mp_id m = pw_id r"
      with that obtain x where x: "x \<in> set (db_pages d)" "pw_id x = pw_id r" "in_moved_tree old (mo_children opts) x"
        unfolding moved loadMovedPages_in by auto
      then have "x = r" using pages_row_unique(1) [of d x r] assms(1,5) by (simp add: db_ok_def)
      with x(3) False tree show False by blast
    qed
    then have "row_with (\<lambda>k. mp_id k = pw_id r) (rev moved) = None" by (simp add: row_with_None)
    then have "pw_slug r' = pw_slug r" by (simp add: slug moved_row_def)
    with r'(1) id False show ?thesis by auto
  qed
qed

text \<open>C32: Moving a page to a new path moves exactly the page and, if asked, its descendants: each keeps its
  identifier and the rest of its path below the new one, and its old path becomes a redirect to
  the new one; every other page stays at its path. The old path is one without the wildcards of
  LIKE.\<close>

theorem move_relocates_tree:
  assumes "db_ok d" and "MovePage e oldSlug newSlug opts u d = Inr d'"
    and "NormalizeMove oldSlug newSlug opts = Inr (old, new)" and "plain old" and "r \<in> set (db_pages d)"
  shows "\<exists>r' \<in> set (db_pages d'). pw_id r' = pw_id r \<and> pw_deleted_at r' = pw_deleted_at r \<and>
    (if live r \<and> (pw_slug r = old \<or> (mo_children opts \<and> below old (pw_slug r)))
     then pw_slug r' = new @ drop (length old) (pw_slug r) \<and> (pw_slug r, pw_slug r') \<in> set (PageAliases d')
     else pw_slug r' = pw_slug r)"
  by (rule MovePage_relocates [OF assms])

theorem move_relocates_tree_witness:
  "\<exists>d'. MovePage (sample_env 20) ''a'' ''b'' \<lparr>mo_children = True, mo_update_links = True\<rparr> (account 1 UserRoleAdmin) sample_db = Inr d' \<and>
     (''a'', ''b'') \<in> set (PageAliases d')"
proof -
  let ?o = "\<lparr>mo_children = True, mo_update_links = True\<rparr>"
  let ?m = "MovePage (sample_env 20) ''a'' ''b'' ?o (account 1 UserRoleAdmin) sample_db"
  have c: "\<not> isl ?m" "NormalizeMove ''a'' ''b'' ?o = Inr (''a'', ''b'')" "plain ''a''"
    "map row_key (db_pages sample_db) = [(1, ''a'', None)]"
    by code_simp+
  then obtain d' where d': "?m = Inr d'" by (metis isl_def sum.exhaust)
  obtain r where r: "r \<in> set (db_pages sample_db)" "row_key r = (1, ''a'', None)"
    using c(4) by (cases "db_pages sample_db") auto
  from move_relocates_tree [OF sample_db_ok d' c(2,3) r(1)] r(2) d' show ?thesis
    by (auto simp: row_key_def live_def)
qed

text \<open>The rewriting of incoming links edits a page exactly if its source changes: then the page holds
  the rewritten source and has one revision more, and otherwise its text and its history stay.\<close>

lemma link_rewrite_one_revision:
  assumes "db_ok d" and "rewriteIncomingWikiLinks e moved user d = Inr d'" and "r \<in> set (db_pages d)"
  shows "\<exists>r' \<in> set (db_pages d'). pw_id r' = pw_id r \<and>
    pw_markdown r' = (if source_changes moved r then rewritten_source moved (pw_markdown r) else pw_markdown r) \<and>
    length (revisions_of d' (pw_id r)) = length (revisions_of d (pw_id r)) + (if source_changes moved r then 1 else 0)"
proof -
  have sok: "store_ok d" using assms(1) by (simp add: db_ok_def)
  note le = link_edits_of [OF sok assms(3), of moved]
  have loop: "forR (link_edits moved d) (write_link_edit e user) d = Inr d'"
    using assms(2) by (simp add: rewriteIncomingWikiLinks_def)
  note n = link_edit_loop [OF assms(1) le(2) loop, of "pw_id r"]
  have "pw_id r \<in> fst ` set (link_edits moved d) \<longleftrightarrow> source_changes moved r"
    using le(1) map_of_eq_None_iff [of "link_edits moved d" "pw_id r"] by (cases "source_changes moved r") simp_all
  moreover have "rewritten_row e user (link_edits moved d) r \<in> set (db_pages d')"
    unfolding conjunct1 [OF n] using assms(3) by simp
  moreover have "pw_id (rewritten_row e user (link_edits moved d) r) = pw_id r \<and>
     pw_markdown (rewritten_row e user (link_edits moved d) r) =
       (if source_changes moved r then rewritten_source moved (pw_markdown r) else pw_markdown r)"
    by (simp add: rewritten_row_def le(1))
  ultimately show ?thesis using conjunct2 [OF n] by auto
qed

definition linked_db :: db where
  "linked_db = state_of (store_SavePage (sample_env 11) (sample_request [] ''l'' ''[[a]]'') sample_db)"

lemma linked_db_eq [code]: "linked_db =
   \<lparr>db_pages = [\<lparr>pw_id = 1, pw_slug = ''a'', pw_title = ''T'', pw_language = [],
     pw_markdown = ''x'', pw_created_by = 1, pw_updated_by = 1, pw_created_at = 10, pw_updated_at = 10,
     pw_deleted_at = None, pw_deleted_by = 0, pw_view_count = 0, pw_status = PageStatusVerified, pw_owner = 0,
     pw_reviewed = None, pw_interval = 0, pw_target = [], pw_usage = None, pw_html = [], pw_contents = [],
     pw_fingerprint = [], pw_rendered_at = None\<rparr>, \<lparr>pw_id = 2, pw_slug = ''l'', pw_title = ''T'',
     pw_language = [], pw_markdown = ''[[a]]'', pw_created_by = 1, pw_updated_by = 1, pw_created_at = 11,
     pw_updated_at = 11, pw_deleted_at = None, pw_deleted_by = 0, pw_view_count = 0,
     pw_status = PageStatusVerified, pw_owner = 0, pw_reviewed = None, pw_interval = 0, pw_target = [],
     pw_usage = None, pw_html = [], pw_contents = [], pw_fingerprint = [], pw_rendered_at = None\<rparr>],
     db_aliases = [], db_revisions = [\<lparr>rw_id = 1, rw_page = 1, rw_number = 1, rw_markdown = ''x'',
     rw_by = 1, rw_created = 10, rw_message = ''m'', rw_snapshot = Some \<lparr>sn_slug = ''a'',
     sn_title = ''T'', sn_icon = [], sn_language = [], sn_tags = [''go''], sn_groups = [],
     sn_status = PageStatusVerified, sn_owner = 0, sn_interval = 0, sn_target = [], sn_properties = [(''k'',
     ''v'')], sn_reviewed = None\<rparr>, rw_changes = []\<rparr>, \<lparr>rw_id = 2, rw_page = 2,
     rw_number = 1, rw_markdown = ''[[a]]'', rw_by = 1, rw_created = 11, rw_message = ''m'',
     rw_snapshot = Some \<lparr>sn_slug = ''l'', sn_title = ''T'', sn_icon = [], sn_language = [],
     sn_tags = [''go''], sn_groups = [], sn_status = PageStatusVerified, sn_owner = 0, sn_interval = 0,
     sn_target = [], sn_properties = [(''k'', ''v'')], sn_reviewed = None\<rparr>, rw_changes = []\<rparr>],
     db_reviews = [], db_icons = [], db_tags = [(1, ''go'')], db_page_tags = [(1, 1), (2, 1)],
     db_page_groups = [], db_properties = [(1, ''k'', ''v''), (2, ''k'', ''v'')], db_links = [],
     db_reviewers = [], db_review_comments = [], db_comments = [], db_audit = [\<lparr>ae_user = 1,
     ae_action = ''page.created'', ae_key = ''a'', ae_detail = [CHR ''r'', CHR ''1'', CHR '' '', CHR 0xC2,
     CHR 0xB7, CHR '' '', CHR ''P'', CHR ''a'', CHR ''g'', CHR ''e'', CHR '' '', CHR ''c'', CHR ''r'',
     CHR ''e'', CHR ''a'', CHR ''t'', CHR ''e'', CHR ''d''], ae_revision = Some 1\<rparr>, \<lparr>ae_user = 1,
     ae_action = ''page.created'', ae_key = ''l'', ae_detail = [CHR ''r'', CHR ''1'', CHR '' '', CHR 0xC2,
     CHR 0xB7, CHR '' '', CHR ''P'', CHR ''a'', CHR ''g'', CHR ''e'', CHR '' '', CHR ''c'', CHR ''r'',
     CHR ''e'', CHR ''a'', CHR ''t'', CHR ''e'', CHR ''d''], ae_revision = Some 1\<rparr>], db_groups = [],
     db_members = [], db_users = [], db_discussions = True, db_next_page = 3, db_next_revision = 3,
     db_next_tag = 2, db_next_review = 1, db_next_review_comment = 1, db_next_comment = 1\<rparr>"
  by code_simp

lemma linked_db_ok: "db_ok linked_db"
proof -
  have "db_audit linked_db \<noteq> []" by (simp add: linked_db_eq)
  then obtain p
    where "store_SavePage (sample_env 11) (sample_request [] ''l'' ''[[a]]'') sample_db = Inr (p, linked_db)"
    unfolding linked_db_def using state_of_reached by blast
  then show ?thesis by (rule save_keeps_consistency_lemma [OF sample_db_ok])
qed

end
