(* ===== verification/RecycleBin.thy ===== *)
theory RecycleBin
  imports PageMove
begin

text \<open>
  The recycle bin (\<open>postgres/page_recycle_bin.go\<close>), the bulk operations on pages
  (\<open>postgres/page_bulk.go\<close>) and the tag table (\<open>postgres/tags.go\<close>). Removing a page for good
  removes, through the foreign keys, every row that belongs to it.
\<close>

section \<open>The bin\<close>

definition DeletePage :: "env \<Rightarrow> string \<Rightarrow> int \<Rightarrow> db \<Rightarrow> error + db" where
  "DeletePage e slug user d =
     (if \<not> list_ex (\<lambda>r. pw_slug r = slug \<and> live r) (db_pages d) then Inl ErrNotFound
      else Inr (insertPageActionAudit user ''page.deleted'' slug ''Moved page to recycle bin''
        (d\<lparr>db_pages := update_rows (\<lambda>r. pw_slug r = slug \<and> live r)
             (\<lambda>r. r\<lparr>pw_deleted_at := Some (en_now e), pw_deleted_by := user\<rparr>) (db_pages d)\<rparr>)))"

definition newest_deletion :: "page_row \<Rightarrow> page_row \<Rightarrow> int" where
  "newest_deletion l r =
     cmp_then (cmp_compare (case pw_deleted_at r of None \<Rightarrow> 0 | Some t \<Rightarrow> t) (case pw_deleted_at l of None \<Rightarrow> 0 | Some t \<Rightarrow> t))
       (cmp_compare (pw_id r) (pw_id l))"

definition deleted_page :: "db \<Rightarrow> page_row \<Rightarrow> page \<times> time option" where
  "deleted_page d r =
     (zero_page\<lparr>pg_id := pw_id r, pg_slug := pw_slug r, pg_title := pw_title r, pg_icon := page_icon d (pw_slug r),
        pg_markdown := pw_markdown r, pg_created_by := pw_created_by r, pg_updated_by := pw_updated_by r,
        pg_created_at := pw_created_at r, pg_updated_at := pw_updated_at r, pg_view_count := pw_view_count r,
        pg_tags := page_tag_names d (pw_id r)\<rparr>, pw_deleted_at r)"

definition DeletedPages :: "db \<Rightarrow> (page \<times> time option) list" where
  "DeletedPages d = map (deleted_page d) (sort_func newest_deletion (filter (\<lambda>r. \<not> live r) (db_pages d)))"

definition RestorePage :: "string \<Rightarrow> db \<Rightarrow> error + db" where
  "RestorePage slug d =
     (if \<not> list_ex (\<lambda>r. pw_slug r = slug \<and> \<not> live r) (db_pages d) then Inl ErrNotFound
      else Inr (d\<lparr>db_pages := update_rows (\<lambda>r. pw_slug r = slug \<and> \<not> live r)
             (\<lambda>r. r\<lparr>pw_deleted_at := None, pw_deleted_by := 0\<rparr>) (db_pages d)\<rparr>))"

text \<open>\<open>ON DELETE CASCADE\<close>: the rows that refer to the removed pages, and those that refer to their reviews.\<close>

definition cascade_pages :: "(int \<Rightarrow> bool) \<Rightarrow> db \<Rightarrow> db" where
  "cascade_pages gone d =
     (let review = (\<lambda>v. list_ex (\<lambda>w. vw_id w = v \<and> gone (vw_page w)) (db_reviews d)) in
      d\<lparr>db_pages := delete_rows (\<lambda>r. gone (pw_id r)) (db_pages d),
        db_aliases := delete_rows (\<lambda>a. gone (snd a)) (db_aliases d),
        db_revisions := delete_rows (\<lambda>r. gone (rw_page r)) (db_revisions d),
        db_reviews := delete_rows (\<lambda>v. gone (vw_page v)) (db_reviews d),
        db_reviewers := delete_rows (\<lambda>x. review (fst x)) (db_reviewers d),
        db_review_comments := delete_rows (\<lambda>c. review (rc_request c)) (db_review_comments d),
        db_comments := delete_rows (\<lambda>c. gone (pc_page c)) (db_comments d),
        db_page_tags := delete_rows (\<lambda>x. gone (fst x)) (db_page_tags d),
        db_page_groups := delete_rows (\<lambda>x. gone (fst x)) (db_page_groups d),
        db_properties := delete_rows (\<lambda>x. gone (fst x)) (db_properties d),
        db_links := delete_rows (\<lambda>x. gone (fst x)) (db_links d)\<rparr>)"

definition remove_unused_icons :: "db \<Rightarrow> db" where
  "remove_unused_icons d =
     d\<lparr>db_icons := delete_rows (\<lambda>i. \<not> list_ex (\<lambda>r. pw_slug r = fst i \<or> like (fst i @ ''/%'') (pw_slug r)) (db_pages d))
          (db_icons d)\<rparr>"

definition PermanentlyDeletePage :: "string \<Rightarrow> db \<Rightarrow> error + db" where
  "PermanentlyDeletePage slug d =
     (case row_with (\<lambda>r. pw_slug r = slug \<and> \<not> live r) (db_pages d) of
        None \<Rightarrow> Inl ErrNotFound
      | Some r \<Rightarrow> Inr (remove_unused_icons (cascade_pages (\<lambda>i. i = pw_id r) d)))"

section \<open>Bulk operations\<close>

definition selected :: "string list \<Rightarrow> page_row \<Rightarrow> bool" where
  "selected slugs r = (pw_slug r \<in> set slugs \<and> live r)"

definition page_inventory_row :: "page_row \<Rightarrow> page" where
  "page_inventory_row r =
     zero_page\<lparr>pg_id := pw_id r, pg_slug := pw_slug r, pg_title := pw_title r, pg_status := pw_status r,
       pg_owner_group := pw_owner r, pg_last_reviewed := pw_reviewed r, pg_review_interval := pw_interval r,
       pg_updated_at := pw_updated_at r\<rparr>"

definition PageInventory :: "db \<Rightarrow> page list" where
  "PageInventory d =
     map page_inventory_row (sort_func (\<lambda>l r. cmp_compare (pw_slug l) (pw_slug r)) (filter live (db_pages d)))"

definition BulkSetPageStatus :: "env \<Rightarrow> string list \<Rightarrow> string \<Rightarrow> db \<Rightarrow> error + db" where
  "BulkSetPageStatus e slugs status d =
     (if \<not> ValidPageStatus status then Inl (NewValidationError ''status'' ''Choose a valid page status.'')
      else Inr (d\<lparr>db_pages := update_rows (selected slugs)
             (\<lambda>r. r\<lparr>pw_status := status, pw_updated_at := en_now e\<rparr>) (db_pages d)\<rparr>))"

definition BulkAddPageTag :: "env \<Rightarrow> string list \<Rightarrow> string \<Rightarrow> db \<Rightarrow> error + db" where
  "BulkAddPageTag e slugs tag d =
     (let tag = en_lower e (TrimSpace tag) in
      if tag = [] then Inl (NewValidationError ''tag'' ''A tag is required.'')
      else case upsert_tag tag d of (tid, d1) \<Rightarrow>
        Inr (d1\<lparr>db_page_tags := fold (\<lambda>r. insert_missing (pw_id r, tid)) (filter (selected slugs) (db_pages d1))
                                  (db_page_tags d1)\<rparr>))"

definition group_missing :: error where
  "group_missing = NewValidationError ''group_id'' ''One or more selected groups no longer exist.''"

definition BulkAssignPageGroup :: "string list \<Rightarrow> int \<Rightarrow> db \<Rightarrow> error + db" where
  "BulkAssignPageGroup slugs gid d =
     (if gid \<le> 0 then Inl (NewValidationError ''group_id'' ''Choose a valid group.'')
      else let rows = filter (selected slugs) (db_pages d) in
        if rows \<noteq> [] \<and> \<not> pageGroupExists d gid then Inl group_missing
        else Inr (d\<lparr>db_page_groups := fold (\<lambda>r. insert_missing (pw_id r, gid)) rows (db_page_groups d)\<rparr>))"

definition BulkDeletePages :: "env \<Rightarrow> string list \<Rightarrow> int \<Rightarrow> db \<Rightarrow> error + db" where
  "BulkDeletePages e slugs user d =
     Inr (d\<lparr>db_pages := update_rows (selected slugs)
            (\<lambda>r. r\<lparr>pw_deleted_at := Some (en_now e), pw_deleted_by := user\<rparr>) (db_pages d)\<rparr>)"

section \<open>Tags\<close>

text \<open>The rows of the tag list: identifier, name and the number of live pages.\<close>

definition tag_info :: "db \<Rightarrow> int \<times> string \<Rightarrow> int \<times> string \<times> int" where
  "tag_info d t = (fst t, snd t, int (length (filter (\<lambda>pt. snd pt = fst t \<and>
     list_ex (\<lambda>r. pw_id r = fst pt \<and> live r) (db_pages d)) (db_page_tags d))))"

definition TagInfos :: "env \<Rightarrow> db \<Rightarrow> (int \<times> string \<times> int) list" where
  "TagInfos e d = map (tag_info d)
     (sort_func (\<lambda>l r. cmp_then (cmp_compare (en_sql_lower e (snd l)) (en_sql_lower e (snd r)))
                        (cmp_compare (fst l) (fst r))) (db_tags d))"

definition DeleteTag :: "int \<Rightarrow> db \<Rightarrow> error + db" where
  "DeleteTag tid d =
     (if \<not> list_ex (\<lambda>t. fst t = tid) (db_tags d) then Inl ErrNotFound
      else Inr (d\<lparr>db_tags := delete_rows (\<lambda>t. fst t = tid) (db_tags d),
                  db_page_tags := delete_rows (\<lambda>pt. snd pt = tid) (db_page_tags d)\<rparr>))"

section \<open>Consistency\<close>

lemma core_upsert_tag: "upsert_tag tag d = (tid, d1) \<Longrightarrow> core d1 = core d"
  by (auto simp: upsert_tag_def split: option.splits)

lemma db_ok_audit [simp]: "db_ok (insertPageActionAudit a b c x d) = db_ok d"
  by (rule db_ok_core) (simp add: insertPageActionAudit_def)

lemma DeletePage_keeps_ok: "db_ok d \<Longrightarrow> DeletePage e slug user d = Inr d' \<Longrightarrow> db_ok d'"
  by (auto simp: DeletePage_def split: if_splits intro!: db_ok_update_page)

lemma RestorePage_keeps_ok: "db_ok d \<Longrightarrow> RestorePage slug d = Inr d' \<Longrightarrow> db_ok d'"
  by (auto simp: RestorePage_def split: if_splits intro!: db_ok_update_page)

lemma BulkSetPageStatus_keeps_ok: "db_ok d \<Longrightarrow> BulkSetPageStatus e slugs st d = Inr d' \<Longrightarrow> db_ok d'"
  by (auto simp: BulkSetPageStatus_def split: if_splits intro!: db_ok_update_page)

lemma BulkDeletePages_keeps_ok: "db_ok d \<Longrightarrow> BulkDeletePages e slugs user d = Inr d' \<Longrightarrow> db_ok d'"
  by (auto simp: BulkDeletePages_def intro!: db_ok_update_page)

lemma BulkAddPageTag_keeps_ok: "db_ok d \<Longrightarrow> BulkAddPageTag e slugs tag d = Inr d' \<Longrightarrow> db_ok d'"
  by (auto simp: BulkAddPageTag_def Let_def dest!: core_upsert_tag split: if_splits prod.splits
      intro!: iffD2 [OF db_ok_core, of _ d])

lemma BulkAssignPageGroup_keeps_ok: "db_ok d \<Longrightarrow> BulkAssignPageGroup slugs gid d = Inr d' \<Longrightarrow> db_ok d'"
  by (auto simp: BulkAssignPageGroup_def Let_def split: if_splits intro: iffD2 [OF db_ok_core])

lemma DeleteTag_keeps_ok: "db_ok d \<Longrightarrow> DeleteTag tid d = Inr d' \<Longrightarrow> db_ok d'"
  by (auto simp: DeleteTag_def split: if_splits intro: iffD2 [OF db_ok_core])

text \<open>Removing pages with all that belongs to them.\<close>

lemma cascade_fields:
  "db_pages (cascade_pages gone d) = delete_rows (\<lambda>r. gone (pw_id r)) (db_pages d)"
  "db_aliases (cascade_pages gone d) = delete_rows (\<lambda>a. gone (snd a)) (db_aliases d)"
  "db_revisions (cascade_pages gone d) = delete_rows (\<lambda>r. gone (rw_page r)) (db_revisions d)"
  "db_reviews (cascade_pages gone d) = delete_rows (\<lambda>v. gone (vw_page v)) (db_reviews d)"
  "db_next_page (cascade_pages gone d) = db_next_page d" "db_next_review (cascade_pages gone d) = db_next_review d"
  by (simp_all add: cascade_pages_def Let_def)

lemma cascade_revisions: "revisions_of (cascade_pages gone d) p = (if gone p then [] else revisions_of d p)"
  by (auto simp: revisions_of_def cascade_fields delete_rows_def filter_empty_conv intro!: filter_cong)

lemma db_ok_cascade:
  assumes "db_ok d"
  shows "db_ok (cascade_pages gone d)"
proof -
  let ?d = "cascade_pages gone d"
  have ids: "page_ids ?d = {i \<in> page_ids d. \<not> gone i}"
    by (auto simp: page_ids_def cascade_fields table_simps)
  have slugs: "page_slugs ?d \<subseteq> page_slugs d"
    by (auto simp: page_slugs_def cascade_fields table_simps)
  have ok: "pages_ok d" "aliases_ok d" "revisions_ok d" "reviews_ok d" using assms by (simp_all add: db_ok_def store_ok_def)
  have "pages_ok ?d"
    using ok(1) by (auto simp: pages_ok_def cascade_fields table_simps intro: distinct_map_delete_rows)
  moreover have "aliases_ok ?d"
    unfolding aliases_ok_def
  proof (intro conjI ballI)
    show "distinct (map fst (db_aliases ?d))"
      using ok(2) by (simp add: aliases_ok_def cascade_fields distinct_map_delete_rows)
    fix a assume "a \<in> set (db_aliases ?d)"
    then have "a \<in> set (db_aliases d)" "\<not> gone (snd a)" by (simp_all add: cascade_fields table_simps)
    then show "snd a \<in> page_ids ?d" "fst a \<notin> page_slugs ?d"
      using ok(2) slugs by (auto simp: aliases_ok_def ids)
  qed
  moreover have "revisions_ok ?d"
    using ok(3) by (auto simp: revisions_ok_def cascade_revisions ids cascade_fields table_simps)
  moreover have "reviews_ok ?d"
  proof -
    have "distinct (map vw_page (filter pending (db_reviews ?d)))"
    proof -
      have "filter pending (db_reviews ?d) = filter (\<lambda>v. \<not> gone (vw_page v)) (filter pending (db_reviews d))"
        by (simp add: cascade_fields delete_rows_def conj_commute)
      then show ?thesis using ok(4) by (simp only: reviews_ok_def distinct_map_filter)
    qed
    moreover have "distinct (map vw_id (db_reviews ?d))"
      using ok(4) by (auto simp: reviews_ok_def cascade_fields intro: distinct_map_delete_rows)
    ultimately show ?thesis
      using ok(4) by (auto simp: reviews_ok_def cascade_fields ids cascade_revisions table_simps)
  qed
  moreover have "head_ok ?d r" if "r \<in> set (db_pages ?d)" for r
    using assms that by (auto simp: db_ok_def head_ok_def cascade_revisions cascade_fields table_simps)
  ultimately show ?thesis by (simp add: db_ok_def store_ok_def)
qed

lemma PermanentlyDeletePage_Inr:
  assumes "PermanentlyDeletePage slug d = Inr d'"
  obtains r where "r \<in> set (db_pages d)" and "pw_slug r = slug" and "\<not> live r"
    and "d' = remove_unused_icons (cascade_pages (\<lambda>i. i = pw_id r) d)"
proof (cases "row_with (\<lambda>r. pw_slug r = slug \<and> \<not> live r) (db_pages d)")
  case (Some r)
  then have "d' = remove_unused_icons (cascade_pages (\<lambda>i. i = pw_id r) d)"
    using assms by (simp add: PermanentlyDeletePage_def)
  with row_with_Some [OF Some] show ?thesis by (intro that [of r]) simp_all
qed (use assms in \<open>simp add: PermanentlyDeletePage_def\<close>)

lemma PermanentlyDeletePage_keeps_ok:
  assumes "db_ok d" and "PermanentlyDeletePage slug d = Inr d'"
  shows "db_ok d'"
proof -
  from PermanentlyDeletePage_Inr [OF assms(2)] obtain r
    where "d' = remove_unused_icons (cascade_pages (\<lambda>i. i = pw_id (r :: page_row)) d)" .
  then show ?thesis
    using db_ok_cascade [OF assms(1)] db_ok_core [of d' "cascade_pages (\<lambda>i. i = pw_id r) d"]
    by (simp add: remove_unused_icons_def)
qed

lemma row_key_update_in:
  "(\<And>r. r \<in> set rows \<Longrightarrow> P r \<Longrightarrow> row_key (f r) = row_key r) \<Longrightarrow> map row_key (update_rows P f rows) = map row_key rows"
  by (simp add: update_rows_def)

section \<open>Properties\<close>

text \<open>Deleting a page hides it and restoring it brings it back as it was: in between, reading its path
  finds nothing; afterwards reading it gives the same page, and nothing else has changed.\<close>

lemma delete_restore_roundtrip:
  assumes "db_ok d" and "GetPage d slug = Inr p" and "DeletePage e slug user d = Inr d1"
  shows "GetPage d1 slug = Inl ErrNotFound \<and>
    (\<exists>d2. RestorePage slug d1 = Inr d2 \<and> GetPage d2 slug = Inr p \<and>
       map row_key (db_pages d2) = map row_key (db_pages d) \<and> db_aliases d2 = db_aliases d \<and>
       db_revisions d2 = db_revisions d \<and> db_reviews d2 = db_reviews d \<and> meta d2 = meta d)"
proof -
  let ?del = "\<lambda>r :: page_row. r\<lparr>pw_deleted_at := Some (en_now e), pw_deleted_by := user\<rparr>"
  let ?res = "\<lambda>r :: page_row. r\<lparr>pw_deleted_at := None, pw_deleted_by := 0\<rparr>"
  have po: "pages_ok d" using assms(1) by (simp add: db_ok_def store_ok_def)
  from assms(2) obtain r where r: "live_row d slug = Some r" "p = complete_page d r" by (auto simp: GetPage_Inr)
  note lr = live_row_Some [OF r(1)]
  have one: "x = r" if "x \<in> set (db_pages d)" "pw_slug x = slug" for x
    using distinct_map_inj [of pw_slug "db_pages d" x r] po lr that by (simp add: pages_ok_def)
  have d1: "db_pages d1 = update_rows (\<lambda>r. pw_slug r = slug \<and> live r) ?del (db_pages d)"
    and f1: "db_aliases d1 = db_aliases d" "db_revisions d1 = db_revisions d" "db_reviews d1 = db_reviews d"
      "meta d1 = meta d" "db_icons d1 = db_icons d"
    using assms(3) by (auto simp: DeletePage_def insertPageActionAudit_def add_audit_def meta_def split: if_splits)
  have gone: "\<not> (pw_slug x = slug \<and> live x)" if "x \<in> set (db_pages d1)" for x
  proof -
    from that obtain y where "x = (if pw_slug y = slug \<and> live y then ?del y else y)"
      unfolding d1 set_update_rows by (elim imageE)
    then show ?thesis by (cases "pw_slug y = slug \<and> live y") (simp_all add: live_def)
  qed
  then have "live_row d1 slug = None" by (auto simp: live_row_def row_with_None)
  then have first: "GetPage d1 slug = Inl ErrNotFound" by (simp add: GetPage_def)
  have ex: "list_ex (\<lambda>r. pw_slug r = slug \<and> \<not> live r) (db_pages d1)"
  proof -
    have "?del r \<in> set (db_pages d1)" using lr by (auto simp: d1 table_simps)
    then show ?thesis unfolding list_ex_iff using lr by (intro bexI [of _ "?del r"]) (simp_all add: live_def)
  qed
  define d2 where "d2 = d1\<lparr>db_pages := update_rows (\<lambda>r. pw_slug r = slug \<and> \<not> live r) ?res (db_pages d1)\<rparr>"
  have pages: "db_pages d2 = update_rows (\<lambda>r. pw_slug r = slug) ?res (db_pages d)"
  proof -
    have "(if pw_slug y = slug \<and> \<not> live y then ?res y else y) = (if pw_slug x = slug then ?res x else x)"
      if x: "x \<in> set (db_pages d)" and y: "y = (if pw_slug x = slug \<and> live x then ?del x else x)" for x y
    proof (cases "pw_slug x = slug")
      case True
      then have "live x" using one [OF x] lr by metis
      then show ?thesis using True y by (simp add: live_def)
    qed (simp add: y)
    then show ?thesis unfolding d2_def d1 update_rows_def by simp
  qed
  have po2: "pages_ok d2"
  proof -
    have "db_next_page d2 = db_next_page d"
      using assms(3) by (auto simp: d2_def DeletePage_def insertPageActionAudit_def add_audit_def split: if_splits)
    moreover have "map pw_slug (db_pages d2) = map pw_slug (db_pages d)" "map pw_id (db_pages d2) = map pw_id (db_pages d)"
      unfolding pages by (rule map_update_rows_same, simp)+
    moreover from this(2) have "\<forall>r \<in> set (db_pages d2). 0 < pw_id r \<and> pw_id r < db_next_page d"
      using po unfolding pages pages_ok_def by (auto simp: table_simps)
    ultimately show ?thesis using po by (simp add: pages_ok_def)
  qed
  have "?res r \<in> set (db_pages d2)" using lr by (auto simp: pages table_simps)
  then have "live_row d2 slug = Some (?res r)" using lr by (subst live_row_eq [OF po2]) (simp add: live_def)
  moreover have "complete_page d2 = complete_page d"
    by (rule complete_page_cong) (use f1 in \<open>simp_all add: d2_def meta_def\<close>)
  ultimately have "GetPage d2 slug = Inr p" using r(2) by (simp add: GetPage_def complete_page_def)
  moreover have "map row_key (db_pages d2) = map row_key (db_pages d)"
    unfolding pages
  proof (rule row_key_update_in)
    fix x assume "x \<in> set (db_pages d)" "pw_slug x = slug"
    then have "live x" using one lr by metis
    then show "row_key (?res x) = row_key x" by (simp add: row_key_def live_def)
  qed
  moreover have "RestorePage slug d1 = Inr d2" using ex by (simp add: RestorePage_def d2_def)
  moreover have "db_aliases d2 = db_aliases d" "db_revisions d2 = db_revisions d" "db_reviews d2 = db_reviews d" "meta d2 = meta d"
    using f1 by (simp_all add: d2_def meta_def)
  ultimately show ?thesis using first by blast
qed

text \<open>A page is removed for good only from the bin, and then completely: the request fails exactly if no
  deleted page has the path; if it succeeds, the path is free, no revision, review, alias, tag,
  group, property, link or comment of the page is left, and every other page keeps its row.\<close>

lemma permanent_delete_complete:
  assumes "db_ok d"
  shows "(PermanentlyDeletePage slug d = Inl ErrNotFound \<longleftrightarrow> \<not> (\<exists>r \<in> set (db_pages d). pw_slug r = slug \<and> \<not> live r)) \<and>
    (\<forall>d'. PermanentlyDeletePage slug d = Inr d' \<longrightarrow> slug \<notin> page_slugs d' \<and>
       (\<exists>r \<in> set (db_pages d). pw_slug r = slug \<and> \<not> live r \<and> set (db_pages d') = set (db_pages d) - {r} \<and>
          revisions_of d' (pw_id r) = [] \<and> pw_id r \<notin> vw_page ` set (db_reviews d') \<and>
          pw_id r \<notin> snd ` set (db_aliases d') \<and> pw_id r \<notin> fst ` set (db_page_tags d') \<and>
          pw_id r \<notin> fst ` set (db_page_groups d') \<and> pw_id r \<notin> fst ` set (db_properties d') \<and>
          pw_id r \<notin> fst ` set (db_links d') \<and> pw_id r \<notin> pc_page ` set (db_comments d')))"
proof (intro conjI allI impI)
  show "PermanentlyDeletePage slug d = Inl ErrNotFound \<longleftrightarrow> \<not> (\<exists>r \<in> set (db_pages d). pw_slug r = slug \<and> \<not> live r)"
    unfolding PermanentlyDeletePage_def by (auto simp: row_with_None split: option.splits dest: row_with_Some)
  fix d' assume "PermanentlyDeletePage slug d = Inr d'"
  from PermanentlyDeletePage_Inr [OF this] obtain r where r: "r \<in> set (db_pages d)" "pw_slug r = slug" "\<not> live r"
    and d': "d' = remove_unused_icons (cascade_pages (\<lambda>i. i = pw_id r) d)" .
  have sok: "store_ok d" using assms by (simp add: db_ok_def)
  have "pw_id x = pw_id r \<longleftrightarrow> x = r" if "x \<in> set (db_pages d)" for x
    using pages_row_unique(1) [OF sok that r(1)] by auto
  then have pages: "set (db_pages d') = set (db_pages d) - {r}"
    by (auto simp: d' remove_unused_icons_def cascade_fields table_simps)
  then show "slug \<notin> page_slugs d'"
  proof -
    have "x = r" if "x \<in> set (db_pages d)" "pw_slug x = slug" for x
      using pages_row_unique(2) [OF sok that(1) r(1)] that(2) r(2) by simp
    with pages show ?thesis unfolding page_slugs_def by blast
  qed
  show "\<exists>r \<in> set (db_pages d). pw_slug r = slug \<and> \<not> live r \<and> set (db_pages d') = set (db_pages d) - {r} \<and>
          revisions_of d' (pw_id r) = [] \<and> pw_id r \<notin> vw_page ` set (db_reviews d') \<and>
          pw_id r \<notin> snd ` set (db_aliases d') \<and> pw_id r \<notin> fst ` set (db_page_tags d') \<and>
          pw_id r \<notin> fst ` set (db_page_groups d') \<and> pw_id r \<notin> fst ` set (db_properties d') \<and>
          pw_id r \<notin> fst ` set (db_links d') \<and> pw_id r \<notin> pc_page ` set (db_comments d')"
  proof (intro bexI [of _ r] conjI r pages)
    show "revisions_of d' (pw_id r) = []"
      by (simp add: d' remove_unused_icons_def revisions_of_def cascade_fields delete_rows_def)
    show "pw_id r \<notin> vw_page ` set (db_reviews d')" "pw_id r \<notin> snd ` set (db_aliases d')"
      by (auto simp: d' remove_unused_icons_def cascade_fields set_delete_rows)
    show "pw_id r \<notin> fst ` set (db_page_tags d')" "pw_id r \<notin> fst ` set (db_page_groups d')"
      "pw_id r \<notin> fst ` set (db_properties d')" "pw_id r \<notin> fst ` set (db_links d')"
      "pw_id r \<notin> pc_page ` set (db_comments d')"
      by (auto simp: d' remove_unused_icons_def cascade_pages_def Let_def set_delete_rows)
  qed
qed

end
