(* ===== verification/Reviews.thy ===== *)
theory Reviews
  imports RecycleBin
begin

text \<open>
  The approval workflow of pages: the transactions of \<open>postgres/page_approvals.go\<close> and the use
  cases of \<open>application/pages/page_reviews.go\<close> with the best-effort side effects of
  \<open>page_side_effects.go\<close>. A use case that fails leaves the state alone and emits nothing; one
  that succeeds returns its result, the new state and the effects it emits after the commit.
\<close>

section \<open>Side effects\<close>

datatype effect =
    Audit int string string string string
  | Event int string string string string
  | Mentions int string string string
  | Notify int int string string string string
  | ContentChanged page string string user
  | InvalidateIcons

record page_effects =
  fx_repository :: bool
  fx_notifications :: bool
  fx_watchers :: "int \<Rightarrow> string \<Rightarrow> error + int list"

abbreviation "NotificationKindReview \<equiv> ''review''"
abbreviation "NotificationKindWatch \<equiv> ''watch''"

definition sendEvent :: "page_effects \<Rightarrow> int \<Rightarrow> string \<Rightarrow> string \<Rightarrow> string \<Rightarrow> string \<Rightarrow> effect list" where
  "sendEvent fx actor action type key detail = [Event actor action type key detail]"

definition recordAudit :: "page_effects \<Rightarrow> int \<Rightarrow> string \<Rightarrow> string \<Rightarrow> string \<Rightarrow> string \<Rightarrow> effect list" where
  "recordAudit fx actor action type key detail =
     (if \<not> fx_repository fx then []
      else Audit actor action type key detail # sendEvent fx actor action type key detail)"

definition notifyMentions :: "page_effects \<Rightarrow> int \<Rightarrow> string \<Rightarrow> string \<Rightarrow> string \<Rightarrow> effect list" where
  "notifyMentions fx actor body title destination =
     (if \<not> fx_notifications fx then [] else [Mentions actor body title destination])"

definition notifyUser :: "page_effects \<Rightarrow> int \<Rightarrow> int \<Rightarrow> string \<Rightarrow> string \<Rightarrow> string \<Rightarrow> string \<Rightarrow> effect list" where
  "notifyUser fx recipient actor kind title body destination =
     (if \<not> fx_notifications fx \<or> recipient \<le> 0 then [] else [Notify recipient actor kind title body destination])"

definition notifyWatchers :: "page_effects \<Rightarrow> int \<Rightarrow> string \<Rightarrow> string \<Rightarrow> string \<Rightarrow> string \<Rightarrow> effect list" where
  "notifyWatchers fx actor slug title body destination =
     (if \<not> fx_repository fx \<or> \<not> fx_notifications fx then []
      else case fx_watchers fx actor slug of
        Inl _ \<Rightarrow> []
      | Inr ids \<Rightarrow> concat (map (\<lambda>u. notifyUser fx u actor NotificationKindWatch title body destination) ids))"

section \<open>Reading review requests\<close>

definition zero_review_request :: review_request where
  "zero_review_request = \<lparr>rr_id = 0, rr_page_slug = [], rr_revision = 0, rr_requested_by = 0, rr_reviewer_group = 0,
     rr_reviewers = [], rr_reviewed_by = 0, rr_status = [], rr_note = [], rr_decision_note = [],
     rr_previous_status = [], rr_created_at = 0, rr_updated_at = 0\<rparr>"

text \<open>The assigned people in the order of their names.\<close>

definition pageReviewRequestReviewers :: "env \<Rightarrow> db \<Rightarrow> int \<Rightarrow> user list" where
  "pageReviewRequestReviewers e d request =
     sort_func (\<lambda>l r. cmp_then (cmp_compare (en_sql_lower e (u_display l)) (en_sql_lower e (u_display r)))
         (cmp_then (cmp_compare (en_sql_lower e (u_username l)) (en_sql_lower e (u_username r)))
                   (cmp_compare (u_id l) (u_id r))))
       (filter (\<lambda>u. (request, u_id u) \<in> set (db_reviewers d)) (db_users d))"

definition scanPageReviewRequest :: "env \<Rightarrow> db \<Rightarrow> page_row \<Rightarrow> review_row \<Rightarrow> review_request" where
  "scanPageReviewRequest e d p v =
     \<lparr>rr_id = vw_id v, rr_page_slug = pw_slug p, rr_revision = vw_revision v, rr_requested_by = vw_requested_by v,
      rr_reviewer_group = vw_group v, rr_reviewers = map u_id (pageReviewRequestReviewers e d (vw_id v)),
      rr_reviewed_by = vw_reviewed_by v, rr_status = vw_status v, rr_note = vw_note v,
      rr_decision_note = vw_decision_note v, rr_previous_status = vw_previous v, rr_created_at = vw_created v,
      rr_updated_at = vw_updated v\<rparr>"

definition newer_review :: "review_row \<Rightarrow> review_row \<Rightarrow> int" where
  "newer_review l r = cmp_then (cmp_compare (vw_created r) (vw_created l)) (cmp_compare (vw_id r) (vw_id l))"

definition newest_review :: "db \<Rightarrow> int \<Rightarrow> review_row option" where
  "newest_review d pid =
     (case sort_func newer_review (filter (\<lambda>v. vw_page v = pid) (db_reviews d)) of [] \<Rightarrow> None | v # _ \<Rightarrow> Some v)"

definition active_status :: "string \<Rightarrow> bool" where
  "active_status s = (s = PageReviewStatusPending \<or> s = PageReviewStatusChangesRequested)"

definition PageReviewRequest :: "env \<Rightarrow> db \<Rightarrow> string \<Rightarrow> review_request" where
  "PageReviewRequest e d slug =
     (case live_row d slug of
        None \<Rightarrow> zero_review_request
      | Some p \<Rightarrow> (case newest_review d (pw_id p) of
          None \<Rightarrow> zero_review_request
        | Some v \<Rightarrow> if active_status (vw_status v) then scanPageReviewRequest e d p v else zero_review_request))"

definition review_of_page :: "db \<Rightarrow> int \<Rightarrow> string \<Rightarrow> (page_row \<times> review_row) option" where
  "review_of_page d i slug =
     (case live_row d slug of
        None \<Rightarrow> None
      | Some p \<Rightarrow> map_option (\<lambda>v. (p, v)) (row_with (\<lambda>v. vw_id v = i \<and> vw_page v = pw_id p) (db_reviews d)))"

definition PageReviewRequestByID :: "env \<Rightarrow> db \<Rightarrow> int \<Rightarrow> string \<Rightarrow> error + review_request" where
  "PageReviewRequestByID e d i slug =
     (case review_of_page d i slug of None \<Rightarrow> Inl ErrNotFound | Some (p, v) \<Rightarrow> Inr (scanPageReviewRequest e d p v))"

section \<open>Review targets\<close>

definition scanned_user :: "user \<Rightarrow> user" where
  "scanned_user u = \<lparr>u_id = u_id u, u_username = u_username u, u_email = u_email u, u_display = u_display u,
     u_role = u_role u, u_enabled = False, u_external_admin = False, u_session_version = 0\<rparr>"

definition by_username :: "env \<Rightarrow> user \<Rightarrow> user \<Rightarrow> int" where
  "by_username e l r = cmp_then (cmp_compare (en_sql_lower e (u_username l)) (en_sql_lower e (u_username r)))
     (cmp_compare (u_id l) (u_id r))"

definition can_decide_role :: "string \<Rightarrow> bool" where
  "can_decide_role r = (r = UserRoleAdmin \<or> r = UserRoleEditor)"

definition ReviewUsers :: "env \<Rightarrow> db \<Rightarrow> string list \<Rightarrow> user list" where
  "ReviewUsers e d usernames =
     (if usernames = [] then []
      else map scanned_user (sort_func (by_username e)
        (filter (\<lambda>u. en_sql_lower e (u_username u) \<in> set usernames \<and> u_enabled u \<and> can_decide_role (u_role u))
           (db_users d))))"

definition ReviewGroup :: "db \<Rightarrow> int \<Rightarrow> error + group" where
  "ReviewGroup d gid = (case row_with (\<lambda>g. g_id g = gid) (db_groups d) of None \<Rightarrow> Inl ErrNotFound | Some g \<Rightarrow> Inr g)"

definition ReviewGroups :: "env \<Rightarrow> db \<Rightarrow> group list" where
  "ReviewGroups e d = sort_func (\<lambda>l r. cmp_then (cmp_compare (en_sql_lower e (g_name l)) (en_sql_lower e (g_name r)))
     (cmp_compare (g_id l) (g_id r))) (db_groups d)"

definition replacePageReviewers :: "int \<Rightarrow> int list \<Rightarrow> db \<Rightarrow> error + db" where
  "replacePageReviewers request uids d =
     forR uids
       (\<lambda>uid d. if \<not> list_ex (\<lambda>u. u_id u = uid) (db_users d)
          then Inl (InfrastructureError ''page_review_request_reviewers_user_id_fkey'')
          else Inr (d\<lparr>db_reviewers := insert_missing (request, uid) (db_reviewers d)\<rparr>))
       (d\<lparr>db_reviewers := delete_rows (\<lambda>x. fst x = request) (db_reviewers d)\<rparr>)"

definition reviewer_group_missing :: error where
  "reviewer_group_missing = NewValidationError ''reviewer_group_id'' ''One or more selected groups no longer exist.''"

section \<open>Opening, changing and cancelling a request\<close>

definition new_review_row :: "env \<Rightarrow> int \<Rightarrow> page_row \<Rightarrow> int \<Rightarrow> int \<Rightarrow> int \<Rightarrow> string \<Rightarrow> review_row" where
  "new_review_row e i p revision actor gid note =
     \<lparr>vw_id = i, vw_page = pw_id p, vw_revision = revision, vw_requested_by = actor, vw_reviewed_by = 0,
      vw_group = gid, vw_status = PageReviewStatusPending, vw_note = note, vw_decision_note = [],
      vw_previous = pw_status p, vw_created = en_now e, vw_updated = en_now e\<rparr>"

definition set_page_status :: "env \<Rightarrow> int \<Rightarrow> string \<Rightarrow> db \<Rightarrow> db" where
  "set_page_status e pid status d =
     d\<lparr>db_pages := update_rows (\<lambda>r. pw_id r = pid) (\<lambda>r. r\<lparr>pw_status := status, pw_updated_at := en_now e\<rparr>) (db_pages d)\<rparr>"

definition RequestPageReview ::
  "env \<Rightarrow> string \<Rightarrow> int \<Rightarrow> int list \<Rightarrow> int \<Rightarrow> string \<Rightarrow> db \<Rightarrow> error + (review_request \<times> db)" where
  "RequestPageReview e slug actor reviewers gid note d =
     (case live_row d slug of
        None \<Rightarrow> Inl ErrNotFound
      | Some p \<Rightarrow>
          if list_ex (\<lambda>v. vw_page v = pw_id p \<and> pending v) (db_reviews d) then Inl ErrReviewPending
          else if \<not> owner_exists d gid then Inl reviewer_group_missing
          else let i = db_next_review d;
                   d1 = d\<lparr>db_reviews := db_reviews d @ [new_review_row e i p (current_revision d (pw_id p)) actor gid note],
                          db_next_review := i + 1\<rparr> in
            bindR (replacePageReviewers i reviewers d1) (\<lambda>d2.
            let d3 = set_page_status e (pw_id p) PageStatusDraft d2 in Inr (PageReviewRequest e d3 slug, d3)))"

definition UpdatePageReview ::
  "env \<Rightarrow> int \<Rightarrow> string \<Rightarrow> int \<Rightarrow> int list \<Rightarrow> int \<Rightarrow> string \<Rightarrow> db \<Rightarrow> error + (review_request \<times> db)" where
  "UpdatePageReview e i slug actor reviewers gid note d =
     (case review_of_page d i slug of
        None \<Rightarrow> Inl ErrNotFound
      | Some (p, v) \<Rightarrow>
          if vw_status v \<noteq> PageReviewStatusPending then Inl ErrReviewClosed
          else if \<not> owner_exists d gid then Inl reviewer_group_missing
          else bindR (replacePageReviewers i reviewers
                 (d\<lparr>db_reviews := update_rows (\<lambda>v. vw_id v = i)
                      (\<lambda>v. v\<lparr>vw_group := gid, vw_note := note, vw_updated := en_now e\<rparr>) (db_reviews d)\<rparr>))
               (\<lambda>d1. Inr (PageReviewRequest e d1 slug, d1)))"

text \<open>The page of the review and its current revision.\<close>

definition lockReviewPage :: "db \<Rightarrow> int \<Rightarrow> string \<Rightarrow> error + (int \<times> int)" where
  "lockReviewPage d request slug =
     (case review_of_page d request slug of
        None \<Rightarrow> Inl ErrNotFound | Some (p, v) \<Rightarrow> Inr (pw_id p, current_revision d (pw_id p)))"

definition restoreCanceledReviewStatus :: "env \<Rightarrow> int \<Rightarrow> int \<Rightarrow> int \<Rightarrow> string \<Rightarrow> db \<Rightarrow> db" where
  "restoreCanceledReviewStatus e pid requestedRevision currentRevision previousStatus d =
     (if requestedRevision \<noteq> currentRevision then d
      else d\<lparr>db_pages := update_rows (\<lambda>r. pw_id r = pid \<and> pw_status r = PageStatusDraft)
               (\<lambda>r. r\<lparr>pw_status := previousStatus, pw_updated_at := en_now e\<rparr>) (db_pages d)\<rparr>)"

definition CancelPageReview :: "env \<Rightarrow> int \<Rightarrow> string \<Rightarrow> int \<Rightarrow> db \<Rightarrow> error + (string \<times> db)" where
  "CancelPageReview e i slug actor d =
     bindR (lockReviewPage d i slug) (\<lambda>(pid, currentRevision).
     case row_with (\<lambda>v. vw_id v = i) (db_reviews d) of
       None \<Rightarrow> Inl (InfrastructureError ''no rows in result set'')
     | Some v \<Rightarrow>
         if vw_status v \<noteq> PageReviewStatusPending then Inl ErrReviewClosed
         else Inr (slug, restoreCanceledReviewStatus e pid (vw_revision v) currentRevision (vw_previous v)
           (d\<lparr>db_reviews := update_rows (\<lambda>v. vw_id v = i)
                (\<lambda>v. v\<lparr>vw_status := PageReviewStatusCanceled, vw_updated := en_now e\<rparr>) (db_reviews d)\<rparr>)))"

section \<open>Deciding\<close>

text \<open>Assigned by name or through the reviewer group.\<close>

definition assigned :: "db \<Rightarrow> review_row \<Rightarrow> int \<Rightarrow> bool" where
  "assigned d v uid = (list_ex (\<lambda>x. x = (vw_id v, uid)) (db_reviewers d) \<or>
     (vw_group v \<noteq> 0 \<and> list_ex (\<lambda>m. m = (uid, vw_group v)) (db_members d)))"

definition CanReviewPage :: "db \<Rightarrow> string \<Rightarrow> int \<Rightarrow> bool" where
  "CanReviewPage d slug uid =
     (case live_row d slug of
        None \<Rightarrow> False
      | Some p \<Rightarrow> list_ex (\<lambda>v. vw_page v = pw_id p \<and> pending v \<and> assigned d v uid) (db_reviews d))"

text \<open>The enabled targets, or the other administrators when there is none.\<close>

definition PageReviewNotificationUserIDs :: "db \<Rightarrow> int \<Rightarrow> int \<Rightarrow> int list" where
  "PageReviewNotificationUserIDs d request actor =
     (let targets = (\<lambda>u. (request, u_id u) \<in> set (db_reviewers d) \<or>
            list_ex (\<lambda>v. vw_id v = request \<and> vw_group v \<noteq> 0 \<and> (u_id u, vw_group v) \<in> set (db_members d)) (db_reviews d));
          eligible = filter (\<lambda>u. targets u \<and> u_enabled u \<and> can_decide_role (u_role u) \<and> u_id u \<noteq> actor) (db_users d);
          fallback = filter (\<lambda>u. u_enabled u \<and> u_role u = UserRoleAdmin \<and> u_id u \<noteq> actor) (db_users d)
      in sort_func cmp_compare (map u_id (if eligible = [] then fallback else eligible)))"

record review_decision_state =
  ds_requested :: int
  ds_status :: string
  ds_assigned :: bool

definition lockReviewDecision :: "db \<Rightarrow> int \<Rightarrow> int \<Rightarrow> bool \<Rightarrow> error + review_decision_state" where
  "lockReviewDecision d i reviewer administrator =
     (case row_with (\<lambda>v. vw_id v = i) (db_reviews d) of
        None \<Rightarrow> Inl (InfrastructureError ''no rows in result set'')
      | Some v \<Rightarrow> Inr \<lparr>ds_requested = vw_revision v, ds_status = vw_status v,
                       ds_assigned = administrator \<or> assigned d v reviewer\<rparr>)"

definition validateReviewDecisionState :: "review_decision_state \<Rightarrow> int \<Rightarrow> error + unit" where
  "validateReviewDecisionState s currentRevision =
     (if ds_status s = PageReviewStatusSuperseded \<or> ds_requested s \<noteq> currentRevision then Inl ErrStaleReview
      else if ds_status s \<noteq> PageReviewStatusPending then Inl ErrReviewClosed
      else if \<not> ds_assigned s then Inl ErrForbidden
      else Inr ())"

definition markPageReviewApproved :: "env \<Rightarrow> int \<Rightarrow> string \<Rightarrow> db \<Rightarrow> db" where
  "markPageReviewApproved e pid decision d =
     (if decision \<noteq> PageReviewStatusApproved then d
      else d\<lparr>db_pages := update_rows (\<lambda>r. pw_id r = pid)
               (\<lambda>r. r\<lparr>pw_status := PageStatusVerified, pw_reviewed := Some (en_now e), pw_updated_at := en_now e\<rparr>)
               (db_pages d)\<rparr>)"

text \<open>The values that the check constraint of the status column admits.\<close>

definition review_statuses :: "string list" where
  "review_statuses = [PageReviewStatusPending, PageReviewStatusChangesRequested, PageReviewStatusApproved,
     PageReviewStatusCanceled, PageReviewStatusSuperseded]"

definition persistReviewDecision :: "env \<Rightarrow> int \<Rightarrow> int \<Rightarrow> int \<Rightarrow> string \<Rightarrow> string \<Rightarrow> db \<Rightarrow> error + db" where
  "persistReviewDecision e i pid reviewer decision note d =
     (if decision \<notin> set review_statuses then Inl (InfrastructureError ''page_review_requests_status_check'')
      else Inr (markPageReviewApproved e pid decision
        (d\<lparr>db_reviews := update_rows (\<lambda>v. vw_id v = i)
             (\<lambda>v. v\<lparr>vw_status := decision, vw_decision_note := note, vw_reviewed_by := reviewer, vw_updated := en_now e\<rparr>)
             (db_reviews d)\<rparr>)))"

definition DecidePageReview ::
  "env \<Rightarrow> int \<Rightarrow> string \<Rightarrow> int \<Rightarrow> bool \<Rightarrow> string \<Rightarrow> string \<Rightarrow> db \<Rightarrow> error + (string \<times> db)" where
  "DecidePageReview e i expectedSlug reviewer administrator decision note d =
     bindR (lockReviewPage d i expectedSlug) (\<lambda>(pid, currentRevision).
     bindR (lockReviewDecision d i reviewer administrator) (\<lambda>s.
     bindR (validateReviewDecisionState s currentRevision) (\<lambda>_.
     bindR (persistReviewDecision e i pid reviewer decision note d) (\<lambda>d1. Inr (expectedSlug, d1)))))"

section \<open>The use cases\<close>

record page_review_request_input =
  qi_slug :: string
  qi_usernames :: "string list"
  qi_group :: int
  qi_note :: string
  qi_actor :: user

record page_review_update_input =
  ui_id :: int
  ui_slug :: string
  ui_usernames :: "string list"
  ui_group :: int
  ui_note :: string
  ui_actor :: user

record page_review_decision_input =
  di_id :: int
  di_slug :: string
  di_decision :: string
  di_note :: string
  di_actor :: user

record reviews_service =
  rs_policy :: "policy option"
  rs_effects :: page_effects

definition CanReview :: "db \<Rightarrow> string \<Rightarrow> user \<Rightarrow> bool" where
  "CanReview d slug actor =
     (if IsAdministrator actor then True
      else if u_role actor \<noteq> UserRoleEditor then False
      else CanReviewPage d (TrimSpace slug) (u_id actor))"

definition CanManageReview :: "review_request \<Rightarrow> user \<Rightarrow> bool" where
  "CanManageReview request actor =
     (if rr_id request = 0 \<or> rr_status request \<noteq> PageReviewStatusPending then False
      else IsAdministrator actor \<or> rr_requested_by request = u_id actor)"

definition canRequestReview :: "user \<Rightarrow> bool" where
  "canRequestReview actor = CanEditContent actor"

definition validReviewDecision :: "string \<Rightarrow> bool" where
  "validReviewDecision decision = (decision = PageReviewStatusApproved \<or> decision = PageReviewStatusChangesRequested)"

definition validReviewers :: "user list \<Rightarrow> bool" where
  "validReviewers reviewers = list_all CanEditContent reviewers"

primrec reviewer_keys :: "env \<Rightarrow> string list \<Rightarrow> string list \<Rightarrow> string list" where
  "reviewer_keys e [] result = result"
| "reviewer_keys e (v # vs) result =
     (let name = TrimSpace (TrimPrefix (TrimSpace v) ''@'') in
      if name = [] then reviewer_keys e vs result
      else let key = en_lower e name in
        if key \<in> set result then reviewer_keys e vs result else reviewer_keys e vs (result @ [key]))"

definition normalizeReviewerUsernames :: "env \<Rightarrow> string list \<Rightarrow> string list" where
  "normalizeReviewerUsernames e values = reviewer_keys e values []"

definition invalid_reviewers :: error where
  "invalid_reviewers = NewValidationError ''reviewers'' ''Choose enabled editors or administrators as reviewers.''"

definition resolveReviewTargets :: "env \<Rightarrow> db \<Rightarrow> string \<Rightarrow> string list \<Rightarrow> int \<Rightarrow> error + (int list \<times> int)" where
  "resolveReviewTargets e d slug usernames gid =
     (if gid < 0 then Inl (NewValidationError ''reviewer_group_id'' ''Choose a valid reviewer group.'')
      else let names = normalizeReviewerUsernames e usernames; reviewers = ReviewUsers e d names in
      if length reviewers \<noteq> length names \<or> \<not> validReviewers reviewers then Inl invalid_reviewers
      else bindR
        (if gid > 0 then
           (case ReviewGroup d gid of
              Inl err \<Rightarrow> if err = ErrNotFound
                then Inl (NewValidationError ''reviewer_group_id'' ''Choose an existing reviewer group.'') else Inl err
            | Inr _ \<Rightarrow> Inr gid)
         else if reviewers = [] then bindR (GetPage d slug) (\<lambda>p. Inr (pg_owner_group p))
         else Inr gid)
        (\<lambda>gid. Inr (map u_id reviewers, gid)))"

definition notifyReviewTargets :: "page_effects \<Rightarrow> db \<Rightarrow> int \<Rightarrow> int \<Rightarrow> string \<Rightarrow> string \<Rightarrow> string \<Rightarrow> effect list" where
  "notifyReviewTargets fx d request actor title body destination =
     (if \<not> fx_notifications fx then []
      else concat (map (\<lambda>u. notifyUser fx u actor NotificationKindReview title body destination)
        (PageReviewNotificationUserIDs d request actor)))"

text \<open>The notifications of a change to a request, when the page can still be read.\<close>

definition review_notices :: "page_effects \<Rightarrow> db \<Rightarrow> int \<Rightarrow> int \<Rightarrow> string \<Rightarrow> string \<Rightarrow> string \<Rightarrow> string \<Rightarrow> string \<Rightarrow> effect list" where
  "review_notices fx d request actor slug title body watchTitle watchBody =
     (case GetPage d slug of
        Inl _ \<Rightarrow> []
      | Inr p \<Rightarrow> let destination = PageURL (pg_id p) (pg_slug p) in
          notifyReviewTargets fx d request actor (title @ pg_title p) body destination @
          notifyWatchers fx actor slug watchTitle watchBody destination)"

definition slug_required :: error where
  "slug_required = NewValidationError ''slug'' ''A page path is required.''"

definition review_required :: error where
  "review_required = NewValidationError ''review'' ''Choose a valid review request.''"

definition RequestReview ::
  "reviews_service \<Rightarrow> env \<Rightarrow> page_review_request_input \<Rightarrow> db \<Rightarrow> error + (review_request \<times> db \<times> effect list)" where
  "RequestReview svc e input d =
     (let slug = TrimSpace (qi_slug input); actor = qi_actor input; note = TrimSpace (qi_note input) in
      requireR (slug \<noteq> []) slug_required
      (bindR (requireEdit (rs_policy svc) actor slug) (\<lambda>_.
      requireR (canRequestReview actor) ErrForbidden
      (let active = PageReviewRequest e d slug in
      requireR (rr_status active \<noteq> PageReviewStatusPending) ErrReviewPending
      (requireR (rr_status active \<noteq> PageReviewStatusChangesRequested) ErrReviewChangesRequired
      (bindR (resolveReviewTargets e d slug (qi_usernames input) (qi_group input)) (\<lambda>(ids, gid).
      bindR (RequestPageReview e slug (u_id actor) ids gid note d) (\<lambda>(request, d1).
      Inr (request, d1,
        review_notices (rs_effects svc) d1 (rr_id request) (u_id actor) slug ''Review requested for '' note
          ''review-requested'' ''Review requested'' @
        recordAudit (rs_effects svc) (u_id actor) ''page.review_requested'' ''page'' slug
          (''Review requested for revision '' @ show_int (rr_revision request)))))))))))"

definition UpdateReview ::
  "reviews_service \<Rightarrow> env \<Rightarrow> page_review_update_input \<Rightarrow> db \<Rightarrow> error + (review_request \<times> db \<times> effect list)" where
  "UpdateReview svc e input d =
     (let slug = TrimSpace (ui_slug input); actor = ui_actor input; note = TrimSpace (ui_note input) in
      requireR (ui_id input > 0) review_required
      (requireR (slug \<noteq> []) slug_required
      (bindR (requireEdit (rs_policy svc) actor slug) (\<lambda>_.
      bindR (PageReviewRequestByID e d (ui_id input) slug) (\<lambda>request.
      requireR (rr_status request = PageReviewStatusPending) ErrReviewClosed
      (requireR (CanManageReview request actor) ErrForbidden
      (bindR (resolveReviewTargets e d slug (ui_usernames input) (ui_group input)) (\<lambda>(ids, gid).
      bindR (UpdatePageReview e (ui_id input) slug (u_id actor) ids gid note d) (\<lambda>(updated, d1).
      Inr (updated, d1,
        review_notices (rs_effects svc) d1 (rr_id updated) (u_id actor) slug ''Review request updated for '' note
          ''review-updated'' ''Review request updated'' @
        recordAudit (rs_effects svc) (u_id actor) ''page.review_updated'' ''page'' slug
          ''Pending review request updated''))))))))))"

definition CancelReview ::
  "reviews_service \<Rightarrow> env \<Rightarrow> int \<Rightarrow> string \<Rightarrow> user \<Rightarrow> db \<Rightarrow> error + (unit \<times> db \<times> effect list)" where
  "CancelReview svc e i slug actor d =
     (let slug = TrimSpace slug in
      requireR (i > 0) review_required
      (requireR (slug \<noteq> []) slug_required
      (bindR (requireEdit (rs_policy svc) actor slug) (\<lambda>_.
      bindR (PageReviewRequestByID e d i slug) (\<lambda>request.
      requireR (rr_status request = PageReviewStatusPending) ErrReviewClosed
      (requireR (CanManageReview request actor) ErrForbidden
      (bindR (CancelPageReview e i slug (u_id actor) d) (\<lambda>(resolved, d1).
      Inr ((), d1,
        review_notices (rs_effects svc) d1 i (u_id actor) resolved ''Review canceled for ''
          ''The review request was canceled.'' ''review-canceled'' ''Review request canceled'' @
        recordAudit (rs_effects svc) (u_id actor) ''page.review_canceled'' ''page'' resolved
          ''Pending review request canceled'')))))))))"

definition decision_notices ::
  "page_effects \<Rightarrow> db \<Rightarrow> review_request \<Rightarrow> page_review_decision_input \<Rightarrow> string \<Rightarrow> effect list" where
  "decision_notices fx d request input slug =
     (let actor = u_id (di_actor input); decision = di_decision input; note = TrimSpace (di_note input) in
      case GetPage d slug of
        Inl _ \<Rightarrow> []
      | Inr p \<Rightarrow> let destination = PageURL (pg_id p) (pg_slug p) in
          (if rr_requested_by request \<noteq> actor
           then notifyUser fx (rr_requested_by request) actor NotificationKindReview
                  (''Review '' @ decision @ '' for '' @ pg_title p)
                  (if note = [] then ''The review was '' @ decision @ ''.'' else note) destination
           else []) @
          notifyWatchers fx actor slug (''review-'' @ decision)
            (''Review '' @ ReplaceAll decision ''_'' '' '') destination)"

definition DecideReview ::
  "reviews_service \<Rightarrow> env \<Rightarrow> page_review_decision_input \<Rightarrow> db \<Rightarrow> error + (unit \<times> db \<times> effect list)" where
  "DecideReview svc e input d =
     (let slug = TrimSpace (di_slug input); actor = di_actor input; note = TrimSpace (di_note input) in
      requireR (di_id input > 0) review_required
      (requireR (validReviewDecision (di_decision input))
         (NewValidationError ''decision'' ''Choose approve or request changes.'')
      (bindR (requireView (rs_policy svc) actor (di_slug input)) (\<lambda>_.
      bindR (PageReviewRequestByID e d (di_id input) slug) (\<lambda>request.
      requireR (CanReview d (di_slug input) actor) ErrForbidden
      (bindR (DecidePageReview e (di_id input) slug (u_id actor) (IsAdministrator actor) (di_decision input) note d)
        (\<lambda>(resolved, d1).
      Inr ((), d1,
        decision_notices (rs_effects svc) d1 request input resolved @
        recordAudit (rs_effects svc) (u_id actor) (''page.review_'' @ di_decision input) ''page'' resolved note))))))))"

section \<open>Consistency\<close>

lemma core_replacePageReviewers: "replacePageReviewers i uids d = Inr d' \<Longrightarrow> core d' = core d"
  unfolding replacePageReviewers_def by (erule forR_invariant) (auto split: if_splits)

lemma replacePageReviewers_state:
  assumes "replacePageReviewers i uids d = Inr d'"
  obtains xs where "d' = d\<lparr>db_reviewers := xs\<rparr>"
proof -
  have "\<exists>xs. d' = d\<lparr>db_reviewers := xs\<rparr>"
  proof (rule forR_invariant [OF assms [unfolded replacePageReviewers_def]])
    show "\<exists>xs. d\<lparr>db_reviewers := delete_rows (\<lambda>x. fst x = i) (db_reviewers d)\<rparr> = d\<lparr>db_reviewers := xs\<rparr>" by blast
    fix uid a b
    assume "\<exists>xs. a = d\<lparr>db_reviewers := xs\<rparr>" and "(if \<not> list_ex (\<lambda>u. u_id u = uid) (db_users a)
          then Inl (InfrastructureError ''page_review_request_reviewers_user_id_fkey'')
          else Inr (a\<lparr>db_reviewers := insert_missing (i, uid) (db_reviewers a)\<rparr>)) = Inr b"
    then show "\<exists>xs. b = d\<lparr>db_reviewers := xs\<rparr>" by (auto split: if_splits)
  qed
  then show ?thesis using that by blast
qed

lemma set_page_status_ok: "db_ok d \<Longrightarrow> db_ok (set_page_status e pid st d)"
  unfolding set_page_status_def by (rule db_ok_update_page) simp_all

text \<open>Changing review rows so that none becomes pending.\<close>

lemma db_ok_update_review:
  assumes "db_ok d" and "\<And>v. vw_id (f v) = vw_id v" and "\<And>v. vw_page (f v) = vw_page v"
    and "\<And>v. vw_revision (f v) = vw_revision v" and "\<And>v. pending (f v) \<Longrightarrow> pending v"
  shows "db_ok (d\<lparr>db_reviews := update_rows P f (db_reviews d)\<rparr>)"
proof -
  have "store_ok (d\<lparr>db_reviews := update_rows P f (db_reviews d)\<rparr>)"
    using assms by (intro store_ok_update_review) (simp_all add: db_ok_def)
  with assms(1) show ?thesis by (simp add: db_ok_def head_ok_def revisions_of_def)
qed

lemma db_ok_new_review:
  assumes ok: "db_ok d" and p: "p \<in> set (db_pages d)" and no: "\<not> list_ex (\<lambda>v. vw_page v = pw_id p \<and> pending v) (db_reviews d)"
  shows "db_ok (d\<lparr>db_reviews := db_reviews d @ [new_review_row e (db_next_review d) p (current_revision d (pw_id p)) actor gid note],
           db_next_review := db_next_review d + 1\<rparr>)"
proof -
  let ?v = "new_review_row e (db_next_review d) p (current_revision d (pw_id p)) actor gid note"
  let ?d = "d\<lparr>db_reviews := db_reviews d @ [?v], db_next_review := db_next_review d + 1\<rparr>"
  have r: "revisions_ok d" and vs: "reviews_ok d" using ok by (simp_all add: db_ok_def store_ok_def)
  have same: "page_ids ?d = page_ids d" "page_slugs ?d = page_slugs d" "revisions_of ?d = revisions_of d"
    by (simp_all add: page_ids_def page_slugs_def revisions_of_def fun_eq_iff)
  have v: "vw_id ?v = db_next_review d" "vw_page ?v = pw_id p" "pending ?v"
    "vw_revision ?v = int (length (revisions_of d (pw_id p)))"
    by (simp_all add: new_review_row_def pending_def current_revision_length [OF r])
  have id: "pw_id p \<in> page_ids d" using p by (simp add: page_ids_def)
  have "distinct (map vw_page (filter pending (db_reviews ?d)))"
    using vs no v(2,3) by (auto simp: reviews_ok_def list_ex_iff)
  moreover have "distinct (map vw_id (db_reviews ?d))"
    using vs v(1) by (fastforce simp: reviews_ok_def)
  moreover have "\<forall>v \<in> set (db_reviews ?d). vw_id v < db_next_review ?d \<and> vw_page v \<in> page_ids ?d \<and>
        vw_revision v \<le> int (length (revisions_of ?d (vw_page v)))"
    using vs v id unfolding same by (auto simp: reviews_ok_def)
  ultimately have "reviews_ok ?d" by (simp add: reviews_ok_def)
  moreover have "pages_ok ?d" "aliases_ok ?d" "revisions_ok ?d"
    using ok by (simp_all add: db_ok_def store_ok_def pages_ok_def aliases_ok_def revisions_ok_def same)
  ultimately show ?thesis using ok by (simp add: db_ok_def store_ok_def head_ok_def same)
qed

lemma markPageReviewApproved_ok: "db_ok d \<Longrightarrow> db_ok (markPageReviewApproved e pid s d)"
  unfolding markPageReviewApproved_def by (simp add: db_ok_update_page)

lemma restoreCanceledReviewStatus_ok: "db_ok d \<Longrightarrow> db_ok (restoreCanceledReviewStatus e pid a b s d)"
  unfolding restoreCanceledReviewStatus_def by (simp add: db_ok_update_page)

lemma RequestPageReview_keeps_ok:
  assumes "db_ok d" and "RequestPageReview e slug actor reviewers gid note d = Inr (q, d')"
  shows "db_ok d'"
proof -
  from assms(2) obtain p d2 where p: "live_row d slug = Some p"
    and no: "\<not> list_ex (\<lambda>v. vw_page v = pw_id p \<and> pending v) (db_reviews d)"
    and r: "replacePageReviewers (db_next_review d) reviewers
       (d\<lparr>db_reviews := db_reviews d @ [new_review_row e (db_next_review d) p (current_revision d (pw_id p)) actor gid note],
          db_next_review := db_next_review d + 1\<rparr>) = Inr d2"
    and d': "d' = set_page_status e (pw_id p) PageStatusDraft d2"
    by (auto simp: RequestPageReview_def Let_def result_simps split: option.splits if_split_asm)
  have "p \<in> set (db_pages d)" using live_row_Some [OF p] by simp
  from db_ok_new_review [OF assms(1) this no] have "db_ok d2"
    using db_ok_core [OF core_replacePageReviewers [OF r]] by simp
  then show ?thesis unfolding d' by (rule set_page_status_ok)
qed

lemma UpdatePageReview_keeps_ok:
  assumes "db_ok d" and "UpdatePageReview e i slug actor reviewers gid note d = Inr (q, d')"
  shows "db_ok d'"
proof -
  from assms(2) have "replacePageReviewers i reviewers
       (d\<lparr>db_reviews := update_rows (\<lambda>v. vw_id v = i)
            (\<lambda>v. v\<lparr>vw_group := gid, vw_note := note, vw_updated := en_now e\<rparr>) (db_reviews d)\<rparr>) = Inr d'"
    by (auto simp: UpdatePageReview_def result_simps split: option.splits if_split_asm)
  moreover have "db_ok (d\<lparr>db_reviews := update_rows (\<lambda>v. vw_id v = i)
            (\<lambda>v. v\<lparr>vw_group := gid, vw_note := note, vw_updated := en_now e\<rparr>) (db_reviews d)\<rparr>)"
    using assms(1) by (rule db_ok_update_review) (simp_all add: pending_def)
  ultimately show ?thesis using db_ok_core [OF core_replacePageReviewers] by blast
qed

lemma reviews_row_unique:
  "store_ok d \<Longrightarrow> v \<in> set (db_reviews d) \<Longrightarrow> w \<in> set (db_reviews d) \<Longrightarrow> vw_id v = vw_id w \<Longrightarrow> v = w"
  using distinct_map_inj [of vw_id] by (auto simp: store_ok_def reviews_ok_def)

lemma review_of_page_Some:
  "review_of_page d i slug = Some (p, v) \<Longrightarrow>
     live_row d slug = Some p \<and> v \<in> set (db_reviews d) \<and> vw_id v = i \<and> vw_page v = pw_id p"
  by (auto simp: review_of_page_def split: option.splits dest: row_with_Some)

lemma row_with_review:
  assumes "store_ok d" and "v \<in> set (db_reviews d)" and "vw_id v = i"
  shows "row_with (\<lambda>v. vw_id v = i) (db_reviews d) = Some v"
  by (rule row_with_unique [where k = vw_id and x = i]) (use assms in \<open>auto simp: store_ok_def reviews_ok_def\<close>)

definition canceled_row :: "env \<Rightarrow> review_row \<Rightarrow> review_row" where
  "canceled_row e v = v\<lparr>vw_status := PageReviewStatusCanceled, vw_updated := en_now e\<rparr>"

lemma canceled_row_simps [simp]:
  "vw_id (canceled_row e v) = vw_id v" "vw_page (canceled_row e v) = vw_page v"
  "vw_revision (canceled_row e v) = vw_revision v" "vw_status (canceled_row e v) = PageReviewStatusCanceled"
  by (simp_all add: canceled_row_def)

lemma CancelPageReview_Inr:
  assumes ok: "store_ok d"
  shows "CancelPageReview e i slug actor d = Inr (s, d') \<longleftrightarrow>
    (\<exists>p v. review_of_page d i slug = Some (p, v) \<and> pending v \<and> s = slug \<and>
       d' = restoreCanceledReviewStatus e (pw_id p) (vw_revision v) (current_revision d (pw_id p)) (vw_previous v)
         (d\<lparr>db_reviews := update_rows (\<lambda>v. vw_id v = i) (canceled_row e) (db_reviews d)\<rparr>))"
proof (cases "review_of_page d i slug")
  case None
  then show ?thesis by (simp add: CancelPageReview_def lockReviewPage_def)
next
  case (Some pv)
  obtain p v where pv: "pv = (p, v)" by (rule prod.exhaust)
  have v: "v \<in> set (db_reviews d)" "vw_id v = i" using review_of_page_Some [OF Some [unfolded pv]] by auto
  have f: "(\<lambda>v. v\<lparr>vw_status := PageReviewStatusCanceled, vw_updated := en_now e\<rparr>) = canceled_row e"
    by (simp add: canceled_row_def fun_eq_iff)
  show ?thesis
    unfolding CancelPageReview_def lockReviewPage_def f
    using Some pv row_with_review [OF ok v] by (auto simp: pending_def)
qed

lemma CancelPageReview_keeps_ok:
  assumes ok: "db_ok d" and "CancelPageReview e i slug actor d = Inr (q, d')"
  shows "db_ok d'"
proof -
  have "store_ok d" using ok by (simp add: db_ok_def)
  from assms(2) [unfolded CancelPageReview_Inr [OF this]] obtain p :: page_row and v :: review_row where
    d': "d' = restoreCanceledReviewStatus e (pw_id p) (vw_revision v) (current_revision d (pw_id p)) (vw_previous v)
         (d\<lparr>db_reviews := update_rows (\<lambda>v. vw_id v = i) (canceled_row e) (db_reviews d)\<rparr>)"
    by blast
  have "db_ok (d\<lparr>db_reviews := update_rows (\<lambda>v. vw_id v = i) (canceled_row e) (db_reviews d)\<rparr>)"
    using ok by (rule db_ok_update_review) (simp_all add: pending_def)
  then show ?thesis unfolding d' by (rule restoreCanceledReviewStatus_ok)
qed

text \<open>Everything a successful decision rests on and does.\<close>

definition decided_row :: "env \<Rightarrow> int \<Rightarrow> string \<Rightarrow> string \<Rightarrow> review_row \<Rightarrow> review_row" where
  "decided_row e reviewer decision note v =
     v\<lparr>vw_status := decision, vw_decision_note := note, vw_reviewed_by := reviewer, vw_updated := en_now e\<rparr>"

lemma decided_row_simps [simp]:
  "vw_id (decided_row e r s n v) = vw_id v" "vw_page (decided_row e r s n v) = vw_page v"
  "vw_revision (decided_row e r s n v) = vw_revision v" "vw_status (decided_row e r s n v) = s"
  by (simp_all add: decided_row_def)

lemma DecidePageReview_Inr:
  assumes ok: "store_ok d"
  shows "DecidePageReview e i slug reviewer admin decision note d = Inr (s, d') \<longleftrightarrow>
    (\<exists>p v. review_of_page d i slug = Some (p, v) \<and> pending v \<and> vw_revision v = current_revision d (pw_id p) \<and>
       (admin \<or> assigned d v reviewer) \<and> decision \<in> set review_statuses \<and> s = slug \<and>
       d' = markPageReviewApproved e (pw_id p) decision
         (d\<lparr>db_reviews := update_rows (\<lambda>v. vw_id v = i) (decided_row e reviewer decision note) (db_reviews d)\<rparr>))"
proof (cases "review_of_page d i slug")
  case None
  then show ?thesis by (simp add: DecidePageReview_def lockReviewPage_def)
next
  case (Some pv)
  obtain p v where pv: "pv = (p, v)" by (rule prod.exhaust)
  have v: "v \<in> set (db_reviews d)" "vw_id v = i" using review_of_page_Some [OF Some [unfolded pv]] by auto
  have f: "(\<lambda>v. v\<lparr>vw_status := decision, vw_decision_note := note, vw_reviewed_by := reviewer, vw_updated := en_now e\<rparr>)
      = decided_row e reviewer decision note" by (simp add: decided_row_def fun_eq_iff)
  have "PageReviewStatusPending \<noteq> PageReviewStatusSuperseded" by simp
  then have "validateReviewDecisionState \<lparr>ds_requested = vw_revision v, ds_status = vw_status v,
       ds_assigned = admin \<or> assigned d v reviewer\<rparr> (current_revision d (pw_id p)) = Inr u \<longleftrightarrow>
      pending v \<and> vw_revision v = current_revision d (pw_id p) \<and> (admin \<or> assigned d v reviewer)" for u
    by (auto simp: validateReviewDecisionState_def pending_def)
  then show ?thesis
    unfolding DecidePageReview_def lockReviewPage_def lockReviewDecision_def persistReviewDecision_def f
    using Some pv row_with_review [OF ok v] by (auto simp: result_simps split: if_splits)
qed

lemma DecidePageReview_keeps_ok:
  assumes ok: "db_ok d" and s: "DecidePageReview e i slug reviewer admin decision note d = Inr (q, d')"
  shows "db_ok d'"
proof -
  have sok: "store_ok d" using ok by (simp add: db_ok_def)
  let ?f = "decided_row e reviewer decision note"
  from s [unfolded DecidePageReview_Inr [OF sok]] obtain p v where
    pv: "review_of_page d i slug = Some (p, v)" "pending v" and
    d': "d' = markPageReviewApproved e (pw_id p) decision
         (d\<lparr>db_reviews := update_rows (\<lambda>v. vw_id v = i) ?f (db_reviews d)\<rparr>)"
    by blast
  note v = review_of_page_Some [OF pv(1)]
  have one: "update_rows (\<lambda>v. vw_id v = i) ?f (db_reviews d) =
      update_rows (\<lambda>v. vw_id v = i) (\<lambda>w. if pending w then ?f w else w) (db_reviews d)"
    unfolding update_rows_def
  proof (rule map_cong [OF refl])
    fix w assume w: "w \<in> set (db_reviews d)"
    then have "vw_id w = i \<Longrightarrow> pending w"
      using reviews_row_unique [OF sok w, of v] v pv(2) by simp
    then show "(if vw_id w = i then ?f w else w) = (if vw_id w = i then (if pending w then ?f w else w) else w)"
      by simp
  qed
  have "db_ok (d\<lparr>db_reviews := update_rows (\<lambda>v. vw_id v = i) ?f (db_reviews d)\<rparr>)"
    unfolding one using ok by (rule db_ok_update_review) (auto split: if_splits)
  then show ?thesis
    unfolding d' by (rule markPageReviewApproved_ok)
qed

section \<open>A page under review\<close>

lemma not_isl_pair: "\<not> isl r \<Longrightarrow> \<exists>a b. r = Inr (a, b)"
  by (cases r) auto

lemma not_isl_triple: "\<not> isl r \<Longrightarrow> \<exists>a b c. r = Inr (a, b, c)"
  by (cases r) auto

definition sample_reviews :: reviews_service where
  "sample_reviews = \<lparr>rs_policy = None,
     rs_effects = \<lparr>fx_repository = True, fx_notifications = True, fx_watchers = (\<lambda>_ _. Inr [7])\<rparr>\<rparr>"

definition sample_review_input :: page_review_request_input where
  "sample_review_input = \<lparr>qi_slug = ''a'', qi_usernames = [], qi_group = 0, qi_note = ''please'',
     qi_actor = account 1 UserRoleAdmin\<rparr>"

definition sample_decision :: page_review_decision_input where
  "sample_decision = \<lparr>di_id = 1, di_slug = ''a'', di_decision = PageReviewStatusApproved, di_note = [],
     di_actor = account 2 UserRoleAdmin\<rparr>"

definition reviewing_db :: db where
  "reviewing_db = state_of (RequestPageReview (sample_env 20) ''a'' 1 [] 0 ''please'' sample_db)"

lemma reviewing_db_eq [code]: "reviewing_db =
   \<lparr>db_pages = [\<lparr>pw_id = 1, pw_slug = ''a'', pw_title = ''T'', pw_language = [],
     pw_markdown = ''x'', pw_created_by = 1, pw_updated_by = 1, pw_created_at = 10, pw_updated_at = 20,
     pw_deleted_at = None, pw_deleted_by = 0, pw_view_count = 0, pw_status = PageStatusDraft, pw_owner = 0,
     pw_reviewed = None, pw_interval = 0, pw_target = [], pw_usage = None, pw_html = [], pw_contents = [],
     pw_fingerprint = [], pw_rendered_at = None\<rparr>], db_aliases = [], db_revisions = [\<lparr>rw_id = 1,
     rw_page = 1, rw_number = 1, rw_markdown = ''x'', rw_by = 1, rw_created = 10, rw_message = ''m'',
     rw_snapshot = Some \<lparr>sn_slug = ''a'', sn_title = ''T'', sn_icon = [], sn_language = [],
     sn_tags = [''go''], sn_groups = [], sn_status = PageStatusVerified, sn_owner = 0, sn_interval = 0,
     sn_target = [], sn_properties = [(''k'', ''v'')], sn_reviewed = None\<rparr>, rw_changes = []\<rparr>],
     db_reviews = [\<lparr>vw_id = 1, vw_page = 1, vw_revision = 1, vw_requested_by = 1, vw_reviewed_by = 0,
     vw_group = 0, vw_status = PageReviewStatusPending, vw_note = ''please'', vw_decision_note = [],
     vw_previous = PageStatusVerified, vw_created = 20, vw_updated = 20\<rparr>], db_icons = [], db_tags = [(1,
     ''go'')], db_page_tags = [(1, 1)], db_page_groups = [], db_properties = [(1, ''k'', ''v'')],
     db_links = [], db_reviewers = [], db_review_comments = [], db_comments = [],
     db_audit = [\<lparr>ae_user = 1, ae_action = ''page.created'', ae_key = ''a'', ae_detail = [CHR ''r'',
     CHR ''1'', CHR '' '', CHR 0xC2, CHR 0xB7, CHR '' '', CHR ''P'', CHR ''a'', CHR ''g'', CHR ''e'',
     CHR '' '', CHR ''c'', CHR ''r'', CHR ''e'', CHR ''a'', CHR ''t'', CHR ''e'', CHR ''d''],
     ae_revision = Some 1\<rparr>], db_groups = [], db_members = [], db_users = [], db_discussions = True,
     db_next_page = 2, db_next_revision = 2, db_next_tag = 2, db_next_review = 2, db_next_review_comment = 1,
     db_next_comment = 1\<rparr>"
  by code_simp

lemma reviewing_db_reached:
  "\<exists>q. RequestPageReview (sample_env 20) ''a'' 1 [] 0 ''please'' sample_db = Inr (q, reviewing_db)"
  unfolding reviewing_db_def by (rule state_of_reached, fold reviewing_db_def) (simp add: reviewing_db_eq)

lemma reviewing_db_ok: "db_ok reviewing_db"
  using reviewing_db_reached RequestPageReview_keeps_ok [OF sample_db_ok] by blast

section \<open>What a reader sees after a review operation\<close>

lemma live_row_update:
  assumes "\<And>r. pw_slug (f r) = pw_slug r" and "\<And>r. live (f r) = live r"
  shows "live_row (d\<lparr>db_pages := update_rows P f (db_pages d)\<rparr>) slug = map_option (\<lambda>r. if P r then f r else r) (live_row d slug)"
  unfolding live_row_def using assms by (simp add: row_with_update)

lemma live_row_fields [simp]:
  "live_row (d\<lparr>db_reviews := x\<rparr>) = live_row d" "live_row (d\<lparr>db_reviewers := y\<rparr>) = live_row d"
  "live_row (d\<lparr>db_next_review := z\<rparr>) = live_row d"
  by (simp_all add: live_row_def fun_eq_iff)

text \<open>The page row after a decision.\<close>

definition decided_page :: "env \<Rightarrow> string \<Rightarrow> page_row \<Rightarrow> page_row" where
  "decided_page e decision r = (if decision \<noteq> PageReviewStatusApproved then r
     else r\<lparr>pw_status := PageStatusVerified, pw_reviewed := Some (en_now e), pw_updated_at := en_now e\<rparr>)"

lemma live_row_approved:
  "live_row (markPageReviewApproved e pid s d) slug =
     map_option (\<lambda>r. if pw_id r = pid then decided_page e s r else r) (live_row d slug)"
  by (simp add: markPageReviewApproved_def decided_page_def live_row_update live_def option.map_ident cong: if_cong)

lemma approved_fields [simp]:
  "db_reviews (markPageReviewApproved e pid s d) = db_reviews d"
  "db_revisions (markPageReviewApproved e pid s d) = db_revisions d"
  "db_reviewers (markPageReviewApproved e pid s d) = db_reviewers d"
  "db_members (markPageReviewApproved e pid s d) = db_members d"
  by (simp_all add: markPageReviewApproved_def)

text \<open>C33: A decision is carried out exactly if the review is pending, is about the current revision of its page
  and the decider is an administrator or assigned; otherwise the error says which condition
  fails. Approval verifies the page and stamps its review time, a request for changes leaves
  the page row alone; either way only this review changes, and no revision is added.\<close>

theorem decide_review_spec:
  assumes ok: "db_ok d" and pv: "review_of_page d i slug = Some (p, v)" and dec: "validReviewDecision decision"
  shows "case DecidePageReview e i slug reviewer admin decision remark d of
     Inl err \<Rightarrow> err =
         (if vw_status v = PageReviewStatusSuperseded \<or> vw_revision v \<noteq> current_revision d (pw_id p) then ErrStaleReview
          else if \<not> pending v then ErrReviewClosed else ErrForbidden) \<and>
       \<not> (pending v \<and> vw_revision v = current_revision d (pw_id p) \<and> (admin \<or> assigned d v reviewer))
   | Inr (s, d') \<Rightarrow>
       pending v \<and> vw_revision v = current_revision d (pw_id p) \<and> (admin \<or> assigned d v reviewer) \<and>
       review_of_page d' i slug = Some (decided_page e decision p, decided_row e reviewer decision remark v) \<and>
       (\<forall>other. other \<noteq> slug \<longrightarrow> live_row d' other = live_row d other) \<and>
       {w \<in> set (db_reviews d'). vw_id w \<noteq> i} = {w \<in> set (db_reviews d). vw_id w \<noteq> i} \<and>
       db_revisions d' = db_revisions d"
proof -
  have sok: "store_ok d" using ok by (simp add: db_ok_def)
  note v = review_of_page_Some [OF pv]
  have in_set: "decision \<in> set review_statuses" using dec by (auto simp: validReviewDecision_def review_statuses_def)
  show ?thesis
  proof (cases "DecidePageReview e i slug reviewer admin decision remark d")
    case (Inl err)
    have "\<not> (pending v \<and> vw_revision v = current_revision d (pw_id p) \<and> (admin \<or> assigned d v reviewer))"
      using Inl DecidePageReview_Inr [OF sok, of e i slug reviewer admin decision remark] pv in_set by fastforce
    moreover have "err = (if vw_status v = PageReviewStatusSuperseded \<or> vw_revision v \<noteq> current_revision d (pw_id p) then ErrStaleReview
          else if \<not> pending v then ErrReviewClosed else ErrForbidden)"
      using Inl pv row_with_review [OF sok, of v i] v in_set
      unfolding DecidePageReview_def lockReviewPage_def lockReviewDecision_def validateReviewDecisionState_def pending_def
        persistReviewDecision_def
      by (auto split: if_splits)
    ultimately show ?thesis by (simp add: Inl)
  next
    case (Inr sd)
    obtain s d' where sd: "sd = (s, d')" by (rule prod.exhaust)
    let ?d = "d\<lparr>db_reviews := update_rows (\<lambda>v. vw_id v = i) (decided_row e reviewer decision remark) (db_reviews d)\<rparr>"
    have c: "pending v" "vw_revision v = current_revision d (pw_id p)" "admin \<or> assigned d v reviewer"
      and d': "d' = markPageReviewApproved e (pw_id p) decision ?d"
      using Inr pv by (simp_all add: sd DecidePageReview_Inr [OF sok])
    have lr: "live_row d' slug = Some (decided_page e decision p)"
      using v by (simp add: d' live_row_approved)
    have "pw_id (decided_page e decision p) = pw_id p" by (simp add: decided_page_def)
    moreover have "row_with (\<lambda>w. vw_id w = i \<and> vw_page w = pw_id p) (db_reviews d') =
        Some (decided_row e reviewer decision remark v)"
    proof -
      have "row_with (\<lambda>w. vw_id w = i \<and> vw_page w = pw_id p) (db_reviews d) = Some v"
        using pv v by (auto simp: review_of_page_def)
      then show ?thesis using v by (simp add: d' row_with_update)
    qed
    ultimately have "review_of_page d' i slug = Some (decided_page e decision p, decided_row e reviewer decision remark v)"
      by (simp add: review_of_page_def lr)
    moreover have "live_row d' other = live_row d other" if "other \<noteq> slug" for other
    proof -
      have "\<not> (live_row d other = Some r \<and> pw_id r = pw_id p)" for r
        using that v live_row_Some [of d other r] live_row_Some [of d slug p] pages_row_unique(1) [OF sok, of r p] by auto
      then show ?thesis by (cases "live_row d other") (auto simp: d' live_row_approved)
    qed
    moreover have "{w \<in> set (db_reviews d'). vw_id w \<noteq> i} = {w \<in> set (db_reviews d). vw_id w \<noteq> i}"
      by (auto simp: d' table_simps image_iff)
    moreover have "db_revisions d' = db_revisions d" by (simp add: d')
    ultimately show ?thesis using c by (simp add: Inr sd)
  qed
qed

theorem decide_review_spec_witness:
  "\<exists>p v s d'. review_of_page reviewing_db 1 ''a'' = Some (p, v) \<and>
     DecidePageReview (sample_env 30) 1 ''a'' 2 True PageReviewStatusApproved [] reviewing_db = Inr (s, d') \<and>
     review_of_page d' 1 ''a'' = Some (decided_page (sample_env 30) PageReviewStatusApproved p,
       decided_row (sample_env 30) 2 PageReviewStatusApproved [] v)"
proof -
  have "review_of_page reviewing_db 1 ''a'' \<noteq> None"
    "\<not> isl (DecidePageReview (sample_env 30) 1 ''a'' 2 True PageReviewStatusApproved [] reviewing_db)"
    "validReviewDecision PageReviewStatusApproved" by code_simp+
  then obtain p v s d' where "review_of_page reviewing_db 1 ''a'' = Some (p, v)"
    "DecidePageReview (sample_env 30) 1 ''a'' 2 True PageReviewStatusApproved [] reviewing_db = Inr (s, d')"
    "validReviewDecision PageReviewStatusApproved"
    by (metis isl_def not_None_eq old.prod.exhaust sum.exhaust)
  with decide_review_spec [OF reviewing_db_ok this(1,3), where e = "sample_env 30" and reviewer = 2 and admin = True and remark = "[]"] show ?thesis by auto
qed

section \<open>Opening and cancelling\<close>

interpretation newest: comparison newer_review
  by unfold_locales (auto simp: newer_review_def cmp_then_def cmp_compare_def split: if_splits)

lemma newest_reviewI:
  assumes "v \<in> set (db_reviews d)" and "vw_page v = pid"
    and "\<And>w. w \<in> set (db_reviews d) \<Longrightarrow> vw_page w = pid \<Longrightarrow> w \<noteq> v \<Longrightarrow> newer_review v w < 0"
  shows "newest_review d pid = Some v"
proof -
  let ?xs = "sort_func newer_review (filter (\<lambda>v. vw_page v = pid) (db_reviews d))"
  have v: "v \<in> set ?xs" using assms(1,2) by simp
  then obtain h t where ht: "?xs = h # t" by (cases ?xs) auto
  have "h = v"
  proof (rule ccontr)
    assume ne: "h \<noteq> v"
    have "newer_review h v \<le> 0" using newest.sorted_sort_func [of "filter (\<lambda>v. vw_page v = pid) (db_reviews d)"] v ne
      unfolding ht by auto
    moreover have "h \<in> set ?xs" unfolding ht by simp
    then have "newer_review v h < 0" using assms(3) [of h] ne by simp
    ultimately show False using newest.cmp_flip [of h v] by linarith
  qed
  then show ?thesis by (simp add: newest_review_def ht)
qed

lemma replacePageReviewers_set:
  assumes "replacePageReviewers i uids d = Inr d'"
  shows "set (db_reviewers d') = {x \<in> set (db_reviewers d). fst x \<noteq> i} \<union> Pair i ` set uids"
proof -
  have "forR uids (\<lambda>uid d. if \<not> list_ex (\<lambda>u. u_id u = uid) (db_users d)
          then Inl (InfrastructureError ''page_review_request_reviewers_user_id_fkey'')
          else Inr (d\<lparr>db_reviewers := insert_missing (i, uid) (db_reviewers d)\<rparr>)) a = Inr b \<Longrightarrow>
      set (db_reviewers b) = set (db_reviewers a) \<union> Pair i ` set uids" for a b
    by (induction uids arbitrary: a) (auto simp: result_simps insert_missing_def split: if_splits)
  from this [OF assms [unfolded replacePageReviewers_def]] show ?thesis by (simp add: set_delete_rows)
qed

text \<open>The state after a successful request.\<close>

lemma RequestPageReview_Inr:
  assumes "RequestPageReview e slug actor reviewers gid note d = Inr (q, d')"
  obtains p xs where "live_row d slug = Some p"
    and "\<not> list_ex (\<lambda>v. vw_page v = pw_id p \<and> pending v) (db_reviews d)" and "owner_exists d gid"
    and "set xs = {x \<in> set (db_reviewers d). fst x \<noteq> db_next_review d} \<union> Pair (db_next_review d) ` set reviewers"
    and "d' = set_page_status e (pw_id p) PageStatusDraft
      (d\<lparr>db_reviews := db_reviews d @ [new_review_row e (db_next_review d) p (current_revision d (pw_id p)) actor gid note],
          db_next_review := db_next_review d + 1, db_reviewers := xs\<rparr>)"
    and "q = PageReviewRequest e d' slug"
proof -
  from assms obtain p d2 where p: "live_row d slug = Some p"
    and no: "\<not> list_ex (\<lambda>v. vw_page v = pw_id p \<and> pending v) (db_reviews d)" and o: "owner_exists d gid"
    and r: "replacePageReviewers (db_next_review d) reviewers
       (d\<lparr>db_reviews := db_reviews d @ [new_review_row e (db_next_review d) p (current_revision d (pw_id p)) actor gid note],
          db_next_review := db_next_review d + 1\<rparr>) = Inr d2"
    and d': "d' = set_page_status e (pw_id p) PageStatusDraft d2" and q: "q = PageReviewRequest e d' slug"
    by (auto simp: RequestPageReview_def Let_def result_simps split: option.splits if_split_asm)
  from replacePageReviewers_state [OF r] obtain xs where xs:
    "d2 = (d\<lparr>db_reviews := db_reviews d @ [new_review_row e (db_next_review d) p (current_revision d (pw_id p)) actor gid note],
          db_next_review := db_next_review d + 1\<rparr>)\<lparr>db_reviewers := xs\<rparr>" .
  have "set xs = {x \<in> set (db_reviewers d). fst x \<noteq> db_next_review d} \<union> Pair (db_next_review d) ` set reviewers"
    using replacePageReviewers_set [OF r] by (simp add: xs)
  from that [OF p no o this _ q] d' xs show ?thesis by simp
qed

lemma set_page_status_fields [simp]:
  "db_reviews (set_page_status e pid s d) = db_reviews d" "db_revisions (set_page_status e pid s d) = db_revisions d"
  "db_reviewers (set_page_status e pid s d) = db_reviewers d" "db_next_review (set_page_status e pid s d) = db_next_review d"
  "current_revision (set_page_status e pid s d) = current_revision d"
  by (simp_all add: set_page_status_def current_revision_def revisions_of_def fun_eq_iff)

lemma live_row_status:
  "live_row (set_page_status e pid s d) slug =
     map_option (\<lambda>r. if pw_id r = pid then r\<lparr>pw_status := s, pw_updated_at := en_now e\<rparr> else r) (live_row d slug)"
  by (simp add: set_page_status_def live_row_update live_def)

lemma live_row_restored:
  "live_row (restoreCanceledReviewStatus e pid a b s d) slug =
     map_option (\<lambda>r. if a = b \<and> pw_id r = pid \<and> pw_status r = PageStatusDraft
       then r\<lparr>pw_status := s, pw_updated_at := en_now e\<rparr> else r) (live_row d slug)"
  by (simp add: restoreCanceledReviewStatus_def live_row_update live_def option.map_ident)

text \<open>Opening a request and cancelling it restores the status of the page: on a database whose reviews of
  the page are not in the future, the new request is the one the page reports, pending on the
  current revision and with the page back in draft; it can then be cancelled by its
  identifier, after which the page has its old status, text and title, and reports no open
  request.\<close>

lemma request_cancel_restores_status:
  assumes ok: "db_ok d" and s: "RequestPageReview e slug actor reviewers gid note d = Inr (q, d1)"
    and past: "\<forall>w \<in> set (db_reviews d). vw_created w \<le> en_now e"
  shows "rr_id q = db_next_review d \<and> rr_status q = PageReviewStatusPending \<and>
    (\<exists>p p1 p2 d2. live_row d slug = Some p \<and> rr_revision q = current_revision d (pw_id p) \<and>
       live_row d1 slug = Some p1 \<and> pw_status p1 = PageStatusDraft \<and>
       CancelPageReview e' (rr_id q) slug canceler d1 = Inr (slug, d2) \<and>
       live_row d2 slug = Some p2 \<and> pw_status p2 = pw_status p \<and> pw_markdown p2 = pw_markdown p \<and>
       pw_title p2 = pw_title p \<and> pw_reviewed p2 = pw_reviewed p \<and>
       PageReviewRequest e' d2 slug = zero_review_request)"
proof -
  from s obtain p xs where p: "live_row d slug = Some p"
    and no: "\<not> list_ex (\<lambda>v. vw_page v = pw_id p \<and> pending v) (db_reviews d)"
    and d1: "d1 = set_page_status e (pw_id p) PageStatusDraft
      (d\<lparr>db_reviews := db_reviews d @ [new_review_row e (db_next_review d) p (current_revision d (pw_id p)) actor gid note],
          db_next_review := db_next_review d + 1, db_reviewers := xs\<rparr>)"
    and q: "q = PageReviewRequest e d1 slug"
    by (rule RequestPageReview_Inr) (rule that)
  let ?i = "db_next_review d"
  let ?v = "new_review_row e ?i p (current_revision d (pw_id p)) actor gid note"
  let ?p1 = "p\<lparr>pw_status := PageStatusDraft, pw_updated_at := en_now e\<rparr>"
  have ok1: "db_ok d1" by (rule RequestPageReview_keeps_ok [OF ok s])
  then have sok1: "store_ok d1" by (simp add: db_ok_def)
  have lr1: "live_row d1 slug = Some ?p1" using p by (simp add: d1 live_row_status)
  have v: "vw_id ?v = ?i" "vw_page ?v = pw_id p" "pending ?v" "vw_created ?v = en_now e"
    "vw_revision ?v = current_revision d (pw_id p)" "vw_previous ?v = pw_status p" "vw_status ?v = PageReviewStatusPending"
    by (simp_all add: new_review_row_def pending_def)
  have rev1: "db_reviews d1 = db_reviews d @ [?v]" by (simp add: d1)
  have old: "w \<in> set (db_reviews d) \<Longrightarrow> vw_id w < ?i" for w
    using ok by (simp add: db_ok_def store_ok_def reviews_ok_def)
  have newer: "newer_review ?v w < 0" if "w \<in> set (db_reviews d)" for w
    using old [OF that] past that v(1,4) by (auto simp: newer_review_def cmp_then_def cmp_compare_def)
  have "newest_review d1 (pw_id p) = Some ?v"
    by (rule newest_reviewI) (use newer v in \<open>auto simp: rev1\<close>)
  then have q': "q = scanPageReviewRequest e d1 ?p1 ?v"
    using v(7) by (simp add: q PageReviewRequest_def lr1 active_status_def)
  have cur1: "current_revision d1 (pw_id p) = current_revision d (pw_id p)"
    by (simp add: d1 current_revision_def revisions_of_def)
  have rp: "review_of_page d1 ?i slug = Some (?p1, ?v)"
  proof -
    have "row_with (\<lambda>w. vw_id w = ?i \<and> vw_page w = pw_id p) (db_reviews d1) = Some ?v"
      by (rule row_with_unique [where k = vw_id and x = ?i])
        (use sok1 v in \<open>auto simp: rev1 store_ok_def reviews_ok_def\<close>)
    then show ?thesis by (simp add: review_of_page_def lr1)
  qed
  let ?dc = "d1\<lparr>db_reviews := update_rows (\<lambda>v. vw_id v = ?i) (canceled_row e') (db_reviews d1)\<rparr>"
  define d2 where "d2 = restoreCanceledReviewStatus e' (pw_id p) (vw_revision ?v) (current_revision d1 (pw_id p)) (vw_previous ?v) ?dc"
  have cancel: "CancelPageReview e' ?i slug canceler d1 = Inr (slug, d2)"
    unfolding CancelPageReview_Inr [OF sok1] using rp v(3) by (auto simp: d2_def)
  let ?p2 = "?p1\<lparr>pw_status := pw_status p, pw_updated_at := en_now e'\<rparr>"
  have lr2: "live_row d2 slug = Some ?p2"
    using lr1 v(5,6) cur1 by (simp add: d2_def live_row_restored)
  have rev2: "set (db_reviews d2) = set (db_reviews d) \<union> {canceled_row e' ?v}"
  proof -
    have "db_reviews d2 = update_rows (\<lambda>v. vw_id v = ?i) (canceled_row e') (db_reviews d @ [?v])"
      using rev1 by (simp add: d2_def restoreCanceledReviewStatus_def)
    moreover have "update_rows (\<lambda>v. vw_id v = ?i) (canceled_row e') (db_reviews d) = db_reviews d"
      unfolding update_rows_def by (rule map_idI) (auto dest: old)
    ultimately show ?thesis using v(1) by (simp add: update_rows_def)
  qed
  have "newest_review d2 (pw_id p) = Some (canceled_row e' ?v)"
  proof (rule newest_reviewI)
    fix w assume "w \<in> set (db_reviews d2)" "w \<noteq> canceled_row e' ?v"
    then have "newer_review ?v w < 0" using newer unfolding rev2 by simp
    then show "newer_review (canceled_row e' ?v) w < 0" by (simp add: newer_review_def canceled_row_def)
  qed (use rev2 v in auto)
  then have "PageReviewRequest e' d2 slug = zero_review_request"
    by (simp add: PageReviewRequest_def lr2 active_status_def)
  with cancel lr1 lr2 p show ?thesis
    by (simp add: q' scanPageReviewRequest_def v)
qed

text \<open>An open request never blocks a page: whatever its revision, a pending review of a page that is not in
  the bin can be cancelled, and after that a new request without named reviewers succeeds,
  so there is always a way from a pending review to a decidable one.\<close>

lemma pending_review_can_be_replaced:
  assumes ok: "db_ok d" and p: "live_row d slug = Some p"
    and v: "v \<in> set (db_reviews d)" "vw_page v = pw_id p" "pending v"
  shows "\<exists>d1 q d2. CancelPageReview e (vw_id v) slug actor d = Inr (slug, d1) \<and>
    RequestPageReview e' slug actor [] 0 note d1 = Inr (q, d2) \<and>
    (\<exists>w \<in> set (db_reviews d2). vw_page w = pw_id p \<and> pending w \<and> vw_revision w = current_revision d2 (pw_id p))"
proof -
  have sok: "store_ok d" using ok by (simp add: db_ok_def)
  have rp: "review_of_page d (vw_id v) slug = Some (p, v)"
  proof -
    have "row_with (\<lambda>w. vw_id w = vw_id v \<and> vw_page w = pw_id p) (db_reviews d) = Some v"
      by (rule row_with_unique [where k = vw_id and x = "vw_id v"])
        (use sok v in \<open>auto simp: store_ok_def reviews_ok_def\<close>)
    then show ?thesis by (simp add: review_of_page_def p)
  qed
  let ?dc = "d\<lparr>db_reviews := update_rows (\<lambda>w. vw_id w = vw_id v) (canceled_row e) (db_reviews d)\<rparr>"
  define d1 where "d1 = restoreCanceledReviewStatus e (pw_id p) (vw_revision v) (current_revision d (pw_id p)) (vw_previous v) ?dc"
  have cancel: "CancelPageReview e (vw_id v) slug actor d = Inr (slug, d1)"
    unfolding CancelPageReview_Inr [OF sok] using rp v(3) by (auto simp: d1_def)
  obtain p1 where p1: "live_row d1 slug = Some p1" "pw_id p1 = pw_id p"
    using p by (simp add: d1_def live_row_restored)
  have rev1: "db_reviews d1 = update_rows (\<lambda>w. vw_id w = vw_id v) (canceled_row e) (db_reviews d)"
    by (simp add: d1_def restoreCanceledReviewStatus_def)
  have "w = v" if "w \<in> set (db_reviews d)" "vw_page w = pw_id p" "pending w" for w
  proof -
    have "distinct (map vw_page (filter pending (db_reviews d)))" using sok by (simp add: store_ok_def reviews_ok_def)
    from distinct_map_inj [OF this, of w v] that v show ?thesis by simp
  qed
  then have no: "\<not> list_ex (\<lambda>w. vw_page w = pw_id p1 \<and> pending w) (db_reviews d1)"
    by (auto simp: rev1 table_simps list_ex_iff p1(2) pending_def split: if_splits)
  let ?w = "new_review_row e' (db_next_review d1) p1 (current_revision d1 (pw_id p1)) actor 0 note"
  define d2 where "d2 = set_page_status e' (pw_id p1) PageStatusDraft (d1\<lparr>db_reviews := db_reviews d1 @ [?w],
      db_next_review := db_next_review d1 + 1, db_reviewers := delete_rows (\<lambda>x. fst x = db_next_review d1) (db_reviewers d1)\<rparr>)"
  have "RequestPageReview e' slug actor [] 0 note d1 = Inr (PageReviewRequest e' d2 slug, d2)"
    using p1(1) no by (simp add: RequestPageReview_def Let_def owner_exists_def replacePageReviewers_def d2_def)
  moreover have "?w \<in> set (db_reviews d2)" by (simp add: d2_def)
  moreover have "vw_page ?w = pw_id p" "pending ?w" "vw_revision ?w = current_revision d2 (pw_id p)"
    using p1(2) by (simp_all add: new_review_row_def pending_def d2_def current_revision_def revisions_of_def)
  ultimately show ?thesis using cancel by blast
qed

text \<open>Reviewers that a request resolves to are enabled and may edit.\<close>

lemma resolveReviewTargets_Inr:
  assumes "resolveReviewTargets e d slug usernames gid = Inr (ids, gid')" and "x \<in> set ids"
  shows "\<exists>u \<in> set (db_users d). u_id u = x \<and> u_enabled u \<and> can_decide_role (u_role u)"
proof -
  have "ids = map u_id (ReviewUsers e d (normalizeReviewerUsernames e usernames))"
    using assms(1) by (auto simp: resolveReviewTargets_def Let_def result_simps split: if_splits)
  with assms(2) show ?thesis
    by (fastforce simp: ReviewUsers_def scanned_user_def split: if_splits)
qed

text \<open>The use case opens at most one review per page: it succeeds only for an actor who may edit content and
  has edit access to the path, while the page reports no open review; afterwards the page has
  exactly one pending review, asked by the actor for the current revision, and everyone it is
  assigned to by name is an enabled administrator or editor.\<close>

lemma request_review_opens_one:
  assumes ok: "db_ok d" and s: "RequestReview svc e input d = Inr (q, d', fx)"
  shows "CanEditContent (qi_actor input) \<and> requireEdit (rs_policy svc) (qi_actor input) (TrimSpace (qi_slug input)) = Inr () \<and>
    \<not> active_status (rr_status (PageReviewRequest e d (TrimSpace (qi_slug input)))) \<and>
    (\<exists>p v. live_row d' (TrimSpace (qi_slug input)) = Some p \<and> pw_status p = PageStatusDraft \<and>
       {w \<in> set (db_reviews d'). vw_page w = pw_id p \<and> pending w} = {v} \<and>
       vw_requested_by v = u_id (qi_actor input) \<and> vw_revision v = current_revision d' (pw_id p) \<and>
       (\<forall>x. (vw_id v, x) \<in> set (db_reviewers d') \<longrightarrow>
          (\<exists>u \<in> set (db_users d'). u_id u = x \<and> u_enabled u \<and> can_decide_role (u_role u))))"
proof -
  let ?slug = "TrimSpace (qi_slug input)"
  from s obtain u ids gid where
    pre: "requireEdit (rs_policy svc) (qi_actor input) ?slug = Inr u" "canRequestReview (qi_actor input)"
      "rr_status (PageReviewRequest e d ?slug) \<noteq> PageReviewStatusPending"
      "rr_status (PageReviewRequest e d ?slug) \<noteq> PageReviewStatusChangesRequested"
    and t: "resolveReviewTargets e d ?slug (qi_usernames input) (qi_group input) = Inr (ids, gid)"
    and r: "RequestPageReview e ?slug (u_id (qi_actor input)) ids gid (TrimSpace (qi_note input)) d = Inr (q, d')"
    unfolding RequestReview_def Let_def by (auto simp: result_simps split_paired_all)
  from r obtain p xs where p: "live_row d ?slug = Some p"
    and no: "\<not> list_ex (\<lambda>v. vw_page v = pw_id p \<and> pending v) (db_reviews d)"
    and xs: "set xs = {x \<in> set (db_reviewers d). fst x \<noteq> db_next_review d} \<union> Pair (db_next_review d) ` set ids"
    and d': "d' = set_page_status e (pw_id p) PageStatusDraft
      (d\<lparr>db_reviews := db_reviews d @ [new_review_row e (db_next_review d) p (current_revision d (pw_id p))
            (u_id (qi_actor input)) gid (TrimSpace (qi_note input))],
          db_next_review := db_next_review d + 1, db_reviewers := xs\<rparr>)"
    by (rule RequestPageReview_Inr) (rule that)
  let ?v = "new_review_row e (db_next_review d) p (current_revision d (pw_id p))
            (u_id (qi_actor input)) gid (TrimSpace (qi_note input))"
  have lr: "live_row d' ?slug = Some (p\<lparr>pw_status := PageStatusDraft, pw_updated_at := en_now e\<rparr>)"
    using p by (simp add: d' live_row_status)
  have "{w \<in> set (db_reviews d'). vw_page w = pw_id p \<and> pending w} = {?v}"
    using no by (auto simp: d' list_ex_iff new_review_row_def pending_def)
  moreover have "vw_requested_by ?v = u_id (qi_actor input)" "vw_revision ?v = current_revision d' (pw_id p)"
    by (simp_all add: new_review_row_def d' current_revision_def revisions_of_def)
  moreover have "\<exists>u \<in> set (db_users d'). u_id u = x \<and> u_enabled u \<and> can_decide_role (u_role u)"
    if "(vw_id ?v, x) \<in> set (db_reviewers d')" for x
  proof -
    have "x \<in> set ids" using that xs by (auto simp: d' new_review_row_def)
    from resolveReviewTargets_Inr [OF t this] show ?thesis by (simp add: d' set_page_status_def)
  qed
  ultimately have "\<exists>p v. live_row d' ?slug = Some p \<and> pw_status p = PageStatusDraft \<and>
       {w \<in> set (db_reviews d'). vw_page w = pw_id p \<and> pending w} = {v} \<and>
       vw_requested_by v = u_id (qi_actor input) \<and> vw_revision v = current_revision d' (pw_id p) \<and>
       (\<forall>x. (vw_id v, x) \<in> set (db_reviewers d') \<longrightarrow>
          (\<exists>u \<in> set (db_users d'). u_id u = x \<and> u_enabled u \<and> can_decide_role (u_role u)))"
    by (intro exI [of _ "p\<lparr>pw_status := PageStatusDraft, pw_updated_at := en_now e\<rparr>"] exI [of _ ?v]) (simp add: lr)
  with pre show ?thesis by (simp add: canRequestReview_def active_status_def)
qed

lemma sample_request_slug: "TrimSpace (qi_slug sample_review_input) = ''a''"
  by code_simp

lemma sample_requested: "\<not> isl (RequestReview sample_reviews (sample_env 20) sample_review_input sample_db)"
  by code_simp

text \<open>Only an administrator or an assigned editor decides: if the decision use case succeeds then the actor
  may read the page, the decision is one of the two allowed, the review is pending on the
  current revision of the page at the given path, and the actor is an administrator or an
  editor assigned to this review by name or group; the action is audited last.\<close>

lemma decide_review_authorized:
  assumes ok: "db_ok d" and s: "DecideReview svc e input d = Inr (u, d', fx)"
  shows "requireView (rs_policy svc) (di_actor input) (di_slug input) = Inr () \<and> validReviewDecision (di_decision input) \<and>
    (\<exists>p v. review_of_page d (di_id input) (TrimSpace (di_slug input)) = Some (p, v) \<and> pending v \<and>
       vw_revision v = current_revision d (pw_id p) \<and>
       (IsAdministrator (di_actor input) \<or>
        u_role (di_actor input) = UserRoleEditor \<and> assigned d v (u_id (di_actor input)))) \<and>
    (\<exists>notices. fx = notices @ recordAudit (rs_effects svc) (u_id (di_actor input)) (''page.review_'' @ di_decision input)
       ''page'' (TrimSpace (di_slug input)) (TrimSpace (di_note input)))"
proof -
  have sok: "store_ok d" using ok by (simp add: db_ok_def)
  from s obtain request s' where
    pre: "validReviewDecision (di_decision input)" "requireView (rs_policy svc) (di_actor input) (di_slug input) = Inr ()"
      "CanReview d (di_slug input) (di_actor input)"
    and r: "DecidePageReview e (di_id input) (TrimSpace (di_slug input)) (u_id (di_actor input)) (IsAdministrator (di_actor input))
        (di_decision input) (TrimSpace (di_note input)) d = Inr (s', d')"
    and fx: "fx = decision_notices (rs_effects svc) d' request input s' @
        recordAudit (rs_effects svc) (u_id (di_actor input)) (''page.review_'' @ di_decision input) ''page'' s' (TrimSpace (di_note input))"
    unfolding DecideReview_def Let_def by (auto simp: result_simps split_paired_all)
  from r [unfolded DecidePageReview_Inr [OF sok]] obtain p :: page_row and v :: review_row where
    "review_of_page d (di_id input) (TrimSpace (di_slug input)) = Some (p, v)" "pending v"
    "vw_revision v = current_revision d (pw_id p)"
    "IsAdministrator (di_actor input) \<or> assigned d v (u_id (di_actor input))" "s' = TrimSpace (di_slug input)" by blast
  moreover have "IsAdministrator (di_actor input) \<or> u_role (di_actor input) = UserRoleEditor"
    using pre(3) by (simp add: CanReview_def split: if_splits)
  ultimately show ?thesis using pre fx by blast
qed


lemma sample_decision_1: "u_id (di_actor sample_decision) = 2" by (simp add: sample_decision_def account_def)
lemma sample_decision_2: "TrimSpace (di_slug sample_decision) = ''a''" by code_simp
lemma sample_decision_3: "TrimSpace (di_note sample_decision) = []"  by code_simp
lemma sample_decision_4: "''page.review_'' @ di_decision sample_decision = ''page.review_approved''"
  by (simp add: sample_decision_def)
lemmas sample_decision_fields = sample_decision_1 sample_decision_2 sample_decision_3 sample_decision_4

lemma sample_decided: "\<not> isl (DecideReview sample_reviews (sample_env 30) sample_decision reviewing_db)"
  by code_simp

end
