(* ===== verification/WikiLinks.thy ===== *)
theory WikiLinks
  imports Slugs
begin

text \<open>
  Wiki links in Markdown source: the scanner of \<open>pkg/markdown/renderer.go\<close> that finds
  \<open>[[target|label]]\<close> outside fenced code, the list of link targets a save stores, and the
  rewriting of the links into Markdown links before rendering. The recognition of code fences is
  the SDK's, a parameter.
\<close>

section \<open>Scanning a line\<close>

record fence_library =
  fl_fence :: "string \<Rightarrow> string"
  fl_closes :: "string \<Rightarrow> string \<Rightarrow> bool"

record wiki_link =
  wl_start :: nat
  wl_end :: nat
  wl_target :: string
  wl_label :: string
  wl_valid :: bool

abbreviation "link_open \<equiv> ''[[''"
abbreviation "link_close \<equiv> '']]''"

definition parseWikiLink :: "string \<Rightarrow> string \<times> string \<times> bool" where
  "parseWikiLink value =
     (case Cut value ''|'' of (target, label, hasLabel) \<Rightarrow>
        let target = TrimSpace target in
        if target = [] then ([], [], False)
        else let label = TrimSpace label in
          (target, if \<not> hasLabel \<or> label = [] then target else label, True))"

text \<open>\<open>line[from:to]\<close>.\<close>

definition substring :: "string \<Rightarrow> nat \<Rightarrow> nat \<Rightarrow> string" where
  "substring s from to = take (to - from) (drop from s)"

function nextWikiLink :: "string \<Rightarrow> nat \<Rightarrow> wiki_link option" where
  "nextWikiLink line offset =
     (if offset \<ge> length line then None
      else case Index (drop offset line) link_open of
        None \<Rightarrow> None
      | Some relativeStart \<Rightarrow>
          let start = offset + relativeStart in
          if start > 0 \<and> line ! (start - 1) = CHR 0x5C then nextWikiLink line (start + 2)
          else case Index (drop (start + 2) line) link_close of
            None \<Rightarrow> None
          | Some relativeClose \<Rightarrow>
              let cl = start + 2 + relativeClose in
              case parseWikiLink (substring line (start + 2) cl) of (target, label, valid) \<Rightarrow>
                Some \<lparr>wl_start = start, wl_end = cl + 2, wl_target = target, wl_label = label, wl_valid = valid\<rparr>)"
  by pat_completeness auto
termination
  by (relation "measure (\<lambda>(line, offset). length line - offset)") auto

declare nextWikiLink.simps [simp del]

lemma nextWikiLink_bounds:
  "nextWikiLink line offset = Some m \<Longrightarrow>
     offset \<le> wl_start m \<and> wl_start m + 4 \<le> wl_end m \<and> wl_end m \<le> length line \<and>
     substring line (wl_start m) (wl_start m + 2) = link_open \<and> substring line (wl_end m - 2) (wl_end m) = link_close \<and>
     parseWikiLink (substring line (wl_start m + 2) (wl_end m - 2)) = (wl_target m, wl_label m, wl_valid m)"
proof (induction line offset rule: nextWikiLink.induct)
  case (1 line offset)
  from "1.prems" obtain rs where lt: "offset < length line" and rs: "Index (drop offset line) link_open = Some rs"
    by (subst (asm) nextWikiLink.simps) (auto split: if_splits option.splits)
  let ?start = "offset + rs"
  have o: "rs + 2 \<le> length line - offset \<and> take 2 (drop ?start line) = link_open"
    using Index_Some [of "drop offset line" link_open rs] rs by (simp add: occurs_at_iff add.commute numeral_2_eq_2)
  show ?case
  proof (cases "?start > 0 \<and> line ! (?start - 1) = CHR 0x5C")
    case True
    then have "nextWikiLink line (?start + 2) = Some m"
      using "1.prems" lt rs by (subst (asm) nextWikiLink.simps) (simp add: Let_def)
    with "1.IH" [OF _ rs refl] True lt show ?thesis by simp
  next
    case False
    with "1.prems" lt rs obtain rc where rc: "Index (drop (?start + 2) line) link_close = Some rc"
      and m: "case parseWikiLink (substring line (?start + 2) (?start + 2 + rc)) of (target, label, valid) \<Rightarrow>
          m = \<lparr>wl_start = ?start, wl_end = ?start + 2 + rc + 2, wl_target = target, wl_label = label, wl_valid = valid\<rparr>"
      by (subst (asm) nextWikiLink.simps) (auto simp: Let_def split: option.splits prod.splits)
    have "rc + 2 \<le> length line - (?start + 2) \<and> take 2 (drop (?start + 2 + rc) line) = link_close"
      using Index_Some [of "drop (?start + 2) line" link_close rc] rc by (simp add: occurs_at_iff add.commute numeral_2_eq_2)
    with o m lt show ?thesis by (auto simp: substring_def split: prod.splits)
  qed
qed

section \<open>Visiting links\<close>

function walkWikiLinksLine :: "string \<Rightarrow> nat \<Rightarrow> (string \<times> string) list" where
  "walkWikiLinksLine line offset =
     (if offset \<ge> length line then []
      else case nextWikiLink line offset of
        None \<Rightarrow> []
      | Some m \<Rightarrow> (if wl_valid m then [(wl_target m, wl_label m)] else []) @ walkWikiLinksLine line (wl_end m))"
  by pat_completeness auto
termination
  by (relation "measure (\<lambda>(line, offset). length line - offset)") (auto dest: nextWikiLink_bounds)

declare walkWikiLinksLine.simps [simp del]

primrec walk_lines :: "fence_library \<Rightarrow> string \<Rightarrow> string list \<Rightarrow> (string \<times> string) list" where
  "walk_lines lib fence [] = []"
| "walk_lines lib fence (line # lines) =
     (if fence \<noteq> [] then walk_lines lib (if fl_closes lib line fence then [] else fence) lines
      else if fl_fence lib line \<noteq> [] then walk_lines lib (fl_fence lib line) lines
      else walkWikiLinksLine line 0 @ walk_lines lib [] lines)"

definition walkWikiLinks :: "fence_library \<Rightarrow> string \<Rightarrow> (string \<times> string) list" where
  "walkWikiLinks lib source = walk_lines lib [] (Split (CHR 0x0A) source)"

definition SplitHeadingTarget :: "string \<Rightarrow> string \<times> string" where
  "SplitHeadingTarget target =
     (case Cut (TrimSpace target) ''#'' of (page, heading, _) \<Rightarrow> (TrimSpace page, TrimSpace heading))"

primrec collect_links :: "(string \<times> string) list \<Rightarrow> string list \<Rightarrow> string list" where
  "collect_links [] links = links"
| "collect_links (v # vs) links =
     (let slug = Slug (fst (SplitHeadingTarget (fst v))) in
      if slug = [] \<or> slug \<in> set links then collect_links vs links else collect_links vs (links @ [slug]))"

definition Links :: "fence_library \<Rightarrow> string \<Rightarrow> string list" where
  "Links lib source = collect_links (walkWikiLinks lib source) []"

section \<open>Rewriting links\<close>

definition HeadingID :: "string \<Rightarrow> string" where
  "HeadingID value = Slug (ReplaceAll value ''/'' '' '')"

definition DefaultWikiLink :: "string \<Rightarrow> string" where
  "DefaultWikiLink target = ''/pages/'' @ Slug target"

definition markdown_link :: "(string \<Rightarrow> string) \<Rightarrow> string \<Rightarrow> string \<Rightarrow> string" where
  "markdown_link resolve target label =
     (case SplitHeadingTarget target of (pageTarget, heading) \<Rightarrow>
        ''['' @ label @ '']('' @ resolve pageTarget @ (if heading \<noteq> [] then ''#'' @ HeadingID heading else []) @ '')'')"

function rewriteWikiLinksLine :: "(string \<Rightarrow> string) \<Rightarrow> string \<Rightarrow> nat \<Rightarrow> string" where
  "rewriteWikiLinksLine resolve line offset =
     (if offset \<ge> length line then []
      else case nextWikiLink line offset of
        None \<Rightarrow> drop offset line
      | Some m \<Rightarrow>
          if \<not> wl_valid m then substring line offset (wl_end m) @ rewriteWikiLinksLine resolve line (wl_end m)
          else substring line offset (wl_start m) @ markdown_link resolve (wl_target m) (wl_label m) @
            rewriteWikiLinksLine resolve line (wl_end m))"
  by pat_completeness auto
termination
  by (relation "measure (\<lambda>(resolve, line, offset). length line - offset)") (auto dest: nextWikiLink_bounds)

declare rewriteWikiLinksLine.simps [simp del]

primrec rewrite_lines :: "fence_library \<Rightarrow> (string \<Rightarrow> string) \<Rightarrow> string \<Rightarrow> string list \<Rightarrow> string list" where
  "rewrite_lines lib resolve fence [] = []"
| "rewrite_lines lib resolve fence (line # lines) =
     (if fence \<noteq> [] then line # rewrite_lines lib resolve (if fl_closes lib line fence then [] else fence) lines
      else if fl_fence lib line \<noteq> [] then line # rewrite_lines lib resolve (fl_fence lib line) lines
      else rewriteWikiLinksLine resolve line 0 # rewrite_lines lib resolve [] lines)"

definition rewriteWikiLinks :: "fence_library \<Rightarrow> (string \<Rightarrow> string) \<Rightarrow> string \<Rightarrow> string" where
  "rewriteWikiLinks lib resolve source = Join (rewrite_lines lib resolve [] (Split (CHR 0x0A) source)) [CHR 0x0A]"

text \<open>The stored links of a page decide where a target leads.\<close>

definition resolved_links :: "page_link list \<Rightarrow> (string \<times> string) list" where
  "resolved_links links =
     fold (\<lambda>l acc. if ln_exists l then (ln_target_slug l, PageURL (ln_target_id l) (ln_resolved_slug l)) # acc else acc) links []"

definition WikiLinkResolver :: "page_link list \<Rightarrow> string \<Rightarrow> string" where
  "WikiLinkResolver links target =
     (let target = Slug target in
      case map_of (resolved_links links) target of
        None \<Rightarrow> DefaultWikiLink target
      | Some destination \<Rightarrow> if destination \<noteq> [] then destination else DefaultWikiLink target)"

section \<open>A line as text and links\<close>

text \<open>The reference: a line is a sequence of plain text and of links, which the two walks read off.\<close>

datatype link_token = Plain string | Link string string string

primrec token_source :: "link_token \<Rightarrow> string" where
  "token_source (Plain s) = s"
| "token_source (Link s target label) = s"

primrec token_links :: "link_token \<Rightarrow> (string \<times> string) list" where
  "token_links (Plain s) = []"
| "token_links (Link s target label) = [(target, label)]"

primrec token_render :: "(string \<Rightarrow> string) \<Rightarrow> link_token \<Rightarrow> string" where
  "token_render resolve (Plain s) = s"
| "token_render resolve (Link s target label) = markdown_link resolve target label"

primrec token_ok :: "link_token \<Rightarrow> bool" where
  "token_ok (Plain s) = True"
| "token_ok (Link s target label) = (\<exists>body. s = link_open @ body @ link_close \<and> parseWikiLink body = (target, label, True))"

lemma substring_append: "from \<le> m \<Longrightarrow> m \<le> to \<Longrightarrow> substring s from m @ substring s m to = substring s from to"
proof -
  assume a: "from \<le> m" "m \<le> to"
  obtain n k where n: "m = from + n" and k: "to = m + k" using a by (metis le_Suc_ex)
  have "take (n + k) (drop from s) = take n (drop from s) @ take k (drop (from + n) s)"
    using take_add [of n k "drop from s"] by (simp only: drop_drop add.commute [of n "from"])
  then show ?thesis by (simp add: substring_def n k add.assoc)
qed

lemma substring_drop: "from \<le> to \<Longrightarrow> substring s from to @ drop to s = drop from s"
proof -
  assume "from \<le> to"
  then have "drop to s = drop (to - from) (drop from s)" by simp
  then show ?thesis unfolding substring_def by (metis append_take_drop_id)
qed

lemma link_source:
  assumes "nextWikiLink line offset = Some m"
  shows "substring line (wl_start m) (wl_end m) =
    link_open @ substring line (wl_start m + 2) (wl_end m - 2) @ link_close"
proof -
  note b = nextWikiLink_bounds [OF assms]
  obtain k where k: "wl_end m = wl_start m + 2 + k + 2" using b by (metis add.assoc le_Suc_ex numeral_Bit0 add.commute)
  have "substring line (wl_start m) (wl_end m) = substring line (wl_start m) (wl_start m + 2) @
      substring line (wl_start m + 2) (wl_start m + 2 + k) @ substring line (wl_start m + 2 + k) (wl_end m)"
    unfolding k by (simp only: substring_append le_add1 add.assoc append_assoc [symmetric])
  with b show ?thesis unfolding k by simp
qed

lemma line_tokens_exist:
  "\<exists>ts. concat (map token_source ts) = drop offset line \<and> (\<forall>t \<in> set ts. token_ok t) \<and>
     walkWikiLinksLine line offset = concat (map token_links ts) \<and>
     (\<forall>resolve. rewriteWikiLinksLine resolve line offset = concat (map (token_render resolve) ts))"
proof (induction line offset rule: walkWikiLinksLine.induct)
  case (1 line offset)
  show ?case
  proof (cases "offset \<ge> length line")
    case True
    then show ?thesis
      by (intro exI [of _ "[]"]) (simp add: walkWikiLinksLine.simps rewriteWikiLinksLine.simps)
  next
    case False
    show ?thesis
    proof (cases "nextWikiLink line offset")
      case None
      with False show ?thesis
        by (intro exI [of _ "[Plain (drop offset line)]"]) (simp add: walkWikiLinksLine.simps rewriteWikiLinksLine.simps)
    next
      case (Some m)
      note b = nextWikiLink_bounds [OF Some]
      from "1.IH" [OF False Some] obtain ts where ts: "concat (map token_source ts) = drop (wl_end m) line"
        "\<forall>t \<in> set ts. token_ok t" "walkWikiLinksLine line (wl_end m) = concat (map token_links ts)"
        "\<And>resolve. rewriteWikiLinksLine resolve line (wl_end m) = concat (map (token_render resolve) ts)"
        by blast
      let ?head = "if wl_valid m
        then [Plain (substring line offset (wl_start m)), Link (substring line (wl_start m) (wl_end m)) (wl_target m) (wl_label m)]
        else [Plain (substring line offset (wl_end m))]"
      show ?thesis
      proof (intro exI [of _ "?head @ ts"] conjI allI)
        have "substring line offset (wl_start m) @ substring line (wl_start m) (wl_end m) @ drop (wl_end m) line = drop offset line"
          using b by (simp add: substring_drop)
        then show "concat (map token_source (?head @ ts)) = drop offset line"
          using b ts(1) by (simp add: substring_drop)
        show "\<forall>t \<in> set (?head @ ts). token_ok t"
          using ts(2) b link_source [OF Some] by auto
        show "walkWikiLinksLine line offset = concat (map token_links (?head @ ts))"
          using False Some ts(3) by (subst walkWikiLinksLine.simps) simp
        show "rewriteWikiLinksLine resolve line offset = concat (map (token_render resolve) (?head @ ts))" for resolve
          using False Some ts(4) by (subst rewriteWikiLinksLine.simps) simp
      qed
    qed
  qed
qed

text \<open>C35: Finding and rewriting links agree: every line splits into plain text and well-formed
  \<open>[[..]]\<close> links such that the visited links are exactly these, and rewriting replaces each of
  them by its Markdown link and leaves every other byte of the line.\<close>

theorem rewrite_replaces_visited_links:
  "\<exists>ts. concat (map token_source ts) = line \<and> list_all token_ok ts \<and>
     walkWikiLinksLine line 0 = concat (map token_links ts) \<and>
     (\<forall>resolve. rewriteWikiLinksLine resolve line 0 = concat (map (token_render resolve) ts))"
  using line_tokens_exist [of 0 line] by (simp add: list_all_iff)

section \<open>The stored links suffice for rendering\<close>

lemma set_collect_links:
  "set (collect_links vs links) = set links \<union> ((\<lambda>v. Slug (fst (SplitHeadingTarget (fst v)))) ` set vs - {[]})"
  by (induction vs arbitrary: links) (auto simp: Let_def)

lemma distinct_collect_links: "distinct links \<Longrightarrow> distinct (collect_links vs links)"
  by (induction vs arbitrary: links) (auto simp: Let_def)

lemma rewrite_line_agree:
  assumes "\<And>v. v \<in> set (walkWikiLinksLine line 0) \<Longrightarrow> r1 (fst (SplitHeadingTarget (fst v))) = r2 (fst (SplitHeadingTarget (fst v)))"
  shows "rewriteWikiLinksLine r1 line 0 = rewriteWikiLinksLine r2 line 0"
proof -
  obtain ts where ts: "walkWikiLinksLine line 0 = concat (map token_links ts)"
    "\<And>resolve. rewriteWikiLinksLine resolve line 0 = concat (map (token_render resolve) ts)"
    using line_tokens_exist [of 0 line] by auto
  have "token_render r1 t = token_render r2 t" if "t \<in> set ts" for t
  proof (cases t)
    case (Link s target label)
    then have "(target, label) \<in> set (walkWikiLinksLine line 0)" using that ts(1) by force
    from assms [OF this] Link show ?thesis
      by (cases "SplitHeadingTarget target") (simp add: markdown_link_def)
  qed simp
  then have "map (token_render r1) ts = map (token_render r2) ts" by simp
  then show ?thesis by (simp only: ts(2))
qed

lemma rewrite_lines_agree:
  assumes "\<And>v. v \<in> set (walk_lines lib fence lines) \<Longrightarrow>
    r1 (fst (SplitHeadingTarget (fst v))) = r2 (fst (SplitHeadingTarget (fst v)))"
  shows "rewrite_lines lib r1 fence lines = rewrite_lines lib r2 fence lines"
  using assms
proof (induction lines arbitrary: fence)
  case (Cons line lines)
  note prem = Cons.prems
  show ?case
  proof (cases "fence \<noteq> [] \<or> fl_fence lib line \<noteq> []")
    case True
    then show ?thesis using Cons.IH prem by (cases "fence = []") simp_all
  next
    case False
    then have fence: "fence = []" "fl_fence lib line = []" by simp_all
    have "rewriteWikiLinksLine r1 line 0 = rewriteWikiLinksLine r2 line 0"
      by (rule rewrite_line_agree) (rule prem, simp add: fence)
    moreover have "rewrite_lines lib r1 [] lines = rewrite_lines lib r2 [] lines"
      by (rule Cons.IH) (rule prem, simp add: fence)
    ultimately show ?thesis by (simp add: fence)
  qed
qed simp

text \<open>The targets a save stores are enough to render the page: they are distinct and not empty, they are
  the canonical paths of exactly the links outside code fences, and two resolvers that agree on
  the targets with a stored (or empty) canonical path rewrite the source to the same text.\<close>

lemma stored_links_suffice:
  "distinct (Links lib source) \<and>
   (slug \<in> set (Links lib source) \<longleftrightarrow>
      slug \<noteq> [] \<and> (\<exists>v \<in> set (walkWikiLinks lib source). slug = Slug (fst (SplitHeadingTarget (fst v))))) \<and>
   ((\<forall>t. Slug t \<in> insert [] (set (Links lib source)) \<longrightarrow> r1 t = r2 t) \<longrightarrow>
      rewriteWikiLinks lib r1 source = rewriteWikiLinks lib r2 source)"
proof (intro conjI impI)
  show "distinct (Links lib source)" by (simp add: Links_def distinct_collect_links)
  show "slug \<in> set (Links lib source) \<longleftrightarrow>
      slug \<noteq> [] \<and> (\<exists>v \<in> set (walkWikiLinks lib source). slug = Slug (fst (SplitHeadingTarget (fst v))))"
    by (auto simp: Links_def set_collect_links)
  assume agree: "\<forall>t. Slug t \<in> insert [] (set (Links lib source)) \<longrightarrow> r1 t = r2 t"
  have "rewrite_lines lib r1 [] (Split (CHR 0x0A) source) = rewrite_lines lib r2 [] (Split (CHR 0x0A) source)"
  proof (rule rewrite_lines_agree)
    fix v assume "v \<in> set (walk_lines lib [] (Split (CHR 0x0A) source))"
    then have "Slug (fst (SplitHeadingTarget (fst v))) \<in> insert [] (set (Links lib source))"
      by (auto simp: Links_def set_collect_links walkWikiLinks_def)
    with agree show "r1 (fst (SplitHeadingTarget (fst v))) = r2 (fst (SplitHeadingTarget (fst v)))" by blast
  qed
  then show "rewriteWikiLinks lib r1 source = rewriteWikiLinks lib r2 source" by (simp add: rewriteWikiLinks_def)
qed

text \<open>A sample: links in a fence are left alone, an escaped one too.\<close>

definition sample_fences :: fence_library where
  "sample_fences = \<lparr>fl_fence = (\<lambda>line. if HasPrefix line ''~~~'' then ''~~~'' else []),
     fl_closes = (\<lambda>line fence. HasPrefix line fence)\<rparr>"

definition sample_links_source :: string where
  "sample_links_source = ''see [[a|b]], [[a#part]]'' @ [CHR 0x0A] @ ''~~~'' @ [CHR 0x0A] @ ''[[d]]'' @ [CHR 0x0A] @ ''~~~''"

lemma sample_links: "Links sample_fences sample_links_source = [''a'']"
  by code_simp

text \<open>A resolver that differs from the default one on every page that is not linked.\<close>

end
