(* ===== verification/ReviewFeedback.thy ===== *)
theory ReviewFeedback
  imports Reviews WikiLinks
begin

text \<open>
  Line comments and suggestions on a page under review: the transactions of
  \<open>postgres/page_review_feedback.go\<close> and the use cases of
  \<open>application/pages/page_review_comments.go\<close>. Applying suggestions writes one revision of the
  page, which closes the review.
\<close>

section \<open>Content services\<close>

text \<open>
  What a page write takes from outside the store: the code fences of the Markdown SDK, and the
  optional preparer that derives the plugin usage and the rendered page from the source.
\<close>

record content_service =
  ct_fences :: fence_library
  ct_prepare :: "(string \<Rightarrow> error + (plugin_usage \<times> page_render)) option"

definition empty_render :: page_render where
  "empty_render = \<lparr>rd_html = [], rd_contents = [], rd_fingerprint = []\<rparr>"

definition preparePageContent :: "content_service \<Rightarrow> string \<Rightarrow> error + (plugin_usage \<times> page_render)" where
  "preparePageContent c source = (case ct_prepare c of None \<Rightarrow> Inr (None, empty_render) | Some prepare \<Rightarrow> prepare source)"

section \<open>Storing feedback\<close>

definition comment_order :: "review_comment \<Rightarrow> review_comment \<Rightarrow> int" where
  "comment_order l r = cmp_then (cmp_compare (rc_start l) (rc_start r))
     (cmp_then (cmp_compare (rc_created_at l) (rc_created_at r)) (cmp_compare (rc_id l) (rc_id r)))"

definition PageReviewComments :: "db \<Rightarrow> int \<Rightarrow> review_comment list" where
  "PageReviewComments d request = sort_func comment_order (filter (\<lambda>c. rc_request c = request) (db_review_comments d))"

record review_revision_state =
  lk_status :: string
  lk_revision :: int

definition lockReviewRevisionState :: "db \<Rightarrow> int \<Rightarrow> error + review_revision_state" where
  "lockReviewRevisionState d request =
     (case row_with (\<lambda>v. vw_id v = request) (db_reviews d) of
        None \<Rightarrow> Inl (InfrastructureError ''no rows in result set'')
      | Some v \<Rightarrow> Inr \<lparr>lk_status = vw_status v, lk_revision = vw_revision v\<rparr>)"

definition validateCurrentReviewRevision :: "review_revision_state \<Rightarrow> int \<Rightarrow> error + unit" where
  "validateCurrentReviewRevision s currentRevision =
     (if lk_status s \<noteq> PageReviewStatusPending then Inl ErrReviewClosed
      else if lk_revision s \<noteq> currentRevision then Inl ErrStaleReview else Inr ())"

text \<open>The check constraints of the comment table.\<close>

definition review_comment_checks :: "review_comment \<Rightarrow> bool" where
  "review_comment_checks c =
     (rc_end c \<ge> rc_start c \<and> (rc_body c \<noteq> [] \<or> rc_suggestion c) \<and>
      (\<not> rc_suggestion c \<or> rc_side c = PageReviewCommentSideNew) \<and>
      validReviewCommentSide (rc_side c) \<and> rc_start c > 0)"

definition insertPageReviewComment :: "review_comment \<Rightarrow> db \<Rightarrow> error + (review_comment \<times> db)" where
  "insertPageReviewComment c d =
     (let c = c\<lparr>rc_id := db_next_review_comment d\<rparr> in
      if \<not> review_comment_checks c then Inl (InfrastructureError ''page_review_comments_check'')
      else Inr (c, d\<lparr>db_review_comments := db_review_comments d @ [c],
                     db_next_review_comment := db_next_review_comment d + 1\<rparr>))"

definition AddPageReviewComment ::
  "env \<Rightarrow> int \<Rightarrow> string \<Rightarrow> int \<Rightarrow> string \<Rightarrow> int \<Rightarrow> int \<Rightarrow> string \<Rightarrow> bool \<Rightarrow> string \<Rightarrow> string \<Rightarrow> db \<Rightarrow>
     error + (review_comment \<times> db)" where
  "AddPageReviewComment e request slug user side startLine endLine body suggestion original replacement d =
     bindR (lockReviewPage d request slug) (\<lambda>(pid, currentRevision).
     bindR (lockReviewRevisionState d request) (\<lambda>s.
     bindR (validateCurrentReviewRevision s currentRevision) (\<lambda>_.
     insertPageReviewComment
       \<lparr>rc_id = 0, rc_request = request, rc_author = user, rc_side = side, rc_start = startLine, rc_end = endLine,
        rc_body = body, rc_suggestion = suggestion, rc_original = original, rc_replacement = replacement,
        rc_applied_by = 0, rc_applied_at = None, rc_created_at = en_now e\<rparr> d)))"

section \<open>Applying suggestions in the store\<close>

definition lockReviewSuggestionPage :: "db \<Rightarrow> int \<Rightarrow> string \<Rightarrow> error + (int \<times> int \<times> string)" where
  "lockReviewSuggestionPage d request slug =
     bindR (lockReviewPage d request slug) (\<lambda>(pid, currentRevision).
     case row_with (\<lambda>r. pw_id r = pid) (db_pages d) of
       None \<Rightarrow> Inl (InfrastructureError ''no rows in result set'')
     | Some r \<Rightarrow> Inr (pid, currentRevision, pw_markdown r))"

definition validateReviewRevision :: "db \<Rightarrow> int \<Rightarrow> int \<Rightarrow> int \<Rightarrow> error + unit" where
  "validateReviewRevision d request currentRevision expectedRevision =
     bindR (lockReviewRevisionState d request) (\<lambda>s.
     if lk_status s \<noteq> PageReviewStatusPending then Inl ErrReviewClosed
     else if lk_revision s \<noteq> expectedRevision \<or> currentRevision \<noteq> expectedRevision then Inl ErrStaleReview
     else Inr ())"

definition lockOpenReviewSuggestions :: "db \<Rightarrow> int \<Rightarrow> int list \<Rightarrow> bool \<Rightarrow> review_comment list" where
  "lockOpenReviewSuggestions d request ids allOpen =
     sort_func (\<lambda>l r. cmp_compare (rc_id l) (rc_id r))
       (filter (\<lambda>c. rc_request c = request \<and> (allOpen \<or> rc_id c \<in> set ids) \<and> rc_suggestion c \<and> rc_applied_at c = None)
          (db_review_comments d))"

definition reviewSuggestionIDs :: "review_comment list \<Rightarrow> int list" where
  "reviewSuggestionIDs suggestions = map rc_id suggestions"

definition sameReviewSuggestionIDs :: "int list \<Rightarrow> int list \<Rightarrow> bool" where
  "sameReviewSuggestionIDs expected actual =
     (if length expected \<noteq> length actual then False
      else if list_ex (\<lambda>i. i \<le> 0) expected then False
      else if length (remdups expected) \<noteq> length expected then False
      else list_all (\<lambda>i. i \<in> set expected) actual)"

definition validateSelectedReviewSuggestions :: "int list \<Rightarrow> review_comment list \<Rightarrow> bool \<Rightarrow> error + unit" where
  "validateSelectedReviewSuggestions requested suggestions applyAll =
     (if sameReviewSuggestionIDs requested (reviewSuggestionIDs suggestions) then Inr ()
      else if applyAll then Inl ErrStaleReview else Inl ErrNotFound)"

definition markReviewSuggestionsApplied :: "env \<Rightarrow> int \<Rightarrow> int \<Rightarrow> int list \<Rightarrow> db \<Rightarrow> db" where
  "markReviewSuggestionsApplied e request actor ids d =
     d\<lparr>db_review_comments := update_rows (\<lambda>c. rc_request c = request \<and> rc_id c \<in> set ids)
         (\<lambda>c. c\<lparr>rc_applied_by := actor, rc_applied_at := Some (en_now e)\<rparr>) (db_review_comments d)\<rparr>"

definition prepareReviewSuggestionApplication ::
  "db \<Rightarrow> int \<Rightarrow> string \<Rightarrow> int \<Rightarrow> int list \<Rightarrow> bool \<Rightarrow> string \<Rightarrow> error + int" where
  "prepareReviewSuggestionApplication d request slug expectedRevision ids applyAll markdown =
     bindR (lockReviewSuggestionPage d request slug) (\<lambda>(pid, currentRevision, currentMarkdown).
     bindR (validateReviewRevision d request currentRevision expectedRevision) (\<lambda>_.
     let suggestions = lockOpenReviewSuggestions d request ids applyAll in
     bindR (validateSelectedReviewSuggestions ids suggestions applyAll) (\<lambda>_.
     bindR (ApplySuggestions currentMarkdown suggestions) (\<lambda>expectedMarkdown.
     if markdown \<noteq> expectedMarkdown then Inl ErrStaleReview else Inr pid))))"

definition no_suggestion_chosen :: error where
  "no_suggestion_chosen = NewValidationError ''suggestion'' ''Choose at least one review suggestion.''"

definition ApplyPageReviewSuggestions ::
  "env \<Rightarrow> int \<Rightarrow> string \<Rightarrow> int \<Rightarrow> int \<Rightarrow> int list \<Rightarrow> bool \<Rightarrow> string \<Rightarrow> string \<Rightarrow> string list \<Rightarrow> plugin_usage \<Rightarrow>
     page_render \<Rightarrow> db \<Rightarrow> error + (page \<times> db)" where
  "ApplyPageReviewSuggestions e request slug expectedRevision actor ids applyAll markdown message links usage render d =
     requireR (ids \<noteq> []) no_suggestion_chosen
     (bindR (prepareReviewSuggestionApplication d request slug expectedRevision ids applyAll markdown) (\<lambda>pid.
      bindR (applyPreparedPageUpdate e
        \<lparr>up_page = pid, up_actor = actor, up_markdown = markdown, up_message = message, up_links = links,
         up_usage = usage, up_render = preparePageDerivedData render\<rparr>
        (markReviewSuggestionsApplied e request actor ids) d) (\<lambda>d1.
      bindR (GetPage d1 slug) (\<lambda>p. Inr (p, d1)))))"

section \<open>The use cases\<close>

record review_detail =
  dt_page :: page
  dt_request :: review_request
  dt_revision :: page_revision
  dt_comments :: "review_comment list"
  dt_can_comment :: bool
  dt_can_suggest :: bool
  dt_can_apply :: bool

record feedback_service =
  fs_policy :: "policy option"
  fs_content :: content_service
  fs_diff :: diff_library
  fs_effects :: page_effects

definition loadReviewDetail :: "env \<Rightarrow> db \<Rightarrow> int \<Rightarrow> string \<Rightarrow> error + review_detail" where
  "loadReviewDetail e d reviewID slug =
     bindR (PageReviewRequestByID e d reviewID slug) (\<lambda>request.
     bindR (GetPage d slug) (\<lambda>page.
     bindR (Revision d slug (rr_revision request)) (\<lambda>record.
     Inr \<lparr>dt_page = page, dt_request = request, dt_revision = record, dt_comments = PageReviewComments d reviewID,
          dt_can_comment = False, dt_can_suggest = False, dt_can_apply = False\<rparr>)))"

definition withReviewPermissions :: "db \<Rightarrow> review_detail \<Rightarrow> string \<Rightarrow> user \<Rightarrow> review_detail" where
  "withReviewPermissions d detail slug actor =
     (let pending = (rr_status (dt_request detail) = PageReviewStatusPending);
          canManage = (pending \<and> CanManageReview (dt_request detail) actor);
          canReview = (pending \<and> CanReview d slug actor)
      in detail\<lparr>dt_can_comment := pending \<and> (canReview \<or> canManage), dt_can_suggest := pending \<and> canReview,
                dt_can_apply := canManage\<rparr>)"

definition ReviewDetail :: "feedback_service \<Rightarrow> env \<Rightarrow> db \<Rightarrow> int \<Rightarrow> string \<Rightarrow> user \<Rightarrow> error + review_detail" where
  "ReviewDetail svc e d reviewID slug actor =
     (let slug = TrimSpace slug in
      requireR (\<not> (reviewID \<le> 0 \<or> slug = [])) ErrNotFound
      (bindR (requireView (fs_policy svc) actor slug) (\<lambda>_.
       bindR (loadReviewDetail e d reviewID slug) (\<lambda>detail. Inr (withReviewPermissions d detail slug actor)))))"

definition validateReviewCommentPermission :: "review_comment_input \<Rightarrow> review_detail \<Rightarrow> error + unit" where
  "validateReviewCommentPermission i detail =
     (if rr_status (dt_request detail) \<noteq> PageReviewStatusPending then Inl ErrReviewClosed
      else if ri_suggestion i \<and> \<not> dt_can_suggest detail then Inl ErrForbidden
      else if \<not> ri_suggestion i \<and> \<not> dt_can_comment detail then Inl ErrForbidden
      else Inr ())"

definition reviewURL :: "int \<Rightarrow> string \<Rightarrow> string" where
  "reviewURL reviewID slug = ''/reviews/'' @ show_int reviewID @ ''/'' @ TrimSpace slug"

definition recordReviewCommentEffects :: "page_effects \<Rightarrow> review_comment_input \<Rightarrow> review_detail \<Rightarrow> effect list" where
  "recordReviewCommentEffects fx i detail =
     recordAudit fx (u_id (ri_actor i)) (if ri_suggestion i then ''page.review_suggested'' else ''page.review_commented'')
       ''page'' (ri_slug i)
       (if ri_suggestion i then ''Suggested change for revision '' @ show_int (rr_revision (dt_request detail)) @ '' lines '' @
          show_int (ri_start i) @ ''-'' @ show_int (ri_end i)
        else ri_body i) @
     notifyWatchers fx (u_id (ri_actor i)) (ri_slug i) (''Review feedback: '' @ pg_title (dt_page detail))
       ''New feedback was added to a page review.'' (reviewURL (ri_review i) (ri_slug i))"

definition AddReviewComment ::
  "feedback_service \<Rightarrow> env \<Rightarrow> review_comment_input \<Rightarrow> db \<Rightarrow> error + (review_comment \<times> db \<times> effect list)" where
  "AddReviewComment svc e i d =
     (let i = normalizeReviewCommentInput i in
      bindR (validateReviewCommentInput i) (\<lambda>_.
      bindR (ReviewDetail svc e d (ri_review i) (ri_slug i) (ri_actor i)) (\<lambda>detail.
      bindR (validateReviewCommentPermission i detail) (\<lambda>_.
      bindR (reviewCommentOriginal (fs_diff svc) (dt_revision detail) i) (\<lambda>original.
      bindR (AddPageReviewComment e (ri_review i) (ri_slug i) (u_id (ri_actor i)) (ri_side i) (ri_start i) (ri_end i)
          (ri_body i) (ri_suggestion i) original (ri_replacement i) d) (\<lambda>(comment, d1).
      Inr (comment, d1, recordReviewCommentEffects (fs_effects svc) i detail)))))))"

definition suggestions_message :: "review_comment list \<Rightarrow> string" where
  "suggestions_message suggestions =
     (if length suggestions > 1 then ''Apply '' @ show_int (int (length suggestions)) @ '' review suggestions''
      else ''Apply review suggestion'')"

definition applyReviewSuggestions ::
  "feedback_service \<Rightarrow> env \<Rightarrow> int \<Rightarrow> string \<Rightarrow> int list \<Rightarrow> user \<Rightarrow> db \<Rightarrow> error + (page \<times> db \<times> effect list)" where
  "applyReviewSuggestions svc e reviewID slug chosen actor d =
     (let applyAll = (chosen = []); slug = TrimSpace slug in
      bindR (requireEdit (fs_policy svc) actor slug) (\<lambda>_.
      bindR (ReviewDetail svc e d reviewID slug actor) (\<lambda>detail.
      requireR (rr_status (dt_request detail) = PageReviewStatusPending) ErrReviewClosed
      (requireR (dt_can_apply detail) ErrForbidden
      (bindR (selectedReviewSuggestions (dt_comments detail) chosen) (\<lambda>suggestions.
      bindR (ApplySuggestions (rv_markdown (dt_revision detail)) suggestions) (\<lambda>updatedMarkdown.
      bindR (preparePageContent (fs_content svc) updatedMarkdown) (\<lambda>(usage, render).
      bindR (ApplyPageReviewSuggestions e reviewID (pg_slug (dt_page detail)) (rr_revision (dt_request detail)) (u_id actor)
          (map rc_id suggestions) applyAll updatedMarkdown (suggestions_message suggestions)
          (Links (ct_fences (fs_content svc)) updatedMarkdown) usage render d) (\<lambda>(page, d1).
      Inr (page, d1,
        recordAudit (fs_effects svc) (u_id actor) ''page.review_suggestions_applied'' ''page'' (pg_slug page)
          (suggestions_message suggestions) @
        notifyWatchers (fs_effects svc) (u_id actor) (pg_slug page) (''Review suggestions applied: '' @ pg_title page)
          (suggestions_message suggestions @ '' and created a new revision.'') (PageURL (pg_id page) (pg_slug page))))))))))))"

definition ApplyReviewSuggestion ::
  "feedback_service \<Rightarrow> env \<Rightarrow> int \<Rightarrow> string \<Rightarrow> int \<Rightarrow> user \<Rightarrow> db \<Rightarrow> error + (page \<times> db \<times> effect list)" where
  "ApplyReviewSuggestion svc e reviewID slug commentID actor d =
     requireR (commentID > 0) (NewValidationError ''suggestion'' ''Choose a valid review suggestion.'')
     (applyReviewSuggestions svc e reviewID slug [commentID] actor d)"

definition ApplyAllReviewSuggestions ::
  "feedback_service \<Rightarrow> env \<Rightarrow> int \<Rightarrow> string \<Rightarrow> user \<Rightarrow> db \<Rightarrow> error + (page \<times> db \<times> effect list)" where
  "ApplyAllReviewSuggestions svc e reviewID slug actor d = applyReviewSuggestions svc e reviewID slug [] actor d"

section \<open>A source update of a page\<close>

lemma appendPageRevision_comments:
  "appendPageRevision e i md msg actor d = Inr d' \<Longrightarrow>
     db_review_comments d' = db_review_comments d \<and> db_comments d' = db_comments d"
  by (auto simp: appendPageRevision_def insertPageRevision_def Let_def result_simps split: option.splits)

lemma other_fields [simp]:
  "db_review_comments (supersedePageReviews e i d) = db_review_comments d" "db_comments (supersedePageReviews e i d) = db_comments d"
  "db_review_comments (replacePageLinks i l d) = db_review_comments d" "db_comments (replacePageLinks i l d) = db_comments d"
  by (simp_all add: supersedePageReviews_def replacePageLinks_def)

lemma source_row_simps [simp]:
  "pw_id (source_row e u r) = pw_id r" "pw_slug (source_row e u r) = pw_slug r" "live (source_row e u r) = live r"
  "pw_markdown (source_row e u r) = up_markdown u" "pw_title (source_row e u r) = pw_title r"
  "pw_status (source_row e u r) = pw_status r"
  by (simp_all add: source_row_def Let_def live_def)

lemma applyPreparedPageUpdate_ok:
  assumes ok: "db_ok d" and s: "applyPreparedPageUpdate e u afterReviews d = Inr d'"
    and frame: "\<forall>x. core (afterReviews x) = core x"
  shows "db_ok d'" and "db_pages d' = update_rows (\<lambda>r. pw_id r = up_page u) (source_row e u) (db_pages d)"
    and "db_reviews d' = db_reviews (supersedePageReviews e (up_page u) d)"
    and "\<exists>w. db_revisions d' = db_revisions d @ [w] \<and> rw_page w = up_page u \<and>
           rw_number w = current_revision d (up_page u) + 1 \<and> rw_markdown w = up_markdown u"
proof -
  define d0 where "d0 = d\<lparr>db_pages := update_rows (\<lambda>r. pw_id r = up_page u) (source_row e u) (db_pages d)\<rparr>"
  from s obtain d2 where a: "appendPageRevision e (up_page u) (up_markdown u) (up_message u) (up_actor u) d0 = Inr d2"
    and d': "d' = replacePageLinks (up_page u) (up_links u) (afterReviews (supersedePageReviews e (up_page u) d2))"
    by (auto simp: applyPreparedPageUpdate_def d0_def Let_def result_simps)
  have pages: "db_pages d0 = update_rows (\<lambda>r. pw_id r = up_page u) (source_row e u) (db_pages d)"
    and revs: "revisions_of d0 = revisions_of d" "db_revisions d0 = db_revisions d" "current_revision d0 = current_revision d"
    and vs: "db_reviews d0 = db_reviews d"
    by (simp_all add: d0_def revisions_of_def current_revision_def fun_eq_iff)
  have sok: "store_ok d0" unfolding d0_def using ok by (intro store_ok_update_page) (simp_all add: db_ok_def)
  have others: "\<forall>x \<in> set (db_pages d0). pw_id x \<noteq> up_page u \<longrightarrow> head_ok d0 x"
  proof (intro ballI impI)
    fix x assume "x \<in> set (db_pages d0)" "pw_id x \<noteq> up_page u"
    then have "x \<in> set (db_pages d)" by (auto simp: pages table_simps split: if_splits)
    then show "head_ok d0 x" using ok by (simp add: db_ok_def head_ok_def revs)
  qed
  have body: "\<forall>x \<in> set (db_pages d0). pw_id x = up_page u \<longrightarrow> pw_markdown x = up_markdown u"
    by (auto simp: pages table_simps split: if_splits)
  note n = appendPageRevision_ok [OF sok a others body]
  have c: "core d' = core (supersedePageReviews e (up_page u) d2)" unfolding d' using frame by simp
  show "db_ok d'" unfolding db_ok_core [OF c] by (rule db_ok_supersede [OF n(1)])
  note f = core_eqD [OF c]
  show "db_pages d' = update_rows (\<lambda>r. pw_id r = up_page u) (source_row e u) (db_pages d)"
    unfolding f(1) using n(2) pages by simp
  show "db_reviews d' = db_reviews (supersedePageReviews e (up_page u) d)"
    unfolding f(4) using n(4) vs by (simp add: supersedePageReviews_def)
  show "\<exists>w. db_revisions d' = db_revisions d @ [w] \<and> rw_page w = up_page u \<and>
           rw_number w = current_revision d (up_page u) + 1 \<and> rw_markdown w = up_markdown u"
    unfolding f(3) using n(5) revs by simp
qed

lemma applyPreparedPageUpdate_comments:
  assumes "applyPreparedPageUpdate e u afterReviews d = Inr d'"
  obtains x where "db_review_comments x = db_review_comments d" and "db_comments x = db_comments d"
    and "db_review_comments d' = db_review_comments (afterReviews x)" and "db_comments d' = db_comments (afterReviews x)"
proof -
  from assms obtain d2 where
    a: "appendPageRevision e (up_page u) (up_markdown u) (up_message u) (up_actor u)
          (d\<lparr>db_pages := update_rows (\<lambda>r. pw_id r = up_page u) (source_row e u) (db_pages d)\<rparr>) = Inr d2"
    and d': "d' = replacePageLinks (up_page u) (up_links u) (afterReviews (supersedePageReviews e (up_page u) d2))"
    by (auto simp: applyPreparedPageUpdate_def Let_def result_simps)
  show ?thesis
    by (rule that [of "supersedePageReviews e (up_page u) d2"]) (use appendPageRevision_comments [OF a] in \<open>simp_all add: d'\<close>)
qed

lemma live_row_source:
  assumes "db_pages d' = update_rows (\<lambda>r. pw_id r = i) (source_row e u) (db_pages d)"
  shows "live_row d' slug = map_option (\<lambda>r. if pw_id r = i then source_row e u r else r) (live_row d slug)"
  unfolding live_row_def assms by (rule row_with_update) simp

lemma core_mark_applied [simp]: "core (markReviewSuggestionsApplied e r a ids d) = core d"
  by (simp add: markReviewSuggestionsApplied_def core_def)

lemma core_insert_comment: "insertPageReviewComment c d = Inr (c', d') \<Longrightarrow> core d' = core d"
  by (auto simp: insertPageReviewComment_def Let_def core_def split: if_splits)

lemma AddPageReviewComment_Inr:
  "AddPageReviewComment e i slug user side a b body sg orig repl d = Inr (c, d') \<Longrightarrow>
     \<exists>p v. review_of_page d i slug = Some (p, v) \<and> core d' = core d \<and>
       c = \<lparr>rc_id = db_next_review_comment d, rc_request = i, rc_author = user, rc_side = side, rc_start = a, rc_end = b,
        rc_body = body, rc_suggestion = sg, rc_original = orig, rc_replacement = repl,
        rc_applied_by = 0, rc_applied_at = None, rc_created_at = en_now e\<rparr> \<and> review_comment_checks c \<and>
       db_review_comments d' = db_review_comments d @ [c]"
  by (auto simp: AddPageReviewComment_def lockReviewPage_def insertPageReviewComment_def Let_def core_def result_simps
      split: option.splits if_splits)

lemma AddPageReviewComment_keeps_ok:
  "db_ok d \<Longrightarrow> AddPageReviewComment e i slug user side a b body sg orig repl d = Inr (c, d') \<Longrightarrow> db_ok d'"
  using AddPageReviewComment_Inr db_ok_core by blast

lemma row_with_page:
  assumes "store_ok d" and "r \<in> set (db_pages d)"
  shows "row_with (\<lambda>x. pw_id x = pw_id r) (db_pages d) = Some r"
  by (rule row_with_unique [where k = pw_id and x = "pw_id r"]) (use assms in \<open>auto simp: store_ok_def pages_ok_def\<close>)

lemma ApplyPageReviewSuggestions_Inr:
  assumes ok: "store_ok d"
    and s: "ApplyPageReviewSuggestions e i slug expected actor ids al md msg links usage render d = Inr (p, d')"
  obtains r v u where "review_of_page d i slug = Some (r, v)" and "pending v" and "vw_revision v = expected"
    and "current_revision d (pw_id r) = expected" and "ids \<noteq> []"
    and "sameReviewSuggestionIDs ids (map rc_id (lockOpenReviewSuggestions d i ids al))"
    and "ApplySuggestions (pw_markdown r) (lockOpenReviewSuggestions d i ids al) = Inr md"
    and "up_page u = pw_id r" and "up_markdown u = md"
    and "applyPreparedPageUpdate e u (markReviewSuggestionsApplied e i actor ids) d = Inr d'" and "GetPage d' slug = Inr p"
proof -
  from s obtain pid where pre: "ids \<noteq> []" "prepareReviewSuggestionApplication d i slug expected ids al md = Inr pid"
    and up: "applyPreparedPageUpdate e \<lparr>up_page = pid, up_actor = actor, up_markdown = md, up_message = msg, up_links = links,
         up_usage = usage, up_render = preparePageDerivedData render\<rparr> (markReviewSuggestionsApplied e i actor ids) d = Inr d'"
    and g: "GetPage d' slug = Inr p"
    by (auto simp: ApplyPageReviewSuggestions_def result_simps)
  from pre(2) obtain r :: page_row and v :: review_row and row where rv: "review_of_page d i slug = Some (r, v)"
    and row: "row_with (\<lambda>x. pw_id x = pw_id r) (db_pages d) = Some row"
    and val: "validateReviewRevision d i (current_revision d (pw_id r)) expected = Inr ()"
    and sel: "validateSelectedReviewSuggestions ids (lockOpenReviewSuggestions d i ids al) al = Inr ()"
    and app: "ApplySuggestions (pw_markdown row) (lockOpenReviewSuggestions d i ids al) = Inr md" and pid: "pid = pw_id r"
    by (auto simp: prepareReviewSuggestionApplication_def lockReviewSuggestionPage_def lockReviewPage_def Let_def result_simps
        split: option.splits if_splits)
  note rv' = review_of_page_Some [OF rv]
  have "row_with (\<lambda>v. vw_id v = i) (db_reviews d) = Some v" using row_with_review [OF ok] rv' by blast
  then have v: "pending v" "vw_revision v = expected" "current_revision d (pw_id r) = expected"
    using val by (auto simp: validateReviewRevision_def lockReviewRevisionState_def pending_def split: if_splits)
  have "row = r" using row row_with_page [OF ok] live_row_Some [of d slug r] rv' by simp
  moreover have "sameReviewSuggestionIDs ids (map rc_id (lockOpenReviewSuggestions d i ids al))"
    using sel by (auto simp: validateSelectedReviewSuggestions_def reviewSuggestionIDs_def split: if_splits)
  ultimately show ?thesis using that [OF rv v pre(1) _ _ _ _ up g] app pid by simp
qed

lemma ApplyPageReviewSuggestions_keeps_ok:
  assumes "db_ok d" and "ApplyPageReviewSuggestions e i slug expected actor ids al md msg links usage render d = Inr (p, d')"
  shows "db_ok d'"
proof -
  have "store_ok d" using assms(1) by (simp add: db_ok_def)
  from this assms(2) obtain u where "applyPreparedPageUpdate e u (markReviewSuggestionsApplied e i actor ids) d = Inr d'"
    by (rule ApplyPageReviewSuggestions_Inr) (rule that)
  from applyPreparedPageUpdate_ok(1) [OF assms(1) this] show ?thesis by simp
qed

lemma mem_update_rows: "c \<in> set (update_rows P f rows) \<Longrightarrow> \<exists>y \<in> set rows. c = (if P y then f y else y)"
  unfolding update_rows_def by auto

lemma field_list_Nil:
  "(if c then [x] else []) @ ys = [] \<longleftrightarrow> \<not> c \<and> ys = []" "(if c then [x] else []) = [] \<longleftrightarrow> \<not> c"
  by simp_all

lemma validateReviewCommentInput_Inr:
  assumes "validateReviewCommentInput i = Inr u"
  shows "validReviewCommentSide (ri_side i)" "validReviewCommentLineRange (ri_start i) (ri_end i)"
    "length (ri_body i) \<le> 8 * 1024" "ri_suggestion i \<Longrightarrow> ri_side i = PageReviewCommentSideNew"
    "ri_suggestion i \<Longrightarrow> length (ri_replacement i) \<le> 64 * 1024"
proof -
  have e: "validateReviewCommentIdentity i = []" "validateReviewCommentContent i = []"
    using assms by (simp_all add: validateReviewCommentInput_def Let_def split: if_splits)
  note f = e(1) [unfolded validateReviewCommentIdentity_def field_list_Nil] e(2) [unfolded validateReviewCommentContent_def field_list_Nil]
  show "validReviewCommentSide (ri_side i)" "validReviewCommentLineRange (ri_start i) (ri_end i)" using f(1) by blast+
  show "length (ri_body i) \<le> 8 * 1024" using f(2) by linarith
  show "ri_suggestion i \<Longrightarrow> ri_side i = PageReviewCommentSideNew" using f(2) by blast
  show "ri_suggestion i \<Longrightarrow> length (ri_replacement i) \<le> 64 * 1024" using f(2) by linarith
qed

text \<open>What a successful comment rests on.\<close>

lemma AddReviewComment_Inr:
  assumes ok: "store_ok d" and s: "AddReviewComment svc e i d = Inr (c, d', fx)"
  obtains i' p v rev where "i' = normalizeReviewCommentInput i" and "validateReviewCommentInput i' = Inr ()"
    and "review_of_page d (ri_review i') (ri_slug i') = Some (p, v)"
    and "Revision d (ri_slug i') (vw_revision v) = Inr rev"
    and "reviewCommentOriginal (fs_diff svc) rev i' = Inr (rc_original c)"
    and "vw_status v = PageReviewStatusPending" and "vw_revision v = current_revision d (pw_id p)"
    and "rc_side c = ri_side i'" and "rc_start c = ri_start i'" and "rc_end c = ri_end i'" and "rc_body c = ri_body i'"
    and "rc_suggestion c = ri_suggestion i'" and "rc_replacement c = ri_replacement i'" and "core d' = core d"
    and "db_review_comments d' = db_review_comments d @ [c]"
proof -
  let ?i = "normalizeReviewCommentInput i"
  have slug: "TrimSpace (ri_slug ?i) = ri_slug ?i" by (simp add: normalizeReviewCommentInput_def)
  from s obtain u detail orig where val: "validateReviewCommentInput ?i = Inr u"
    and det: "ReviewDetail svc e d (ri_review ?i) (ri_slug ?i) (ri_actor ?i) = Inr detail"
    and orig: "reviewCommentOriginal (fs_diff svc) (dt_revision detail) ?i = Inr orig"
    and add: "AddPageReviewComment e (ri_review ?i) (ri_slug ?i) (u_id (ri_actor ?i)) (ri_side ?i) (ri_start ?i) (ri_end ?i)
          (ri_body ?i) (ri_suggestion ?i) orig (ri_replacement ?i) d = Inr (c, d')"
    unfolding AddReviewComment_def Let_def by (auto simp: result_simps split_paired_all)
  from det obtain d0 where load: "loadReviewDetail e d (ri_review ?i) (ri_slug ?i) = Inr d0" and rev0: "dt_revision detail = dt_revision d0"
    unfolding ReviewDetail_def Let_def slug by (auto simp: result_simps withReviewPermissions_def Let_def)
  from load obtain p v where pv: "review_of_page d (ri_review ?i) (ri_slug ?i) = Some (p, v)"
    and rev: "Revision d (ri_slug ?i) (vw_revision v) = Inr (dt_revision d0)"
    by (auto simp: loadReviewDetail_def PageReviewRequestByID_def result_simps scanPageReviewRequest_def split: option.splits)
  note v = review_of_page_Some [OF pv]
  have row: "row_with (\<lambda>v. vw_id v = ri_review ?i) (db_reviews d) = Some v" using row_with_review [OF ok] v by blast
  from add have st: "vw_status v = PageReviewStatusPending" "vw_revision v = current_revision d (pw_id p)"
    using pv row by (auto simp: AddPageReviewComment_def lockReviewPage_def lockReviewRevisionState_def
        validateCurrentReviewRevision_def result_simps split: if_splits)
  note a = AddPageReviewComment_Inr [OF add]
  show ?thesis
    by (rule that [of ?i p v "dt_revision d0"]) (use val pv rev orig rev0 st a in auto)
qed

lemma AddReviewComment_keeps_ok: "db_ok d \<Longrightarrow> AddReviewComment svc e i d = Inr (c, d', fx) \<Longrightarrow> db_ok d'"
  by (metis AddReviewComment_Inr db_ok_core db_ok_def)

section \<open>A page with a suggestion\<close>

definition sample_diff :: diff_library where
  "sample_diff = \<lparr>dlib_split = (\<lambda>s. [s]),
     dlib_unified = (\<lambda>_ _ _ _ _. Some (''@@ -1 +1 @@'' @ newline # ''-'' @ newline # ''+x'')), dlib_format = show_int\<rparr>"

definition sample_content :: content_service where
  "sample_content = \<lparr>ct_fences = sample_fences, ct_prepare = None\<rparr>"

definition sample_feedback :: feedback_service where
  "sample_feedback = \<lparr>fs_policy = None, fs_content = sample_content, fs_diff = sample_diff, fs_effects = rs_effects sample_reviews\<rparr>"

definition sample_comment :: "string \<Rightarrow> bool \<Rightarrow> review_comment_input" where
  "sample_comment side sg = \<lparr>ri_review = 1, ri_slug = ''a'', ri_side = side, ri_start = 1, ri_end = 1, ri_body = ''b'',
     ri_suggestion = sg, ri_replacement = ''y'', ri_actor = account 2 UserRoleAdmin\<rparr>"

lemma sample_visible:
  "visible_lines sample_diff r PageReviewCommentSideNew = [1]" "visible_lines sample_diff r PageReviewCommentSideOld = [1]"
proof -
  have one: "rangeStart ''1'' = 1"
    by (simp add: rangeStart_def Cut_def parse_int64_def is_digit_def digits_value_def)
  have hunk: "hunkStarts ''@@ -1 +1 @@'' = (1, 1)"
    by (simp add: hunkStarts_def CutPrefix_def HasPrefix_def Cut_def one)
  have split: "Split newline (TrimSuffix (''@@ -1 +1 @@'' @ newline # ''-'' @ newline # ''+x'') [newline]) = [''@@ -1 +1 @@'', ''-'', ''+x'']"
    by code_simp
  have "rv_diff (Analyze sample_diff r) = diff_rows [''@@ -1 +1 @@'', ''-'', ''+x''] 0 0"
    unfolding Analyze_def revision_diff_def sample_diff_def Let_def
    by (simp add: split [simplified] split: prod.splits)
  then show "visible_lines sample_diff r PageReviewCommentSideNew = [1]" "visible_lines sample_diff r PageReviewCommentSideOld = [1]"
    by (simp_all add: visible_lines_def diff_row_def HasPrefix_def Let_def hunk)
qed

lemma sample_validated:
  "validateReviewCommentInput (sample_comment PageReviewCommentSideNew True) = Inr ()"
  "validateReviewCommentInput (sample_comment PageReviewCommentSideOld False) = Inr ()"
  by (simp_all add: validateReviewCommentInput_def validateReviewCommentIdentity_def validateReviewCommentContent_def
      sample_comment_def validReviewCommentSide_def validReviewCommentLineRange_def)

lemma sample_normalized: "normalizeReviewCommentInput (sample_comment side sg) = sample_comment side sg"
proof -
  have "TrimSpace ''a'' = ''a''" "TrimSpace ''b'' = ''b''" "normalizeSuggestionText ''y'' = ''y''" by code_simp+
  then show ?thesis by (simp add: normalizeReviewCommentInput_def sample_comment_def)
qed

definition sample_detail_ok :: "review_detail \<Rightarrow> bool" where
  "sample_detail_ok dt = (validateReviewCommentPermission (sample_comment PageReviewCommentSideNew True) dt = Inr () \<and>
     validateReviewCommentPermission (sample_comment PageReviewCommentSideOld False) dt = Inr () \<and>
     rv_markdown (dt_revision dt) = ''x'' \<and> rv_previous (dt_revision dt) = [])"

lemma sample_detail:
  "\<exists>dt. ReviewDetail sample_feedback (sample_env 25) reviewing_db 1 ''a'' (account 2 UserRoleAdmin) = Inr dt \<and> sample_detail_ok dt"
proof -
  have "case ReviewDetail sample_feedback (sample_env 25) reviewing_db 1 ''a'' (account 2 UserRoleAdmin) of
      Inl _ \<Rightarrow> False | Inr dt \<Rightarrow> sample_detail_ok dt" by code_simp
  then show ?thesis by (auto split: sum.splits)
qed

lemma sample_accepted:
  assumes "(side, sg, orig) \<in> {(PageReviewCommentSideNew, True, ''x''), (PageReviewCommentSideOld, False, [])}"
  shows "\<exists>c fx. AddReviewComment sample_feedback (sample_env 25) (sample_comment side sg) reviewing_db =
    Inr (c, state_of (AddPageReviewComment (sample_env 25) 1 ''a'' 2 side 1 1 ''b'' sg orig ''y'' reviewing_db), fx)"
proof -
  let ?i = "sample_comment side sg"
  have f: "ri_review ?i = 1" "ri_slug ?i = ''a''" "ri_actor ?i = account 2 UserRoleAdmin" "ri_side ?i = side" "ri_start ?i = 1"
    "ri_end ?i = 1" "ri_body ?i = ''b''" "ri_suggestion ?i = sg" "ri_replacement ?i = ''y''" by (simp_all add: sample_comment_def)
  obtain dt where dt: "ReviewDetail sample_feedback (sample_env 25) reviewing_db 1 ''a'' (account 2 UserRoleAdmin) = Inr dt"
    "sample_detail_ok dt" using sample_detail by blast
  have lr: "LineRange ''x'' 1 1 = Some ''x''" "LineRange [] 1 1 = Some []" by code_simp+
  have o: "reviewCommentOriginal sample_diff (dt_revision dt) ?i = Inr orig"
    using assms dt(2) lr by (auto simp: reviewCommentOriginal_def reviewRangeVisible_def sample_visible f sample_detail_ok_def)
  have v: "validateReviewCommentInput ?i = Inr ()" "validateReviewCommentPermission ?i dt = Inr ()"
    using assms dt(2) sample_validated by (auto simp: sample_detail_ok_def)
  have "\<not> isl (AddPageReviewComment (sample_env 25) 1 ''a'' 2 PageReviewCommentSideNew 1 1 ''b'' True ''x'' ''y'' reviewing_db)"
    "\<not> isl (AddPageReviewComment (sample_env 25) 1 ''a'' 2 PageReviewCommentSideOld 1 1 ''b'' False [] ''y'' reviewing_db)"
    by code_simp+
  then have "\<not> isl (AddPageReviewComment (sample_env 25) 1 ''a'' 2 side 1 1 ''b'' sg orig ''y'' reviewing_db)"
    using assms by auto
  then obtain c d' where a: "AddPageReviewComment (sample_env 25) 1 ''a'' (u_id (account 2 UserRoleAdmin)) side 1 1 ''b'' sg orig ''y'' reviewing_db = Inr (c, d')"
    using not_isl_pair [of "AddPageReviewComment (sample_env 25) 1 ''a'' 2 side 1 1 ''b'' sg orig ''y'' reviewing_db"]
    by (auto simp: account_def)
  have diff: "fs_diff sample_feedback = sample_diff" by (simp add: sample_feedback_def)
  have "u_id (account 2 UserRoleAdmin) = 2" by (simp add: account_def)
  with a show ?thesis
    by (simp add: AddReviewComment_def Let_def sample_normalized v dt(1) f o diff state_of_def)
qed

definition suggested_db :: db where
  "suggested_db = state_of (AddPageReviewComment (sample_env 25) 1 ''a'' 2 PageReviewCommentSideNew 1 1 ''b'' True ''x'' ''y'' reviewing_db)"

lemma suggested_db_reached:
  "\<exists>c fx. AddReviewComment sample_feedback (sample_env 25) (sample_comment PageReviewCommentSideNew True) reviewing_db =
     Inr (c, suggested_db, fx)"
  unfolding suggested_db_def by (rule sample_accepted) simp

lemma suggested_db_ok: "db_ok suggested_db"
  using suggested_db_reached AddReviewComment_keeps_ok [OF reviewing_db_ok] by blast

section \<open>Properties\<close>

text \<open>C34: Applying suggestions is one edit (comment identifiers being distinct): it succeeds only while the
  review is pending on the current revision, for exactly the open suggestions chosen; the page then has the text in which they
  are all applied to its current text, its history has one more revision with that text, no
  review of the page is pending, the chosen suggestions are marked as applied by the actor,
  and an attempt to apply suggestions of this review that directly follows fails, whoever makes it and
  with whatever arguments.\<close>

theorem suggestions_become_one_revision:
  assumes ok: "db_ok d" and unique: "distinct (map rc_id (db_review_comments d))"
    and s: "ApplyPageReviewSuggestions e i slug expected actor ids al md msg links usage render d = Inr (p, d')"
  shows "\<exists>r v w. review_of_page d i slug = Some (r, v) \<and> pending v \<and> vw_revision v = expected \<and>
    current_revision d (pw_id r) = expected \<and>
    ApplySuggestions (pw_markdown r) (lockOpenReviewSuggestions d i ids al) = Inr md \<and>
    set ids = rc_id ` set (lockOpenReviewSuggestions d i ids al) \<and>
    pg_id p = pw_id r \<and> pg_slug p = slug \<and> pg_markdown p = md \<and>
    db_revisions d' = db_revisions d @ [w] \<and> rw_page w = pw_id r \<and> rw_number w = expected + 1 \<and> rw_markdown w = md \<and>
    (\<forall>x \<in> set (db_reviews d'). vw_page x = pw_id r \<longrightarrow> \<not> pending x) \<and>
    (\<forall>c \<in> set (db_review_comments d'). rc_request c = i \<and> rc_id c \<in> set ids \<longrightarrow>
       rc_applied_by c = actor \<and> rc_applied_at c = Some (en_now e)) \<and>
    (\<forall>e2 expected2 actor2 ids2 al2 md2 msg2 links2 usage2 render2.
       isl (ApplyPageReviewSuggestions e2 i slug expected2 actor2 ids2 al2 md2 msg2 links2 usage2 render2 d'))"
proof -
  have sok: "store_ok d" using ok by (simp add: db_ok_def)
  let ?ss = "lockOpenReviewSuggestions d i ids al"
  from sok s obtain r v u where rv: "review_of_page d i slug = Some (r, v)" and v: "pending v" "vw_revision v = expected"
    and cur: "current_revision d (pw_id r) = expected" and ids: "sameReviewSuggestionIDs ids (map rc_id ?ss)"
    and app: "ApplySuggestions (pw_markdown r) ?ss = Inr md" and u: "up_page u = pw_id r" "up_markdown u = md"
    and up: "applyPreparedPageUpdate e u (markReviewSuggestionsApplied e i actor ids) d = Inr d'" and g: "GetPage d' slug = Inr p"
    by (rule ApplyPageReviewSuggestions_Inr) (rule that)
  note rv' = review_of_page_Some [OF rv]
  have fr: "\<forall>x. core (markReviewSuggestionsApplied e i actor ids x) = core x" by simp
  note n = applyPreparedPageUpdate_ok [OF ok up fr, unfolded u]
  have lr: "live_row d' slug = Some (source_row e u r)" using live_row_source [OF n(2)] rv' by simp
  then have p: "p = complete_page d' (source_row e u r)" using g by (simp add: GetPage_def)
  have none: "\<forall>x \<in> set (db_reviews d'). vw_page x = pw_id r \<longrightarrow> \<not> pending x"
    unfolding n(3) using open_reviews_superseded by (fastforce simp: pending_def)
  have set: "set ids = rc_id ` set ?ss"
  proof -
    have len: "length ids = length (map rc_id ?ss)" and sub: "set (map rc_id ?ss) \<subseteq> set ids"
      using ids by (auto simp: sameReviewSuggestionIDs_def list_all_iff split: if_splits)
    have "length (remdups ids) = length ids" using ids unfolding sameReviewSuggestionIDs_def by presburger
    then have "distinct ids" by simp
    moreover have "distinct (map rc_id ?ss)"
    proof -
      have "mset (map rc_id ?ss) = mset (map rc_id (filter (\<lambda>c. rc_request c = i \<and> (al \<or> rc_id c \<in> set ids) \<and>
          rc_suggestion c \<and> rc_applied_at c = None) (db_review_comments d)))"
        by (simp add: lockOpenReviewSuggestions_def)
      from mset_eq_imp_distinct_iff [OF this] distinct_map_filter [OF unique] show ?thesis by blast
    qed
    ultimately have "card (set (map rc_id ?ss)) = card (set ids)" using len by (metis distinct_card)
    then have "set (map rc_id ?ss) = set ids" using sub by (intro card_subset_eq) simp_all
    then show ?thesis by simp
  qed
  obtain x where x: "db_review_comments d' = db_review_comments (markReviewSuggestionsApplied e i actor ids x)"
    using applyPreparedPageUpdate_comments [OF up] by metis
  have marked: "\<forall>c \<in> set (db_review_comments d'). rc_request c = i \<and> rc_id c \<in> set ids \<longrightarrow>
       rc_applied_by c = actor \<and> rc_applied_at c = Some (en_now e)"
  proof (intro ballI impI)
    fix c assume "c \<in> set (db_review_comments d')"
    then have mem: "c \<in> set (update_rows (\<lambda>c. rc_request c = i \<and> rc_id c \<in> set ids)
         (\<lambda>c. c\<lparr>rc_applied_by := actor, rc_applied_at := Some (en_now e)\<rparr>) (db_review_comments x))"
      unfolding x markReviewSuggestionsApplied_def by simp
    assume c: "rc_request c = i \<and> rc_id c \<in> set ids"
    from mem_update_rows [OF mem] obtain y where "c = (if rc_request y = i \<and> rc_id y \<in> set ids
        then y\<lparr>rc_applied_by := actor, rc_applied_at := Some (en_now e)\<rparr> else y)" by blast
    with c show "rc_applied_by c = actor \<and> rc_applied_at c = Some (en_now e)" by (simp split: if_splits)
  qed
  have later: "isl (ApplyPageReviewSuggestions e2 i slug expected2 actor2 ids2 al2 md2 msg2 links2 usage2 render2 d')"
    for e2 expected2 actor2 ids2 al2 md2 msg2 links2 usage2 render2
  proof (cases "ApplyPageReviewSuggestions e2 i slug expected2 actor2 ids2 al2 md2 msg2 links2 usage2 render2 d'")
    case (Inr a)
    obtain p2 d2 where "a = (p2, d2)" by (rule prod.exhaust)
    with Inr have s2: "ApplyPageReviewSuggestions e2 i slug expected2 actor2 ids2 al2 md2 msg2 links2 usage2 render2 d' = Inr (p2, d2)" by simp
    have "store_ok d'" using n(1) by (simp add: db_ok_def)
    from this s2 obtain r2 v2 where "review_of_page d' i slug = Some (r2, v2)" "pending v2"
      by (rule ApplyPageReviewSuggestions_Inr) (rule that)
    with none lr show ?thesis using review_of_page_Some by fastforce
  qed simp
  have pf: "pg_id p = pw_id r" "pg_slug p = slug" "pg_markdown p = md"
    using live_row_Some [of d slug r] rv' u(2) by (simp_all add: p)
  from n(4) obtain w where w: "db_revisions d' = db_revisions d @ [w]" "rw_page w = pw_id r" "rw_number w = expected + 1" "rw_markdown w = md"
    using cur by blast
  show ?thesis
    using rv v cur app set pf w none marked later
    by - (intro exI [of _ r] exI [of _ v] exI [of _ w] conjI allI; assumption)
qed

theorem suggestions_become_one_revision_witness:
  "\<exists>p d'. ApplyPageReviewSuggestions (sample_env 30) 1 ''a'' 1 1 [1] False ''y'' ''m'' [] None empty_render suggested_db = Inr (p, d') \<and>
     pg_markdown p = ''y'' \<and> (\<exists>w. db_revisions d' = db_revisions suggested_db @ [w] \<and> rw_markdown w = ''y'')"
proof -
  have "\<not> isl (ApplyPageReviewSuggestions (sample_env 30) 1 ''a'' 1 1 [1] False ''y'' ''m'' [] None empty_render suggested_db)"
    by code_simp
  then obtain p d' where r: "ApplyPageReviewSuggestions (sample_env 30) 1 ''a'' 1 1 [1] False ''y'' ''m'' [] None empty_render suggested_db = Inr (p, d')"
    using not_isl_pair by blast
  have "distinct (map rc_id (db_review_comments suggested_db))" by code_simp
  from suggestions_become_one_revision [OF suggested_db_ok this r] r show ?thesis by blast
qed

text \<open>A stored comment is within its bounds and quotes the reviewed text: it is anchored on 1 to 200
  lines, its text has at most 8 KiB, the replacement of a suggestion at most 64 KiB and no
  carriage return; a suggestion is on the new side, and its original text is the text of its
  lines in the current source of the page, so that applying it alone succeeds.\<close>

lemma stored_comment_bounds:
  assumes ok: "db_ok d" and s: "AddReviewComment svc e i d = Inr (c, d', fx)"
  shows "1 \<le> rc_start c \<and> rc_start c \<le> rc_end c \<and> rc_end c < rc_start c + 200 \<and> length (rc_body c) \<le> 8192 \<and>
    (rc_suggestion c \<longrightarrow> length (rc_replacement c) \<le> 65536 \<and> CHR 0x0D \<notin> set (rc_replacement c) \<and>
       rc_side c = PageReviewCommentSideNew \<and>
       (\<exists>p. live_row d' (TrimSpace (ri_slug i)) = Some p \<and> anchored (pw_markdown p) c \<and>
          (\<exists>out. ApplySuggestions (pw_markdown p) [c] = Inr out))) \<and>
    db_review_comments d' = db_review_comments d @ [c]"
proof -
  have sok: "store_ok d" using ok by (simp add: db_ok_def)
  from sok s obtain i' p v rev where i': "i' = normalizeReviewCommentInput i" and val: "validateReviewCommentInput i' = Inr ()"
    and pv: "review_of_page d (ri_review i') (ri_slug i') = Some (p, v)"
    and rev: "Revision d (ri_slug i') (vw_revision v) = Inr rev"
    and orig: "reviewCommentOriginal (fs_diff svc) rev i' = Inr (rc_original c)"
    and cur: "vw_revision v = current_revision d (pw_id p)"
    and c: "rc_side c = ri_side i'" "rc_start c = ri_start i'" "rc_end c = ri_end i'" "rc_body c = ri_body i'"
      "rc_suggestion c = ri_suggestion i'" "rc_replacement c = ri_replacement i'" and core: "core d' = core d"
    and stored: "db_review_comments d' = db_review_comments d @ [c]"
    by (rule AddReviewComment_Inr) (rule that)
  note val' = validateReviewCommentInput_Inr [OF val]
  have lr: "live_row d (ri_slug i') = Some p" and slug: "ri_slug i' = TrimSpace (ri_slug i)"
    using review_of_page_Some [OF pv] by (simp_all add: i' normalizeReviewCommentInput_def)
  have "rc_suggestion c \<Longrightarrow> anchored (pw_markdown p) c"
  proof -
    assume sg: "rc_suggestion c"
    have "rv_markdown rev = pw_markdown p"
    proof -
      have r: "revisions_ok d" and h: "head_ok d p"
        using ok live_row_Some [OF lr] by (auto simp: db_ok_def store_ok_def)
      let ?rs = "revisions_of d (pw_id p)"
      have ne: "?rs \<noteq> []" using h by (simp add: head_ok_def)
      then have "1 \<le> int (length ?rs)" by (cases ?rs) simp_all
      from revision_number_nth [OF r this order_refl] ne
      have "revision_number d (pw_id p) (int (length ?rs)) = Some (last ?rs)" by (simp add: last_conv_nth nat_diff_distrib')
      then show ?thesis
        using rev h lr by (auto simp: Revision_def cur current_revision_length [OF r] to_revision_def head_ok_def)
    qed
    then show ?thesis
      using orig val'(4) sg c by (auto simp: anchored_def reviewCommentOriginal_def Let_def split: if_splits option.splits)
  qed
  then have "rc_suggestion c \<Longrightarrow> \<exists>out. ApplySuggestions (pw_markdown p) [c] = Inr out"
    by (simp add: ApplySuggestions_eq)
  moreover have "CHR 0x0D \<notin> set (rc_replacement c)"
    using normalizeSuggestionText_no_CR by (simp add: c i' normalizeReviewCommentInput_def)
  moreover have "live_row d' = live_row d" by (rule core_eqD(12) [OF core])
  ultimately show ?thesis
    using val' c stored lr slug \<open>rc_suggestion c \<Longrightarrow> anchored (pw_markdown p) c\<close>
    by (auto simp: validReviewCommentLineRange_def)
qed

text \<open>
  The revision that the review page works on is loaded without its predecessor, so the old side of
  the displayed difference is the empty text.
\<close>

lemma LineRange_Nil: "LineRange [] a b = Some t \<Longrightarrow> a = 1 \<and> b = 1 \<and> t = []"
  by (auto simp: LineRange_def Let_def split: if_splits)

text \<open>Comments on the old side quote nothing: whatever the previous revision was, a comment on the old
  side of a review is accepted only for line 1, and the text stored as its original is empty.\<close>

lemma old_side_comments_quote_nothing:
  assumes ok: "db_ok d" and s: "AddReviewComment svc e i d = Inr (c, d', fx)" and old: "ri_side i = PageReviewCommentSideOld"
  shows "rc_start c = 1 \<and> rc_end c = 1 \<and> rc_original c = []"
proof -
  have sok: "store_ok d" using ok by (simp add: db_ok_def)
  from sok s obtain i' and v :: review_row and rev where i': "i' = normalizeReviewCommentInput i"
    and rev: "Revision d (ri_slug i') (vw_revision v) = Inr rev"
    and orig: "reviewCommentOriginal (fs_diff svc) rev i' = Inr (rc_original c)"
    and c: "rc_start c = ri_start i'" "rc_end c = ri_end i'"
    by (rule AddReviewComment_Inr) (rule that)
  have "rv_previous rev = []" using rev by (auto simp: Revision_def to_revision_def split: option.splits)
  moreover have "ri_side i' = PageReviewCommentSideOld" using old by (simp add: i' normalizeReviewCommentInput_def)
  ultimately have "LineRange [] (ri_start i') (ri_end i') = Some (rc_original c)"
    using orig by (auto simp: reviewCommentOriginal_def Let_def split: if_splits option.splits)
  from LineRange_Nil [OF this] c show ?thesis by simp
qed

end
