(* ===== verification/Discussions.thy ===== *)
theory Discussions
  imports ReviewFeedback
begin

text \<open>
  Page discussions: comments, replies and inline Markdown suggestions, from the transactions of
  \<open>postgres/page_comments.go\<close> and the use cases of \<open>application/pages/page_discussions.go\<close>. An
  inline suggestion is bound to the revision and the byte range it was made on, and applies only
  while both are current.
\<close>

section \<open>Reading comments\<close>

text \<open>The page that a comment query joins.\<close>

definition comment_in :: "page_row \<Rightarrow> page_comment \<Rightarrow> bool" where
  "comment_in p c = (pc_page c = pw_id p)"

definition PageComments :: "db \<Rightarrow> string \<Rightarrow> page_comment list" where
  "PageComments d slug =
     (case live_row d slug of
        None \<Rightarrow> []
      | Some p \<Rightarrow> sort_func
          (\<lambda>l r. cmp_then (cmp_compare (pc_resolved l \<noteq> None) (pc_resolved r \<noteq> None))
             (cmp_compare (pc_created_at l) (pc_created_at r)))
          (filter (comment_in p) (db_comments d)))"

definition PageComment :: "db \<Rightarrow> string \<Rightarrow> int \<Rightarrow> error + page_comment" where
  "PageComment d slug cid =
     (case live_row d slug of
        None \<Rightarrow> Inl ErrCommentNotFound
      | Some p \<Rightarrow> (case row_with (\<lambda>c. comment_in p c \<and> pc_id c = cid) (db_comments d) of
          None \<Rightarrow> Inl ErrCommentNotFound | Some c \<Rightarrow> Inr c))"

section \<open>Adding comments\<close>

definition comment_required :: error where
  "comment_required = NewValidationError ''body'' ''A comment is required.''"

definition insert_comment :: "page_comment \<Rightarrow> db \<Rightarrow> int \<times> db" where
  "insert_comment c d =
     (db_next_comment d, d\<lparr>db_comments := db_comments d @ [c\<lparr>pc_id := db_next_comment d\<rparr>],
                          db_next_comment := db_next_comment d + 1\<rparr>)"

definition AddPageComment ::
  "env \<Rightarrow> string \<Rightarrow> int \<Rightarrow> int \<Rightarrow> string \<Rightarrow> string \<Rightarrow> string \<Rightarrow> db \<Rightarrow> error + (page_comment \<times> db)" where
  "AddPageComment e slug user parent anchor quote body d =
     (let body = TrimSpace body in
      requireR (body \<noteq> []) comment_required
      (case live_row d slug of
         None \<Rightarrow> Inl ErrNotFound
       | Some p \<Rightarrow>
           if \<not> (parent = 0 \<or> list_ex (\<lambda>c. pc_id c = parent \<and> comment_in p c) (db_comments d)) then Inl ErrNotFound
           else (case insert_comment
               \<lparr>pc_id = 0, pc_page = pw_id p, pc_author = user, pc_parent = parent, pc_anchor = TrimSpace anchor,
                pc_quote = TrimSpace quote, pc_body = body, pc_suggestion = None, pc_resolved = None,
                pc_created_at = en_now e\<rparr> d of
             (i, d1) \<Rightarrow> bindR (PageComment d1 slug i) (\<lambda>c. Inr (c, d1)))))"

text \<open>The shape that the check constraint of the table asks of a suggestion.\<close>

definition suggestion_shape :: "string \<Rightarrow> comment_suggestion \<Rightarrow> bool" where
  "suggestion_shape anchor s =
     (anchor \<noteq> [] \<and> sg_revision s > 0 \<and> sg_start s \<ge> 0 \<and> sg_end s > sg_start s \<and> sg_original s \<noteq> [])"

definition AddPageSuggestion ::
  "env \<Rightarrow> string \<Rightarrow> int \<Rightarrow> string \<Rightarrow> string \<Rightarrow> comment_suggestion \<Rightarrow> string \<Rightarrow> db \<Rightarrow> error + (page_comment \<times> db)" where
  "AddPageSuggestion e slug user anchor body s expectedMarkdown d =
     (case live_row d slug of
        None \<Rightarrow> Inl ErrNotFound
      | Some p \<Rightarrow>
          if pw_markdown p \<noteq> expectedMarkdown \<or> current_revision d (pw_id p) \<noteq> sg_revision s then Inl ErrStaleSuggestion
          else if \<not> suggestion_shape (TrimSpace anchor) s then Inl (InfrastructureError ''page_comments_suggestion_shape'')
          else (case insert_comment
              \<lparr>pc_id = 0, pc_page = pw_id p, pc_author = user, pc_parent = 0, pc_anchor = TrimSpace anchor,
               pc_quote = [], pc_body = TrimSpace body,
               pc_suggestion = Some (s\<lparr>sg_applied_by := 0, sg_applied_at := None\<rparr>), pc_resolved = None,
               pc_created_at = en_now e\<rparr> d of
            (i, d1) \<Rightarrow> bindR (PageComment d1 slug i) (\<lambda>c. Inr (c, d1))))"

section \<open>Applying a suggestion in the store\<close>

definition lockCommentSuggestionPage :: "db \<Rightarrow> string \<Rightarrow> error + (int \<times> string \<times> int)" where
  "lockCommentSuggestionPage d slug =
     (case live_row d slug of
        None \<Rightarrow> Inl ErrNotFound
      | Some p \<Rightarrow> Inr (pw_id p, pw_markdown p, current_revision d (pw_id p)))"

definition zero_suggestion :: comment_suggestion where
  "zero_suggestion = \<lparr>sg_revision = 0, sg_start = 0, sg_end = 0, sg_original = [], sg_replacement = [],
     sg_applied_by = 0, sg_applied_at = None\<rparr>"

definition lockCommentSuggestion :: "db \<Rightarrow> int \<Rightarrow> int \<Rightarrow> error + comment_suggestion" where
  "lockCommentSuggestion d pid cid =
     (case row_with (\<lambda>c. pc_id c = cid \<and> pc_page c = pid) (db_comments d) of
        None \<Rightarrow> Inl ErrCommentNotFound
      | Some c \<Rightarrow> Inr (case pc_suggestion c of None \<Rightarrow> zero_suggestion | Some s \<Rightarrow> s))"

definition validStoredSuggestionRange :: "comment_suggestion \<Rightarrow> int \<Rightarrow> bool" where
  "validStoredSuggestionRange s sourceLength = (sg_start s \<ge> 0 \<and> sg_end s > sg_start s \<and> sg_end s \<le> sourceLength)"

definition suggestionMatchesSource :: "string \<Rightarrow> comment_suggestion \<Rightarrow> bool" where
  "suggestionMatchesSource markdown s =
     (if \<not> validStoredSuggestionRange s (int (length markdown)) then False
      else slice markdown (sg_start s) (sg_end s) = sg_original s)"

definition currentSuggestionSource :: "int \<Rightarrow> string \<Rightarrow> comment_suggestion \<Rightarrow> bool" where
  "currentSuggestionSource currentRevision markdown s =
     (currentRevision = sg_revision s \<and> suggestionMatchesSource markdown s)"

definition no_applicable_suggestion :: error where
  "no_applicable_suggestion = NewValidationError ''suggestion'' ''This comment does not contain an applicable suggestion.''"

definition already_applied :: error where
  "already_applied = NewValidationError ''suggestion'' ''This suggestion has already been applied.''"

definition validateCommentSuggestion :: "int \<Rightarrow> string \<Rightarrow> string \<Rightarrow> comment_suggestion \<Rightarrow> error + unit" where
  "validateCommentSuggestion currentRevision currentMarkdown markdown s =
     (if sg_revision s \<le> 0 then Inl no_applicable_suggestion
      else if sg_applied_at s \<noteq> None then Inl already_applied
      else if \<not> currentSuggestionSource currentRevision currentMarkdown s then Inl ErrStaleSuggestion
      else if markdown \<noteq> take (nat (sg_start s)) currentMarkdown @ sg_replacement s @ drop (nat (sg_end s)) currentMarkdown
        then Inl ErrStaleSuggestion
      else Inr ())"

definition prepareCommentSuggestionApplication :: "db \<Rightarrow> string \<Rightarrow> int \<Rightarrow> string \<Rightarrow> error + int" where
  "prepareCommentSuggestionApplication d slug cid markdown =
     bindR (lockCommentSuggestionPage d slug) (\<lambda>(pid, currentMarkdown, currentRevision).
     bindR (lockCommentSuggestion d pid cid) (\<lambda>s.
     bindR (validateCommentSuggestion currentRevision currentMarkdown markdown s) (\<lambda>_. Inr pid)))"

definition applied_suggestion :: "env \<Rightarrow> int \<Rightarrow> page_comment \<Rightarrow> page_comment" where
  "applied_suggestion e actor c =
     c\<lparr>pc_suggestion := map_option (\<lambda>s. s\<lparr>sg_applied_by := actor, sg_applied_at := Some (en_now e)\<rparr>) (pc_suggestion c)\<rparr>"

definition markCommentSuggestionApplied :: "env \<Rightarrow> int \<Rightarrow> int \<Rightarrow> db \<Rightarrow> db" where
  "markCommentSuggestionApplied e cid actor d =
     d\<lparr>db_comments := update_rows (\<lambda>c. pc_id c = cid) (applied_suggestion e actor) (db_comments d)\<rparr>"

definition ApplyPageCommentSuggestion ::
  "env \<Rightarrow> string \<Rightarrow> int \<Rightarrow> int \<Rightarrow> string \<Rightarrow> string \<Rightarrow> string list \<Rightarrow> plugin_usage \<Rightarrow> page_render \<Rightarrow> db \<Rightarrow>
     error + (page \<times> db)" where
  "ApplyPageCommentSuggestion e slug cid actor markdown message links usage render d =
     bindR (prepareCommentSuggestionApplication d slug cid markdown) (\<lambda>pid.
     bindR (applyPreparedPageUpdate e
       \<lparr>up_page = pid, up_actor = actor, up_markdown = markdown, up_message = message, up_links = links,
        up_usage = usage, up_render = preparePageDerivedData render\<rparr>
       (markCommentSuggestionApplied e cid actor) d) (\<lambda>d1.
     bindR (GetPage d1 slug) (\<lambda>p. Inr (p, d1))))"

definition ResolvePageComment :: "env \<Rightarrow> string \<Rightarrow> int \<Rightarrow> bool \<Rightarrow> db \<Rightarrow> error + db" where
  "ResolvePageComment e slug cid resolved d =
     (case live_row d (TrimSpace slug) of
        None \<Rightarrow> Inl ErrCommentNotFound
      | Some p \<Rightarrow>
          if \<not> list_ex (\<lambda>c. pc_id c = cid \<and> comment_in p c) (db_comments d) then Inl ErrCommentNotFound
          else Inr (d\<lparr>db_comments := update_rows (\<lambda>c. pc_id c = cid \<and> comment_in p c)
            (\<lambda>c. c\<lparr>pc_resolved := if resolved then Some (en_now e) else None\<rparr>) (db_comments d)\<rparr>))"

section \<open>The use cases\<close>

record discussions_service =
  dc_policy :: "policy option"
  dc_content :: content_service
  dc_effects :: page_effects

abbreviation "NotificationKindReply \<equiv> ''reply''"

definition requireDiscussions :: "db \<Rightarrow> error + unit" where
  "requireDiscussions d = (if \<not> db_discussions d then Inl ErrDiscussionsDisabled else Inr ())"

definition canApplyInlineSuggestion :: "user \<Rightarrow> bool" where
  "canApplyInlineSuggestion actor = CanEditContent actor"

definition pageCommentURL :: "page \<Rightarrow> int \<Rightarrow> string" where
  "pageCommentURL p cid = PageURL (pg_id p) (pg_slug p) @ ''#comment-'' @ show_int cid"

definition revisionMatchesPage :: "page_revision option \<times> int \<Rightarrow> string \<Rightarrow> bool" where
  "revisionMatchesPage latest markdown =
     (case latest of (None, n) \<Rightarrow> False
      | (Some r, n) \<Rightarrow> n > 0 \<and> rv_number r > 0 \<and> rv_markdown r = markdown)"

definition suggestionMatchesRevision :: "comment_suggestion \<Rightarrow> page_revision option \<times> int \<Rightarrow> string \<Rightarrow> bool" where
  "suggestionMatchesRevision s latest markdown =
     (case latest of (None, n) \<Rightarrow> False
      | (Some r, n) \<Rightarrow> n > 0 \<and> rv_number r = sg_revision s \<and> rv_markdown r = markdown)"

definition reply_notices :: "page_effects \<Rightarrow> db \<Rightarrow> string \<Rightarrow> int \<Rightarrow> int \<Rightarrow> string \<Rightarrow> effect list" where
  "reply_notices fx d slug parent actor destination =
     (if parent > 0 then
        (case PageComment d slug parent of
           Inl _ \<Rightarrow> []
         | Inr c \<Rightarrow> if pc_author c > 0 \<and> pc_author c \<noteq> actor
             then notifyUser fx (pc_author c) actor NotificationKindReply (''Reply in '' @ slug)
                    ''Someone replied to your discussion comment.'' destination
             else [])
      else [])"

definition AddComment ::
  "discussions_service \<Rightarrow> env \<Rightarrow> string \<Rightarrow> int \<Rightarrow> string \<Rightarrow> string \<Rightarrow> string \<Rightarrow> user \<Rightarrow> db \<Rightarrow>
     error + (page_comment \<times> db \<times> effect list)" where
  "AddComment svc e slug parent anchor quote body actor d =
     (let body = TrimSpace body in
      bindR (requireView (dc_policy svc) actor slug) (\<lambda>_.
      requireR (body \<noteq> []) comment_required
      (bindR (requireDiscussions d) (\<lambda>_.
      let slug = TrimSpace slug in
      bindR (AddPageComment e slug (u_id actor) parent anchor quote body d) (\<lambda>(comment, d1).
      bindR (GetPage d1 slug) (\<lambda>page.
      let destination = pageCommentURL page (pc_id comment) in
      Inr (comment, d1,
        notifyMentions (dc_effects svc) (u_id actor) body (''Mention in '' @ slug) destination @
        reply_notices (dc_effects svc) d1 slug parent (u_id actor) destination @
        notifyWatchers (dc_effects svc) (u_id actor) slug (''New comment: '' @ slug)
          ''A watched page has a new discussion comment.'' destination @
        recordAudit (dc_effects svc) (u_id actor) ''comment.created'' ''page'' slug ''Page discussion comment created'')))))))"

definition unchanged_suggestion :: error where
  "unchanged_suggestion = NewValidationError ''replacement'' ''Change the selected text before creating a suggestion.''"

definition latest_number :: "page_revision option \<times> int \<Rightarrow> int" where
  "latest_number latest = (case fst latest of None \<Rightarrow> 0 | Some r \<Rightarrow> rv_number r)"

definition AddSuggestion ::
  "discussions_service \<Rightarrow> env \<Rightarrow> string \<Rightarrow> string \<Rightarrow> string \<Rightarrow> string \<Rightarrow> user \<Rightarrow> db \<Rightarrow>
     error + (page_comment \<times> db \<times> effect list)" where
  "AddSuggestion svc e slug anchor body replacement actor d =
     (let slug = TrimSpace slug in
      bindR (requireView (dc_policy svc) actor slug) (\<lambda>_.
      let anchor = TrimSpace anchor; body = TrimSpace body; replacement = normalizeSuggestionText replacement in
      bindR (validateInlineSuggestionInput slug anchor body replacement) (\<lambda>_.
      bindR (requireDiscussions d) (\<lambda>_.
      bindR (GetPage d slug) (\<lambda>page.
      let latest = LatestRevision d slug in
      requireR (revisionMatchesPage latest (pg_markdown page)) ErrStaleSuggestion
      (bindR (locateInlineSuggestionSource (pg_markdown page) anchor) (\<lambda>(start, end).
      let original = slice (pg_markdown page) start end in
      requireR (replacement \<noteq> original) unchanged_suggestion
      (bindR (AddPageSuggestion e slug (u_id actor) anchor body
          (zero_suggestion\<lparr>sg_revision := latest_number latest, sg_start := start, sg_end := end, sg_original := original,
             sg_replacement := replacement\<rparr>) (pg_markdown page) d) (\<lambda>(comment, d1).
      let destination = pageCommentURL page (pc_id comment) in
      Inr (comment, d1,
        (if body \<noteq> [] then notifyMentions (dc_effects svc) (u_id actor) body (''Mention in '' @ slug) destination else []) @
        notifyWatchers (dc_effects svc) (u_id actor) slug (''New suggestion: '' @ slug)
          ''A watched page has a new inline suggestion.'' destination @
        recordAudit (dc_effects svc) (u_id actor) ''comment.suggested'' ''page'' slug ''Inline Markdown suggestion created''))))))))))"

definition authorizeCommentSuggestion :: "discussions_service \<Rightarrow> db \<Rightarrow> string \<Rightarrow> int \<Rightarrow> user \<Rightarrow> error + unit" where
  "authorizeCommentSuggestion svc d slug cid actor =
     bindR (requireEdit (dc_policy svc) actor slug) (\<lambda>_.
     requireR (\<not> (slug = [] \<or> cid \<le> 0)) (NewValidationError ''suggestion'' ''Choose a valid inline suggestion.'')
     (requireR (canApplyInlineSuggestion actor) ErrForbidden (requireDiscussions d)))"

definition loadApplicableCommentSuggestion ::
  "db \<Rightarrow> string \<Rightarrow> int \<Rightarrow> error + (page_comment \<times> comment_suggestion \<times> page)" where
  "loadApplicableCommentSuggestion d slug cid =
     bindR (PageComment d slug cid) (\<lambda>comment.
     case pc_suggestion comment of
       None \<Rightarrow> Inl no_applicable_suggestion
     | Some s \<Rightarrow>
         requireR (sg_applied_at s = None) already_applied
         (bindR (GetPage d slug) (\<lambda>page.
          requireR (suggestionMatchesRevision s (LatestRevision d slug) (pg_markdown page)) ErrStaleSuggestion
            (Inr (comment, s, page)))))"

definition recordAppliedCommentSuggestion :: "page_effects \<Rightarrow> user \<Rightarrow> page \<Rightarrow> int \<Rightarrow> string \<Rightarrow> effect list" where
  "recordAppliedCommentSuggestion fx actor updated cid message =
     recordAudit fx (u_id actor) ''comment.suggestion_applied'' ''page'' (pg_slug updated) message @
     notifyWatchers fx (u_id actor) (pg_slug updated) (''Inline suggestion applied: '' @ pg_title updated)
       (message @ '' and created a new revision.'') (pageCommentURL updated cid)"

definition ApplyCommentSuggestion ::
  "discussions_service \<Rightarrow> env \<Rightarrow> string \<Rightarrow> int \<Rightarrow> user \<Rightarrow> db \<Rightarrow> error + (page \<times> db \<times> effect list)" where
  "ApplyCommentSuggestion svc e slug cid actor d =
     (let slug = TrimSpace slug in
      bindR (authorizeCommentSuggestion svc d slug cid actor) (\<lambda>_.
      bindR (loadApplicableCommentSuggestion d slug cid) (\<lambda>(comment, s, page).
      bindR (applyInlineSuggestion (pg_markdown page) s) (\<lambda>updatedMarkdown.
      bindR (preparePageContent (dc_content svc) updatedMarkdown) (\<lambda>(usage, render).
      let message = ''Apply inline suggestion from comment #'' @ show_int (pc_id comment) in
      bindR (ApplyPageCommentSuggestion e slug (pc_id comment) (u_id actor) updatedMarkdown message
          (Links (ct_fences (dc_content svc)) updatedMarkdown) usage render d) (\<lambda>(updated, d1).
      Inr (updated, d1, recordAppliedCommentSuggestion (dc_effects svc) actor updated (pc_id comment) message)))))))"

definition ResolveComment ::
  "discussions_service \<Rightarrow> env \<Rightarrow> string \<Rightarrow> int \<Rightarrow> bool \<Rightarrow> user \<Rightarrow> db \<Rightarrow> error + (unit \<times> db \<times> effect list)" where
  "ResolveComment svc e slug cid resolved actor d =
     (let slug = TrimSpace slug in
      bindR (requireEdit (dc_policy svc) actor slug) (\<lambda>_.
      requireR (slug \<noteq> []) slug_required
      (requireR (cid > 0) (ValidationError [(''comment'', ''Invalid comment.'')])
      (bindR (requireDiscussions d) (\<lambda>_.
       bindR (ResolvePageComment e slug cid resolved d) (\<lambda>d1. Inr ((), d1, [])))))))"

section \<open>Consistency\<close>

lemma core_comments [simp]:
  "core (d\<lparr>db_comments := x\<rparr>) = core d" "core (d\<lparr>db_comments := x, db_next_comment := n\<rparr>) = core d"
  "core (markCommentSuggestionApplied e cid actor d) = core d"
  by (simp_all add: core_def markCommentSuggestionApplied_def)

lemma AddPageComment_keeps_ok: "db_ok d \<Longrightarrow> AddPageComment e slug user parent anchor quote body d = Inr (c, d') \<Longrightarrow> db_ok d'"
  by (rule iffD2 [OF db_ok_core, of _ d])
    (auto simp: AddPageComment_def Let_def insert_comment_def result_simps split: option.splits if_splits)

lemma AddPageSuggestion_keeps_ok: "db_ok d \<Longrightarrow> AddPageSuggestion e slug user anchor body s md d = Inr (c, d') \<Longrightarrow> db_ok d'"
  by (rule iffD2 [OF db_ok_core, of _ d])
    (auto simp: AddPageSuggestion_def insert_comment_def result_simps split: option.splits if_splits)

lemma ResolvePageComment_keeps_ok: "db_ok d \<Longrightarrow> ResolvePageComment e slug cid resolved d = Inr d' \<Longrightarrow> db_ok d'"
  by (rule iffD2 [OF db_ok_core, of _ d]) (auto simp: ResolvePageComment_def split: option.splits if_splits)

lemma ApplyPageCommentSuggestion_Inr:
  assumes "ApplyPageCommentSuggestion e slug cid actor md msg links usage render d = Inr (p, d')"
  obtains r c s u where "live_row d slug = Some r" and "row_with (\<lambda>c. pc_id c = cid \<and> pc_page c = pw_id r) (db_comments d) = Some c"
    and "pc_suggestion c = Some s" and "validateCommentSuggestion (current_revision d (pw_id r)) (pw_markdown r) md s = Inr ()"
    and "up_page u = pw_id r" and "up_markdown u = md"
    and "applyPreparedPageUpdate e u (markCommentSuggestionApplied e cid actor) d = Inr d'" and "GetPage d' slug = Inr p"
proof -
  from assms obtain pid where pre: "prepareCommentSuggestionApplication d slug cid md = Inr pid"
    and up: "applyPreparedPageUpdate e \<lparr>up_page = pid, up_actor = actor, up_markdown = md, up_message = msg, up_links = links,
        up_usage = usage, up_render = preparePageDerivedData render\<rparr> (markCommentSuggestionApplied e cid actor) d = Inr d'"
    and g: "GetPage d' slug = Inr p"
    by (auto simp: ApplyPageCommentSuggestion_def result_simps)
  from pre obtain r s where r: "live_row d slug = Some r" and pid: "pid = pw_id r"
    and l: "lockCommentSuggestion d (pw_id r) cid = Inr s"
    and v: "validateCommentSuggestion (current_revision d (pw_id r)) (pw_markdown r) md s = Inr ()"
    by (auto simp: prepareCommentSuggestionApplication_def lockCommentSuggestionPage_def result_simps split: option.splits)
  have "sg_revision s > 0" using v by (auto simp: validateCommentSuggestion_def split: if_splits)
  then obtain c where c: "row_with (\<lambda>c. pc_id c = cid \<and> pc_page c = pw_id r) (db_comments d) = Some c" "pc_suggestion c = Some s"
    using l by (auto simp: lockCommentSuggestion_def zero_suggestion_def split: option.splits)
  show ?thesis by (rule that [OF r c v _ _ up g]) (simp_all add: pid)
qed

lemma ApplyPageCommentSuggestion_keeps_ok:
  assumes "db_ok d" and "ApplyPageCommentSuggestion e slug cid actor md msg links usage render d = Inr (p, d')"
  shows "db_ok d'"
proof -
  from assms(2) obtain u where "applyPreparedPageUpdate e u (markCommentSuggestionApplied e cid actor) d = Inr d'"
    by (rule ApplyPageCommentSuggestion_Inr) (rule that)
  from applyPreparedPageUpdate_ok(1) [OF assms(1) this] show ?thesis by simp
qed

text \<open>A prepared update of a page that is not in the bin succeeds.\<close>

lemma applyPreparedPageUpdate_succeeds:
  assumes ok: "store_ok d" and r: "live_row d slug = Some r" and u: "up_page u = pw_id r"
  shows "\<exists>d'. applyPreparedPageUpdate e u afterReviews d = Inr d'"
proof -
  define d0 where "d0 = d\<lparr>db_pages := update_rows (\<lambda>x. pw_id x = up_page u) (source_row e u) (db_pages d)\<rparr>"
  have sok: "store_ok d0" unfolding d0_def using ok by (rule store_ok_update_page) simp_all
  have pages: "db_pages d0 = update_rows (\<lambda>x. pw_id x = pw_id r) (source_row e u) (db_pages d)" by (simp add: d0_def u)
  have lr: "live_row d0 slug = Some (source_row e u r)" using live_row_source [OF pages] r by simp
  then have mem: "source_row e u r \<in> set (db_pages d0)" "pw_slug (source_row e u r) = slug" using live_row_Some by blast+
  have "row_with (\<lambda>x. pw_id x = up_page u) (db_pages d0) = Some (source_row e u r)"
    using row_with_page [OF sok mem(1)] by (simp add: u)
  moreover have "GetPage d0 (pw_slug (source_row e u r)) = Inr (complete_page d0 (source_row e u r))"
    unfolding mem(2) by (simp add: GetPage_def lr)
  ultimately have "\<exists>d2. appendPageRevision e (up_page u) (up_markdown u) (up_message u) (up_actor u) d0 = Inr d2"
    by (simp add: appendPageRevision_def)
  then show ?thesis by (auto simp: applyPreparedPageUpdate_def Let_def d0_def)
qed

section \<open>A page with an inline suggestion\<close>

definition sample_discussions :: discussions_service where
  "sample_discussions = \<lparr>dc_policy = None, dc_content = sample_content, dc_effects = rs_effects sample_reviews\<rparr>"

definition sample_inline :: comment_suggestion where
  "sample_inline = zero_suggestion\<lparr>sg_revision := 1, sg_start := 0, sg_end := 1, sg_original := ''x'', sg_replacement := ''y''\<rparr>"

definition discussed_db :: db where
  "discussed_db = state_of (AddPageSuggestion (sample_env 25) ''a'' 2 ''x'' ''b'' sample_inline ''x'' sample_db)"

lemma discussed_db_eq [code]: "discussed_db =
   \<lparr>db_pages = [\<lparr>pw_id = 1, pw_slug = ''a'', pw_title = ''T'', pw_language = [],
     pw_markdown = ''x'', pw_created_by = 1, pw_updated_by = 1, pw_created_at = 10, pw_updated_at = 10,
     pw_deleted_at = None, pw_deleted_by = 0, pw_view_count = 0, pw_status = PageStatusVerified, pw_owner = 0,
     pw_reviewed = None, pw_interval = 0, pw_target = [], pw_usage = None, pw_html = [], pw_contents = [],
     pw_fingerprint = [], pw_rendered_at = None\<rparr>], db_aliases = [], db_revisions = [\<lparr>rw_id = 1,
     rw_page = 1, rw_number = 1, rw_markdown = ''x'', rw_by = 1, rw_created = 10, rw_message = ''m'',
     rw_snapshot = Some \<lparr>sn_slug = ''a'', sn_title = ''T'', sn_icon = [], sn_language = [],
     sn_tags = [''go''], sn_groups = [], sn_status = PageStatusVerified, sn_owner = 0, sn_interval = 0,
     sn_target = [], sn_properties = [(''k'', ''v'')], sn_reviewed = None\<rparr>, rw_changes = []\<rparr>],
     db_reviews = [], db_icons = [], db_tags = [(1, ''go'')], db_page_tags = [(1, 1)], db_page_groups = [],
     db_properties = [(1, ''k'', ''v'')], db_links = [], db_reviewers = [], db_review_comments = [],
     db_comments = [\<lparr>pc_id = 1, pc_page = 1, pc_author = 2, pc_parent = 0, pc_anchor = ''x'',
     pc_quote = [], pc_body = ''b'', pc_suggestion = Some \<lparr>sg_revision = 1, sg_start = 0, sg_end = 1,
     sg_original = ''x'', sg_replacement = ''y'', sg_applied_by = 0, sg_applied_at = None\<rparr>,
     pc_resolved = None, pc_created_at = 25\<rparr>], db_audit = [\<lparr>ae_user = 1,
     ae_action = ''page.created'', ae_key = ''a'', ae_detail = [CHR ''r'', CHR ''1'', CHR '' '', CHR 0xC2,
     CHR 0xB7, CHR '' '', CHR ''P'', CHR ''a'', CHR ''g'', CHR ''e'', CHR '' '', CHR ''c'', CHR ''r'',
     CHR ''e'', CHR ''a'', CHR ''t'', CHR ''e'', CHR ''d''], ae_revision = Some 1\<rparr>], db_groups = [],
     db_members = [], db_users = [], db_discussions = True, db_next_page = 2, db_next_revision = 2,
     db_next_tag = 2, db_next_review = 1, db_next_review_comment = 1, db_next_comment = 2\<rparr>"
  by code_simp

lemma discussed_db_reached:
  "\<exists>c fx. AddSuggestion sample_discussions (sample_env 25) ''a'' ''x'' ''b'' ''y'' (account 2 UserRoleAdmin) sample_db =
     Inr (c, discussed_db, fx)"
proof -
  have t: "TrimSpace ''a'' = ''a''" "TrimSpace ''x'' = ''x''" "TrimSpace ''b'' = ''b''" "normalizeSuggestionText ''y'' = ''y''"
    "requireDiscussions sample_db = Inr ()" "locateInlineSuggestionSource ''x'' ''x'' = Inr (0, 1)" "slice ''x'' 0 1 = ''x''"
    by code_simp+
  have v: "validateInlineSuggestionInput ''a'' ''x'' ''b'' ''y'' = Inr ()"
    by (simp add: validateInlineSuggestionInput_def)
  have "case GetPage sample_db ''a'' of Inl _ \<Rightarrow> False | Inr p \<Rightarrow> pg_markdown p = ''x''" by code_simp
  then obtain p where p: "GetPage sample_db ''a'' = Inr p" "pg_markdown p = ''x''" by (auto split: sum.splits)
  have l: "revisionMatchesPage (LatestRevision sample_db ''a'') ''x''" "latest_number (LatestRevision sample_db ''a'') = 1" by code_simp+
  have "db_audit discussed_db \<noteq> []" by (simp add: discussed_db_eq)
  then obtain c where c: "AddPageSuggestion (sample_env 25) ''a'' 2 ''x'' ''b'' sample_inline ''x'' sample_db = Inr (c, discussed_db)"
    unfolding discussed_db_def using state_of_reached by blast
  have u: "u_id (account 2 UserRoleAdmin) = 2" by (simp add: account_def)
  have s: "zero_suggestion\<lparr>sg_revision := 1, sg_start := 0, sg_end := 1, sg_original := ''x'', sg_replacement := ''y''\<rparr> = sample_inline"
    by (simp add: sample_inline_def)
  have pol: "dc_policy sample_discussions = None" by (simp add: sample_discussions_def)
  show ?thesis
    by (simp add: AddSuggestion_def Let_def requireView_def t v p l u s c pol)
qed

lemma discussed_db_ok: "db_ok discussed_db"
proof -
  have "db_audit discussed_db \<noteq> []" by (simp add: discussed_db_eq)
  then obtain c where "AddPageSuggestion (sample_env 25) ''a'' 2 ''x'' ''b'' sample_inline ''x'' sample_db = Inr (c, discussed_db)"
    unfolding discussed_db_def using state_of_reached by blast
  from AddPageSuggestion_keeps_ok [OF sample_db_ok this] show ?thesis .
qed

section \<open>Properties\<close>

text \<open>An inline suggestion is applied at most once and only to the text it was made on: a successful
  application found an unapplied suggestion of this comment whose revision is the current one
  and whose range holds its original text; it replaces exactly that range, adds one revision
  with the result, closes the open reviews of the page, and no later attempt succeeds.\<close>

lemma comment_suggestion_applied_once:
  assumes ok: "db_ok d"
    and s: "ApplyPageCommentSuggestion e slug cid actor md msg links usage render d = Inr (p, d')"
  shows "\<exists>r c s w. live_row d slug = Some r \<and> c \<in> set (db_comments d) \<and> pc_id c = cid \<and> pc_page c = pw_id r \<and>
    pc_suggestion c = Some s \<and> sg_applied_at s = None \<and> sg_revision s = current_revision d (pw_id r) \<and>
    applyInlineSuggestion (pw_markdown r) s = Inr md \<and> pg_markdown p = md \<and>
    db_revisions d' = db_revisions d @ [w] \<and> rw_page w = pw_id r \<and> rw_number w = sg_revision s + 1 \<and> rw_markdown w = md \<and>
    (\<forall>x \<in> set (db_reviews d'). vw_page x = pw_id r \<longrightarrow> \<not> pending x) \<and>
    (\<forall>e2 actor2 md2. isl (ApplyPageCommentSuggestion e2 slug cid actor2 md2 msg links usage render d'))"
proof -
  from s obtain r c sg u where r: "live_row d slug = Some r"
    and c: "row_with (\<lambda>c. pc_id c = cid \<and> pc_page c = pw_id r) (db_comments d) = Some c" "pc_suggestion c = Some sg"
    and v: "validateCommentSuggestion (current_revision d (pw_id r)) (pw_markdown r) md sg = Inr ()"
    and u: "up_page u = pw_id r" "up_markdown u = md"
    and up: "applyPreparedPageUpdate e u (markCommentSuggestionApplied e cid actor) d = Inr d'" and g: "GetPage d' slug = Inr p"
    by (rule ApplyPageCommentSuggestion_Inr) (rule that)
  have fr: "\<forall>x. core (markCommentSuggestionApplied e cid actor x) = core x" by simp
  note n = applyPreparedPageUpdate_ok [OF ok up fr, unfolded u]
  have lr: "live_row d' slug = Some (source_row e u r)" using live_row_source [OF n(2)] r by simp
  have pm: "pg_markdown p = md" using g lr u(2) by (simp add: GetPage_def) auto
  have sg: "sg_applied_at sg = None" "sg_revision sg = current_revision d (pw_id r)"
    and app: "applyInlineSuggestion (pw_markdown r) sg = Inr md"
    using v by (auto simp: validateCommentSuggestion_def currentSuggestionSource_def suggestionMatchesSource_def
        validStoredSuggestionRange_def applyInlineSuggestion_def validSuggestionRange_def split: if_splits)
  have none: "\<forall>x \<in> set (db_reviews d'). vw_page x = pw_id r \<longrightarrow> \<not> pending x"
    unfolding n(3) using open_reviews_superseded by (fastforce simp: pending_def)
  from up obtain x where x: "db_comments d' = db_comments (markCommentSuggestionApplied e cid actor x)"
    by (rule applyPreparedPageUpdate_comments) (rule that)
  have applied: "sg_applied_at s2 \<noteq> None" if "c2 \<in> set (db_comments d')" "pc_id c2 = cid" "pc_suggestion c2 = Some s2" for c2 s2
  proof -
    have "c2 \<in> set (update_rows (\<lambda>c. pc_id c = cid) (applied_suggestion e actor) (db_comments x))"
      using that(1) unfolding x markCommentSuggestionApplied_def by simp
    from mem_update_rows [OF this] that(2) obtain y where "c2 = applied_suggestion e actor y"
      by (auto simp: applied_suggestion_def split: if_splits)
    with that(3) show ?thesis by (auto simp: applied_suggestion_def)
  qed
  have later: "isl (ApplyPageCommentSuggestion e2 slug cid actor2 md2 msg links usage render d')" for e2 actor2 md2
  proof (cases "ApplyPageCommentSuggestion e2 slug cid actor2 md2 msg links usage render d'")
    case (Inr a)
    obtain p2 d2 where "a = (p2, d2)" by (rule prod.exhaust)
    with Inr have "ApplyPageCommentSuggestion e2 slug cid actor2 md2 msg links usage render d' = Inr (p2, d2)" by simp
    then obtain r2 c2 s2 where "row_with (\<lambda>c. pc_id c = cid \<and> pc_page c = pw_id r2) (db_comments d') = Some c2"
      "pc_suggestion c2 = Some s2" "validateCommentSuggestion (current_revision d' (pw_id (r2 :: page_row))) (pw_markdown r2) md2 s2 = Inr ()"
      by (rule ApplyPageCommentSuggestion_Inr) (rule that)
    with applied [of c2 s2] row_with_Some show ?thesis by (fastforce simp: validateCommentSuggestion_def split: if_splits)
  qed simp
  from n(4) obtain w where w: "db_revisions d' = db_revisions d @ [w]" "rw_page w = pw_id r" "rw_number w = sg_revision sg + 1" "rw_markdown w = md"
    using sg(2) by metis
  from row_with_Some [OF c(1)] have c': "c \<in> set (db_comments d)" "pc_id c = cid" "pc_page c = pw_id r" by blast+
  show ?thesis
    using r c' c(2) sg app pm w none later
    by - (intro exI [of _ r] exI [of _ c] exI [of _ sg] exI [of _ w] conjI allI; assumption)
qed

lemma latest_revision_current:
  assumes ok: "db_ok d" and r: "live_row d slug = Some r"
  shows "\<exists>rv n. LatestRevision d slug = (Some rv, n) \<and> 0 < n \<and> rv_number rv = current_revision d (pw_id r) \<and>
    rv_markdown rv = pw_markdown r \<and> 0 < current_revision d (pw_id r)"
  using LatestRevision_head [OF assms] by auto

text \<open>What an accepted inline suggestion stores.\<close>

lemma AddSuggestion_Inr:
  assumes ok: "db_ok d" and s: "AddSuggestion svc e slug anchor body replacement actor d = Inr (c, d', fx)"
    and fresh: "\<forall>x \<in> set (db_comments d). pc_id x < db_next_comment d"
  obtains r i j where "live_row d (TrimSpace slug) = Some r" and "TrimSpace slug \<noteq> []" and "db_discussions d"
    and "locateInlineSuggestionSource (pw_markdown r) (TrimSpace anchor) = Inr (i, j)"
    and "c = \<lparr>pc_id = db_next_comment d, pc_page = pw_id r, pc_author = u_id actor, pc_parent = 0, pc_anchor = TrimSpace anchor,
        pc_quote = [], pc_body = TrimSpace body, pc_suggestion = Some \<lparr>sg_revision = current_revision d (pw_id r), sg_start = i,
          sg_end = j, sg_original = slice (pw_markdown r) i j, sg_replacement = normalizeSuggestionText replacement,
          sg_applied_by = 0, sg_applied_at = None\<rparr>,
        pc_resolved = None, pc_created_at = en_now e\<rparr>"
    and "slice (pw_markdown r) i j \<noteq> []"
    and "d' = d\<lparr>db_comments := db_comments d @ [c], db_next_comment := db_next_comment d + 1\<rparr>"
proof -
  let ?slug = "TrimSpace slug"
  from s obtain page i j where val: "validateInlineSuggestionInput ?slug (TrimSpace anchor) (TrimSpace body) (normalizeSuggestionText replacement) = Inr ()"
    and disc: "requireDiscussions d = Inr ()" and g: "GetPage d ?slug = Inr page"
    and loc: "locateInlineSuggestionSource (pg_markdown page) (TrimSpace anchor) = Inr (i, j)"
    and add: "AddPageSuggestion e ?slug (u_id actor) (TrimSpace anchor) (TrimSpace body)
          (zero_suggestion\<lparr>sg_revision := latest_number (LatestRevision d ?slug), sg_start := i, sg_end := j,
             sg_original := slice (pg_markdown page) i j, sg_replacement := normalizeSuggestionText replacement\<rparr>)
          (pg_markdown page) d = Inr (c, d')"
    unfolding AddSuggestion_def Let_def by (auto simp: result_simps split_paired_all)
  from g obtain r where r: "live_row d ?slug = Some r" and md: "pg_markdown page = pw_markdown r" by (auto simp: GetPage_Inr)
  have num: "latest_number (LatestRevision d ?slug) = current_revision d (pw_id r)"
    using latest_revision_current [OF ok r] by (auto simp: latest_number_def)
  have slug: "?slug \<noteq> []" using val by (auto simp: validateInlineSuggestionInput_def Let_def split: if_splits)
  let ?c = "\<lparr>pc_id = db_next_comment d, pc_page = pw_id r, pc_author = u_id actor, pc_parent = 0, pc_anchor = TrimSpace anchor,
        pc_quote = [], pc_body = TrimSpace body, pc_suggestion = Some \<lparr>sg_revision = current_revision d (pw_id r), sg_start = i,
          sg_end = j, sg_original = slice (pw_markdown r) i j, sg_replacement = normalizeSuggestionText replacement,
          sg_applied_by = 0, sg_applied_at = None\<rparr>,
        pc_resolved = None, pc_created_at = en_now e\<rparr>"
  from add have shape: "slice (pw_markdown r) i j \<noteq> []"
    and d': "d' = d\<lparr>db_comments := db_comments d @ [?c], db_next_comment := db_next_comment d + 1\<rparr>"
    and pc: "PageComment d' ?slug (db_next_comment d) = Inr c"
    using r by (auto simp: AddPageSuggestion_def insert_comment_def suggestion_shape_def zero_suggestion_def md num result_simps
        split: if_splits)
  have lr': "live_row d' ?slug = Some r" using r by (simp add: d' live_row_def)
  have "row_with (\<lambda>c. comment_in r c \<and> pc_id c = db_next_comment d) (db_comments d) = None"
    using fresh by (fastforce simp: row_with_None)
  then have "c = ?c" using pc lr' by (simp add: PageComment_def d' row_with_append comment_in_def)
  then show ?thesis using that [OF r slug _ _ _ shape] disc loc md d' by (auto simp: requireDiscussions_def split: if_splits)
qed

text \<open>An accepted inline suggestion can be applied: right after it is stored, everyone who may edit content
  and has edit access to the path can apply it (if the page can be rendered), which replaces the
  only occurrence of the selected text by the suggested one and nothing else.\<close>

lemma accepted_suggestion_applies:
  assumes ok: "db_ok d" and s: "AddSuggestion svc e slug anchor body replacement actor d = Inr (c, d', fx)"
    and fresh: "\<forall>x \<in> set (db_comments d). pc_id x < db_next_comment d" and pos: "0 < db_next_comment d"
    and edit: "requireEdit (dc_policy svc) editor (TrimSpace slug) = Inr ()" "CanEditContent editor"
    and render: "\<forall>src. \<not> isl (preparePageContent (dc_content svc) src)"
  shows "\<exists>r pre post p d2 fx2. live_row d (TrimSpace slug) = Some r \<and>
    pw_markdown r = pre @ TrimSpace anchor @ post \<and>
    (\<forall>k. occurs_at (TrimSpace anchor) k (pw_markdown r) \<longrightarrow> k = length pre) \<and>
    ApplyCommentSuggestion svc e2 slug (pc_id c) editor d' = Inr (p, d2, fx2) \<and>
    pg_markdown p = pre @ normalizeSuggestionText replacement @ post"
proof -
  let ?slug = "TrimSpace slug"
  from ok s fresh obtain r i j where r: "live_row d ?slug = Some r" and slug: "?slug \<noteq> []" and disc: "db_discussions d"
    and loc: "locateInlineSuggestionSource (pw_markdown r) (TrimSpace anchor) = Inr (i, j)"
    and c: "c = \<lparr>pc_id = db_next_comment d, pc_page = pw_id r, pc_author = u_id actor, pc_parent = 0, pc_anchor = TrimSpace anchor,
        pc_quote = [], pc_body = TrimSpace body, pc_suggestion = Some \<lparr>sg_revision = current_revision d (pw_id r), sg_start = i,
          sg_end = j, sg_original = slice (pw_markdown r) i j, sg_replacement = normalizeSuggestionText replacement,
          sg_applied_by = 0, sg_applied_at = None\<rparr>,
        pc_resolved = None, pc_created_at = en_now e\<rparr>"
    and ne: "slice (pw_markdown r) i j \<noteq> []"
    and d': "d' = d\<lparr>db_comments := db_comments d @ [c], db_next_comment := db_next_comment d + 1\<rparr>"
    by (rule AddSuggestion_Inr) (rule that)
  define sg where "sg = the (pc_suggestion c)"
  have sg: "pc_suggestion c = Some sg" "sg_start sg = i" "sg_end sg = j" "sg_original sg = slice (pw_markdown r) i j"
    "sg_replacement sg = normalizeSuggestionText replacement" "sg_applied_at sg = None" "sg_revision sg = current_revision d (pw_id r)"
    by (simp_all add: sg_def c)
  have cid: "pc_id c = db_next_comment d" "pc_page c = pw_id r" by (simp_all add: c)
  from loc have u: "0 \<le> i" "occurs_at (TrimSpace anchor) (nat i) (pw_markdown r)"
    "\<forall>k. occurs_at (TrimSpace anchor) k (pw_markdown r) \<longrightarrow> k = nat i" "j = i + int (length (TrimSpace anchor))"
    unfolding locate_unique by blast+
  define pre where "pre = take (nat i) (pw_markdown r)"
  define post where "post = drop (nat j) (pw_markdown r)"
  have occ: "nat i + length (TrimSpace anchor) \<le> length (pw_markdown r)"
    "take (length (TrimSpace anchor)) (drop (nat i) (pw_markdown r)) = TrimSpace anchor"
    using u(2) by (simp_all add: occurs_at_iff)
  have nj: "nat j = nat i + length (TrimSpace anchor)" using u(1,4) by simp
  have orig: "slice (pw_markdown r) i j = TrimSpace anchor"
    using occ(2) by (simp add: slice_def nj drop_take)
  have split: "pw_markdown r = pre @ TrimSpace anchor @ post"
    unfolding pre_def post_def nj by (metis append_take_drop_id drop_drop occ(2) add.commute)
  have len: "length pre = nat i" using occ(1) by (simp add: pre_def)
  let ?out = "pre @ normalizeSuggestionText replacement @ post"
  have app: "applyInlineSuggestion (pw_markdown r) sg = Inr ?out"
    unfolding applyInline_eq sg(2-5) orig using ne split len u(1,4) orig by (intro conjI exI [of _ pre] exI [of _ post]) simp_all
  have core: "core d' = core d" by (simp add: d')
  have ok': "db_ok d'" using ok db_ok_core [OF core] by simp
  have r': "live_row d' ?slug = Some r" and cur': "current_revision d' = current_revision d"
    using r core_eqD [OF core] by simp_all
  obtain rv n where latest: "LatestRevision d' ?slug = (Some rv, n)" "0 < n" "rv_number rv = current_revision d (pw_id r)"
    "rv_markdown rv = pw_markdown r" "0 < current_revision d (pw_id r)"
    using latest_revision_current [OF ok' r'] cur' by auto
  have none: "row_with (\<lambda>x. comment_in r x \<and> pc_id x = db_next_comment d) (db_comments d) = None"
    "row_with (\<lambda>x. pc_id x = db_next_comment d \<and> pc_page x = pw_id r) (db_comments d) = None"
    using fresh by (fastforce simp: row_with_None)+
  have load: "loadApplicableCommentSuggestion d' ?slug (pc_id c) = Inr (c, sg, complete_page d' r)"
    using r' none cid sg latest
    by (simp add: loadApplicableCommentSuggestion_def PageComment_def d' row_with_append comment_in_def GetPage_def
        suggestionMatchesRevision_def)
  have auth: "authorizeCommentSuggestion svc d' ?slug (pc_id c) editor = Inr ()"
    using edit slug pos disc by (simp add: authorizeCommentSuggestion_def canApplyInlineSuggestion_def requireDiscussions_def cid d')
  obtain usage rd where rd: "preparePageContent (dc_content svc) ?out = Inr (usage, rd)"
    using render not_isl_pair by blast
  have valid: "validateCommentSuggestion (current_revision d (pw_id r)) (pw_markdown r) ?out sg = Inr ()"
    using app latest(5) sg by (auto simp: validateCommentSuggestion_def currentSuggestionSource_def suggestionMatchesSource_def
        validStoredSuggestionRange_def applyInlineSuggestion_def validSuggestionRange_def split: if_splits)
  have prep: "prepareCommentSuggestionApplication d' ?slug (pc_id c) ?out = Inr (pw_id r)"
    using r' none cid sg(1) valid cur'
    by (simp add: prepareCommentSuggestionApplication_def lockCommentSuggestionPage_def lockCommentSuggestion_def d' row_with_append)
  define u where "u = \<lparr>up_page = pw_id r, up_actor = u_id editor, up_markdown = ?out,
      up_message = ''Apply inline suggestion from comment #'' @ show_int (pc_id c),
      up_links = Links (ct_fences (dc_content svc)) ?out, up_usage = usage, up_render = preparePageDerivedData rd\<rparr>"
  have "store_ok d'" using ok' by (simp add: db_ok_def)
  from applyPreparedPageUpdate_succeeds [OF this r', of u] obtain d2 where
    up: "applyPreparedPageUpdate e2 u (markCommentSuggestionApplied e2 (pc_id c) (u_id editor)) d' = Inr d2"
    by (auto simp: u_def)
  have fr: "\<forall>x. core (markCommentSuggestionApplied e2 (pc_id c) (u_id editor) x) = core x" by simp
  have "live_row d2 ?slug = Some (source_row e2 u r)"
    using live_row_source [OF applyPreparedPageUpdate_ok(2) [OF ok' up fr]] r' by (simp add: u_def)
  then have g: "GetPage d2 ?slug = Inr (complete_page d2 (source_row e2 u r))" by (simp add: GetPage_def)
  have "ApplyPageCommentSuggestion e2 ?slug (pc_id c) (u_id editor) ?out (''Apply inline suggestion from comment #'' @ show_int (pc_id c))
      (Links (ct_fences (dc_content svc)) ?out) usage rd d' = Inr (complete_page d2 (source_row e2 u r), d2)"
    using up by (simp add: ApplyPageCommentSuggestion_def prep u_def g [unfolded u_def])
  then have "\<exists>fx2. ApplyCommentSuggestion svc e2 slug (pc_id c) editor d' = Inr (complete_page d2 (source_row e2 u r), d2, fx2)"
    by (simp add: ApplyCommentSuggestion_def Let_def auth load app rd)
  moreover have "pg_markdown (complete_page d2 (source_row e2 u r)) = ?out" by (simp add: u_def)
  ultimately show ?thesis using r split u(3) len by metis
qed

end
