(* ===== verification/HeadingNumbers.thy ===== *)
theory HeadingNumbers
  imports Slugs
begin

text \<open>
  Automatic heading numbers (\<open>pkg/markdown/heading_numbering.go\<close>): every save of a page with the
  setting rewrites its ATX headings with outline numbers, decimal or Roman, and leaves fenced
  code alone.
\<close>

section \<open>Lines\<close>

text \<open>\<open>strings.SplitAfter(s, c)\<close>.\<close>

primrec SplitAfter :: "char \<Rightarrow> string \<Rightarrow> string list" where
  "SplitAfter c [] = [[]]"
| "SplitAfter c (x # xs) =
     (if x = c then [c] # SplitAfter c xs
      else case SplitAfter c xs of [] \<Rightarrow> [[x]] | l # ls \<Rightarrow> (x # l) # ls)"

definition count_prefix :: "char \<Rightarrow> string \<Rightarrow> nat" where
  "count_prefix c line = length (takeWhile (\<lambda>x. x = c) line)"

definition headingLevel :: "string \<Rightarrow> nat" where
  "headingLevel line =
     (let hashes = count_prefix (CHR ''#'') line in
      if hashes < 1 \<or> hashes > 6 \<or> hashes = length line then 0
      else if line ! hashes \<noteq> CHR '' '' \<and> line ! hashes \<noteq> CHR 0x09 then 0
      else hashes)"

definition fenceMarker :: "string \<Rightarrow> string" where
  "fenceMarker line =
     (if length line < 3 then []
      else let marker = hd line in
        if marker \<noteq> CHR 0x60 \<and> marker \<noteq> CHR ''~'' then []
        else let count = count_prefix marker line in if count < 3 then [] else replicate count marker)"

definition opensNumberingFence :: "string \<Rightarrow> string \<Rightarrow> bool" where
  "opensNumberingFence line marker =
     (if marker = [] then False
      else hd marker = CHR ''~'' \<or> \<not> Contains (drop (length marker) line) [CHR 0x60])"

definition blank :: "char \<Rightarrow> bool" where
  "blank c = (c = CHR '' '' \<or> c = CHR 0x09)"

definition closesNumberingFence :: "string \<Rightarrow> string \<Rightarrow> string \<Rightarrow> bool" where
  "closesNumberingFence line marker opening =
     (HasPrefix marker opening \<and> list_all blank (drop (length marker) line))"

section \<open>Numbers\<close>

text \<open>The numeral of a counter: units from the largest, each as often as it fits.\<close>

definition roman_units :: "(nat \<times> string) list" where
  "roman_units = [(1000, ''M''), (900, ''CM''), (500, ''D''), (400, ''CD''), (100, ''C''), (90, ''XC''), (50, ''L''),
     (40, ''XL''), (10, ''X''), (9, ''IX''), (5, ''V''), (4, ''IV''), (1, ''I'')]"

primrec roman_digits :: "(nat \<times> string) list \<Rightarrow> nat \<Rightarrow> string" where
  "roman_digits [] v = []"
| "roman_digits (u # us) v = concat (replicate (v div fst u) (snd u)) @ roman_digits us (v mod fst u)"

definition roman_format :: "string \<Rightarrow> bool" where
  "roman_format format = (format = ''roman'' \<or> format = ''roman-lower'')"

definition formatHeadingCounter :: "nat \<Rightarrow> string \<Rightarrow> string" where
  "formatHeadingCounter v format =
     (if \<not> roman_format format then show_nat v
      else let result = roman_digits roman_units v in
        if format = ''roman-lower'' then map ToLowerByte result else result)"

definition advance :: "nat list \<Rightarrow> nat \<Rightarrow> nat list" where
  "advance counters level = take (level - 1) counters @ [counters ! (level - 1) + 1] @ replicate (6 - level) 0"

definition nextHeadingNumber :: "nat list \<Rightarrow> nat \<Rightarrow> string \<Rightarrow> string \<times> nat list" where
  "nextHeadingNumber counters level format =
     (let counters = advance counters level;
          parts = map (\<lambda>c. formatHeadingCounter c format) (filter (\<lambda>c. c \<noteq> 0) (take level counters));
          number = Join parts ''.''
      in (if length parts = 1 then number @ ''.'' else number, counters))"

text \<open>
  The prefix a numbering run wrote before: \<open>^[0-9]+(?:\.|(?:\.[0-9]+)+)[ \t]+\<close>, and the same
  with Roman digits in either case.
\<close>

definition roman_byte :: "char \<Rightarrow> bool" where
  "roman_byte c = (c \<in> set ''ivxlcdmIVXLCDM'')"

function drop_components :: "(char \<Rightarrow> bool) \<Rightarrow> string \<Rightarrow> string" where
  "drop_components digit s =
     (case s of
        [] \<Rightarrow> []
      | c # r \<Rightarrow> if c = CHR ''.'' \<and> r \<noteq> [] \<and> digit (hd r) then drop_components digit (dropWhile digit r) else s)"
  by pat_completeness auto
termination
  by (relation "measure (\<lambda>(digit, s). length s)") (auto simp: length_dropWhile_le le_imp_less_Suc)

declare drop_components.simps [simp del]

definition starts_blank :: "string \<Rightarrow> bool" where
  "starts_blank s = (s \<noteq> [] \<and> blank (hd s))"

definition strip_number :: "(char \<Rightarrow> bool) \<Rightarrow> string \<Rightarrow> string" where
  "strip_number digit s =
     (let r = dropWhile digit s in
      if r = s \<or> \<not> HasPrefix r ''.'' then s
      else if starts_blank (tl r) then dropWhile blank (tl r)
      else let r2 = drop_components digit r in
        if r2 \<noteq> r \<and> starts_blank r2 then dropWhile blank r2 else s)"

section \<open>Renumbering\<close>

definition HeadingNumberingProperty :: string where
  "HeadingNumberingProperty = ''kumbuka.heading-numbering''"

definition HeadingNumberingEnabled :: "strmap \<Rightarrow> bool" where
  "HeadingNumberingEnabled properties =
     (case map_of properties HeadingNumberingProperty of
        None \<Rightarrow> False
      | Some v \<Rightarrow> v \<in> {''true'', ''roman'', ''roman-lower''})"

definition number_digit :: "string \<Rightarrow> char \<Rightarrow> bool" where
  "number_digit format = (if roman_format format then roman_byte else is_digit)"

text \<open>A line is its indentation, its text and its line ending.\<close>

definition line_body :: "string \<Rightarrow> string" where
  "line_body line = TrimSuffix (TrimSuffix line [CHR 0x0A]) [CHR 0x0D]"

text \<open>One step of the loop: the new line, the counters and the open fence after it.\<close>

definition renumber_line :: "string \<Rightarrow> nat list \<Rightarrow> string \<Rightarrow> string \<Rightarrow> string \<times> nat list \<times> string" where
  "renumber_line format counters inFence line =
     (let body = line_body line;
          ending = drop (length body) line;
          trimmed = dropWhile (\<lambda>c. c = CHR '' '') body;
          indentLength = length body - length trimmed;
          marker = fenceMarker trimmed;
          level = headingLevel trimmed;
          title = TrimSpace (drop level trimmed)
      in
      if indentLength > 3 then (line, counters, inFence)
      else if inFence \<noteq> [] then
        (line, counters, if closesNumberingFence trimmed marker inFence then [] else inFence)
      else if opensNumberingFence trimmed marker then (line, counters, marker)
      else if level = 0 \<or> title = [] then (line, counters, inFence)
      else
        let title = TrimSpace (strip_number (number_digit format) title) in
        case nextHeadingNumber counters level format of (number, counters) \<Rightarrow>
          (take indentLength body @ replicate level (CHR ''#'') @ '' '' @ number @ '' '' @ title @ ending, counters, inFence))"

primrec renumber_lines :: "string \<Rightarrow> nat list \<Rightarrow> string \<Rightarrow> string list \<Rightarrow> string list" where
  "renumber_lines format counters inFence [] = []"
| "renumber_lines format counters inFence (line # lines) =
     (case renumber_line format counters inFence line of (line, counters, inFence) \<Rightarrow>
        line # renumber_lines format counters inFence lines)"

definition RenumberHeadingsWithFormat :: "string \<Rightarrow> string \<Rightarrow> string" where
  "RenumberHeadingsWithFormat source format =
     concat (renumber_lines format (replicate 6 0) [] (SplitAfter (CHR 0x0A) source))"

definition RenumberHeadings :: "string \<Rightarrow> string" where
  "RenumberHeadings source = RenumberHeadingsWithFormat source ''true''"

section \<open>Generated numbers are recognised\<close>

lemma dropWhile_run: "list_all P p \<Longrightarrow> s = [] \<or> \<not> P (hd s) \<Longrightarrow> dropWhile P (p @ s) = s"
  by (induction p) (cases s; auto)+

lemma drop_components_run:
  assumes "\<forall>q \<in> set ps. q \<noteq> [] \<and> list_all digit q" and "\<not> digit (CHR ''.'')" and "s = [] \<or> (hd s \<noteq> CHR ''.'' \<and> \<not> digit (hd s))"
  shows "drop_components digit (concat (map (\<lambda>q. CHR ''.'' # q) ps) @ s) = s"
  using assms(1)
proof (induction ps)
  case Nil
  then show ?case using assms(3) by (cases s) (simp_all add: drop_components.simps)
next
  case (Cons q ps)
  let ?rest = "concat (map (\<lambda>q. CHR ''.'' # q) ps) @ s"
  have "?rest = [] \<or> \<not> digit (hd ?rest)" using assms(2,3) by (cases ps) auto
  then have "dropWhile digit (q @ ?rest) = ?rest" using Cons.prems by (intro dropWhile_run) simp_all
  moreover have "q @ ?rest \<noteq> [] \<and> digit (hd (q @ ?rest))" using Cons.prems by (cases q) simp_all
  ultimately show ?case using Cons by (subst drop_components.simps) simp
qed

lemma Join_dots: "Join (p # ps) ''.'' = p @ concat (map (\<lambda>q. CHR ''.'' # q) ps)"
  by (induction ps arbitrary: p) simp_all

definition outline_number :: "string list \<Rightarrow> string" where
  "outline_number parts = Join parts ''.'' @ (if length parts = 1 then ''.'' else [])"

lemma strip_number_generated:
  assumes parts: "parts \<noteq> []" "\<forall>q \<in> set parts. q \<noteq> [] \<and> list_all digit q"
    and digit: "\<not> digit (CHR ''.'')" "\<not> digit (CHR '' '')" "\<And>c. digit c \<Longrightarrow> \<not> blank c"
    and t: "t \<noteq> []" "\<not> blank (hd t)"
  shows "strip_number digit (outline_number parts @ '' '' @ t) = t"
proof -
  obtain p ps where pps: "parts = p # ps" using parts(1) by (cases parts) auto
  let ?rest = "concat (map (\<lambda>q. CHR ''.'' # q) ps) @ (if ps = [] then ''.'' else []) @ '' '' @ t"
  let ?s = "outline_number parts @ '' '' @ t"
  have s: "?s = p @ ?rest" by (simp add: outline_number_def pps Join_dots)
  have p: "p \<noteq> []" "list_all digit p" using parts(2) by (simp_all add: pps)
  have "hd ?rest = CHR ''.''" by (cases ps) simp_all
  then have r: "dropWhile digit ?s = ?rest" unfolding s using digit(1) p(2) by (intro dropWhile_run) simp_all
  have b: "dropWhile blank ('' '' @ t) = t" using t by (cases t) (simp_all add: blank_def)
  have ne: "?rest \<noteq> ?s" using p(1) unfolding s by simp
  have dot: "HasPrefix ?rest ''.''" by (cases ps) (simp_all add: HasPrefix_def)
  show ?thesis
  proof (cases ps)
    case Nil
    then show ?thesis using r ne b by (simp add: strip_number_def Let_def HasPrefix_def starts_blank_def blank_def)
  next
    case (Cons q qs)
    have "q \<noteq> [] \<and> digit (hd q)" using parts(2) by (cases q) (auto simp: pps Cons)
    then have nb: "\<not> starts_blank (tl ?rest)" using digit(3) by (cases q) (auto simp: Cons starts_blank_def)
    have "drop_components digit (concat (map (\<lambda>q. CHR ''.'' # q) ps) @ '' '' @ t) = '' '' @ t"
      by (rule drop_components_run) (use parts(2) digit in \<open>auto simp: pps\<close>)
    then have dc: "drop_components digit ?rest = '' '' @ t" by (simp add: Cons)
    have "'' '' @ t \<noteq> ?rest" by (simp add: Cons)
    moreover have "starts_blank ('' '' @ t)" by (simp add: starts_blank_def blank_def)
    ultimately show ?thesis
      unfolding strip_number_def Let_def r using ne dot nb dc b by (simp only: if_False if_True not_True_eq_False simp_thms)
  qed
qed

lemma roman_digits_byte: "c \<in> set (roman_digits us v) \<Longrightarrow> \<exists>u \<in> set us. c \<in> set (snd u)"
  by (induction us arbitrary: v) auto

lemma roman_digits_not_Nil:
  assumes "v \<noteq> 0" and "1 \<in> fst ` set us" and "\<forall>u \<in> set us. snd u \<noteq> []"
  shows "roman_digits us v \<noteq> []"
  using assms
proof (induction us arbitrary: v)
  case (Cons u us)
  show ?case
  proof (cases "v div fst u = 0")
    case True
    then have "v mod fst u = v" by (metis add_0 div_mult_mod_eq mult_zero_left)
    moreover have "fst u \<noteq> 1" using True Cons.prems(1) by auto
    ultimately show ?thesis using Cons by auto
  next
    case False
    then show ?thesis using Cons.prems(3) by (cases "v div fst u") auto
  qed
qed simp

lemma roman_units_bytes:
  "list_all (\<lambda>u. snd u \<noteq> [] \<and> list_all (\<lambda>c. roman_byte c \<and> roman_byte (ToLowerByte c)) (snd u)) roman_units"
  by code_simp

lemma formatHeadingCounter_part:
  assumes "v \<noteq> 0"
  shows "formatHeadingCounter v format \<noteq> [] \<and> list_all (number_digit format) (formatHeadingCounter v format)"
proof (cases "roman_format format")
  case False
  then show ?thesis by (simp add: formatHeadingCounter_def number_digit_def show_nat_digits)
next
  case True
  let ?r = "roman_digits roman_units v"
  have "1 \<in> fst ` set roman_units" by (simp add: roman_units_def)
  then have ne: "?r \<noteq> []"
    using roman_units_bytes by (intro roman_digits_not_Nil [OF assms]) (auto simp: list_all_iff)
  have "roman_byte c \<and> roman_byte (ToLowerByte c)" if "c \<in> set ?r" for c
    using roman_digits_byte [OF that] roman_units_bytes by (auto simp: list_all_iff)
  then have "list_all roman_byte ?r" "list_all roman_byte (map ToLowerByte ?r)" by (simp_all add: list_all_iff)
  with True ne show ?thesis by (simp add: formatHeadingCounter_def number_digit_def Let_def)
qed

lemma number_digit_plain:
  "number_digit format c \<Longrightarrow> graphic c \<and> c \<noteq> CHR ''.''"
proof -
  assume d: "number_digit format c"
  have "list_all (\<lambda>c. graphic c \<and> c \<noteq> CHR ''.'') ''ivxlcdmIVXLCDM''" by code_simp
  then have "roman_byte c \<Longrightarrow> graphic c \<and> c \<noteq> CHR ''.''" unfolding roman_byte_def list_all_iff by blast
  moreover have "graphic c \<and> c \<noteq> CHR ''.''" if "is_digit c"
  proof -
    have "48 \<le> byte c" "byte c \<le> 57" using that by (simp_all add: is_digit_def)
    then show ?thesis by (cases c) (auto simp: graphic_def of_bool_def split: if_splits)
  qed
  ultimately show ?thesis using d by (auto simp: number_digit_def split: if_splits)
qed

lemma graphic_not_space: "graphic c \<Longrightarrow> c \<noteq> CHR '' '' \<and> \<not> blank c \<and> c \<noteq> CHR 0x0A \<and> c \<noteq> CHR 0x0D"
  by (auto simp: graphic_def blank_def)

section \<open>Trimmed text\<close>

lemma space_in_white_space: "w \<in> set white_space \<Longrightarrow> CHR '' '' \<in> set w \<Longrightarrow> w = '' ''"
proof -
  have "list_all (\<lambda>w. list_all (\<lambda>c. c = CHR '' '' \<longrightarrow> w = '' '') w) white_space" by code_simp
  then show "w \<in> set white_space \<Longrightarrow> CHR '' '' \<in> set w \<Longrightarrow> w = '' ''" by (auto simp: list_all_iff)
qed

lemma trailing_space_after:
  assumes "t \<noteq> []" and "trailing_space t = None"
  shows "trailing_space (x @ '' '' @ t) = None"
proof -
  have "\<not> suffix w (x @ '' '' @ t)" if w: "w \<in> set white_space" for w
  proof
    assume "suffix w (x @ '' '' @ t)"
    then have "suffix w t \<or> (\<exists>y. w = y @ '' '' @ t)"
      unfolding suffix_append [of w x] suffix_append [of w "'' ''" t] by (auto simp: suffix_Cons)
    moreover have "\<not> suffix w t" using assms(2) w by (auto simp: trailing_space_def find_None_iff)
    ultimately obtain y where y: "w = y @ '' '' @ t" by blast
    then have "w = '' ''" using space_in_white_space [OF w] by simp
    with y assms(1) show False by (cases y) simp_all
  qed
  then show ?thesis by (simp add: trailing_space_def find_None_iff)
qed

lemma leading_space_graphic: "graphic c \<Longrightarrow> leading_space (c # s) = None"
  using white_space_ends white_space_not_Nil by (fastforce simp: leading_space_def find_None_iff prefix_def neq_Nil_conv)

lemma trimmed_ends:
  assumes "leading_space t = None" and "trailing_space t = None" and "t \<noteq> []"
  shows "\<not> blank (hd t) \<and> last t \<noteq> CHR 0x0A \<and> last t \<noteq> CHR 0x0D \<and> last t \<noteq> CHR '' '' \<and> last t \<noteq> CHR 0x09"
proof -
  obtain c s where cs: "t = c # s" using assms(3) by (cases t) auto
  obtain u d where ud: "t = u @ [d]" using assms(3) by (cases t rule: rev_cases) auto
  have "list_all (\<lambda>x. [x] \<in> set white_space) [CHR 0x09, CHR 0x0A, CHR 0x0D, CHR 0x20]" by code_simp
  then have "\<not> prefix [x] t \<and> \<not> suffix [x] t" if "x \<in> set [CHR 0x09, CHR 0x0A, CHR 0x0D, CHR 0x20]" for x
    using that assms(1,2) unfolding leading_space_def trailing_space_def find_None_iff list_all_iff by blast
  then have "c \<noteq> x \<and> d \<noteq> x" if "x \<in> set [CHR 0x09, CHR 0x0A, CHR 0x0D, CHR 0x20]" for x
    using that cs ud by (metis prefix_Cons prefix_bot.extremum suffix_snoc suffix_bot.extremum append_Nil)
  then have "c \<noteq> CHR 0x09" "c \<noteq> CHR 0x20" "d \<noteq> CHR 0x09" "d \<noteq> CHR 0x20" "d \<noteq> CHR 0x0A" "d \<noteq> CHR 0x0D"
    by (metis list.set_intros)+
  moreover have "hd t = c" using cs by simp
  moreover have "last t = d" using ud by simp
  ultimately show ?thesis by (simp add: blank_def)
qed

lemma trailing_space_suffix: "suffix s t \<Longrightarrow> trailing_space t = None \<Longrightarrow> trailing_space s = None"
  by (auto simp: trailing_space_def find_None_iff dest: suffix_order.trans)

lemma TrimSpace_not_Nil:
  assumes "s \<noteq> []" and "trailing_space s = None"
  shows "TrimSpace s \<noteq> []"
proof -
  have "TrimLeftSpace s \<noteq> []" using assms
  proof (induction s rule: TrimLeftSpace.induct)
    case (1 s)
    show ?case
    proof (cases "leading_space s")
      case None
      with 1 show ?thesis by (simp add: TrimLeftSpace.simps)
    next
      case (Some w)
      then have w: "prefix w s" "w \<in> set white_space" by (auto simp: leading_space_def find_Some_iff dest: nth_mem)
      have "drop (length w) s \<noteq> []"
      proof
        assume "drop (length w) s = []"
        with w(1) have "s = w" by (auto simp: prefix_def)
        with w(2) "1.prems"(2) show False by (auto simp: trailing_space_def find_None_iff)
      qed
      moreover have "trailing_space (drop (length w) s) = None"
        using trailing_space_suffix [OF suffix_drop "1.prems"(2)] .
      ultimately show ?thesis using "1.IH" [OF Some] Some by (subst TrimLeftSpace.simps) simp
    qed
  qed
  moreover have "trailing_space (TrimLeftSpace s) = None"
    using trailing_space_suffix [OF TrimLeftSpace_suffix assms(2)] .
  ultimately show ?thesis by (simp add: TrimSpace_def TrimRightSpace.simps [of "TrimLeftSpace s"])
qed

lemma dropWhile_suffix: "suffix (dropWhile P s) s"
  by (metis suffix_def takeWhile_dropWhile_id)

lemma drop_components_suffix: "suffix (drop_components digit s) s"
proof (induction digit s rule: drop_components.induct)
  case (1 digit s)
  show ?case
  proof (cases s)
    case (Cons c r)
    have "suffix (dropWhile digit r) s" unfolding Cons by (rule suffix_ConsI) (rule dropWhile_suffix)
    then show ?thesis using 1 [OF Cons] Cons by (subst drop_components.simps) (auto intro: suffix_order.trans)
  qed (simp add: drop_components.simps)
qed

lemma strip_number_suffix: "suffix (strip_number digit s) s"
proof -
  note dc = drop_components_suffix
  let ?r = "dropWhile digit s"
  have "suffix (dropWhile blank (tl ?r)) s"
    by (intro suffix_order.trans [OF dropWhile_suffix] suffix_order.trans [OF suffix_tl] dropWhile_suffix)
  moreover have "suffix (dropWhile blank (drop_components digit ?r)) s"
    by (intro suffix_order.trans [OF dropWhile_suffix] suffix_order.trans [OF dc] dropWhile_suffix)
  ultimately show ?thesis by (simp add: strip_number_def Let_def)
qed

lemma strip_number_not_Nil:
  assumes "s \<noteq> []" and "\<not> blank (last s)"
  shows "strip_number digit s \<noteq> []"
proof -
  have "dropWhile blank x \<noteq> []" if "suffix x s" "x \<noteq> []" for x
  proof -
    have "last x = last s" using that by (auto simp: suffix_def)
    with assms(2) that(2) show ?thesis by (metis dropWhile_eq_Nil_conv last_in_set)
  qed
  moreover have "suffix (tl (dropWhile digit s)) s"
    by (intro suffix_order.trans [OF suffix_tl] dropWhile_suffix)
  moreover have "suffix (drop_components digit (dropWhile digit s)) s"
    using strip_number_suffix assms by (metis dropWhile_suffix suffix_order.trans drop_components_suffix)
  ultimately show ?thesis using assms(1) by (auto simp: strip_number_def Let_def starts_blank_def)
qed

section \<open>A line that is renumbered\<close>

text \<open>A piece of \<open>SplitAfter\<close>: at most one newline, at its end.\<close>

definition one_line :: "string \<Rightarrow> bool" where
  "one_line line = (\<exists>body ending. line = body @ ending \<and> CHR 0x0A \<notin> set body \<and> (ending = [] \<or> ending = [CHR 0x0A]))"

definition line_endings :: "string set" where
  "line_endings = {[], [CHR 0x0A], [CHR 0x0D], [CHR 0x0D, CHR 0x0A]}"

lemma TrimSuffix_one: "TrimSuffix s [c] = (if s \<noteq> [] \<and> last s = c then butlast s else s)"
  by (cases s rule: rev_cases) (auto simp: TrimSuffix_def HasSuffix_def suffix_def)

lemma line_body_ending:
  assumes "one_line line"
  shows "\<exists>ending \<in> line_endings. line = line_body line @ ending \<and> CHR 0x0A \<notin> set (line_body line)"
proof -
  obtain b n where line: "line = b @ n" and b: "CHR 0x0A \<notin> set b" and n: "n = [] \<or> n = [CHR 0x0A]"
    using assms by (auto simp: one_line_def)
  have "TrimSuffix line [CHR 0x0A] = b"
    using n line b by (auto simp: TrimSuffix_one butlast_append dest: last_in_set)
  then have lb: "line_body line = (if b \<noteq> [] \<and> last b = CHR 0x0D then butlast b else b)"
    by (simp add: line_body_def TrimSuffix_one)
  show ?thesis
  proof (cases "b \<noteq> [] \<and> last b = CHR 0x0D")
    case True
    then have "b = butlast b @ [CHR 0x0D]" by (metis append_butlast_last_id)
    then have "line = line_body line @ ([CHR 0x0D] @ n)" using lb True line by (metis append_assoc)
    moreover have "[CHR 0x0D] @ n \<in> line_endings" using n by (auto simp: line_endings_def)
    moreover have "CHR 0x0A \<notin> set (line_body line)" using b lb True by (auto dest: in_set_butlastD)
    ultimately show ?thesis by blast
  next
    case False
    then have "line_body line = b" using lb by auto
    moreover have "n \<in> line_endings" using n by (auto simp: line_endings_def)
    ultimately show ?thesis using line b by blast
  qed
qed

lemma line_body_append:
  assumes "ending \<in> line_endings" and "body \<noteq> []" and "last body \<noteq> CHR 0x0A" and "last body \<noteq> CHR 0x0D"
  shows "line_body (body @ ending) = body"
  using assms unfolding line_endings_def line_body_def by (auto simp: TrimSuffix_one last_append butlast_append)

lemma headingLevel_bounds: "headingLevel line \<le> 6"
  by (simp add: headingLevel_def Let_def)

lemma count_prefix_replicate: "s = [] \<or> hd s \<noteq> c \<Longrightarrow> count_prefix c (replicate n c @ s) = n"
  unfolding count_prefix_def by (induction n) (cases s; auto)+

lemma headingLevel_heading: "0 < level \<Longrightarrow> level \<le> 6 \<Longrightarrow> headingLevel (replicate level (CHR ''#'') @ '' '' @ x) = level"
  by (simp add: headingLevel_def count_prefix_replicate nth_append)

lemma outline_number_shape:
  assumes "parts \<noteq> []" and "\<forall>q \<in> set parts. q \<noteq> [] \<and> list_all (number_digit format) q"
  shows "\<exists>c s. outline_number parts = c # s \<and> graphic c \<and> (\<forall>x \<in> set (c # s). graphic x)"
proof -
  have dot: "graphic (CHR ''.'')" by (simp add: graphic_def)
  have all: "\<forall>x \<in> set (outline_number parts). graphic x"
  proof -
    obtain p ps where p: "parts = p # ps" using assms(1) by (cases parts) auto
    have "\<forall>q \<in> set parts. \<forall>x \<in> set q. graphic x"
      using assms(2) number_digit_plain by (auto simp: list_all_iff)
    then show ?thesis using dot by (auto simp: outline_number_def p Join_dots)
  qed
  moreover have "outline_number parts \<noteq> []" using assms by (cases parts) (auto simp: outline_number_def Join_dots)
  ultimately show ?thesis by (cases "outline_number parts") auto
qed

lemma nextHeadingNumber_parts:
  assumes "0 < level" and "level \<le> 6" and "length counters = 6"
  obtains parts where "nextHeadingNumber counters level format = (outline_number parts, advance counters level)"
    and "parts \<noteq> []" and "\<forall>q \<in> set parts. q \<noteq> [] \<and> list_all (number_digit format) q"
    and "length (advance counters level) = 6"
proof -
  let ?cs = "filter (\<lambda>c. c \<noteq> 0) (take level (advance counters level))"
  let ?parts = "map (\<lambda>c. formatHeadingCounter c format) ?cs"
  have "counters ! (level - 1) + 1 \<in> set (take level (advance counters level))"
    using assms by (auto simp: advance_def)
  then have "?parts \<noteq> []" by (auto simp: filter_empty_conv)
  moreover have "\<forall>q \<in> set ?parts. q \<noteq> [] \<and> list_all (number_digit format) q"
    using formatHeadingCounter_part by auto
  moreover have "nextHeadingNumber counters level format = (outline_number ?parts, advance counters level)"
    by (simp add: nextHeadingNumber_def outline_number_def Let_def)
  moreover have "length (advance counters level) = 6" using assms by (simp add: advance_def)
  ultimately show ?thesis using that by blast
qed

definition terminated :: "string \<Rightarrow> bool" where
  "terminated line = (line \<noteq> [] \<and> last line = CHR 0x0A)"

lemma terminated_append:
  "CHR 0x0A \<notin> set body \<Longrightarrow> ending \<in> line_endings \<Longrightarrow> terminated (body @ ending) = (ending \<in> {[CHR 0x0A], [CHR 0x0D, CHR 0x0A]})"
  by (auto simp: terminated_def line_endings_def last_append dest: last_in_set)

lemma one_line_append: "CHR 0x0A \<notin> set body \<Longrightarrow> ending \<in> line_endings \<Longrightarrow> one_line (body @ ending)"
proof -
  assume b: "CHR 0x0A \<notin> set body" and e: "ending \<in> line_endings"
  then consider "CHR 0x0A \<notin> set ending" | "ending = [CHR 0x0A]" | "ending = [CHR 0x0D, CHR 0x0A]"
    by (auto simp: line_endings_def)
  then show ?thesis
  proof cases
    case 1
    then show ?thesis unfolding one_line_def using b by (intro exI [of _ "body @ ending"] exI [of _ "[]"]) simp
  next
    case 2
    then show ?thesis unfolding one_line_def using b by (intro exI [of _ "body"] exI [of _ "ending"]) simp
  next
    case 3
    then show ?thesis unfolding one_line_def using b
      by (intro exI [of _ "body @ [CHR 0x0D]"] exI [of _ "[CHR 0x0A]"]) simp
  qed
qed

text \<open>A heading as a numbering run leaves it is a fixed point of the same step.\<close>

lemma renumber_line_heading:
  assumes ind: "list_all (\<lambda>c. c = CHR '' '') indent" "length indent \<le> 3"
    and level: "0 < level" "level \<le> 6" and counters: "length counters = 6" and e: "ending \<in> line_endings"
    and t: "t \<noteq> []" "leading_space t = None" "trailing_space t = None"
    and parts: "parts \<noteq> []" "\<forall>q \<in> set parts. q \<noteq> [] \<and> list_all (number_digit format) q"
    and nxt: "nextHeadingNumber counters level format = (outline_number parts, counters')"
  shows "renumber_line format counters [] (indent @ replicate level (CHR ''#'') @ '' '' @ outline_number parts @ '' '' @ t @ ending) =
    (indent @ replicate level (CHR ''#'') @ '' '' @ outline_number parts @ '' '' @ t @ ending, counters', [])"
proof -
  let ?n = "outline_number parts"
  let ?trim = "replicate level (CHR ''#'') @ '' '' @ ?n @ '' '' @ t"
  let ?line = "(indent @ ?trim) @ ending"
  note te = trimmed_ends [OF t(2,3,1)]
  have "last (indent @ ?trim) = last t" using t(1) by simp
  then have body: "line_body ?line = indent @ ?trim"
    using te e by (intro line_body_append) simp_all
  have hd: "hd ?trim = CHR ''#''" "?trim \<noteq> []" using level by (cases level; simp)+
  then have trim: "dropWhile (\<lambda>c. c = CHR '' '') (indent @ ?trim) = ?trim"
    using ind by (intro dropWhile_run) simp_all
  have marker: "fenceMarker ?trim = []" using hd by (simp add: fenceMarker_def Let_def)
  have lv: "headingLevel ?trim = level" using headingLevel_heading [OF level] by simp
  obtain c s where cs: "?n = c # s" "graphic c" using outline_number_shape [OF parts] by blast
  have inner: "TrimSpace ('' '' @ ?n @ '' '' @ t) = ?n @ '' '' @ t"
  proof -
    have "trailing_space (?n @ '' '' @ t) = None" by (rule trailing_space_after [OF t(1,3)])
    moreover have "leading_space (?n @ '' '' @ t) = None" using cs by (simp add: leading_space_graphic)
    moreover have "TrimLeftSpace ('' '' @ ?n @ '' '' @ t) = TrimLeftSpace (?n @ '' '' @ t)"
    proof -
      have "leading_space (CHR '' '' # x) = Some '' ''" for x
      proof -
        have "list_all (\<lambda>w. hd w = CHR '' '' \<longrightarrow> w = '' '') white_space \<and> '' '' \<in> set white_space" by code_simp
        then have "prefix w (CHR '' '' # x) \<longleftrightarrow> w = '' ''" if "w \<in> set white_space" for w
          using that white_space_not_Nil by (auto simp: list_all_iff prefix_Cons)
        moreover have "'' '' \<in> set white_space" using \<open>_ \<and> '' '' \<in> set white_space\<close> ..
        moreover have "a \<in> set xs \<Longrightarrow> find (\<lambda>w. w = a) xs = Some a" for a :: string and xs by (induction xs) auto
        moreover have "find (\<lambda>w. prefix w (CHR '' '' # x)) white_space = find (\<lambda>w. w = '' '') white_space"
          by (rule find_cong) (simp_all add: calculation)
        ultimately show ?thesis unfolding leading_space_def by simp
      qed
      then show ?thesis by (subst TrimLeftSpace.simps) simp
    qed
    ultimately show ?thesis using TrimSpace_id by (simp add: TrimSpace_def)
  qed
  have "\<not> number_digit format (CHR ''.'')" "\<not> number_digit format (CHR '' '')"
    using number_digit_plain graphic_not_space by blast+
  then have strip: "strip_number (number_digit format) (?n @ '' '' @ t) = t"
    using number_digit_plain graphic_not_space te by (intro strip_number_generated [OF parts]) (use t(1) in blast)+
  have "drop level ?trim = '' '' @ ?n @ '' '' @ t" by simp
  then have title: "TrimSpace (drop level ?trim) = ?n @ '' '' @ t" using inner by simp
  define trim where "trim = ?trim"
  have parts_of: "drop (length (indent @ trim)) ((indent @ trim) @ ending) = ending"
    "length (indent @ trim) - length trim = length indent" "take (length indent) (indent @ trim) = indent"
    "\<not> opensNumberingFence trim []" "TrimSpace t = t" "\<not> length indent > 3" "?n @ '' '' @ t \<noteq> []" "level \<noteq> 0"
    using t ind level by (simp_all add: opensNumberingFence_def TrimSpace_id)
  have "renumber_line format counters [] ((indent @ trim) @ ending) =
      (indent @ replicate level (CHR ''#'') @ '' '' @ ?n @ '' '' @ t @ ending, counters', [])"
    unfolding renumber_line_def Let_def body [folded trim_def] trim [folded trim_def] marker [folded trim_def]
      lv [folded trim_def] title [folded trim_def] strip nxt parts_of
    using parts_of by simp
  then show ?thesis by (simp add: trim_def)
qed

text \<open>The step leaves a line alone or rewrites its heading; a second run then changes nothing.\<close>

lemma renumber_line_again:
  assumes one: "one_line line" and counters: "length counters = 6"
    and step: "renumber_line format counters inFence line = (line', counters', inFence')"
  shows "renumber_line format counters inFence line' = (line', counters', inFence') \<and> one_line line' \<and>
    terminated line' = terminated line \<and> length counters' = 6"
proof (cases "line' = line \<and> counters' = counters")
  case True
  then show ?thesis using one counters step by simp
next
  case False
  let ?body = "line_body line"
  let ?trim = "dropWhile (\<lambda>c. c = CHR '' '') ?body"
  let ?level = "headingLevel ?trim"
  let ?title = "TrimSpace (drop ?level ?trim)"
  let ?t = "TrimSpace (strip_number (number_digit format) ?title)"
  let ?indent = "take (length ?body - length ?trim) ?body"
  obtain ending where e: "ending \<in> line_endings" "line = ?body @ ending" "CHR 0x0A \<notin> set ?body"
    using line_body_ending [OF one] by blast
  have drop: "drop (length ?body) line = ending" by (subst e(2)) simp
  have c: "\<not> length ?body - length ?trim > 3" "inFence = []" "0 < ?level" "?title \<noteq> []"
    and s: "(case nextHeadingNumber counters ?level format of (number, counters) \<Rightarrow>
        (?indent @ replicate ?level (CHR ''#'') @ '' '' @ number @ '' '' @ ?t @ ending, counters, [])) = (line', counters', inFence')"
    using step False unfolding renumber_line_def Let_def drop by (auto split: if_splits)
  have level: "?level \<le> 6" by (rule headingLevel_bounds)
  obtain parts where parts: "nextHeadingNumber counters ?level format = (outline_number parts, advance counters ?level)"
    "parts \<noteq> []" "\<forall>q \<in> set parts. q \<noteq> [] \<and> list_all (number_digit format) q" "length (advance counters ?level) = 6"
    by (rule nextHeadingNumber_parts [OF c(3) level counters])
  have line': "line' = ?indent @ replicate ?level (CHR ''#'') @ '' '' @ outline_number parts @ '' '' @ ?t @ ending"
    "counters' = advance counters ?level" "inFence' = []"
    using s parts(1) by simp_all
  have title: "leading_space ?title = None" "trailing_space ?title = None" by (rule TrimSpace_clean)+
  have sn: "strip_number (number_digit format) ?title \<noteq> []"
    by (rule strip_number_not_Nil [OF c(4)]) (use trimmed_ends [OF title c(4)] in \<open>simp add: blank_def\<close>)
  have t: "?t \<noteq> []" "leading_space ?t = None" "trailing_space ?t = None"
    using TrimSpace_not_Nil [OF sn trailing_space_suffix [OF strip_number_suffix title(2)]] TrimSpace_clean by auto
  have split: "?body = takeWhile (\<lambda>c. c = CHR '' '') ?body @ ?trim" by simp
  then have ind: "?indent = takeWhile (\<lambda>c. c = CHR '' '') ?body"
    by (metis add_diff_cancel_right' append_eq_conv_conj length_append)
  have ind1: "list_all (\<lambda>c. c = CHR '' '') ?indent"
    unfolding ind by (auto simp: list_all_iff dest: set_takeWhileD)
  have "length ?indent \<le> length ?body - length ?trim" by simp
  with c(1) have ind': "list_all (\<lambda>c. c = CHR '' '') ?indent" "length ?indent \<le> 3"
    using ind1 by simp_all
  have again: "renumber_line format counters [] line' = (line', counters', [])"
    unfolding line'(1,2)
    by (rule renumber_line_heading [OF ind' c(3) level counters e(1) t parts(2,3,1)])
  have "set ?t \<subseteq> set ?body"
    using set_TrimSpace [of "strip_number (number_digit format) ?title"] set_mono_suffix [OF strip_number_suffix]
      set_TrimSpace [of "drop ?level ?trim"] set_drop_subset [of ?level ?trim] set_dropWhileD [of _ "\<lambda>c. c = CHR '' ''" ?body]
    by blast
  moreover have "CHR 0x0A \<notin> set (outline_number parts)"
    using outline_number_shape [OF parts(2,3)] graphic_not_space by force
  ultimately have nl: "CHR 0x0A \<notin> set (?indent @ replicate ?level (CHR ''#'') @ '' '' @ outline_number parts @ '' '' @ ?t)"
    using e(3) in_set_takeD [of "CHR 0x0A" _ ?body] by auto
  have "line' = (?indent @ replicate ?level (CHR ''#'') @ '' '' @ outline_number parts @ '' '' @ ?t) @ ending"
    unfolding line'(1) by simp
  then have "one_line line'" "terminated line' = terminated line"
    using one_line_append [OF nl e(1)] terminated_append [OF nl e(1)] terminated_append [OF e(3,1)] e(2) by metis+
  with again c(2) line'(2,3) parts(4) show ?thesis by simp
qed

fun lines_wf :: "string list \<Rightarrow> bool" where
  "lines_wf [] = False"
| "lines_wf [l] = (one_line l \<and> \<not> terminated l)"
| "lines_wf (l # ls) = (one_line l \<and> terminated l \<and> lines_wf ls)"

lemma renumber_lines_again:
  assumes "lines_wf ls" and "length counters = 6"
  shows "renumber_lines format counters inFence (renumber_lines format counters inFence ls) =
      renumber_lines format counters inFence ls \<and> lines_wf (renumber_lines format counters inFence ls)"
  using assms
proof (induction ls arbitrary: counters inFence)
  case (Cons l ls)
  obtain l' c' f' where r: "renumber_line format counters inFence l = (l', c', f')" by (metis prod.exhaust)
  have one: "one_line l" using Cons.prems(1) by (cases ls) simp_all
  note a = renumber_line_again [OF one Cons.prems(2) r]
  show ?case
  proof (cases ls)
    case Nil
    then show ?thesis using a r Cons.prems(1) by simp
  next
    case (Cons m ms)
    then have "lines_wf ls" using Cons.prems(1) by simp
    with Cons.IH a have ih: "renumber_lines format c' f' (renumber_lines format c' f' ls) = renumber_lines format c' f' ls"
      "lines_wf (renumber_lines format c' f' ls)" by blast+
    moreover have "renumber_lines format c' f' ls \<noteq> []" using Cons by (simp split: prod.splits)
    ultimately have "lines_wf (l' # renumber_lines format c' f' ls)"
      using a Cons Cons.prems(1) by (cases "renumber_lines format c' f' ls") auto
    with r a ih(1) show ?thesis by simp
  qed
qed simp

lemma one_line_newline: "one_line [CHR 0x0A]"
  unfolding one_line_def by (intro exI [of _ "[]"] exI [of _ "[CHR 0x0A]"]) simp

lemma SplitAfter_wf: "lines_wf (SplitAfter (CHR 0x0A) s)"
proof (induction s)
  case Nil
  then show ?case by (simp add: one_line_def terminated_def)
next
  case (Cons x s)
  obtain l ls where ls: "SplitAfter (CHR 0x0A) s = l # ls" using Cons by (cases "SplitAfter (CHR 0x0A) s") auto
  show ?case
  proof (cases "x = CHR 0x0A")
    case True
    then show ?thesis using Cons ls one_line_newline by (simp add: terminated_def)
  next
    case False
    have one: "one_line l" using Cons ls by (cases ls) simp_all
    then obtain body ending where b: "l = body @ ending" "CHR 0x0A \<notin> set body" "ending = [] \<or> ending = [CHR 0x0A]"
      by (auto simp: one_line_def)
    have "one_line (x # l)"
      unfolding one_line_def by (intro exI [of _ "x # body"] exI [of _ ending]) (use b False in simp)
    moreover have "terminated (x # l) = terminated l" using False by (auto simp: terminated_def)
    ultimately show ?thesis using Cons ls False by (cases ls) simp_all
  qed
qed

lemma concat_SplitAfter: "concat (SplitAfter c s) = s"
  by (induction s) (auto split: list.splits)

lemma SplitAfter_body: "c \<notin> set b \<Longrightarrow> SplitAfter c b = [b]"
  by (induction b) auto

lemma SplitAfter_line: "c \<notin> set b \<Longrightarrow> SplitAfter c (b @ c # s) = (b @ [c]) # SplitAfter c s"
  by (induction b) auto

lemma SplitAfter_concat: "lines_wf ls \<Longrightarrow> SplitAfter (CHR 0x0A) (concat ls) = ls"
proof (induction ls rule: lines_wf.induct)
  case (2 l)
  then have "CHR 0x0A \<notin> set l" by (auto simp: one_line_def terminated_def)
  then show ?case by (simp add: SplitAfter_body)
next
  case (3 l m ms)
  then obtain b where "l = b @ [CHR 0x0A]" "CHR 0x0A \<notin> set b"
    using last_in_set [of l] by (auto simp: one_line_def terminated_def)
  with 3 show ?case by (simp add: SplitAfter_line)
qed simp

section \<open>Properties\<close>

text \<open>C36: Renumbering is idempotent: a save of the text that a save produced does not change it again,
  whatever the source and the numeral style, so saving an unchanged page is recognised as such.\<close>

theorem renumber_headings_idempotent:
  "RenumberHeadingsWithFormat (RenumberHeadingsWithFormat source format) format = RenumberHeadingsWithFormat source format"
proof -
  let ?ls = "SplitAfter (CHR 0x0A) source"
  have r: "renumber_lines format (replicate 6 0) [] (renumber_lines format (replicate 6 0) [] ?ls) =
      renumber_lines format (replicate 6 0) [] ?ls" "lines_wf (renumber_lines format (replicate 6 0) [] ?ls)"
    using renumber_lines_again [OF SplitAfter_wf, where counters = "replicate 6 0" and format = format and inFence = "[]"] by simp_all
  show ?thesis unfolding RenumberHeadingsWithFormat_def SplitAfter_concat [OF r(2)] r(1) ..
qed

end
