(* ===== verification/Mutations.thy ===== *)
theory Mutations
  imports PageMove RecycleBin ReviewFeedback HeadingNumbers
begin

text \<open>
  The page mutations (\<open>internal/application/pages/mutations.go\<close>, \<open>content_update.go\<close>,
  \<open>page_bulk.go\<close>) and \<open>MarkPageReviewed\<close> of the store (\<open>internal/postgres/knowledge.go\<close>): saving,
  deleting, moving, reviewing and restoring a page, replacing its body, imports and bulk actions.
  A use case may fail after its transaction has committed, so its outcome is the result together
  with the state it leaves and the effects it sent, also when the result is an error. The store
  is the repository, which writes the audit record of a page action in the transaction, so that
  the use cases only send the event.
\<close>

section \<open>Outcomes\<close>

type_synonym 'a outcome = "(error + 'a) \<times> db \<times> effect list"

definition attempt :: "error + 'x \<Rightarrow> db \<Rightarrow> ('x \<Rightarrow> 'a outcome) \<Rightarrow> 'a outcome" where
  "attempt r d k = (case r of Inl er \<Rightarrow> (Inl er, d, []) | Inr x \<Rightarrow> k x)"

definition emit :: "effect list \<Rightarrow> 'a outcome \<Rightarrow> 'a outcome" where
  "emit fx o1 = (case o1 of (r, d, fx1) \<Rightarrow> (r, d, fx @ fx1))"

section \<open>Saving\<close>

record page_save_input =
  si_previous :: string
  si_expected :: time
  si_slug :: string
  si_title :: string
  si_icon :: string
  si_language :: string
  si_markdown :: string
  si_message :: string
  si_tags :: "string list"
  si_groups :: "int list"
  si_status :: string
  si_owner :: int
  si_interval :: int
  si_mark_reviewed :: bool
  si_target :: string
  si_properties :: strmap
  si_actor :: user

text \<open>
  The service: the policy, the content preparer, the effects, the icon catalog and whether a
  plugin listens to content changes.
\<close>

record mutations_service =
  mu_policy :: "policy option"
  mu_content :: content_service
  mu_effects :: page_effects
  mu_icons :: "(string \<Rightarrow> bool) option"
  mu_change_sink :: bool

definition notifyContentChanged :: "mutations_service \<Rightarrow> page \<Rightarrow> string \<Rightarrow> string \<Rightarrow> user \<Rightarrow> effect list" where
  "notifyContentChanged svc p previous markdown actor =
     (if \<not> mu_change_sink svc \<or> previous = markdown then [] else [ContentChanged p previous markdown actor])"

definition recordCommittedPageAction :: "mutations_service \<Rightarrow> int \<Rightarrow> string \<Rightarrow> string \<Rightarrow> string \<Rightarrow> effect list" where
  "recordCommittedPageAction svc actor action slug detail = sendEvent (mu_effects svc) actor action ''page'' slug detail"

definition validPageWorkflowSettings :: "page_save_input \<Rightarrow> bool" where
  "validPageWorkflowSettings i =
     (if \<not> ValidPageStatus (si_status i) then False
      else if \<not> ValidReviewIntervalDays (si_interval i) then False
      else si_owner i \<ge> 0)"

definition validContentLanguage :: "string \<Rightarrow> bool" where
  "validContentLanguage v = (v \<in> set [''arabic'', ''chinese'', ''danish'', ''dutch'', ''english'', ''finnish'',
     ''french'', ''german'', ''greek'', ''hungarian'', ''italian'', ''japanese'', ''norwegian'', ''portuguese'',
     ''romanian'', ''russian'', ''spanish'', ''swedish'', ''turkish''])"

definition normalizePageSaveInput :: "page_save_input \<Rightarrow> page_save_input" where
  "normalizePageSaveInput i =
     (let previous = TrimSpace (si_previous i); slug = Slug (si_slug i); title = TrimSpace (si_title i) in
      i\<lparr>si_previous := previous,
        si_slug := if slug = [] \<and> previous = [] then Slug title else slug,
        si_title := title,
        si_icon := TrimSpace (si_icon i),
        si_language := TrimSpace (si_language i),
        si_target := Slug (si_target i)\<rparr>)"

definition validatePageSlug :: "string \<Rightarrow> (string \<times> string) list" where
  "validatePageSlug slug =
     (if slug = [] then [(''slug'', ''A page path is required.'')]
      else if HasPrefix slug ''/'' \<or> HasSuffix slug ''/'' \<or> Contains slug ''//''
      then [(''slug'', ''Use a page path without leading, trailing, or repeated slashes.'')]
      else [])"

definition validatePageSaveInput :: "mutations_service \<Rightarrow> page_save_input \<Rightarrow> error + unit" where
  "validatePageSaveInput svc i =
     (let fields = validatePageSlug (si_slug i) @
        (if si_title i = [] then [(''title'', ''Title is required.'')] else []) @
        (if si_icon i \<noteq> [] \<and> (case mu_icons svc of None \<Rightarrow> True | Some isIcon \<Rightarrow> \<not> isIcon (si_icon i))
         then [(''icon'', ''Choose an icon from the available icon catalog.'')] else []) @
        (if si_language i \<noteq> [] \<and> \<not> validContentLanguage (si_language i)
         then [(''language'', ''Choose a supported content language.'')] else []) @
        (if \<not> validPageWorkflowSettings i then [(''status'', ''Choose valid page workflow settings.'')] else [])
      in if fields = [] then Inr () else Inl (ValidationError fields))"

definition pageMetadataFromSaveInput :: "page_save_input \<Rightarrow> plugin_usage \<Rightarrow> page_metadata" where
  "pageMetadataFromSaveInput i usage =
     \<lparr>md_status = si_status i, md_owner_group = si_owner i, md_review_interval = si_interval i,
      md_mark_reviewed = si_mark_reviewed i, md_deprecated_target = si_target i, md_usage = usage\<rparr>"

definition renumbered_input :: "page_save_input \<Rightarrow> page_save_input" where
  "renumbered_input i =
     (if HeadingNumberingEnabled (si_properties i)
      then i\<lparr>si_markdown := RenumberHeadingsWithFormat (si_markdown i)
               (case map_of (si_properties i) HeadingNumberingProperty of None \<Rightarrow> [] | Some v \<Rightarrow> v)\<rparr>
      else i)"

definition app_preparePageSave ::
  "mutations_service \<Rightarrow> page_save_input \<Rightarrow> error + (page_save_input \<times> page_metadata \<times> page_render)" where
  "app_preparePageSave svc i =
     (let i = normalizePageSaveInput (renumbered_input i) in
      bindR (validatePageSaveInput svc i) (\<lambda>_.
      bindR (preparePageContent (mu_content svc) (si_markdown i)) (\<lambda>(usage, render).
      Inr (i, pageMetadataFromSaveInput i usage, render))))"

definition save_request_of :: "mutations_service \<Rightarrow> page_save_input \<Rightarrow> page_metadata \<Rightarrow> page_render \<Rightarrow> save_request" where
  "save_request_of svc i m render =
     \<lparr>sq_previous = si_previous i, sq_slug = si_slug i, sq_title = si_title i, sq_icon = si_icon i,
      sq_language = si_language i, sq_markdown = si_markdown i, sq_message = si_message i, sq_tags = si_tags i,
      sq_links = Links (ct_fences (mu_content svc)) (si_markdown i), sq_groups = si_groups i, sq_metadata = m,
      sq_properties = si_properties i, sq_render = render, sq_user = si_actor i\<rparr>"

definition persistPageSave ::
  "mutations_service \<Rightarrow> env \<Rightarrow> page_save_input \<Rightarrow> page_metadata \<Rightarrow> page_render \<Rightarrow> db \<Rightarrow> error + (page \<times> db)" where
  "persistPageSave svc e i m render d =
     (let q = save_request_of svc i m render in
      if si_previous i \<noteq> [] \<and> si_expected i \<noteq> 0 then store_SavePageIfUnchanged e (si_expected i) q d
      else store_SavePage e q d)"

definition app_save :: "mutations_service \<Rightarrow> env \<Rightarrow> page_save_input \<Rightarrow> db \<Rightarrow> page outcome" where
  "app_save svc e i d =
     attempt (app_preparePageSave svc i) d (\<lambda>(i, m, render).
     attempt (persistPageSave svc e i m render d) d (\<lambda>(p, d1). (Inr p, d1, [InvalidateIcons])))"

definition actionTitle :: "string \<Rightarrow> string \<Rightarrow> string" where
  "actionTitle action title =
     (if action = ''page.created'' then ''Page created: '' @ title
      else if action = ''page.renamed'' then ''Page renamed: '' @ title
      else ''Page updated: '' @ title)"

definition save_destination :: "page_save_input \<Rightarrow> string" where
  "save_destination i =
     (let destination = Slug (si_slug i) in
      if destination = [] \<and> TrimSpace (si_previous i) = [] then Slug (si_title i) else destination)"

definition save_effects :: "mutations_service \<Rightarrow> page_save_input \<Rightarrow> page \<Rightarrow> page \<Rightarrow> effect list" where
  "save_effects svc i previous p =
     (let action = (if si_previous i = [] then ''page.created''
                    else if TrimSpace (si_previous i) \<noteq> pg_slug p then ''page.renamed'' else ''page.updated'');
          actor = u_id (si_actor i); destination = PageURL (pg_id p) (pg_slug p)
      in sendEvent (mu_effects svc) actor action ''page'' (pg_slug p) (pg_title p) @
         notifyMentions (mu_effects svc) actor (si_markdown i) (''Mention in '' @ pg_title p) destination @
         notifyWatchers (mu_effects svc) actor (pg_slug p) (actionTitle action (pg_title p)) ''A watched page changed.'' destination @
         notifyContentChanged svc p (pg_markdown previous) (pg_markdown p) (si_actor i))"

definition Save :: "mutations_service \<Rightarrow> env \<Rightarrow> page_save_input \<Rightarrow> db \<Rightarrow> page outcome" where
  "Save svc e i d =
     attempt (requireEdit (mu_policy svc) (si_actor i) (si_previous i)) d (\<lambda>_.
     attempt (requireEdit (mu_policy svc) (si_actor i) (save_destination i)) d (\<lambda>_.
     let i = normalizePageSaveInput i in
     attempt (validatePageSaveInput svc i) d (\<lambda>_.
     attempt (if si_previous i \<noteq> [] then GetPage d (si_previous i) else Inr zero_page) d (\<lambda>previous.
     case app_save svc e i d of
       (Inl er, d1, fx) \<Rightarrow> (Inl er, d1, fx)
     | (Inr p, d1, fx) \<Rightarrow>
         if pg_id previous \<noteq> 0 \<and> pg_id previous = pg_id p \<and> pg_updated_at previous = pg_updated_at p then (Inr p, d1, fx)
         else (Inr p, d1, fx @ save_effects svc i previous p)))))"

section \<open>Deleting, moving and reviewing\<close>

definition Delete :: "mutations_service \<Rightarrow> env \<Rightarrow> string \<Rightarrow> user \<Rightarrow> db \<Rightarrow> unit outcome" where
  "Delete svc e slug actor d =
     (let slug = TrimSpace slug in
      attempt (requireEdit (mu_policy svc) actor slug) d (\<lambda>_.
      attempt (DeletePage e slug (u_id actor) d) d (\<lambda>d1.
      (Inr (), d1,
       recordCommittedPageAction svc (u_id actor) ''page.deleted'' slug ''Moved page to recycle bin'' @
       notifyWatchers (mu_effects svc) (u_id actor) slug (''Page deleted: '' @ slug)
         ''A watched page was moved to the recycle bin.'' ''/''))))"

text \<open>A move that finds no page at the new path has moved the pages below the path all the same.\<close>

definition Move :: "mutations_service \<Rightarrow> env \<Rightarrow> string \<Rightarrow> string \<Rightarrow> move_options \<Rightarrow> user \<Rightarrow> db \<Rightarrow> unit outcome" where
  "Move svc e oldSlug newSlug options actor d =
     attempt (NormalizeMove oldSlug newSlug options) d (\<lambda>(oldSlug, newSlug).
     attempt (requireEdit (mu_policy svc) actor oldSlug) d (\<lambda>_.
     attempt (requireEdit (mu_policy svc) actor newSlug) d (\<lambda>_.
     attempt (MovePage e oldSlug newSlug options actor d) d (\<lambda>d1.
     emit [InvalidateIcons] (attempt (GetPage d1 newSlug) d1 (\<lambda>p.
       (Inr (), d1,
        recordCommittedPageAction svc (u_id actor) ''page.moved'' newSlug (oldSlug @ arrow_separator @ newSlug) @
        notifyWatchers (mu_effects svc) (u_id actor) oldSlug (''Page moved: '' @ oldSlug)
          (''The watched page moved to '' @ newSlug @ ''.'') (PageURL (pg_id p) (pg_slug p)))))))))"

definition MarkPageReviewed :: "env \<Rightarrow> string \<Rightarrow> int \<Rightarrow> db \<Rightarrow> error + db" where
  "MarkPageReviewed e slug actor d =
     (if \<not> list_ex (\<lambda>r. pw_slug r = slug \<and> live r) (db_pages d) then Inl ErrNotFound
      else Inr (insertPageActionAudit actor ''page.reviewed'' slug ''Documentation review completed''
        (d\<lparr>db_pages := update_rows (\<lambda>r. pw_slug r = slug \<and> live r) (\<lambda>r. r\<lparr>pw_reviewed := Some (en_now e)\<rparr>) (db_pages d)\<rparr>)))"

definition Review :: "mutations_service \<Rightarrow> env \<Rightarrow> string \<Rightarrow> user \<Rightarrow> db \<Rightarrow> unit outcome" where
  "Review svc e slug actor d =
     (let slug = TrimSpace slug in
      attempt (requireEdit (mu_policy svc) actor slug) d (\<lambda>_.
      attempt (MarkPageReviewed e slug (u_id actor) d) d (\<lambda>d1.
      attempt (GetPage d1 slug) d1 (\<lambda>p.
      (Inr (), d1,
       recordCommittedPageAction svc (u_id actor) ''page.reviewed'' slug ''Documentation review completed'' @
       notifyWatchers (mu_effects svc) (u_id actor) slug (''Page reviewed: '' @ slug)
         ''A watched page was reviewed.'' (PageURL (pg_id p) (pg_slug p)))))))"

section \<open>Restoring a revision and replacing the body\<close>

text \<open>\<open>properties[property.Key] = property.Value\<close> for each stored property.\<close>

definition property_map :: "page_property list \<Rightarrow> strmap" where
  "property_map ps = map (\<lambda>x. (pp_key x, pp_value x)) (rev ps)"

definition page_input :: "page \<Rightarrow> user \<Rightarrow> page_save_input" where
  "page_input p actor =
     \<lparr>si_previous = pg_slug p, si_expected = pg_updated_at p, si_slug = pg_slug p, si_title = pg_title p,
      si_icon = pg_icon p, si_language = pg_language p, si_markdown = pg_markdown p, si_message = [],
      si_tags = pg_tags p, si_groups = map g_id (pg_groups p), si_status = pg_status p, si_owner = pg_owner_group p,
      si_interval = pg_review_interval p, si_mark_reviewed = False, si_target = pg_deprecated_target p,
      si_properties = property_map (pg_properties p), si_actor = actor\<rparr>"

definition snapshot_input :: "page_snapshot \<Rightarrow> page_save_input \<Rightarrow> page_save_input" where
  "snapshot_input s i =
     i\<lparr>si_slug := sn_slug s, si_title := sn_title s, si_icon := sn_icon s, si_language := sn_language s,
       si_tags := sn_tags s, si_groups := sn_groups s, si_status := sn_status s, si_owner := sn_owner s,
       si_interval := sn_interval s, si_target := sn_target s, si_properties := sn_properties s\<rparr>"

definition restore_input :: "page \<Rightarrow> page_revision \<Rightarrow> int \<Rightarrow> user \<Rightarrow> page_save_input" where
  "restore_input p record number actor =
     (let i = (page_input p actor)\<lparr>si_markdown := rv_markdown record, si_message := ''Restore revision '' @ show_int number\<rparr> in
      case rv_snapshot record of None \<Rightarrow> i | Some s \<Rightarrow> snapshot_input s i)"

definition invalid_revision :: error where
  "invalid_revision = ValidationError [(''revision'', ''Invalid revision.'')]"

definition RestoreRevision :: "mutations_service \<Rightarrow> env \<Rightarrow> string \<Rightarrow> int \<Rightarrow> user \<Rightarrow> db \<Rightarrow> page outcome" where
  "RestoreRevision svc e slug number actor d =
     attempt (requireEdit (mu_policy svc) actor slug) d (\<lambda>_.
     attempt (requireR (number > 0) invalid_revision (GetPage d slug)) d (\<lambda>before.
     attempt (Revision d slug number) d (\<lambda>record.
     let i = restore_input before record number actor in
     attempt (requireEdit (mu_policy svc) actor (si_slug i)) d (\<lambda>_.
     case app_save svc e i d of
       (Inl er, d1, fx) \<Rightarrow> (Inl er, d1, fx)
     | (Inr p, d1, fx) \<Rightarrow>
         if pg_updated_at p = pg_updated_at before then (Inr p, d1, fx)
         else (Inr p, d1, fx @
           sendEvent (mu_effects svc) (u_id actor) ''page.revision_restored'' ''page'' (pg_slug p)
             (''Restored revision '' @ show_int number) @
           notifyWatchers (mu_effects svc) (u_id actor) (pg_slug p) (''Revision restored: '' @ pg_title p)
             ''A watched page restored an older revision.'' (PageURL (pg_id p) (pg_slug p)) @
           notifyContentChanged svc p (pg_markdown before) (pg_markdown p) actor)))))"

record content_update_input =
  cu_slug :: string
  cu_markdown :: string
  cu_message :: string
  cu_expected :: time
  cu_actor :: user

definition content_input :: "content_update_input \<Rightarrow> page \<Rightarrow> page_save_input" where
  "content_input u p = (page_input p (cu_actor u))\<lparr>si_expected := cu_expected u, si_markdown := cu_markdown u,
     si_message := TrimSpace (cu_message u)\<rparr>"

definition UpdateContent :: "mutations_service \<Rightarrow> env \<Rightarrow> content_update_input \<Rightarrow> db \<Rightarrow> page outcome" where
  "UpdateContent svc e u d =
     (let slug = TrimSpace (cu_slug u) in
      attempt (requireR (\<not> (slug = [] \<or> cu_expected u = 0))
        (NewValidationError ''page'' ''A page and expected version are required.'')
        (bindR (requireEdit (mu_policy svc) (cu_actor u) slug) (\<lambda>_. GetPage d slug))) d (\<lambda>p.
      Save svc e (content_input u p) d))"

section \<open>Imports and bulk actions\<close>

record imported_page =
  im_slug :: string
  im_title :: string
  im_markdown :: string
  im_source :: string

primrec validate_candidates :: "imported_page list \<Rightarrow> imported_page list \<Rightarrow> error + imported_page list" where
  "validate_candidates [] validated = Inr validated"
| "validate_candidates (c # cs) validated =
     (let slug = Slug (im_slug c); fields = validatePageSlug slug in
      if fields \<noteq> [] then Inl (ValidationError fields)
      else if slug \<in> im_slug ` set validated
      then Inl (NewValidationError ''slug'' (''Multiple imported pages resolve to '' @ [CHR 0x22] @ slug @ [CHR 0x22] @ ''.''))
      else validate_candidates cs (validated @ [c\<lparr>im_slug := slug\<rparr>]))"

definition validateImportedPages :: "imported_page list \<Rightarrow> error + imported_page list" where
  "validateImportedPages candidates = validate_candidates candidates []"

definition import_input :: "imported_page \<Rightarrow> page option \<Rightarrow> user \<Rightarrow> page_save_input" where
  "import_input c current actor =
     (let i = (page_input (case current of None \<Rightarrow> zero_page\<lparr>pg_status := PageStatusVerified\<rparr> | Some p \<Rightarrow> p) actor) in
      i\<lparr>si_previous := [], si_expected := 0, si_slug := im_slug c, si_title := im_title c, si_markdown := im_markdown c,
        si_message := ''Imported from '' @ im_source c\<rparr>)"

definition importPage :: "mutations_service \<Rightarrow> env \<Rightarrow> imported_page \<Rightarrow> user \<Rightarrow> db \<Rightarrow> unit outcome" where
  "importPage svc e c actor d =
     (let run = (\<lambda>current. case app_save svc e (import_input c current actor) d of (r, d1, fx) \<Rightarrow>
        (map_sum id (\<lambda>_. ()) r, d1, fx)) in
      case GetPage d (im_slug c) of
        Inr p \<Rightarrow> run (Some p)
      | Inl er \<Rightarrow> if is_not_found er then run None else (Inl er, d, []))"

definition recordImportProgress :: "page_effects \<Rightarrow> user \<Rightarrow> string \<Rightarrow> nat \<Rightarrow> bool \<Rightarrow> effect list" where
  "recordImportProgress fx actor format n complete =
     (if n = 0 then []
      else recordAudit fx (u_id actor) ''pages.imported'' ''import'' format
        (''Imported '' @ show_nat n @ '' pages ('' @ (if complete then ''completed'' else ''stopped early'') @ '')''))"

text \<open>The loop: the pages saved so far, and the error that stopped it.\<close>

primrec import_pages :: "mutations_service \<Rightarrow> env \<Rightarrow> user \<Rightarrow> nat \<Rightarrow> imported_page list \<Rightarrow> db \<Rightarrow> nat \<times> error option \<times> db \<times> effect list" where
  "import_pages svc e actor n [] d = (n, None, d, [])"
| "import_pages svc e actor n (c # cs) d =
     (case importPage svc e c actor d of
        (Inl er, d1, fx) \<Rightarrow> (n, Some er, d1, fx)
      | (Inr _, d1, fx) \<Rightarrow> (case import_pages svc e actor (n + 1) cs d1 of (m, er, d2, fx2) \<Rightarrow> (m, er, d2, fx @ fx2)))"

definition Import ::
  "mutations_service \<Rightarrow> env \<Rightarrow> imported_page list \<Rightarrow> string \<Rightarrow> user \<Rightarrow> db \<Rightarrow> nat \<times> error option \<times> db \<times> effect list" where
  "Import svc e candidates format actor d =
     (case validateImportedPages candidates of
        Inl er \<Rightarrow> (0, Some er, d, [])
      | Inr validated \<Rightarrow> (case import_pages svc e actor 0 validated d of (n, er, d1, fx) \<Rightarrow>
          (n, er, d1, fx @ recordImportProgress (mu_effects svc) actor format n (er = None))))"

record bulk_page_input =
  bi_action :: string
  bi_slugs :: "string list"
  bi_status :: string
  bi_tag :: string
  bi_group :: int
  bi_target :: string
  bi_actor :: user

definition bulkMove :: "env \<Rightarrow> string list \<Rightarrow> string \<Rightarrow> user \<Rightarrow> db \<Rightarrow> error + db" where
  "bulkMove e slugs target actor d =
     bindR (NormalizeTarget target) (\<lambda>target.
     bindR (forR slugs (\<lambda>slug u. bindR (MoveDestination slug target) (\<lambda>_. Inr u)) ()) (\<lambda>_.
     BulkMovePages e slugs target actor d))"

definition bulk_step :: "env \<Rightarrow> bulk_page_input \<Rightarrow> db \<Rightarrow> error + db" where
  "bulk_step e i d =
     (if bi_action i = ''status'' then
        requireR (ValidPageStatus (bi_status i)) (NewValidationError ''status'' ''Choose a valid page status.'')
          (BulkSetPageStatus e (bi_slugs i) (bi_status i) d)
      else if bi_action i = ''tag'' then
        requireR (TrimSpace (bi_tag i) \<noteq> []) (NewValidationError ''tag'' ''Enter a tag.'') (BulkAddPageTag e (bi_slugs i) (bi_tag i) d)
      else if bi_action i = ''group'' then
        requireR (bi_group i > 0) (NewValidationError ''group_id'' ''Choose a valid group.'') (BulkAssignPageGroup (bi_slugs i) (bi_group i) d)
      else if bi_action i = ''move'' then bulkMove e (bi_slugs i) (bi_target i) (bi_actor i) d
      else if bi_action i = ''delete'' then BulkDeletePages e (bi_slugs i) (u_id (bi_actor i)) d
      else Inl (NewValidationError ''action'' ''Choose a valid bulk action.''))"

definition Bulk :: "page_effects \<Rightarrow> env \<Rightarrow> bulk_page_input \<Rightarrow> db \<Rightarrow> unit outcome" where
  "Bulk fx e i d =
     attempt (requireR (bi_slugs i \<noteq> []) (NewValidationError ''pages'' ''Select at least one page.'') (bulk_step e i d)) d (\<lambda>d1.
     (Inr (), d1, (if bi_action i = ''move'' then [InvalidateIcons] else []) @
        recordAudit fx (u_id (bi_actor i)) (''page.bulk_'' @ bi_action i) ''page'' (Join (bi_slugs i) '','')
          (show_nat (length (bi_slugs i)) @ '' pages'')))"

end
