(* ===== verification/MutationProperties.thy ===== *)
theory MutationProperties
  imports Mutations Discussions
begin

text \<open>
  The properties of the page mutations: what an account without access causes, what a saved page
  looks like, what an update of the body and a restored revision keep, what an import that stops
  early leaves, and how a move of a tree meets the access rules of the pages below it.
\<close>

section \<open>Outcomes\<close>

lemma attempt_simps [simp]: "attempt (Inl er) d k = (Inl er, d, [])" "attempt (Inr x) d k = k x"
  by (simp_all add: attempt_def)

lemma attempt_Inr: "attempt r d k = (Inr y, d', fx) \<longleftrightarrow> (\<exists>x. r = Inr x \<and> k x = (Inr y, d', fx))"
  by (cases r) simp_all

lemma emit_Inr: "emit fx o1 = (Inr y, d', fx') \<longleftrightarrow> (\<exists>fx1. o1 = (Inr y, d', fx1) \<and> fx' = fx @ fx1)"
  by (cases o1) (auto simp: emit_def)

lemma requireR_Inr [simp]: "requireR b er r = Inr x \<longleftrightarrow> b \<and> r = Inr x"
  by (simp add: requireR_def)

lemma app_save_Inr:
  assumes "app_save svc e i d = (Inr p, d', fx)"
  obtains usage render where "validatePageSaveInput svc (normalizePageSaveInput (renumbered_input i)) = Inr ()"
    and "store_SavePage e (save_request_of svc (normalizePageSaveInput (renumbered_input i))
      (pageMetadataFromSaveInput (normalizePageSaveInput (renumbered_input i)) usage) render) d = Inr (p, d')"
    and "fx = [InvalidateIcons]"
proof -
  let ?i = "normalizePageSaveInput (renumbered_input i)"
  from assms obtain usage render where v: "validatePageSaveInput svc ?i = Inr ()"
    and s: "persistPageSave svc e ?i (pageMetadataFromSaveInput ?i usage) render d = Inr (p, d')" and fx: "fx = [InvalidateIcons]"
    by (auto simp: app_save_def app_preparePageSave_def attempt_Inr result_simps Let_def)
  from s have "store_SavePage e (save_request_of svc ?i (pageMetadataFromSaveInput ?i usage) render) d = Inr (p, d')"
    by (auto simp: persistPageSave_def Let_def dest: store_SavePageIfUnchanged_cases(1) split: if_splits)
  from that [OF v this fx] show ?thesis .
qed

lemma app_save_keeps_ok: "db_ok d \<Longrightarrow> app_save svc e i d = (Inr p, d', fx) \<Longrightarrow> db_ok d'"
  by (elim app_save_Inr) (rule save_keeps_consistency_lemma)

lemma app_save_Inl: "app_save svc e i d = (Inl er, d', fx) \<Longrightarrow> d' = d \<and> fx = []"
  by (auto simp: app_save_def attempt_def split: sum.splits)

lemma Save_Inr:
  assumes "Save svc e i d = (Inr p, d', fx)"
  obtains fx0 where "app_save svc e (normalizePageSaveInput i) d = (Inr p, d', fx0)"
    and "requireEdit (mu_policy svc) (si_actor i) (si_previous i) = Inr ()"
    and "requireEdit (mu_policy svc) (si_actor i) (save_destination i) = Inr ()"
    and "si_previous (normalizePageSaveInput i) \<noteq> [] \<Longrightarrow> \<exists>b. GetPage d (si_previous (normalizePageSaveInput i)) = Inr b"
proof -
  obtain r d1 fx1 where o: "app_save svc e (normalizePageSaveInput i) d = (r, d1, fx1)" by (rule prod_cases3)
  from assms that show ?thesis
    by (cases r) (auto simp: Save_def Let_def attempt_Inr o split: if_splits)
qed

lemma RestoreRevision_Inr:
  assumes "RestoreRevision svc e slug n actor d = (Inr p, d', fx)"
  obtains before old fx0 where "0 < n" and "GetPage d slug = Inr before" and "Revision d slug n = Inr old"
    and "requireEdit (mu_policy svc) actor slug = Inr ()"
    and "requireEdit (mu_policy svc) actor (si_slug (restore_input before old n actor)) = Inr ()"
    and "app_save svc e (restore_input before old n actor) d = (Inr p, d', fx0)"
proof -
  from assms obtain before old where n: "0 < n" "GetPage d slug = Inr before" "Revision d slug n = Inr old"
    and q: "requireEdit (mu_policy svc) actor slug = Inr ()"
      "requireEdit (mu_policy svc) actor (si_slug (restore_input before old n actor)) = Inr ()"
    by (auto simp: RestoreRevision_def Let_def attempt_Inr)
  obtain r d1 fx1 where o: "app_save svc e (restore_input before old n actor) d = (r, d1, fx1)" by (rule prod_cases3)
  from assms n q o that [OF n q] show ?thesis
    by (cases r) (auto simp: RestoreRevision_def Let_def attempt_Inr split: if_splits)
qed

lemma UpdateContent_Inr:
  assumes "UpdateContent svc e u d = (Inr p, d', fx)"
  obtains b where "GetPage d (TrimSpace (cu_slug u)) = Inr b"
    and "Save svc e (content_input u b) d = (Inr p, d', fx)"
  using assms by (auto simp: UpdateContent_def Let_def attempt_Inr result_simps)

section \<open>Consistency\<close>

lemma MarkPageReviewed_keeps_ok: "db_ok d \<Longrightarrow> MarkPageReviewed e slug actor d = Inr d' \<Longrightarrow> db_ok d'"
  by (auto simp: MarkPageReviewed_def split: if_splits intro!: db_ok_update_page)

section \<open>Properties\<close>

text \<open>C37: An account that may not edit a page changes nothing: deleting, reviewing, restoring, updating and
  saving it, and moving it or moving another page onto it, all fail, leave the store as it was
  and cause no effect.\<close>

theorem refused_actor_changes_nothing:
  assumes "mu_policy svc = Some pol" and "pol_edit pol actor slug \<noteq> Inr True" and "TrimSpace slug = slug" and "slug \<noteq> []"
  shows "(\<exists>er. Delete svc e slug actor d = (Inl er, d, [])) \<and> (\<exists>er. Review svc e slug actor d = (Inl er, d, [])) \<and>
    (\<exists>er. RestoreRevision svc e slug n actor d = (Inl er, d, [])) \<and>
    (\<forall>i. si_actor i = actor \<and> (si_previous i = slug \<or> save_destination i = slug) \<longrightarrow> (\<exists>er. Save svc e i d = (Inl er, d, []))) \<and>
    (\<forall>u. cu_actor u = actor \<and> TrimSpace (cu_slug u) = slug \<longrightarrow> (\<exists>er. UpdateContent svc e u d = (Inl er, d, []))) \<and>
    (\<forall>old new opts a b. NormalizeMove old new opts = Inr (a, b) \<and> (a = slug \<or> b = slug) \<longrightarrow>
       (\<exists>er. Move svc e old new opts actor d = (Inl er, d, [])))"
proof -
  obtain er where no: "requireEdit (mu_policy svc) actor slug = Inl er"
    using assms by (cases "pol_edit pol actor slug") (auto simp: requireEdit_def RequireEdit_def bindR_def)
  have "\<exists>er. Save svc e i d = (Inl er, d, [])" if "si_actor i = actor" "si_previous i = slug \<or> save_destination i = slug" for i
    using that no by (cases "requireEdit (mu_policy svc) actor (si_previous i)") (auto simp: Save_def)
  moreover have "\<exists>er. UpdateContent svc e u d = (Inl er, d, [])" if "cu_actor u = actor" "TrimSpace (cu_slug u) = slug" for u
    using that no by (auto simp: UpdateContent_def Let_def requireR_def bindR_def)
  moreover have "\<exists>er. Move svc e old new opts actor d = (Inl er, d, [])"
    if "NormalizeMove old new opts = Inr (a, b)" "a = slug \<or> b = slug" for old new opts a b
    using that no by (cases "requireEdit (mu_policy svc) actor a") (auto simp: Move_def)
  ultimately show ?thesis
    using no assms(3) by (auto simp: Delete_def Review_def RestoreRevision_def Let_def)
qed

text \<open>What the use cases demand of the fields of a page.\<close>

definition path_ok :: "string \<Rightarrow> bool" where
  "path_ok s = (s \<noteq> [] \<and> Slug s = s \<and> \<not> HasPrefix s ''/'' \<and> \<not> HasSuffix s ''/'' \<and> \<not> Contains s ''//'')"

definition page_fields_ok :: "mutations_service \<Rightarrow> page \<Rightarrow> bool" where
  "page_fields_ok svc p =
     (path_ok (pg_slug p) \<and> pg_title p \<noteq> [] \<and> TrimSpace (pg_title p) = pg_title p \<and>
      TrimSpace (pg_icon p) = pg_icon p \<and> TrimSpace (pg_language p) = pg_language p \<and>
      (pg_icon p = [] \<or> (case mu_icons svc of None \<Rightarrow> False | Some isIcon \<Rightarrow> isIcon (pg_icon p))) \<and>
      (pg_language p = [] \<or> validContentLanguage (pg_language p)) \<and>
      ValidPageStatus (pg_status p) \<and> ValidReviewIntervalDays (pg_review_interval p) \<and> 0 \<le> pg_owner_group p \<and>
      Slug (pg_deprecated_target p) = pg_deprecated_target p)"

lemma TrimSpace_Slug [simp]: "TrimSpace (Slug v) = Slug v"
  by (rule TrimSpace_plain) (auto dest!: slug_alphabet slug_char_plain)

lemma normalized_slug: "Slug (si_slug (normalizePageSaveInput i)) = si_slug (normalizePageSaveInput i)"
  by (simp add: normalizePageSaveInput_def Let_def)

lemma app_save_result:
  assumes "db_ok d" and "app_save svc e i d = (Inr p, d', fx)"
  shows "page_fields_ok svc p" and "GetPage d' (pg_slug p) = Inr p"
    and "pg_slug p = si_slug (normalizePageSaveInput (renumbered_input i))"
    and "pg_title p = TrimSpace (si_title i)" and "pg_icon p = TrimSpace (si_icon i)"
    and "pg_language p = TrimSpace (si_language i)" and "pg_status p = si_status i"
    and "pg_owner_group p = si_owner i" and "pg_review_interval p = si_interval i"
    and "pg_deprecated_target p = Slug (si_target i)" and "pg_markdown p = si_markdown (renumbered_input i)"
    and "tags_ok d \<Longrightarrow> set (pg_tags p) = (\<lambda>t. en_lower e (TrimSpace t)) ` set (si_tags i) - {[]}"
    and "(\<lambda>x. (pp_key x, pp_value x)) ` set (pg_properties p) =
      {(TrimSpace k, TrimSpace v) |k v. map_of (si_properties i) k = Some v \<and> TrimSpace k \<noteq> [] \<and> TrimSpace v \<noteq> []}"
proof -
  let ?i = "normalizePageSaveInput (renumbered_input i)"
  from assms(2) obtain usage render where v: "validatePageSaveInput svc ?i = Inr ()"
    and s: "store_SavePage e (save_request_of svc ?i (pageMetadataFromSaveInput ?i usage) render) d = Inr (p, d')"
    by (rule app_save_Inr)
  note r = store_SavePage_reads_back [OF assms(1) s]
  have norm: "si_title ?i = TrimSpace (si_title i)" "si_icon ?i = TrimSpace (si_icon i)"
    "si_language ?i = TrimSpace (si_language i)" "si_status ?i = si_status i" "si_owner ?i = si_owner i"
    "si_interval ?i = si_interval i" "si_target ?i = Slug (si_target i)" "si_tags ?i = si_tags i"
    "si_properties ?i = si_properties i" "si_markdown ?i = si_markdown (renumbered_input i)"
    by (simp_all add: normalizePageSaveInput_def renumbered_input_def Let_def)
  note defs = save_request_of_def pageMetadataFromSaveInput_def norm
  show slug: "pg_slug p = si_slug ?i" using r by (simp add: defs)
  show "GetPage d' (pg_slug p) = Inr p" using r by (simp add: defs)
  show title: "pg_title p = TrimSpace (si_title i)" using r by (simp add: defs)
  show icon: "pg_icon p = TrimSpace (si_icon i)" using r by (simp add: defs)
  show lang: "pg_language p = TrimSpace (si_language i)" using r by (simp add: defs)
  show status: "pg_status p = si_status i" using r by (simp add: defs)
  show owner: "pg_owner_group p = si_owner i" using r by (simp add: defs)
  show interval: "pg_review_interval p = si_interval i" using r by (simp add: defs)
  show target: "pg_deprecated_target p = Slug (si_target i)" using r by (simp add: defs)
  show "pg_markdown p = si_markdown (renumbered_input i)" using r by (simp add: defs)
  show "tags_ok d \<Longrightarrow> set (pg_tags p) = (\<lambda>t. en_lower e (TrimSpace t)) ` set (si_tags i) - {[]}" using r by (simp add: defs)
  show "(\<lambda>x. (pp_key x, pp_value x)) ` set (pg_properties p) =
      {(TrimSpace k, TrimSpace v) |k v. map_of (si_properties i) k = Some v \<and> TrimSpace k \<noteq> [] \<and> TrimSpace v \<noteq> []}"
    using r by (simp add: defs)
  have "validatePageSlug (si_slug ?i) = []" "si_title ?i \<noteq> []"
    "\<not> (si_icon ?i \<noteq> [] \<and> (case mu_icons svc of None \<Rightarrow> True | Some isIcon \<Rightarrow> \<not> isIcon (si_icon ?i)))"
    "\<not> (si_language ?i \<noteq> [] \<and> \<not> validContentLanguage (si_language ?i))" "validPageWorkflowSettings ?i"
    using v by (simp_all add: validatePageSaveInput_def Let_def split: if_splits)
  then show "page_fields_ok svc p"
    using normalized_slug [of "renumbered_input i"]
    by (auto simp: page_fields_ok_def path_ok_def slug title icon lang status owner interval target norm
        validatePageSlug_def validPageWorkflowSettings_def split: if_splits option.splits)
qed

text \<open>C38: Every page that a save, an update of the body or the restoration of a revision returns is well
  formed and is what a reader gets: its path is a slug without leading, trailing or repeated
  slashes, its title is neither empty nor padded, its icon is empty or one of the catalog, its language is
  empty or supported, its status is one of the four, its review interval is between 0 and 3650 days and its
  deprecation target is a slug.\<close>

theorem mutated_page_well_formed:
  assumes "db_ok d" and "Save svc e i d = (Inr p, d', fx) \<or> UpdateContent svc e u d = (Inr p, d', fx) \<or>
    RestoreRevision svc e slug n actor d = (Inr p, d', fx)"
  shows "page_fields_ok svc p \<and> GetPage d' (pg_slug p) = Inr p"
proof -
  from assms(2) obtain i fx0 where "app_save svc e i d = (Inr p, d', fx0)"
    by (elim disjE) (blast elim: Save_Inr UpdateContent_Inr RestoreRevision_Inr)+
  from app_save_result(1,2) [OF assms(1) this] show ?thesis ..
qed

section \<open>A tree move and the access rules\<close>

lemma Move_runs:
  assumes "NormalizeMove oldSlug newSlug opts = Inr (a, b)" and "requireEdit (mu_policy svc) actor a = Inr ()"
    and "requireEdit (mu_policy svc) actor b = Inr ()" and "MovePage e a b opts actor d = Inr d'" and "GetPage d' b = Inr p"
  shows "\<exists>fx. Move svc e oldSlug newSlug opts actor d = (Inr (), d', fx)"
  using assms by (simp add: Move_def attempt_def emit_def)

lemma MovePage_reads:
  assumes "db_ok d" and mv: "MovePage e a b opts actor d = Inr d'" and "NormalizeMove a b opts = Inr (a, b)" and "plain a"
    and "GetPage d q = Inr p" and "q = a \<or> mo_children opts \<and> below a q"
  obtains p' where "GetPage d' (b @ drop (length a) q) = Inr p'" and "pg_id p' = pg_id p" and "pg_slug p' = b @ drop (length a) q"
proof -
  have ok': "db_ok d'" using movePage_keeps_ok [OF assms(1)] mv by (simp add: MovePage_def)
  from assms(5) obtain r where r: "r \<in> set (db_pages d)" "live r" "pw_slug r = q" "p = complete_page d r"
    by (auto simp: GetPage_Inr dest: live_row_Some)
  from MovePage_relocates [OF assms(1) mv assms(3,4) r(1)] obtain r' where r': "r' \<in> set (db_pages d')"
    "pw_id r' = pw_id r" "pw_deleted_at r' = pw_deleted_at r" "pw_slug r' = b @ drop (length a) q"
    using r assms(6) by auto
  then have "live_row d' (b @ drop (length a) q) = Some r'"
    using ok' r(2) by (subst live_row_eq) (auto simp: db_ok_def store_ok_def live_def)
  then have "GetPage d' (b @ drop (length a) q) = Inr (complete_page d' r')" by (simp add: GetPage_def)
  with that r r' show thesis by simp
qed

text \<open>C40: Moving a tree lifts the access rules of the pages below it: with the policy of the stored
  rules, edit access to the old and the new root is enough for the use case to carry the move of the
  store through, and a page below the old root which the actor was not allowed to view is afterwards,
  at its new path that no rule governs, a page the actor may view.\<close>

theorem tree_move_lifts_restrictions:
  assumes "db_ok d" and "mu_policy svc = Some (store_policy t)"
    and "CanEdit (PageAccess t) actor a = Inr True" and "CanEdit (PageAccess t) actor b = Inr True"
    and "NormalizeMove a b opts = Inr (a, b)" and "plain a" and "mo_children opts"
    and "MovePage e a b opts actor d = Inr d'" and "GetPage d a = Inr root"
    and "GetPage d q = Inr p" and "below a q" and "CanView (PageAccess t) actor q = Inr False"
    and "nearest_path (at_rules t) (normalizeAccessPath (b @ drop (length a) q)) = None"
  shows "\<exists>fx p'. Move svc e a b opts actor d = (Inr (), d', fx) \<and>
    GetPage d' (b @ drop (length a) q) = Inr p' \<and> pg_id p' = pg_id p \<and>
    CanView (PageAccess t) actor (pg_slug p') = Inr True"
proof -
  obtain root' where "GetPage d' b = Inr root'"
    using MovePage_reads [OF assms(1,8,5,6,9)] by auto
  moreover have "requireEdit (mu_policy svc) actor x = Inr ()" if "CanEdit (PageAccess t) actor x = Inr True" for x
    using that by (simp add: assms(2) requireEdit_def RequireEdit_def store_policy_def)
  ultimately obtain fx where "Move svc e a b opts actor d = (Inr (), d', fx)"
    using Move_runs [OF assms(5) _ _ assms(8)] assms(3,4) by blast
  moreover obtain p' where "GetPage d' (b @ drop (length a) q) = Inr p'" "pg_id p' = pg_id p" "pg_slug p' = b @ drop (length a) q"
    using MovePage_reads [OF assms(1,8,5,6,10)] assms(7,11) by auto
  moreover have "CanView (PageAccess t) actor (b @ drop (length a) q) = Inr True"
    using assms(13) by (simp add: CanView_def PageAccess_def PageAccess_by_def)
  ultimately show ?thesis by simp
qed

section \<open>What an update of the body keeps\<close>

text \<open>The tags and properties of a page as a save stores them.\<close>

definition stored_metadata :: "env \<Rightarrow> page \<Rightarrow> bool" where
  "stored_metadata e p =
     (list_all (\<lambda>t. t \<noteq> [] \<and> en_lower e (TrimSpace t) = t) (pg_tags p) \<and> distinct (map pp_key (pg_properties p)) \<and>
      list_all (\<lambda>x. TrimSpace (pp_key x) = pp_key x \<and> pp_key x \<noteq> [] \<and> TrimSpace (pp_value x) = pp_value x \<and> pp_value x \<noteq> [])
        (pg_properties p))"

lemma map_of_property_map:
  assumes "distinct (map pp_key ps)"
  shows "map_of (property_map ps) k = Some v \<longleftrightarrow> (k, v) \<in> (\<lambda>x. (pp_key x, pp_value x)) ` set ps"
proof -
  have "distinct (map fst (property_map ps))" using assms by (simp add: property_map_def o_def rev_map [symmetric])
  then have "map_of (property_map ps) k = Some v \<longleftrightarrow> (k, v) \<in> set (property_map ps)" by simp
  then show ?thesis by (auto simp: property_map_def)
qed

lemma stored_properties:
  assumes "stored_metadata e p"
  shows "{(TrimSpace k, TrimSpace v) |k v. map_of (property_map (pg_properties p)) k = Some v \<and> TrimSpace k \<noteq> [] \<and> TrimSpace v \<noteq> []} =
    (\<lambda>x. (pp_key x, pp_value x)) ` set (pg_properties p)" (is "?l = ?r")
proof (intro set_eqI iffI)
  fix y assume "y \<in> ?l"
  then show "y \<in> ?r"
    using assms by (auto simp: map_of_property_map stored_metadata_def list_all_iff) 
next
  fix y assume "y \<in> ?r"
  then obtain x where x: "x \<in> set (pg_properties p)" "y = (pp_key x, pp_value x)" by auto
  have "map_of (property_map (pg_properties p)) (pp_key x) = Some (pp_value x)"
    using x(1) assms by (subst map_of_property_map) (auto simp: stored_metadata_def)
  moreover have "TrimSpace (pp_key x) = pp_key x" "pp_key x \<noteq> []" "TrimSpace (pp_value x) = pp_value x" "pp_value x \<noteq> []"
    using x(1) assms by (auto simp: stored_metadata_def list_all_iff)
  ultimately show "y \<in> ?l"
    unfolding mem_Collect_eq using x(2) by (intro exI [of _ "pp_key x"] exI [of _ "pp_value x"]) simp
qed

lemma content_input_fields [simp]:
  "si_previous (content_input u p) = pg_slug p" "si_slug (content_input u p) = pg_slug p"
  "si_title (content_input u p) = pg_title p" "si_icon (content_input u p) = pg_icon p"
  "si_language (content_input u p) = pg_language p" "si_markdown (content_input u p) = cu_markdown u"
  "si_tags (content_input u p) = pg_tags p" "si_groups (content_input u p) = map g_id (pg_groups p)"
  "si_status (content_input u p) = pg_status p" "si_owner (content_input u p) = pg_owner_group p"
  "si_interval (content_input u p) = pg_review_interval p" "si_target (content_input u p) = pg_deprecated_target p"
  "si_properties (content_input u p) = property_map (pg_properties p)" "si_actor (content_input u p) = cu_actor u"
  by (simp_all add: content_input_def page_input_def)

lemma renumbered_fields [simp]:
  "si_previous (renumbered_input i) = si_previous i" "si_slug (renumbered_input i) = si_slug i"
  "si_title (renumbered_input i) = si_title i" "si_icon (renumbered_input i) = si_icon i"
  "si_language (renumbered_input i) = si_language i" "si_target (renumbered_input i) = si_target i"
  "si_groups (renumbered_input i) = si_groups i"
  by (simp_all add: renumbered_input_def)

lemma renumbered_markdown:
  "si_markdown (renumbered_input i) = (if HeadingNumberingEnabled (si_properties i)
     then RenumberHeadingsWithFormat (si_markdown i)
       (case map_of (si_properties i) HeadingNumberingProperty of None \<Rightarrow> [] | Some v \<Rightarrow> v)
     else si_markdown i)"
  by (simp add: renumbered_input_def)

lemma normalize_fixed:
  assumes "TrimSpace (si_previous i) = si_previous i" and "Slug (si_slug i) = si_slug i" and "si_slug i \<noteq> []"
    and "TrimSpace (si_title i) = si_title i" and "TrimSpace (si_icon i) = si_icon i"
    and "TrimSpace (si_language i) = si_language i" and "Slug (si_target i) = si_target i"
  shows "normalizePageSaveInput i = i"
  using assms by (cases i) (simp add: normalizePageSaveInput_def)

lemma normalize_content_input:
  assumes "page_fields_ok svc p" and "pg_slug p = TrimSpace (cu_slug u)"
  shows "normalizePageSaveInput (content_input u p) = content_input u p"
    and "normalizePageSaveInput (renumbered_input (content_input u p)) = renumbered_input (content_input u p)"
  using assms by (auto intro!: normalize_fixed simp: page_fields_ok_def path_ok_def)

lemma inj_property_pair: "inj (\<lambda>x :: page_property. (pp_key x, pp_value x))"
  by (rule injI) simp

lemma stored_tags:
  assumes "stored_metadata e p"
  shows "(\<lambda>t. en_lower e (TrimSpace t)) ` set (pg_tags p) - {[]} = set (pg_tags p)"
proof -
  have "(\<lambda>t. en_lower e (TrimSpace t)) ` set (pg_tags p) = (\<lambda>t. t) ` set (pg_tags p)"
    using assms by (intro image_cong refl) (simp add: stored_metadata_def list_all_iff)
  then show ?thesis using assms by (auto simp: stored_metadata_def list_all_iff)
qed

lemma content_lookup:
  assumes "page_fields_ok svc p" and "pg_slug p = TrimSpace (cu_slug u)"
  shows "pageRecordLookupSlug (save_request_of svc (renumbered_input (content_input u p)) m render) = pg_slug p"
  using assms by (simp add: pageRecordLookupSlug_def save_request_of_def page_fields_ok_def path_ok_def)

lemma content_groups:
  assumes "db_ok d" and "store_SavePage e (save_request_of svc (renumbered_input (content_input u p)) m render) d = Inr (p', d')"
    and "GetPage d slug = Inr p" and "GetPage d' slug' = Inr p'" and "pg_id p' = pg_id p"
  shows "pg_groups p' = pg_groups p"
proof -
  have pg: "pg_groups p = page_group_rows d (pg_id p)" "pg_groups p' = page_group_rows d' (pg_id p)"
    using assms(3-5) by (auto simp: GetPage_Inr)
  have "g_id g \<in> g_id ` set (pg_groups p) \<longleftrightarrow> (pg_id p, g_id g) \<in> set (db_page_groups d)" if "g \<in> set (db_groups d)" for g
    using that by (auto simp: pg(1) page_group_rows_def)
  then have "(pg_id p, g_id g) \<in> set (db_page_groups d') \<longleftrightarrow> (pg_id p, g_id g) \<in> set (db_page_groups d)"
    if "g \<in> set (db_groups d)" for g
    using that store_SavePage_groups(2) [OF assms(1,2), of "g_id g"] assms(5) by (auto simp: save_request_of_def)
  then show ?thesis
    unfolding pg page_group_rows_def store_SavePage_groups(1) [OF assms(1,2)] by (intro filter_cong refl)
qed

text \<open>Updating the body of a page replaces its text and nothing else: the page keeps its identifier, path,
  title, icon, language, status, owner, review interval, deprecation target, tags, properties and
  groups, for every page whose metadata a save has stored. The text is the given one, renumbered
  if the page asks for heading numbers.\<close>

lemma update_content_keeps_metadata:
  assumes "db_ok d" and "tags_ok d" and "UpdateContent svc e u d = (Inr p', d', fx)"
    and "GetPage d (TrimSpace (cu_slug u)) = Inr p" and "page_fields_ok svc p" and "stored_metadata e p"
  shows "pg_id p' = pg_id p \<and> pg_slug p' = pg_slug p \<and> pg_title p' = pg_title p \<and> pg_icon p' = pg_icon p \<and>
    pg_language p' = pg_language p \<and> pg_status p' = pg_status p \<and> pg_owner_group p' = pg_owner_group p \<and>
    pg_review_interval p' = pg_review_interval p \<and> pg_deprecated_target p' = pg_deprecated_target p \<and>
    set (pg_tags p') = set (pg_tags p) \<and> set (pg_properties p') = set (pg_properties p) \<and> pg_groups p' = pg_groups p \<and>
    pg_markdown p' =
      (if HeadingNumberingEnabled (property_map (pg_properties p))
       then RenumberHeadingsWithFormat (cu_markdown u)
         (case map_of (property_map (pg_properties p)) HeadingNumberingProperty of None \<Rightarrow> [] | Some v \<Rightarrow> v)
       else cu_markdown u)"
proof -
  let ?i = "content_input u p" and ?j = "renumbered_input (content_input u p)"
  have slug: "pg_slug p = TrimSpace (cu_slug u)"
    using assms(4) by (auto simp: GetPage_Inr dest: live_row_Some)
  have n: "normalizePageSaveInput ?i = ?i" "normalizePageSaveInput ?j = ?j"
    using assms(5) slug by (rule normalize_content_input)+
  from UpdateContent_Inr [OF assms(3)] assms(4) have "Save svc e ?i d = (Inr p', d', fx)" by auto
  then obtain fx0 where a: "app_save svc e ?i d = (Inr p', d', fx0)"
    by (rule Save_Inr) (unfold n(1), rule that)
  note r = app_save_result [OF assms(1) a, unfolded n content_input_fields renumbered_fields renumbered_markdown]
  have tags: "set (pg_tags p') = set (pg_tags p)"
    unfolding r(12) [OF assms(2)] by (rule stored_tags [OF assms(6)])
  have props: "set (pg_properties p') = set (pg_properties p)"
    using r(13) unfolding stored_properties [OF assms(6)] by (rule iffD1 [OF inj_image_eq_iff [OF inj_property_pair]])
  from app_save_Inr [OF a] obtain usage render where
    s: "store_SavePage e (save_request_of svc ?j (pageMetadataFromSaveInput ?j usage) render) d = (Inr (p', d') :: error + (page \<times> db))"
    unfolding n by metis
  have id: "pg_id p' = pg_id p"
    using store_SavePage_id [OF assms(1) s] assms(4) content_lookup [OF assms(5) slug] by (simp add: slug)
  have groups: "pg_groups p' = pg_groups p"
    using content_groups [OF assms(1) s assms(4) _ id] r(2) by blast
  have wf: "TrimSpace (pg_title p) = pg_title p" "TrimSpace (pg_icon p) = pg_icon p"
    "TrimSpace (pg_language p) = pg_language p" "Slug (pg_deprecated_target p) = pg_deprecated_target p"
    using assms(5) by (simp_all add: page_fields_ok_def)
  show ?thesis
    unfolding id r(3-11) wf tags props groups by simp
qed

section \<open>Restoring a revision\<close>

lemma restore_input_fields:
  "si_previous (restore_input b w n actor) = pg_slug b" "si_markdown (restore_input b w n actor) = rv_markdown w"
  "rv_snapshot w = Some s \<Longrightarrow> si_slug (restore_input b w n actor) = sn_slug s \<and>
     si_title (restore_input b w n actor) = sn_title s \<and> si_icon (restore_input b w n actor) = sn_icon s \<and>
     si_language (restore_input b w n actor) = sn_language s \<and> si_status (restore_input b w n actor) = sn_status s \<and>
     si_owner (restore_input b w n actor) = sn_owner s \<and> si_interval (restore_input b w n actor) = sn_interval s \<and>
     si_target (restore_input b w n actor) = sn_target s \<and> si_properties (restore_input b w n actor) = sn_properties s"
  "rv_snapshot w = None \<Longrightarrow> si_properties (restore_input b w n actor) = property_map (pg_properties b)"
  by (auto simp: restore_input_def snapshot_input_def page_input_def Let_def split: option.splits)

lemma normalized_kept_slug:
  "TrimSpace (si_previous i) \<noteq> [] \<Longrightarrow> si_slug (normalizePageSaveInput (renumbered_input i)) = Slug (si_slug i)"
  by (simp add: normalizePageSaveInput_def Let_def)

text \<open>The heading numbers a restored page asks for.\<close>

definition restored_properties :: "page \<Rightarrow> page_revision \<Rightarrow> strmap" where
  "restored_properties b w = (case rv_snapshot w of None \<Rightarrow> property_map (pg_properties b) | Some s \<Rightarrow> sn_properties s)"

text \<open>Restoring a revision brings back what it holds and rewrites no history: the page keeps its identifier
  and has the text of the revision (unless its metadata asks for heading numbers) and the path,
  title, icon, language, status, owner, interval and deprecation target of its snapshot, in normal
  form; the revisions stay as they were, or one revision with the restored text is added at the end.\<close>

lemma restored_revision_reads_back:
  assumes "db_ok d" and "RestoreRevision svc e slug n actor d = (Inr p, d', fx)" and "Slug slug = slug" and "slug \<noteq> []"
  shows "\<exists>b w. GetPage d slug = Inr b \<and> Revision d slug n = Inr w \<and> pg_id p = pg_id b \<and>
    (\<not> HeadingNumberingEnabled (restored_properties b w) \<longrightarrow> pg_markdown p = rv_markdown w) \<and>
    (\<forall>s. rv_snapshot w = Some s \<longrightarrow> pg_slug p = Slug (sn_slug s) \<and> pg_title p = TrimSpace (sn_title s) \<and>
       pg_icon p = TrimSpace (sn_icon s) \<and> pg_language p = TrimSpace (sn_language s) \<and> pg_status p = sn_status s \<and>
       pg_owner_group p = sn_owner s \<and> pg_review_interval p = sn_interval s \<and> pg_deprecated_target p = Slug (sn_target s)) \<and>
    (db_revisions d' = db_revisions d \<or>
     (\<exists>v. db_revisions d' = db_revisions d @ [v] \<and> rw_page v = pg_id b \<and> rw_markdown v = pg_markdown p))"
proof -
  from assms(2) obtain b w fx0 where g: "GetPage d slug = Inr b" and rev: "Revision d slug n = Inr w"
    and a: "app_save svc e (restore_input b w n actor) d = (Inr p, d', fx0)"
    by (rule RestoreRevision_Inr) (rule that)
  let ?i = "restore_input b w n actor"
  have slug: "pg_slug b = slug" "TrimSpace slug = slug"
    using g TrimSpace_Slug [of slug] assms(3) by (auto simp: GetPage_Inr dest: live_row_Some)
  note r = app_save_result [OF assms(1) a]
  from app_save_Inr [OF a] obtain usage render where
    s: "store_SavePage e (save_request_of svc (normalizePageSaveInput (renumbered_input ?i))
      (pageMetadataFromSaveInput (normalizePageSaveInput (renumbered_input ?i)) usage) render) d = (Inr (p, d') :: error + (page \<times> db))" by metis
  have "pageRecordLookupSlug (save_request_of svc (normalizePageSaveInput (renumbered_input ?i)) m render) = slug" for m render
    using assms(4) by (simp add: pageRecordLookupSlug_def save_request_of_def normalizePageSaveInput_def Let_def
        restore_input_fields slug)
  then have id: "pg_id p = pg_id b" using store_SavePage_id [OF assms(1) s] g by simp
  have props: "si_properties ?i = restored_properties b w"
    by (auto simp: restored_properties_def restore_input_fields split: option.splits)
  have md: "\<not> HeadingNumberingEnabled (restored_properties b w) \<Longrightarrow> pg_markdown p = rv_markdown w"
    unfolding r(11) renumbered_markdown props by (simp add: restore_input_fields(2))
  have prev: "TrimSpace (si_previous ?i) \<noteq> []" using assms(4) by (simp add: restore_input_fields(1) slug)
  have fields: "pg_slug p = Slug (sn_slug s) \<and> pg_title p = TrimSpace (sn_title s) \<and>
       pg_icon p = TrimSpace (sn_icon s) \<and> pg_language p = TrimSpace (sn_language s) \<and> pg_status p = sn_status s \<and>
       pg_owner_group p = sn_owner s \<and> pg_review_interval p = sn_interval s \<and> pg_deprecated_target p = Slug (sn_target s)"
    if "rv_snapshot w = Some s" for s
    unfolding r(3-10) normalized_kept_slug [OF prev] using restore_input_fields(3) [OF that] by simp
  have "db_revisions d' = db_revisions d \<or>
     (\<exists>v. db_revisions d' = db_revisions d @ [v] \<and> rw_page v = pg_id b \<and> rw_markdown v = pg_markdown p)"
    using store_SavePage_revision [OF assms(1) s] unfolding id by auto
  with g rev id md fields show ?thesis by blast
qed

section \<open>Samples\<close>

definition sample_mutations :: "policy option \<Rightarrow> mutations_service" where
  "sample_mutations pol = \<lparr>mu_policy = pol, mu_content = sample_content, mu_effects = rs_effects sample_reviews,
     mu_icons = None, mu_change_sink = True\<rparr>"

definition sample_input :: "string \<Rightarrow> string \<Rightarrow> page_save_input" where
  "sample_input slug markdown = \<lparr>si_previous = ''a'', si_expected = 10, si_slug = slug, si_title = ''T'', si_icon = [],
     si_language = [], si_markdown = markdown, si_message = [], si_tags = [''go''], si_groups = [],
     si_status = PageStatusVerified, si_owner = 0, si_interval = 0, si_mark_reviewed = False, si_target = [],
     si_properties = [], si_actor = account 1 UserRoleAdmin\<rparr>"

lemma not_isl_outcome: "\<not> isl (fst o1) \<Longrightarrow> \<exists>x. o1 = (Inr x, fst (snd o1), snd (snd o1))"
  by (cases o1) (metis fst_conv isl_def snd_conv sum.exhaust)

theorem refused_actor_changes_nothing_witness:
  "\<exists>er. Save (sample_mutations (Some (store_policy \<lparr>at_rules = [], at_next = 1, at_members = [], at_groups = []\<rparr>))) (sample_env 20)
     (sample_input ''b'' ''y''\<lparr>si_actor := account 3 UserRoleViewer\<rparr>) sample_db = (Inl er, sample_db, [])"
proof -
  let ?pol = "store_policy \<lparr>at_rules = [], at_next = 1, at_members = [], at_groups = []\<rparr>"
  have 1: "mu_policy (sample_mutations (Some ?pol)) = Some ?pol" by (simp add: sample_mutations_def)
  have 2: "pol_edit ?pol (account 3 UserRoleViewer) ''a'' \<noteq> Inr True"
    by (simp add: store_policy_def CanEdit_def IsAdministrator_def CanEditContent_def account_def)
  have 3: "TrimSpace ''a'' = ''a''" "''a'' \<noteq> []" by code_simp+
  show ?thesis
    using refused_actor_changes_nothing [OF 1 2 3] by (simp add: sample_input_def)
qed

text \<open>A save without policy, preparer and heading numbers is its transaction.\<close>

lemma app_save_runs:
  assumes "ct_prepare (mu_content svc) = None" and "normalizePageSaveInput i = i"
    and "validatePageSaveInput svc i = Inr ()" and "\<not> HeadingNumberingEnabled (si_properties i)"
    and "\<not> isl (persistPageSave svc e i (pageMetadataFromSaveInput i None) empty_render d)"
  shows "\<exists>p d'. app_save svc e i d = (Inr p, d', [InvalidateIcons])"
proof -
  obtain p d' where s: "persistPageSave svc e i (pageMetadataFromSaveInput i None) empty_render d = Inr (p, d')"
    using assms(5) by (metis isl_def sum.exhaust surj_pair)
  have "renumbered_input i = i" using assms(4) by (simp add: renumbered_input_def)
  then show ?thesis
    using assms(1-3) s by (simp add: app_save_def app_preparePageSave_def preparePageContent_def bindR_def)
qed

lemma Save_runs:
  assumes "mu_policy svc = None" and "ct_prepare (mu_content svc) = None" and "normalizePageSaveInput i = i"
    and "validatePageSaveInput svc i = Inr ()" and "\<not> HeadingNumberingEnabled (si_properties i)"
    and "\<not> isl (GetPage d (si_previous i))"
    and "\<not> isl (persistPageSave svc e i (pageMetadataFromSaveInput i None) empty_render d)"
  shows "\<exists>p d' fx. Save svc e i d = (Inr p, d', fx)"
proof -
  obtain b where b: "GetPage d (si_previous i) = Inr b" using assms(6) by (metis isl_def sum.exhaust)
  from app_save_runs [OF assms(2-5,7)] obtain p d' where "app_save svc e i d = (Inr p, d', [InvalidateIcons])" by blast
  then show ?thesis
    using assms(1,3,4) b by (simp add: Save_def requireEdit_def)
qed

definition sample_like :: "page_save_input \<Rightarrow> bool" where
  "sample_like i = (si_previous i = ''a'' \<and> si_slug i \<in> {''a'', ''b''} \<and> si_title i = ''T'' \<and> si_icon i = [] \<and>
     si_language i = [] \<and> si_target i = [] \<and> si_status i = PageStatusVerified \<and> si_interval i = 0 \<and>
     si_owner i = 0 \<and> si_properties i \<in> {[], [(''k'', ''v'')]})"

lemma sample_like_valid:
  assumes "sample_like i"
  shows "normalizePageSaveInput i = i" and "validatePageSaveInput (sample_mutations None) i = Inr ()"
    and "\<not> HeadingNumberingEnabled (si_properties i)"
proof -
  have t: "TrimSpace ''a'' = ''a''" "Slug ''a'' = ''a''" "Slug ''b'' = ''b''" "TrimSpace ''T'' = ''T''" "Slug [] = []"
    "validatePageSlug ''a'' = []" "validatePageSlug ''b'' = []" "ValidPageStatus PageStatusVerified" "ValidReviewIntervalDays 0"
    by code_simp+
  show "normalizePageSaveInput i = i"
    by (rule normalize_fixed) (use assms t in \<open>auto simp: sample_like_def\<close>)
  show "validatePageSaveInput (sample_mutations None) i = Inr ()"
    using assms t by (auto simp: sample_like_def validatePageSaveInput_def validPageWorkflowSettings_def)
  show "\<not> HeadingNumberingEnabled (si_properties i)"
    using assms by (auto simp: sample_like_def HeadingNumberingEnabled_def HeadingNumberingProperty_def)
qed

lemma sample_service [simp]:
  "mu_policy (sample_mutations pol) = pol" "ct_prepare (mu_content (sample_mutations pol)) = None"
  by (simp_all add: sample_mutations_def sample_content_def)

lemma sample_input_runs:
  assumes "sample_like i"
    and "\<not> isl (persistPageSave (sample_mutations None) e i (pageMetadataFromSaveInput i None) empty_render sample_db)"
  shows "\<exists>p d' fx. Save (sample_mutations None) e i sample_db = (Inr p, d', fx)"
proof (rule Save_runs)
  have "\<not> isl (GetPage sample_db ''a'')" by code_simp
  then show "\<not> isl (GetPage sample_db (si_previous i))" using assms(1) by (simp add: sample_like_def)
qed (use assms(2) sample_like_valid [OF assms(1)] in simp_all)

theorem mutated_page_well_formed_witness:
  "\<exists>p d' fx. Save (sample_mutations None) (sample_env 20) (sample_input ''b'' ''y'') sample_db = (Inr p, d', fx) \<and>
     GetPage d' (pg_slug p) = Inr p \<and> path_ok (pg_slug p)"
proof -
  let ?i = "sample_input ''b'' ''y''"
  have "\<not> isl (persistPageSave (sample_mutations None) (sample_env 20) ?i (pageMetadataFromSaveInput ?i None) empty_render sample_db)"
    by code_simp
  then have "\<exists>p d' fx. Save (sample_mutations None) (sample_env 20) ?i sample_db = (Inr p, d', fx)"
    by (intro sample_input_runs) (simp_all add: sample_like_def sample_input_def)
  then obtain p d' fx where s: "Save (sample_mutations None) (sample_env 20) ?i sample_db = (Inr p, d', fx)" by blast
  from mutated_page_well_formed [OF sample_db_ok disjI1 [OF s]] s show ?thesis by (auto simp: page_fields_ok_def)
qed

definition sample_update :: content_update_input where
  "sample_update = \<lparr>cu_slug = ''a'', cu_markdown = ''new'', cu_message = [], cu_expected = 10, cu_actor = account 1 UserRoleAdmin\<rparr>"

lemma sample_page:
  obtains p where "GetPage sample_db ''a'' = Inr p" and "content_input sample_update p = sample_input ''a'' ''new''\<lparr>si_properties := [(''k'', ''v'')]\<rparr>"
    and "pg_slug p = ''a''" and "pg_title p = ''T''" and "page_fields_ok svc p" and "stored_metadata (sample_env t) p"
    and "property_map (pg_properties p) = [(''k'', ''v'')]"
proof -
  define p where "p = projr (GetPage sample_db ''a'')"
  have g: "\<not> isl (GetPage sample_db ''a'')"
    and i: "content_input sample_update p = sample_input ''a'' ''new''\<lparr>si_properties := [(''k'', ''v'')]\<rparr>"
    and f: "pg_slug p = ''a''" "pg_title p = ''T''" "pg_icon p = []" "pg_language p = []" "pg_deprecated_target p = []"
      "pg_status p = PageStatusVerified" "pg_review_interval p = 0" "pg_owner_group p = 0" "pg_tags p = [''go'']"
      "pg_properties p = [\<lparr>pp_key = ''k'', pp_value = ''v''\<rparr>]"
    unfolding p_def by code_simp+
  have g: "GetPage sample_db ''a'' = Inr p" using g by (simp add: p_def)
  have t: "Slug ''a'' = ''a''" "Slug [] = []" "TrimSpace ''T'' = ''T''" "TrimSpace ''go'' = ''go''" "TrimSpace ''k'' = ''k''" "TrimSpace ''v'' = ''v''"
    "\<not> HasPrefix ''a'' ''/''" "\<not> HasSuffix ''a'' ''/''" "\<not> Contains ''a'' ''//''" "ValidPageStatus PageStatusVerified"
    "ValidReviewIntervalDays 0"
    by code_simp+
  show ?thesis
    by (rule that [OF g i f(1,2)]) (simp_all add: page_fields_ok_def path_ok_def stored_metadata_def property_map_def f t sample_env_def)
qed

lemma sample_update_runs: "\<exists>p d' fx. UpdateContent (sample_mutations None) (sample_env 20) sample_update sample_db = (Inr p, d', fx)"
proof -
  let ?i = "sample_input ''a'' ''new''\<lparr>si_properties := [(''k'', ''v'')]\<rparr>"
  obtain p where g: "GetPage sample_db ''a'' = Inr p" and i: "content_input sample_update p = ?i"
    by (rule sample_page) (rule that)
  have "\<not> isl (persistPageSave (sample_mutations None) (sample_env 20) ?i (pageMetadataFromSaveInput ?i None) empty_render sample_db)"
    by code_simp
  then have "\<exists>p d' fx. Save (sample_mutations None) (sample_env 20) ?i sample_db = (Inr p, d', fx)"
    by (intro sample_input_runs) (simp_all add: sample_like_def sample_input_def)
  moreover have "TrimSpace ''a'' = ''a''" by code_simp
  ultimately show ?thesis
    using g i by (simp add: UpdateContent_def sample_update_def requireR_def requireEdit_def sample_mutations_def bindR_def)
qed

text \<open>Two pages, of which the lower one is restricted to a group.\<close>

definition tree_db :: db where
  "tree_db = state_of (store_SavePage (sample_env 11) (sample_request [] ''a/s'' ''secret'') sample_db)"

lemma tree_db_eq [code]: "tree_db =
   \<lparr>db_pages = [\<lparr>pw_id = 1, pw_slug = ''a'', pw_title = ''T'', pw_language = [],
     pw_markdown = ''x'', pw_created_by = 1, pw_updated_by = 1, pw_created_at = 10, pw_updated_at = 10,
     pw_deleted_at = None, pw_deleted_by = 0, pw_view_count = 0, pw_status = PageStatusVerified, pw_owner = 0,
     pw_reviewed = None, pw_interval = 0, pw_target = [], pw_usage = None, pw_html = [], pw_contents = [],
     pw_fingerprint = [], pw_rendered_at = None\<rparr>, \<lparr>pw_id = 2, pw_slug = ''a/s'',
     pw_title = ''T'', pw_language = [], pw_markdown = ''secret'', pw_created_by = 1, pw_updated_by = 1,
     pw_created_at = 11, pw_updated_at = 11, pw_deleted_at = None, pw_deleted_by = 0, pw_view_count = 0,
     pw_status = PageStatusVerified, pw_owner = 0, pw_reviewed = None, pw_interval = 0, pw_target = [],
     pw_usage = None, pw_html = [], pw_contents = [], pw_fingerprint = [], pw_rendered_at = None\<rparr>],
     db_aliases = [], db_revisions = [\<lparr>rw_id = 1, rw_page = 1, rw_number = 1, rw_markdown = ''x'',
     rw_by = 1, rw_created = 10, rw_message = ''m'', rw_snapshot = Some \<lparr>sn_slug = ''a'',
     sn_title = ''T'', sn_icon = [], sn_language = [], sn_tags = [''go''], sn_groups = [],
     sn_status = PageStatusVerified, sn_owner = 0, sn_interval = 0, sn_target = [], sn_properties = [(''k'',
     ''v'')], sn_reviewed = None\<rparr>, rw_changes = []\<rparr>, \<lparr>rw_id = 2, rw_page = 2,
     rw_number = 1, rw_markdown = ''secret'', rw_by = 1, rw_created = 11, rw_message = ''m'',
     rw_snapshot = Some \<lparr>sn_slug = ''a/s'', sn_title = ''T'', sn_icon = [], sn_language = [],
     sn_tags = [''go''], sn_groups = [], sn_status = PageStatusVerified, sn_owner = 0, sn_interval = 0,
     sn_target = [], sn_properties = [(''k'', ''v'')], sn_reviewed = None\<rparr>, rw_changes = []\<rparr>],
     db_reviews = [], db_icons = [], db_tags = [(1, ''go'')], db_page_tags = [(1, 1), (2, 1)],
     db_page_groups = [], db_properties = [(1, ''k'', ''v''), (2, ''k'', ''v'')], db_links = [],
     db_reviewers = [], db_review_comments = [], db_comments = [], db_audit = [\<lparr>ae_user = 1,
     ae_action = ''page.created'', ae_key = ''a'', ae_detail = [CHR ''r'', CHR ''1'', CHR '' '', CHR 0xC2,
     CHR 0xB7, CHR '' '', CHR ''P'', CHR ''a'', CHR ''g'', CHR ''e'', CHR '' '', CHR ''c'', CHR ''r'',
     CHR ''e'', CHR ''a'', CHR ''t'', CHR ''e'', CHR ''d''], ae_revision = Some 1\<rparr>, \<lparr>ae_user = 1,
     ae_action = ''page.created'', ae_key = ''a/s'', ae_detail = [CHR ''r'', CHR ''1'', CHR '' '', CHR 0xC2,
     CHR 0xB7, CHR '' '', CHR ''P'', CHR ''a'', CHR ''g'', CHR ''e'', CHR '' '', CHR ''c'', CHR ''r'',
     CHR ''e'', CHR ''a'', CHR ''t'', CHR ''e'', CHR ''d''], ae_revision = Some 1\<rparr>], db_groups = [],
     db_members = [], db_users = [], db_discussions = True, db_next_page = 3, db_next_revision = 3,
     db_next_tag = 2, db_next_review = 1, db_next_review_comment = 1, db_next_comment = 1\<rparr>"
  by code_simp

lemma tree_db_ok: "db_ok tree_db"
proof -
  have "db_audit tree_db \<noteq> []" by (simp add: tree_db_eq)
  then obtain p where "store_SavePage (sample_env 11) (sample_request [] ''a/s'' ''secret'') sample_db = Inr (p, tree_db)"
    unfolding tree_db_def using state_of_reached by blast
  then show ?thesis by (rule save_keeps_consistency_lemma [OF sample_db_ok])
qed

definition secret_rules :: access_tables where
  "secret_rules = \<lparr>at_rules = [\<lparr>ar_id = 1, ar_path = ''a/s'', ar_group = 7, ar_access = PageAccessEdit\<rparr>], at_next = 2,
     at_members = [], at_groups = [7]\<rparr>"

theorem tree_move_lifts_restrictions_witness:
  "\<exists>p d' fx p'. CanView (PageAccess secret_rules) (account 2 UserRoleEditor) ''a/s'' = Inr False \<and>
     GetPage tree_db ''a/s'' = Inr p \<and>
     Move (sample_mutations (Some (store_policy secret_rules))) (sample_env 20) ''a'' ''b''
       \<lparr>mo_children = True, mo_update_links = False\<rparr> (account 2 UserRoleEditor) tree_db = (Inr (), d', fx) \<and>
     GetPage d' ''b/s'' = Inr p' \<and> pg_id p' = pg_id p \<and>
     CanView (PageAccess secret_rules) (account 2 UserRoleEditor) (pg_slug p') = Inr True"
proof -
  let ?o = "\<lparr>mo_children = True, mo_update_links = False\<rparr>" and ?u = "account 2 UserRoleEditor"
  have n: "NormalizeMove ''a'' ''b'' ?o = Inr (''a'', ''b'')" and pl: "plain ''a''" and b: "below ''a'' ''a/s''"
    and c: "mo_children ?o"
    and g: "\<not> isl (GetPage tree_db ''a'')" "\<not> isl (GetPage tree_db ''a/s'')"
    and m: "\<not> isl (MovePage (sample_env 20) ''a'' ''b'' ?o ?u tree_db)"
    and nearest: "nearest_path (at_rules secret_rules) (normalizeAccessPath (''b'' @ drop (length ''a'') ''a/s'')) = None"
    and may: "CanEdit (PageAccess secret_rules) ?u ''a'' = Inr True" "CanEdit (PageAccess secret_rules) ?u ''b'' = Inr True"
    and no: "CanView (PageAccess secret_rules) ?u ''a/s'' = Inr False"
    and to: "''b'' @ drop (length ''a'') ''a/s'' = ''b/s''"
    by code_simp+
  from g m obtain root p d' where "GetPage tree_db ''a'' = Inr root" and p: "GetPage tree_db ''a/s'' = Inr p"
    and "MovePage (sample_env 20) ''a'' ''b'' ?o ?u tree_db = Inr d'" by (metis isl_def sum.exhaust)
  from tree_move_lifts_restrictions [OF tree_db_ok _ may n pl c this(3,1) p b no nearest,
      of "sample_mutations (Some (store_policy secret_rules))"] p no
  show ?thesis unfolding to by (auto simp: sample_mutations_def)
qed

lemma edited_db_ok: "db_ok edited_db"
proof -
  obtain p where "store_SavePage (sample_env 20) (sample_request ''a'' ''a'' ''y'') sample_db = Inr (p, edited_db)"
    using sample_edited by blast
  then show ?thesis by (rule save_keeps_consistency_lemma [OF sample_db_ok])
qed

lemma sample_restore:
  obtains b w where "GetPage edited_db ''a'' = Inr b" and "Revision edited_db ''a'' 1 = Inr w" and "rv_markdown w = ''x''"
    and "map_option sn_title (rv_snapshot w) = Some ''T''" and "restored_properties b w = [(''k'', ''v'')]"
    and "\<exists>p d' fx. RestoreRevision (sample_mutations None) (sample_env 30) ''a'' 1 (account 1 UserRoleAdmin) edited_db = (Inr p, d', fx)"
proof -
  let ?i = "sample_input ''a'' ''x''\<lparr>si_expected := 20, si_message := ''Restore revision 1'', si_properties := [(''k'', ''v'')]\<rparr>"
  let ?b = "projr (GetPage edited_db ''a'')" and ?w = "projr (Revision edited_db ''a'' 1)"
  have c: "\<not> isl (GetPage edited_db ''a'')" "\<not> isl (Revision edited_db ''a'' 1)"
    "rv_markdown ?w = ''x''" "map_option sn_title (rv_snapshot ?w) = Some ''T''" "restored_properties ?b ?w = [(''k'', ''v'')]"
    "restore_input ?b ?w 1 (account 1 UserRoleAdmin) = ?i"
    by code_simp+
  have run: "\<not> isl (persistPageSave (sample_mutations None) (sample_env 30) ?i (pageMetadataFromSaveInput ?i None) empty_render edited_db)"
    by code_simp
  have "sample_like ?i" by (simp add: sample_like_def sample_input_def)
  from app_save_runs [OF sample_service(2) sample_like_valid [OF this] run]
  have "\<exists>p d'. app_save (sample_mutations None) (sample_env 30) ?i edited_db = (Inr p, d', [InvalidateIcons])" .
  then obtain p d' where a: "app_save (sample_mutations None) (sample_env 30) ?i edited_db = (Inr p, d', [InvalidateIcons])" by blast
  obtain b w where g: "GetPage edited_db ''a'' = Inr b" "Revision edited_db ''a'' 1 = Inr w"
    using c(1,2) by (metis isl_def sum.exhaust)
  have i: "restore_input b w 1 (account 1 UserRoleAdmin) = ?i" using c(6) g by simp
  have "\<exists>p d' fx. RestoreRevision (sample_mutations None) (sample_env 30) ''a'' 1 (account 1 UserRoleAdmin) edited_db = (Inr p, d', fx)"
    by (simp add: RestoreRevision_def requireR_def requireEdit_def Let_def g i a)
  from that [OF g _ _ _ this] c(3-5) g show ?thesis by simp
qed

end
