(* ===== verification/ReviewLifecycle.thy ===== *)
theory ReviewLifecycle
  imports MutationProperties
begin

text \<open>
  The life of a review request. A review starts as pending; a decision, a cancellation or a new
  revision of its page ends that, and a request for changes is superseded by a new revision. The
  relation \<open>review_step\<close> is this state machine, and every operation of the store moves each review
  along it or leaves it alone; only purging the page removes its reviews.
\<close>

section \<open>The state machine\<close>

inductive review_step :: "string \<Rightarrow> string \<Rightarrow> bool" where
  decide: "s \<in> set review_statuses \<Longrightarrow> review_step PageReviewStatusPending s"
| outdate: "review_step PageReviewStatusChangesRequested PageReviewStatusSuperseded"

code_pred review_step .

inductive_cases review_step_from: "review_step s t"
inductive_simps review_step_pending: "review_step PageReviewStatusPending t"

abbreviation "review_path \<equiv> rtranclp review_step"

text \<open>An approved, cancelled or superseded review is closed for good.\<close>

lemma closed_review_step:
  "s \<in> {PageReviewStatusApproved, PageReviewStatusCanceled, PageReviewStatusSuperseded} \<Longrightarrow> \<not> review_step s t"
  by (auto elim: review_step_from)

lemma closed_review_stays:
  assumes "review_path s t" and "s \<in> {PageReviewStatusApproved, PageReviewStatusCanceled, PageReviewStatusSuperseded}"
  shows "t = s"
proof -
  have no: "\<not> review_step s z" for z by (rule closed_review_step [OF assms(2)])
  from assms(1) no show ?thesis by (metis converse_rtranclpE)
qed

text \<open>A review that is pending again has been pending all the time.\<close>

lemma pending_review_was_pending:
  "review_path s t \<Longrightarrow> t = PageReviewStatusPending \<Longrightarrow> s = PageReviewStatusPending"
  by (induction rule: rtranclp_induct) (auto elim: review_step_from)

section \<open>Progress of the review table\<close>

text \<open>Every review known before is either gone or has moved along the state machine.\<close>

definition same_review :: "review_row \<Rightarrow> review_row \<Rightarrow> bool" where
  "same_review v w = (vw_id w = vw_id v \<and> vw_page w = vw_page v \<and> vw_revision w = vw_revision v \<and>
     vw_requested_by w = vw_requested_by v \<and> review_path (vw_status v) (vw_status w))"

definition reviews_progress :: "db \<Rightarrow> db \<Rightarrow> bool" where
  "reviews_progress d d' = (db_next_review d \<le> db_next_review d' \<and>
     (\<forall>w \<in> set (db_reviews d'). vw_id w < db_next_review d \<longrightarrow> (\<exists>v \<in> set (db_reviews d). same_review v w)))"

lemma same_review_refl [simp, intro]: "same_review v v"
  by (simp add: same_review_def)

lemma same_review_trans: "same_review u v \<Longrightarrow> same_review v w \<Longrightarrow> same_review u w"
  by (auto simp: same_review_def)

lemma reviews_progress_refl [simp]: "reviews_progress d d"
  by (auto simp: reviews_progress_def)

lemma reviews_progress_trans:
  assumes "reviews_progress d1 d2" and "reviews_progress d2 d3"
  shows "reviews_progress d1 d3"
proof -
  have "\<exists>v \<in> set (db_reviews d1). same_review v w" if w: "w \<in> set (db_reviews d3)" "vw_id w < db_next_review d1" for w
  proof -
    have "vw_id w < db_next_review d2" using w(2) assms(1) by (simp add: reviews_progress_def)
    then obtain v where v: "v \<in> set (db_reviews d2)" "same_review v w"
      using w(1) assms(2) by (auto simp: reviews_progress_def)
    then have "vw_id v < db_next_review d1" using w(2) by (simp add: same_review_def)
    then obtain u where "u \<in> set (db_reviews d1)" "same_review u v"
      using v(1) assms(1) by (auto simp: reviews_progress_def)
    with v(2) show ?thesis by (blast intro: same_review_trans)
  qed
  with assms show ?thesis by (auto simp: reviews_progress_def)
qed

text \<open>The table that matters.\<close>

definition review_table :: "db \<Rightarrow> review_row list \<times> int" where
  "review_table d = (db_reviews d, db_next_review d)"

lemma reviews_progress_table: "review_table d' = review_table d \<Longrightarrow> reviews_progress d d'"
  by (auto simp: reviews_progress_def review_table_def)

lemma review_table_core: "core d' = core d \<Longrightarrow> review_table d' = review_table d"
  by (simp add: core_def review_table_def)

lemma reviews_progress_update:
  assumes "review_table d' = (update_rows P f (db_reviews d), db_next_review d)"
    and "\<And>v. v \<in> set (db_reviews d) \<Longrightarrow> P v \<Longrightarrow> same_review v (f v)"
  shows "reviews_progress d d'"
  using assms by (auto simp: reviews_progress_def review_table_def update_rows_def)

lemma review_path_decide: "s \<in> set review_statuses \<Longrightarrow> review_path PageReviewStatusPending s"
  by (intro r_into_rtranclp decide)

lemma progress_supersede:
  assumes "review_table d' = review_table (supersedePageReviews e pid d)"
  shows "reviews_progress d d'"
proof (rule reviews_progress_update)
  show "review_table d' = (update_rows
      (\<lambda>v. vw_page v = pid \<and> vw_status v \<in> {PageReviewStatusPending, PageReviewStatusChangesRequested})
      (\<lambda>v. v\<lparr>vw_status := PageReviewStatusSuperseded, vw_updated := en_now e\<rparr>) (db_reviews d), db_next_review d)"
    using assms by (simp add: review_table_def supersedePageReviews_def)
next
  fix v :: review_row
  assume "vw_page v = pid \<and> vw_status v \<in> {PageReviewStatusPending, PageReviewStatusChangesRequested}"
  then show "same_review v (v\<lparr>vw_status := PageReviewStatusSuperseded, vw_updated := en_now e\<rparr>)"
    using outdate review_path_decide [of PageReviewStatusSuperseded]
    by (auto simp: same_review_def review_statuses_def)
qed

section \<open>Writing pages\<close>

lemma review_table_insertPageRevision [simp]:
  "review_table (snd (insertPageRevision e pid md msg actor s fs d)) = review_table d"
  by (simp add: insertPageRevision_def Let_def review_table_def)

lemma review_table_add_audit [simp]: "review_table (add_audit a b c x y d) = review_table d"
  by (simp add: add_audit_def review_table_def)

lemma review_table_appendPageRevision:
  "appendPageRevision e pid md msg actor d = Inr d' \<Longrightarrow> review_table d' = review_table d"
  by (auto simp: appendPageRevision_def result_simps split: option.splits)

lemma review_table_persistPageRevision:
  "persistPageRevision e before after msg actor d = (changed, d') \<Longrightarrow> review_table d' = review_table d"
  by (drule persistPageRevision_cases) (auto, metis review_table_insertPageRevision snd_conv)

lemma review_table_savePageRecord: "savePageRecord e q d = Inr (i, d') \<Longrightarrow> review_table d' = review_table d"
  by (auto simp: savePageRecord_def insertPageRecord_def renamePageRecord_def updatePageRecord_def
      set_page_slug_def removeCurrentSlugAlias_def move_icon_def upsert_alias_def Let_def review_table_def result_simps
      split: option.splits if_splits)

lemma executePageSave_progress:
  assumes "db_ok d" and "executePageSaveTransaction e q d = Inr d'"
  shows "reviews_progress d d'"
proof -
  have "store_ok d" using assms(1) by (simp add: db_ok_def)
  from executePageSave_stages [OF this assms(2)] obtain i d1 d6 d7 changed before where
    r: "savePageRecord e q d = Inr (i, d1)" and c: "core d6 = core d1"
    and p: "persistPageRevision e before (complete_page d6 (saved_row e q d i)) (sq_message q) (u_id (sq_user q)) d6 = (changed, d7)"
    and d': "d' = (if changed then supersedePageReviews e i d7 else restore_token i before d7)" by metis
  have t: "review_table d7 = review_table d"
    using review_table_savePageRecord [OF r] review_table_core [OF c] review_table_persistPageRevision [OF p] by simp
  show ?thesis
  proof (cases changed)
    case True
    have "reviews_progress d d7" by (rule reviews_progress_table [OF t])
    moreover have "reviews_progress d7 d'" by (rule progress_supersede) (simp add: d' True)
    ultimately show ?thesis by (rule reviews_progress_trans)
  next
    case False
    then have "review_table d' = review_table d7"
      by (simp add: d' restore_token_def review_table_def split: option.splits)
    with t show ?thesis by (intro reviews_progress_table) simp
  qed
qed

lemma SavePage_progress: "db_ok d \<Longrightarrow> store_SavePage e q d = Inr (p, d') \<Longrightarrow> reviews_progress d d'"
  by (auto elim!: store_SavePage_cases intro: executePageSave_progress)

lemma applyPreparedPageUpdate_progress:
  assumes "applyPreparedPageUpdate e u after d = Inr d'" and "\<forall>x. core (after x) = core x"
  shows "reviews_progress d d'"
proof -
  from assms(1) obtain d2 where
    a: "appendPageRevision e (up_page u) (up_markdown u) (up_message u) (up_actor u)
      (d\<lparr>db_pages := update_rows (\<lambda>r. pw_id r = up_page u) (source_row e u) (db_pages d)\<rparr>) = Inr d2"
    and d': "d' = replacePageLinks (up_page u) (up_links u) (after (supersedePageReviews e (up_page u) d2))"
    by (auto simp: applyPreparedPageUpdate_def Let_def result_simps)
  have t: "review_table d2 = review_table d"
    using review_table_appendPageRevision [OF a] by (simp add: review_table_def)
  have "core d' = core (supersedePageReviews e (up_page u) d2)" using assms(2) by (simp add: d')
  then have "reviews_progress d2 d'" by (intro progress_supersede review_table_core)
  with reviews_progress_table [OF t] show ?thesis by (rule reviews_progress_trans)
qed

section \<open>Moving and deleting pages\<close>

lemma review_table_move_one: "move_one e user m d = Inr d' \<Longrightarrow> review_table d' = review_table d"
  by (auto simp: move_one_def set_page_slug_def removeCurrentSlugAlias_def move_icon_def upsert_alias_def
      review_table_def result_simps split: if_splits)

lemma review_table_write_link_edit: "write_link_edit e user edit d = Inr d' \<Longrightarrow> review_table d' = review_table d"
  by (auto simp: write_link_edit_def result_simps dest!: review_table_appendPageRevision) (simp add: review_table_def)

lemma review_table_forR:
  assumes "forR xs f d = Inr d'" and "\<And>x d d'. f x d = Inr d' \<Longrightarrow> review_table d' = review_table d"
  shows "review_table d' = review_table d"
  by (rule forR_invariant [OF assms(1), of "\<lambda>x. review_table x = review_table d"]) (use assms(2) in auto)

lemma review_table_movePage:
  assumes "movePage e old new opts u d = Inr d'"
  shows "review_table d' = review_table d"
proof -
  from assms obtain moved d1 d2 d3 where a: "forR (rev moved) (move_one e (u_id u)) d = Inr d1"
    and t: "retargetMovedPageLinks moved d1 = Inr d2"
    and w: "(if mo_update_links opts then rewriteIncomingWikiLinks e moved (u_id u) d2 else Inr d2) = Inr d3"
    and d': "d' = fold (\<lambda>m. insertPageActionAudit (u_id u) ''page.moved'' (mp_new m) (mp_old m @ arrow_separator @ mp_new m)) moved d3"
    unfolding movePage_def applyPageMoves_def Let_def by (auto simp: bindR_eq_Inr if_Inl_eq_Inr split_paired_all)
  have "review_table d1 = review_table d" by (rule review_table_forR [OF a review_table_move_one])
  moreover have "review_table d2 = review_table d1" by (rule review_table_core [OF core_retarget [OF t]])
  moreover have "review_table d3 = review_table d2"
    using w by (auto simp: rewriteIncomingWikiLinks_def split: if_splits intro: review_table_forR review_table_write_link_edit)
  moreover have "core d' = core d3" unfolding d' by simp
  ultimately show ?thesis using review_table_core by metis
qed

lemma review_table_BulkMovePages:
  assumes "BulkMovePages e slugs target u d = Inr d'"
  shows "review_table d' = review_table d"
proof -
  from assms obtain t where "forR (sort_func longer_path slugs)
       (\<lambda>slug d. bindR (MoveDestination slug t) (\<lambda>(source, destination).
          movePage e source destination \<lparr>mo_children = False, mo_update_links = True\<rparr> u d)) d = Inr d'"
    by (auto simp: BulkMovePages_def result_simps)
  then show ?thesis
    by (rule review_table_forR) (auto simp: result_simps dest: review_table_movePage)
qed

lemma progress_delete_rows:
  "review_table d' = (delete_rows P (db_reviews d), db_next_review d) \<Longrightarrow> reviews_progress d d'"
  by (auto simp: reviews_progress_def review_table_def delete_rows_def)

lemma PermanentlyDeletePage_progress: "PermanentlyDeletePage slug d = Inr d' \<Longrightarrow> reviews_progress d d'"
  by (auto simp: PermanentlyDeletePage_def remove_unused_icons_def cascade_pages_def Let_def review_table_def
      split: option.splits intro!: progress_delete_rows)

section \<open>Requests and decisions\<close>

lemma review_table_replacePageReviewers: "replacePageReviewers i us d = Inr d' \<Longrightarrow> review_table d' = review_table d"
  unfolding replacePageReviewers_def
  by (drule review_table_forR) (auto simp: review_table_def split: if_splits)

lemma RequestPageReview_progress:
  assumes "RequestPageReview e slug actor us gid note d = Inr (q, d')"
  shows "reviews_progress d d'"
proof -
  from assms obtain v d2 where d2: "review_table d2 = (db_reviews d @ [v], db_next_review d + 1)" and "vw_id v = db_next_review d"
    and d': "review_table d' = review_table d2"
    by (auto simp: RequestPageReview_def result_simps Let_def new_review_row_def set_page_status_def review_table_def
        dest!: review_table_replacePageReviewers split: option.splits if_splits)
  then show ?thesis by (auto simp: reviews_progress_def review_table_def)
qed

lemma UpdatePageReview_progress:
  assumes "UpdatePageReview e i slug actor us gid note d = Inr (q, d')"
  shows "reviews_progress d d'"
proof (rule reviews_progress_update)
  show "review_table d' = (update_rows (\<lambda>v. vw_id v = i) (\<lambda>v. v\<lparr>vw_group := gid, vw_note := note, vw_updated := en_now e\<rparr>)
      (db_reviews d), db_next_review d)"
    using assms by (auto simp: UpdatePageReview_def result_simps dest!: review_table_replacePageReviewers
        split: option.splits if_splits) (simp add: review_table_def)
qed (simp add: same_review_def)

lemma status_update_progress:
  assumes "review_table d' = (update_rows (\<lambda>v. vw_id v = i) f (db_reviews d), db_next_review d)"
    and "db_ok d" and "v \<in> set (db_reviews d)" and "vw_id v = i" and "pending v"
    and "\<And>v. vw_id (f v) = vw_id v \<and> vw_page (f v) = vw_page v \<and> vw_revision (f v) = vw_revision v \<and>
       vw_requested_by (f v) = vw_requested_by v \<and> vw_status (f v) \<in> set review_statuses"
  shows "reviews_progress d d'"
proof (rule reviews_progress_update [OF assms(1)])
  fix w assume "w \<in> set (db_reviews d)" "vw_id w = i"
  moreover have "distinct (map vw_id (db_reviews d))" using assms(2) by (simp add: db_ok_def store_ok_def reviews_ok_def)
  ultimately have "w = v" using assms(3,4) by (metis distinct_map inj_onD)
  then show "same_review w (f w)"
    using assms(5) assms(6) [of v] review_path_decide by (simp add: same_review_def pending_def)
qed

lemma CancelPageReview_progress:
  assumes "db_ok d" and "CancelPageReview e i slug actor d = Inr (q, d')"
  shows "reviews_progress d d'"
proof -
  have "store_ok d" using assms(1) by (simp add: db_ok_def)
  from assms(2) [unfolded CancelPageReview_Inr [OF this]] obtain p v where v: "review_of_page d i slug = Some (p, v)" "pending v"
    and d': "d' = restoreCanceledReviewStatus e (pw_id p) (vw_revision v) (current_revision d (pw_id p)) (vw_previous v)
         (d\<lparr>db_reviews := update_rows (\<lambda>v. vw_id v = i) (canceled_row e) (db_reviews d)\<rparr>)" by blast
  have "review_table d' = (update_rows (\<lambda>v. vw_id v = i) (canceled_row e) (db_reviews d), db_next_review d)"
    by (simp add: d' restoreCanceledReviewStatus_def review_table_def)
  from status_update_progress [OF this assms(1) _ _ v(2)] review_of_page_Some [OF v(1)] show ?thesis
    by (simp add: canceled_row_def review_statuses_def)
qed

lemma DecidePageReview_progress:
  assumes "db_ok d" and "DecidePageReview e i slug reviewer admin decision note d = Inr (q, d')"
  shows "reviews_progress d d'"
proof -
  have "store_ok d" using assms(1) by (simp add: db_ok_def)
  from assms(2) [unfolded DecidePageReview_Inr [OF this]] obtain p v where v: "review_of_page d i slug = Some (p, v)" "pending v"
    and s: "decision \<in> set review_statuses" and d': "d' = markPageReviewApproved e (pw_id p) decision
         (d\<lparr>db_reviews := update_rows (\<lambda>v. vw_id v = i) (decided_row e reviewer decision note) (db_reviews d)\<rparr>)" by blast
  have "review_table d' = (update_rows (\<lambda>v. vw_id v = i) (decided_row e reviewer decision note) (db_reviews d), db_next_review d)"
    by (simp add: d' markPageReviewApproved_def review_table_def)
  from status_update_progress [OF this assms(1) _ _ v(2)] review_of_page_Some [OF v(1)] s show ?thesis
    by (simp add: decided_row_def)
qed

end
