(* ===== verification/Histories.thy ===== *)
theory Histories
  imports MutationProperties
begin

text \<open>
  The history of a page only grows. An operation may add revisions at its end; it changes none,
  removes none and gives no identifier out twice. Only purging a page from the recycle bin takes
  its history away, together with the page.
\<close>

section \<open>Growth\<close>

definition history_grows :: "db \<Rightarrow> db \<Rightarrow> bool" where
  "history_grows d d' = (db_next_page d \<le> db_next_page d' \<and>
     (\<forall>i \<in> page_ids d'. (i < db_next_page d \<longrightarrow> i \<in> page_ids d) \<and> prefix (revisions_of d i) (revisions_of d' i)))"

lemma history_grows_refl [simp]: "history_grows d d"
  by (simp add: history_grows_def)

lemma revisions_of_no_page: "store_ok d \<Longrightarrow> i \<notin> page_ids d \<Longrightarrow> revisions_of d i = []"
  by (auto simp: store_ok_def revisions_ok_def revisions_of_def filter_empty_conv)

lemma page_id_bound: "store_ok d \<Longrightarrow> i \<in> page_ids d \<Longrightarrow> i < db_next_page d"
  by (auto simp: store_ok_def pages_ok_def page_ids_def)

lemma history_grows_trans:
  assumes "db_ok d1" and "history_grows d1 d2" and "history_grows d2 d3"
  shows "history_grows d1 d3"
proof -
  have ok: "store_ok d1" using assms(1) by (simp add: db_ok_def)
  have "(i < db_next_page d1 \<longrightarrow> i \<in> page_ids d1) \<and> prefix (revisions_of d1 i) (revisions_of d3 i)" if i: "i \<in> page_ids d3" for i
  proof (cases "i \<in> page_ids d2")
    case True
    then show ?thesis using i assms(2,3) by (auto simp: history_grows_def intro: prefix_order.trans)
  next
    case False
    then have "\<not> i < db_next_page d1" using i assms(2,3) by (force simp: history_grows_def)
    moreover from this have "revisions_of d1 i = []"
      using page_id_bound [OF ok] by (intro revisions_of_no_page [OF ok]) blast
    ultimately show ?thesis by simp
  qed
  with assms(2,3) show ?thesis by (auto simp: history_grows_def)
qed

text \<open>Operations that leave the identifiers and the revisions alone.\<close>

definition history_table :: "db \<Rightarrow> int list \<times> revision_row list \<times> int" where
  "history_table d = (map pw_id (db_pages d), db_revisions d, db_next_page d)"

lemma history_grows_table: "history_table d' = history_table d \<Longrightarrow> history_grows d d'"
proof -
  assume t: "history_table d' = history_table d"
  then have "set (map pw_id (db_pages d')) = set (map pw_id (db_pages d))" by (simp add: history_table_def)
  then have "page_ids d' = page_ids d" by (simp add: page_ids_def)
  with t show ?thesis by (simp add: history_grows_def history_table_def revisions_of_def)
qed

lemma history_table_core: "core d' = core d \<Longrightarrow> history_table d' = history_table d"
  by (simp add: core_def history_table_def)

lemma history_table_update_pages:
  "(\<And>r. pw_id (f r) = pw_id r) \<Longrightarrow> history_table (d\<lparr>db_pages := update_rows P f (db_pages d)\<rparr>) = history_table d"
  by (simp add: history_table_def map_update_rows_same)

lemma history_table_forR:
  assumes "forR xs f d = Inr d'" and "\<And>x d d'. f x d = Inr d' \<Longrightarrow> history_table d' = history_table d"
  shows "history_table d' = history_table d"
  by (rule forR_invariant [OF assms(1), of "\<lambda>x. history_table x = history_table d"]) (use assms(2) in auto)

text \<open>One more revision at the end.\<close>

lemma history_grows_append:
  assumes "map pw_id (db_pages d') = map pw_id (db_pages d)" and "db_revisions d' = db_revisions d @ ws"
    and "db_next_page d' = db_next_page d"
  shows "history_grows d d'"
proof -
  have "page_ids d' = page_ids d" using arg_cong [OF assms(1), of set] by (simp add: page_ids_def)
  then show ?thesis using assms(2,3) by (simp add: history_grows_def revisions_of_def)
qed

section \<open>Writing pages\<close>

lemma appendPageRevision_grows: "appendPageRevision e pid md msg actor d = Inr d' \<Longrightarrow> history_grows d d'"
  by (auto simp: appendPageRevision_def insertPageRevision_def Let_def result_simps split: option.splits
      intro!: history_grows_append)

lemma persistPageRevision_grows: "persistPageRevision e before after msg actor d = (changed, d') \<Longrightarrow> history_grows d d'"
  by (drule persistPageRevision_cases)
    (auto simp: insertPageRevision_def Let_def add_audit_def intro!: history_grows_append)

lemma savePageRecord_grows:
  assumes "store_ok d" and "savePageRecord e q d = Inr (i, d')"
  shows "history_grows d d'"
proof (cases "loadPageRecordForUpdate d (pageRecordLookupSlug q)")
  case None
  with assms(2) have d': "d' = d\<lparr>db_pages := db_pages d @ [new_page_row e q (db_next_page d)], db_next_page := db_next_page d + 1\<rparr>"
    by (auto simp: savePageRecord_def insertPageRecord_def split: if_splits)
  have "pw_id (new_page_row e q (db_next_page d)) = db_next_page d" by (simp add: new_page_row_def Let_def)
  then show ?thesis by (auto simp: d' history_grows_def page_ids_def revisions_of_def)
next
  case (Some a)
  with assms(2) have "history_table d' = history_table d"
    by (auto simp: savePageRecord_def renamePageRecord_def updatePageRecord_def set_page_slug_def removeCurrentSlugAlias_def
        move_icon_def upsert_alias_def updated_row_def Let_def history_table_def result_simps map_update_rows_same
        split: option.splits if_splits prod.splits)
  then show ?thesis by (rule history_grows_table)
qed

lemma executePageSave_grows:
  assumes "db_ok d" and "executePageSaveTransaction e q d = Inr d'"
  shows "history_grows d d'"
proof -
  have sok: "store_ok d" using assms(1) by (simp add: db_ok_def)
  from executePageSave_stages [OF sok assms(2)] obtain i d1 d6 d7 changed before where
    r: "savePageRecord e q d = Inr (i, d1)" and c: "core d6 = core d1"
    and p: "persistPageRevision e before (complete_page d6 (saved_row e q d i)) (sq_message q) (u_id (sq_user q)) d6 = (changed, d7)"
    and d': "d' = (if changed then supersedePageReviews e i d7 else restore_token i before d7)" by metis
  have t: "history_table d' = history_table d7"
    by (simp add: d' restore_token_def supersedePageReviews_def history_table_def map_update_rows_same split: option.splits)
  note tr = history_grows_trans [OF assms(1)]
  have "history_grows d d6" by (rule tr [OF savePageRecord_grows [OF sok r] history_grows_table [OF history_table_core [OF c]]])
  from tr [OF this persistPageRevision_grows [OF p]] show ?thesis by (rule tr) (rule history_grows_table [OF t])
qed

lemma SavePage_grows: "db_ok d \<Longrightarrow> store_SavePage e q d = Inr (p, d') \<Longrightarrow> history_grows d d'"
  by (auto elim!: store_SavePage_cases intro: executePageSave_grows)

lemma applyPreparedPageUpdate_grows:
  assumes "applyPreparedPageUpdate e u after d = Inr d'" and "\<forall>x. core (after x) = core x"
  shows "history_grows d d'"
proof -
  from assms(1) obtain d2 where
    a: "appendPageRevision e (up_page u) (up_markdown u) (up_message u) (up_actor u)
      (d\<lparr>db_pages := update_rows (\<lambda>r. pw_id r = up_page u) (source_row e u) (db_pages d)\<rparr>) = Inr d2"
    and d': "d' = replacePageLinks (up_page u) (up_links u) (after (supersedePageReviews e (up_page u) d2))"
    by (auto simp: applyPreparedPageUpdate_def Let_def result_simps)
  have "core d' = core (supersedePageReviews e (up_page u) d2)" using assms(2) by (simp add: d')
  then have "history_table d' = history_table (supersedePageReviews e (up_page u) d2)" by (rule history_table_core)
  then have t: "history_table d' = history_table d2" by (simp add: supersedePageReviews_def history_table_def)
  from a have "map pw_id (db_pages d2) = map pw_id (db_pages d)" "\<exists>ws. db_revisions d2 = db_revisions d @ ws"
    "db_next_page d2 = db_next_page d"
    by (auto simp: appendPageRevision_def insertPageRevision_def Let_def result_simps source_row_def map_update_rows_same
        split: option.splits)
  with t show ?thesis by (auto simp: history_table_def intro: history_grows_append)
qed

section \<open>Moving and deleting pages\<close>

lemma history_table_move_one: "move_one e user m d = Inr d' \<Longrightarrow> history_table d' = history_table d"
  by (auto simp: move_one_def set_page_slug_def removeCurrentSlugAlias_def move_icon_def upsert_alias_def
      history_table_def result_simps map_update_rows_same split: if_splits)

text \<open>Rewriting links adds revisions.\<close>

definition revisions_added :: "db \<Rightarrow> db \<Rightarrow> bool" where
  "revisions_added d d' = (map pw_id (db_pages d') = map pw_id (db_pages d) \<and> (\<exists>ws. db_revisions d' = db_revisions d @ ws) \<and>
     db_next_page d' = db_next_page d)"

lemma revisions_added_grows: "revisions_added d d' \<Longrightarrow> history_grows d d'"
  by (auto simp: revisions_added_def intro: history_grows_append)

lemma write_link_edit_added: "write_link_edit e user edit d = Inr d' \<Longrightarrow> revisions_added d d'"
  by (auto simp: write_link_edit_def appendPageRevision_def insertPageRevision_def Let_def result_simps revisions_added_def
      map_update_rows_same split: option.splits)

lemma forR_added:
  assumes "forR xs f d = Inr d'" and "\<And>x d d'. f x d = Inr d' \<Longrightarrow> revisions_added d d'"
  shows "revisions_added d d'"
  by (rule forR_invariant [OF assms(1), of "revisions_added d"])
    (auto dest!: assms(2) simp: revisions_added_def)

lemma movePage_added:
  assumes "movePage e old new opts u d = Inr d'"
  shows "revisions_added d d'"
proof -
  from assms obtain moved d1 d2 d3 where a: "forR (rev moved) (move_one e (u_id u)) d = Inr d1"
    and t: "retargetMovedPageLinks moved d1 = Inr d2"
    and w: "(if mo_update_links opts then rewriteIncomingWikiLinks e moved (u_id u) d2 else Inr d2) = Inr d3"
    and d': "d' = fold (\<lambda>m. insertPageActionAudit (u_id u) ''page.moved'' (mp_new m) (mp_old m @ arrow_separator @ mp_new m)) moved d3"
    unfolding movePage_def applyPageMoves_def Let_def by (auto simp: bindR_eq_Inr if_Inl_eq_Inr split_paired_all)
  have "history_table d1 = history_table d" by (rule history_table_forR [OF a history_table_move_one])
  moreover have "history_table d2 = history_table d1" by (rule history_table_core [OF core_retarget [OF t]])
  moreover have "revisions_added d2 d3"
    using w by (cases "mo_update_links opts")
      (auto simp: rewriteIncomingWikiLinks_def intro: forR_added write_link_edit_added, simp add: revisions_added_def)
  moreover have "core d' = core d3" unfolding d' by simp
  then have "history_table d' = history_table d3" by (rule history_table_core)
  ultimately show ?thesis by (auto simp: revisions_added_def history_table_def)
qed

lemma BulkMovePages_grows:
  assumes "BulkMovePages e slugs target u d = Inr d'"
  shows "history_grows d d'"
proof -
  from assms obtain t where "forR (sort_func longer_path slugs)
       (\<lambda>slug d. bindR (MoveDestination slug t) (\<lambda>(source, destination).
          movePage e source destination \<lparr>mo_children = False, mo_update_links = True\<rparr> u d)) d = Inr d'"
    by (auto simp: BulkMovePages_def result_simps)
  then have "revisions_added d d'"
    by (rule forR_added) (auto simp: result_simps dest: movePage_added)
  then show ?thesis by (rule revisions_added_grows)
qed

lemma PermanentlyDeletePage_grows:
  assumes "PermanentlyDeletePage slug d = Inr d'"
  shows "history_grows d d'"
proof -
  from assms obtain r where d': "d' = remove_unused_icons (cascade_pages (\<lambda>i. i = pw_id (r :: page_row)) d)"
    by (auto simp: PermanentlyDeletePage_def split: option.splits)
  have "revisions_of d' i = (if i = pw_id r then [] else revisions_of d i)" for i
    by (simp add: d' remove_unused_icons_def revisions_of_def cascade_pages_def Let_def delete_rows_def)
      (auto intro: filter_cong)
  moreover have "page_ids d' = page_ids d - {pw_id r}" "db_next_page d' = db_next_page d"
    by (auto simp: d' remove_unused_icons_def page_ids_def cascade_pages_def Let_def delete_rows_def)
  ultimately show ?thesis by (auto simp: history_grows_def)
qed

section \<open>Review operations\<close>

lemma history_table_replacePageReviewers: "replacePageReviewers i us d = Inr d' \<Longrightarrow> history_table d' = history_table d"
  unfolding replacePageReviewers_def
  by (drule history_table_forR) (auto simp: history_table_def split: if_splits)

lemma history_table_RequestPageReview: "RequestPageReview e slug actor us gid note d = Inr (q, d') \<Longrightarrow> history_table d' = history_table d"
  by (auto simp: RequestPageReview_def result_simps Let_def set_page_status_def history_table_update_pages
      dest!: history_table_replacePageReviewers split: option.splits if_splits) (simp_all add: history_table_def)

lemma history_table_UpdatePageReview: "UpdatePageReview e i slug actor us gid note d = Inr (q, d') \<Longrightarrow> history_table d' = history_table d"
  by (auto simp: UpdatePageReview_def result_simps dest!: history_table_replacePageReviewers split: option.splits if_splits)
    (simp add: history_table_def)

lemma history_table_CancelPageReview: "CancelPageReview e i slug actor d = Inr (q, d') \<Longrightarrow> history_table d' = history_table d"
  by (auto simp: CancelPageReview_def result_simps restoreCanceledReviewStatus_def history_table_def map_update_rows_same
      split: option.splits if_splits)

lemma history_table_DecidePageReview:
  "DecidePageReview e i slug reviewer admin decision note d = Inr (q, d') \<Longrightarrow> history_table d' = history_table d"
  by (auto simp: DecidePageReview_def persistReviewDecision_def markPageReviewApproved_def result_simps history_table_def
      map_update_rows_same split: option.splits if_splits)

end
