(* ===== verification/Accounts.thy ===== *)
theory Accounts
  imports Store
begin

text \<open>
  Accounts, their credentials and sessions: the transactions of \<open>postgres/user_admin.go\<close>,
  \<open>local_auth.go\<close>, \<open>authentication.go\<close> and \<open>tokens.go\<close>. An account has a role and an enabled flag
  of its own, profile fields that an identity provider may own unless they are overridden
  locally, an optional local password with its sessions, and identities of a trusted proxy or an
  OpenID provider. Hashes, random tokens and \<open>lower\<close> come from outside. Times are in seconds.
\<close>

section \<open>The tables\<close>

record user_row =
  uw_id :: int
  uw_username :: string
  uw_email :: string
  uw_display :: string
  uw_role :: string
  uw_enabled :: bool
  uw_version :: int
  uw_oidc_observed :: bool
  uw_oidc_admin :: bool
  uw_proxy_observed :: bool
  uw_proxy_admin :: bool
  uw_last_login :: "time option"
  uw_source :: string
  uw_username_ov :: bool
  uw_email_ov :: bool
  uw_display_ov :: bool

record credential_row =
  cw_user :: int
  cw_hash :: string
  cw_enabled :: bool

record session_row =
  ss_token :: string
  ss_user :: int
  ss_expires :: time

record proxy_row =
  px_username :: string
  px_user :: int
  px_email :: string
  px_display :: string
  px_seen :: time

record oidc_row =
  oi_issuer :: string
  oi_subject :: string
  oi_user :: int
  oi_username :: string
  oi_email :: string
  oi_display :: string
  oi_seen :: time
  oi_created :: time

record pending_row =
  pd_id :: int
  pd_issuer :: string
  pd_subject :: string
  pd_username :: string
  pd_email :: string
  pd_display :: string
  pd_status :: string
  pd_first :: time
  pd_seen :: time

record token_row =
  tk_id :: int
  tk_name :: string
  tk_hash :: string
  tk_user :: "int option"
  tk_created_by :: "int option"
  tk_created :: time
  tk_last_used :: "time option"
  tk_expires :: "time option"

text \<open>The settings row keeps whether the setup is complete, the authentication mode and the registration switch.\<close>

record accounts =
  ac_users :: "user_row list"
  ac_credentials :: "credential_row list"
  ac_sessions :: "session_row list"
  ac_proxies :: "proxy_row list"
  ac_retired :: "(string \<times> int) list"
  ac_identities :: "oidc_row list"
  ac_pending :: "pending_row list"
  ac_tokens :: "token_row list"
  ac_members :: "(int \<times> int) list"
  ac_groups :: "group list"
  ac_mappings :: "(string \<times> int) list"
  ac_setup :: bool
  ac_mode :: string
  ac_registration :: bool
  ac_next_user :: int
  ac_next_pending :: int
  ac_next_token :: int
  ac_next_group :: int

definition no_accounts :: accounts where
  "no_accounts = \<lparr>ac_users = [], ac_credentials = [], ac_sessions = [], ac_proxies = [], ac_retired = [],
     ac_identities = [], ac_pending = [], ac_tokens = [], ac_members = [], ac_groups = [], ac_mappings = [],
     ac_setup = False, ac_mode = ''none'', ac_registration = True, ac_next_user = 1, ac_next_pending = 1,
     ac_next_token = 1, ac_next_group = 1\<rparr>"

text \<open>The columns that a query returns as \<open>domain.User\<close>.\<close>

definition to_user :: "user_row \<Rightarrow> user" where
  "to_user r = \<lparr>u_id = uw_id r, u_username = uw_username r, u_email = uw_email r, u_display = uw_display r,
     u_role = uw_role r, u_enabled = uw_enabled r, u_external_admin = False, u_session_version = uw_version r\<rparr>"

definition user_row_of :: "accounts \<Rightarrow> int \<Rightarrow> user_row option" where
  "user_row_of a uid = row_with (\<lambda>r. uw_id r = uid) (ac_users a)"

text \<open>\<open>cmp.Or\<close> on strings.\<close>

definition str_or :: "string \<Rightarrow> string \<Rightarrow> string" where
  "str_or a b = (if a = [] then b else a)"

section \<open>Reading accounts\<close>

definition User :: "accounts \<Rightarrow> int \<Rightarrow> error + user" where
  "User a uid = (case user_row_of a uid of None \<Rightarrow> Inl ErrNotFound | Some r \<Rightarrow> Inr (to_user r))"

definition UserByUsername :: "env \<Rightarrow> accounts \<Rightarrow> string \<Rightarrow> error + user" where
  "UserByUsername e a username =
     (case row_with (\<lambda>r. en_sql_lower e (uw_username r) = en_sql_lower e username) (ac_users a) of
        None \<Rightarrow> Inl ErrNotFound
      | Some r \<Rightarrow> Inr (to_user r))"

definition usernameAvailable :: "env \<Rightarrow> accounts \<Rightarrow> string \<Rightarrow> int \<Rightarrow> bool" where
  "usernameAvailable e a username except =
     (\<not> list_ex (\<lambda>r. en_sql_lower e (uw_username r) = en_sql_lower e username \<and> uw_id r \<noteq> except) (ac_users a))"

text \<open>\<open>ORDER BY last_seen_at DESC,created_at DESC LIMIT 1\<close>.\<close>

definition newer_identity :: "oidc_row \<Rightarrow> oidc_row \<Rightarrow> int" where
  "newer_identity l r = cmp_then (cmp_compare (oi_seen r) (oi_seen l)) (cmp_compare (oi_created r) (oi_created l))"

definition latest_identity :: "accounts \<Rightarrow> int \<Rightarrow> oidc_row option" where
  "latest_identity a uid =
     (case sort_func newer_identity (filter (\<lambda>i. oi_user i = uid) (ac_identities a)) of [] \<Rightarrow> None | x # _ \<Rightarrow> Some x)"

definition proxy_of :: "accounts \<Rightarrow> int \<Rightarrow> proxy_row option" where
  "proxy_of a uid = row_with (\<lambda>p. px_user p = uid) (ac_proxies a)"

definition provider_value :: "string \<Rightarrow> (oidc_row \<Rightarrow> string) \<Rightarrow> (proxy_row \<Rightarrow> string) \<Rightarrow> oidc_row option \<Rightarrow> proxy_row option \<Rightarrow> string" where
  "provider_value source fo fp oi tp =
     (if source = ProfileSourceOIDC then (case oi of None \<Rightarrow> [] | Some i \<Rightarrow> fo i)
      else if source = ProfileSourceProxy then (case tp of None \<Rightarrow> [] | Some p \<Rightarrow> fp p)
      else [])"

definition userProfile :: "accounts \<Rightarrow> int \<Rightarrow> error + user_profile" where
  "userProfile a uid =
     (case user_row_of a uid of
        None \<Rightarrow> Inl ErrNotFound
      | Some r \<Rightarrow>
          let oi = latest_identity a uid; tp = proxy_of a uid; v = provider_value (uw_source r)
          in Inr \<lparr>pr_user = uid, pr_source = uw_source r, pr_username = uw_username r, pr_email = uw_email r,
               pr_display = uw_display r,
               pr_provider_username = v oi_username px_username oi tp,
               pr_provider_email = v oi_email px_email oi tp,
               pr_provider_display = v oi_display px_display oi tp,
               pr_username_overridden = uw_username_ov r, pr_email_overridden = uw_email_ov r,
               pr_display_overridden = uw_display_ov r,
               pr_proxy_username = (case tp of None \<Rightarrow> [] | Some p \<Rightarrow> px_username p)\<rparr>)"

section \<open>Local credentials and sessions\<close>

definition HasLocalCredential :: "accounts \<Rightarrow> int \<Rightarrow> bool" where
  "HasLocalCredential a uid = list_ex (\<lambda>c. cw_user c = uid) (ac_credentials a)"

text \<open>An enabled credential of an enabled account.\<close>

definition can_sign_in :: "accounts \<Rightarrow> user_row \<Rightarrow> bool" where
  "can_sign_in a r = (uw_enabled r \<and> list_ex (\<lambda>c. cw_user c = uw_id r \<and> cw_enabled c) (ac_credentials a))"

definition LocalCredential :: "accounts \<Rightarrow> string \<Rightarrow> error + (user \<times> string)" where
  "LocalCredential a username =
     (case row_with (\<lambda>r. uw_username r = TrimSpace username \<and> can_sign_in a r) (ac_users a) of
        None \<Rightarrow> Inl ErrNotFound
      | Some r \<Rightarrow> (case row_with (\<lambda>c. cw_user c = uw_id r) (ac_credentials a) of
            None \<Rightarrow> Inl ErrNotFound
          | Some c \<Rightarrow> Inr (to_user r, cw_hash c)))"

definition HasLocalAdministratorCredential :: "accounts \<Rightarrow> bool" where
  "HasLocalAdministratorCredential a = list_ex (\<lambda>r. uw_role r = UserRoleAdmin \<and> can_sign_in a r) (ac_users a)"

definition deleteLocalSessions :: "int \<Rightarrow> accounts \<Rightarrow> accounts" where
  "deleteLocalSessions uid a = a\<lparr>ac_sessions := delete_rows (\<lambda>s. ss_user s = uid) (ac_sessions a)\<rparr>"

definition setLocalCredential :: "int \<Rightarrow> string \<Rightarrow> accounts \<Rightarrow> error + accounts" where
  "setLocalCredential uid hash a =
     (if user_row_of a uid = None then Inl ErrNotFound
      else Inr (deleteLocalSessions uid
        (if HasLocalCredential a uid
         then a\<lparr>ac_credentials := update_rows (\<lambda>c. cw_user c = uid) (\<lambda>c. c\<lparr>cw_hash := hash, cw_enabled := True\<rparr>) (ac_credentials a)\<rparr>
         else a\<lparr>ac_credentials := ac_credentials a @ [\<lparr>cw_user = uid, cw_hash = hash, cw_enabled = True\<rparr>]\<rparr>)))"

definition SetLocalCredential :: "int \<Rightarrow> string \<Rightarrow> accounts \<Rightarrow> error + accounts" where
  "SetLocalCredential uid hash a =
     (if uid \<le> 0 \<or> hash = [] then Inl (NewValidationError ''user_id'' ''A user and password are required.'')
      else setLocalCredential uid hash a)"

definition CreateLocalSession :: "env \<Rightarrow> int \<Rightarrow> string \<Rightarrow> time \<Rightarrow> accounts \<Rightarrow> error + accounts" where
  "CreateLocalSession e uid token expires a =
     (let live_sessions = delete_rows (\<lambda>s. ss_expires s \<le> en_now e) (ac_sessions a) in
      if list_ex (\<lambda>s. ss_token s = token) live_sessions then Inl (InfrastructureError ''local_sessions_pkey'')
      else if user_row_of a uid = None then Inl (InfrastructureError ''local_sessions_user_id_fkey'')
      else Inr (a\<lparr>ac_sessions := live_sessions @ [\<lparr>ss_token = token, ss_user = uid, ss_expires = expires\<rparr>],
                  ac_users := update_rows (\<lambda>r. uw_id r = uid) (\<lambda>r. r\<lparr>uw_last_login := Some (en_now e)\<rparr>) (ac_users a)\<rparr>))"

definition LocalUserBySession :: "env \<Rightarrow> accounts \<Rightarrow> string \<Rightarrow> error + user" where
  "LocalUserBySession e a token =
     (case row_with (\<lambda>s. ss_token s = token \<and> ss_expires s > en_now e) (ac_sessions a) of
        None \<Rightarrow> Inl ErrNotFound
      | Some s \<Rightarrow> (case row_with (\<lambda>r. uw_id r = ss_user s \<and> can_sign_in a r) (ac_users a) of
            None \<Rightarrow> Inl ErrNotFound
          | Some r \<Rightarrow> Inr (to_user r)))"

definition DeleteLocalSession :: "string \<Rightarrow> accounts \<Rightarrow> accounts" where
  "DeleteLocalSession token a = a\<lparr>ac_sessions := delete_rows (\<lambda>s. ss_token s = token) (ac_sessions a)\<rparr>"

definition RevokeUserSessions :: "int \<Rightarrow> accounts \<Rightarrow> error + accounts" where
  "RevokeUserSessions uid a =
     (if user_row_of a uid = None then Inl ErrNotFound
      else Inr (deleteLocalSessions uid
        (a\<lparr>ac_users := update_rows (\<lambda>r. uw_id r = uid) (\<lambda>r. r\<lparr>uw_version := uw_version r + 1\<rparr>) (ac_users a)\<rparr>)))"

section \<open>Changing an account\<close>

text \<open>\<open>mutationError\<close> of the foreign key to the groups.\<close>

definition unknown_group :: error where
  "unknown_group = NewValidationError ''group_ids'' ''One or more selected groups no longer exist.''"

definition add_member :: "int \<Rightarrow> int \<Rightarrow> accounts \<Rightarrow> accounts" where
  "add_member uid gid a = (if (uid, gid) \<in> set (ac_members a) then a else a\<lparr>ac_members := ac_members a @ [(uid, gid)]\<rparr>)"

definition replaceUserGroups :: "int \<Rightarrow> int list \<Rightarrow> accounts \<Rightarrow> error + accounts" where
  "replaceUserGroups uid gids a =
     forR gids (\<lambda>gid a. if gid \<notin> g_id ` set (ac_groups a) then Inl unknown_group else Inr (add_member uid gid a))
       (a\<lparr>ac_members := delete_rows (\<lambda>m. fst m = uid) (ac_members a)\<rparr>)"

definition revertsStoredProviderProfile :: "account_update \<Rightarrow> bool" where
  "revertsStoredProviderProfile u = (au_revert_username u \<or> au_revert_email u \<or> au_revert_display u)"

definition validateStoredProfileOwnership :: "account_update \<Rightarrow> user_profile \<Rightarrow> error + unit" where
  "validateStoredProfileOwnership u p =
     (if pr_source p = ProfileSourceProxy \<and> (au_username u \<noteq> None \<or> au_revert_username u)
      then Inl (NewValidationError ''username'' ''Relink the trusted-proxy identity to change its username.'')
      else if pr_source p = ProfileSourceLocal \<and> revertsStoredProviderProfile u
      then Inl (NewValidationError ''profile'' ''Local profile fields are not provider-managed.'')
      else Inr ())"

definition updated_user_row :: "account_update \<Rightarrow> user_profile \<Rightarrow> user_row \<Rightarrow> user_row" where
  "updated_user_row u p r =
     r\<lparr>uw_username := pr_username p, uw_email := pr_email p, uw_display := pr_display p,
       uw_username_ov := pr_username_overridden p, uw_email_ov := pr_email_overridden p,
       uw_display_ov := pr_display_overridden p, uw_role := au_role u, uw_enabled := au_enabled u,
       uw_version := if uw_enabled r \<and> \<not> au_enabled u then uw_version r + 1 else uw_version r\<rparr>"

definition updateUserAccountRecord :: "env \<Rightarrow> account_update \<Rightarrow> accounts \<Rightarrow> error + accounts" where
  "updateUserAccountRecord e u a =
     bindR (userProfile a (au_user u)) (\<lambda>stored.
     bindR (validateStoredProfileOwnership u stored) (\<lambda>_.
     let p = UpdatedProfile u stored in
     if pr_username p = [] then Inl (NewValidationError ''username'' ''Username is required.'')
     else if \<not> usernameAvailable e a (pr_username p) (au_user u) then Inl ErrAlreadyExists
     else
       let a1 = a\<lparr>ac_users := update_rows (\<lambda>r. uw_id r = au_user u) (updated_user_row u p) (ac_users a)\<rparr>
       in Inr (if au_enabled u then a1 else deleteLocalSessions (au_user u) a1)))"

definition updateUserCredentialState :: "account_update \<Rightarrow> accounts \<Rightarrow> accounts" where
  "updateUserCredentialState u a =
     (case au_local_credential u of
        None \<Rightarrow> a
      | Some on \<Rightarrow>
          let a1 = a\<lparr>ac_credentials := update_rows (\<lambda>c. cw_user c = au_user u) (\<lambda>c. c\<lparr>cw_enabled := on\<rparr>) (ac_credentials a)\<rparr>
          in if on then a1 else deleteLocalSessions (au_user u) a1)"

definition UpdateUserAccount :: "env \<Rightarrow> account_update \<Rightarrow> accounts \<Rightarrow> error + accounts" where
  "UpdateUserAccount e u a =
     (if \<not> ValidUserRole (au_role u) then Inl (NewValidationError ''role'' ''Choose a valid user role.'')
      else
        bindR (updateUserAccountRecord e u a) (\<lambda>a1.
        bindR (replaceUserGroups (au_user u) (au_groups u) (updateUserCredentialState u a1)) (\<lambda>a2.
        if au_password_hash u \<noteq> [] then setLocalCredential (au_user u) (au_password_hash u) a2 else Inr a2)))"

definition store_RelinkTrustedProxyIdentity :: "env \<Rightarrow> int \<Rightarrow> string \<Rightarrow> accounts \<Rightarrow> error + accounts" where
  "store_RelinkTrustedProxyIdentity e uid username a =
     (let username = TrimSpace username in
      if username = [] then Inl (NewValidationError ''trusted_proxy_username'' ''Enter a trusted-proxy username.'')
      else
        bindR (userProfile a uid) (\<lambda>p.
        if pr_source p \<noteq> ProfileSourceProxy \<or> pr_proxy_username p = []
        then Inl (NewValidationError ''trusted_proxy_username'' ''This account has no trusted-proxy identity to relink.'')
        else if \<not> usernameAvailable e a username uid then Inl ErrAlreadyExists
        else if list_ex (\<lambda>x. px_username x = username \<and> px_user x \<noteq> uid) (ac_proxies a) then Inl ErrAlreadyExists
        else
          let old = pr_proxy_username p;
              retired = delete_rows (\<lambda>x. fst x = username) (ac_retired a);
              retired = (if old = username then retired
                         else if old \<in> fst ` set retired
                         then update_rows (\<lambda>x. fst x = old) (\<lambda>x. (fst x, uid)) retired
                         else retired @ [(old, uid)])
          in Inr (a\<lparr>ac_retired := retired,
                    ac_proxies := update_rows (\<lambda>x. px_user x = uid) (\<lambda>x. x\<lparr>px_username := username\<rparr>) (ac_proxies a),
                    ac_users := update_rows (\<lambda>r. uw_id r = uid)
                      (\<lambda>r. r\<lparr>uw_username := username, uw_username_ov := False\<rparr>) (ac_users a)\<rparr>)))"

section \<open>First start and the administrator of the mode without authentication\<close>

definition new_user_row :: "int \<Rightarrow> string \<Rightarrow> string \<Rightarrow> string \<Rightarrow> string \<Rightarrow> string \<Rightarrow> time \<Rightarrow> user_row" where
  "new_user_row uid username email display role source now =
     \<lparr>uw_id = uid, uw_username = username, uw_email = email, uw_display = display, uw_role = role,
      uw_enabled = True, uw_version = 1, uw_oidc_observed = False, uw_oidc_admin = False,
      uw_proxy_observed = False, uw_proxy_admin = False, uw_last_login = Some now, uw_source = source,
      uw_username_ov = False, uw_email_ov = False, uw_display_ov = False\<rparr>"

text \<open>\<open>INSERT INTO users ... RETURNING\<close>; a taken username violates the unique key.\<close>

definition insert_user :: "user_row \<Rightarrow> error \<Rightarrow> accounts \<Rightarrow> error + (user \<times> accounts)" where
  "insert_user r taken a =
     (if list_ex (\<lambda>x. uw_username x = uw_username r) (ac_users a) then Inl taken
      else Inr (to_user r, a\<lparr>ac_users := ac_users a @ [r], ac_next_user := ac_next_user a + 1\<rparr>))"

definition SetupRequired :: "accounts \<Rightarrow> bool" where
  "SetupRequired a = (\<not> ac_setup a)"

definition CreateInitialLocalAdministrator ::
  "env \<Rightarrow> string \<Rightarrow> string \<Rightarrow> string \<Rightarrow> string \<Rightarrow> accounts \<Rightarrow> error + (user \<times> accounts)" where
  "CreateInitialLocalAdministrator e username email display hash a =
     (let username = TrimSpace username; email = TrimSpace email; display = TrimSpace display in
      if username = [] \<or> hash = [] then Inl (NewValidationError ''username'' ''A username and password are required.'')
      else if ac_setup a then Inl ErrAlreadyExists
      else
        bindR (insert_user (new_user_row (ac_next_user a) username email (str_or display username) UserRoleAdmin
            ProfileSourceLocal (en_now e)) (InfrastructureError ''users_username_key'') a) (\<lambda>(u, a1).
        Inr (u, a1\<lparr>ac_credentials := ac_credentials a1 @ [\<lparr>cw_user = u_id u, cw_hash = hash, cw_enabled = True\<rparr>],
                   ac_mode := ''local'', ac_registration := False, ac_setup := True\<rparr>)))"

definition EnsureAdministrator :: "env \<Rightarrow> string \<Rightarrow> string \<Rightarrow> string \<Rightarrow> accounts \<Rightarrow> user \<times> accounts" where
  "EnsureAdministrator e username email display a =
     (let display = str_or display username in
      case row_with (\<lambda>r. uw_username r = username) (ac_users a) of
        Some r \<Rightarrow>
          let f = (\<lambda>r. r\<lparr>uw_email := email, uw_display := display, uw_role := UserRoleAdmin, uw_enabled := True,
                        uw_last_login := Some (en_now e)\<rparr>)
          in (to_user (f r), a\<lparr>ac_users := update_rows (\<lambda>x. uw_username x = username) f (ac_users a)\<rparr>)
      | None \<Rightarrow>
          let r = new_user_row (ac_next_user a) username email display UserRoleAdmin ProfileSourceLocal (en_now e)
          in (to_user r, a\<lparr>ac_users := ac_users a @ [r], ac_next_user := ac_next_user a + 1\<rparr>))"

end
