(* ===== verification/Identities.thy ===== *)
theory Identities
  imports Accounts
begin

text \<open>
  External identities and tokens: trusted-proxy sign-in (\<open>postgres/authentication.go\<close>,
  \<open>application/authentication/trusted_proxy.go\<close>), OpenID sign-in and its administration
  (\<open>postgres/oidc.go\<close>, \<open>oidc_groups.go\<close>) and personal access tokens (\<open>postgres/tokens.go\<close>). An
  OpenID identity is bound to one account, waits in the list of pending identities, or is
  rejected there. A sign-in that is refused still records the identity, so its outcome is a
  result together with the state it leaves.
\<close>

section \<open>Trusted proxy\<close>

definition trustedProxyActivityRefreshInterval :: time where
  "trustedProxyActivityRefreshInterval = 300"

text \<open>
  One statement: both updates read the rows as they were before it. The row of the account is
  written when a field the provider owns changed, when the asserted administrator state changed
  or when the last activity is older than the interval.
\<close>

definition proxy_stale :: "env \<Rightarrow> proxy_row \<Rightarrow> bool" where
  "proxy_stale e x = (px_seen x < en_now e - trustedProxyActivityRefreshInterval)"

definition proxy_identity_changed :: "env \<Rightarrow> string \<Rightarrow> string \<Rightarrow> proxy_row \<Rightarrow> bool" where
  "proxy_identity_changed e email display x = (px_email x \<noteq> email \<or> px_display x \<noteq> display \<or> proxy_stale e x)"

definition proxy_user_changed :: "env \<Rightarrow> string \<Rightarrow> string \<Rightarrow> bool \<Rightarrow> bool \<Rightarrow> proxy_row \<Rightarrow> user_row \<Rightarrow> bool" where
  "proxy_user_changed e email display observed admin x r =
     (\<not> uw_email_ov r \<and> uw_email r \<noteq> email \<or> \<not> uw_display_ov r \<and> uw_display r \<noteq> display \<or>
      uw_source r \<noteq> ProfileSourceProxy \<or>
      observed \<and> (\<not> uw_proxy_observed r \<or> uw_proxy_admin r \<noteq> admin) \<or> proxy_stale e x)"

definition proxy_refreshed :: "env \<Rightarrow> string \<Rightarrow> string \<Rightarrow> bool \<Rightarrow> bool \<Rightarrow> proxy_row \<Rightarrow> user_row \<Rightarrow> user_row" where
  "proxy_refreshed e email display observed admin x r =
     r\<lparr>uw_email := if uw_email_ov r then uw_email r else email,
       uw_display := if uw_display_ov r then uw_display r else display,
       uw_source := ProfileSourceProxy,
       uw_last_login := if uw_enabled r \<and> proxy_stale e x then Some (en_now e) else uw_last_login r,
       uw_proxy_observed := if observed then True else uw_proxy_observed r,
       uw_proxy_admin := if observed then admin else uw_proxy_admin r\<rparr>"

definition refreshTrustedProxyUser ::
  "env \<Rightarrow> string \<Rightarrow> string \<Rightarrow> string \<Rightarrow> bool \<Rightarrow> bool \<Rightarrow> accounts \<Rightarrow> error + (user \<times> accounts)" where
  "refreshTrustedProxyUser e username email display observed admin a =
     (case row_with (\<lambda>x. px_username x = username) (ac_proxies a) of
        None \<Rightarrow> Inl ErrNotFound
      | Some x \<Rightarrow> (case user_row_of a (px_user x) of
            None \<Rightarrow> Inl ErrNotFound
          | Some r \<Rightarrow>
              let r' = (if proxy_user_changed e email display observed admin x r
                        then proxy_refreshed e email display observed admin x r else r)
              in Inr (to_user r',
                a\<lparr>ac_proxies := update_rows (\<lambda>y. px_username y = username \<and> proxy_identity_changed e email display x)
                      (\<lambda>y. y\<lparr>px_email := email, px_display := display, px_seen := en_now e\<rparr>) (ac_proxies a),
                  ac_users := update_rows (\<lambda>y. uw_id y = uw_id r) (\<lambda>_. r') (ac_users a)\<rparr>)))"

definition retired_name :: "accounts \<Rightarrow> string \<Rightarrow> bool" where
  "retired_name a username = list_ex (\<lambda>x. fst x = username) (ac_retired a)"

definition adoptLegacyTrustedProxyUser :: "env \<Rightarrow> string \<Rightarrow> accounts \<Rightarrow> error + (user \<times> accounts)" where
  "adoptLegacyTrustedProxyUser e username a =
     (case row_with (\<lambda>r. uw_username r = username \<and> uw_source r = ProfileSourceLocal \<and> proxy_of a (uw_id r) = None) (ac_users a) of
        None \<Rightarrow> Inl ErrNotFound
      | Some r \<Rightarrow>
          if list_ex (\<lambda>x. px_username x = username) (ac_proxies a)
          then Inl (InfrastructureError ''trusted_proxy_identities_pkey'')
          else Inr (to_user r, a\<lparr>ac_proxies := ac_proxies a @
            [\<lparr>px_username = username, px_user = uw_id r, px_email = uw_email r, px_display = uw_display r, px_seen = en_now e\<rparr>]\<rparr>))"

definition adoptLegacyTrustedProxyIdentity :: "env \<Rightarrow> string \<Rightarrow> accounts \<Rightarrow> error + accounts" where
  "adoptLegacyTrustedProxyIdentity e username a =
     (if retired_name a username then Inl ErrRegistrationDisabled
      else bindR (adoptLegacyTrustedProxyUser e username a) (\<lambda>(_, a1). Inr a1))"

text \<open>The adoption commits before the second attempt to refresh.\<close>

definition RefreshTrustedProxyUser ::
  "env \<Rightarrow> string \<Rightarrow> string \<Rightarrow> string \<Rightarrow> bool \<Rightarrow> bool \<Rightarrow> accounts \<Rightarrow> (error + user) \<times> accounts" where
  "RefreshTrustedProxyUser e username email display observed admin a =
     (let display = str_or display username in
      case refreshTrustedProxyUser e username email display observed admin a of
        Inr (u, a1) \<Rightarrow> (Inr u, a1)
      | Inl er \<Rightarrow>
          if \<not> is_not_found er then (Inl er, a)
          else (case adoptLegacyTrustedProxyIdentity e username a of
              Inl er \<Rightarrow> (Inl er, a)
            | Inr a1 \<Rightarrow> (case refreshTrustedProxyUser e username email display observed admin a1 of
                  Inl er \<Rightarrow> (Inl er, a1)
                | Inr (u, a2) \<Rightarrow> (Inr u, a2))))"

definition CreateTrustedProxyUser ::
  "env \<Rightarrow> string \<Rightarrow> string \<Rightarrow> string \<Rightarrow> bool \<Rightarrow> bool \<Rightarrow> accounts \<Rightarrow> error + (user \<times> accounts)" where
  "CreateTrustedProxyUser e username email display observed admin a =
     (let display = str_or display username in
      if retired_name a username then Inl ErrRegistrationDisabled
      else
        bindR (insert_user ((new_user_row (ac_next_user a) username email display UserRoleViewer ProfileSourceProxy (en_now e))
            \<lparr>uw_proxy_observed := observed, uw_proxy_admin := admin\<rparr>) ErrAlreadyExists a) (\<lambda>(u, a1).
        if list_ex (\<lambda>x. px_username x = username) (ac_proxies a1) then Inl ErrAlreadyExists
        else Inr (u, a1\<lparr>ac_proxies := ac_proxies a1 @
          [\<lparr>px_username = username, px_user = u_id u, px_email = email, px_display = display, px_seen = en_now e\<rparr>]\<rparr>)))"

text \<open>The registration policy of the library is the outcome of its \<open>Enabled\<close>.\<close>

definition TrustedProxy_Login ::
  "(accounts \<Rightarrow> error + bool) \<Rightarrow> env \<Rightarrow> string \<Rightarrow> string \<Rightarrow> string \<Rightarrow> bool \<Rightarrow> bool \<Rightarrow> accounts \<Rightarrow> (error + user) \<times> accounts" where
  "TrustedProxy_Login registration e username email display observed admin a =
     (let username = TrimSpace username; email = TrimSpace email; display = TrimSpace display in
      if username = [] then (Inl (NewValidationError ''identity'' ''The trusted proxy must supply a username.''), a)
      else (case RefreshTrustedProxyUser e username email display observed admin a of
          (Inr u, a1) \<Rightarrow> (Inr u, a1)
        | (Inl er, a1) \<Rightarrow>
            if \<not> is_not_found er then (Inl er, a1)
            else (case registration a1 of
                Inl er \<Rightarrow> (Inl er, a1)
              | Inr False \<Rightarrow> (Inl ErrRegistrationDisabled, a1)
              | Inr True \<Rightarrow> (case CreateTrustedProxyUser e username email display observed admin a1 of
                    Inl er \<Rightarrow> (Inl er, a1)
                  | Inr (u, a2) \<Rightarrow> (Inr u, a2)))))"

section \<open>OpenID identities\<close>

abbreviation "PendingOIDCStatusPending \<equiv> ''pending''"
abbreviation "PendingOIDCStatusRejected \<equiv> ''rejected''"

record oidc_profile =
  op_issuer :: string
  op_subject :: string
  op_username :: string
  op_email :: string
  op_display :: string

definition oidcUserForUpdate :: "accounts \<Rightarrow> string \<Rightarrow> string \<Rightarrow> user_row option" where
  "oidcUserForUpdate a issuer subject =
     (case row_with (\<lambda>i. oi_issuer i = issuer \<and> oi_subject i = subject) (ac_identities a) of
        None \<Rightarrow> None
      | Some i \<Rightarrow> user_row_of a (oi_user i))"

definition OIDCUser :: "accounts \<Rightarrow> string \<Rightarrow> string \<Rightarrow> error + user" where
  "OIDCUser a issuer subject =
     (let issuer = TrimSpace issuer; subject = TrimSpace subject in
      if issuer = [] \<or> subject = [] then Inl ErrNotFound
      else (case oidcUserForUpdate a issuer subject of
          None \<Rightarrow> Inl ErrNotFound
        | Some r \<Rightarrow> if uw_enabled r then Inr ((to_user r)\<lparr>u_external_admin := uw_oidc_admin r\<rparr>) else Inl ErrNotFound))"

definition SetExternalAdminStatus :: "int \<Rightarrow> string \<Rightarrow> bool \<Rightarrow> accounts \<Rightarrow> error + accounts" where
  "SetExternalAdminStatus uid method admin a =
     (if method \<noteq> ''oidc'' \<and> method \<noteq> ''proxy''
      then Inl (NewValidationError ''method'' ''Choose a supported external authentication method.'')
      else if user_row_of a uid = None then Inl ErrNotFound
      else Inr (a\<lparr>ac_users := update_rows (\<lambda>r. uw_id r = uid)
        (\<lambda>r. if method = ''oidc'' then r\<lparr>uw_oidc_observed := True, uw_oidc_admin := admin\<rparr>
             else r\<lparr>uw_proxy_observed := True, uw_proxy_admin := admin\<rparr>) (ac_users a)\<rparr>))"

definition delete_pending :: "(pending_row \<Rightarrow> bool) \<Rightarrow> accounts \<Rightarrow> accounts" where
  "delete_pending P a = a\<lparr>ac_pending := delete_rows P (ac_pending a)\<rparr>"

text \<open>\<open>INSERT ... ON CONFLICT(issuer,subject) DO UPDATE\<close>; a rejection also sets the status.\<close>

definition upsert_pending :: "env \<Rightarrow> string option \<Rightarrow> oidc_profile \<Rightarrow> accounts \<Rightarrow> accounts" where
  "upsert_pending e status p a =
     (if list_ex (\<lambda>d. pd_issuer d = op_issuer p \<and> pd_subject d = op_subject p) (ac_pending a)
      then a\<lparr>ac_pending := update_rows (\<lambda>d. pd_issuer d = op_issuer p \<and> pd_subject d = op_subject p)
        (\<lambda>d. d\<lparr>pd_username := op_username p, pd_email := op_email p, pd_display := op_display p,
               pd_status := (case status of None \<Rightarrow> pd_status d | Some s \<Rightarrow> s), pd_seen := en_now e\<rparr>) (ac_pending a)\<rparr>
      else a\<lparr>ac_pending := ac_pending a @ [\<lparr>pd_id = ac_next_pending a, pd_issuer = op_issuer p, pd_subject = op_subject p,
          pd_username = op_username p, pd_email = op_email p, pd_display = op_display p,
          pd_status = (case status of None \<Rightarrow> PendingOIDCStatusPending | Some s \<Rightarrow> s),
          pd_first = en_now e, pd_seen = en_now e\<rparr>], ac_next_pending := ac_next_pending a + 1\<rparr>)"

definition upsertPendingOIDCIdentity :: "env \<Rightarrow> oidc_profile \<Rightarrow> accounts \<Rightarrow> accounts" where
  "upsertPendingOIDCIdentity e p a = upsert_pending e None p a"

definition rejectOIDCIdentity :: "env \<Rightarrow> oidc_profile \<Rightarrow> accounts \<Rightarrow> accounts" where
  "rejectOIDCIdentity e p a = upsert_pending e (Some PendingOIDCStatusRejected) p a"

definition pendingOIDCStatusForUpdate :: "accounts \<Rightarrow> string \<Rightarrow> string \<Rightarrow> string" where
  "pendingOIDCStatusForUpdate a issuer subject =
     (case row_with (\<lambda>d. pd_issuer d = issuer \<and> pd_subject d = subject) (ac_pending a) of None \<Rightarrow> [] | Some d \<Rightarrow> pd_status d)"

definition pendingOIDCIdentityForUpdate :: "accounts \<Rightarrow> int \<Rightarrow> error + pending_row" where
  "pendingOIDCIdentityForUpdate a pid =
     (case row_with (\<lambda>d. pd_id d = pid) (ac_pending a) of None \<Rightarrow> Inl ErrNotFound | Some d \<Rightarrow> Inr d)"

definition refreshed_identity :: "env \<Rightarrow> oidc_profile \<Rightarrow> oidc_row \<Rightarrow> oidc_row" where
  "refreshed_identity e p i = i\<lparr>oi_username := op_username p, oi_email := op_email p, oi_display := op_display p, oi_seen := en_now e\<rparr>"

definition oidc_refreshed :: "env \<Rightarrow> oidc_profile \<Rightarrow> user_row \<Rightarrow> user_row" where
  "oidc_refreshed e p r =
     r\<lparr>uw_username := if uw_username_ov r then uw_username r else op_username p,
       uw_email := if uw_email_ov r then uw_email r else op_email p,
       uw_display := if uw_display_ov r then uw_display r else op_display p,
       uw_source := ProfileSourceOIDC,
       uw_last_login := if uw_enabled r then Some (en_now e) else uw_last_login r\<rparr>"

definition refreshOIDCLogin :: "env \<Rightarrow> user_row \<Rightarrow> oidc_profile \<Rightarrow> accounts \<Rightarrow> error + (user \<times> accounts)" where
  "refreshOIDCLogin e r p a =
     bindR (userProfile a (uw_id r)) (\<lambda>stored.
     if \<not> pr_username_overridden stored \<and> \<not> usernameAvailable e a (op_username p) (uw_id r) then Inl ErrAlreadyExists
     else
       let mine = (\<lambda>i. oi_issuer i = op_issuer p \<and> oi_subject i = op_subject p \<and> oi_user i = uw_id r) in
       if \<not> list_ex mine (ac_identities a) then Inl ErrNotFound
       else Inr (to_user (oidc_refreshed e p r),
         a\<lparr>ac_identities := update_rows mine (refreshed_identity e p) (ac_identities a),
           ac_users := update_rows (\<lambda>x. uw_id x = uw_id r) (oidc_refreshed e p) (ac_users a)\<rparr>))"

definition completeOIDCLogin :: "oidc_profile \<Rightarrow> accounts \<Rightarrow> accounts" where
  "completeOIDCLogin p a = delete_pending (\<lambda>d. pd_issuer d = op_issuer p \<and> pd_subject d = op_subject p) a"

definition insert_identity :: "oidc_row \<Rightarrow> accounts \<Rightarrow> error + accounts" where
  "insert_identity i a =
     (if list_ex (\<lambda>x. oi_issuer x = oi_issuer i \<and> oi_subject x = oi_subject i) (ac_identities a)
      then Inl (InfrastructureError ''oidc_identities_pkey'')
      else if list_ex (\<lambda>x. oi_user x = oi_user i \<and> oi_issuer x = oi_issuer i) (ac_identities a)
      then Inl (InfrastructureError ''oidc_identities_user_id_issuer_key'')
      else Inr (a\<lparr>ac_identities := ac_identities a @ [i]\<rparr>))"

definition new_identity :: "env \<Rightarrow> oidc_profile \<Rightarrow> int \<Rightarrow> oidc_row" where
  "new_identity e p uid = \<lparr>oi_issuer = op_issuer p, oi_subject = op_subject p, oi_user = uid,
     oi_username = op_username p, oi_email = op_email p, oi_display = op_display p, oi_seen = en_now e, oi_created = en_now e\<rparr>"

definition createOIDCUser :: "env \<Rightarrow> oidc_profile \<Rightarrow> accounts \<Rightarrow> error + (user \<times> accounts)" where
  "createOIDCUser e p a =
     (let username = TrimSpace (op_username p); p = p\<lparr>op_username := username\<rparr> in
      if username = [] then Inl (NewValidationError ''username'' ''The identity provider must supply a username.'')
      else if \<not> usernameAvailable e a username 0 then Inl ErrAlreadyExists
      else
        bindR (insert_user (new_user_row (ac_next_user a) username (op_email p) (op_display p) UserRoleViewer
            ProfileSourceOIDC (en_now e)) (InfrastructureError ''users_username_key'') a) (\<lambda>(u, a1).
        bindR (insert_identity (new_identity e p (u_id u)) a1) (\<lambda>a2. Inr (u, a2))))"

text \<open>Committing with an error: the recorded outcome of an identity that may not sign in.\<close>

definition recordPendingOIDCOutcome :: "env \<Rightarrow> oidc_profile \<Rightarrow> error \<Rightarrow> accounts \<Rightarrow> (error + user) \<times> accounts" where
  "recordPendingOIDCOutcome e p er a = (Inl er, upsertPendingOIDCIdentity e p a)"

definition ResolveOIDCLogin :: "env \<Rightarrow> oidc_profile \<Rightarrow> bool \<Rightarrow> accounts \<Rightarrow> (error + user) \<times> accounts" where
  "ResolveOIDCLogin e p registration a =
     (case oidcUserForUpdate a (op_issuer p) (op_subject p) of
        Some r \<Rightarrow> (case refreshOIDCLogin e r p a of
            Inl er \<Rightarrow> (Inl er, a)
          | Inr (u, a1) \<Rightarrow> (Inr u, completeOIDCLogin p a1))
      | None \<Rightarrow>
          if pendingOIDCStatusForUpdate a (op_issuer p) (op_subject p) = PendingOIDCStatusRejected
          then recordPendingOIDCOutcome e p ErrIdentityRejected a
          else if \<not> registration then recordPendingOIDCOutcome e p ErrIdentityApprovalRequired a
          else (case createOIDCUser e p a of
              Inl er \<Rightarrow> (Inl er, a)
            | Inr (u, a1) \<Rightarrow> (Inr u, completeOIDCLogin p a1)))"

section \<open>Administration of OpenID identities\<close>

definition ensureOIDCIdentityUnbound :: "accounts \<Rightarrow> string \<Rightarrow> string \<Rightarrow> error + unit" where
  "ensureOIDCIdentityUnbound a issuer subject =
     (if oidcUserForUpdate a issuer subject = None then Inr () else Inl ErrAlreadyExists)"

definition pending_profile :: "pending_row \<Rightarrow> oidc_profile" where
  "pending_profile d = \<lparr>op_issuer = pd_issuer d, op_subject = pd_subject d, op_username = pd_username d,
     op_email = pd_email d, op_display = pd_display d\<rparr>"

definition ApprovePendingOIDCIdentity :: "env \<Rightarrow> int \<Rightarrow> accounts \<Rightarrow> error + (user \<times> accounts)" where
  "ApprovePendingOIDCIdentity e pid a =
     bindR (pendingOIDCIdentityForUpdate a pid) (\<lambda>d.
     requireR (pd_status d = PendingOIDCStatusPending) ErrForbidden
       (bindR (ensureOIDCIdentityUnbound a (pd_issuer d) (pd_subject d)) (\<lambda>_.
        bindR (createOIDCUser e (pending_profile d) a) (\<lambda>(u, a1).
        Inr (u, delete_pending (\<lambda>x. pd_id x = pid) a1)))))"

definition oidcUserProfileForUpdate :: "accounts \<Rightarrow> int \<Rightarrow> error + user_row" where
  "oidcUserProfileForUpdate a uid = (case user_row_of a uid of None \<Rightarrow> Inl ErrNotFound | Some r \<Rightarrow> Inr r)"

definition row_profile :: "string \<Rightarrow> string \<Rightarrow> user_row \<Rightarrow> oidc_profile" where
  "row_profile issuer subject r = \<lparr>op_issuer = issuer, op_subject = subject, op_username = uw_username r,
     op_email = uw_email r, op_display = uw_display r\<rparr>"

definition linked_row :: "pending_row \<Rightarrow> user_row \<Rightarrow> user_row" where
  "linked_row d r = r\<lparr>uw_source := ProfileSourceOIDC, uw_username_ov := (uw_username r \<noteq> pd_username d),
     uw_email_ov := (uw_email r \<noteq> pd_email d), uw_display_ov := (uw_display r \<noteq> pd_display d)\<rparr>"

text \<open>An account has at most one identity per issuer, so the deletion returns at most one subject.\<close>

definition replaceOIDCIdentityBinding :: "env \<Rightarrow> user_row \<Rightarrow> pending_row \<Rightarrow> accounts \<Rightarrow> error + accounts" where
  "replaceOIDCIdentityBinding e r d a =
     (let mine = (\<lambda>i. oi_user i = uw_id r \<and> oi_issuer i = pd_issuer d);
          previous = (case row_with mine (ac_identities a) of None \<Rightarrow> [] | Some i \<Rightarrow> oi_subject i);
          a1 = a\<lparr>ac_identities := delete_rows mine (ac_identities a)\<rparr>;
          a2 = (if previous \<noteq> [] \<and> previous \<noteq> pd_subject d
                then rejectOIDCIdentity e (row_profile (pd_issuer d) previous r) a1 else a1)
      in bindR (insert_identity (new_identity e (pending_profile d) (uw_id r)) a2) (\<lambda>a3.
         Inr (a3\<lparr>ac_users := update_rows (\<lambda>x. uw_id x = uw_id r) (linked_row d) (ac_users a3)\<rparr>)))"

text \<open>The returned account has the columns that the locking query reads.\<close>

definition LinkPendingOIDCIdentity :: "env \<Rightarrow> int \<Rightarrow> int \<Rightarrow> accounts \<Rightarrow> error + (user \<times> accounts)" where
  "LinkPendingOIDCIdentity e pid uid a =
     bindR (pendingOIDCIdentityForUpdate a pid) (\<lambda>d.
     requireR (pd_status d = PendingOIDCStatusPending) ErrForbidden
       (bindR (ensureOIDCIdentityUnbound a (pd_issuer d) (pd_subject d)) (\<lambda>_.
        bindR (oidcUserProfileForUpdate a uid) (\<lambda>r.
        bindR (replaceOIDCIdentityBinding e r d a) (\<lambda>a1.
        Inr ((to_user r)\<lparr>u_enabled := False, u_session_version := 0\<rparr>, delete_pending (\<lambda>x. pd_id x = pid) a1))))))"

definition RemoveOIDCIdentity :: "env \<Rightarrow> int \<Rightarrow> string \<Rightarrow> string \<Rightarrow> accounts \<Rightarrow> error + accounts" where
  "RemoveOIDCIdentity e uid issuer subject a =
     (let issuer = TrimSpace issuer; subject = TrimSpace subject;
          mine = (\<lambda>i. oi_user i = uid \<and> oi_issuer i = issuer \<and> oi_subject i = subject) in
      bindR (oidcUserProfileForUpdate a uid) (\<lambda>r.
      if \<not> list_ex mine (ac_identities a) then Inl ErrNotFound
      else Inr (rejectOIDCIdentity e (row_profile issuer subject r) (a\<lparr>ac_identities := delete_rows mine (ac_identities a)\<rparr>))))"

definition SetPendingOIDCIdentityRejected :: "int \<Rightarrow> bool \<Rightarrow> accounts \<Rightarrow> error + accounts" where
  "SetPendingOIDCIdentityRejected pid rejected a =
     (if \<not> list_ex (\<lambda>d. pd_id d = pid) (ac_pending a) then Inl ErrNotFound
      else Inr (a\<lparr>ac_pending := update_rows (\<lambda>d. pd_id d = pid)
        (\<lambda>d. d\<lparr>pd_status := if rejected then PendingOIDCStatusRejected else PendingOIDCStatusPending\<rparr>) (ac_pending a)\<rparr>))"

section \<open>Groups asserted by the provider\<close>

text \<open>The plan is two sets. The code visits them in the order of a Go map, which is not determined; the
  model takes the order of the mappings.\<close>

record membership_plan =
  mp_managed :: "int list"
  mp_desired :: "int list"

definition buildOIDCGroupMembershipPlan :: "string list \<Rightarrow> (string \<times> int) list \<Rightarrow> membership_plan" where
  "buildOIDCGroupMembershipPlan claims mappings =
     (let claimed = filter (\<lambda>g. g \<noteq> []) (map TrimSpace claims); valid = filter (\<lambda>m. snd m > 0) mappings in
      \<lparr>mp_managed = remdups (map snd valid),
       mp_desired = remdups (map snd (filter (\<lambda>m. TrimSpace (fst m) \<in> set claimed) valid))\<rparr>)"

definition applyOIDCGroupMembershipPlan :: "int \<Rightarrow> membership_plan \<Rightarrow> bool \<Rightarrow> accounts \<Rightarrow> error + accounts" where
  "applyOIDCGroupMembershipPlan uid plan authoritative a =
     (let a1 = (if authoritative
          then fold (\<lambda>g a. if g \<in> set (mp_desired plan) then a
                           else a\<lparr>ac_members := delete_rows (\<lambda>m. m = (uid, g)) (ac_members a)\<rparr>) (mp_managed plan) a
          else a)
      in forR (mp_desired plan) (\<lambda>g a.
           if g \<notin> g_id ` set (ac_groups a) then Inl (InfrastructureError ''user_groups_group_id_fkey'')
           else if user_row_of a uid = None then Inl (InfrastructureError ''user_groups_user_id_fkey'')
           else Inr (add_member uid g a)) a1)"

definition SyncOIDCGroups :: "int \<Rightarrow> string list \<Rightarrow> (string \<times> int) list \<Rightarrow> bool \<Rightarrow> accounts \<Rightarrow> error + accounts" where
  "SyncOIDCGroups uid claims mappings authoritative a =
     applyOIDCGroupMembershipPlan uid (buildOIDCGroupMembershipPlan claims mappings) authoritative a"

section \<open>Personal access tokens\<close>

record api_token =
  at_id :: int
  at_name :: string
  at_user :: int
  at_username :: string
  at_created_by :: int
  at_creator :: string
  at_created :: time
  at_expires :: "time option"

text \<open>The secret is random and its hash is SHA-256: both are arguments.\<close>

definition CreateToken ::
  "(string \<Rightarrow> string) \<Rightarrow> string \<Rightarrow> env \<Rightarrow> string \<Rightarrow> int \<Rightarrow> int \<Rightarrow> time option \<Rightarrow> accounts \<Rightarrow> error + (api_token \<times> string \<times> accounts)" where
  "CreateToken sha random e name uid creator expires a =
     (let name = TrimSpace name; secret = ''kumbuka_pat_'' @ random in
      if name = [] then Inl (NewValidationError ''name'' ''A token name is required.'')
      else
        bindR (User a uid) (\<lambda>u.
        bindR (User a creator) (\<lambda>c.
        if list_ex (\<lambda>t. tk_hash t = sha secret) (ac_tokens a) then Inl (InfrastructureError ''api_tokens_token_hash_key'')
        else Inr (\<lparr>at_id = ac_next_token a, at_name = name, at_user = uid, at_username = u_username u, at_created_by = creator,
                   at_creator = str_or (u_display c) (u_username c), at_created = en_now e, at_expires = expires\<rparr>, secret,
          a\<lparr>ac_tokens := ac_tokens a @ [\<lparr>tk_id = ac_next_token a, tk_name = name, tk_hash = sha secret, tk_user = Some uid,
              tk_created_by = Some creator, tk_created = en_now e, tk_last_used = None, tk_expires = expires\<rparr>],
            ac_next_token := ac_next_token a + 1\<rparr>))))"

text \<open>\<open>coalesce(t.user_id,t.created_by)\<close>.\<close>

definition token_owner :: "token_row \<Rightarrow> int option" where
  "token_owner t = (case tk_user t of Some u \<Rightarrow> Some u | None \<Rightarrow> tk_created_by t)"

definition token_valid :: "env \<Rightarrow> accounts \<Rightarrow> string \<Rightarrow> token_row \<Rightarrow> bool" where
  "token_valid e a hash t =
     (tk_hash t = hash \<and> list_ex (\<lambda>r. token_owner t = Some (uw_id r) \<and> uw_enabled r) (ac_users a) \<and>
      (case tk_expires t of None \<Rightarrow> True | Some x \<Rightarrow> x > en_now e))"

definition UserByToken :: "(string \<Rightarrow> string) \<Rightarrow> env \<Rightarrow> string \<Rightarrow> accounts \<Rightarrow> error + (user \<times> accounts)" where
  "UserByToken sha e token a =
     (case row_with (token_valid e a (sha token)) (ac_tokens a) of
        None \<Rightarrow> Inl ErrNotFound
      | Some t \<Rightarrow> (case row_with (\<lambda>r. token_owner t = Some (uw_id r) \<and> uw_enabled r) (ac_users a) of
            None \<Rightarrow> Inl ErrNotFound
          | Some r \<Rightarrow> Inr (to_user r,
              a\<lparr>ac_tokens := update_rows (token_valid e a (sha token)) (\<lambda>t. t\<lparr>tk_last_used := Some (en_now e)\<rparr>) (ac_tokens a)\<rparr>)))"

definition DeleteUserToken :: "int \<Rightarrow> int \<Rightarrow> accounts \<Rightarrow> error + accounts" where
  "DeleteUserToken tid uid a =
     (let P = (\<lambda>t. tk_id t = tid \<and> token_owner t = Some uid) in
      if list_ex P (ac_tokens a) then Inr (a\<lparr>ac_tokens := delete_rows P (ac_tokens a)\<rparr>) else Inl ErrNotFound)"

definition DeleteToken :: "int \<Rightarrow> accounts \<Rightarrow> error + accounts" where
  "DeleteToken tid a =
     (if list_ex (\<lambda>t. tk_id t = tid) (ac_tokens a) then Inr (a\<lparr>ac_tokens := delete_rows (\<lambda>t. tk_id t = tid) (ac_tokens a)\<rparr>)
      else Inl ErrNotFound)"

end
