(* ===== verification/AccountAdmin.thy ===== *)
theory AccountAdmin
  imports Identities Reviews
begin

text \<open>
  The account administration use cases (\<open>application/users/users.go\<close>, \<open>user_update.go\<close>): an
  administrator changes a role, the enabled flag, profile fields, memberships and the local
  recovery credential in one operation, relinks proxy identities, revokes sessions and decides
  on pending identities. The address parser, the password service and the persisted
  authentication mode are arguments.
\<close>

section \<open>Changing an account\<close>

record user_update_input =
  ui_user :: int
  ui_actor :: user
  ui_username :: "string option"
  ui_email :: "string option"
  ui_display :: "string option"
  ui_revert_username :: bool
  ui_revert_email :: bool
  ui_revert_display :: bool
  ui_role :: string
  ui_enabled :: bool
  ui_groups :: "int list"
  ui_password :: string
  ui_update_credential :: bool
  ui_credential_enabled :: bool
  ui_mode_override :: string

text \<open>The service: \<open>mail.ParseAddress\<close>, the password service if there is one, and its hash.\<close>

record users_service =
  us_parse_address :: "string \<Rightarrow> string option"
  us_passwords :: "((string \<Rightarrow> string) \<times> (string \<Rightarrow> error + string)) option"

definition changesProfile :: "user_update_input \<Rightarrow> bool" where
  "changesProfile i = (ui_username i \<noteq> None \<or> ui_email i \<noteq> None \<or> ui_display i \<noteq> None \<or>
     ui_revert_username i \<or> ui_revert_email i \<or> ui_revert_display i)"

definition validateAccountUpdate :: "user_update_input \<Rightarrow> error + unit" where
  "validateAccountUpdate i =
     (if \<not> IsAdministrator (ui_actor i) then Inl ErrForbidden
      else if ui_user i \<le> 0 then Inl (NewValidationError ''user_id'' ''Choose a valid user.'')
      else if \<not> ValidUserRole (ui_role i) then Inl (NewValidationError ''role'' ''Choose a valid user role.'')
      else if ui_user i = u_id (ui_actor i) \<and> ui_role i \<noteq> UserRoleAdmin
      then Inl (NewValidationError ''role'' ''You cannot remove your own administrator role.'')
      else if ui_user i = u_id (ui_actor i) \<and> \<not> ui_enabled i
      then Inl (NewValidationError ''account_enabled'' ''You cannot disable your own account.'')
      else if list_ex (\<lambda>g. g \<le> 0) (ui_groups i) then Inl (NewValidationError ''group_id'' ''Choose a valid group.'')
      else Inr ())"

definition revertsProviderProfile :: "user_update_input \<Rightarrow> bool" where
  "revertsProviderProfile i = (ui_revert_username i \<or> ui_revert_email i \<or> ui_revert_display i)"

definition validateProfileUpdateOwnership :: "user_update_input \<Rightarrow> user_profile \<Rightarrow> error + unit" where
  "validateProfileUpdateOwnership i p =
     (if pr_source p = ProfileSourceProxy \<and> (ui_username i \<noteq> None \<or> ui_revert_username i)
      then Inl (NewValidationError ''username'' ''Use the trusted-proxy relink action to change this identity.'')
      else if pr_source p = ProfileSourceLocal \<and> revertsProviderProfile i
      then Inl (NewValidationError ''profile'' ''Local profile fields are not provider-managed.'')
      else Inr ())"

definition prepareUsernameUpdate :: "user_update_input \<Rightarrow> user_profile \<Rightarrow> account_update \<Rightarrow> error + account_update" where
  "prepareUsernameUpdate i p u =
     (case ui_username i of
        None \<Rightarrow> Inr u
      | Some v \<Rightarrow>
          if ui_revert_username i then Inr u
          else let username = TrimSpace v in
            if username = [] then Inl (NewValidationError ''username'' ''Username is required.'')
            else if length (runes username) > 128 then Inl (NewValidationError ''username'' ''Use at most 128 characters.'')
            else Inr (if username \<noteq> pr_username p then u\<lparr>au_username := Some username\<rparr> else u))"

definition validAccountEmail :: "users_service \<Rightarrow> string \<Rightarrow> bool" where
  "validAccountEmail svc v = (us_parse_address svc v = Some v)"

definition prepareEmailUpdate :: "users_service \<Rightarrow> user_update_input \<Rightarrow> user_profile \<Rightarrow> account_update \<Rightarrow> error + account_update" where
  "prepareEmailUpdate svc i p u =
     (case ui_email i of
        None \<Rightarrow> Inr u
      | Some v \<Rightarrow>
          if ui_revert_email i then Inr u
          else let email = TrimSpace v in
            if email \<noteq> [] \<and> \<not> validAccountEmail svc email then Inl (NewValidationError ''email'' ''Enter a valid email address.'')
            else Inr (if email \<noteq> pr_email p then u\<lparr>au_email := Some email\<rparr> else u))"

definition prepareDisplayNameUpdate :: "user_update_input \<Rightarrow> user_profile \<Rightarrow> account_update \<Rightarrow> account_update" where
  "prepareDisplayNameUpdate i p u =
     (case ui_display i of
        None \<Rightarrow> u
      | Some v \<Rightarrow>
          if ui_revert_display i then u
          else let display = TrimSpace v;
                   display = (if display = [] then (case au_username u of None \<Rightarrow> pr_username p | Some n \<Rightarrow> n) else display) in
            if display \<noteq> pr_display p then u\<lparr>au_display := Some display\<rparr> else u)"

definition prepareProfileUpdate ::
  "users_service \<Rightarrow> user_update_input \<Rightarrow> user_profile \<Rightarrow> account_update \<Rightarrow> error + account_update" where
  "prepareProfileUpdate svc i p u =
     (if \<not> changesProfile i then Inr u
      else
        bindR (validateProfileUpdateOwnership i p) (\<lambda>_.
        bindR (prepareUsernameUpdate i p u) (\<lambda>u.
        bindR (prepareEmailUpdate svc i p u) (\<lambda>u.
        Inr ((prepareDisplayNameUpdate i p u)\<lparr>au_revert_username := ui_revert_username i,
          au_revert_email := ui_revert_email i, au_revert_display := ui_revert_display i\<rparr>)))))"

definition isExternalAuthenticationMode :: "string \<Rightarrow> bool" where
  "isExternalAuthenticationMode mode = (mode = ''oidc'' \<or> mode = ''proxy'')"

definition accountAuthenticationMode :: "accounts \<Rightarrow> string \<Rightarrow> string" where
  "accountAuthenticationMode a override = (if override \<noteq> [] then override else ac_mode a)"

definition prepareLocalCredentialUpdate :: "accounts \<Rightarrow> user_update_input \<Rightarrow> account_update \<Rightarrow> error + account_update" where
  "prepareLocalCredentialUpdate a i u =
     (if \<not> ui_update_credential i then Inr u
      else if \<not> isExternalAuthenticationMode (accountAuthenticationMode a (ui_mode_override i))
      then Inl (NewValidationError ''local_credential_enabled''
        ''Local recovery credentials can only be enabled or disabled while external authentication is active.'')
      else Inr (u\<lparr>au_local_credential := Some (ui_password i \<noteq> [] \<or> ui_credential_enabled i)\<rparr>))"

definition preparePasswordUpdate :: "users_service \<Rightarrow> string \<Rightarrow> account_update \<Rightarrow> error + account_update" where
  "preparePasswordUpdate svc password u =
     (if password = [] then Inr u
      else (case us_passwords svc of
          None \<Rightarrow> Inl (InfrastructureError ''hash account password: password service is not configured'')
        | Some (problem, hash) \<Rightarrow>
            if problem password \<noteq> [] then Inl (NewValidationError ''local_password'' (problem password))
            else bindR (hash password) (\<lambda>h. Inr (u\<lparr>au_password_hash := h\<rparr>))))"

text \<open>One audit record per profile field that changed hands or got a local value.\<close>

definition profile_audit :: "int \<Rightarrow> user_profile \<Rightarrow> string \<times> string option \<times> bool \<Rightarrow> effect list" where
  "profile_audit actor p field =
     (case field of (name, v, reverted) \<Rightarrow>
        if reverted then [Audit actor ''user.profile_override_reverted'' ''user'' (show_int (pr_user p)) (''Restored provider-managed '' @ name)]
        else if v \<noteq> None \<and> pr_source p \<noteq> ProfileSourceLocal
        then [Audit actor ''user.profile_overridden'' ''user'' (show_int (pr_user p)) (''Locally overrode provider-managed '' @ name)]
        else if v = None then []
        else [Audit actor ''user.profile_updated'' ''user'' (show_int (pr_user p)) (''Updated local '' @ name)])"

definition recordProfileAudit :: "int \<Rightarrow> user_profile \<Rightarrow> account_update \<Rightarrow> effect list" where
  "recordProfileAudit actor p u = concat (map (profile_audit actor p)
     [(''username'', au_username u, au_revert_username u), (''email'', au_email u, au_revert_email u),
      (''display name'', au_display u, au_revert_display u)])"

definition initial_update :: "user_update_input \<Rightarrow> account_update" where
  "initial_update i = \<lparr>au_user = ui_user i, au_username = None, au_email = None, au_display = None,
     au_revert_username = False, au_revert_email = False, au_revert_display = False, au_role = ui_role i,
     au_enabled = ui_enabled i, au_groups = ui_groups i, au_local_credential = None, au_password_hash = []\<rparr>"

text \<open>\<open>fmt.Errorf\<close> with \<open>%w\<close> keeps the error that the callers match on.\<close>

definition UpdateAccount :: "users_service \<Rightarrow> env \<Rightarrow> user_update_input \<Rightarrow> accounts \<Rightarrow> error + (accounts \<times> effect list)" where
  "UpdateAccount svc e i a =
     bindR (validateAccountUpdate i) (\<lambda>_.
     bindR (if changesProfile i then map_sum id Some (userProfile a (ui_user i)) else Inr None) (\<lambda>profile.
     bindR (case profile of None \<Rightarrow> Inr (initial_update i) | Some p \<Rightarrow> prepareProfileUpdate svc i p (initial_update i)) (\<lambda>u.
     bindR (prepareLocalCredentialUpdate a i u) (\<lambda>u.
     bindR (preparePasswordUpdate svc (ui_password i) u) (\<lambda>u.
     bindR (UpdateUserAccount e u a) (\<lambda>a1.
     Inr (a1, (case profile of None \<Rightarrow> [] | Some p \<Rightarrow> recordProfileAudit (u_id (ui_actor i)) p u))))))))"

definition UpdateUser ::
  "env \<Rightarrow> int \<Rightarrow> string \<Rightarrow> bool \<Rightarrow> int list \<Rightarrow> bool option \<Rightarrow> accounts \<Rightarrow> error + accounts" where
  "UpdateUser e uid role enabled gids credential a =
     (if \<not> ValidUserRole role then Inl (NewValidationError ''role'' ''Choose a valid user role.'')
      else UpdateUserAccount e \<lparr>au_user = uid, au_username = None, au_email = None, au_display = None,
        au_revert_username = False, au_revert_email = False, au_revert_display = False, au_role = role,
        au_enabled = enabled, au_groups = gids, au_local_credential = credential, au_password_hash = []\<rparr> a)"

section \<open>Identities, sessions and mentions\<close>

definition RelinkTrustedProxyIdentity :: "env \<Rightarrow> int \<Rightarrow> string \<Rightarrow> user \<Rightarrow> accounts \<Rightarrow> error + (accounts \<times> effect list)" where
  "RelinkTrustedProxyIdentity e uid username actor a =
     (if \<not> IsAdministrator actor then Inl ErrForbidden
      else let username = TrimSpace username in
        if uid \<le> 0 \<or> username = [] then Inl (NewValidationError ''trusted_proxy_username'' ''Enter a trusted-proxy username.'')
        else if length (runes username) > 128 then Inl (NewValidationError ''trusted_proxy_username'' ''Use at most 128 characters.'')
        else
          bindR (userProfile a uid) (\<lambda>p.
          if pr_source p = ProfileSourceProxy \<and> pr_proxy_username p = username then Inr (a, [])
          else bindR (store_RelinkTrustedProxyIdentity e uid username a) (\<lambda>a1.
            Inr (a1, [Audit (u_id actor) ''identity.trusted_proxy_relinked'' ''user'' (show_int uid)
              (''Relinked trusted-proxy identity to '' @ username)]))))"

definition app_RevokeUserSessions :: "int \<Rightarrow> int \<Rightarrow> accounts \<Rightarrow> error + (accounts \<times> effect list)" where
  "app_RevokeUserSessions uid actor a =
     bindR (RevokeUserSessions uid a) (\<lambda>a1.
     Inr (a1, [Audit actor ''user.sessions_revoked'' ''user'' (show_int uid) ''Revoked browser sessions'']))"

definition app_ApprovePendingOIDCIdentity :: "env \<Rightarrow> int \<Rightarrow> int \<Rightarrow> accounts \<Rightarrow> error + (user \<times> accounts \<times> effect list)" where
  "app_ApprovePendingOIDCIdentity e pid actor a =
     bindR (ApprovePendingOIDCIdentity e pid a) (\<lambda>(u, a1).
     Inr (u, a1, [Audit actor ''identity.oidc_approved'' ''user'' (show_int (u_id u)) ''Created user from pending OIDC identity'']))"

definition app_LinkPendingOIDCIdentity :: "env \<Rightarrow> int \<Rightarrow> int \<Rightarrow> int \<Rightarrow> accounts \<Rightarrow> error + (user \<times> accounts \<times> effect list)" where
  "app_LinkPendingOIDCIdentity e pid uid actor a =
     bindR (LinkPendingOIDCIdentity e pid uid a) (\<lambda>(u, a1).
     Inr (u, a1, [Audit actor ''identity.oidc_linked'' ''user'' (show_int (u_id u)) (''Replaced OIDC identity binding for '' @ u_username u)]))"

definition app_SetPendingOIDCIdentityRejected :: "int \<Rightarrow> bool \<Rightarrow> int \<Rightarrow> accounts \<Rightarrow> error + (accounts \<times> effect list)" where
  "app_SetPendingOIDCIdentityRejected pid rejected actor a =
     bindR (SetPendingOIDCIdentityRejected pid rejected a) (\<lambda>a1.
     Inr (a1, [Audit actor (if rejected then ''identity.oidc_rejected'' else ''identity.oidc_reopened'') ''oidc_identity'' (show_int pid)
       (if rejected then ''Rejected pending OIDC identity'' else ''Reopened pending OIDC identity'')]))"

definition app_RemoveOIDCIdentity :: "env \<Rightarrow> int \<Rightarrow> string \<Rightarrow> string \<Rightarrow> int \<Rightarrow> accounts \<Rightarrow> error + (accounts \<times> effect list)" where
  "app_RemoveOIDCIdentity e uid issuer subject actor a =
     bindR (RemoveOIDCIdentity e uid issuer subject a) (\<lambda>a1.
     Inr (a1, [Audit actor ''identity.oidc_removed'' ''user'' (show_int uid) ''Disconnected OIDC identity'']))"

definition mentionUsername :: "string \<Rightarrow> string option" where
  "mentionUsername v =
     (let v = TrimSpace v in
      if HasPrefix v ''@'' \<and> drop 1 v \<noteq> [] \<and> length (drop 1 v) \<le> 128 \<and> \<not> Contains (drop 1 v) ''@'' then Some (drop 1 v) else None)"

definition ResolveMention :: "env \<Rightarrow> string \<Rightarrow> accounts \<Rightarrow> error + user" where
  "ResolveMention e mention a =
     (case mentionUsername mention of
        None \<Rightarrow> Inl (NewValidationError ''mention'' ''Use an @-prefixed Kumbuka username.'')
      | Some username \<Rightarrow>
          bindR (UserByUsername e a username) (\<lambda>u. requireR (u_enabled u) ErrNotFound (Inr u)))"

end
