(* ===== verification/AccountProperties.thy ===== *)
theory AccountProperties
  imports AccountAdmin
begin

text \<open>
  The consistency of the account tables (unique names and keys, references that resolve, valid
  roles, an OpenID identity that is bound or pending and not both, a retired proxy name that is
  not bound) and its preservation by every transaction.
\<close>

section \<open>Consistency of the tables\<close>

definition user_ids :: "accounts \<Rightarrow> int set" where
  "user_ids a = uw_id ` set (ac_users a)"

definition users_ok :: "user_row list \<Rightarrow> int \<Rightarrow> bool" where
  "users_ok us n = (0 < n \<and> distinct (map uw_id us) \<and> distinct (map uw_username us) \<and>
     (\<forall>r \<in> set us. 0 < uw_id r \<and> uw_id r < n \<and> ValidUserRole (uw_role r)))"

definition credentials_ok :: "int set \<Rightarrow> credential_row list \<Rightarrow> session_row list \<Rightarrow> bool" where
  "credentials_ok ids cs ss = (distinct (map cw_user cs) \<and> cw_user ` set cs \<subseteq> ids \<and>
     distinct (map ss_token ss) \<and> ss_user ` set ss \<subseteq> ids)"

text \<open>A retired name is not bound.\<close>

definition proxies_ok :: "int set \<Rightarrow> proxy_row list \<Rightarrow> (string \<times> int) list \<Rightarrow> bool" where
  "proxies_ok ids ps rs = (distinct (map px_username ps) \<and> distinct (map px_user ps) \<and> px_user ` set ps \<subseteq> ids \<and>
     distinct (map fst rs) \<and> px_username ` set ps \<inter> fst ` set rs = {})"

text \<open>An identity is bound to one account or pending, never both.\<close>

definition identity_key :: "oidc_row \<Rightarrow> string \<times> string" where
  "identity_key i = (oi_issuer i, oi_subject i)"

definition pending_key :: "pending_row \<Rightarrow> string \<times> string" where
  "pending_key d = (pd_issuer d, pd_subject d)"

definition identities_ok :: "int set \<Rightarrow> oidc_row list \<Rightarrow> pending_row list \<Rightarrow> int \<Rightarrow> bool" where
  "identities_ok ids is ds n = (distinct (map identity_key is) \<and> distinct (map (\<lambda>i. (oi_user i, oi_issuer i)) is) \<and>
     oi_user ` set is \<subseteq> ids \<and> distinct (map pending_key ds) \<and> distinct (map pd_id ds) \<and>
     (\<forall>d \<in> set ds. pd_id d < n) \<and> identity_key ` set is \<inter> pending_key ` set ds = {})"

definition tokens_ok :: "token_row list \<Rightarrow> int \<Rightarrow> bool" where
  "tokens_ok ts n = (distinct (map tk_id ts) \<and> distinct (map tk_hash ts) \<and> (\<forall>t \<in> set ts. tk_id t < n))"

definition members_ok :: "int set \<Rightarrow> group list \<Rightarrow> (int \<times> int) list \<Rightarrow> bool" where
  "members_ok ids gs ms = (distinct ms \<and> fst ` set ms \<subseteq> ids \<and> snd ` set ms \<subseteq> g_id ` set gs)"

definition accounts_ok :: "accounts \<Rightarrow> bool" where
  "accounts_ok a = (users_ok (ac_users a) (ac_next_user a) \<and>
     credentials_ok (user_ids a) (ac_credentials a) (ac_sessions a) \<and>
     proxies_ok (user_ids a) (ac_proxies a) (ac_retired a) \<and>
     identities_ok (user_ids a) (ac_identities a) (ac_pending a) (ac_next_pending a) \<and>
     tokens_ok (ac_tokens a) (ac_next_token a) \<and>
     members_ok (user_ids a) (ac_groups a) (ac_members a))"

lemma no_accounts_ok: "accounts_ok no_accounts"
  by (simp add: accounts_ok_def no_accounts_def users_ok_def credentials_ok_def proxies_ok_def identities_ok_def
      tokens_ok_def members_ok_def)

text \<open>More accounts do no harm.\<close>

lemma ids_mono:
  "ids \<subseteq> ids' \<Longrightarrow> credentials_ok ids cs ss \<Longrightarrow> credentials_ok ids' cs ss"
  "ids \<subseteq> ids' \<Longrightarrow> proxies_ok ids ps rs \<Longrightarrow> proxies_ok ids' ps rs"
  "ids \<subseteq> ids' \<Longrightarrow> identities_ok ids is ds n \<Longrightarrow> identities_ok ids' is ds n"
  "ids \<subseteq> ids' \<Longrightarrow> members_ok ids gs ms \<Longrightarrow> members_ok ids' gs ms"
  by (auto simp: credentials_ok_def proxies_ok_def identities_ok_def members_ok_def)

lemma user_row_of_Some: "user_row_of a uid = Some r \<Longrightarrow> r \<in> set (ac_users a) \<and> uw_id r = uid"
  by (auto simp: user_row_of_def dest: row_with_Some)

lemma user_row_of_exists: "user_row_of a uid \<noteq> None \<longleftrightarrow> uid \<in> user_ids a"
  by (auto simp: user_row_of_def user_ids_def table_simps)

lemma user_row_of_eq:
  assumes "accounts_ok a" and "r \<in> set (ac_users a)"
  shows "user_row_of a (uw_id r) = Some r"
  unfolding user_row_of_def
  by (rule row_with_unique [where k = uw_id and x = "uw_id r"]) (use assms in \<open>auto simp: accounts_ok_def users_ok_def\<close>)

text \<open>Changing rows of accounts.\<close>

lemma map_update_id: "(\<And>r. k (f r) = k r) \<Longrightarrow> map k (update_rows P f rows) = map k rows"
  by (rule map_update_rows_same)

lemma ids_update: "(\<And>r. uw_id (f r) = uw_id r) \<Longrightarrow> uw_id ` set (update_rows P f us) = uw_id ` set us"
  by (simp only: set_map [symmetric] map_update_id)

lemma distinct_update_key:
  assumes "distinct (map j rows)" and "distinct (map k rows)"
    and "\<And>r r'. r \<in> set rows \<Longrightarrow> r' \<in> set rows \<Longrightarrow> j r = x \<Longrightarrow> j r' \<noteq> x \<Longrightarrow> k (f r) \<noteq> k r'"
  shows "distinct (map k (update_rows (\<lambda>r. j r = x) f rows))"
proof -
  have "inj_on (\<lambda>r. k (if j r = x then f r else r)) (set rows)"
  proof (rule inj_onI)
    fix r r' assume r: "r \<in> set rows" "r' \<in> set rows" and e: "k (if j r = x then f r else r) = k (if j r' = x then f r' else r')"
    show "r = r'"
      using e r assms distinct_map_inj [OF assms(1) r] distinct_map_inj [OF assms(2) r] by (auto split: if_splits) metis
  qed
  moreover have "distinct rows" using assms(1) by (simp add: distinct_map)
  ultimately show ?thesis by (simp add: update_rows_def distinct_map o_def)
qed

lemma users_ok_update:
  assumes "users_ok us n" and "\<And>r. uw_id (f r) = uw_id r" and "\<And>r. ValidUserRole (uw_role r) \<Longrightarrow> ValidUserRole (uw_role (f r))"
    and "\<And>r r'. r \<in> set us \<Longrightarrow> r' \<in> set us \<Longrightarrow> uw_id r = x \<Longrightarrow> uw_id r' \<noteq> x \<Longrightarrow> uw_username (f r) \<noteq> uw_username r'"
  shows "users_ok (update_rows (\<lambda>r. uw_id r = x) f us) n"
  using assms distinct_update_key [where j = uw_id and k = uw_username and rows = us and x = x and f = f]
  by (auto simp: users_ok_def map_update_id table_simps)

lemma users_ok_same:
  assumes "users_ok us n" and "\<And>r. uw_id (f r) = uw_id r" and "\<And>r. uw_role (f r) = uw_role r \<or> ValidUserRole (uw_role (f r))"
    and "\<And>r. uw_username (f r) = uw_username r"
  shows "users_ok (update_rows P f us) n"
  using assms by (auto simp: users_ok_def map_update_id table_simps) metis+

lemma users_ok_append:
  assumes "users_ok us n" and "uw_id r = n" and "uw_username r \<notin> uw_username ` set us" and "ValidUserRole (uw_role r)"
  shows "users_ok (us @ [r]) (n + 1)"
  using assms by (force simp: users_ok_def)

lemma available_name:
  "usernameAvailable e a name x \<Longrightarrow> r' \<in> set (ac_users a) \<Longrightarrow> uw_id r' \<noteq> x \<Longrightarrow> name \<noteq> uw_username r'"
  by (auto simp: usernameAvailable_def list_ex_iff)

section \<open>Every transaction keeps the tables consistent\<close>

lemma user_ids_simps [simp]:
  "user_ids (a\<lparr>ac_credentials := cs\<rparr>) = user_ids a" "user_ids (a\<lparr>ac_sessions := ss\<rparr>) = user_ids a"
  "user_ids (a\<lparr>ac_proxies := ps\<rparr>) = user_ids a" "user_ids (a\<lparr>ac_retired := rs\<rparr>) = user_ids a"
  "user_ids (a\<lparr>ac_identities := is\<rparr>) = user_ids a" "user_ids (a\<lparr>ac_pending := ds\<rparr>) = user_ids a"
  "user_ids (a\<lparr>ac_tokens := ts\<rparr>) = user_ids a" "user_ids (a\<lparr>ac_members := ms\<rparr>) = user_ids a"
  "user_ids (a\<lparr>ac_groups := gs\<rparr>) = user_ids a" "user_ids (a\<lparr>ac_next_pending := n\<rparr>) = user_ids a"
  "user_ids (a\<lparr>ac_next_token := n\<rparr>) = user_ids a" "user_ids (a\<lparr>ac_next_user := n\<rparr>) = user_ids a"
  "user_ids (a\<lparr>ac_mode := m\<rparr>) = user_ids a" "user_ids (a\<lparr>ac_registration := b\<rparr>) = user_ids a"
  "user_ids (a\<lparr>ac_setup := b\<rparr>) = user_ids a" "user_ids (a\<lparr>ac_next_group := n\<rparr>) = user_ids a"
  by (simp_all add: user_ids_def)

lemma user_ids_update [simp]:
  "(\<And>r. uw_id (f r) = uw_id r) \<Longrightarrow> user_ids (a\<lparr>ac_users := update_rows P f (ac_users a)\<rparr>) = user_ids a"
  by (simp add: user_ids_def ids_update)

lemma accounts_ok_users:
  assumes "accounts_ok a" and "users_ok us (ac_next_user a)" and "uw_id ` set us = user_ids a"
  shows "accounts_ok (a\<lparr>ac_users := us\<rparr>)"
  using assms by (simp add: accounts_ok_def user_ids_def)

text \<open>Sessions and credentials.\<close>

lemma sessions_deleted: "accounts_ok a \<Longrightarrow> accounts_ok (a\<lparr>ac_sessions := delete_rows P (ac_sessions a)\<rparr>)"
  by (auto simp: accounts_ok_def credentials_ok_def table_simps distinct_map_delete_rows)

lemma deleteLocalSessions_ok: "accounts_ok a \<Longrightarrow> accounts_ok (deleteLocalSessions uid a)"
  unfolding deleteLocalSessions_def by (rule sessions_deleted)

lemma DeleteLocalSession_ok: "accounts_ok a \<Longrightarrow> accounts_ok (DeleteLocalSession t a)"
  unfolding DeleteLocalSession_def by (rule sessions_deleted)

lemma credentials_updated:
  "accounts_ok a \<Longrightarrow> (\<And>c. cw_user (f c) = cw_user c) \<Longrightarrow>
   accounts_ok (a\<lparr>ac_credentials := update_rows P f (ac_credentials a)\<rparr>)"
  by (auto simp: accounts_ok_def credentials_ok_def table_simps map_update_id)

lemma credentials_added:
  "accounts_ok a \<Longrightarrow> \<not> HasLocalCredential a uid \<Longrightarrow> uid \<in> user_ids a \<Longrightarrow>
   accounts_ok (a\<lparr>ac_credentials := ac_credentials a @ [\<lparr>cw_user = uid, cw_hash = h, cw_enabled = True\<rparr>]\<rparr>)"
  by (auto simp: accounts_ok_def credentials_ok_def HasLocalCredential_def list_ex_iff)

lemma setLocalCredential_ok: "accounts_ok a \<Longrightarrow> setLocalCredential uid h a = Inr a' \<Longrightarrow> accounts_ok a'"
  unfolding setLocalCredential_def
  by (auto split: if_splits intro!: deleteLocalSessions_ok credentials_updated credentials_added
      dest: user_row_of_exists [THEN iffD1, rotated])
    (use user_row_of_exists in blast)

lemma SetLocalCredential_ok: "accounts_ok a \<Longrightarrow> SetLocalCredential uid h a = Inr a' \<Longrightarrow> accounts_ok a'"
  by (auto simp: SetLocalCredential_def split: if_splits intro: setLocalCredential_ok)

lemma CreateLocalSession_ok:
  assumes "accounts_ok a" and "CreateLocalSession e uid t x a = Inr a'"
  shows "accounts_ok a'"
proof -
  let ?ss = "delete_rows (\<lambda>s. ss_expires s \<le> en_now e) (ac_sessions a)"
  let ?us = "update_rows (\<lambda>r. uw_id r = uid) (\<lambda>r. r\<lparr>uw_last_login := Some (en_now e)\<rparr>) (ac_users a)"
  from assms(2) have a': "a' = a\<lparr>ac_sessions := ?ss @ [\<lparr>ss_token = t, ss_user = uid, ss_expires = x\<rparr>], ac_users := ?us\<rparr>"
    and t: "t \<notin> ss_token ` set ?ss" and u: "uid \<in> user_ids a"
    using user_row_of_exists [of a uid] by (auto simp: CreateLocalSession_def Let_def list_ex_iff split: if_splits)
  have "accounts_ok (a\<lparr>ac_sessions := ?ss @ [\<lparr>ss_token = t, ss_user = uid, ss_expires = x\<rparr>]\<rparr>)"
    using assms(1) t u by (auto simp: accounts_ok_def credentials_ok_def table_simps distinct_map_delete_rows)
  moreover have "users_ok ?us (ac_next_user a)"
    by (rule users_ok_same) (use assms(1) in \<open>auto simp: accounts_ok_def\<close>)
  moreover have "uw_id ` set ?us = user_ids a" by (simp add: user_ids_def ids_update)
  ultimately show ?thesis unfolding a' using accounts_ok_users [of "a\<lparr>ac_sessions := _\<rparr>" ?us] by simp
qed

lemma users_touched:
  assumes "accounts_ok a" and "\<And>r. uw_id (f r) = uw_id r" and "\<And>r. uw_role (f r) = uw_role r \<or> ValidUserRole (uw_role (f r))"
    and "\<And>r. uw_username (f r) = uw_username r"
  shows "accounts_ok (a\<lparr>ac_users := update_rows P f (ac_users a)\<rparr>)"
proof (rule accounts_ok_users [OF assms(1)])
  show "users_ok (update_rows P f (ac_users a)) (ac_next_user a)"
    by (rule users_ok_same) (use assms in \<open>auto simp: accounts_ok_def\<close>)
  show "uw_id ` set (update_rows P f (ac_users a)) = user_ids a" by (simp add: user_ids_def ids_update assms(2))
qed

lemma RevokeUserSessions_ok: "accounts_ok a \<Longrightarrow> RevokeUserSessions uid a = Inr a' \<Longrightarrow> accounts_ok a'"
  by (auto simp: RevokeUserSessions_def split: if_splits intro!: deleteLocalSessions_ok users_touched)

lemma SetExternalAdminStatus_ok: "accounts_ok a \<Longrightarrow> SetExternalAdminStatus uid m b a = Inr a' \<Longrightarrow> accounts_ok a'"
  by (auto simp: SetExternalAdminStatus_def split: if_splits intro!: users_touched)

text \<open>Memberships.\<close>

lemma add_member_ok:
  "accounts_ok a \<Longrightarrow> uid \<in> user_ids a \<Longrightarrow> g \<in> g_id ` set (ac_groups a) \<Longrightarrow> accounts_ok (add_member uid g a)"
  by (auto simp: add_member_def accounts_ok_def members_ok_def)

lemma add_member_fields [simp]:
  "ac_groups (add_member uid g a) = ac_groups a" "ac_users (add_member uid g a) = ac_users a"
  "user_ids (add_member uid g a) = user_ids a" "user_row_of (add_member uid g a) x = user_row_of a x"
  by (simp_all add: add_member_def user_row_of_def)

lemma members_deleted: "accounts_ok a \<Longrightarrow> accounts_ok (a\<lparr>ac_members := delete_rows P (ac_members a)\<rparr>)"
  by (auto simp: accounts_ok_def members_ok_def table_simps delete_rows_def)

lemma replaceUserGroups_ok:
  assumes "accounts_ok a" and "uid \<in> user_ids a" and "replaceUserGroups uid gs a = Inr a'"
  shows "accounts_ok a'"
proof -
  have "accounts_ok a' \<and> uid \<in> user_ids a'"
    by (rule forR_invariant [OF assms(3) [unfolded replaceUserGroups_def]])
      (use assms(1,2) in \<open>auto split: if_splits intro: members_deleted add_member_ok\<close>)
  then show ?thesis ..
qed

lemma fold_members_deleted:
  "accounts_ok a \<Longrightarrow> accounts_ok (fold (\<lambda>g a. if Q g then a else a\<lparr>ac_members := delete_rows (P g) (ac_members a)\<rparr>) gs a)"
  by (induction gs arbitrary: a) (auto intro: members_deleted)

lemma SyncOIDCGroups_ok: "accounts_ok a \<Longrightarrow> SyncOIDCGroups uid cs ms b a = Inr a' \<Longrightarrow> accounts_ok a'"
  unfolding SyncOIDCGroups_def applyOIDCGroupMembershipPlan_def Let_def
  by (erule forR_invariant)
    (auto split: if_splits intro!: fold_members_deleted intro: add_member_ok iffD1 [OF user_row_of_exists])

text \<open>Changing an account.\<close>

lemma users_renamed:
  assumes "accounts_ok a" and "\<And>r. uw_id (f r) = uw_id r" and "\<And>r. ValidUserRole (uw_role r) \<Longrightarrow> ValidUserRole (uw_role (f r))"
    and "\<And>r r'. r \<in> set (ac_users a) \<Longrightarrow> r' \<in> set (ac_users a) \<Longrightarrow> uw_id r = x \<Longrightarrow> uw_id r' \<noteq> x \<Longrightarrow> uw_username (f r) \<noteq> uw_username r'"
  shows "accounts_ok (a\<lparr>ac_users := update_rows (\<lambda>r. uw_id r = x) f (ac_users a)\<rparr>)"
proof (rule accounts_ok_users [OF assms(1)])
  show "users_ok (update_rows (\<lambda>r. uw_id r = x) f (ac_users a)) (ac_next_user a)"
    by (rule users_ok_update) (use assms in \<open>auto simp: accounts_ok_def\<close>)
  show "uw_id ` set (update_rows (\<lambda>r. uw_id r = x) f (ac_users a)) = user_ids a" by (simp add: user_ids_def ids_update assms(2))
qed

lemma userProfile_exists: "userProfile a uid = Inr p \<Longrightarrow> uid \<in> user_ids a"
  by (auto simp: userProfile_def split: option.splits intro: iffD1 [OF user_row_of_exists])

lemma deleteLocalSessions_fields [simp]:
  "ac_users (deleteLocalSessions uid a) = ac_users a" "ac_groups (deleteLocalSessions uid a) = ac_groups a"
  "user_ids (deleteLocalSessions uid a) = user_ids a" "user_row_of (deleteLocalSessions uid a) x = user_row_of a x"
  by (simp_all add: deleteLocalSessions_def user_row_of_def)

lemma updateUserAccountRecord_ok:
  assumes "accounts_ok a" and "ValidUserRole (au_role u)" and "updateUserAccountRecord e u a = Inr a'"
  shows "accounts_ok a'" and "au_user u \<in> user_ids a'"
proof -
  from assms(3) obtain p where p: "userProfile a (au_user u) = Inr p"
    and n: "usernameAvailable e a (pr_username (UpdatedProfile u p)) (au_user u)"
    and a': "a' = (let a1 = a\<lparr>ac_users := update_rows (\<lambda>r. uw_id r = au_user u) (updated_user_row u (UpdatedProfile u p)) (ac_users a)\<rparr>
       in if au_enabled u then a1 else deleteLocalSessions (au_user u) a1)"
    by (auto simp: updateUserAccountRecord_def Let_def result_simps split: if_splits)
  have "accounts_ok (a\<lparr>ac_users := update_rows (\<lambda>r. uw_id r = au_user u) (updated_user_row u (UpdatedProfile u p)) (ac_users a)\<rparr>)"
    by (rule users_renamed [OF assms(1)]) (use assms(2) available_name [OF n] in \<open>auto simp: updated_user_row_def\<close>)
  then show "accounts_ok a'" unfolding a' Let_def by (auto intro: deleteLocalSessions_ok)
  have "user_ids (a\<lparr>ac_users := update_rows (\<lambda>r. uw_id r = au_user u) (updated_user_row u (UpdatedProfile u p)) (ac_users a)\<rparr>) = user_ids a"
    by (rule user_ids_update) (simp add: updated_user_row_def)
  with userProfile_exists [OF p] show "au_user u \<in> user_ids a'" unfolding a' Let_def by simp
qed

lemma updateUserCredentialState_ok: "accounts_ok a \<Longrightarrow> accounts_ok (updateUserCredentialState u a)"
  by (auto simp: updateUserCredentialState_def Let_def split: option.splits intro!: deleteLocalSessions_ok credentials_updated)

lemma updateUserCredentialState_fields [simp]:
  "ac_users (updateUserCredentialState u a) = ac_users a" "user_ids (updateUserCredentialState u a) = user_ids a"
  by (auto simp: updateUserCredentialState_def Let_def split: option.splits)

lemma UpdateUserAccount_ok:
  assumes "accounts_ok a" and "UpdateUserAccount e u a = Inr a'"
  shows "accounts_ok a'"
proof -
  from assms(2) obtain a1 a2 where r: "ValidUserRole (au_role u)" and a1: "updateUserAccountRecord e u a = Inr a1"
    and a2: "replaceUserGroups (au_user u) (au_groups u) (updateUserCredentialState u a1) = Inr a2"
    and a': "(if au_password_hash u \<noteq> [] then setLocalCredential (au_user u) (au_password_hash u) a2 else Inr a2) = Inr a'"
    unfolding UpdateUserAccount_def by (force simp: result_simps split: if_splits)
  have "accounts_ok a2"
    by (rule replaceUserGroups_ok [OF _ _ a2]) (simp_all add: updateUserCredentialState_ok updateUserAccountRecord_ok [OF assms(1) r a1])
  with a' show ?thesis by (auto split: if_splits intro: setLocalCredential_ok)
qed

lemma UpdateAccount_ok: "accounts_ok a \<Longrightarrow> UpdateAccount svc e i a = Inr (a', fx) \<Longrightarrow> accounts_ok a'"
  by (auto simp: UpdateAccount_def result_simps intro: UpdateUserAccount_ok)

text \<open>The account of a proxy identity that is relinked.\<close>

lemma proxy_of_Some: "proxy_of a uid = Some x \<Longrightarrow> x \<in> set (ac_proxies a) \<and> px_user x = uid"
  by (auto simp: proxy_of_def dest: row_with_Some)

lemma userProfile_proxy:
  assumes "userProfile a uid = Inr p" and "pr_proxy_username p \<noteq> []"
  obtains x where "x \<in> set (ac_proxies a)" and "px_user x = uid" and "pr_proxy_username p = px_username x"
  using assms by (auto simp: userProfile_def Let_def split: option.splits dest!: proxy_of_Some)

lemma retired_relinked:
  fixes old new :: string and uid :: int
  assumes "distinct (map fst rs)"
  defines "rs' \<equiv> delete_rows (\<lambda>y. fst y = new) rs"
  defines "rs2 \<equiv> (if old = new then rs'
     else if old \<in> fst ` set rs' then update_rows (\<lambda>y. fst y = old) (\<lambda>y. (fst y, uid)) rs'
     else rs' @ [(old, uid)])"
  shows "distinct (map fst rs2)" and "fst ` set rs2 = (if old = new then fst ` set rs - {new} else insert old (fst ` set rs - {new}))"
proof -
  have d: "distinct (map fst rs')" using assms(1) by (simp add: rs'_def distinct_map_delete_rows)
  have f: "fst ` set rs' = fst ` set rs - {new}" by (auto simp: rs'_def table_simps)
  have names: "map fst (update_rows (\<lambda>y. fst y = old) (\<lambda>y. (fst y, uid)) rs') = map fst rs'" by (rule map_update_id) simp
  then have "fst ` set (update_rows (\<lambda>y. fst y = old) (\<lambda>y. (fst y, uid)) rs') = fst ` set rs'" by (metis set_map)
  with d f names show "distinct (map fst rs2)" "fst ` set rs2 = (if old = new then fst ` set rs - {new} else insert old (fst ` set rs - {new}))"
    unfolding rs2_def by (simp_all add: insert_absorb)
qed

lemma proxies_relinked:
  assumes "proxies_ok ids ps rs" and "x \<in> set ps" and "px_user x = uid" and "old = px_username x"
    and "\<And>y. y \<in> set ps \<Longrightarrow> px_username y = new \<Longrightarrow> px_user y = uid"
  shows "proxies_ok ids (update_rows (\<lambda>y. px_user y = uid) (\<lambda>y. y\<lparr>px_username := new\<rparr>) ps)
    (if old = new then delete_rows (\<lambda>y. fst y = new) rs
     else if old \<in> fst ` set (delete_rows (\<lambda>y. fst y = new) rs)
     then update_rows (\<lambda>y. fst y = old) (\<lambda>y. (fst y, uid)) (delete_rows (\<lambda>y. fst y = new) rs)
     else delete_rows (\<lambda>y. fst y = new) rs @ [(old, uid)])" (is "proxies_ok ids _ ?rs")
proof -
  let ?ps = "update_rows (\<lambda>y. px_user y = uid) (\<lambda>y. y\<lparr>px_username := new\<rparr>) ps"
  have d: "distinct (map px_username ps)" "distinct (map px_user ps)" "distinct (map fst rs)"
    and s: "px_user ` set ps \<subseteq> ids" "px_username ` set ps \<inter> fst ` set rs = {}"
    using assms(1) by (auto simp: proxies_ok_def)
  have "distinct (map px_username ?ps)"
    by (rule distinct_update_key [OF d(2,1)]) (use assms(5) in auto)
  moreover have users: "map px_user ?ps = map px_user ps" by (rule map_update_id) simp
  moreover have "px_user ` set ?ps = px_user ` set ps" by (metis users set_map)
  moreover have "px_username ` set ?ps \<subseteq> insert new (px_username ` set ps - {old})"
  proof
    fix n assume "n \<in> px_username ` set ?ps"
    then obtain y where y: "y \<in> set ps" "n = px_username (if px_user y = uid then y\<lparr>px_username := new\<rparr> else y)"
      by (auto simp: table_simps)
    show "n \<in> insert new (px_username ` set ps - {old})"
      using y distinct_map_inj [OF d(1) y(1) assms(2)] assms(3,4) by (auto split: if_splits)
  qed
  moreover have r: "distinct (map fst ?rs)" "fst ` set ?rs = (if old = new then fst ` set rs - {new} else insert old (fst ` set rs - {new}))"
    by (rule retired_relinked [OF d(3)])+
  moreover have "u \<inter> w = {}"
    if "u \<subseteq> insert new (px_username ` set ps - {old})" "w = (if old = new then fst ` set rs - {new} else insert old (fst ` set rs - {new}))" for u w
    using that s(2) by (cases "old = new") (simp_all, blast+)
  ultimately show ?thesis unfolding proxies_ok_def using d(2) s(1) by (simp only: simp_thms)
qed

lemma accounts_ok_proxies:
  "accounts_ok a \<Longrightarrow> proxies_ok (user_ids a) ps rs \<Longrightarrow> accounts_ok (a\<lparr>ac_retired := rs, ac_proxies := ps\<rparr>)"
  by (simp add: accounts_ok_def)

lemma store_RelinkTrustedProxyIdentity_ok:
  assumes "accounts_ok a" and "store_RelinkTrustedProxyIdentity e uid name a = Inr a'"
  shows "accounts_ok a'"
proof -
  let ?n = "TrimSpace name"
  from assms(2) obtain p where p: "userProfile a uid = Inr p" "pr_proxy_username p \<noteq> []"
    and n: "usernameAvailable e a ?n uid" and f: "\<not> list_ex (\<lambda>x. px_username x = ?n \<and> px_user x \<noteq> uid) (ac_proxies a)"
    and a': "a' = (let old = pr_proxy_username p;
              retired = delete_rows (\<lambda>x. fst x = ?n) (ac_retired a);
              retired = (if old = ?n then retired
                         else if old \<in> fst ` set retired
                         then update_rows (\<lambda>x. fst x = old) (\<lambda>x. (fst x, uid)) retired
                         else retired @ [(old, uid)])
          in a\<lparr>ac_retired := retired,
                    ac_proxies := update_rows (\<lambda>x. px_user x = uid) (\<lambda>x. x\<lparr>px_username := ?n\<rparr>) (ac_proxies a),
                    ac_users := update_rows (\<lambda>r. uw_id r = uid)
                      (\<lambda>r. r\<lparr>uw_username := ?n, uw_username_ov := False\<rparr>) (ac_users a)\<rparr>)"
    unfolding store_RelinkTrustedProxyIdentity_def Let_def bindR_eq_Inr if_Inl_eq_Inr de_Morgan_disj not_not sum.inject by blast
  from userProfile_proxy [OF p] obtain x where x: "x \<in> set (ac_proxies a)" "px_user x = uid" "pr_proxy_username p = px_username x" .
  let ?rs = "delete_rows (\<lambda>x. fst x = ?n) (ac_retired a)"
  let ?a = "a\<lparr>ac_retired := (if pr_proxy_username p = ?n then ?rs
     else if pr_proxy_username p \<in> fst ` set ?rs then update_rows (\<lambda>y. fst y = pr_proxy_username p) (\<lambda>y. (fst y, uid)) ?rs
     else ?rs @ [(pr_proxy_username p, uid)]),
    ac_proxies := update_rows (\<lambda>x. px_user x = uid) (\<lambda>x. x\<lparr>px_username := ?n\<rparr>) (ac_proxies a)\<rparr>"
  have "accounts_ok ?a"
    by (intro accounts_ok_proxies assms(1) proxies_relinked [OF _ x(1,2,3)])
      (use assms(1) f in \<open>auto simp: accounts_ok_def list_ex_iff\<close>)
  then have "accounts_ok (?a\<lparr>ac_users := update_rows (\<lambda>r. uw_id r = uid) (\<lambda>r. r\<lparr>uw_username := ?n, uw_username_ov := False\<rparr>) (ac_users ?a)\<rparr>)"
    by (rule users_renamed) (use available_name [OF n] in auto)
  then show ?thesis unfolding a' Let_def by simp
qed

lemma RelinkTrustedProxyIdentity_ok:
  "accounts_ok a \<Longrightarrow> RelinkTrustedProxyIdentity e uid name actor a = Inr (a', fx) \<Longrightarrow> accounts_ok a'"
  by (auto simp: RelinkTrustedProxyIdentity_def Let_def result_simps split: if_splits intro: store_RelinkTrustedProxyIdentity_ok)

text \<open>New accounts.\<close>

lemma accounts_ok_append:
  assumes "accounts_ok a" and "uw_id r = ac_next_user a" and "uw_username r \<notin> uw_username ` set (ac_users a)" and "ValidUserRole (uw_role r)"
  shows "accounts_ok (a\<lparr>ac_users := ac_users a @ [r], ac_next_user := ac_next_user a + 1\<rparr>)"
proof -
  let ?a = "a\<lparr>ac_users := ac_users a @ [r], ac_next_user := ac_next_user a + 1\<rparr>"
  have m: "user_ids a \<subseteq> user_ids ?a" by (auto simp: user_ids_def)
  have "users_ok (ac_users a @ [r]) (ac_next_user a + 1)" by (rule users_ok_append) (use assms in \<open>auto simp: accounts_ok_def\<close>)
  with assms(1) show ?thesis using ids_mono [OF m] by (auto simp: accounts_ok_def)
qed

lemma insert_user_ok:
  assumes "accounts_ok a" and "insert_user r er a = Inr (u, a')" and "uw_id r = ac_next_user a" and "ValidUserRole (uw_role r)"
  shows "accounts_ok a'" and "u = to_user r" and "a' = a\<lparr>ac_users := ac_users a @ [r], ac_next_user := ac_next_user a + 1\<rparr>"
    and "uw_id r \<notin> user_ids a" and "uw_id r \<in> user_ids a'"
proof -
  from assms(2) have n: "uw_username r \<notin> uw_username ` set (ac_users a)" and u: "u = to_user r"
    and a': "a' = a\<lparr>ac_users := ac_users a @ [r], ac_next_user := ac_next_user a + 1\<rparr>"
    by (auto simp: insert_user_def list_ex_iff split: if_splits)
  show "accounts_ok a'" unfolding a' by (rule accounts_ok_append) (use assms n in auto)
  show "u = to_user r" "a' = a\<lparr>ac_users := ac_users a @ [r], ac_next_user := ac_next_user a + 1\<rparr>" by fact+
  show "uw_id r \<notin> user_ids a" using assms(1,3) by (force simp: user_ids_def accounts_ok_def users_ok_def)
  show "uw_id r \<in> user_ids a'" by (simp add: a' user_ids_def)
qed

lemma valid_roles [simp]: "ValidUserRole UserRoleAdmin" "ValidUserRole UserRoleViewer"
  by (simp_all add: ValidUserRole_def)

lemma new_user_row_simps [simp]:
  "uw_id (new_user_row i n m d r s t) = i" "uw_role (new_user_row i n m d r s t) = r" "uw_username (new_user_row i n m d r s t) = n"
  by (simp_all add: new_user_row_def)

lemma CreateInitialLocalAdministrator_ok:
  assumes "accounts_ok a" and "CreateInitialLocalAdministrator e n m d h a = Inr (u, a')"
  shows "accounts_ok a'"
proof -
  let ?r = "new_user_row (ac_next_user a) (TrimSpace n) (TrimSpace m) (str_or (TrimSpace d) (TrimSpace n)) UserRoleAdmin ProfileSourceLocal (en_now e)"
  from assms(2) obtain er a1 where i: "insert_user ?r er a = Inr (u, a1)"
    and a': "a' = a1\<lparr>ac_credentials := ac_credentials a1 @ [\<lparr>cw_user = u_id u, cw_hash = h, cw_enabled = True\<rparr>],
                   ac_mode := ''local'', ac_registration := False, ac_setup := True\<rparr>"
    by (auto simp: CreateInitialLocalAdministrator_def Let_def result_simps split: if_splits)
  note ok = insert_user_ok [OF assms(1) i, simplified]
  have "cw_user ` set (ac_credentials a1) \<subseteq> user_ids a" using assms(1) ok(3) by (simp add: accounts_ok_def credentials_ok_def)
  then have "\<not> HasLocalCredential a1 (u_id u)"
    using ok(2,4) by (auto simp: HasLocalCredential_def list_ex_iff to_user_def)
  then have "accounts_ok (a1\<lparr>ac_credentials := ac_credentials a1 @ [\<lparr>cw_user = u_id u, cw_hash = h, cw_enabled = True\<rparr>]\<rparr>)"
    by (intro credentials_added) (use ok in \<open>auto simp: to_user_def\<close>)
  then show ?thesis unfolding a' by (simp add: accounts_ok_def)
qed

lemma EnsureAdministrator_ok:
  assumes "accounts_ok a"
  shows "accounts_ok (snd (EnsureAdministrator e n m d a))"
proof (cases "row_with (\<lambda>r. uw_username r = n) (ac_users a)")
  case None
  then have "n \<notin> uw_username ` set (ac_users a)" by (auto simp: table_simps)
  with accounts_ok_append [OF assms] show ?thesis by (simp add: EnsureAdministrator_def Let_def None)
next
  case (Some r)
  then show ?thesis unfolding EnsureAdministrator_def Let_def by (auto intro!: users_touched [OF assms])
qed

text \<open>Trusted proxies.\<close>

lemma proxies_touched:
  assumes "accounts_ok a" and "\<And>x. px_username (f x) = px_username x" and "\<And>x. px_user (f x) = px_user x"
  shows "accounts_ok (a\<lparr>ac_proxies := update_rows P f (ac_proxies a)\<rparr>)"
proof -
  have m: "map px_username (update_rows P f (ac_proxies a)) = map px_username (ac_proxies a)"
    "map px_user (update_rows P f (ac_proxies a)) = map px_user (ac_proxies a)"
    by (simp_all add: map_update_id assms)
  then have "px_username ` set (update_rows P f (ac_proxies a)) = px_username ` set (ac_proxies a)"
    "px_user ` set (update_rows P f (ac_proxies a)) = px_user ` set (ac_proxies a)"
    by (metis set_map)+
  with m assms(1) show ?thesis by (simp add: accounts_ok_def proxies_ok_def)
qed

lemma proxy_added:
  assumes "accounts_ok a" and "px_user x \<in> user_ids a" and "px_user x \<notin> px_user ` set (ac_proxies a)"
    and "px_username x \<notin> px_username ` set (ac_proxies a)" and "\<not> retired_name a (px_username x)"
  shows "accounts_ok (a\<lparr>ac_proxies := ac_proxies a @ [x]\<rparr>)"
  using assms by (auto simp: accounts_ok_def proxies_ok_def retired_name_def list_ex_iff)

text \<open>Writing the row that was read is writing it by a function of the stored row.\<close>

lemma update_read_row:
  assumes "users_ok us n" and "r \<in> set us"
  shows "update_rows (\<lambda>y. uw_id y = uw_id r) (\<lambda>_. f r) us = update_rows (\<lambda>y. uw_id y = uw_id r) f us"
  using assms distinct_map_inj [of uw_id us _ r] by (auto simp: update_rows_def users_ok_def)

lemma refreshTrustedProxyUser_ok:
  assumes "accounts_ok a" and "refreshTrustedProxyUser e n m d b ad a = Inr (u, a')"
  shows "accounts_ok a'"
proof -
  define f where "f x r = (if proxy_user_changed e m d b ad x r then proxy_refreshed e m d b ad x r else r)" for x r
  from assms(2) obtain x r where r: "user_row_of a (px_user x) = Some r"
    and a': "a' = a\<lparr>ac_proxies := update_rows (\<lambda>y. px_username y = n \<and> proxy_identity_changed e m d x)
                      (\<lambda>y. y\<lparr>px_email := m, px_display := d, px_seen := en_now e\<rparr>) (ac_proxies a),
      ac_users := update_rows (\<lambda>y. uw_id y = uw_id r) (\<lambda>_. f x r) (ac_users a)\<rparr>"
    unfolding refreshTrustedProxyUser_def f_def by (auto simp: Let_def split: option.splits)
  let ?a = "a\<lparr>ac_proxies := update_rows (\<lambda>y. px_username y = n \<and> proxy_identity_changed e m d x)
                      (\<lambda>y. y\<lparr>px_email := m, px_display := d, px_seen := en_now e\<rparr>) (ac_proxies a)\<rparr>"
  have "accounts_ok ?a" by (rule proxies_touched [OF assms(1)]) simp_all
  then have "accounts_ok (?a\<lparr>ac_users := update_rows (\<lambda>y. uw_id y = uw_id r) (f x) (ac_users ?a)\<rparr>)"
    by (rule users_touched) (simp_all add: proxy_refreshed_def f_def)
  moreover have "users_ok (ac_users a) (ac_next_user a)" "r \<in> set (ac_users a)"
    using assms(1) user_row_of_Some [OF r] by (simp_all add: accounts_ok_def)
  ultimately show ?thesis unfolding a' by (simp add: update_read_row)
qed

lemma adoptLegacyTrustedProxyIdentity_ok:
  assumes "accounts_ok a" and "adoptLegacyTrustedProxyIdentity e n a = Inr a'"
  shows "accounts_ok a'"
proof -
  from assms(2) obtain r where nr: "\<not> retired_name a n"
    and r: "row_with (\<lambda>r. uw_username r = n \<and> uw_source r = ProfileSourceLocal \<and> proxy_of a (uw_id r) = None) (ac_users a) = Some r"
    and f: "\<not> list_ex (\<lambda>x. px_username x = n) (ac_proxies a)"
    and a': "a' = a\<lparr>ac_proxies := ac_proxies a @
            [\<lparr>px_username = n, px_user = uw_id r, px_email = uw_email r, px_display = uw_display r, px_seen = en_now e\<rparr>]\<rparr>"
    unfolding adoptLegacyTrustedProxyIdentity_def adoptLegacyTrustedProxyUser_def
    by (auto simp: result_simps split: option.splits if_splits)
  show ?thesis unfolding a'
    by (rule proxy_added [OF assms(1)])
      (use nr f row_with_Some [OF r] in \<open>auto simp: user_ids_def proxy_of_def table_simps list_ex_iff\<close>)
qed

lemma CreateTrustedProxyUser_ok:
  assumes "accounts_ok a" and "CreateTrustedProxyUser e n m d b ad a = Inr (u, a')"
  shows "accounts_ok a'"
proof -
  let ?r = "(new_user_row (ac_next_user a) n m (str_or d n) UserRoleViewer ProfileSourceProxy (en_now e))
    \<lparr>uw_proxy_observed := b, uw_proxy_admin := ad\<rparr>"
  from assms(2) obtain a1 where nr: "\<not> retired_name a n" and i: "insert_user ?r ErrAlreadyExists a = Inr (u, a1)"
    and f: "\<not> list_ex (\<lambda>x. px_username x = n) (ac_proxies a1)"
    and a': "a' = a1\<lparr>ac_proxies := ac_proxies a1 @
      [\<lparr>px_username = n, px_user = u_id u, px_email = m, px_display = str_or d n, px_seen = en_now e\<rparr>]\<rparr>"
    by (auto simp: CreateTrustedProxyUser_def Let_def result_simps split: if_splits)
  note ok = insert_user_ok [OF assms(1) i, simplified]
  show ?thesis unfolding a'
    by (rule proxy_added) (use nr f ok assms(1) in \<open>auto simp: to_user_def retired_name_def list_ex_iff accounts_ok_def proxies_ok_def\<close>)
qed

lemma RefreshTrustedProxyUser_ok: "accounts_ok a \<Longrightarrow> accounts_ok (snd (RefreshTrustedProxyUser e n m d b ad a))"
  by (auto simp: RefreshTrustedProxyUser_def Let_def split: sum.splits
      intro: refreshTrustedProxyUser_ok adoptLegacyTrustedProxyIdentity_ok)

lemma TrustedProxy_Login_ok: "accounts_ok a \<Longrightarrow> accounts_ok (snd (TrustedProxy_Login reg e n m d b ad a))"
  using RefreshTrustedProxyUser_ok [of a e "TrimSpace n" "TrimSpace m" "TrimSpace d" b ad]
  by (auto simp: TrustedProxy_Login_def Let_def split: sum.splits prod.splits bool.splits intro: CreateTrustedProxyUser_ok)

text \<open>OpenID identities.\<close>

lemma distinct_pending: "accounts_ok a \<Longrightarrow> distinct (map pending_key (ac_pending a))"
  and distinct_identity: "accounts_ok a \<Longrightarrow> distinct (map identity_key (ac_identities a))"
  by (simp_all add: accounts_ok_def identities_ok_def)

lemma accounts_ok_identities:
  "accounts_ok a \<Longrightarrow> identities_ok (user_ids a) is ds n \<Longrightarrow>
   accounts_ok (a\<lparr>ac_identities := is, ac_pending := ds, ac_next_pending := n\<rparr>)"
  by (simp add: accounts_ok_def)

lemma identities_deleted: "accounts_ok a \<Longrightarrow> accounts_ok (a\<lparr>ac_identities := delete_rows P (ac_identities a)\<rparr>)"
  by (auto simp: accounts_ok_def identities_ok_def table_simps distinct_map_delete_rows)

lemma delete_pending_ok: "accounts_ok a \<Longrightarrow> accounts_ok (delete_pending P a)"
  by (auto simp: accounts_ok_def identities_ok_def delete_pending_def table_simps distinct_map_delete_rows)

lemma pending_updated:
  assumes "accounts_ok a" and "\<And>d. pd_id (f d) = pd_id d" and "\<And>d. pending_key (f d) = pending_key d"
  shows "accounts_ok (a\<lparr>ac_pending := update_rows P f (ac_pending a)\<rparr>)"
proof -
  have m: "map pending_key (update_rows P f (ac_pending a)) = map pending_key (ac_pending a)"
    "map pd_id (update_rows P f (ac_pending a)) = map pd_id (ac_pending a)"
    by (simp_all add: map_update_id assms)
  then have "pending_key ` set (update_rows P f (ac_pending a)) = pending_key ` set (ac_pending a)"
    "pd_id ` set (update_rows P f (ac_pending a)) = pd_id ` set (ac_pending a)"
    by (metis set_map)+
  moreover have "\<forall>d \<in> set (update_rows P f (ac_pending a)). pd_id d < ac_next_pending a"
    using assms by (auto simp: accounts_ok_def identities_ok_def table_simps)
  ultimately show ?thesis using m assms(1) by (simp add: accounts_ok_def identities_ok_def)
qed

lemma upsert_pending_ok:
  assumes "accounts_ok a" and "(op_issuer p, op_subject p) \<notin> identity_key ` set (ac_identities a)"
  shows "accounts_ok (upsert_pending e st p a)"
proof (cases "list_ex (\<lambda>d. pd_issuer d = op_issuer p \<and> pd_subject d = op_subject p) (ac_pending a)")
  case True
  then show ?thesis unfolding upsert_pending_def by (auto intro!: pending_updated assms(1) simp: pending_key_def)
next
  case False
  then have "\<forall>d \<in> set (ac_pending a). pending_key d \<noteq> (op_issuer p, op_subject p)" by (auto simp: pending_key_def list_ex_iff)
  with False assms show ?thesis
    by (fastforce simp: upsert_pending_def accounts_ok_def identities_ok_def pending_key_def)
qed

lemma unbound_key:
  assumes "accounts_ok a" and "oidcUserForUpdate a i s = None"
  shows "(i, s) \<notin> identity_key ` set (ac_identities a)"
proof
  assume "(i, s) \<in> identity_key ` set (ac_identities a)"
  then obtain x where x: "row_with (\<lambda>x. oi_issuer x = i \<and> oi_subject x = s) (ac_identities a) = Some x"
    by (cases "row_with (\<lambda>x. oi_issuer x = i \<and> oi_subject x = s) (ac_identities a)") (auto simp: table_simps identity_key_def)
  then have "oi_user x \<in> user_ids a" using assms(1) row_with_Some [OF x] by (auto simp: accounts_ok_def identities_ok_def)
  with x assms(2) show False using user_row_of_exists [of a "oi_user x"] by (simp add: oidcUserForUpdate_def)
qed

lemma identity_bound:
  assumes "accounts_ok a" and "insert_identity i a = Inr a'" and "oi_user i \<in> user_ids a"
    and "\<forall>d \<in> set (ac_pending a). pending_key d = identity_key i \<longrightarrow> P d"
  shows "accounts_ok (delete_pending P a')"
proof -
  from assms(2) have a': "a' = a\<lparr>ac_identities := ac_identities a @ [i]\<rparr>"
    and k: "identity_key i \<notin> identity_key ` set (ac_identities a)" "(oi_user i, oi_issuer i) \<notin> (\<lambda>i. (oi_user i, oi_issuer i)) ` set (ac_identities a)"
    by (auto simp: insert_identity_def list_ex_iff identity_key_def split: if_splits)
  have "accounts_ok (delete_pending P a)" by (rule delete_pending_ok) (rule assms(1))
  with k assms(3,4) show ?thesis unfolding a'
    by (auto simp: accounts_ok_def identities_ok_def delete_pending_def table_simps)
qed

lemma createOIDCUser_ok:
  assumes "accounts_ok a" and "createOIDCUser e p a = Inr (u, a')"
    and "\<forall>d \<in> set (ac_pending a). pending_key d = (op_issuer p, op_subject p) \<longrightarrow> P d"
  shows "accounts_ok (delete_pending P a')"
proof -
  let ?r = "new_user_row (ac_next_user a) (TrimSpace (op_username p)) (op_email p) (op_display p) UserRoleViewer ProfileSourceOIDC (en_now e)"
  from assms(2) obtain a1 where i: "insert_user ?r (InfrastructureError ''users_username_key'') a = Inr (u, a1)"
    and b: "insert_identity (new_identity e (p\<lparr>op_username := TrimSpace (op_username p)\<rparr>) (u_id u)) a1 = Inr a'"
    by (auto simp: createOIDCUser_def Let_def result_simps split: if_splits)
  note ok = insert_user_ok [OF assms(1) i, simplified]
  show ?thesis
    by (rule identity_bound [OF ok(1) b])
      (use ok assms(3) in \<open>auto simp: new_identity_def identity_key_def to_user_def\<close>)
qed

lemma refreshOIDCLogin_ok:
  assumes "accounts_ok a" and "refreshOIDCLogin e r p a = Inr (u, a')" and "r \<in> set (ac_users a)"
  shows "accounts_ok a'"
proof -
  define mine :: "oidc_row \<Rightarrow> bool" where "mine = (\<lambda>i. oi_issuer i = op_issuer p \<and> oi_subject i = op_subject p \<and> oi_user i = uw_id r)"
  have stored: "userProfile a (uw_id r) = Inr st \<Longrightarrow> pr_username_overridden st = uw_username_ov r" for st
    using user_row_of_eq [OF assms(1,3)] by (auto simp: userProfile_def Let_def)
  from assms(2) have ov: "uw_username_ov r \<or> usernameAvailable e a (op_username p) (uw_id r)"
    and a': "a' = a\<lparr>ac_identities := update_rows mine (refreshed_identity e p) (ac_identities a),
           ac_users := update_rows (\<lambda>x. uw_id x = uw_id r) (oidc_refreshed e p) (ac_users a)\<rparr>"
    by (auto simp: refreshOIDCLogin_def Let_def mine_def result_simps stored split: if_splits)
  let ?a = "a\<lparr>ac_identities := update_rows mine (refreshed_identity e p) (ac_identities a)\<rparr>"
  have m: "map k (update_rows mine (refreshed_identity e p) (ac_identities a)) = map k (ac_identities a)"
    if "\<And>i. k (refreshed_identity e p i) = k i" for k :: "oidc_row \<Rightarrow> 'k" using that by (rule map_update_id)
  have k: "identity_key (refreshed_identity e p i) = identity_key i" "oi_user (refreshed_identity e p i) = oi_user i"
    "oi_issuer (refreshed_identity e p i) = oi_issuer i" for i by (simp_all add: refreshed_identity_def identity_key_def)
  have "identity_key ` set (ac_identities ?a) = identity_key ` set (ac_identities a)" "oi_user ` set (ac_identities ?a) = oi_user ` set (ac_identities a)"
    using m [of identity_key] m [of oi_user] by (simp_all add: k del: set_map flip: set_map)
  moreover have "distinct (map identity_key (ac_identities ?a))" "distinct (map (\<lambda>i. (oi_user i, oi_issuer i)) (ac_identities ?a))"
    using assms(1) m [of identity_key] m [of "\<lambda>i. (oi_user i, oi_issuer i)"] by (simp_all add: k accounts_ok_def identities_ok_def)
  ultimately have "accounts_ok ?a" using assms(1) by (simp add: accounts_ok_def identities_ok_def)
  then have "accounts_ok (?a\<lparr>ac_users := update_rows (\<lambda>x. uw_id x = uw_id r) (oidc_refreshed e p) (ac_users ?a)\<rparr>)"
  proof (rule users_renamed)
    fix x y assume x: "x \<in> set (ac_users ?a)" "y \<in> set (ac_users ?a)" "uw_id x = uw_id r" "uw_id y \<noteq> uw_id r"
    have d: "distinct (map uw_id (ac_users a))" "distinct (map uw_username (ac_users a))" using assms(1) by (simp_all add: accounts_ok_def users_ok_def)
    from x have "x = r" using distinct_map_inj [OF d(1) _ assms(3)] by simp
    moreover have "uw_username r \<noteq> uw_username y" using distinct_map_inj [OF d(2) _ assms(3), of y] x(2,4) by auto
    moreover have "usernameAvailable e a (op_username p) (uw_id r) \<Longrightarrow> op_username p \<noteq> uw_username y"
      using available_name [of e a "op_username p" "uw_id r" y] x(2,4) by simp
    ultimately show "uw_username (oidc_refreshed e p x) \<noteq> uw_username y" using ov by (auto simp: oidc_refreshed_def)
  qed (simp_all add: oidc_refreshed_def)
  then show ?thesis unfolding a' by simp
qed

lemma ResolveOIDCLogin_ok:
  assumes "accounts_ok a"
  shows "accounts_ok (snd (ResolveOIDCLogin e p reg a))"
proof (cases "oidcUserForUpdate a (op_issuer p) (op_subject p)")
  case None
  note pend = upsert_pending_ok [OF assms unbound_key [OF assms None]]
  have "accounts_ok (snd (case createOIDCUser e p a of Inl er \<Rightarrow> (Inl er, a) | Inr (u, a1) \<Rightarrow> (Inr u, completeOIDCLogin p a1)))"
    using assms createOIDCUser_ok [OF assms]
    by (auto simp: completeOIDCLogin_def pending_key_def split: sum.splits)
  then show ?thesis using pend
    by (simp add: ResolveOIDCLogin_def None recordPendingOIDCOutcome_def upsertPendingOIDCIdentity_def)
next
  case (Some r)
  then have "r \<in> set (ac_users a)" by (auto simp: oidcUserForUpdate_def split: option.splits dest: user_row_of_Some)
  then show ?thesis using assms
    by (auto simp: ResolveOIDCLogin_def Some completeOIDCLogin_def split: sum.splits intro!: delete_pending_ok intro: refreshOIDCLogin_ok)
qed

text \<open>Decisions on pending identities.\<close>

lemma pendingOIDCIdentityForUpdate_Inr:
  "pendingOIDCIdentityForUpdate a pid = Inr d \<Longrightarrow> d \<in> set (ac_pending a) \<and> pd_id d = pid"
  by (auto simp: pendingOIDCIdentityForUpdate_def split: option.splits dest: row_with_Some)

lemma pending_key_id:
  assumes "accounts_ok a" and "d \<in> set (ac_pending a)"
  shows "\<forall>x \<in> set (ac_pending a). pending_key x = pending_key d \<longrightarrow> pd_id x = pd_id d"
  using distinct_map_inj [OF distinct_pending [OF assms(1)] _ assms(2)] by blast

lemma ApprovePendingOIDCIdentity_ok:
  assumes "accounts_ok a" and "ApprovePendingOIDCIdentity e pid a = Inr (u, a')"
  shows "accounts_ok a'"
proof -
  from assms(2) obtain d a1 where d: "pendingOIDCIdentityForUpdate a pid = Inr d"
    and c: "createOIDCUser e (pending_profile d) a = Inr (u, a1)" and a': "a' = delete_pending (\<lambda>x. pd_id x = pid) a1"
    by (auto simp: ApprovePendingOIDCIdentity_def result_simps)
  note d = pendingOIDCIdentityForUpdate_Inr [OF d]
  have "(op_issuer (pending_profile d), op_subject (pending_profile d)) = pending_key d"
    by (simp add: pending_profile_def pending_key_def)
  with pending_key_id [OF assms(1), of d] d
  have "\<forall>x \<in> set (ac_pending a). pending_key x = (op_issuer (pending_profile d), op_subject (pending_profile d)) \<longrightarrow> pd_id x = pid"
    by simp
  then show ?thesis unfolding a' by (rule createOIDCUser_ok [OF assms(1) c])
qed

lemma upsert_pending_other:
  assumes "d \<in> set (ac_pending a)" and "pending_key d \<noteq> (op_issuer p, op_subject p)"
  shows "d \<in> set (ac_pending (upsert_pending e st p a))"
  using assms by (auto simp: upsert_pending_def pending_key_def table_simps)

lemma upsert_pending_fields [simp]:
  "ac_users (upsert_pending e st p a) = ac_users a" "user_ids (upsert_pending e st p a) = user_ids a"
  "ac_identities (upsert_pending e st p a) = ac_identities a"
  by (simp_all add: upsert_pending_def)

text \<open>After its deletion an identity is not bound.\<close>

lemma deleted_identity_free:
  assumes "accounts_ok a" and "i \<in> set (ac_identities a)" and "P i"
  shows "identity_key i \<notin> identity_key ` set (delete_rows P (ac_identities a))"
  using distinct_map_inj [OF distinct_identity [OF assms(1)] _ assms(2)] assms(3) by (auto simp: table_simps)

lemma rejected_previous_ok:
  assumes "accounts_ok a" and "i \<in> set (ac_identities a)" and "P i" and "op_issuer p = oi_issuer i" and "op_subject p = oi_subject i"
  shows "accounts_ok (rejectOIDCIdentity e p (a\<lparr>ac_identities := delete_rows P (ac_identities a)\<rparr>))"
  unfolding rejectOIDCIdentity_def
  by (rule upsert_pending_ok [OF identities_deleted [OF assms(1)]])
    (use deleted_identity_free [where P = P, OF assms(1-3)] in \<open>simp add: identity_key_def assms\<close>)

lemma replaceOIDCIdentityBinding_Inr:
  assumes "accounts_ok a" and "d \<in> set (ac_pending a)" and "replaceOIDCIdentityBinding e r d a = Inr a3"
  obtains a2 a4 where "accounts_ok a2" and "d \<in> set (ac_pending a2)" and "user_ids a2 = user_ids a"
    and "\<exists>p is. a2 = a\<lparr>ac_identities := is\<rparr> \<or> a2 = rejectOIDCIdentity e p (a\<lparr>ac_identities := is\<rparr>)"
    and "insert_identity (new_identity e (pending_profile d) (uw_id r)) a2 = Inr a4"
    and "a3 = a4\<lparr>ac_users := update_rows (\<lambda>x. uw_id x = uw_id r) (linked_row d) (ac_users a4)\<rparr>"
proof -
  define mine :: "oidc_row \<Rightarrow> bool" where "mine = (\<lambda>i. oi_user i = uw_id r \<and> oi_issuer i = pd_issuer d)"
  define previous where "previous = (case row_with mine (ac_identities a) of None \<Rightarrow> [] | Some i \<Rightarrow> oi_subject i)"
  define a2 where "a2 = (if previous \<noteq> [] \<and> previous \<noteq> pd_subject d
    then rejectOIDCIdentity e (row_profile (pd_issuer d) previous r) (a\<lparr>ac_identities := delete_rows mine (ac_identities a)\<rparr>)
    else a\<lparr>ac_identities := delete_rows mine (ac_identities a)\<rparr>)"
  from assms(3) obtain a4 where i: "insert_identity (new_identity e (pending_profile d) (uw_id r)) a2 = Inr a4"
    and a3: "a3 = a4\<lparr>ac_users := update_rows (\<lambda>x. uw_id x = uw_id r) (linked_row d) (ac_users a4)\<rparr>"
    unfolding replaceOIDCIdentityBinding_def Let_def mine_def [symmetric] previous_def [symmetric] a2_def [symmetric] bindR_eq_Inr sum.inject
    by blast
  have ok2: "accounts_ok a2"
  proof (cases "previous \<noteq> [] \<and> previous \<noteq> pd_subject d")
    case True
    then obtain j where "row_with mine (ac_identities a) = Some j" "previous = oi_subject j"
      by (auto simp: previous_def split: option.splits)
    with row_with_Some [of mine _ j] have j: "j \<in> set (ac_identities a)" "mine j" "previous = oi_subject j" by auto
    have "accounts_ok (rejectOIDCIdentity e (row_profile (pd_issuer d) previous r) (a\<lparr>ac_identities := delete_rows mine (ac_identities a)\<rparr>))"
      by (rule rejected_previous_ok [where P = mine, OF assms(1) j(1,2)]) (use j(2,3) in \<open>simp_all add: row_profile_def mine_def\<close>)
    then show ?thesis unfolding a2_def if_P [OF True] .
  next
    case False
    show ?thesis unfolding a2_def if_not_P [OF False] by (rule identities_deleted [OF assms(1)])
  qed
  have d2: "d \<in> set (ac_pending a2)"
  proof (cases "previous \<noteq> [] \<and> previous \<noteq> pd_subject d")
    case True
    then show ?thesis unfolding a2_def if_P [OF True] rejectOIDCIdentity_def
      by (intro upsert_pending_other) (use assms(2) True in \<open>auto simp: row_profile_def pending_key_def\<close>)
  next
    case False
    show ?thesis unfolding a2_def if_not_P [OF False] using assms(2) by simp
  qed
  have "user_ids a2 = user_ids a" by (simp add: a2_def rejectOIDCIdentity_def)
  moreover have "\<exists>p is. a2 = a\<lparr>ac_identities := is\<rparr> \<or> a2 = rejectOIDCIdentity e p (a\<lparr>ac_identities := is\<rparr>)" unfolding a2_def by auto
  ultimately show thesis using ok2 d2 i a3 by (intro that) assumption+
qed

lemma LinkPendingOIDCIdentity_ok:
  assumes "accounts_ok a" and "LinkPendingOIDCIdentity e pid uid a = Inr (u, a')"
  shows "accounts_ok a'"
proof -
  from assms(2) obtain d r a3 where d: "pendingOIDCIdentityForUpdate a pid = Inr d" and r: "oidcUserProfileForUpdate a uid = Inr r"
    and b: "replaceOIDCIdentityBinding e r d a = Inr a3" and a': "a' = delete_pending (\<lambda>x. pd_id x = pid) a3"
    by (auto simp: LinkPendingOIDCIdentity_def result_simps)
  have r: "uw_id r \<in> user_ids a"
    using r by (auto simp: oidcUserProfileForUpdate_def user_ids_def split: option.splits dest: user_row_of_Some)
  note d = pendingOIDCIdentityForUpdate_Inr [OF d]
  from replaceOIDCIdentityBinding_Inr [OF assms(1) _ b] d
  obtain a2 a4 where ok2: "accounts_ok a2" and d2: "d \<in> set (ac_pending a2)" and u2: "user_ids a2 = user_ids a"
    and i: "insert_identity (new_identity e (pending_profile d) (uw_id r)) a2 = Inr a4"
    and a3: "a3 = a4\<lparr>ac_users := update_rows (\<lambda>x. uw_id x = uw_id r) (linked_row d) (ac_users a4)\<rparr>" by blast
  have "identity_key (new_identity e (pending_profile d) (uw_id r)) = pending_key d"
    by (simp add: new_identity_def pending_profile_def identity_key_def pending_key_def)
  with pending_key_id [OF ok2 d2] d
  have u: "\<forall>x \<in> set (ac_pending a2). pending_key x = identity_key (new_identity e (pending_profile d) (uw_id r)) \<longrightarrow> pd_id x = pid" by simp
  have r2: "oi_user (new_identity e (pending_profile d) (uw_id r)) \<in> user_ids a2"
    using r by (simp add: new_identity_def u2)
  have "accounts_ok (delete_pending (\<lambda>x. pd_id x = pid) a4)" by (rule identity_bound [OF ok2 i r2 u])
  then have "accounts_ok ((delete_pending (\<lambda>x. pd_id x = pid) a4)
    \<lparr>ac_users := update_rows (\<lambda>x. uw_id x = uw_id r) (linked_row d) (ac_users (delete_pending (\<lambda>x. pd_id x = pid) a4))\<rparr>)"
    by (rule users_touched) (simp_all add: linked_row_def)
  then show ?thesis unfolding a' a3 by (cases a4) (simp add: delete_pending_def)
qed

lemma RemoveOIDCIdentity_ok:
  assumes "accounts_ok a" and "RemoveOIDCIdentity e uid iss sub a = Inr a'"
  shows "accounts_ok a'"
proof -
  define mine :: "oidc_row \<Rightarrow> bool" where "mine = (\<lambda>i. oi_user i = uid \<and> oi_issuer i = TrimSpace iss \<and> oi_subject i = TrimSpace sub)"
  from assms(2) obtain r where "list_ex mine (ac_identities a)"
    and a': "a' = rejectOIDCIdentity e (row_profile (TrimSpace iss) (TrimSpace sub) r) (a\<lparr>ac_identities := delete_rows mine (ac_identities a)\<rparr>)"
    by (auto simp: RemoveOIDCIdentity_def Let_def mine_def result_simps split: if_splits)
  then obtain i where "i \<in> set (ac_identities a)" "mine i" by (auto simp: list_ex_iff)
  then show ?thesis unfolding a'
    by (intro rejected_previous_ok [OF assms(1)]) (auto simp: row_profile_def mine_def)
qed

lemma SetPendingOIDCIdentityRejected_ok:
  "accounts_ok a \<Longrightarrow> SetPendingOIDCIdentityRejected pid b a = Inr a' \<Longrightarrow> accounts_ok a'"
  by (auto simp: SetPendingOIDCIdentityRejected_def pending_key_def split: if_splits intro!: pending_updated)

text \<open>Tokens.\<close>

lemma CreateToken_ok: "accounts_ok a \<Longrightarrow> CreateToken sha rnd e n uid c x a = Inr (t, s, a') \<Longrightarrow> accounts_ok a'"
  by (fastforce simp: CreateToken_def Let_def result_simps accounts_ok_def tokens_ok_def list_ex_iff split: if_splits)

lemma tokens_updated:
  assumes "accounts_ok a" and "\<And>t. tk_id (f t) = tk_id t" and "\<And>t. tk_hash (f t) = tk_hash t"
  shows "accounts_ok (a\<lparr>ac_tokens := update_rows P f (ac_tokens a)\<rparr>)"
  using assms by (auto simp: accounts_ok_def tokens_ok_def map_update_id table_simps)

lemma UserByToken_ok: "accounts_ok a \<Longrightarrow> UserByToken sha e t a = Inr (u, a') \<Longrightarrow> accounts_ok a'"
  by (auto simp: UserByToken_def split: option.splits intro!: tokens_updated)

lemma tokens_deleted: "accounts_ok a \<Longrightarrow> accounts_ok (a\<lparr>ac_tokens := delete_rows P (ac_tokens a)\<rparr>)"
  by (auto simp: accounts_ok_def tokens_ok_def table_simps distinct_map_delete_rows)

lemma DeleteUserToken_ok: "accounts_ok a \<Longrightarrow> DeleteUserToken tid uid a = Inr a' \<Longrightarrow> accounts_ok a'"
  by (auto simp: DeleteUserToken_def Let_def split: if_splits intro: tokens_deleted)

lemma DeleteToken_ok: "accounts_ok a \<Longrightarrow> DeleteToken tid a = Inr a' \<Longrightarrow> accounts_ok a'"
  by (auto simp: DeleteToken_def split: if_splits intro: tokens_deleted)

end
