(* ===== verification/Memberships.thy ===== *)
theory Memberships
  imports AccountProperties Access
begin

text \<open>
  Collaboration groups (\<open>postgres/groups.go\<close>, \<open>application/groups/groups.go\<close>). A group is a row
  of its own that memberships, provider mappings, page assignments, access rules, page owners
  and review requests refer to. Deleting it deletes or clears all of these by the foreign keys,
  so the operation acts on the accounts, the access rules and the pages together.
\<close>

section \<open>The tables a group is referred from\<close>

record directory =
  dr_accounts :: accounts
  dr_access :: access_tables
  dr_pages :: db

text \<open>\<open>domain.Group\<close> with its counts.\<close>

record group_info =
  gi_id :: int
  gi_name :: string
  gi_users :: nat
  gi_pages :: nat

text \<open>\<open>ORDER BY lower(name),id\<close>.\<close>

definition group_order :: "env \<Rightarrow> group \<Rightarrow> group \<Rightarrow> int" where
  "group_order e g h = cmp_then (cmp_compare (en_sql_lower e (g_name g)) (en_sql_lower e (g_name h))) (cmp_compare (g_id g) (g_id h))"

section \<open>Reading groups\<close>

definition group_counts :: "accounts \<Rightarrow> db \<Rightarrow> group \<Rightarrow> group_info" where
  "group_counts a d g = \<lparr>gi_id = g_id g, gi_name = g_name g,
     gi_users = length (filter (\<lambda>m. snd m = g_id g) (ac_members a)),
     gi_pages = length (filter (\<lambda>x. snd x = g_id g \<and> list_ex (\<lambda>p. pw_id p = fst x \<and> live p) (db_pages d)) (db_page_groups d))\<rparr>"

definition Groups :: "env \<Rightarrow> accounts \<Rightarrow> db \<Rightarrow> group_info list" where
  "Groups e a d = map (group_counts a d) (sort_func (group_order e) (ac_groups a))"

definition UserGroups :: "env \<Rightarrow> accounts \<Rightarrow> int \<Rightarrow> group list" where
  "UserGroups e a uid = filter (\<lambda>g. (uid, g_id g) \<in> set (ac_members a)) (sort_func (group_order e) (ac_groups a))"

text \<open>The memberships of a user carry no counts.\<close>

definition AssignableGroups :: "env \<Rightarrow> user \<Rightarrow> accounts \<Rightarrow> db \<Rightarrow> group_info list" where
  "AssignableGroups e u a d =
     (if IsAdministrator u then Groups e a d
      else map (\<lambda>g. \<lparr>gi_id = g_id g, gi_name = g_name g, gi_users = 0, gi_pages = 0\<rparr>) (UserGroups e a (u_id u)))"

definition member_order :: "env \<Rightarrow> user_row \<Rightarrow> user_row \<Rightarrow> int" where
  "member_order e r s = cmp_then (cmp_compare (en_sql_lower e (uw_display r)) (en_sql_lower e (uw_display s)))
     (cmp_then (cmp_compare (en_sql_lower e (uw_username r)) (en_sql_lower e (uw_username s))) (cmp_compare (uw_id r) (uw_id s)))"

text \<open>The query reads neither the enabled flag nor the session version.\<close>

definition GroupMembers :: "env \<Rightarrow> accounts \<Rightarrow> int \<Rightarrow> user list" where
  "GroupMembers e a gid =
     map (\<lambda>r. (to_user r)\<lparr>u_enabled := False, u_session_version := 0\<rparr>)
       (sort_func (member_order e) (filter (\<lambda>r. (uw_id r, gid) \<in> set (ac_members a)) (ac_users a)))"

section \<open>Changing groups\<close>

text \<open>The name is unique, and so is its lower case.\<close>

definition createGroup :: "env \<Rightarrow> string \<Rightarrow> accounts \<Rightarrow> error + (group \<times> accounts)" where
  "createGroup e name a =
     (let name = TrimSpace name in
      if name = [] then Inl (NewValidationError ''name'' ''A group name is required.'')
      else if list_ex (\<lambda>g. g_name g = name \<or> en_sql_lower e (g_name g) = en_sql_lower e name) (ac_groups a)
      then Inl ErrAlreadyExists
      else
        let g = \<lparr>g_id = ac_next_group a, g_name = name\<rparr>
        in Inr (g, a\<lparr>ac_groups := ac_groups a @ [g], ac_next_group := ac_next_group a + 1\<rparr>))"

definition CreateGroup :: "env \<Rightarrow> string \<Rightarrow> accounts \<Rightarrow> error + (group \<times> accounts)" where
  "CreateGroup e name a =
     (let name = TrimSpace name in
      if name = [] then Inl (NewValidationError ''name'' ''A group name is required.'')
      else createGroup e name a)"

definition AddGroupMember :: "int \<Rightarrow> int \<Rightarrow> accounts \<Rightarrow> error + accounts" where
  "AddGroupMember gid uid a =
     (if user_row_of a uid \<noteq> None \<and> gid \<in> g_id ` set (ac_groups a) then Inr (add_member uid gid a)
      else if (uid, gid) \<in> set (ac_members a) then Inr a
      else Inl ErrNotFound)"

definition RemoveGroupMember :: "int \<Rightarrow> int \<Rightarrow> accounts \<Rightarrow> error + accounts" where
  "RemoveGroupMember gid uid a =
     (if (uid, gid) \<in> set (ac_members a) then Inr (a\<lparr>ac_members := delete_rows (\<lambda>m. m = (uid, gid)) (ac_members a)\<rparr>)
      else Inl ErrNotFound)"

section \<open>Deleting a group\<close>

text \<open>What the foreign keys delete (\<open>CASCADE\<close>) and clear (\<open>SET NULL\<close>).\<close>

definition group_cascade_accounts :: "int \<Rightarrow> accounts \<Rightarrow> accounts" where
  "group_cascade_accounts gid a = a\<lparr>ac_groups := delete_rows (\<lambda>g. g_id g = gid) (ac_groups a),
     ac_members := delete_rows (\<lambda>m. snd m = gid) (ac_members a),
     ac_mappings := delete_rows (\<lambda>m. snd m = gid) (ac_mappings a)\<rparr>"

definition group_cascade_access :: "int \<Rightarrow> access_tables \<Rightarrow> access_tables" where
  "group_cascade_access gid t = t\<lparr>at_rules := delete_rows (\<lambda>r. ar_group r = gid) (at_rules t),
     at_members := delete_rows (\<lambda>m. snd m = gid) (at_members t),
     at_groups := delete_rows (\<lambda>g. g = gid) (at_groups t)\<rparr>"

definition group_cascade_pages :: "int \<Rightarrow> db \<Rightarrow> db" where
  "group_cascade_pages gid d = d\<lparr>db_groups := delete_rows (\<lambda>g. g_id g = gid) (db_groups d),
     db_members := delete_rows (\<lambda>m. snd m = gid) (db_members d),
     db_page_groups := delete_rows (\<lambda>x. snd x = gid) (db_page_groups d),
     db_pages := update_rows (\<lambda>p. pw_owner p = gid) (\<lambda>p. p\<lparr>pw_owner := 0\<rparr>) (db_pages d),
     db_reviews := update_rows (\<lambda>v. vw_group v = gid) (\<lambda>v. v\<lparr>vw_group := 0\<rparr>) (db_reviews d)\<rparr>"

definition DeleteGroup :: "int \<Rightarrow> directory \<Rightarrow> error + directory" where
  "DeleteGroup gid w =
     (if gid \<notin> g_id ` set (ac_groups (dr_accounts w)) then Inl ErrNotFound
      else Inr \<lparr>dr_accounts = group_cascade_accounts gid (dr_accounts w), dr_access = group_cascade_access gid (dr_access w),
                dr_pages = group_cascade_pages gid (dr_pages w)\<rparr>)"

section \<open>Consistency\<close>

lemma createGroup_ok: "accounts_ok a \<Longrightarrow> createGroup e n a = Inr (g, a') \<Longrightarrow> accounts_ok a'"
  by (auto simp: createGroup_def Let_def split: if_splits) (simp add: accounts_ok_def members_ok_def subset_insertI2)

lemma CreateGroup_ok: "accounts_ok a \<Longrightarrow> CreateGroup e n a = Inr (g, a') \<Longrightarrow> accounts_ok a'"
  by (auto simp: CreateGroup_def Let_def split: if_splits intro: createGroup_ok)

lemma AddGroupMember_ok: "accounts_ok a \<Longrightarrow> AddGroupMember gid uid a = Inr a' \<Longrightarrow> accounts_ok a'"
  using user_row_of_exists [of a uid] by (auto simp: AddGroupMember_def split: if_splits intro: add_member_ok)

lemma RemoveGroupMember_ok: "accounts_ok a \<Longrightarrow> RemoveGroupMember gid uid a = Inr a' \<Longrightarrow> accounts_ok a'"
  by (auto simp: RemoveGroupMember_def split: if_splits intro: members_deleted)

lemma group_cascade_accounts_ok:
  assumes "accounts_ok a"
  shows "accounts_ok (group_cascade_accounts gid a)"
proof -
  have "user_ids (group_cascade_accounts gid a) = user_ids a" by (simp add: user_ids_def group_cascade_accounts_def)
  moreover have "members_ok (user_ids a) (delete_rows (\<lambda>g. g_id g = gid) (ac_groups a)) (delete_rows (\<lambda>m. snd m = gid) (ac_members a))"
    using assms by (auto simp: accounts_ok_def members_ok_def table_simps delete_rows_def)
  ultimately show ?thesis using assms by (simp add: accounts_ok_def group_cascade_accounts_def)
qed

section \<open>The rules of a deleted group\<close>

text \<open>C39: The access rules of a group go with it: a page that only rules of that group restrict is open to everybody once the group is deleted, in place of being closed to everybody.\<close>

theorem deleting_group_opens_pages:
  assumes "DeleteGroup gid w = Inr w'"
    and "list_all (\<lambda>r. rule_matches (normalizeAccessPath path) r \<longrightarrow> ar_group r = gid) (at_rules (dr_access w))"
  shows "CanView (PageAccess (dr_access w')) u path = Inr True"
proof -
  from assms(1) have "at_rules (dr_access w') = delete_rows (\<lambda>r. ar_group r = gid) (at_rules (dr_access w))"
    by (auto simp: DeleteGroup_def group_cascade_access_def split: if_splits)
  with assms(2) have "nearest_path (at_rules (dr_access w')) (normalizeAccessPath path) = None"
    by (auto simp: nearest_path_None table_simps list_all_iff)
  then show ?thesis by (simp add: CanView_def PageAccess_def PageAccess_by_def)
qed

definition secret_directory :: directory where
  "secret_directory = \<lparr>dr_accounts = no_accounts\<lparr>ac_groups := [\<lparr>g_id = 1, g_name = ''Staff''\<rparr>]\<rparr>,
     dr_access = \<lparr>at_rules = [\<lparr>ar_id = 1, ar_path = ''hr'', ar_group = 1, ar_access = PageAccessView\<rparr>], at_next = 2,
       at_members = [], at_groups = [1]\<rparr>,
     dr_pages = empty_db\<rparr>"

definition stranger :: user where
  "stranger = \<lparr>u_id = 9, u_username = ''eve'', u_email = [], u_display = [], u_role = UserRoleViewer, u_enabled = True,
     u_external_admin = False, u_session_version = 1\<rparr>"

theorem deleting_group_opens_pages_witness:
  "CanView (PageAccess (dr_access secret_directory)) stranger ''hr/salaries'' = Inr False \<and>
   (\<exists>w. DeleteGroup 1 secret_directory = Inr w \<and> CanView (PageAccess (dr_access w)) stranger ''hr/salaries'' = Inr True)"
proof -
  have "case DeleteGroup 1 secret_directory of Inr _ \<Rightarrow> True | Inl _ \<Rightarrow> False" by code_simp
  then obtain w where w: "DeleteGroup 1 secret_directory = Inr w" by (auto split: sum.splits)
  have m: "list_all (\<lambda>r. rule_matches (normalizeAccessPath ''hr/salaries'') r \<longrightarrow> ar_group r = 1) (at_rules (dr_access secret_directory))"
    by (simp add: secret_directory_def)
  have "CanView (PageAccess (dr_access secret_directory)) stranger ''hr/salaries'' = Inr False" by code_simp
  with w deleting_group_opens_pages [OF w m, of stranger] show ?thesis by blast
qed

end
