(* ===== verification/AccountRuns.thy ===== *)
theory AccountRuns
  imports Memberships
begin

text \<open>
  Runs of the account tables: every transaction as a command, the invariant as an interpretation
  of the transition system, and what stays true over a run until somebody undoes it: a rejected
  identity, a revoked session, a retired proxy name.
\<close>

section \<open>Commands\<close>

datatype account_command =
    SetupAdministrator string string string string
  | EnsureAdministratorCmd string string string
  | SetPassword int string
  | OpenSession int string time
  | CloseSession string
  | RevokeSessions int
  | ChangeAccount users_service user_update_input
  | RelinkProxy int string user
  | ProxyLogin "accounts \<Rightarrow> error + bool" string string string bool bool
  | OIDCLogin oidc_profile bool
  | SetExternalAdmin int string bool
  | ApproveIdentity int
  | LinkIdentity int int
  | RemoveIdentity int string string
  | RejectIdentity int bool
  | SyncGroups int "string list" "(string \<times> int) list" bool
  | IssueToken "string \<Rightarrow> string" string string int int "time option"
  | UseToken "string \<Rightarrow> string" string
  | DropToken int
  | DropUserToken int int
  | NewGroup string
  | DropGroup int
  | JoinGroup int int
  | LeaveGroup int int

definition outcome :: "accounts \<Rightarrow> error + accounts \<Rightarrow> accounts" where
  "outcome a r = (case r of Inl _ \<Rightarrow> a | Inr a' \<Rightarrow> a')"

definition outcome_fst :: "accounts \<Rightarrow> error + (accounts \<times> 'a) \<Rightarrow> accounts" where
  "outcome_fst a r = (case r of Inl _ \<Rightarrow> a | Inr x \<Rightarrow> fst x)"

definition outcome_snd :: "accounts \<Rightarrow> error + ('a \<times> accounts) \<Rightarrow> accounts" where
  "outcome_snd a r = (case r of Inl _ \<Rightarrow> a | Inr x \<Rightarrow> snd x)"

fun account_command_step :: "env \<Rightarrow> account_command \<Rightarrow> accounts \<Rightarrow> accounts" where
  "account_command_step e (SetupAdministrator n m d h) a = outcome_snd a (CreateInitialLocalAdministrator e n m d h a)"
| "account_command_step e (EnsureAdministratorCmd n m d) a = snd (EnsureAdministrator e n m d a)"
| "account_command_step e (SetPassword uid h) a = outcome a (SetLocalCredential uid h a)"
| "account_command_step e (OpenSession uid t x) a = outcome a (CreateLocalSession e uid t x a)"
| "account_command_step e (CloseSession t) a = DeleteLocalSession t a"
| "account_command_step e (RevokeSessions uid) a = outcome a (RevokeUserSessions uid a)"
| "account_command_step e (ChangeAccount svc i) a = outcome_fst a (UpdateAccount svc e i a)"
| "account_command_step e (RelinkProxy uid n u) a = outcome_fst a (RelinkTrustedProxyIdentity e uid n u a)"
| "account_command_step e (ProxyLogin reg n m d b ad) a = snd (TrustedProxy_Login reg e n m d b ad a)"
| "account_command_step e (OIDCLogin p reg) a = snd (ResolveOIDCLogin e p reg a)"
| "account_command_step e (SetExternalAdmin uid m b) a = outcome a (SetExternalAdminStatus uid m b a)"
| "account_command_step e (ApproveIdentity pid) a = outcome_snd a (ApprovePendingOIDCIdentity e pid a)"
| "account_command_step e (LinkIdentity pid uid) a = outcome_snd a (LinkPendingOIDCIdentity e pid uid a)"
| "account_command_step e (RemoveIdentity uid iss sub) a = outcome a (RemoveOIDCIdentity e uid iss sub a)"
| "account_command_step e (RejectIdentity pid b) a = outcome a (SetPendingOIDCIdentityRejected pid b a)"
| "account_command_step e (SyncGroups uid cs ms b) a = outcome a (SyncOIDCGroups uid cs ms b a)"
| "account_command_step e (IssueToken sha rnd n uid c x) a =
     (case CreateToken sha rnd e n uid c x a of Inl _ \<Rightarrow> a | Inr r \<Rightarrow> snd (snd r))"
| "account_command_step e (UseToken sha t) a = outcome_snd a (UserByToken sha e t a)"
| "account_command_step e (DropToken tid) a = outcome a (DeleteToken tid a)"
| "account_command_step e (DropUserToken tid uid) a = outcome a (DeleteUserToken tid uid a)"
| "account_command_step e (NewGroup n) a = outcome_snd a (CreateGroup e n a)"
| "account_command_step e (DropGroup gid) a = (if gid \<in> g_id ` set (ac_groups a) then group_cascade_accounts gid a else a)"
| "account_command_step e (JoinGroup gid uid) a = outcome a (AddGroupMember gid uid a)"
| "account_command_step e (LeaveGroup gid uid) a = outcome a (RemoveGroupMember gid uid a)"

definition account_step :: "env \<times> account_command \<Rightarrow> accounts \<Rightarrow> accounts" where
  "account_step x a = account_command_step (fst x) (snd x) a"

definition account_run :: "(env \<times> account_command) list \<Rightarrow> accounts" where
  "account_run cs = fold account_step cs no_accounts"

section \<open>Every command keeps the tables consistent\<close>

text \<open>A property of the state that holds before and after success holds after the command.\<close>

lemma outcome_keeps:
  "P a \<Longrightarrow> (\<And>a'. r = Inr a' \<Longrightarrow> P a') \<Longrightarrow> P (outcome a r)"
  "P a \<Longrightarrow> (\<And>a' x. q = Inr (a', x) \<Longrightarrow> P a') \<Longrightarrow> P (outcome_fst a q)"
  "P a \<Longrightarrow> (\<And>x a'. s = Inr (x, a') \<Longrightarrow> P a') \<Longrightarrow> P (outcome_snd a s)"
  by (auto simp: outcome_def outcome_fst_def outcome_snd_def split: sum.splits)

lemmas commands_ok = CreateInitialLocalAdministrator_ok SetLocalCredential_ok CreateLocalSession_ok
  RevokeUserSessions_ok UpdateAccount_ok RelinkTrustedProxyIdentity_ok SetExternalAdminStatus_ok
  ApprovePendingOIDCIdentity_ok LinkPendingOIDCIdentity_ok RemoveOIDCIdentity_ok SetPendingOIDCIdentityRejected_ok
  SyncOIDCGroups_ok UserByToken_ok DeleteToken_ok DeleteUserToken_ok CreateGroup_ok AddGroupMember_ok RemoveGroupMember_ok

lemmas commands_total_ok = EnsureAdministrator_ok DeleteLocalSession_ok TrustedProxy_Login_ok ResolveOIDCLogin_ok group_cascade_accounts_ok

lemma account_command_ok: "accounts_ok a \<Longrightarrow> accounts_ok (account_command_step e c a)"
proof (cases c)
  case (IssueToken sha rnd n uid cr x)
  assume "accounts_ok a"
  with IssueToken show ?thesis by (auto split: sum.splits intro: CreateToken_ok)
qed (simp_all add: commands_total_ok, (rule outcome_keeps, assumption, erule (1) commands_ok)+)

interpretation directory: invariant_system no_accounts account_step accounts_ok
  by unfold_locales (simp_all add: no_accounts_ok account_step_def account_command_ok)

section \<open>What commands leave alone\<close>

text \<open>Most commands leave pending identities and retired names alone and open no session.\<close>

definition quiet :: "accounts \<Rightarrow> accounts \<Rightarrow> bool" where
  "quiet a a' = (ac_pending a' = ac_pending a \<and> ac_retired a' = ac_retired a \<and> set (ac_sessions a') \<subseteq> set (ac_sessions a))"

lemma quiet_refl [simp]: "quiet a a"
  by (simp add: quiet_def)

lemma quiet_trans: "quiet a b \<Longrightarrow> quiet b c \<Longrightarrow> quiet a c"
  by (auto simp: quiet_def)

lemma quiet_deleteLocalSessions [simp]: "quiet a (deleteLocalSessions uid a)"
  by (auto simp: quiet_def deleteLocalSessions_def table_simps)

lemma quiet_after_delete: "quiet a b \<Longrightarrow> quiet a (deleteLocalSessions uid b)"
  by (rule quiet_trans [OF _ quiet_deleteLocalSessions])

lemma quiet_setLocalCredential: "setLocalCredential uid h a = Inr a' \<Longrightarrow> quiet a a'"
  by (auto simp: setLocalCredential_def quiet_def split: if_splits intro: quiet_after_delete)
    (auto simp: deleteLocalSessions_def table_simps)

lemma quiet_add_member: "quiet a b \<Longrightarrow> quiet a (add_member uid g b)"
  by (simp add: quiet_def add_member_def)

lemma quiet_replaceUserGroups: "replaceUserGroups uid gs a = Inr a' \<Longrightarrow> quiet a a'"
  unfolding replaceUserGroups_def
  by (erule forR_invariant) (auto simp: quiet_def add_member_def split: if_splits)

lemma quiet_fold_members:
  "quiet a b \<Longrightarrow> quiet a (fold (\<lambda>g a. if Q g then a else a\<lparr>ac_members := delete_rows (P g) (ac_members a)\<rparr>) gs b)"
  by (induction gs arbitrary: b) (auto simp: quiet_def)

lemma quiet_SyncOIDCGroups: "SyncOIDCGroups uid cs ms b a = Inr a' \<Longrightarrow> quiet a a'"
  unfolding SyncOIDCGroups_def applyOIDCGroupMembershipPlan_def Let_def
  by (erule forR_invariant) (auto split: if_splits intro: quiet_add_member intro!: quiet_fold_members)

lemma quiet_updateUserAccountRecord: "updateUserAccountRecord e u a = Inr a' \<Longrightarrow> quiet a a'"
  by (auto simp: updateUserAccountRecord_def Let_def result_simps split: if_splits intro!: quiet_after_delete)
    (auto simp: quiet_def)

lemma quiet_updateUserCredentialState: "quiet a (updateUserCredentialState u a)"
  by (auto simp: updateUserCredentialState_def Let_def split: option.splits intro!: quiet_after_delete) (auto simp: quiet_def)

lemma quiet_UpdateUserAccount: "UpdateUserAccount e u a = Inr a' \<Longrightarrow> quiet a a'"
  by (auto simp: UpdateUserAccount_def result_simps split: if_splits dest!: quiet_updateUserAccountRecord quiet_replaceUserGroups
      quiet_setLocalCredential intro: quiet_trans [OF _ quiet_updateUserCredentialState, THEN quiet_trans, THEN quiet_trans]
        quiet_trans [OF _ quiet_updateUserCredentialState, THEN quiet_trans])

lemma quiet_UpdateAccount: "UpdateAccount svc e i a = Inr (a', fx) \<Longrightarrow> quiet a a'"
  by (auto simp: UpdateAccount_def result_simps intro: quiet_UpdateUserAccount)

lemma quiet_proxies:
  "refreshTrustedProxyUser e n m d b ad a = Inr (u, a') \<Longrightarrow> quiet a a'"
  "adoptLegacyTrustedProxyIdentity e n a = Inr a' \<Longrightarrow> quiet a a'"
  "CreateTrustedProxyUser e n m d b ad a = Inr (u, a') \<Longrightarrow> quiet a a'"
  by (auto simp: quiet_def refreshTrustedProxyUser_def adoptLegacyTrustedProxyIdentity_def adoptLegacyTrustedProxyUser_def
      CreateTrustedProxyUser_def insert_user_def Let_def result_simps split: option.splits if_splits)

lemma quiet_RefreshTrustedProxyUser: "quiet a (snd (RefreshTrustedProxyUser e n m d b ad a))"
  by (auto simp: RefreshTrustedProxyUser_def Let_def split: sum.splits intro: quiet_proxies quiet_trans)

lemma quiet_TrustedProxy_Login: "quiet a (snd (TrustedProxy_Login reg e n m d b ad a))"
  using quiet_RefreshTrustedProxyUser [of a e "TrimSpace n" "TrimSpace m" "TrimSpace d" b ad]
  by (auto simp: TrustedProxy_Login_def Let_def split: sum.splits prod.splits bool.splits dest!: quiet_proxies(3) intro: quiet_trans)

lemma quiet_commands:
  "CreateInitialLocalAdministrator e n m d h a = Inr (u, a') \<Longrightarrow> quiet a a'"
  "SetLocalCredential uid h a = Inr a' \<Longrightarrow> quiet a a'"
  "RevokeUserSessions uid a = Inr a' \<Longrightarrow> quiet a a'"
  "SetExternalAdminStatus uid m b a = Inr a' \<Longrightarrow> quiet a a'"
  "UserByToken sha e t a = Inr (u, a') \<Longrightarrow> quiet a a'"
  "DeleteToken tid a = Inr a' \<Longrightarrow> quiet a a'"
  "DeleteUserToken tid uid a = Inr a' \<Longrightarrow> quiet a a'"
  "CreateGroup e n a = Inr (g, a') \<Longrightarrow> quiet a a'"
  "AddGroupMember gid uid a = Inr a' \<Longrightarrow> quiet a a'"
  "RemoveGroupMember gid uid a = Inr a' \<Longrightarrow> quiet a a'"
  by (auto simp: CreateInitialLocalAdministrator_def insert_user_def SetLocalCredential_def RevokeUserSessions_def
      SetExternalAdminStatus_def UserByToken_def DeleteToken_def DeleteUserToken_def CreateGroup_def createGroup_def
      AddGroupMember_def RemoveGroupMember_def Let_def result_simps split: if_splits option.splits
      intro: quiet_setLocalCredential quiet_add_member)
    (auto simp: quiet_def deleteLocalSessions_def table_simps)

lemma quiet_total:
  "quiet a (snd (EnsureAdministrator e n m d a))" "quiet a (DeleteLocalSession t a)" "quiet a (group_cascade_accounts gid a)"
  by (auto simp: quiet_def EnsureAdministrator_def DeleteLocalSession_def group_cascade_accounts_def Let_def table_simps split: option.splits)

text \<open>The commands that are not quiet.\<close>

definition loud :: "account_command \<Rightarrow> bool" where
  "loud c = (case c of OpenSession _ _ _ \<Rightarrow> True | RelinkProxy _ _ _ \<Rightarrow> True | OIDCLogin _ _ \<Rightarrow> True | ApproveIdentity _ \<Rightarrow> True
     | LinkIdentity _ _ \<Rightarrow> True | RemoveIdentity _ _ _ \<Rightarrow> True | RejectIdentity _ _ \<Rightarrow> True | _ \<Rightarrow> False)"

lemma quiet_command: "\<not> loud c \<Longrightarrow> quiet a (account_command_step e c a)"
proof (cases c)
  case (IssueToken sha rnd n uid cr x)
  then show ?thesis by (auto simp: CreateToken_def quiet_def Let_def result_simps split: sum.splits if_splits)
qed (simp_all add: loud_def quiet_total quiet_TrustedProxy_Login, (rule outcome_keeps, rule quiet_refl,
    erule quiet_commands quiet_UpdateAccount quiet_SyncOIDCGroups)+)

text \<open>OpenID commands leave sessions and proxies alone.\<close>

definition apart :: "accounts \<Rightarrow> accounts \<Rightarrow> bool" where
  "apart a a' = (ac_retired a' = ac_retired a \<and> ac_proxies a' = ac_proxies a \<and> ac_sessions a' = ac_sessions a)"

lemma apart_refl [simp]: "apart a a"
  by (simp add: apart_def)

lemma apart_upsert [simp]: "apart a (upsert_pending e st p b) = apart a b"
  by (simp add: apart_def upsert_pending_def)

lemma apart_delete_pending [simp]: "apart a (delete_pending P b) = apart a b"
  by (simp add: apart_def delete_pending_def)

lemma apart_createOIDCUser: "createOIDCUser e p a = Inr (u, a') \<Longrightarrow> apart a a'"
  by (auto simp: createOIDCUser_def insert_user_def insert_identity_def apart_def Let_def result_simps split: if_splits)

lemma apart_ResolveOIDCLogin: "apart a (snd (ResolveOIDCLogin e p reg a))"
  by (auto simp: ResolveOIDCLogin_def recordPendingOIDCOutcome_def upsertPendingOIDCIdentity_def completeOIDCLogin_def
      refreshOIDCLogin_def Let_def result_simps split: option.splits sum.splits if_splits dest!: apart_createOIDCUser)
    (auto simp: apart_def)

lemma apart_identity_commands:
  "ApprovePendingOIDCIdentity e pid a = Inr (u, a') \<Longrightarrow> apart a a'"
  "LinkPendingOIDCIdentity e pid uid a = Inr (u, a') \<Longrightarrow> apart a a'"
  "RemoveOIDCIdentity e uid iss sub a = Inr a' \<Longrightarrow> apart a a'"
  "SetPendingOIDCIdentityRejected pid b a = Inr a' \<Longrightarrow> apart a a'"
proof -
  show "LinkPendingOIDCIdentity e pid uid a = Inr (u, a') \<Longrightarrow> apart a a'"
    by (auto simp: LinkPendingOIDCIdentity_def replaceOIDCIdentityBinding_def insert_identity_def rejectOIDCIdentity_def
        Let_def result_simps split: if_splits) (simp_all add: apart_def upsert_pending_def)
qed (auto simp: ApprovePendingOIDCIdentity_def RemoveOIDCIdentity_def SetPendingOIDCIdentityRejected_def rejectOIDCIdentity_def
      Let_def result_simps apart_def upsert_pending_def delete_pending_def split: if_splits dest!: apart_createOIDCUser)

section \<open>A rejected identity\<close>

definition is_rejected :: "string \<times> string \<Rightarrow> accounts \<Rightarrow> bool" where
  "is_rejected k a = list_ex (\<lambda>d. pending_key d = k \<and> pd_status d = PendingOIDCStatusRejected) (ac_pending a)"

lemma rejected_unbound:
  assumes "accounts_ok a" and "is_rejected (i, s) a"
  shows "oidcUserForUpdate a i s = None"
proof -
  have "(i, s) \<notin> identity_key ` set (ac_identities a)"
    using assms by (force simp: is_rejected_def list_ex_iff accounts_ok_def identities_ok_def)
  then have "row_with (\<lambda>x. oi_issuer x = i \<and> oi_subject x = s) (ac_identities a) = None"
    by (auto simp: table_simps identity_key_def)
  then show ?thesis by (simp add: oidcUserForUpdate_def)
qed

lemma rejected_status:
  assumes "accounts_ok a" and "is_rejected (i, s) a"
  shows "pendingOIDCStatusForUpdate a i s = PendingOIDCStatusRejected"
proof -
  from assms(2) obtain d where d: "d \<in> set (ac_pending a)" "pending_key d = (i, s)" "pd_status d = PendingOIDCStatusRejected"
    by (auto simp: is_rejected_def list_ex_iff)
  have "row_with (\<lambda>d. pd_issuer d = i \<and> pd_subject d = s) (ac_pending a) = Some d"
    by (rule row_with_unique [where k = pending_key and x = "(i, s)"])
      (use d distinct_pending [OF assms(1)] in \<open>auto simp: pending_key_def\<close>)
  with d show ?thesis by (simp add: pendingOIDCStatusForUpdate_def)
qed

lemma list_ex_update_rows: "list_ex P rows \<Longrightarrow> (\<And>r. P r \<Longrightarrow> P (f r)) \<Longrightarrow> list_ex P (update_rows Q f rows)"
  by (induction rows) (auto simp: update_rows_def)

lemma rejected_upsert: "is_rejected k a \<Longrightarrow> is_rejected k (rejectOIDCIdentity e p a) \<and> is_rejected k (upsertPendingOIDCIdentity e p a)"
  by (auto simp: is_rejected_def rejectOIDCIdentity_def upsertPendingOIDCIdentity_def upsert_pending_def pending_key_def
      intro!: list_ex_update_rows)

lemma rejected_delete:
  "is_rejected k a \<Longrightarrow> \<forall>d \<in> set (ac_pending a). P d \<longrightarrow> pending_key d = k \<longrightarrow> pd_status d \<noteq> PendingOIDCStatusRejected \<Longrightarrow>
   is_rejected k (delete_pending P a)"
  by (auto simp: is_rejected_def delete_pending_def list_ex_iff table_simps)

lemma rejected_same_pending: "ac_pending a' = ac_pending a \<Longrightarrow> is_rejected k a' = is_rejected k a"
  by (simp add: is_rejected_def)

lemma pending_createOIDCUser: "createOIDCUser e p a = Inr (u, a') \<Longrightarrow> ac_pending a' = ac_pending a"
  by (auto simp: createOIDCUser_def insert_user_def insert_identity_def Let_def result_simps split: if_splits)

lemma pending_refreshOIDCLogin: "refreshOIDCLogin e r p a = Inr (u, a') \<Longrightarrow> ac_pending a' = ac_pending a"
  by (auto simp: refreshOIDCLogin_def Let_def result_simps split: if_splits)

lemma rejected_ResolveOIDCLogin:
  assumes "accounts_ok a" and "is_rejected k a"
  shows "is_rejected k (snd (ResolveOIDCLogin e p reg a))"
proof (cases "k = (op_issuer p, op_subject p)")
  case True
  with assms rejected_unbound [OF assms(1)] rejected_status [OF assms(1)] show ?thesis
    by (simp add: ResolveOIDCLogin_def recordPendingOIDCOutcome_def rejected_upsert)
next
  case False
  then have c: "is_rejected k (completeOIDCLogin p a')" if "ac_pending a' = ac_pending a" for a'
    unfolding completeOIDCLogin_def using rejected_same_pending [OF that, of k] assms(2)
    by (intro rejected_delete) (auto simp: pending_key_def)
  show ?thesis using assms(2)
    by (auto simp: ResolveOIDCLogin_def recordPendingOIDCOutcome_def rejected_upsert
        split: option.splits sum.splits intro!: c dest!: pending_createOIDCUser pending_refreshOIDCLogin)
qed

text \<open>An identity that is approved or linked is pending, so it is another one.\<close>

lemma rejected_decided:
  assumes "accounts_ok a" and "d \<in> set (ac_pending a)" and "pd_status d = PendingOIDCStatusPending" and "pd_id d = pid"
    and "is_rejected k a" and "ac_pending b = ac_pending a"
  shows "is_rejected k (delete_pending (\<lambda>x. pd_id x = pid) b)"
proof (rule rejected_delete)
  show "is_rejected k b" using assms(5) by (simp add: rejected_same_pending [OF assms(6)])
  have ids: "distinct (map pd_id (ac_pending a))" using assms(1) by (simp add: accounts_ok_def identities_ok_def)
  have "pd_status x \<noteq> PendingOIDCStatusRejected" if "x \<in> set (ac_pending a)" "pd_id x = pid" for x
  proof -
    have "x = d" by (rule distinct_map_inj [OF ids that(1) assms(2)]) (simp add: that(2) assms(4))
    with assms(3) show ?thesis by simp
  qed
  then show "\<forall>x \<in> set (ac_pending b). pd_id x = pid \<longrightarrow> pending_key x = k \<longrightarrow> pd_status x \<noteq> PendingOIDCStatusRejected"
    by (simp add: assms(6))
qed

lemma rejected_Approve:
  assumes "accounts_ok a" and "is_rejected k a" and "ApprovePendingOIDCIdentity e pid a = Inr (u, a')"
  shows "is_rejected k a'"
proof -
  from assms(3) obtain d a1 where d: "pendingOIDCIdentityForUpdate a pid = Inr d" "pd_status d = PendingOIDCStatusPending"
    and c: "createOIDCUser e (pending_profile d) a = Inr (u, a1)" and a': "a' = delete_pending (\<lambda>x. pd_id x = pid) a1"
    by (auto simp: ApprovePendingOIDCIdentity_def result_simps)
  from pendingOIDCIdentityForUpdate_Inr [OF d(1)] have "d \<in> set (ac_pending a)" "pd_id d = pid" by simp_all
  from rejected_decided [OF assms(1) this(1) d(2) this(2) assms(2) pending_createOIDCUser [OF c]]
  show ?thesis unfolding a' .
qed

lemma rejected_Link:
  assumes "accounts_ok a" and "is_rejected k a" and "LinkPendingOIDCIdentity e pid uid a = Inr (u, a')"
  shows "is_rejected k a'"
proof -
  from assms(3) obtain d r a3 where d: "pendingOIDCIdentityForUpdate a pid = Inr d" "pd_status d = PendingOIDCStatusPending"
    and r: "oidcUserProfileForUpdate a uid = Inr r"
    and b: "replaceOIDCIdentityBinding e r d a = Inr a3" and a': "a' = delete_pending (\<lambda>x. pd_id x = pid) a3"
    by (auto simp: LinkPendingOIDCIdentity_def result_simps)
  from pendingOIDCIdentityForUpdate_Inr [OF d(1)] have dd: "d \<in> set (ac_pending a)" "pd_id d = pid" by simp_all
  obtain a2 a4 where ok2: "accounts_ok a2" and d2: "d \<in> set (ac_pending a2)"
    and a2: "\<exists>p is. a2 = a\<lparr>ac_identities := is\<rparr> \<or> a2 = rejectOIDCIdentity e p (a\<lparr>ac_identities := is\<rparr>)"
    and i: "insert_identity (new_identity e (pending_profile d) (uw_id r)) a2 = Inr a4"
    and a3: "a3 = a4\<lparr>ac_users := update_rows (\<lambda>x. uw_id x = uw_id r) (linked_row d) (ac_users a4)\<rparr>"
    by (rule replaceOIDCIdentityBinding_Inr [OF assms(1) dd(1) b]) (rule that)
  have js: "is_rejected k (a\<lparr>ac_identities := js\<rparr>)" for js using assms(2) by (simp add: is_rejected_def)
  from a2 obtain p js where "a2 = a\<lparr>ac_identities := js\<rparr> \<or> a2 = rejectOIDCIdentity e p (a\<lparr>ac_identities := js\<rparr>)" by (elim exE) (rule that)
  then have k2: "is_rejected k a2" by (elim disjE) (simp_all only: js rejected_upsert [OF js])
  have same: "ac_pending a3 = ac_pending a2" using i by (auto simp: a3 insert_identity_def split: if_splits)
  from rejected_decided [OF ok2 d2 d(2) dd(2) k2 same] show ?thesis unfolding a' .
qed

lemma rejected_Remove: "is_rejected k a \<Longrightarrow> RemoveOIDCIdentity e uid iss sub a = Inr a' \<Longrightarrow> is_rejected k a'"
  by (auto simp: RemoveOIDCIdentity_def Let_def result_simps split: if_splits intro!: rejected_upsert [THEN conjunct1])
    (simp add: is_rejected_def)

lemma rejected_Reject: "is_rejected k a \<Longrightarrow> SetPendingOIDCIdentityRejected pid True a = Inr a' \<Longrightarrow> is_rejected k a'"
  by (auto simp: SetPendingOIDCIdentityRejected_def is_rejected_def pending_key_def split: if_splits intro!: list_ex_update_rows)

text \<open>Only an administrator reopens a rejected identity.\<close>

definition reopens :: "account_command \<Rightarrow> bool" where
  "reopens c = (case c of RejectIdentity _ b \<Rightarrow> \<not> b | _ \<Rightarrow> False)"

lemma rejected_command:
  assumes "accounts_ok a" and "is_rejected k a" and "\<not> reopens c"
  shows "is_rejected k (account_command_step e c a)"
proof (cases "loud c")
  case False
  with quiet_command [OF this, of a e] assms(2) show ?thesis by (simp add: quiet_def is_rejected_def)
next
  case True
  then show ?thesis
  proof (cases c)
    case (OIDCLogin p reg)
    then show ?thesis using rejected_ResolveOIDCLogin [OF assms(1,2)] by simp
  next
    case (OpenSession uid t x)
    then show ?thesis using assms(2) by (auto simp: CreateLocalSession_def Let_def outcome_def is_rejected_def split: sum.splits if_splits)
  next
    case (RelinkProxy uid n u)
    have "ac_pending a' = ac_pending a" if "RelinkTrustedProxyIdentity e uid n u a = Inr (a', fx)" for a' fx
      using that by (auto simp: RelinkTrustedProxyIdentity_def store_RelinkTrustedProxyIdentity_def Let_def result_simps split: if_splits)
    then show ?thesis using RelinkProxy assms(2)
      by simp (rule outcome_keeps, assumption, simp add: is_rejected_def)
  next
    case (RejectIdentity pid b)
    with assms(3) have "b" by (simp add: reopens_def)
    with RejectIdentity show ?thesis by simp (rule outcome_keeps, rule assms(2), erule rejected_Reject [OF assms(2)])
  qed (simp_all add: loud_def, (rule outcome_keeps, rule assms(2),
      erule rejected_Approve [OF assms(1,2)] rejected_Link [OF assms(1,2)] rejected_Remove [OF assms(2)])+)
qed

end
