(* ===== verification/AccountSafety.thy ===== *)
theory AccountSafety
  imports AccountRuns
begin

text \<open>
  What the accounts promise: the invariant of every run, identities, sessions and proxy names that
  stay out once they are rejected, revoked or retired, an administrator who cannot lock everybody
  out, disabled accounts that no authenticator accepts, tokens and asserted memberships.
\<close>

section \<open>A small installation\<close>

definition account_env :: "time \<Rightarrow> env" where
  "account_env t = \<lparr>en_now = t, en_lower = (\<lambda>s. s), en_sql_lower = (\<lambda>s. s), en_format = (\<lambda>_. [])\<rparr>"

definition ann_profile :: oidc_profile where
  "ann_profile = \<lparr>op_issuer = ''idp'', op_subject = ''s1'', op_username = ''ann'', op_email = ''a@b'', op_display = ''Ann''\<rparr>"

definition no_passwords :: users_service where
  "no_passwords = \<lparr>us_parse_address = Some, us_passwords = None\<rparr>"

definition root_user :: user where
  "root_user = \<lparr>u_id = 1, u_username = ''root'', u_email = [], u_display = ''root'', u_role = UserRoleAdmin, u_enabled = True,
     u_external_admin = False, u_session_version = 1\<rparr>"

text \<open>The first administrator, and a user that arrives through the proxy.\<close>

definition two_accounts :: "(env \<times> account_command) list" where
  "two_accounts = [(account_env 1, SetupAdministrator ''root'' [] [] ''hash''),
     (account_env 2, ProxyLogin (\<lambda>_. Inr True) ''bob'' [] [] False False)]"

definition bob_change :: "string \<Rightarrow> bool \<Rightarrow> user_update_input" where
  "bob_change role on = \<lparr>ui_user = 2, ui_actor = root_user, ui_username = None, ui_email = None, ui_display = None,
     ui_revert_username = False, ui_revert_email = False, ui_revert_display = False, ui_role = role, ui_enabled = on,
     ui_groups = [], ui_password = [], ui_update_credential = False, ui_credential_enabled = False, ui_mode_override = []\<rparr>"

section \<open>Runs\<close>

lemma account_run_append: "account_run (cs @ ds) = fold account_step ds (account_run cs)"
  by (simp add: account_run_def)

lemma account_run_ok: "accounts_ok (account_run cs)"
  unfolding account_run_def by (rule directory.inv_run)

text \<open>What every command keeps, as long as it is not one of the undoing commands, holds after the run.\<close>

lemma run_keeps:
  assumes "accounts_ok a" and "P a" and "list_all (\<lambda>x. \<not> undo (snd x)) ds"
    and "\<And>e c a. accounts_ok a \<Longrightarrow> P a \<Longrightarrow> \<not> undo c \<Longrightarrow> P (account_command_step e c a)"
  shows "accounts_ok (fold account_step ds a) \<and> P (fold account_step ds a)"
  using assms(1-3)
proof (induction ds arbitrary: a)
  case (Cons x ds)
  then show ?case using assms(4) [of a "snd x" "fst x"] account_command_ok [of a "fst x" "snd x"]
    by (simp add: account_step_def)
qed simp

text \<open>C4: In every run of the account transactions the tables stay consistent: account identifiers and usernames are unique and roles valid, credentials, sessions, proxy identities, memberships and OpenID identities refer to existing accounts, a retired proxy name is not bound, an OpenID identity is bound or pending and never both, tokens have unique identifiers and hashes.\<close>

theorem accounts_stay_consistent: "accounts_ok (account_run cs)"
  unfolding account_run_def by (rule directory.inv_run)

section \<open>Rejected identities\<close>

lemma status_rejected: "pendingOIDCStatusForUpdate a i s = PendingOIDCStatusRejected \<Longrightarrow> is_rejected (i, s) a"
  by (auto simp: pendingOIDCStatusForUpdate_def is_rejected_def pending_key_def list_ex_iff split: option.splits dest!: row_with_Some)

text \<open>C5: An OpenID identity that an administrator rejected does not sign in, whatever the registration policy says and whatever is done to the accounts in the meantime, until somebody reopens a pending identity.\<close>

theorem rejected_identity_stays_out:
  assumes "pendingOIDCStatusForUpdate (account_run cs) (op_issuer p) (op_subject p) = PendingOIDCStatusRejected"
    and "list_all (\<lambda>x. \<not> reopens (snd x)) ds"
  shows "fst (ResolveOIDCLogin e p registration (account_run (cs @ ds))) = Inl ErrIdentityRejected"
proof -
  let ?a = "fold account_step ds (account_run cs)"
  have "accounts_ok ?a \<and> is_rejected (op_issuer p, op_subject p) ?a"
    using run_keeps [where P = "is_rejected (op_issuer p, op_subject p)", OF account_run_ok status_rejected [OF assms(1)] assms(2)]
      rejected_command by blast
  then show ?thesis
    using rejected_unbound [of ?a] rejected_status [of ?a]
    by (simp add: account_run_append ResolveOIDCLogin_def recordPendingOIDCOutcome_def)
qed

theorem rejected_identity_stays_out_witness:
  "pendingOIDCStatusForUpdate (account_run [(account_env 1, OIDCLogin ann_profile False), (account_env 2, RejectIdentity 1 True)])
     ''idp'' ''s1'' = PendingOIDCStatusRejected \<and>
   fst (ResolveOIDCLogin (account_env 5) ann_profile True (account_run ([(account_env 1, OIDCLogin ann_profile False),
     (account_env 2, RejectIdentity 1 True)] @ [(account_env 3, OIDCLogin ann_profile True), (account_env 4, ApproveIdentity 1)]))) =
     Inl ErrIdentityRejected"
proof -
  have r: "pendingOIDCStatusForUpdate (account_run [(account_env 1, OIDCLogin ann_profile False), (account_env 2, RejectIdentity 1 True)])
     (op_issuer ann_profile) (op_subject ann_profile) = PendingOIDCStatusRejected" by code_simp
  have d: "list_all (\<lambda>x. \<not> reopens (snd x)) [(account_env 3, OIDCLogin ann_profile True), (account_env 4, ApproveIdentity 1)]"
    by (simp add: reopens_def)
  from rejected_identity_stays_out [OF r d, of "account_env 5" True] r show ?thesis by (simp add: ann_profile_def)
qed

section \<open>Revoked sessions\<close>

definition opens :: "string \<Rightarrow> account_command \<Rightarrow> bool" where
  "opens t c = (case c of OpenSession _ t' _ \<Rightarrow> t' = t | _ \<Rightarrow> False)"

definition no_session :: "string \<Rightarrow> accounts \<Rightarrow> bool" where
  "no_session t a = (t \<notin> ss_token ` set (ac_sessions a))"

lemma no_session_apart: "apart a a' \<Longrightarrow> no_session t a \<Longrightarrow> no_session t a'"
  by (simp add: apart_def no_session_def)

text \<open>The loud commands that are not about sessions keep them.\<close>

lemma no_session_command:
  assumes "no_session t a" and "\<not> opens t c"
  shows "no_session t (account_command_step e c a)"
proof (cases "loud c")
  case False
  with quiet_command [OF this, of a e] assms(1) show ?thesis by (auto simp: quiet_def no_session_def)
next
  case True
  then show ?thesis
  proof (cases c)
    case (OIDCLogin p reg)
    then show ?thesis using no_session_apart [OF apart_ResolveOIDCLogin assms(1)] by simp
  next
    case (OpenSession uid t' x)
    then show ?thesis using assms
      by (auto simp: CreateLocalSession_def Let_def outcome_def no_session_def opens_def table_simps split: sum.splits if_splits)
  next
    case (RelinkProxy uid n u)
    have "ac_sessions a' = ac_sessions a" if "RelinkTrustedProxyIdentity e uid n u a = Inr (a', fx)" for a' fx
      using that by (auto simp: RelinkTrustedProxyIdentity_def store_RelinkTrustedProxyIdentity_def Let_def result_simps split: if_splits)
    then show ?thesis using RelinkProxy assms(1)
      by simp (rule outcome_keeps, assumption, simp add: no_session_def)
  qed (simp_all add: loud_def, (rule outcome_keeps, rule assms(1), rule no_session_apart [OF _ assms(1)],
      erule apart_identity_commands)+)
qed

text \<open>After the sessions of a user were revoked, each of their session tokens is refused over every later run, unless a session with the same token is created again.\<close>

lemma revoked_session_stays_revoked:
  assumes "RevokeUserSessions uid (account_run cs) = Inr a"
    and "list_ex (\<lambda>s. ss_token s = t \<and> ss_user s = uid) (ac_sessions (account_run cs))"
    and "list_all (\<lambda>x. \<not> opens t (snd x)) ds"
  shows "LocalUserBySession e (fold account_step ds a) t = Inl ErrNotFound"
proof -
  from assms(2) obtain s where s: "s \<in> set (ac_sessions (account_run cs))" "ss_token s = t" "ss_user s = uid"
    by (auto simp: list_ex_iff)
  have d: "distinct (map ss_token (ac_sessions (account_run cs)))"
    using account_run_ok [of cs] by (simp add: accounts_ok_def credentials_ok_def)
  have "ac_sessions a = delete_rows (\<lambda>s. ss_user s = uid) (ac_sessions (account_run cs))"
    using assms(1) by (auto simp: RevokeUserSessions_def deleteLocalSessions_def split: if_splits)
  moreover have "x = s" if "x \<in> set (ac_sessions (account_run cs))" "ss_token x = t" for x
    by (rule distinct_map_inj [OF d that(1) s(1)]) (simp add: that(2) s(2))
  ultimately have "no_session t a" using s(3) by (auto simp: no_session_def table_simps)
  then have "no_session t (fold account_step ds a)"
    using run_keeps [where P = "no_session t", OF RevokeUserSessions_ok [OF account_run_ok assms(1)] _ assms(3)] no_session_command by blast
  then have "row_with (\<lambda>s. ss_token s = t \<and> ss_expires s > en_now e) (ac_sessions (fold account_step ds a)) = None"
    by (auto simp: table_simps no_session_def)
  then show ?thesis by (simp add: LocalUserBySession_def)
qed

section \<open>Retired proxy names\<close>

definition relinks_to :: "string \<Rightarrow> account_command \<Rightarrow> bool" where
  "relinks_to n c = (case c of RelinkProxy _ m _ \<Rightarrow> TrimSpace m = n | _ \<Rightarrow> False)"

lemma retired_apart: "apart a a' \<Longrightarrow> retired_name a n \<Longrightarrow> retired_name a' n"
  by (simp add: apart_def retired_name_def)

lemma retired_store_Relink:
  assumes "store_RelinkTrustedProxyIdentity e uid m a = Inr a'" and "retired_name a n" and "TrimSpace m \<noteq> n"
  shows "retired_name a' n"
proof -
  obtain old where r: "ac_retired a' = (let rs = delete_rows (\<lambda>x. fst x = TrimSpace m) (ac_retired a) in
      if old = TrimSpace m then rs
      else if old \<in> fst ` set rs then update_rows (\<lambda>x. fst x = old) (\<lambda>x. (fst x, uid)) rs
      else rs @ [(old, uid)])"
    using assms(1) by (auto simp: store_RelinkTrustedProxyIdentity_def Let_def result_simps if_Inl_eq_Inr simp del: if_split)
  have "list_ex (\<lambda>x. fst x = n) (delete_rows (\<lambda>x. fst x = TrimSpace m) (ac_retired a))"
    using assms(2,3) by (auto simp: retired_name_def list_ex_iff table_simps)
  then show ?thesis unfolding retired_name_def r Let_def
    by (auto intro!: list_ex_update_rows)
qed

lemma retired_command:
  assumes "retired_name a n" and "\<not> relinks_to n c"
  shows "retired_name (account_command_step e c a) n"
proof (cases "loud c")
  case False
  with quiet_command [OF this, of a e] assms(1) show ?thesis by (simp add: quiet_def retired_name_def)
next
  case True
  then show ?thesis
  proof (cases c)
    case (OIDCLogin p reg)
    then show ?thesis using retired_apart [OF apart_ResolveOIDCLogin assms(1)] by simp
  next
    case (OpenSession uid t' x)
    then show ?thesis using assms
      by (auto simp: CreateLocalSession_def Let_def outcome_def retired_name_def split: sum.splits if_splits)
  next
    case (RelinkProxy uid m u)
    have "retired_name a' n" if "RelinkTrustedProxyIdentity e uid m u a = Inr (a', fx)" for a' fx
      using that assms retired_store_Relink [of e uid "TrimSpace m" a _ n] RelinkProxy
      by (auto simp: RelinkTrustedProxyIdentity_def relinks_to_def Let_def result_simps split: if_splits)
    then show ?thesis using RelinkProxy assms(1) by simp (rule outcome_keeps, assumption, assumption)
  qed (simp_all add: loud_def, (rule outcome_keeps, rule assms(1), rule retired_apart [OF _ assms(1)],
      erule apart_identity_commands)+)
qed

lemma retired_refresh:
  assumes "accounts_ok a" and "retired_name a n"
  shows "RefreshTrustedProxyUser e n m d b ad a = (Inl ErrRegistrationDisabled, a)"
proof -
  have "n \<notin> px_username ` set (ac_proxies a)"
    using assms by (auto simp: accounts_ok_def proxies_ok_def retired_name_def list_ex_iff)
  then have "row_with (\<lambda>x. px_username x = n) (ac_proxies a) = None" by (auto simp: table_simps)
  then have "refreshTrustedProxyUser e n m d' b ad a = Inl ErrNotFound" for d' by (simp add: refreshTrustedProxyUser_def)
  then show ?thesis using assms(2)
    by (simp add: RefreshTrustedProxyUser_def adoptLegacyTrustedProxyIdentity_def is_not_found_def Let_def)
qed

text \<open>A trusted-proxy name that was retired by relinking its account is refused by the proxy sign-in over every later run, with every registration policy, until an account is relinked to it: it neither reaches its former account nor creates a new one.\<close>

lemma retired_proxy_name_cannot_log_in:
  assumes "retired_name (account_run cs) (TrimSpace n)" and "TrimSpace n \<noteq> []"
    and "list_all (\<lambda>x. \<not> relinks_to (TrimSpace n) (snd x)) ds"
  shows "TrustedProxy_Login registration e n m d b ad (account_run (cs @ ds)) = (Inl ErrRegistrationDisabled, account_run (cs @ ds))"
proof -
  have "accounts_ok (account_run (cs @ ds)) \<and> retired_name (account_run (cs @ ds)) (TrimSpace n)"
    unfolding account_run_append
    using run_keeps [where P = "\<lambda>a. retired_name a (TrimSpace n)", OF account_run_ok assms(1) assms(3)] retired_command by blast
  then show ?thesis using assms(2)
    by (simp add: TrustedProxy_Login_def retired_refresh is_not_found_def)
qed

section \<open>Changing an account\<close>

lemma user_row_of_users: "ac_users a' = ac_users a \<Longrightarrow> user_row_of a' x = user_row_of a x"
  by (simp add: user_row_of_def)

lemma users_setLocalCredential: "setLocalCredential uid h a = Inr a' \<Longrightarrow> ac_users a' = ac_users a"
  by (auto simp: setLocalCredential_def split: if_splits)

lemma users_replaceUserGroups: "replaceUserGroups uid gs a = Inr a' \<Longrightarrow> ac_users a' = ac_users a"
  unfolding replaceUserGroups_def by (erule forR_invariant) (auto split: if_splits)

lemma row_updateUserAccountRecord:
  assumes "updateUserAccountRecord e u a = Inr a'"
  obtains p r where "user_row_of a (au_user u) = Some r" and "user_row_of a' (au_user u) = Some (updated_user_row u p r)"
    and "\<And>x. x \<noteq> au_user u \<Longrightarrow> user_row_of a' x = user_row_of a x"
proof -
  from assms obtain p0 where p: "userProfile a (au_user u) = Inr p0"
    and u: "ac_users a' = update_rows (\<lambda>r. uw_id r = au_user u) (updated_user_row u (UpdatedProfile u p0)) (ac_users a)"
    by (auto simp: updateUserAccountRecord_def Let_def result_simps split: if_splits)
  from p obtain r where r: "user_row_of a (au_user u) = Some r" by (auto simp: userProfile_def split: option.splits)
  have "user_row_of a' x = map_option (\<lambda>r. if uw_id r = au_user u then updated_user_row u (UpdatedProfile u p0) r else r) (user_row_of a x)" for x
    unfolding user_row_of_def u by (rule row_with_update) (simp add: updated_user_row_def)
  with r user_row_of_Some show thesis
    by (intro that [of r "UpdatedProfile u p0"]) (auto dest: user_row_of_Some simp: map_option_case split: option.splits)
qed

lemma row_UpdateUserAccount:
  assumes "UpdateUserAccount e u a = Inr a'"
  obtains p r where "user_row_of a (au_user u) = Some r" and "user_row_of a' (au_user u) = Some (updated_user_row u p r)"
    and "\<And>x. x \<noteq> au_user u \<Longrightarrow> user_row_of a' x = user_row_of a x"
proof -
  from assms obtain a1 a2 where a1: "updateUserAccountRecord e u a = Inr a1"
    and a2: "replaceUserGroups (au_user u) (au_groups u) (updateUserCredentialState u a1) = Inr a2"
    and a': "(if au_password_hash u \<noteq> [] then setLocalCredential (au_user u) (au_password_hash u) a2 else Inr a2) = Inr a'"
    unfolding UpdateUserAccount_def by (force simp: result_simps split: if_splits)
  have "ac_users a' = ac_users a1"
    using users_replaceUserGroups [OF a2] a' by (auto split: if_splits dest: users_setLocalCredential)
  from user_row_of_users [OF this] row_updateUserAccountRecord [OF a1] that show thesis by metis
qed

definition same_target :: "account_update \<Rightarrow> account_update \<Rightarrow> bool" where
  "same_target u u' = (au_user u' = au_user u \<and> au_role u' = au_role u \<and> au_enabled u' = au_enabled u)"

lemma prepared_names:
  "prepareUsernameUpdate i p u = Inr u' \<Longrightarrow> same_target u u'"
  "prepareEmailUpdate svc i p u = Inr u' \<Longrightarrow> same_target u u'"
  "same_target u (prepareDisplayNameUpdate i p u)"
  by (auto simp: prepareUsernameUpdate_def prepareEmailUpdate_def prepareDisplayNameUpdate_def Let_def same_target_def
      split: if_splits option.splits)

lemma prepared_profile: "prepareProfileUpdate svc i p u = Inr u' \<Longrightarrow> same_target u u'"
  using prepared_names
  by (cases "changesProfile i") (force simp: prepareProfileUpdate_def result_simps same_target_def)+

lemma prepared_credential: "prepareLocalCredentialUpdate a i u = Inr u' \<Longrightarrow> same_target u u'"
  by (auto simp: prepareLocalCredentialUpdate_def same_target_def split: if_splits)

lemma prepared_password: "preparePasswordUpdate svc pw u = Inr u' \<Longrightarrow> same_target u u'"
  by (auto simp: preparePasswordUpdate_def same_target_def result_simps split: if_splits option.splits)

lemma UpdateAccount_Inr:
  assumes "UpdateAccount svc e i a = Inr (a', fx)"
  obtains u where "validateAccountUpdate i = Inr ()" and "au_user u = ui_user i" and "au_role u = ui_role i"
    and "au_enabled u = ui_enabled i" and "UpdateUserAccount e u a = Inr a'"
proof -
  from assms obtain profile u0 u1 u where v: "validateAccountUpdate i = Inr ()"
    and u0: "(case profile of None \<Rightarrow> Inr (initial_update i) | Some p \<Rightarrow> prepareProfileUpdate svc i p (initial_update i)) = Inr u0"
    and u1: "prepareLocalCredentialUpdate a i u0 = Inr u1" and u: "preparePasswordUpdate svc (ui_password i) u1 = Inr u"
    and a': "UpdateUserAccount e u a = Inr a'"
    unfolding UpdateAccount_def bindR_eq_Inr sum.inject prod.inject by (elim exE conjE) (auto intro: that)
  from u0 have "same_target (initial_update i) u0"
    by (cases profile) (simp_all add: same_target_def [of u0 u0] prepared_profile)
  with prepared_credential [OF u1] prepared_password [OF u] have "same_target (initial_update i) u"
    by (simp add: same_target_def)
  with v a' show thesis by (intro that) (simp_all add: same_target_def initial_update_def)
qed

text \<open>C6: An administrator who changes an account cannot lock themselves out: after a successful update the account of the actor, if it was an enabled administrator account, still is one; the changed account has the requested role and state, and no other account is touched.\<close>

theorem update_account_keeps_an_administrator:
  assumes "UpdateAccount svc e i a = Inr (a', fx)"
    and "user_row_of a (u_id (ui_actor i)) = Some r" and "uw_role r = UserRoleAdmin" and "uw_enabled r"
  shows "(\<exists>r'. user_row_of a' (u_id (ui_actor i)) = Some r' \<and> uw_role r' = UserRoleAdmin \<and> uw_enabled r') \<and>
    (\<exists>t. user_row_of a' (ui_user i) = Some t \<and> uw_role t = ui_role i \<and> uw_enabled t = ui_enabled i) \<and>
    (\<forall>x. x \<noteq> ui_user i \<longrightarrow> user_row_of a' x = user_row_of a x)"
proof -
  from assms(1) obtain u where v: "validateAccountUpdate i = Inr ()" and u: "au_user u = ui_user i" "au_role u = ui_role i" "au_enabled u = ui_enabled i"
    and a': "UpdateUserAccount e u a = Inr a'" by (rule UpdateAccount_Inr) (rule that)
  from a' obtain p t where t: "user_row_of a' (ui_user i) = Some (updated_user_row u p t)"
    and o': "\<And>x. x \<noteq> ui_user i \<Longrightarrow> user_row_of a' x = user_row_of a x"
    by (rule row_UpdateUserAccount) (simp add: u)
  from v have "ui_user i = u_id (ui_actor i) \<Longrightarrow> ui_role i = UserRoleAdmin \<and> ui_enabled i"
    by (auto simp: validateAccountUpdate_def split: if_splits)
  then show ?thesis using t o' assms(2-4) u by (cases "ui_user i = u_id (ui_actor i)") (auto simp: updated_user_row_def)
qed

theorem update_account_keeps_an_administrator_witness:
  "\<exists>a fx r. UpdateAccount no_passwords (account_env 3) (bob_change UserRoleEditor False) (account_run two_accounts) = Inr (a, fx) \<and>
     user_row_of a 1 = Some r \<and> uw_role r = UserRoleAdmin \<and> uw_enabled r"
proof -
  let ?a = "account_run two_accounts"
  let ?u = "UpdateAccount no_passwords (account_env 3) (bob_change UserRoleEditor False) ?a"
  have u: "case ?u of Inr _ \<Rightarrow> True | Inl _ \<Rightarrow> False" by code_simp
  then obtain a fx where u: "?u = Inr (a, fx)" by (auto split: sum.splits)
  have r: "case user_row_of ?a 1 of Some r \<Rightarrow> uw_role r = UserRoleAdmin \<and> uw_enabled r | None \<Rightarrow> False" by code_simp
  then obtain r where r: "user_row_of ?a (u_id (ui_actor (bob_change UserRoleEditor False))) = Some r" "uw_role r = UserRoleAdmin" "uw_enabled r"
    by (auto simp: bob_change_def root_user_def split: option.splits)
  from update_account_keeps_an_administrator [OF u r] u show ?thesis by (auto simp: bob_change_def root_user_def)
qed

section \<open>Disabled accounts\<close>

lemma disabled_row:
  assumes "accounts_ok a" and "user_row_of a uid = Some r" and "\<not> uw_enabled r" and "x \<in> set (ac_users a)" and "uw_enabled x"
  shows "uw_id x \<noteq> uid"
  using user_row_of_eq [OF assms(1,4)] assms(2,3,5) by auto

text \<open>C7: Four lookups of the store never resolve to a disabled account: by local credential, by local session, by personal access token and by the OpenID identity of a session.\<close>

theorem disabled_account_cannot_authenticate:
  assumes "user_row_of (account_run cs) uid = Some r" and "\<not> uw_enabled r"
  shows "(case LocalCredential (account_run cs) name of Inl _ \<Rightarrow> True | Inr (u, h) \<Rightarrow> u_id u \<noteq> uid) \<and>
    (case LocalUserBySession e (account_run cs) t of Inl _ \<Rightarrow> True | Inr u \<Rightarrow> u_id u \<noteq> uid) \<and>
    (case UserByToken sha e t (account_run cs) of Inl _ \<Rightarrow> True | Inr (u, a) \<Rightarrow> u_id u \<noteq> uid) \<and>
    (case OIDCUser (account_run cs) i s of Inl _ \<Rightarrow> True | Inr u \<Rightarrow> u_id u \<noteq> uid)"
proof -
  note off = disabled_row [OF account_run_ok assms]
  show ?thesis
    by (intro conjI) (auto simp: LocalCredential_def LocalUserBySession_def UserByToken_def OIDCUser_def oidcUserForUpdate_def
      can_sign_in_def to_user_def Let_def split: option.splits if_splits dest!: row_with_Some user_row_of_Some dest: off)
qed

theorem disabled_account_cannot_authenticate_witness:
  "\<exists>cs r. user_row_of (account_run cs) 2 = Some r \<and> \<not> uw_enabled r \<and> HasLocalCredential (account_run cs) 2 \<and>
     (case LocalCredential (account_run cs) ''bob'' of Inl _ \<Rightarrow> True | Inr (u, h) \<Rightarrow> u_id u \<noteq> 2)"
proof -
  let ?cs = "two_accounts @ [(account_env 3, SetPassword 2 ''pw''), (account_env 3, ChangeAccount no_passwords (bob_change UserRoleViewer False))]"
  have "case user_row_of (account_run ?cs) 2 of Some r \<Rightarrow> \<not> uw_enabled r | None \<Rightarrow> False" by code_simp
  then obtain r where r: "user_row_of (account_run ?cs) 2 = Some r" "\<not> uw_enabled r" by (auto split: option.splits)
  moreover have "HasLocalCredential (account_run ?cs) 2" by code_simp
  moreover have "case LocalCredential (account_run ?cs) ''bob'' of Inl _ \<Rightarrow> True | Inr (u, h) \<Rightarrow> u_id u \<noteq> 2"
    by (rule conjunct1 [OF disabled_account_cannot_authenticate [OF r]])
  ultimately show ?thesis by blast
qed

section \<open>Tokens\<close>

text \<open>C8: The secret of a new personal access token authenticates its enabled owner until it expires; after the token is deleted the secret is refused.\<close>

theorem token_authenticates_until_deleted:
  assumes "CreateToken sha rnd e n uid c x (account_run cs) = Inr (t, secret, a)"
    and "user_row_of (account_run cs) uid = Some r" and "uw_enabled r" and "case x of None \<Rightarrow> True | Some y \<Rightarrow> en_now e' < y"
  shows "\<exists>a1 a2. UserByToken sha e' secret a = Inr (to_user r, a1) \<and> DeleteToken (at_id t) a = Inr a2 \<and>
    UserByToken sha e' secret a2 = Inl ErrNotFound"
proof -
  let ?a = "account_run cs"
  define row where "row = \<lparr>tk_id = ac_next_token ?a, tk_name = TrimSpace n, tk_hash = sha secret, tk_user = Some uid,
              tk_created_by = Some c, tk_created = en_now e, tk_last_used = None, tk_expires = x\<rparr>"
  from assms(1) have a: "ac_tokens a = ac_tokens ?a @ [row]" "ac_users a = ac_users ?a" and i: "at_id t = tk_id row"
    and fresh: "\<forall>y \<in> set (ac_tokens ?a). tk_hash y \<noteq> sha secret"
    by (auto simp: CreateToken_def Let_def result_simps row_def list_ex_iff split: if_splits)
  have ids: "\<forall>y \<in> set (ac_tokens ?a). tk_id y \<noteq> tk_id row" using account_run_ok [of cs] by (force simp: accounts_ok_def tokens_ok_def row_def)
  have r: "row_with (\<lambda>y. uid = uw_id y \<and> uw_enabled y) (ac_users ?a) = Some r"
    by (rule row_with_unique [where k = uw_id and x = uid])
      (use user_row_of_Some [OF assms(2)] account_run_ok [of cs] assms(3) in \<open>auto simp: accounts_ok_def users_ok_def\<close>)
  have owner: "token_owner row = Some uid" by (simp add: token_owner_def row_def)
  have "token_valid e' a (sha secret) row"
    unfolding token_valid_def owner using user_row_of_Some [OF assms(2)] assms(3,4) a(2)
    by (auto simp: row_def list_ex_iff)
  moreover have "row_with (token_valid e' b (sha secret)) (ac_tokens ?a) = None" for b
    using fresh by (auto simp: table_simps token_valid_def)
  ultimately have find: "row_with (token_valid e' a (sha secret)) (ac_tokens a) = Some row"
    and gone: "row_with (token_valid e' b (sha secret)) (ac_tokens ?a) = None" for b by (simp_all add: a row_with_append)
  have del: "delete_rows (\<lambda>y. tk_id y = tk_id row) (ac_tokens a) = ac_tokens ?a"
    using ids by (auto simp: a delete_rows_def filter_id_conv)
  have "DeleteToken (at_id t) a = Inr (a\<lparr>ac_tokens := ac_tokens ?a\<rparr>)"
    using del by (simp add: DeleteToken_def i a)
  moreover have "UserByToken sha e' secret (a\<lparr>ac_tokens := ac_tokens ?a\<rparr>) = Inl ErrNotFound"
    by (simp add: UserByToken_def gone)
  moreover have "\<exists>a1. UserByToken sha e' secret a = Inr (to_user r, a1)"
    unfolding UserByToken_def find by (simp add: owner a(2) r)
  ultimately show ?thesis by blast
qed

theorem token_authenticates_until_deleted_witness:
  "\<exists>t a r a1. CreateToken (\<lambda>s. s) ''r'' (account_env 3) ''ci'' 2 1 (Some 50) (account_run two_accounts) = Inr (t, ''kumbuka_pat_r'', a) \<and>
     UserByToken (\<lambda>s. s) (account_env 4) ''kumbuka_pat_r'' a = Inr (to_user r, a1)"
proof -
  let ?c = "CreateToken (\<lambda>s. s) ''r'' (account_env 3) ''ci'' 2 1 (Some 50) (account_run two_accounts)"
  have "case ?c of Inr (t, s, a) \<Rightarrow> s = ''kumbuka_pat_r'' | Inl _ \<Rightarrow> False" by code_simp
  then obtain t a where c: "?c = Inr (t, ''kumbuka_pat_r'', a)" by (auto split: sum.splits)
  have "case user_row_of (account_run two_accounts) 2 of Some r \<Rightarrow> uw_enabled r | None \<Rightarrow> False" by code_simp
  then obtain r where r: "user_row_of (account_run two_accounts) 2 = Some r" "uw_enabled r" by (auto split: option.splits)
  have "case Some 50 of None \<Rightarrow> True | Some y \<Rightarrow> en_now (account_env 4) < y" by (simp add: account_env_def)
  from token_authenticates_until_deleted [OF c r this] c show ?thesis by blast
qed

section \<open>Asserted memberships\<close>

lemma members_fold:
  "set (ac_members (fold (\<lambda>g a. if g \<in> D then a else a\<lparr>ac_members := delete_rows (\<lambda>m. m = (uid, g)) (ac_members a)\<rparr>) gs a)) =
   {m \<in> set (ac_members a). \<not> (fst m = uid \<and> snd m \<in> set gs - D)}"
  by (induction gs arbitrary: a) (auto simp: table_simps)

lemma members_forR:
  assumes "forR gs (\<lambda>g a. if g \<notin> g_id ` set (ac_groups a) then Inl e1 else if user_row_of a uid = None then Inl e2
    else Inr (add_member uid g a)) a = Inr a'"
  shows "set (ac_members a') = set (ac_members a) \<union> {uid} \<times> set gs"
  using assms
  by (induction gs arbitrary: a) (auto simp: result_simps add_member_def split: if_splits)

definition mapped_group :: "(string \<times> int) list \<Rightarrow> int \<Rightarrow> bool" where
  "mapped_group mappings g = (0 < g \<and> list_ex (\<lambda>m. snd m = g) mappings)"

definition claimed_group :: "string list \<Rightarrow> (string \<times> int) list \<Rightarrow> int \<Rightarrow> bool" where
  "claimed_group claims mappings g =
     (0 < g \<and> list_ex (\<lambda>m. snd m = g \<and> TrimSpace (fst m) \<noteq> [] \<and> list_ex (\<lambda>c. TrimSpace c = TrimSpace (fst m)) claims) mappings)"

lemma desired_claimed:
  "g \<in> set (mp_desired (buildOIDCGroupMembershipPlan claims mappings)) \<longleftrightarrow> claimed_group claims mappings g"
proof -
  have "g \<in> set (mp_desired (buildOIDCGroupMembershipPlan claims mappings)) \<longleftrightarrow>
    (\<exists>m \<in> set mappings. snd m > 0 \<and> TrimSpace (fst m) \<in> {c \<in> TrimSpace ` set claims. c \<noteq> []} \<and> snd m = g)"
    by (auto simp: buildOIDCGroupMembershipPlan_def Let_def image_iff) (metis fst_conv snd_conv, metis)
  also have "\<dots> \<longleftrightarrow> claimed_group claims mappings g"
    unfolding claimed_group_def list_ex_iff image_iff mem_Collect_eq by metis
  finally show ?thesis .
qed

text \<open>C9: Synchronising the groups an identity provider asserts, when it succeeds, gives the user exactly the mapped groups that are claimed; if the provider is authoritative the other mapped groups of the user are removed. Groups without a mapping and other users are left alone.\<close>

theorem sync_groups_exact:
  assumes "SyncOIDCGroups uid claims mappings authoritative a = Inr a'"
  shows "(u, g) \<in> set (ac_members a') \<longleftrightarrow>
    u = uid \<and> claimed_group claims mappings g \<or>
    (u, g) \<in> set (ac_members a) \<and> \<not> (authoritative \<and> u = uid \<and> mapped_group mappings g \<and> \<not> claimed_group claims mappings g)"
proof -
  let ?p = "buildOIDCGroupMembershipPlan claims mappings"
  have d: "g \<in> set (mp_desired ?p) \<longleftrightarrow> claimed_group claims mappings g" for g
    by (rule desired_claimed)
  have m: "g \<in> set (mp_managed ?p) \<longleftrightarrow> mapped_group mappings g" for g
    by (auto simp: buildOIDCGroupMembershipPlan_def mapped_group_def Let_def list_ex_iff)
  from assms have "set (ac_members a') = set (ac_members (if authoritative
      then fold (\<lambda>g a. if g \<in> set (mp_desired ?p) then a else a\<lparr>ac_members := delete_rows (\<lambda>m. m = (uid, g)) (ac_members a)\<rparr>) (mp_managed ?p) a
      else a)) \<union> {uid} \<times> set (mp_desired ?p)"
    unfolding SyncOIDCGroups_def applyOIDCGroupMembershipPlan_def Let_def by (rule members_forR)
  then have "set (ac_members a') = {x \<in> set (ac_members a). \<not> (authoritative \<and> fst x = uid \<and> snd x \<in> set (mp_managed ?p) - set (mp_desired ?p))}
      \<union> {uid} \<times> set (mp_desired ?p)"
    by (cases authoritative) (simp_all only: members_fold if_True if_False simp_thms Collect_mem_eq)
  then show ?thesis by (simp only: d m) (auto simp: d m)
qed

theorem sync_groups_exact_witness:
  "\<exists>a. SyncOIDCGroups 2 ['' dev''] [(''dev'', 1), (''ops'', 2)] True
      (account_run (two_accounts @ [(account_env 3, NewGroup ''Dev''), (account_env 3, NewGroup ''Ops''), (account_env 3, JoinGroup 2 2)])) = Inr a \<and>
     (2, 1) \<in> set (ac_members a) \<and> (2, 2) \<notin> set (ac_members a)"
proof -
  let ?s = "SyncOIDCGroups 2 ['' dev''] [(''dev'', 1), (''ops'', 2)] True
      (account_run (two_accounts @ [(account_env 3, NewGroup ''Dev''), (account_env 3, NewGroup ''Ops''), (account_env 3, JoinGroup 2 2)]))"
  have "case ?s of Inr _ \<Rightarrow> True | Inl _ \<Rightarrow> False" by code_simp
  then obtain a where s: "?s = Inr a" by (auto split: sum.splits)
  have c: "claimed_group ['' dev''] [(''dev'', 1), (''ops'', 2)] 1" "\<not> claimed_group ['' dev''] [(''dev'', 1), (''ops'', 2)] 2"
    "mapped_group [(''dev'', 1), (''ops'', 2)] 2" by code_simp+
  from sync_groups_exact [OF s, of 2 1] sync_groups_exact [OF s, of 2 2] s c show ?thesis by blast
qed

end
