(* ===== verification/Webhooks.thy ===== *)
theory Webhooks
  imports Store Slugs
begin

text \<open>
  Outgoing webhooks (\<open>postgres/webhooks.go\<close>, \<open>application/webhooks\<close>): their configuration with
  encrypted request headers, the validation of an administrator's input, and the delivery of an
  event to every webhook that subscribes to it, with a record of each outcome. The secret codec,
  the template engine, JSON validation, the URL parser, the HTTP header checks of \<open>x/net\<close> and the
  sending with its retries (Notifykit) are fields of the service.
\<close>

section \<open>Configuration\<close>

record webhook_header =
  hd_id :: int
  hd_name :: string
  hd_value :: string
  hd_sensitive :: bool
  hd_configured :: bool

text \<open>Durations are in nanoseconds, as \<open>time.Duration\<close> has them.\<close>

record webhook =
  wb_id :: int
  wb_name :: string
  wb_url :: string
  wb_events :: "string list"
  wb_template :: string
  wb_details :: bool
  wb_headers :: "webhook_header list"
  wb_retry :: bool
  wb_count :: int
  wb_backoff :: int
  wb_max_backoff :: int
  wb_jitter :: bool
  wb_enabled :: bool
  wb_created :: time
  wb_updated :: time

record webhook_delivery =
  wd_id :: int
  wd_webhook :: int
  wd_event :: string
  wd_status :: int
  wd_attempts :: int
  wd_error :: string
  wd_created :: time

record webhook_row =
  wr_id :: int
  wr_name :: string
  wr_url :: string
  wr_events :: "string list"
  wr_template :: string
  wr_details :: bool
  wr_retry :: bool
  wr_count :: int
  wr_backoff_ms :: int
  wr_max_backoff_ms :: int
  wr_jitter :: bool
  wr_enabled :: bool
  wr_created :: time
  wr_updated :: time

record header_row =
  hr_id :: int
  hr_webhook :: int
  hr_name :: string
  hr_value :: string
  hr_sensitive :: bool

record webhook_tables =
  wt_rows :: "webhook_row list"
  wt_headers :: "header_row list"
  wt_deliveries :: "webhook_delivery list"
  wt_next_row :: int
  wt_next_header :: int
  wt_next_delivery :: int

section \<open>The store\<close>

definition Milliseconds :: "int \<Rightarrow> int" where
  "Milliseconds d = (if d < 0 then - ((- d) div 1000000) else d div 1000000)"

text \<open>\<open>ORDER BY lower(name),id\<close>.\<close>

definition header_order :: "env \<Rightarrow> header_row \<Rightarrow> header_row \<Rightarrow> int" where
  "header_order e g h = cmp_then (cmp_compare (en_sql_lower e (hr_name g)) (en_sql_lower e (hr_name h))) (cmp_compare (hr_id g) (hr_id h))"

definition webhook_order :: "env \<Rightarrow> webhook_row \<Rightarrow> webhook_row \<Rightarrow> int" where
  "webhook_order e v w = cmp_then (cmp_compare (en_sql_lower e (wr_name v)) (en_sql_lower e (wr_name w))) (cmp_compare (wr_id v) (wr_id w))"

definition stored_header :: "header_row \<Rightarrow> webhook_header" where
  "stored_header h = \<lparr>hd_id = hr_id h, hd_name = hr_name h, hd_value = hr_value h, hd_sensitive = hr_sensitive h, hd_configured = False\<rparr>"

definition webhookHeaders :: "env \<Rightarrow> webhook_tables \<Rightarrow> int \<Rightarrow> webhook_header list" where
  "webhookHeaders e t i = map stored_header (sort_func (header_order e) (filter (\<lambda>h. hr_webhook h = i) (wt_headers t)))"

definition scanWebhook :: "webhook_row \<Rightarrow> webhook" where
  "scanWebhook r = \<lparr>wb_id = wr_id r, wb_name = wr_name r, wb_url = wr_url r, wb_events = wr_events r, wb_template = wr_template r,
     wb_details = wr_details r, wb_headers = [], wb_retry = wr_retry r, wb_count = wr_count r,
     wb_backoff = wr_backoff_ms r * 1000000, wb_max_backoff = wr_max_backoff_ms r * 1000000, wb_jitter = wr_jitter r,
     wb_enabled = wr_enabled r, wb_created = wr_created r, wb_updated = wr_updated r\<rparr>"

definition load_webhook :: "env \<Rightarrow> webhook_tables \<Rightarrow> webhook_row \<Rightarrow> webhook" where
  "load_webhook e t r = (scanWebhook r)\<lparr>wb_headers := webhookHeaders e t (wr_id r)\<rparr>"

definition store_Webhooks :: "env \<Rightarrow> webhook_tables \<Rightarrow> webhook list" where
  "store_Webhooks e t = map (load_webhook e t) (sort_func (webhook_order e) (wt_rows t))"

definition Webhook :: "env \<Rightarrow> webhook_tables \<Rightarrow> int \<Rightarrow> error + webhook" where
  "Webhook e t i = (case row_with (\<lambda>r. wr_id r = i) (wt_rows t) of None \<Rightarrow> Inl ErrNotFound | Some r \<Rightarrow> Inr (load_webhook e t r))"

text \<open>The columns that both statements write.\<close>

definition webhook_columns :: "env \<Rightarrow> webhook \<Rightarrow> webhook_row \<Rightarrow> webhook_row" where
  "webhook_columns e w r = r\<lparr>wr_name := wb_name w, wr_url := wb_url w, wr_events := wb_events w, wr_template := wb_template w,
     wr_details := wb_details w, wr_retry := wb_retry w, wr_count := wb_count w, wr_backoff_ms := Milliseconds (wb_backoff w),
     wr_max_backoff_ms := Milliseconds (wb_max_backoff w), wr_jitter := wb_jitter w, wr_enabled := wb_enabled w,
     wr_updated := en_now e\<rparr>"

text \<open>The checks and the two unique keys of the table; their violations have no domain meaning.\<close>

definition webhook_constraints :: "env \<Rightarrow> webhook_row \<Rightarrow> webhook_row list \<Rightarrow> error + unit" where
  "webhook_constraints e r others =
     (if wr_count r < 0 then Inl (InfrastructureError ''webhooks_retry_count_check'')
      else if wr_backoff_ms r < 0 then Inl (InfrastructureError ''webhooks_retry_backoff_ms_check'')
      else if wr_max_backoff_ms r < 0 then Inl (InfrastructureError ''webhooks_retry_max_backoff_ms_check'')
      else if list_ex (\<lambda>x. wr_name x = wr_name r) others then Inl (InfrastructureError ''webhooks_name_key'')
      else if list_ex (\<lambda>x. en_sql_lower e (wr_name x) = en_sql_lower e (wr_name r)) others then Inl (InfrastructureError ''webhooks_name_ci_idx'')
      else Inr ())"

definition insert_header :: "env \<Rightarrow> int \<Rightarrow> webhook_header \<Rightarrow> webhook_tables \<Rightarrow> error + webhook_tables" where
  "insert_header e i h t =
     (if list_ex (\<lambda>x. hr_webhook x = i \<and> en_sql_lower e (hr_name x) = en_sql_lower e (hd_name h)) (wt_headers t)
      then Inl (InfrastructureError ''webhook_headers_name_ci_idx'')
      else Inr (t\<lparr>wt_headers := wt_headers t @ [\<lparr>hr_id = wt_next_header t, hr_webhook = i, hr_name = hd_name h,
                    hr_value = hd_value h, hr_sensitive = hd_sensitive h\<rparr>],
                  wt_next_header := wt_next_header t + 1\<rparr>))"

definition replaceWebhookHeaders :: "env \<Rightarrow> int \<Rightarrow> webhook_header list \<Rightarrow> webhook_tables \<Rightarrow> error + webhook_tables" where
  "replaceWebhookHeaders e i hs t =
     forR hs (insert_header e i) (t\<lparr>wt_headers := delete_rows (\<lambda>h. hr_webhook h = i) (wt_headers t)\<rparr>)"

definition createWebhook :: "env \<Rightarrow> webhook \<Rightarrow> webhook_tables \<Rightarrow> error + (webhook \<times> webhook_tables)" where
  "createWebhook e w t =
     (let r = webhook_columns e w \<lparr>wr_id = wt_next_row t, wr_name = [], wr_url = [], wr_events = [], wr_template = [],
            wr_details = False, wr_retry = False, wr_count = 0, wr_backoff_ms = 0, wr_max_backoff_ms = 0, wr_jitter = False,
            wr_enabled = False, wr_created = en_now e, wr_updated = en_now e\<rparr> in
      bindR (webhook_constraints e r (wt_rows t)) (\<lambda>_.
      bindR (replaceWebhookHeaders e (wr_id r) (wb_headers w)
          (t\<lparr>wt_rows := wt_rows t @ [r], wt_next_row := wt_next_row t + 1\<rparr>)) (\<lambda>t1.
      Inr (load_webhook e t1 r, t1))))"

definition updateWebhook :: "env \<Rightarrow> int \<Rightarrow> webhook \<Rightarrow> webhook_tables \<Rightarrow> error + (webhook \<times> webhook_tables)" where
  "updateWebhook e i w t =
     (case row_with (\<lambda>r. wr_id r = i) (wt_rows t) of
        None \<Rightarrow> Inl ErrNotFound
      | Some r0 \<Rightarrow>
          let r = webhook_columns e w r0 in
          bindR (webhook_constraints e r (delete_rows (\<lambda>x. wr_id x = i) (wt_rows t))) (\<lambda>_.
          bindR (replaceWebhookHeaders e i (wb_headers w)
              (t\<lparr>wt_rows := update_rows (\<lambda>x. wr_id x = i) (\<lambda>_. r) (wt_rows t)\<rparr>)) (\<lambda>t1.
          Inr (load_webhook e t1 r, t1))))"

definition store_SaveWebhook :: "env \<Rightarrow> int \<Rightarrow> webhook \<Rightarrow> webhook_tables \<Rightarrow> error + (webhook \<times> webhook_tables)" where
  "store_SaveWebhook e i w t = (if i = 0 then createWebhook e w t else updateWebhook e i w t)"

definition DeleteWebhook :: "int \<Rightarrow> webhook_tables \<Rightarrow> error + webhook_tables" where
  "DeleteWebhook i t =
     (if \<not> list_ex (\<lambda>r. wr_id r = i) (wt_rows t) then Inl ErrNotFound
      else Inr (t\<lparr>wt_rows := delete_rows (\<lambda>r. wr_id r = i) (wt_rows t),
                  wt_headers := delete_rows (\<lambda>h. hr_webhook h = i) (wt_headers t),
                  wt_deliveries := delete_rows (\<lambda>d. wd_webhook d = i) (wt_deliveries t)\<rparr>))"

definition AddWebhookDelivery :: "env \<Rightarrow> int \<Rightarrow> string \<Rightarrow> int \<Rightarrow> int \<Rightarrow> string \<Rightarrow> webhook_tables \<Rightarrow> error + webhook_tables" where
  "AddWebhookDelivery e i event status attempts message t =
     (if attempts < 0 then Inl (InfrastructureError ''webhook_deliveries_attempts_check'')
      else if \<not> list_ex (\<lambda>r. wr_id r = i) (wt_rows t) then Inl (InfrastructureError ''webhook_deliveries_webhook_id_fkey'')
      else Inr (t\<lparr>wt_deliveries := wt_deliveries t @ [\<lparr>wd_id = wt_next_delivery t, wd_webhook = i, wd_event = event,
                    wd_status = status, wd_attempts = attempts, wd_error = message, wd_created = en_now e\<rparr>],
                  wt_next_delivery := wt_next_delivery t + 1\<rparr>))"

definition delivery_order :: "webhook_delivery \<Rightarrow> webhook_delivery \<Rightarrow> int" where
  "delivery_order a b = cmp_then (cmp_compare (wd_created b) (wd_created a)) (cmp_compare (wd_id b) (wd_id a))"

definition WebhookDeliveries :: "nat \<Rightarrow> webhook_tables \<Rightarrow> (string \<times> webhook_delivery) list" where
  "WebhookDeliveries limit t =
     take limit (concat (map (\<lambda>d. case row_with (\<lambda>r. wr_id r = wd_webhook d) (wt_rows t) of None \<Rightarrow> [] | Some r \<Rightarrow> [(wr_name r, d)])
       (sort_func delivery_order (wt_deliveries t))))"

section \<open>Events and their payload\<close>

datatype event_value = EVInt int | EVText string | EVMap "(string \<times> event_value) list"

text \<open>The zero time is \<open>None\<close>.\<close>

record outgoing_event =
  oe_event :: string
  oe_actor :: int
  oe_recipient :: int
  oe_type :: string
  oe_key :: string
  oe_detail :: string
  oe_data :: "(string \<times> event_value) list"
  oe_at :: "time option"

record template_user =
  tu_id :: int
  tu_mention :: string
  tu_display :: string
  tu_email :: string
  tu_enabled :: bool

record webhook_notification =
  wn_event :: outgoing_event
  wn_public :: string
  wn_actor :: "template_user option"
  wn_recipient :: "template_user option"

record template_payload =
  tp_actor_id :: int
  tp_type :: string
  tp_key :: string
  tp_detail :: string
  tp_data :: "(string \<times> event_value) list"
  tp_at :: "time option"
  tp_url :: string
  tp_actor :: "template_user option"
  tp_recipient :: "template_user option"

record render_data =
  rd_event :: string
  rd_payload :: template_payload
  rd_receiver :: string
  rd_title :: string

text \<open>What Notifykit is asked to send, and the last status, the number of attempts and the error it ends with.\<close>

record delivery_request =
  rq_receiver :: string
  rq_name :: string
  rq_url :: string
  rq_headers :: "(string \<times> string) list"
  rq_body :: "render_data \<Rightarrow> error + string"
  rq_retry :: "(int \<times> int \<times> int \<times> bool) option"

record send_outcome =
  so_status :: int
  so_attempts :: nat
  so_error :: "error option"

record webhooks_service =
  wk_secrets :: "((string \<Rightarrow> error + string) \<times> (string \<Rightarrow> error + string)) option"
  wk_public :: string
  wk_users :: "(int \<Rightarrow> error + user) option"
  wk_parse_uri :: "string \<Rightarrow> (string \<times> string) option"
  wk_valid_name :: "string \<Rightarrow> bool"
  wk_valid_value :: "string \<Rightarrow> bool"
  wk_template :: "string \<Rightarrow> error + (render_data \<Rightarrow> error + string)"
  wk_title_template :: "error + unit"
  wk_json_valid :: "string \<Rightarrow> bool"
  wk_error_text :: "error \<Rightarrow> string"
  wk_send :: "delivery_request \<Rightarrow> webhook_notification \<Rightarrow> send_outcome"

text \<open>\<open>strings.TrimLeft(s, "/")\<close> and \<open>strings.TrimRight(s, "/")\<close>.\<close>

definition public_url :: "string \<Rightarrow> string" where
  "public_url u = TrimRightByte (CHR ''/'') (TrimSpace u)"

definition hasWebhookPageDestination :: "string \<Rightarrow> outgoing_event \<Rightarrow> bool" where
  "hasWebhookPageDestination url ev = (url \<noteq> [] \<and> oe_type ev = ''page'' \<and> oe_key ev \<noteq> [])"

definition webhookObjectURL :: "string \<Rightarrow> outgoing_event \<Rightarrow> string" where
  "webhookObjectURL url ev =
     (if \<not> hasWebhookPageDestination url ev then [] else url @ ''/pages/'' @ dropWhile (\<lambda>c. c = CHR ''/'') (oe_key ev))"

definition notification_data :: "webhook_notification \<Rightarrow> string \<Rightarrow> string \<Rightarrow> render_data" where
  "notification_data n receiver title =
     (let ev = wn_event n in
      \<lparr>rd_event = oe_event ev,
       rd_payload = \<lparr>tp_actor_id = oe_actor ev, tp_type = oe_type ev, tp_key = oe_key ev, tp_detail = oe_detail ev, tp_data = oe_data ev,
         tp_at = oe_at ev, tp_url = webhookObjectURL (wn_public n) ev, tp_actor = wn_actor n, tp_recipient = wn_recipient n\<rparr>,
       rd_receiver = receiver, rd_title = title\<rparr>)"

definition webhookTemplateUserValue :: "user \<Rightarrow> template_user" where
  "webhookTemplateUserValue u = \<lparr>tu_id = u_id u, tu_mention = ''@'' @ u_username u, tu_display = u_display u, tu_email = u_email u,
     tu_enabled = u_enabled u\<rparr>"

definition resolve_template_user :: "(int \<Rightarrow> error + user) \<Rightarrow> int \<Rightarrow> error + template_user option" where
  "resolve_template_user users uid =
     (if uid = 0 then Inr None
      else (case users uid of
          Inl er \<Rightarrow> if is_not_found er then Inr None else Inl er
        | Inr u \<Rightarrow> Inr (Some (webhookTemplateUserValue u))))"

text \<open>\<open>fmt.Errorf("...: %w", err)\<close>: only the text of these errors is read again.\<close>

definition wrap_error :: "webhooks_service \<Rightarrow> string \<Rightarrow> error + 'a \<Rightarrow> error + 'a" where
  "wrap_error svc label r = (case r of Inl er \<Rightarrow> Inl (InfrastructureError (label @ wk_error_text svc er)) | Inr x \<Rightarrow> Inr x)"

definition build_notification :: "webhooks_service \<Rightarrow> webhook \<Rightarrow> outgoing_event \<Rightarrow> error + webhook_notification" where
  "build_notification svc w ev =
     (let n = \<lparr>wn_event = ev, wn_public = wk_public svc, wn_actor = None, wn_recipient = None\<rparr> in
      if \<not> wb_details w then Inr n
      else (case wk_users svc of
          None \<Rightarrow> Inl (InfrastructureError ''webhook user directory is unavailable'')
        | Some users \<Rightarrow>
            bindR (wrap_error svc ''resolve webhook actor: '' (resolve_template_user users (oe_actor ev))) (\<lambda>actor.
            bindR (wrap_error svc ''resolve webhook recipient: '' (resolve_template_user users (oe_recipient ev))) (\<lambda>recipient.
            Inr (n\<lparr>wn_actor := actor, wn_recipient := recipient\<rparr>)))))"

definition notificationForDelivery ::
  "webhooks_service \<Rightarrow> webhook \<Rightarrow> outgoing_event \<Rightarrow> webhook_notification option \<Rightarrow> error + webhook_notification" where
  "notificationForDelivery svc w ev prepared = (case prepared of Some n \<Rightarrow> Inr n | None \<Rightarrow> build_notification svc w ev)"

section \<open>Delivery\<close>

definition defaultWebhookBodyTemplate :: string where
  "defaultWebhookBodyTemplate = Join [
     ''{'',
     ''  \"event\": {{ .Input.Event | json }},'',
     ''  \"actor_id\": {{ .Payload.ActorID | json }},'',
     ''  \"object_type\": {{ .Payload.ObjectType | json }},'',
     ''  \"object_key\": {{ .Payload.ObjectKey | json }},'',
     ''  \"detail\": {{ .Payload.Detail | json }},'',
     ''  \"data\": {{ .Payload.Data | json }},'',
     ''  \"occurred_at\": {{ .Payload.OccurredAt | json }},'',
     ''  \"url\": {{ .Payload.URL | json }}'',
     ''}''] [CHR 0x0A]"

text \<open>Rows from before templates were configurable have none.\<close>

definition normalizeStoredWebhook :: "webhook \<Rightarrow> webhook" where
  "normalizeStoredWebhook w = (if TrimSpace (wb_template w) = [] then w\<lparr>wb_template := defaultWebhookBodyTemplate\<rparr> else w)"

text \<open>A Go map of headers: a later header replaces an earlier one of the same name.\<close>

definition set_header :: "string \<Rightarrow> string \<Rightarrow> (string \<times> string) list \<Rightarrow> (string \<times> string) list" where
  "set_header n v hs = delete_rows (\<lambda>h. fst h = n) hs @ [(n, v)]"

definition header_value :: "webhooks_service \<Rightarrow> webhook_header \<Rightarrow> error + string" where
  "header_value svc h =
     (if \<not> hd_sensitive h then Inr (hd_value h)
      else (case wk_secrets svc of
          None \<Rightarrow> Inl (InfrastructureError ''application encryption key is not configured'')
        | Some (_, decrypt) \<Rightarrow> decrypt (hd_value h)))"

definition webhookRequestHeaders :: "webhooks_service \<Rightarrow> webhook \<Rightarrow> outgoing_event \<Rightarrow> error + (string \<times> string) list" where
  "webhookRequestHeaders svc w ev =
     forR (wb_headers w) (\<lambda>h hs. bindR (header_value svc h) (\<lambda>v. Inr (set_header (hd_name h) v hs)))
       [(''User-Agent'', ''Kumbuka-Webhook/1''), (''X-Kumbuka-Event'', oe_event ev)]"

text \<open>A failure to write the history is logged and, after a successful delivery, returned.\<close>

definition recordWebhookDelivery ::
  "env \<Rightarrow> int \<Rightarrow> string \<Rightarrow> int \<Rightarrow> int \<Rightarrow> string \<Rightarrow> webhook_tables \<Rightarrow> error option \<times> webhook_tables" where
  "recordWebhookDelivery e i event status attempts message t =
     (case AddWebhookDelivery e i event status attempts message t of Inl er \<Rightarrow> (Some er, t) | Inr t1 \<Rightarrow> (None, t1))"

definition fail_delivery :: "webhooks_service \<Rightarrow> env \<Rightarrow> webhook \<Rightarrow> outgoing_event \<Rightarrow> error \<Rightarrow> webhook_tables \<Rightarrow> error option \<times> webhook_tables" where
  "fail_delivery svc e w ev er t = (Some er, snd (recordWebhookDelivery e (wb_id w) (oe_event ev) 0 0 (wk_error_text svc er) t))"

definition delivery_request_of :: "webhook \<Rightarrow> (string \<times> string) list \<Rightarrow> (render_data \<Rightarrow> error + string) \<Rightarrow> delivery_request" where
  "delivery_request_of w hs body = \<lparr>rq_receiver = ''webhook-'' @ show_int (wb_id w), rq_name = wb_name w, rq_url = wb_url w,
     rq_headers = hs, rq_body = body,
     rq_retry = (if wb_retry w then Some (wb_count w, wb_backoff w, wb_max_backoff w, wb_jitter w) else None)\<rparr>"

definition prepare_delivery ::
  "webhooks_service \<Rightarrow> webhook \<Rightarrow> outgoing_event \<Rightarrow> webhook_notification option \<Rightarrow> error + (delivery_request \<times> webhook_notification)" where
  "prepare_delivery svc w ev prepared =
     bindR (webhookRequestHeaders svc w ev) (\<lambda>hs.
     bindR (wk_template svc (wb_template w)) (\<lambda>body.
     bindR (wk_title_template svc) (\<lambda>_.
     bindR (notificationForDelivery svc w ev prepared) (\<lambda>n.
     Inr (delivery_request_of w hs body, n)))))"

definition deliverWithNotification ::
  "webhooks_service \<Rightarrow> env \<Rightarrow> webhook \<Rightarrow> outgoing_event \<Rightarrow> webhook_notification option \<Rightarrow> webhook_tables \<Rightarrow> error option \<times> webhook_tables" where
  "deliverWithNotification svc e w ev prepared t =
     (case prepare_delivery svc w ev prepared of
        Inl er \<Rightarrow> fail_delivery svc e w ev er t
      | Inr (rq, n) \<Rightarrow>
          let out = wk_send svc rq n;
              message = (case so_error out of None \<Rightarrow> [] | Some er \<Rightarrow> wk_error_text svc er);
              rec = recordWebhookDelivery e (wb_id w) (oe_event ev) (so_status out) (int (so_attempts out)) message t
          in (if so_error out \<noteq> None then so_error out else fst rec, snd rec))"

definition deliver :: "webhooks_service \<Rightarrow> env \<Rightarrow> webhook \<Rightarrow> outgoing_event \<Rightarrow> webhook_tables \<Rightarrow> error option \<times> webhook_tables" where
  "deliver svc e w ev t = deliverWithNotification svc e w ev None t"

definition subscribes :: "outgoing_event \<Rightarrow> webhook \<Rightarrow> bool" where
  "subscribes ev w = (wb_enabled w \<and> oe_event ev \<in> set (wb_events w))"

definition stamped :: "env \<Rightarrow> outgoing_event \<Rightarrow> outgoing_event" where
  "stamped e ev = (if oe_at ev = None then ev\<lparr>oe_at := Some (en_now e)\<rparr> else ev)"

text \<open>The errors that \<open>errors.Join\<close> collects, in the order of the deliveries.\<close>

primrec emit_all :: "webhooks_service \<Rightarrow> env \<Rightarrow> outgoing_event \<Rightarrow> webhook list \<Rightarrow> webhook_tables \<Rightarrow> error list \<times> webhook_tables" where
  "emit_all svc e ev [] t = ([], t)"
| "emit_all svc e ev (w # ws) t =
     (if \<not> subscribes ev w then emit_all svc e ev ws t
      else
        let (r, t1) = deliver svc e (normalizeStoredWebhook w) ev t;
            (errs, t2) = emit_all svc e ev ws t1
        in ((case r of None \<Rightarrow> [] | Some er \<Rightarrow> [er]) @ errs, t2))"

definition Emit :: "webhooks_service \<Rightarrow> env \<Rightarrow> outgoing_event \<Rightarrow> webhook_tables \<Rightarrow> error list \<times> webhook_tables" where
  "Emit svc e ev t = emit_all svc e (stamped e ev) (store_Webhooks e t) t"

section \<open>Validation\<close>

abbreviation "EventNotificationCreated \<equiv> ''notification.created''"

definition webhookEvents :: "string list" where
  "webhookEvents = [''page.created'', ''page.updated'', ''page.renamed'', ''page.deleted'', ''page.moved'',
     ''page.reviewed'', ''page.review_requested'', ''page.review_updated'', ''page.review_canceled'',
     ''page.review_approved'', ''page.review_changes_requested'', ''page.revision_restored'', ''comment.created'', ''pages.imported'',
     ''page.bulk_status'', ''page.bulk_tag'', ''page.bulk_group'', ''page.bulk_move'', ''page.bulk_delete'', EventNotificationCreated]"

definition normalizeWebhookEvents :: "string list \<Rightarrow> string list" where
  "normalizeWebhookEvents values =
     rev (fold (\<lambda>v result. let v = TrimSpace v in if v \<in> set webhookEvents \<and> v \<notin> set result then v # result else result) values [])"

record webhook_header_input =
  hi_id :: int
  hi_name :: string
  hi_value :: string
  hi_sensitive :: bool

record webhook_input =
  wi_name :: string
  wi_url :: string
  wi_events :: "string list"
  wi_template :: string
  wi_details :: bool
  wi_headers :: "webhook_header_input list"
  wi_retry :: bool
  wi_count :: int
  wi_backoff :: int
  wi_max_backoff :: int
  wi_jitter :: bool
  wi_enabled :: bool

definition maxWebhookRetryCount :: int where
  "maxWebhookRetryCount = 10"

definition maxWebhookRetryBackoff :: int where
  "maxWebhookRetryBackoff = 3600000000000"

definition validWebhookURL :: "string \<times> string \<Rightarrow> bool" where
  "validWebhookURL parsed = (snd parsed \<noteq> [] \<and> (fst parsed = ''http'' \<or> fst parsed = ''https''))"

definition validateWebhookIdentity :: "webhooks_service \<Rightarrow> webhook_input \<Rightarrow> string list \<Rightarrow> (string \<times> string) list" where
  "validateWebhookIdentity svc i events =
     (if wi_name i = [] then [(''name'', ''A webhook name is required.'')] else []) @
     (if (case wk_parse_uri svc (wi_url i) of None \<Rightarrow> True | Some u \<Rightarrow> \<not> validWebhookURL u)
      then [(''url'', ''Enter an absolute HTTP or HTTPS URL.'')] else []) @
     (if events = [] then [(''events'', ''Choose at least one event.'')] else [])"

definition validWebhookMaximumBackoff :: "webhook_input \<Rightarrow> bool" where
  "validWebhookMaximumBackoff i = (wi_max_backoff i \<ge> wi_backoff i \<and> wi_max_backoff i \<le> maxWebhookRetryBackoff)"

definition validateWebhookRetry :: "webhook_input \<Rightarrow> (string \<times> string) list" where
  "validateWebhookRetry i =
     (if \<not> wi_retry i then []
      else
        (if wi_count i < 1 \<or> wi_count i > maxWebhookRetryCount then [(''retry_count'', ''Retries must be between 1 and 10.'')] else []) @
        (if wi_backoff i \<le> 0 \<or> wi_backoff i > maxWebhookRetryBackoff
         then [(''retry_backoff'', ''Initial backoff must be greater than zero and at most 1h.'')] else []) @
        (if \<not> validWebhookMaximumBackoff i
         then [(''retry_max_backoff'', ''Maximum backoff must be at least the initial backoff and at most 1h.'')] else []))"

text \<open>The sample time is in seconds.\<close>

definition webhookTemplateSampleEvent :: "string \<Rightarrow> user \<Rightarrow> user \<Rightarrow> outgoing_event" where
  "webhookTemplateSampleEvent event actor recipient =
     (let sample = \<lparr>oe_event = event, oe_actor = u_id actor, oe_recipient = 0, oe_type = ''page'', oe_key = ''guides/example'',
            oe_detail = ''Example event'', oe_data = [], oe_at = Some 63924710400\<rparr> in
      if event = EventNotificationCreated then
        sample\<lparr>oe_recipient := u_id recipient, oe_type := ''notification'', oe_key := ''101'', oe_detail := [],
          oe_data := [
            (''recipient'', EVMap [
               (''user_id'', EVInt (u_id recipient)),
               (''mention'', EVText (''@'' @ u_username recipient)),
               (''display_name'', EVText (u_display recipient))]),
            (''notification'', EVMap [
               (''title'', EVText ''Test notification from Kumbuka''),
               (''body'', EVText ''This is a test webhook delivery from Kumbuka.''),
               (''url'', EVText ''/pages/guides/example''),
               (''source_type'', EVText ''plugin''),
               (''source_id'', EVText ''me.example.test''),
               (''source_name'', EVText ''Kumbuka test'')])]\<rparr>
      else if event = ''pages.imported'' then
        sample\<lparr>oe_type := ''import'', oe_key := ''markdown'', oe_detail := ''Imported 2 pages (completed)''\<rparr>
      else if event \<in> {''page.bulk_status'', ''page.bulk_tag'', ''page.bulk_group'', ''page.bulk_move'', ''page.bulk_delete''} then
        sample\<lparr>oe_key := ''guides/one,guides/two'', oe_detail := ''2 pages''\<rparr>
      else sample)"

definition webhookTemplateSampleNotification :: "string \<Rightarrow> string \<Rightarrow> bool \<Rightarrow> user \<Rightarrow> user \<Rightarrow> webhook_notification" where
  "webhookTemplateSampleNotification event url details actor recipient =
     (let ev = webhookTemplateSampleEvent event actor recipient in
      \<lparr>wn_event = ev, wn_public = url,
       wn_actor = (if details then Some (webhookTemplateUserValue actor) else None),
       wn_recipient = (if details \<and> oe_recipient ev \<noteq> 0 then Some (webhookTemplateUserValue recipient) else None)\<rparr>)"

definition sample_actor :: user where
  "sample_actor = \<lparr>u_id = 42, u_username = ''alice'', u_email = ''alice@example.test'', u_display = ''Alice Example'', u_role = [],
     u_enabled = True, u_external_admin = False, u_session_version = 0\<rparr>"

definition sample_recipient :: user where
  "sample_recipient = \<lparr>u_id = 43, u_username = ''bob'', u_email = ''bob@example.test'', u_display = ''Bob Example'', u_role = [],
     u_enabled = True, u_external_admin = False, u_session_version = 0\<rparr>"

text \<open>The text of the first error, if any.\<close>

primrec render_samples ::
  "webhooks_service \<Rightarrow> (render_data \<Rightarrow> error + string) \<Rightarrow> bool \<Rightarrow> string list \<Rightarrow> string option" where
  "render_samples svc render details [] = None"
| "render_samples svc render details (event # events) =
     (let n = webhookTemplateSampleNotification event ''https://kumbuka.example'' details sample_actor sample_recipient in
      case render (notification_data n ''Example'' event) of
        Inl er \<Rightarrow> Some (''render template for '' @ event @ '': '' @ wk_error_text svc er)
      | Inr body \<Rightarrow>
          if \<not> wk_json_valid svc body
          then Some (''render template for '' @ event @ '': result is not valid JSON; use | json for JSON values'')
          else render_samples svc render details events)"

definition validateWebhookBodyTemplate :: "webhooks_service \<Rightarrow> string \<Rightarrow> string list \<Rightarrow> bool \<Rightarrow> string option" where
  "validateWebhookBodyTemplate svc value events details =
     (case wk_template svc value of
        Inl er \<Rightarrow> Some (''parse template: '' @ wk_error_text svc er)
      | Inr render \<Rightarrow> render_samples svc render details events)"

definition validateWebhookTemplate :: "webhooks_service \<Rightarrow> string \<Rightarrow> string list \<Rightarrow> bool \<Rightarrow> (string \<times> string) list" where
  "validateWebhookTemplate svc value events details =
     (case validateWebhookBodyTemplate svc value events details of
        None \<Rightarrow> []
      | Some err \<Rightarrow> [(''body_template'', ''Payload template is invalid: '' @ err)])"

definition validateWebhookInput :: "webhooks_service \<Rightarrow> webhook_input \<Rightarrow> string list \<Rightarrow> error + unit" where
  "validateWebhookInput svc i events =
     (let fields = validateWebhookIdentity svc i events @ validateWebhookTemplate svc (wi_template i) events (wi_details i) @
            validateWebhookRetry i
      in if fields = [] then Inr () else Inl (ValidationError fields))"

section \<open>Request headers\<close>

definition reservedWebhookHeaderNames :: "string list" where
  "reservedWebhookHeaderNames = [''Connection'', ''Content-Length'', ''Content-Type'', ''Host'', ''Keep-Alive'', ''Proxy-Connection'',
     ''Te'', ''Trailer'', ''Transfer-Encoding'', ''Upgrade'']"

text \<open>\<open>textproto.CanonicalMIMEHeaderKey\<close>: a name that is not a token of RFC 7230 is returned as it is.\<close>

definition validHeaderFieldByte :: "char \<Rightarrow> bool" where
  "validHeaderFieldByte c = (IsAlphanumeric c \<or> c \<in> set ''!#$%&*+-.^_`|~'' \<or> byte c = 39)"

definition ToUpperByte :: "char \<Rightarrow> char" where
  "ToUpperByte c = (if 97 \<le> byte c \<and> byte c \<le> 122 then char_of (byte c - 32) else c)"

primrec canonical_bytes :: "bool \<Rightarrow> string \<Rightarrow> string" where
  "canonical_bytes upper [] = []"
| "canonical_bytes upper (c # cs) = (if upper then ToUpperByte c else ToLowerByte c) # canonical_bytes (c = CHR ''-'') cs"

definition CanonicalMIMEHeaderKey :: "string \<Rightarrow> string" where
  "CanonicalMIMEHeaderKey s = (if list_all validHeaderFieldByte s then canonical_bytes True s else s)"

definition normalizeWebhookHeaderName :: "webhooks_service \<Rightarrow> string \<Rightarrow> error + string" where
  "normalizeWebhookHeaderName svc name =
     (let n = TrimSpace name in
      if n = [] then Inl (NewValidationError ''headers'' ''Enter a name for every webhook request header.'')
      else if \<not> wk_valid_name svc n then Inl (NewValidationError ''headers'' ''Webhook header names must be valid HTTP header names.'')
      else
        let c = CanonicalMIMEHeaderKey n in
        if c \<in> set reservedWebhookHeaderNames
        then Inl (NewValidationError ''headers'' (c @ '' cannot be configured as a webhook request header.''))
        else Inr c)"

definition no_header :: webhook_header where
  "no_header = \<lparr>hd_id = 0, hd_name = [], hd_value = [], hd_sensitive = False, hd_configured = False\<rparr>"

text \<open>The header that an input edits and the identifiers seen so far.\<close>

definition existingWebhookHeader :: "int \<Rightarrow> webhook_header list \<Rightarrow> int list \<Rightarrow> error + (webhook_header \<times> int list)" where
  "existingWebhookHeader i existing seen =
     (if i = 0 then Inr (no_header, seen)
      else if i \<in> set seen then Inl (NewValidationError ''headers'' ''Webhook header rows must be unique.'')
      else (case row_with (\<lambda>h. hd_id h = i) existing of
          None \<Rightarrow> Inl (NewValidationError ''headers'' ''One webhook header no longer exists. Reload the page and try again.'')
        | Some h \<Rightarrow> Inr (h, i # seen)))"

definition preserveWebhookHeaderValue :: "webhook_header \<Rightarrow> webhook_header_input \<Rightarrow> bool" where
  "preserveWebhookHeaderValue previous hi = (hd_id previous \<noteq> 0 \<and> hd_sensitive previous \<and> hi_sensitive hi)"

definition prepareWebhookHeaderValue :: "webhooks_service \<Rightarrow> webhook_header \<Rightarrow> webhook_header_input \<Rightarrow> error + string" where
  "prepareWebhookHeaderValue svc previous hi =
     (if TrimSpace (hi_value hi) = [] then
        if preserveWebhookHeaderValue previous hi then Inr (hd_value previous)
        else Inl (NewValidationError ''headers'' ''Enter a value for every webhook request header.'')
      else if \<not> wk_valid_value svc (hi_value hi)
        then Inl (NewValidationError ''headers'' ''Webhook header values must be valid HTTP header values.'')
      else if \<not> hi_sensitive hi then Inr (hi_value hi)
      else (case wk_secrets svc of
          None \<Rightarrow> Inl (NewValidationError ''headers'' ''Configure KUMBUKA__ENCRYPTION_KEY before saving sensitive webhook headers.'')
        | Some (encrypt, _) \<Rightarrow> encrypt (hi_value hi)))"

text \<open>The loop keeps the headers, the lowered names and the identifiers it has seen.\<close>

definition prepareWebhookHeader ::
  "webhooks_service \<Rightarrow> env \<Rightarrow> webhook_header list \<Rightarrow> webhook_header_input \<Rightarrow>
   webhook_header list \<times> string list \<times> int list \<Rightarrow> error + (webhook_header list \<times> string list \<times> int list)" where
  "prepareWebhookHeader svc e existing hi s =
     (case s of (headers, names, ids) \<Rightarrow>
      bindR (normalizeWebhookHeaderName svc (hi_name hi)) (\<lambda>name.
      if en_lower e name \<in> set names then Inl (NewValidationError ''headers'' ''Webhook header names must be unique.'')
      else
        bindR (existingWebhookHeader (hi_id hi) existing ids) (\<lambda>(previous, ids1).
        bindR (prepareWebhookHeaderValue svc previous hi) (\<lambda>value.
        Inr (headers @ [\<lparr>hd_id = hd_id previous, hd_name = name, hd_value = value, hd_sensitive = hi_sensitive hi, hd_configured = False\<rparr>],
             en_lower e name # names, ids1)))))"

definition webhookHeadersByID :: "env \<Rightarrow> webhook_tables \<Rightarrow> int \<Rightarrow> error + webhook_header list" where
  "webhookHeadersByID e t i = (if i = 0 then Inr [] else bindR (Webhook e t i) (\<lambda>w. Inr (wb_headers w)))"

definition prepareWebhookHeaders ::
  "webhooks_service \<Rightarrow> env \<Rightarrow> webhook_tables \<Rightarrow> int \<Rightarrow> webhook_header_input list \<Rightarrow> error + webhook_header list" where
  "prepareWebhookHeaders svc e t i inputs =
     bindR (webhookHeadersByID e t i) (\<lambda>existing.
     bindR (forR inputs (prepareWebhookHeader svc e existing) ([], [], [])) (\<lambda>s. Inr (fst s)))"

section \<open>Use cases\<close>

definition maskedWebhookHeaders :: "webhook_header list \<Rightarrow> webhook_header list" where
  "maskedWebhookHeaders hs =
     map (\<lambda>h. if hd_sensitive h then h\<lparr>hd_configured := (hd_value h \<noteq> []), hd_value := []\<rparr> else h) hs"

definition masked :: "webhook \<Rightarrow> webhook" where
  "masked w = (let w = normalizeStoredWebhook w in w\<lparr>wb_headers := maskedWebhookHeaders (wb_headers w)\<rparr>)"

definition DefaultWebhook :: webhook where
  "DefaultWebhook = \<lparr>wb_id = 0, wb_name = [], wb_url = [], wb_events = [], wb_template = defaultWebhookBodyTemplate, wb_details = False,
     wb_headers = [], wb_retry = False, wb_count = 2, wb_backoff = 1000000000, wb_max_backoff = 30000000000, wb_jitter = True,
     wb_enabled = True, wb_created = 0, wb_updated = 0\<rparr>"

definition Webhooks_Webhooks :: "env \<Rightarrow> webhook_tables \<Rightarrow> webhook list" where
  "Webhooks_Webhooks e t = map masked (store_Webhooks e t)"

definition trimmed_input :: "webhook_input \<Rightarrow> webhook_input" where
  "trimmed_input i =
     (let body = TrimSpace (wi_template i) in
      i\<lparr>wi_name := TrimSpace (wi_name i), wi_url := TrimSpace (wi_url i),
        wi_template := (if body = [] then defaultWebhookBodyTemplate else body)\<rparr>)"

definition webhook_of_input :: "webhook_input \<Rightarrow> string list \<Rightarrow> webhook_header list \<Rightarrow> webhook" where
  "webhook_of_input i events headers =
     \<lparr>wb_id = 0, wb_name = wi_name i, wb_url = wi_url i, wb_events = events, wb_template = wi_template i, wb_details = wi_details i,
      wb_headers = headers, wb_retry = wi_retry i, wb_count = wi_count i, wb_backoff = wi_backoff i, wb_max_backoff = wi_max_backoff i,
      wb_jitter = wi_jitter i, wb_enabled = wi_enabled i, wb_created = 0, wb_updated = 0\<rparr>"

definition SaveWebhook :: "webhooks_service \<Rightarrow> env \<Rightarrow> int \<Rightarrow> webhook_input \<Rightarrow> webhook_tables \<Rightarrow> error + (webhook \<times> webhook_tables)" where
  "SaveWebhook svc e i input t =
     (let inp = trimmed_input input; events = normalizeWebhookEvents (wi_events inp) in
      bindR (validateWebhookInput svc inp events) (\<lambda>_.
      bindR (prepareWebhookHeaders svc e t i (wi_headers inp)) (\<lambda>headers.
      bindR (store_SaveWebhook e i (webhook_of_input inp events headers) t) (\<lambda>(saved, t1).
      Inr (masked saved, t1)))))"

definition RevealWebhookHeader :: "webhooks_service \<Rightarrow> env \<Rightarrow> webhook_tables \<Rightarrow> int \<Rightarrow> int \<Rightarrow> error + string" where
  "RevealWebhookHeader svc e t i hid =
     bindR (Webhook e t i) (\<lambda>w.
     case row_with (\<lambda>h. hd_id h = hid) (wb_headers w) of
       None \<Rightarrow> Inl ErrNotFound
     | Some h \<Rightarrow>
         if \<not> hd_sensitive h then Inr (hd_value h)
         else (case wk_secrets svc of
             None \<Rightarrow> Inl (NewValidationError ''headers'' ''Configure KUMBUKA__ENCRYPTION_KEY before revealing sensitive webhook headers.'')
           | Some (_, decrypt) \<Rightarrow> decrypt (hd_value h)))"

definition TestWebhook ::
  "webhooks_service \<Rightarrow> env \<Rightarrow> int \<Rightarrow> string \<Rightarrow> user \<Rightarrow> webhook_tables \<Rightarrow> error option \<times> webhook_tables" where
  "TestWebhook svc e i eventName actor t =
     (case Webhook e t i of
        Inl er \<Rightarrow> (Some er, t)
      | Inr w0 \<Rightarrow>
          let w = normalizeStoredWebhook w0; event = TrimSpace eventName in
          if event \<notin> set (wb_events w) then (Some (NewValidationError ''event'' ''Choose an event configured for this webhook.''), t)
          else
            let n = webhookTemplateSampleNotification event (wk_public svc) (wb_details w) actor actor in
            deliverWithNotification svc e w (wn_event n) (Some n) t)"

end
