(* ===== verification/Mentions.thy ===== *)
theory Mentions
  imports GoStrings Slugs
begin

text \<open>
  The username mentions of a text (\<open>pkg/mention/mention.go\<close>): the scanning loop, that it returns on
  every text, and which positions of the text it reports.
\<close>

record mention_range =
  mr_start :: nat
  mr_end :: nat
  mr_username :: string

definition wordByte :: "char \<Rightarrow> bool" where
  "wordByte c = (IsAlphanumeric c \<or> c = CHR ''_'')"

definition nameByte :: "char \<Rightarrow> bool" where
  "nameByte c = (wordByte c \<or> c = CHR ''.'' \<or> c = CHR ''-'')"

definition nextIndex :: "string \<Rightarrow> nat \<Rightarrow> string \<Rightarrow> nat option" where
  "nextIndex s offset target = map_option ((+) offset) (Index (drop offset s) target)"

definition validMentionBoundary :: "string \<Rightarrow> nat \<Rightarrow> nat \<Rightarrow> bool" where
  "validMentionBoundary s start consumed =
     (if start = 0 then True else if start \<le> consumed then False else \<not> wordByte (s ! (start - 1)))"

definition insideOpenMacro :: "string \<Rightarrow> nat \<Rightarrow> bool" where
  "insideOpenMacro s offset =
     (case LastIndex (take offset s) ''{{'' of
        None \<Rightarrow> False
      | Some lastOpen \<Rightarrow> (case LastIndex (take offset s) ''}}'' of None \<Rightarrow> True | Some lastClose \<Rightarrow> lastClose < lastOpen))"

definition macroEnd :: "string \<Rightarrow> nat \<Rightarrow> nat option" where
  "macroEnd s at =
     (if \<not> insideOpenMacro s at then None
      else Some (case nextIndex s at ''}}'' of None \<Rightarrow> length s | Some close \<Rightarrow> close + 2))"

definition name_end :: "string \<Rightarrow> nat \<Rightarrow> nat" where
  "name_end s offset = offset + length (takeWhile nameByte (drop offset s))"

partial_function (option) ranges_loop :: "string \<Rightarrow> nat \<Rightarrow> nat \<Rightarrow> mention_range list \<Rightarrow> mention_range list option" where
  "ranges_loop s offset consumed result =
     (if \<not> offset < length s then Some result
      else (case nextIndex s offset ''@'' of
          None \<Rightarrow> Some result
        | Some start \<Rightarrow>
            (case macroEnd s start of
               Some e \<Rightarrow> ranges_loop s e consumed result
             | None \<Rightarrow>
                 if \<not> validMentionBoundary s start consumed then ranges_loop s (start + 1) consumed result
                 else if name_end s (start + 1) = start + 1 then ranges_loop s (start + 1) consumed result
                 else ranges_loop s (name_end s (start + 1)) (name_end s (start + 1))
                   (result @ [\<lparr>mr_start = start, mr_end = name_end s (start + 1),
                      mr_username = map ToLowerByte (drop (start + 1) (take (name_end s (start + 1)) s))\<rparr>]))))"

declare ranges_loop.simps [code]

definition Ranges :: "string \<Rightarrow> mention_range list" where
  "Ranges s = the (ranges_loop s 0 0 [])"

definition Usernames :: "string \<Rightarrow> string list" where
  "Usernames s = rev (fold (\<lambda>r names. if mr_username r \<in> set names then names else mr_username r # names) (Ranges s) [])"

section \<open>Positions\<close>

lemma occurs_at_single: "occurs_at [c] i s \<longleftrightarrow> i < length s \<and> s ! i = c"
proof (cases "i < length s")
  case True
  then have "drop i s = s ! i # drop (Suc i) s" by (simp add: Cons_nth_drop_Suc)
  with True show ?thesis by (auto simp: occurs_at_def)
qed (simp add: occurs_at_def)

lemma occurs_at_pair: "occurs_at [c, d] i s \<longleftrightarrow> Suc i < length s \<and> s ! i = c \<and> s ! Suc i = d"
proof (cases "Suc i < length s")
  case True
  then have "drop i s = s ! i # s ! Suc i # drop (Suc (Suc i)) s"
    by (metis Cons_nth_drop_Suc Suc_lessD)
  with True show ?thesis by (auto simp: occurs_at_def)
qed (auto simp: occurs_at_iff)

lemma nextIndex_Some:
  assumes "nextIndex s offset [c] = Some i"
  shows "offset \<le> i" "i < length s" "s ! i = c" "\<And>j. offset \<le> j \<Longrightarrow> j < i \<Longrightarrow> s ! j \<noteq> c"
proof -
  from assms obtain k where k: "i = offset + k" "Index (drop offset s) [c] = Some k"
    by (auto simp: nextIndex_def)
  then have o: "occurs_at [c] k (drop offset s)" "\<And>j. j < k \<Longrightarrow> \<not> occurs_at [c] j (drop offset s)"
    by (auto simp: Index_Some)
  from o(1) k show "offset \<le> i" "i < length s" "s ! i = c" by (auto simp: occurs_at_single)
  show "s ! j \<noteq> c" if "offset \<le> j" "j < i" for j
    using o(2) [of "j - offset"] that k \<open>i < length s\<close> by (auto simp: occurs_at_single)
qed

lemma nextIndex_None:
  "nextIndex s offset [c] = None \<Longrightarrow> offset \<le> j \<Longrightarrow> j < length s \<Longrightarrow> s ! j \<noteq> c"
  by (auto simp: nextIndex_def Index_None occurs_at_single dest: spec [of _ "j - offset"])

lemma name_end_le: "offset \<le> length s \<Longrightarrow> offset \<le> name_end s offset \<and> name_end s offset \<le> length s"
  using length_takeWhile_le [of nameByte "drop offset s"] by (simp add: name_end_def)

lemma macroEnd_greater: "macroEnd s start = Some e \<Longrightarrow> start < length s \<Longrightarrow> start < e"
  by (auto simp: macroEnd_def nextIndex_def split: if_splits option.splits)

section \<open>What the scan reports\<close>

text \<open>A position where a mention begins, and the range that it has.\<close>

definition mention_start :: "string \<Rightarrow> nat \<Rightarrow> bool" where
  "mention_start s p =
     (p < length s \<and> s ! p = CHR ''@'' \<and> \<not> insideOpenMacro s p \<and> (p = 0 \<or> \<not> wordByte (s ! (p - 1))) \<and> name_end s (p + 1) \<noteq> p + 1)"

definition range_at :: "string \<Rightarrow> nat \<Rightarrow> mention_range" where
  "range_at s p = \<lparr>mr_start = p, mr_end = name_end s (p + 1),
     mr_username = map ToLowerByte (drop (p + 1) (take (name_end s (p + 1)) s))\<rparr>"

lemma insideOpenMacro_iff:
  "insideOpenMacro s n \<longleftrightarrow>
   (\<exists>i. occurs_at ''{{'' i (take n s) \<and> (\<forall>j. occurs_at ''}}'' j (take n s) \<longrightarrow> j < i))"
proof (cases "LastIndex (take n s) ''{{''")
  case None
  then have "\<not> insideOpenMacro s n" by (simp add: insideOpenMacro_def)
  with None [unfolded LastIndex_None] show ?thesis by simp
next
  case (Some lo)
  then have lo: "occurs_at ''{{'' lo (take n s)" "\<And>j. occurs_at ''{{'' j (take n s) \<Longrightarrow> j \<le> lo"
    by (auto simp: LastIndex_Some not_less [symmetric])
  show ?thesis
  proof (cases "LastIndex (take n s) ''}}''")
    case None
    with Some have "insideOpenMacro s n" by (simp add: insideOpenMacro_def)
    with lo(1) None [unfolded LastIndex_None] show ?thesis by blast
  next
    case (Some lc)
    then have lc: "occurs_at ''}}'' lc (take n s)" "\<And>j. occurs_at ''}}'' j (take n s) \<Longrightarrow> j \<le> lc"
      by (auto simp: LastIndex_Some not_less [symmetric])
    have "insideOpenMacro s n \<longleftrightarrow> lc < lo"
      using Some \<open>LastIndex (take n s) ''{{'' = Some lo\<close> by (simp add: insideOpenMacro_def)
    with lo lc show ?thesis by (meson le_less_trans less_le_trans)
  qed
qed

text \<open>The declaration that the scan skips contains no mention.\<close>

lemma macro_covers:
  assumes "macroEnd s start = Some e" and "s ! start = CHR ''@''" and "start \<le> p" and "p < e" and "p < length s"
  shows "insideOpenMacro s p"
proof -
  from assms(1) have "insideOpenMacro s start" by (simp add: macroEnd_def split: if_splits)
  then obtain i where i: "occurs_at ''{{'' i (take start s)" "\<And>j. occurs_at ''}}'' j (take start s) \<Longrightarrow> j < i"
    by (auto simp: insideOpenMacro_iff)
  have "occurs_at ''{{'' i (take p s)"
    using i(1) assms(3,5) by (auto simp: occurs_at_pair)
  moreover have "j < i" if j: "occurs_at ''}}'' j (take p s)" for j
  proof (cases "Suc j < start")
    case True
    with j i(2) [of j] assms(5) show ?thesis by (auto simp: occurs_at_pair)
  next
    case False
    from j have b: "Suc j < p" "s ! j = CHR ''}''" "s ! Suc j = CHR ''}''"
      using assms(5) by (auto simp: occurs_at_pair)
    with False assms(2) have "Suc j \<noteq> start" by auto
    with False have "start \<le> j" by simp
    with b assms(5) have "occurs_at ''}}'' (j - start) (drop start s)"
      by (auto simp: occurs_at_pair)
    then obtain k where k: "Index (drop start s) ''}}'' = Some k" "k \<le> j - start"
      by (metis Index_None Index_Some not_le option.exhaust)
    with assms(1) have "e = start + k + 2"
      by (simp add: macroEnd_def nextIndex_def split: if_splits)
    with k(2) b(1) \<open>start \<le> j\<close> assms(4) show ?thesis by simp
  qed
  ultimately show ?thesis by (auto simp: insideOpenMacro_iff)
qed

lemma name_bytes: "p \<in> {offset..<name_end s offset} \<Longrightarrow> nameByte (s ! p)"
proof -
  assume p: "p \<in> {offset..<name_end s offset}"
  let ?t = "takeWhile nameByte (drop offset s)"
  from p have l: "p - offset < length ?t" by (auto simp: name_end_def)
  then have "nameByte (?t ! (p - offset))" by (meson nth_mem set_takeWhileD)
  moreover have "?t ! (p - offset) = drop offset s ! (p - offset)" by (rule takeWhile_nth [OF l])
  moreover have "p - offset < length (drop offset s)"
    using l length_takeWhile_le [of nameByte "drop offset s"] by linarith
  ultimately show ?thesis using p by (simp add: name_end_def)
qed

lemma at_sign_no_name: "\<not> nameByte (CHR ''@'')"
  by (simp add: nameByte_def wordByte_def ascii_defs)

text \<open>What holds of the loop's variables.\<close>

definition scanned :: "string \<Rightarrow> nat \<Rightarrow> nat \<Rightarrow> mention_range list \<Rightarrow> bool" where
  "scanned s offset consumed result =
     (consumed \<le> offset \<and>
      (\<forall>r\<in>set result. mention_start s (mr_start r) \<and> r = range_at s (mr_start r) \<and> mr_end r \<le> consumed) \<and>
      sorted_wrt (\<lambda>a b. mr_end a < mr_start b) result \<and>
      (consumed = 0 \<or> (\<exists>r\<in>set result. mr_end r = consumed)) \<and>
      (\<forall>p<offset. mention_start s p \<longrightarrow> (\<exists>r\<in>set result. mr_start r = p \<or> mr_end r = p)))"

lemma scanned_skip:
  assumes "scanned s offset consumed result" and "offset \<le> offset'"
    and "\<And>p. offset \<le> p \<Longrightarrow> p < offset' \<Longrightarrow> mention_start s p \<Longrightarrow> \<exists>r\<in>set result. mr_start r = p \<or> mr_end r = p"
  shows "scanned s offset' consumed result"
  using assms by (auto simp: scanned_def not_less [symmetric])

lemma scanned_add:
  assumes "scanned s offset consumed result" and "offset \<le> start" and "mention_start s start"
    and "start = 0 \<or> consumed < start" and "\<And>p. offset \<le> p \<Longrightarrow> p < start \<Longrightarrow> \<not> mention_start s p"
  shows "scanned s (name_end s (start + 1)) (name_end s (start + 1)) (result @ [range_at s start])"
proof -
  let ?e = "name_end s (start + 1)"
  have e: "start < ?e" by (simp add: name_end_def)
  have no: "\<not> mention_start s p" if "start < p" "p < ?e" for p
    using name_bytes [of p "start + 1" s] that at_sign_no_name by (auto simp: mention_start_def)
  have "\<exists>r\<in>set (result @ [range_at s start]). mr_start r = p \<or> mr_end r = p" if p: "p < ?e" "mention_start s p" for p
  proof -
    consider "p < offset" | "offset \<le> p" "p < start" | "p = start" | "start < p" by linarith
    then show ?thesis
      using assms(1,5) p no by cases (auto simp: scanned_def range_at_def)
  qed
  moreover have "mr_end r < start" if "r \<in> set result" for r
  proof -
    from that assms(1) have r: "mr_end r \<le> consumed" "mention_start s (mr_start r)" "r = range_at s (mr_start r)"
      by (auto simp: scanned_def)
    from r(3) have "mr_end r = name_end s (mr_start r + 1)" by (metis mention_range.select_convs(2) range_at_def)
    then have "0 < mr_end r" by (simp add: name_end_def)
    with r(1) assms(4) show ?thesis
      using assms(1,2) by (auto simp: scanned_def)
  qed
  ultimately show ?thesis
    using assms(1,2,3) e by (fastforce simp: scanned_def range_at_def sorted_wrt_append)
qed

lemma ranges_loop_scanned:
  "scanned s offset consumed result \<Longrightarrow>
   \<exists>rs offset' consumed'. ranges_loop s offset consumed result = Some rs \<and> length s \<le> offset' \<and> scanned s offset' consumed' rs"
proof (induction "length s - offset" arbitrary: offset consumed result rule: less_induct)
  case less
  show ?case
  proof (cases "offset < length s")
    case False
    with less.prems show ?thesis by (subst ranges_loop.simps) (auto simp: not_less)
  next
    case True
    show ?thesis
    proof (cases "nextIndex s offset ''@''")
      case None
      then have "scanned s (length s) consumed result"
        using less.prems nextIndex_None [OF None] True by (intro scanned_skip [OF less.prems]) (auto simp: mention_start_def)
      with True None show ?thesis by (subst ranges_loop.simps) auto
    next
      case (Some start)
      note p = nextIndex_Some [OF Some]
      have none: "\<not> mention_start s q" if "offset \<le> q" "q < start" for q
        using p(4) [OF that] by (simp add: mention_start_def)
      have step: "\<exists>rs o' c'. ranges_loop s e c r = Some rs \<and> length s \<le> o' \<and> scanned s o' c' rs" if "start < e" "scanned s e c r" for e c r
        using that(1) p True by (intro less.hyps that(2)) auto
      have skip: "scanned s e consumed result" if "start < e"
        and "\<And>q. start \<le> q \<Longrightarrow> q < e \<Longrightarrow> mention_start s q \<Longrightarrow> \<exists>r\<in>set result. mr_start r = q \<or> mr_end r = q" for e
        using that p(1) none by (intro scanned_skip [OF less.prems]) (auto, metis not_le)
      show ?thesis
      proof (cases "macroEnd s start")
        case macro: (Some e)
        have "start < e" by (rule macroEnd_greater [OF macro p(2)])
        moreover from this have "scanned s e consumed result"
          using macro_covers [OF macro p(3)] by (intro skip) (auto simp: mention_start_def)
        ultimately show ?thesis
          using True Some macro step by (subst ranges_loop.simps) simp
      next
        case outside: None
        show ?thesis
        proof (cases "validMentionBoundary s start consumed \<and> name_end s (start + 1) \<noteq> start + 1")
          case False
          have "\<exists>r\<in>set result. mr_start r = start \<or> mr_end r = start" if "mention_start s start"
          proof -
            from that False have "start \<noteq> 0" "start \<le> consumed"
              by (auto simp: validMentionBoundary_def mention_start_def split: if_splits)
            with p(1) less.prems have "consumed = start" "consumed \<noteq> 0" by (auto simp: scanned_def)
            with less.prems show ?thesis unfolding scanned_def by blast
          qed
          then have "scanned s (start + 1) consumed result"
            by (intro skip) (auto simp: le_Suc_eq less_Suc_eq)
          with step [of "start + 1"] True Some outside False show ?thesis
            by (subst ranges_loop.simps) (auto split: if_splits)
        next
          case valid: True
          then have "mention_start s start"
            using p outside by (auto simp: mention_start_def validMentionBoundary_def macroEnd_def split: if_splits)
          moreover have "start = 0 \<or> consumed < start"
            using valid by (auto simp: validMentionBoundary_def split: if_splits)
          ultimately have "scanned s (name_end s (start + 1)) (name_end s (start + 1)) (result @ [range_at s start])"
            using less.prems p(1) none by (intro scanned_add) auto
          moreover have "start < name_end s (start + 1)" by (simp add: name_end_def)
          ultimately show ?thesis
            using step True Some outside valid by (subst ranges_loop.simps) (simp add: range_at_def)
        qed
      qed
    qed
  qed
qed

lemma Ranges_scanned: "\<exists>offset consumed. ranges_loop s 0 0 [] = Some (Ranges s) \<and> length s \<le> offset \<and> scanned s offset consumed (Ranges s)"
proof -
  have "scanned s 0 0 []" by (simp add: scanned_def)
  from ranges_loop_scanned [OF this] obtain rs offset consumed where
    r: "ranges_loop s 0 0 [] = Some rs" "length s \<le> offset" "scanned s offset consumed rs" by blast
  then have "Ranges s = rs" by (simp add: Ranges_def)
  with r show ?thesis by blast
qed

lemma sorted_wrt_linear: "sorted_wrt P xs \<Longrightarrow> a \<in> set xs \<Longrightarrow> b \<in> set xs \<Longrightarrow> a = b \<or> P a b \<or> P b a"
  by (induction xs) auto

lemma range_nonempty:
  assumes "scanned s offset consumed rs" and "r \<in> set rs"
  shows "mr_start r < mr_end r"
proof -
  from assms have "mr_end r = mr_end (range_at s (mr_start r))" by (auto simp: scanned_def)
  then show ?thesis by (simp add: range_at_def name_end_def)
qed

text \<open>A position begins a reported range exactly if it begins a mention and does not touch
  the end of a reported one.\<close>

lemma mentions_exact:
  "p \<in> mr_start ` set (Ranges s) \<longleftrightarrow> mention_start s p \<and> p \<notin> mr_end ` set (Ranges s)"
proof -
  from Ranges_scanned obtain offset consumed where r: "length s \<le> offset" "scanned s offset consumed (Ranges s)"
    by blast
  have apart: "mr_end a \<noteq> mr_start b" if "a \<in> set (Ranges s)" "b \<in> set (Ranges s)" for a b
  proof
    assume eq: "mr_end a = mr_start b"
    from r(2) have "sorted_wrt (\<lambda>a b. mr_end a < mr_start b) (Ranges s)" by (simp add: scanned_def)
    from sorted_wrt_linear [OF this that] range_nonempty [OF r(2) that(1)] range_nonempty [OF r(2) that(2)] eq show False by auto
  qed
  have sound: "mention_start s (mr_start a)" if "a \<in> set (Ranges s)" for a
    using that r(2) by (auto simp: scanned_def)
  have complete: "\<exists>a\<in>set (Ranges s). mr_start a = p \<or> mr_end a = p" if m: "mention_start s p"
  proof -
    from m r(1) have "p < offset" by (simp add: mention_start_def)
    with m r(2) show ?thesis by (simp add: scanned_def)
  qed
  show ?thesis
  proof
    assume "p \<in> mr_start ` set (Ranges s)"
    then obtain a where a: "a \<in> set (Ranges s)" "p = mr_start a" by blast
    show "mention_start s p \<and> p \<notin> mr_end ` set (Ranges s)"
    proof (intro conjI notI)
      show "mention_start s p" using sound [OF a(1)] a(2) by simp
      assume "p \<in> mr_end ` set (Ranges s)"
      then obtain b where "b \<in> set (Ranges s)" "p = mr_end b" by blast
      with apart [OF _ a(1)] a(2) show False by simp
    qed
  next
    assume "mention_start s p \<and> p \<notin> mr_end ` set (Ranges s)"
    then have m: "mention_start s p" and n: "p \<notin> mr_end ` set (Ranges s)" by simp_all
    from complete [OF m] obtain a where "a \<in> set (Ranges s)" "mr_start a = p \<or> mr_end a = p" by blast
    with n show "p \<in> mr_start ` set (Ranges s)" by blast
  qed
qed

text \<open>C23: the scan for mentions returns on every text, and the ranges it returns lie inside the text, in
  the order of the text, without touching: each begins with an at sign outside a plugin declaration,
  at the beginning or after a byte that is no word byte, is followed by as many name bytes as there are,
  and carries that name in lower case. Every such position of the text is reported, unless it touches
  the end of a reported range.\<close>

theorem mention_scan_returns:
  "ranges_loop s 0 0 [] = Some (Ranges s) \<and> sorted_wrt (\<lambda>a b. mr_end a < mr_start b) (Ranges s) \<and>
   list_all (\<lambda>r. mention_start s (mr_start r) \<and> r = range_at s (mr_start r) \<and> mr_end r \<le> length s) (Ranges s) \<and>
   (\<forall>p. p \<in> mr_start ` set (Ranges s) \<longleftrightarrow> mention_start s p \<and> p \<notin> mr_end ` set (Ranges s))"
proof -
  from Ranges_scanned obtain offset consumed where r: "ranges_loop s 0 0 [] = Some (Ranges s)" "scanned s offset consumed (Ranges s)"
    by blast
  have "mr_end r \<le> length s" if "r \<in> set (Ranges s)" for r
  proof -
    from that r(2) have "mention_start s (mr_start r)" "mr_end r = mr_end (range_at s (mr_start r))"
      by (auto simp: scanned_def)
    then show ?thesis
      using name_end_le [of "mr_start r + 1" s] by (simp add: mention_start_def range_at_def)
  qed
  with r(2) have "list_all (\<lambda>r. mention_start s (mr_start r) \<and> r = range_at s (mr_start r) \<and> mr_end r \<le> length s) (Ranges s)"
    by (auto simp: scanned_def list_all_iff)
  with r show ?thesis
    by (intro conjI allI mentions_exact) (simp_all add: scanned_def)
qed

end
