(* ===== verification/Notifications.thy ===== *)
theory Notifications
  imports Webhooks Accounts Mentions
begin

text \<open>
  The notification inbox (\<open>postgres/notifications.go\<close>, \<open>postgres/plugin_updates.go\<close>,
  \<open>application/notifications\<close>): notifications of plugins, of the core and of mentions, their
  validation, the inbox of an account, and the announcement of plugin updates. Each statement commits
  on its own, so an operation that stops at an error keeps what it has written. A created
  notification is an event for the sinks of the service, which are the webhooks. A repeated request
  uses up a number of the identifier sequence in PostgreSQL (its insert runs into the conflict) and
  none here, so identifiers are dense in the model and only increasing in the database.
\<close>

section \<open>State\<close>

abbreviation "NotificationKindMention \<equiv> ''mention''"
abbreviation "NotificationKindPlugin \<equiv> ''plugin''"
abbreviation "NotificationKindPluginUpdate \<equiv> ''plugin-update''"
abbreviation "NotificationSourceCore \<equiv> ''core''"
abbreviation "NotificationSourcePlugin \<equiv> ''plugin''"

record notification =
  nt_id :: int
  nt_kind :: string
  nt_title :: string
  nt_body :: string
  nt_url :: string
  nt_recipient :: int
  nt_actor :: int
  nt_source_type :: string
  nt_source :: string
  nt_source_name :: string
  nt_key :: string
  nt_read :: "time option"
  nt_created :: time

text \<open>The tables of notifications and announcements, and those of the webhooks behind the sinks.\<close>

record inbox =
  ib_rows :: "notification list"
  ib_next :: int
  ib_announced :: "(string \<times> string) list"
  ib_hooks :: webhook_tables

record notifications_service =
  ns_sinks :: "(env \<Rightarrow> outgoing_event \<Rightarrow> webhook_tables \<Rightarrow> error list \<times> webhook_tables) list"

section \<open>The store\<close>

definition same_request :: "notification \<Rightarrow> notification \<Rightarrow> bool" where
  "same_request n m =
     (nt_source_type m = NotificationSourcePlugin \<and> nt_key m \<noteq> [] \<and> nt_source m = nt_source n \<and>
      nt_recipient m = nt_recipient n \<and> nt_key m = nt_key n)"

text \<open>The row, and whether it is new.\<close>

definition CreateNotification :: "env \<Rightarrow> accounts \<Rightarrow> notification \<Rightarrow> inbox \<Rightarrow> error + (notification \<times> bool \<times> inbox)" where
  "CreateNotification e a n ib =
     (if nt_source_type n \<noteq> NotificationSourceCore \<and> nt_source_type n \<noteq> NotificationSourcePlugin
      then Inl (InfrastructureError ''notifications_source_type_check'')
      else (case (if nt_source_type n = NotificationSourcePlugin \<and> nt_key n \<noteq> [] then row_with (same_request n) (ib_rows ib) else None) of
          Some m \<Rightarrow> Inr (m, False, ib)
        | None \<Rightarrow>
            if user_row_of a (nt_recipient n) = None then Inl (InfrastructureError ''notifications_user_id_fkey'')
            else if nt_actor n \<noteq> 0 \<and> user_row_of a (nt_actor n) = None then Inl (InfrastructureError ''notifications_actor_id_fkey'')
            else
              let m = n\<lparr>nt_id := ib_next ib, nt_read := None, nt_created := en_now e\<rparr> in
              Inr (m, True, ib\<lparr>ib_rows := ib_rows ib @ [m], ib_next := ib_next ib + 1\<rparr>)))"

definition notification_order :: "notification \<Rightarrow> notification \<Rightarrow> int" where
  "notification_order n m = cmp_then (cmp_compare (nt_created m) (nt_created n)) (cmp_compare (nt_id m) (nt_id n))"

text \<open>The query does not read the key.\<close>

definition store_Notifications :: "int \<Rightarrow> nat \<Rightarrow> inbox \<Rightarrow> notification list \<times> nat" where
  "store_Notifications uid limit ib =
     (let mine = filter (\<lambda>n. nt_recipient n = uid) (ib_rows ib) in
      (map (\<lambda>n. n\<lparr>nt_key := []\<rparr>) (take limit (sort_func notification_order mine)), length (filter (\<lambda>n. nt_read n = None) mine)))"

definition mark_read :: "env \<Rightarrow> notification \<Rightarrow> notification" where
  "mark_read e n = n\<lparr>nt_read := (case nt_read n of None \<Rightarrow> Some (en_now e) | Some t \<Rightarrow> Some t)\<rparr>"

definition store_MarkNotificationRead :: "env \<Rightarrow> int \<Rightarrow> int \<Rightarrow> inbox \<Rightarrow> inbox" where
  "store_MarkNotificationRead e uid i ib =
     ib\<lparr>ib_rows := update_rows (\<lambda>n. nt_id n = i \<and> nt_recipient n = uid) (mark_read e) (ib_rows ib)\<rparr>"

definition store_MarkNotificationUnread :: "int \<Rightarrow> int \<Rightarrow> inbox \<Rightarrow> inbox" where
  "store_MarkNotificationUnread uid i ib =
     ib\<lparr>ib_rows := update_rows (\<lambda>n. nt_id n = i \<and> nt_recipient n = uid) (\<lambda>n. n\<lparr>nt_read := None\<rparr>) (ib_rows ib)\<rparr>"

definition MarkAllNotificationsRead :: "env \<Rightarrow> int \<Rightarrow> inbox \<Rightarrow> inbox" where
  "MarkAllNotificationsRead e uid ib = ib\<lparr>ib_rows := update_rows (\<lambda>n. nt_recipient n = uid) (mark_read e) (ib_rows ib)\<rparr>"

definition store_DeleteNotification :: "int \<Rightarrow> int \<Rightarrow> inbox \<Rightarrow> inbox" where
  "store_DeleteNotification uid i ib = ib\<lparr>ib_rows := delete_rows (\<lambda>n. nt_id n = i \<and> nt_recipient n = uid) (ib_rows ib)\<rparr>"

definition store_OpenNotification :: "env \<Rightarrow> int \<Rightarrow> int \<Rightarrow> inbox \<Rightarrow> error + (string \<times> inbox)" where
  "store_OpenNotification e uid i ib =
     (case row_with (\<lambda>n. nt_id n = i \<and> nt_recipient n = uid) (ib_rows ib) of
        None \<Rightarrow> Inl ErrNotFound
      | Some n \<Rightarrow> Inr (nt_url n, store_MarkNotificationRead e uid i ib))"

section \<open>Plugin updates\<close>

record plugin_update =
  pu_id :: string
  pu_name :: string
  pu_current :: string
  pu_available :: string

definition validPluginUpdateNotice :: "plugin_update \<Rightarrow> bool" where
  "validPluginUpdateNotice u = (TrimSpace (pu_id u) \<noteq> [] \<and> TrimSpace (pu_available u) \<noteq> [])"

definition claim_update :: "plugin_update \<Rightarrow> plugin_update list \<times> (string \<times> string) list \<Rightarrow> plugin_update list \<times> (string \<times> string) list" where
  "claim_update u s =
     (let k = (pu_id u, pu_available u) in
      if \<not> validPluginUpdateNotice u \<or> k \<in> set (snd s) then s else (fst s @ [u], snd s @ [k]))"

definition ClaimPluginUpdateAnnouncements :: "plugin_update list \<Rightarrow> inbox \<Rightarrow> plugin_update list \<times> inbox" where
  "ClaimPluginUpdateAnnouncements updates ib =
     (case fold claim_update updates ([], ib_announced ib) of (new, announced) \<Rightarrow> (new, ib\<lparr>ib_announced := announced\<rparr>))"

definition EnabledAdministratorIDs :: "accounts \<Rightarrow> int list" where
  "EnabledAdministratorIDs a =
     sort_func cmp_compare (map uw_id (filter (\<lambda>r. uw_enabled r \<and> uw_role r = UserRoleAdmin) (ac_users a)))"

section \<open>Validation\<close>

abbreviation maxNotificationTitleBytes :: nat where "maxNotificationTitleBytes \<equiv> 200"
abbreviation maxNotificationBodyBytes :: nat where "maxNotificationBodyBytes \<equiv> 2000"
abbreviation maxNotificationURLBytes :: nat where "maxNotificationURLBytes \<equiv> 2048"
abbreviation maxIdempotencyKeyBytes :: nat where "maxIdempotencyKeyBytes \<equiv> 200"

text \<open>\<open>utf8.ValidString\<close>.\<close>

definition ValidString :: "string \<Rightarrow> bool" where
  "ValidString s = list_all (\<lambda>r. decode_rune r \<noteq> rune_error) (runes s)"

lemma decode_rune_error: "decode_rune r = rune_error \<longleftrightarrow> snd (decode_rune r) = 1 \<and> \<not> list_all IsASCII (take 1 r)"
  by (cases r) (auto simp: decode_rune_def rune_error_def Let_def IsASCII_def)

lemma ValidString_code [code]:
  "ValidString s = list_all (\<lambda>r. snd (decode_rune r) \<noteq> 1 \<or> list_all IsASCII (take 1 r)) (runes s)"
  by (simp add: ValidString_def decode_rune_error)

text \<open>
  \<open>url.ParseRequestURI\<close> on a text that begins with one slash: it fails on a control byte and on a percent
  sign of the path (before the first question mark) without two hexadecimal digits.
\<close>

fun valid_escapes :: "string \<Rightarrow> bool" where
  "valid_escapes [] = True"
| "valid_escapes (c # cs) =
     (if c \<noteq> CHR ''%'' then valid_escapes cs
      else (case cs of a # b # ds \<Rightarrow> IsHexDigit a \<and> IsHexDigit b \<and> valid_escapes ds | _ \<Rightarrow> False))"

definition valid_request_path :: "string \<Rightarrow> bool" where
  "valid_request_path s =
     (list_all (\<lambda>c. 32 \<le> byte c \<and> byte c \<noteq> 127) s \<and> valid_escapes (fst (Cut s ''?'')))"

definition validNotificationTitle :: "string \<Rightarrow> bool" where
  "validNotificationTitle title = (title \<noteq> [] \<and> length title \<le> maxNotificationTitleBytes \<and> ValidString title)"

definition validNotificationBody :: "string \<Rightarrow> bool" where
  "validNotificationBody body = (length body \<le> maxNotificationBodyBytes \<and> ValidString body)"

definition validIdempotencyKey :: "string \<Rightarrow> bool" where
  "validIdempotencyKey key = (key \<noteq> [] \<and> length key \<le> maxIdempotencyKeyBytes \<and> ValidString key)"

definition validNotificationURL :: "string \<Rightarrow> bool" where
  "validNotificationURL v =
     (if v = [] then True
      else if length v > maxNotificationURLBytes \<or> \<not> ValidString v then False
      else if \<not> HasPrefix v ''/'' \<or> HasPrefix v ''//'' \<or> CHR 0x5C \<in> set v then False
      else valid_request_path v)"

record create_input =
  ci_recipient :: int
  ci_actor :: int
  ci_source :: string
  ci_source_name :: string
  ci_title :: string
  ci_body :: string
  ci_url :: string
  ci_key :: string

definition normalizeCreateInput :: "create_input \<Rightarrow> create_input" where
  "normalizeCreateInput i = i\<lparr>ci_title := TrimSpace (ci_title i), ci_body := TrimSpace (ci_body i), ci_url := TrimSpace (ci_url i),
     ci_key := TrimSpace (ci_key i)\<rparr>"

definition field_unless :: "bool \<Rightarrow> string \<Rightarrow> string \<Rightarrow> (string \<times> string) list" where
  "field_unless ok field message = (if ok then [] else [(field, message)])"

definition fields_error :: "(string \<times> string) list \<Rightarrow> error + unit" where
  "fields_error fs = (if fs = [] then Inr () else Inl (ValidationError fs))"

text \<open>The fields that every notification has.\<close>

definition content_fields :: "string \<Rightarrow> string \<Rightarrow> (string \<times> string) list" where
  "content_fields title body =
     field_unless (validNotificationTitle title) ''title'' ''Use a valid notification title.'' @
     field_unless (validNotificationBody body) ''body'' ''Notification body is too long.''"

definition url_fields :: "string \<Rightarrow> (string \<times> string) list" where
  "url_fields url = field_unless (validNotificationURL url) ''url'' ''Use a local Kumbuka URL.''"

definition validateCreateInput :: "create_input \<Rightarrow> error + unit" where
  "validateCreateInput i = fields_error (
     field_unless (0 < ci_recipient i) ''recipient_user_id'' ''Choose a valid recipient.'' @
     field_unless (0 < ci_actor i \<and> ci_source i \<noteq> [] \<and> ci_source_name i \<noteq> []) ''source'' ''Notification attribution is unavailable.'' @
     content_fields (ci_title i) (ci_body i) @
     field_unless (validIdempotencyKey (ci_key i)) ''idempotency_key'' ''Use a valid idempotency key.'' @
     url_fields (ci_url i))"

definition validateCoreNotification :: "int \<Rightarrow> string \<Rightarrow> string \<Rightarrow> string \<Rightarrow> error + unit" where
  "validateCoreNotification actor title body url = fields_error (
     field_unless (0 < actor) ''actor_id'' ''Notification attribution is unavailable.'' @ content_fields title body @ url_fields url)"

definition validateCoreDelivery :: "int \<Rightarrow> int \<Rightarrow> string \<Rightarrow> string \<Rightarrow> string \<Rightarrow> string \<Rightarrow> error + unit" where
  "validateCoreDelivery recipient actor kind title body destination = fields_error (
     field_unless (0 < recipient) ''recipient_user_id'' ''Choose a valid recipient.'' @
     field_unless (0 \<le> actor) ''actor_id'' ''Notification attribution is unavailable.'' @
     field_unless (kind \<noteq> [] \<and> kind \<noteq> NotificationKindPlugin) ''kind'' ''Choose a valid core notification kind.'' @
     content_fields title body @ url_fields destination)"

section \<open>Sending\<close>

definition created_event :: "notification \<Rightarrow> user \<Rightarrow> outgoing_event" where
  "created_event n recipient =
     \<lparr>oe_event = EventNotificationCreated, oe_actor = nt_actor n, oe_recipient = u_id recipient, oe_type = ''notification'',
      oe_key = show_int (nt_id n), oe_detail = [],
      oe_data = [
        (''recipient'', EVMap [
           (''user_id'', EVInt (u_id recipient)),
           (''mention'', EVText (''@'' @ u_username recipient)),
           (''display_name'', EVText (u_display recipient))]),
        (''notification'', EVMap [
           (''title'', EVText (nt_title n)),
           (''body'', EVText (nt_body n)),
           (''url'', EVText (nt_url n)),
           (''source_type'', EVText (nt_source_type n)),
           (''source_id'', EVText (nt_source n)),
           (''source_name'', EVText (nt_source_name n))])],
      oe_at = Some (nt_created n)\<rparr>"

text \<open>A failure of a sink is logged.\<close>

definition emitCreated :: "notifications_service \<Rightarrow> env \<Rightarrow> notification \<Rightarrow> user \<Rightarrow> inbox \<Rightarrow> inbox" where
  "emitCreated svc e n recipient ib =
     ib\<lparr>ib_hooks := fold (\<lambda>sink t. snd (sink e (created_event n recipient) t)) (ns_sinks svc) (ib_hooks ib)\<rparr>"

definition new_notification :: "string \<Rightarrow> string \<Rightarrow> string \<Rightarrow> string \<Rightarrow> int \<Rightarrow> int \<Rightarrow> notification" where
  "new_notification kind title body url recipient actor =
     \<lparr>nt_id = 0, nt_kind = kind, nt_title = title, nt_body = body, nt_url = url, nt_recipient = recipient, nt_actor = actor,
      nt_source_type = [], nt_source = [], nt_source_name = [], nt_key = [], nt_read = None, nt_created = 0\<rparr>"

definition Send :: "notifications_service \<Rightarrow> env \<Rightarrow> accounts \<Rightarrow> create_input \<Rightarrow> inbox \<Rightarrow> (error + notification) \<times> inbox" where
  "Send svc e a input ib =
     (let i = normalizeCreateInput input in
      case bindR (validateCreateInput i) (\<lambda>_.
           bindR (User a (ci_recipient i)) (\<lambda>u. requireR (u_enabled u) ErrNotFound (
           bindR (CreateNotification e a ((new_notification NotificationKindPlugin (ci_title i) (ci_body i) (ci_url i) (u_id u) (ci_actor i))
               \<lparr>nt_source_type := NotificationSourcePlugin, nt_source := ci_source i, nt_source_name := ci_source_name i, nt_key := ci_key i\<rparr>) ib)
             (\<lambda>r. Inr (u, r))))) of
        Inl er \<Rightarrow> (Inl er, ib)
      | Inr (u, n, created, ib1) \<Rightarrow> (Inr n, if created then emitCreated svc e n u ib1 else ib1))"

definition createCore ::
  "notifications_service \<Rightarrow> env \<Rightarrow> accounts \<Rightarrow> user \<Rightarrow> int \<Rightarrow> string \<Rightarrow> string \<Rightarrow> string \<Rightarrow> string \<Rightarrow> inbox \<Rightarrow> error option \<times> inbox" where
  "createCore svc e a recipient actor kind title body destination ib =
     (case CreateNotification e a ((new_notification kind title body destination (u_id recipient) actor)
         \<lparr>nt_source_type := NotificationSourceCore, nt_source_name := ''Kumbuka''\<rparr>) ib of
        Inl er \<Rightarrow> (Some er, ib)
      | Inr (n, created, ib1) \<Rightarrow> (None, if created then emitCreated svc e n recipient ib1 else ib1))"

definition SendCore ::
  "notifications_service \<Rightarrow> env \<Rightarrow> accounts \<Rightarrow> int \<Rightarrow> int \<Rightarrow> string \<Rightarrow> string \<Rightarrow> string \<Rightarrow> string \<Rightarrow> inbox \<Rightarrow> error option \<times> inbox" where
  "SendCore svc e a recipientID actor kind title body destination ib =
     (let title = TrimSpace title; body = TrimSpace body; destination = TrimSpace destination in
      case validateCoreDelivery recipientID actor kind title body destination of
        Inl er \<Rightarrow> (Some er, ib)
      | Inr _ \<Rightarrow> (case User a recipientID of
            Inl er \<Rightarrow> (if is_not_found er then None else Some er, ib)
          | Inr u \<Rightarrow> if \<not> u_enabled u then (None, ib) else createCore svc e a u actor kind title body destination ib))"

primrec mention_loop ::
  "notifications_service \<Rightarrow> env \<Rightarrow> accounts \<Rightarrow> int \<Rightarrow> string \<Rightarrow> string \<Rightarrow> string \<Rightarrow> string list \<Rightarrow> inbox \<Rightarrow> error option \<times> inbox" where
  "mention_loop svc e a actor title body destination [] ib = (None, ib)"
| "mention_loop svc e a actor title body destination (name # names) ib =
     (case UserByUsername e a name of
        Inl er \<Rightarrow> if is_not_found er then mention_loop svc e a actor title body destination names ib else (Some er, ib)
      | Inr u \<Rightarrow>
          if \<not> u_enabled u then mention_loop svc e a actor title body destination names ib
          else (case createCore svc e a u actor NotificationKindMention title body destination ib of
              (Some er, ib1) \<Rightarrow> (Some er, ib1)
            | (None, ib1) \<Rightarrow> mention_loop svc e a actor title body destination names ib1))"

definition mention_body :: string where
  "mention_body = ''You were mentioned in page content.''"

definition SendMentions ::
  "notifications_service \<Rightarrow> env \<Rightarrow> accounts \<Rightarrow> int \<Rightarrow> string \<Rightarrow> string \<Rightarrow> string \<Rightarrow> inbox \<Rightarrow> error option \<times> inbox" where
  "SendMentions svc e a actor content title destination ib =
     (let title = TrimSpace title; destination = TrimSpace destination in
      case validateCoreNotification actor title mention_body destination of
        Inl er \<Rightarrow> (Some er, ib)
      | Inr _ \<Rightarrow> mention_loop svc e a actor title mention_body destination (Usernames content) ib)"

definition pluginUpdateNotification :: "plugin_update list \<Rightarrow> string \<times> string" where
  "pluginUpdateNotification updates =
     (case updates of
        [u] \<Rightarrow> (''Plugin update available'', pu_name u @ '' '' @ pu_available u @ '' is available; currently '' @ pu_current u @ ''.'')
      | _ \<Rightarrow> (show_int (int (length updates)) @ '' plugin updates available'',
              Join (map (\<lambda>u. pu_name u @ '' '' @ pu_current u @ '' -> '' @ pu_available u) updates) ''; ''))"

primrec announce_loop ::
  "notifications_service \<Rightarrow> env \<Rightarrow> accounts \<Rightarrow> string \<Rightarrow> string \<Rightarrow> int list \<Rightarrow> inbox \<Rightarrow> error option \<times> inbox" where
  "announce_loop svc e a title body [] ib = (None, ib)"
| "announce_loop svc e a title body (i # ids) ib =
     (case SendCore svc e a i 0 NotificationKindPluginUpdate title body ''/admin/plugins'' ib of
        (Some er, ib1) \<Rightarrow> (Some er, ib1)
      | (None, ib1) \<Rightarrow> announce_loop svc e a title body ids ib1)"

definition name_order :: "env \<Rightarrow> plugin_update \<Rightarrow> plugin_update \<Rightarrow> int" where
  "name_order e u v = cmp_compare (en_lower e (pu_name u)) (en_lower e (pu_name v))"

definition NotifyPluginUpdates ::
  "notifications_service \<Rightarrow> env \<Rightarrow> accounts \<Rightarrow> plugin_update list \<Rightarrow> inbox \<Rightarrow> error option \<times> inbox" where
  "NotifyPluginUpdates svc e a updates ib =
     (let admins = EnabledAdministratorIDs a in
      if admins = [] then (None, ib)
      else (case ClaimPluginUpdateAnnouncements updates ib of (new, ib1) \<Rightarrow>
        if new = [] then (None, ib1)
        else (case pluginUpdateNotification (sort_func (name_order e) new) of (title, body) \<Rightarrow>
          announce_loop svc e a title body admins ib1)))"

section \<open>The inbox of an account\<close>

definition app_Notifications :: "int \<Rightarrow> int \<Rightarrow> inbox \<Rightarrow> notification list \<times> nat" where
  "app_Notifications uid limit ib = store_Notifications uid (nat (min (if limit \<le> 0 then 30 else limit) 100)) ib"

definition invalid_notification :: error where
  "invalid_notification = NewValidationError ''notification'' ''Invalid notification.''"

definition MarkNotificationRead :: "env \<Rightarrow> int \<Rightarrow> int \<Rightarrow> inbox \<Rightarrow> error + inbox" where
  "MarkNotificationRead e uid i ib = (if i \<le> 0 then Inl invalid_notification else Inr (store_MarkNotificationRead e uid i ib))"

definition MarkNotificationUnread :: "int \<Rightarrow> int \<Rightarrow> inbox \<Rightarrow> error + inbox" where
  "MarkNotificationUnread uid i ib = (if i \<le> 0 then Inl invalid_notification else Inr (store_MarkNotificationUnread uid i ib))"

definition DeleteNotification :: "int \<Rightarrow> int \<Rightarrow> inbox \<Rightarrow> error + inbox" where
  "DeleteNotification uid i ib = (if i \<le> 0 then Inl invalid_notification else Inr (store_DeleteNotification uid i ib))"

definition OpenNotification :: "env \<Rightarrow> int \<Rightarrow> int \<Rightarrow> inbox \<Rightarrow> error + (string \<times> inbox)" where
  "OpenNotification e uid i ib = (if i \<le> 0 then Inl invalid_notification else store_OpenNotification e uid i ib)"

end
