(* ===== verification/WebhookProperties.thy ===== *)
theory WebhookProperties
  imports Webhooks
begin

text \<open>
  What the webhook use cases guarantee: stored secrets are outputs of the codec and leave it only
  to a receiver, a saved header reaches the receiver with the value that was submitted, retry
  settings stay within their bounds, and an event is delivered once to every subscriber, with one
  history row for each delivery, whatever happens to the others.
\<close>

section \<open>A service to apply the theorems to\<close>

definition demo_service :: webhooks_service where
  "demo_service = \<lparr>wk_secrets = Some (\<lambda>x. Inr (CHR ''#'' # x), \<lambda>y. case y of [] \<Rightarrow> Inl ErrNotFound | c # x \<Rightarrow> Inr x),
     wk_public = [], wk_users = None, wk_parse_uri = (\<lambda>u. Some (''https'', u)), wk_valid_name = (\<lambda>n. n \<noteq> []),
     wk_valid_value = (\<lambda>v. True), wk_template = (\<lambda>b. Inr (\<lambda>d. Inr ''{}'')), wk_title_template = Inr (),
     wk_json_valid = (\<lambda>b. b = ''{}''), wk_error_text = (\<lambda>er. ''error''),
     wk_send = (\<lambda>rq n. \<lparr>so_status = 200, so_attempts = 1, so_error = None\<rparr>)\<rparr>"

definition demo_env :: env where
  "demo_env = \<lparr>en_now = 7, en_lower = map ToLowerByte, en_sql_lower = map ToLowerByte, en_format = (\<lambda>t. [])\<rparr>"

definition demo_input :: "webhook_header_input list \<Rightarrow> webhook_input" where
  "demo_input headers = \<lparr>wi_name = '' hook '', wi_url = ''https://a.test'', wi_events = [''page.updated''], wi_template = ''x'',
     wi_details = False, wi_headers = headers, wi_retry = True, wi_count = 3, wi_backoff = 500000, wi_max_backoff = 2000000000,
     wi_jitter = False, wi_enabled = True\<rparr>"

definition no_webhooks :: webhook_tables where
  "no_webhooks = \<lparr>wt_rows = [], wt_headers = [], wt_deliveries = [], wt_next_row = 1, wt_next_header = 1, wt_next_delivery = 1\<rparr>"

definition demo_headers :: "webhook_header_input list" where
  "demo_headers = [\<lparr>hi_id = 0, hi_name = ''x-key'', hi_value = ''k'', hi_sensitive = True\<rparr>]"

definition one_webhook :: webhook_tables where
  "one_webhook = (case SaveWebhook demo_service demo_env 0 (demo_input demo_headers) no_webhooks of Inl _ \<Rightarrow> no_webhooks | Inr r \<Rightarrow> snd r)"

section \<open>Header preparation\<close>

text \<open>The header that an accepted input becomes.\<close>

definition prepared_from :: "webhooks_service \<Rightarrow> webhook_header list \<Rightarrow> webhook_header_input \<Rightarrow> webhook_header \<Rightarrow> bool" where
  "prepared_from svc existing hi h =
     (normalizeWebhookHeaderName svc (hi_name hi) = Inr (hd_name h) \<and> hd_sensitive h = hi_sensitive hi \<and>
      (\<exists>previous. (previous = no_header \<or> row_with (\<lambda>g. hd_id g = hi_id hi) existing = Some previous) \<and>
         prepareWebhookHeaderValue svc previous hi = Inr (hd_value h)))"

lemma existingWebhookHeader_Inr:
  "existingWebhookHeader i existing seen = Inr (previous, seen') \<Longrightarrow>
   previous = no_header \<or> row_with (\<lambda>g. hd_id g = i) existing = Some previous"
  by (auto simp: existingWebhookHeader_def split: if_splits option.splits)

lemma prepareWebhookHeader_Inr:
  assumes "prepareWebhookHeader svc e existing hi (hs, names, ids) = Inr (hs', names', ids')"
  obtains h where "hs' = hs @ [h]" "names' = en_lower e (hd_name h) # names" "en_lower e (hd_name h) \<notin> set names"
    "prepared_from svc existing hi h"
proof -
  from assms obtain name previous ids1 "value" where
    p: "normalizeWebhookHeaderName svc (hi_name hi) = Inr name" "en_lower e name \<notin> set names"
      "existingWebhookHeader (hi_id hi) existing ids = Inr (previous, ids1)"
      "prepareWebhookHeaderValue svc previous hi = Inr value"
      "hs' = hs @ [\<lparr>hd_id = hd_id previous, hd_name = name, hd_value = value, hd_sensitive = hi_sensitive hi, hd_configured = False\<rparr>]"
      "names' = en_lower e name # names"
    by (auto simp: prepareWebhookHeader_def bindR_eq_Inr if_Inl_eq_Inr)
  with existingWebhookHeader_Inr [OF p(3)] show thesis
    by (intro that [of "\<lparr>hd_id = hd_id previous, hd_name = name, hd_value = value, hd_sensitive = hi_sensitive hi, hd_configured = False\<rparr>"])
      (auto simp: prepared_from_def)
qed

lemma prepare_loop:
  "forR inputs (prepareWebhookHeader svc e existing) (hs0, names, ids) = Inr (hs, names', ids') \<Longrightarrow>
   \<exists>hs1. hs = hs0 @ hs1 \<and> list_all2 (prepared_from svc existing) inputs hs1 \<and>
     distinct (map (\<lambda>h. en_lower e (hd_name h)) hs1) \<and> (\<forall>h\<in>set hs1. en_lower e (hd_name h) \<notin> set names)"
proof (induction inputs arbitrary: hs0 names ids)
  case Nil
  then show ?case by simp
next
  case (Cons hi inputs)
  then obtain hs2 names2 ids2 where
    step: "prepareWebhookHeader svc e existing hi (hs0, names, ids) = Inr (hs2, names2, ids2)" and
    rest: "forR inputs (prepareWebhookHeader svc e existing) (hs2, names2, ids2) = Inr (hs, names', ids')"
    by (auto simp: bindR_eq_Inr)
  from step obtain h where h: "hs2 = hs0 @ [h]" "names2 = en_lower e (hd_name h) # names"
    "en_lower e (hd_name h) \<notin> set names" "prepared_from svc existing hi h"
    by (rule prepareWebhookHeader_Inr)
  from Cons.IH [OF rest] obtain hs1 where "hs = hs2 @ hs1" "list_all2 (prepared_from svc existing) inputs hs1"
    "distinct (map (\<lambda>h. en_lower e (hd_name h)) hs1)" "\<forall>h\<in>set hs1. en_lower e (hd_name h) \<notin> set names2"
    by blast
  with h show ?case by (intro exI [of _ "h # hs1"]) (auto simp: image_iff)
qed

lemma prepareWebhookHeaders_Inr:
  assumes "prepareWebhookHeaders svc e t i inputs = Inr hs"
  obtains existing where "webhookHeadersByID e t i = Inr existing" "list_all2 (prepared_from svc existing) inputs hs"
    "distinct (map (\<lambda>h. en_lower e (hd_name h)) hs)"
proof -
  from assms obtain existing names ids where
    "webhookHeadersByID e t i = Inr existing"
    "forR inputs (prepareWebhookHeader svc e existing) ([], [], []) = Inr (hs, names, ids)"
    by (auto simp: prepareWebhookHeaders_def bindR_eq_Inr)
  with prepare_loop [OF this(2)] show thesis by (auto intro: that)
qed

section \<open>What a save stores\<close>

definition header_values :: "header_row \<Rightarrow> int \<times> string \<times> string \<times> bool" where
  "header_values r = (hr_webhook r, hr_name r, hr_value r, hr_sensitive r)"

lemma insert_header_Inr:
  "insert_header e i h t = Inr t1 \<Longrightarrow>
   t1 = t\<lparr>wt_headers := wt_headers t @ [\<lparr>hr_id = wt_next_header t, hr_webhook = i, hr_name = hd_name h,
            hr_value = hd_value h, hr_sensitive = hd_sensitive h\<rparr>], wt_next_header := wt_next_header t + 1\<rparr>"
  by (simp add: insert_header_def split: if_splits)

lemma insert_headers:
  "forR hs (insert_header e i) t = Inr t1 \<Longrightarrow>
   \<exists>rows n. t1 = t\<lparr>wt_headers := wt_headers t @ rows, wt_next_header := n\<rparr> \<and>
     map header_values rows = map (\<lambda>h. (i, hd_name h, hd_value h, hd_sensitive h)) hs"
proof (induction hs arbitrary: t)
  case Nil
  then show ?case by (intro exI [of _ "[]"] exI [of _ "wt_next_header t"]) simp
next
  case (Cons h hs)
  let ?r = "\<lparr>hr_id = wt_next_header t, hr_webhook = i, hr_name = hd_name h, hr_value = hd_value h, hr_sensitive = hd_sensitive h\<rparr>"
  let ?t = "t\<lparr>wt_headers := wt_headers t @ [?r], wt_next_header := wt_next_header t + 1\<rparr>"
  from Cons.prems have "forR hs (insert_header e i) ?t = Inr t1"
    by (auto simp: bindR_eq_Inr dest!: insert_header_Inr)
  from Cons.IH [OF this] obtain rows n where
    "t1 = ?t\<lparr>wt_headers := wt_headers ?t @ rows, wt_next_header := n\<rparr>"
    "map header_values rows = map (\<lambda>h. (i, hd_name h, hd_value h, hd_sensitive h)) hs"
    by blast
  moreover have "header_values ?r = (i, hd_name h, hd_value h, hd_sensitive h)"
    by (simp add: header_values_def)
  ultimately show ?case
    by (intro exI [of _ "?r # rows"] exI [of _ n]) simp
qed

lemma replaceWebhookHeaders_Inr:
  assumes "replaceWebhookHeaders e i hs t = Inr t1"
  obtains rows n where
    "t1 = t\<lparr>wt_headers := delete_rows (\<lambda>h. hr_webhook h = i) (wt_headers t) @ rows, wt_next_header := n\<rparr>"
    "map header_values rows = map (\<lambda>h. (i, hd_name h, hd_value h, hd_sensitive h)) hs"
  using insert_headers [OF assms [unfolded replaceWebhookHeaders_def]] by (auto intro: that)

text \<open>The effect of a save: one row written, its headers replaced, the rest as it was.\<close>

definition saved_as :: "env \<Rightarrow> int \<Rightarrow> webhook \<Rightarrow> webhook_tables \<Rightarrow> webhook_row \<Rightarrow> header_row list \<Rightarrow> webhook_tables \<Rightarrow> bool" where
  "saved_as e i w t r rows t1 =
     (r \<in> set (wt_rows t1) \<and> wr_id r = (if i = 0 then wt_next_row t else i) \<and> webhook_columns e w r = r \<and>
      webhook_constraints e r [] = Inr () \<and>
      wt_headers t1 = delete_rows (\<lambda>h. hr_webhook h = wr_id r) (wt_headers t) @ rows \<and>
      map header_values rows = map (\<lambda>h. (wr_id r, hd_name h, hd_value h, hd_sensitive h)) (wb_headers w) \<and>
      wt_deliveries t1 = wt_deliveries t)"

lemma written_columns:
  assumes "webhook_columns e w r = r"
  shows "wr_count r = wb_count w" "wr_backoff_ms r = Milliseconds (wb_backoff w)"
    "wr_max_backoff_ms r = Milliseconds (wb_max_backoff w)"
proof -
  have "wr_count (webhook_columns e w r) = wb_count w" "wr_backoff_ms (webhook_columns e w r) = Milliseconds (wb_backoff w)"
    "wr_max_backoff_ms (webhook_columns e w r) = Milliseconds (wb_max_backoff w)"
    by (simp_all add: webhook_columns_def)
  then show "wr_count r = wb_count w" "wr_backoff_ms r = Milliseconds (wb_backoff w)"
    "wr_max_backoff_ms r = Milliseconds (wb_max_backoff w)"
    unfolding assms by auto
qed

lemma webhook_constraints_fewer: "webhook_constraints e r others = Inr () \<Longrightarrow> webhook_constraints e r [] = Inr ()"
  by (simp add: webhook_constraints_def if_Inl_eq_Inr)

lemma createWebhook_Inr:
  assumes "createWebhook e w t = Inr (saved, t1)"
  shows "\<exists>r rows. saved_as e 0 w t r rows t1 \<and> saved = load_webhook e t1 r"
proof -
  define r where "r = webhook_columns e w \<lparr>wr_id = wt_next_row t, wr_name = [], wr_url = [], wr_events = [], wr_template = [],
            wr_details = False, wr_retry = False, wr_count = 0, wr_backoff_ms = 0, wr_max_backoff_ms = 0, wr_jitter = False,
            wr_enabled = False, wr_created = en_now e, wr_updated = en_now e\<rparr>"
  have r: "wr_id r = wt_next_row t" "webhook_columns e w r = r"
    by (simp_all add: r_def webhook_columns_def)
  from assms have c: "webhook_constraints e r (wt_rows t) = Inr ()" and
    h: "replaceWebhookHeaders e (wr_id r) (wb_headers w) (t\<lparr>wt_rows := wt_rows t @ [r], wt_next_row := wt_next_row t + 1\<rparr>) = Inr t1" and
    s: "saved = load_webhook e t1 r"
    unfolding createWebhook_def Let_def r_def [symmetric] bindR_eq_Inr by auto
  from h show ?thesis
    by (rule replaceWebhookHeaders_Inr) (use r s webhook_constraints_fewer [OF c] in \<open>auto simp: saved_as_def\<close>)
qed

lemma updateWebhook_Inr:
  assumes "updateWebhook e i w t = Inr (saved, t1)" and "i \<noteq> 0"
  shows "\<exists>r rows. saved_as e i w t r rows t1 \<and> saved = load_webhook e t1 r"
proof -
  from assms(1) obtain r0 where r0: "row_with (\<lambda>r. wr_id r = i) (wt_rows t) = Some r0"
    by (auto simp: updateWebhook_def split: option.splits)
  define r where "r = webhook_columns e w r0"
  have r: "wr_id r = i" "webhook_columns e w r = r"
    using row_with_Some [OF r0] by (simp_all add: r_def webhook_columns_def)
  from assms(1) have c: "webhook_constraints e r (delete_rows (\<lambda>x. wr_id x = i) (wt_rows t)) = Inr ()" and
    h: "replaceWebhookHeaders e i (wb_headers w) (t\<lparr>wt_rows := update_rows (\<lambda>x. wr_id x = i) (\<lambda>_. r) (wt_rows t)\<rparr>) = Inr t1" and
    s: "saved = load_webhook e t1 r"
    unfolding updateWebhook_def r0 option.case Let_def r_def [symmetric] bindR_eq_Inr by auto
  have "r \<in> set (update_rows (\<lambda>x. wr_id x = i) (\<lambda>_. r) (wt_rows t))"
    using row_with_Some [OF r0] by (force simp: set_update_rows)
  with h show ?thesis
    by (elim replaceWebhookHeaders_Inr) (use r s assms(2) webhook_constraints_fewer [OF c] in \<open>auto simp: saved_as_def\<close>)
qed

lemma store_SaveWebhook_Inr:
  "store_SaveWebhook e i w t = Inr (saved, t1) \<Longrightarrow> \<exists>r rows. saved_as e i w t r rows t1 \<and> saved = load_webhook e t1 r"
  using createWebhook_Inr updateWebhook_Inr by (auto simp: store_SaveWebhook_def split: if_splits)

lemma SaveWebhook_Inr:
  assumes "SaveWebhook svc e i input t = Inr (w, t1)"
  obtains headers existing r rows where
    "validateWebhookInput svc (trimmed_input input) (normalizeWebhookEvents (wi_events input)) = Inr ()"
    "webhookHeadersByID e t i = Inr existing" "list_all2 (prepared_from svc existing) (wi_headers input) headers"
    "distinct (map (\<lambda>h. en_lower e (hd_name h)) headers)"
    "saved_as e i (webhook_of_input (trimmed_input input) (normalizeWebhookEvents (wi_events input)) headers) t r rows t1"
    "w = masked (load_webhook e t1 r)"
proof -
  have f: "wi_headers (trimmed_input input) = wi_headers input" "wi_events (trimmed_input input) = wi_events input"
    by (simp_all add: trimmed_input_def Let_def)
  from assms obtain headers saved where
    v: "validateWebhookInput svc (trimmed_input input) (normalizeWebhookEvents (wi_events input)) = Inr ()" and
    p: "prepareWebhookHeaders svc e t i (wi_headers input) = Inr headers" and
    s: "store_SaveWebhook e i (webhook_of_input (trimmed_input input) (normalizeWebhookEvents (wi_events input)) headers) t = Inr (saved, t1)" and
    w: "w = masked saved"
    unfolding SaveWebhook_def Let_def f bindR_eq_Inr by auto
  from store_SaveWebhook_Inr [OF s] obtain r rows where r:
    "saved_as e i (webhook_of_input (trimmed_input input) (normalizeWebhookEvents (wi_events input)) headers) t r rows t1"
    "saved = load_webhook e t1 r" by (elim exE conjE)
  show thesis
    using p
  proof (rule prepareWebhookHeaders_Inr)
    fix existing
    assume "webhookHeadersByID e t i = Inr existing" "list_all2 (prepared_from svc existing) (wi_headers input) headers"
      "distinct (map (\<lambda>h. en_lower e (hd_name h)) headers)"
    from v this r(1) w [unfolded r(2)] show thesis by (rule that)
  qed
qed

section \<open>Secrets\<close>

lemma hd_sensitive_masked: "h \<in> set (maskedWebhookHeaders hs) \<Longrightarrow> hd_sensitive h \<Longrightarrow> hd_value h = []"
  by (auto simp: maskedWebhookHeaders_def split: if_splits)

lemma wb_headers_masked: "wb_headers (masked w) = maskedWebhookHeaders (wb_headers w)"
  by (simp add: masked_def normalizeStoredWebhook_def)

lemma webhookHeaders_stored:
  "h \<in> set (webhookHeaders e t i) \<Longrightarrow> \<exists>r\<in>set (wt_headers t). hr_webhook r = i \<and> h = stored_header r"
  by (auto simp: webhookHeaders_def)

lemma existing_header:
  assumes "webhookHeadersByID e t i = Inr existing" and "row_with P existing = Some h"
  shows "\<exists>r\<in>set (wt_headers t). hr_webhook r = i \<and> h = stored_header r"
proof -
  from assms(2) have h: "h \<in> set existing"
    using row_with_Some by fastforce
  with assms(1) obtain w where "Webhook e t i = Inr w" "h \<in> set (wb_headers w)"
    by (auto simp: webhookHeadersByID_def bindR_eq_Inr split: if_splits)
  then have "h \<in> set (webhookHeaders e t i)"
    by (auto simp: Webhook_def load_webhook_def split: option.splits dest!: row_with_Some)
  then show ?thesis by (rule webhookHeaders_stored)
qed

lemma stored_header_sel [simp]:
  "hd_id (stored_header r) = hr_id r" "hd_name (stored_header r) = hr_name r" "hd_value (stored_header r) = hr_value r"
  "hd_sensitive (stored_header r) = hr_sensitive r"
  by (simp_all add: stored_header_def)

text \<open>
  A sensitive value was stored for the same webhook before, or is what the codec made of a submitted
  sensitive value; a plain one was stored as it is, or submitted as plain.
\<close>

definition sealed_header :: "webhooks_service \<Rightarrow> webhook_header_input list \<Rightarrow> webhook_tables \<Rightarrow> header_row \<Rightarrow> bool" where
  "sealed_header svc inputs t h =
     (if hr_sensitive h
      then (\<exists>g\<in>set (wt_headers t). hr_webhook g = hr_webhook h \<and> hr_sensitive g \<and> hr_value g = hr_value h) \<or>
           (\<exists>enc dec. \<exists>hi\<in>set inputs. wk_secrets svc = Some (enc, dec) \<and> hi_sensitive hi \<and> enc (hi_value hi) = Inr (hr_value h))
      else h \<in> set (wt_headers t) \<or> (\<exists>hi\<in>set inputs. \<not> hi_sensitive hi \<and> hi_value hi = hr_value h))"

lemma prepared_value:
  assumes "prepared_from svc existing hi h" and "webhookHeadersByID e t i = Inr existing"
  shows "if hd_sensitive h
    then (i \<noteq> 0 \<and> (\<exists>r\<in>set (wt_headers t). hr_webhook r = i \<and> hr_sensitive r \<and> hr_value r = hd_value h)) \<or>
      (\<exists>enc dec. wk_secrets svc = Some (enc, dec) \<and> hi_sensitive hi \<and> enc (hi_value hi) = Inr (hd_value h))
    else \<not> hi_sensitive hi \<and> hi_value hi = hd_value h"
proof -
  from assms(1) obtain previous where s: "hd_sensitive h = hi_sensitive hi" and
    p: "previous = no_header \<or> row_with (\<lambda>g. hd_id g = hi_id hi) existing = Some previous" and
    v: "prepareWebhookHeaderValue svc previous hi = Inr (hd_value h)"
    by (auto simp: prepared_from_def)
  show ?thesis
  proof (cases "TrimSpace (hi_value hi) = []")
    case True
    with v have pre: "preserveWebhookHeaderValue previous hi" "hd_value previous = hd_value h"
      by (auto simp: prepareWebhookHeaderValue_def split: if_splits)
    then have "previous \<noteq> no_header"
      by (auto simp: preserveWebhookHeaderValue_def no_header_def)
    with p have r: "row_with (\<lambda>g. hd_id g = hi_id hi) existing = Some previous" by blast
    with assms(2) have "i \<noteq> 0"
      by (auto simp: webhookHeadersByID_def)
    with existing_header [OF assms(2) r] pre s show ?thesis
      by (auto simp: preserveWebhookHeaderValue_def)
  next
    case False
    with v s show ?thesis
      by (auto simp: prepareWebhookHeaderValue_def split: if_splits option.splits)
  qed
qed

lemma list_all2_right: "list_all2 P xs ys \<Longrightarrow> y \<in> set ys \<Longrightarrow> \<exists>x\<in>set xs. P x y"
  by (induction rule: list_all2_induct) auto

lemma header_of_row:
  assumes "saved_as e i w t r rows t1" and "g \<in> set rows"
  shows "hr_webhook g = wr_id r \<and> (\<exists>h\<in>set (wb_headers w). hr_name g = hd_name h \<and> hr_value g = hd_value h \<and> hr_sensitive g = hd_sensitive h)"
proof -
  have "header_values g \<in> set (map header_values rows)"
    using assms(2) by simp
  also have "map header_values rows = map (\<lambda>h. (wr_id r, hd_name h, hd_value h, hd_sensitive h)) (wb_headers w)"
    using assms(1) by (simp add: saved_as_def)
  finally show ?thesis by (auto simp: header_values_def)
qed

lemma row_of_header:
  assumes "saved_as e i w t r rows t1" and "h \<in> set (wb_headers w)"
  shows "\<exists>g\<in>set rows. hr_name g = hd_name h \<and> hr_value g = hd_value h \<and> hr_sensitive g = hd_sensitive h"
proof -
  have "(wr_id r, hd_name h, hd_value h, hd_sensitive h) \<in> set (map (\<lambda>h. (wr_id r, hd_name h, hd_value h, hd_sensitive h)) (wb_headers w))"
    using assms(2) by simp
  also have "map (\<lambda>h. (wr_id r, hd_name h, hd_value h, hd_sensitive h)) (wb_headers w) = map header_values rows"
    using assms(1) by (simp add: saved_as_def)
  finally show ?thesis by (auto simp: header_values_def)
qed

lemma saved_row_sealed:
  assumes "webhookHeadersByID e t i = Inr existing" and p: "list_all2 (prepared_from svc existing) inputs (wb_headers w)"
    and s: "saved_as e i w t r rows t1" and "g \<in> set rows"
  shows "sealed_header svc inputs t g"
proof -
  from header_of_row [OF s assms(4)] obtain h where g: "hr_webhook g = wr_id r" "h \<in> set (wb_headers w)"
    "hr_value g = hd_value h" "hr_sensitive g = hd_sensitive h"
    by blast
  from list_all2_right [OF p g(2)] obtain hi where hi: "hi \<in> set inputs" "prepared_from svc existing hi h"
    by blast
  from s have "i \<noteq> 0 \<Longrightarrow> wr_id r = i" by (simp add: saved_as_def)
  then show ?thesis
    using prepared_value [OF hi(2) assms(1)] hi(1) unfolding sealed_header_def g by (cases "hd_sensitive h") (simp_all, blast+)
qed

text \<open>C12: the answer of a successful save shows no value of a sensitive header. A sensitive value in the
  database afterwards was stored as sensitive for the same webhook before, or is what the codec
  made of a submitted value; a plain value was stored before or was submitted as plain. So no
  secret is stored unencrypted and none becomes readable by declaring its header plain.
\<close>

theorem webhook_secrets_stay_sealed:
  assumes "SaveWebhook svc e i input t = Inr (w, t1)"
  shows "(\<forall>h\<in>set (wb_headers w). hd_sensitive h \<longrightarrow> hd_value h = []) \<and>
    (\<forall>h\<in>set (wt_headers t1). sealed_header svc (wi_headers input) t h)"
  using assms
proof (rule SaveWebhook_Inr)
  fix headers existing r rows
  let ?w = "webhook_of_input (trimmed_input input) (normalizeWebhookEvents (wi_events input)) headers"
  assume ex: "webhookHeadersByID e t i = Inr existing" and p: "list_all2 (prepared_from svc existing) (wi_headers input) headers"
    and s: "saved_as e i ?w t r rows t1" and w: "w = masked (load_webhook e t1 r)"
  have "sealed_header svc (wi_headers input) t h" if "h \<in> set (wt_headers t1)" for h
  proof -
    from that s consider "h \<in> set (wt_headers t)" | "h \<in> set rows"
      by (auto simp: saved_as_def set_delete_rows)
    then show ?thesis
    proof cases
      case 1
      then show ?thesis by (auto simp: sealed_header_def)
    next
      case 2
      then show ?thesis
        using saved_row_sealed [OF ex _ s] p by (simp add: webhook_of_input_def)
    qed
  qed
  then show ?thesis
    using w hd_sensitive_masked by (auto simp: wb_headers_masked)
qed

theorem webhook_secrets_stay_sealed_witness:
  "\<exists>w t1. SaveWebhook demo_service demo_env 0 (demo_input demo_headers) no_webhooks = Inr (w, t1) \<and>
     map hr_value (wt_headers t1) = [''#k''] \<and> map hd_value (wb_headers w) = [[]] \<and>
     (\<forall>h\<in>set (wt_headers t1). sealed_header demo_service (wi_headers (demo_input demo_headers)) no_webhooks h)"
proof -
  have "case SaveWebhook demo_service demo_env 0 (demo_input demo_headers) no_webhooks of
      Inr (w, t1) \<Rightarrow> map hr_value (wt_headers t1) = [''#k''] \<and> map hd_value (wb_headers w) = [[]] | Inl _ \<Rightarrow> False" by code_simp
  then obtain w t1 where "SaveWebhook demo_service demo_env 0 (demo_input demo_headers) no_webhooks = Inr (w, t1)"
    "map hr_value (wt_headers t1) = [''#k'']" "map hd_value (wb_headers w) = [[]]"
    by (auto split: sum.splits)
  with webhook_secrets_stay_sealed [OF this(1)] show ?thesis
    by (intro exI [of _ w] exI [of _ t1] conjI) auto
qed

section \<open>Bounds\<close>

lemma retry_errors_empty:
  "validateWebhookInput svc i events = Inr () \<Longrightarrow> validateWebhookRetry i = []"
  by (simp add: validateWebhookInput_def Let_def split: if_splits)

lemma Milliseconds_mono: "0 \<le> a \<Longrightarrow> a \<le> b \<Longrightarrow> Milliseconds a \<le> Milliseconds b"
  by (simp add: Milliseconds_def zdiv_mono1)

lemma Milliseconds_nonneg: "0 \<le> a \<Longrightarrow> 0 \<le> Milliseconds a"
  by (simp add: Milliseconds_def pos_imp_zdiv_nonneg_iff)

text \<open>C14: a webhook saved with retries enabled is stored with one to ten retries, an initial delay from
  0 to 3,600,000 milliseconds and a maximum delay between the initial one and the same cap; what the
  delivery reads back are whole milliseconds within one hour.
\<close>

theorem saved_retry_bounds:
  assumes "SaveWebhook svc e i input t = Inr (w, t1)" and "wi_retry input"
  shows "1 \<le> wb_count w \<and> wb_count w \<le> 10 \<and> 0 \<le> wb_backoff w \<and> wb_backoff w \<le> wb_max_backoff w \<and>
    wb_max_backoff w \<le> maxWebhookRetryBackoff \<and> wb_backoff w = Milliseconds (wi_backoff input) * 1000000 \<and>
    wb_max_backoff w = Milliseconds (wi_max_backoff input) * 1000000"
  using assms(1)
proof (rule SaveWebhook_Inr)
  fix headers existing r rows
  let ?i = "trimmed_input input"
  let ?w = "webhook_of_input ?i (normalizeWebhookEvents (wi_events input)) headers"
  assume v: "validateWebhookInput svc ?i (normalizeWebhookEvents (wi_events input)) = Inr ()"
    and s: "saved_as e i ?w t r rows t1" and w: "w = masked (load_webhook e t1 r)"
  have f: "wi_retry ?i = wi_retry input" "wi_count ?i = wi_count input" "wi_backoff ?i = wi_backoff input"
    "wi_max_backoff ?i = wi_max_backoff input"
    by (simp_all add: trimmed_input_def Let_def)
  from retry_errors_empty [OF v] assms(2) have b: "1 \<le> wi_count input" "wi_count input \<le> 10" "0 < wi_backoff input"
    "wi_backoff input \<le> wi_max_backoff input" "wi_max_backoff input \<le> 3600000000000"
    by (auto simp: validateWebhookRetry_def validWebhookMaximumBackoff_def maxWebhookRetryCount_def maxWebhookRetryBackoff_def f
        split: if_splits)
  from s have "webhook_columns e ?w r = r" by (simp add: saved_as_def)
  note c = written_columns [OF this]
  have "wr_count r = wi_count input" "wr_backoff_ms r = Milliseconds (wi_backoff input)"
    "wr_max_backoff_ms r = Milliseconds (wi_max_backoff input)"
    using c by (simp_all add: webhook_of_input_def f)
  then have "wb_count w = wi_count input" "wb_backoff w = Milliseconds (wi_backoff input) * 1000000"
    "wb_max_backoff w = Milliseconds (wi_max_backoff input) * 1000000"
    by (simp_all add: w masked_def normalizeStoredWebhook_def load_webhook_def scanWebhook_def)
  moreover have "Milliseconds (wi_max_backoff input) \<le> 3600000"
    using Milliseconds_mono [of "wi_max_backoff input" 3600000000000] b by (simp add: Milliseconds_def)
  ultimately show ?thesis
    using b Milliseconds_nonneg [of "wi_backoff input"] Milliseconds_mono [of "wi_backoff input" "wi_max_backoff input"]
    by (simp add: maxWebhookRetryBackoff_def)
qed

theorem saved_retry_bounds_witness:
  "\<exists>w t1. SaveWebhook demo_service demo_env 0 (demo_input []) no_webhooks = Inr (w, t1) \<and> wb_backoff w = 0 \<and> wb_count w \<le> 10"
proof -
  have "case SaveWebhook demo_service demo_env 0 (demo_input []) no_webhooks of Inr _ \<Rightarrow> True | Inl _ \<Rightarrow> False" by code_simp
  then obtain w t1 where s: "SaveWebhook demo_service demo_env 0 (demo_input []) no_webhooks = Inr (w, t1)"
    by (auto split: sum.splits)
  have "wi_retry (demo_input [])" "Milliseconds (wi_backoff (demo_input [])) = 0" by code_simp+
  with s saved_retry_bounds [OF s] show ?thesis by auto
qed

section \<open>What a receiver gets\<close>

lemma header_value_cong:
  "hd_value g = hd_value h \<Longrightarrow> hd_sensitive g = hd_sensitive h \<Longrightarrow> header_value svc g = header_value svc h"
  by (simp add: header_value_def split: option.split)

lemma map_of_set_header: "map_of (set_header n v hs) k = (if k = n then Some v else map_of hs k)"
  by (induction hs) (auto simp: set_header_def delete_rows_def)

lemma request_headers_Inr:
  "forR hs (\<lambda>h m. bindR (header_value svc h) (\<lambda>v. Inr (set_header (hd_name h) v m))) m0 = Inr m \<Longrightarrow>
   distinct (map hd_name hs) \<Longrightarrow>
   (\<forall>h\<in>set hs. \<exists>v. header_value svc h = Inr v \<and> map_of m (hd_name h) = Some v) \<and>
   (\<forall>k. k \<notin> hd_name ` set hs \<longrightarrow> map_of m k = map_of m0 k)"
proof (induction hs arbitrary: m0)
  case (Cons h hs)
  from Cons.prems(1) obtain v where v: "header_value svc h = Inr v" and
    r: "forR hs (\<lambda>h m. bindR (header_value svc h) (\<lambda>v. Inr (set_header (hd_name h) v m))) (set_header (hd_name h) v m0) = Inr m"
    by (auto simp: bindR_eq_Inr)
  from Cons.IH [OF r] Cons.prems(2) v show ?case
    by (auto simp: map_of_set_header)
qed simp

lemma request_headers_Inl:
  "forR hs (\<lambda>h m. bindR (header_value svc h) (\<lambda>v. Inr (set_header (hd_name h) v m))) m0 = Inl er \<Longrightarrow>
   \<exists>h\<in>set hs. header_value svc h = Inl er"
  by (induction hs arbitrary: m0) (auto simp: bindR_eq_Inl bindR_eq_Inr)

text \<open>The value that an accepted input stands for: the entered one, or the one it leaves in place.\<close>

definition submitted_value :: "webhooks_service \<Rightarrow> env \<Rightarrow> webhook_tables \<Rightarrow> int \<Rightarrow> webhook_header_input \<Rightarrow> error + string" where
  "submitted_value svc e t i hi =
     (if TrimSpace (hi_value hi) \<noteq> [] then Inr (hi_value hi)
      else bindR (webhookHeadersByID e t i) (\<lambda>existing.
        case row_with (\<lambda>h. hd_id h = hi_id hi) existing of None \<Rightarrow> Inl ErrNotFound | Some h \<Rightarrow> header_value svc h))"

definition codec_inverts :: "webhooks_service \<Rightarrow> bool" where
  "codec_inverts svc = (case wk_secrets svc of None \<Rightarrow> True | Some (enc, dec) \<Rightarrow> \<forall>x y. enc x = Inr y \<longrightarrow> dec y = Inr x)"

lemma prepared_sends:
  assumes "prepared_from svc existing hi h" and "webhookHeadersByID e t i = Inr existing" and "codec_inverts svc"
  shows "header_value svc h = submitted_value svc e t i hi"
proof -
  from assms(1) obtain previous where s: "hd_sensitive h = hi_sensitive hi" and
    p: "previous = no_header \<or> row_with (\<lambda>g. hd_id g = hi_id hi) existing = Some previous" and
    v: "prepareWebhookHeaderValue svc previous hi = Inr (hd_value h)"
    by (auto simp: prepared_from_def)
  show ?thesis
  proof (cases "TrimSpace (hi_value hi) = []")
    case True
    with v have pre: "preserveWebhookHeaderValue previous hi" "hd_value previous = hd_value h"
      by (auto simp: prepareWebhookHeaderValue_def split: if_splits)
    then have "previous \<noteq> no_header"
      by (auto simp: preserveWebhookHeaderValue_def no_header_def)
    with p True pre s assms(2) show ?thesis
      by (simp add: submitted_value_def header_value_def preserveWebhookHeaderValue_def split: option.split)
  next
    case False
    with v s assms(3) show ?thesis
      by (auto simp: prepareWebhookHeaderValue_def submitted_value_def header_value_def codec_inverts_def
          split: if_splits option.splits)
  qed
qed

lemma stored_headers_of_save:
  assumes "saved_as e i w t r rows t1"
  shows "mset (webhookHeaders e t1 (wr_id r)) = mset (map stored_header rows)"
proof -
  have "filter (\<lambda>h. hr_webhook h = wr_id r) rows = rows"
    using header_of_row [OF assms] by (simp add: filter_id_conv)
  moreover have "filter (\<lambda>h. hr_webhook h = wr_id r) (delete_rows (\<lambda>h. hr_webhook h = wr_id r) (wt_headers t)) = []"
    by (simp add: delete_rows_def filter_empty_conv)
  ultimately show ?thesis
    using assms by (simp add: webhookHeaders_def saved_as_def)
qed

lemma stored_names_of_save:
  assumes "saved_as e i w t r rows t1" and "distinct (map (\<lambda>h. en_lower e (hd_name h)) (wb_headers w))"
  shows "distinct (map hd_name (webhookHeaders e t1 (wr_id r)))"
proof -
  have "map hr_name rows = map (fst \<circ> snd) (map header_values rows)"
    by (simp add: header_values_def)
  also have "\<dots> = map hd_name (wb_headers w)"
    using assms(1) by (simp add: saved_as_def)
  finally have n: "map hr_name rows = map hd_name (wb_headers w)" .
  have "distinct (map (en_lower e) (map hd_name (wb_headers w)))"
    using assms(2) by (simp add: comp_def)
  then have "distinct (map hr_name rows)"
    unfolding n distinct_map [of "en_lower e"] by (rule conjunct1)
  moreover have "mset (map hd_name (webhookHeaders e t1 (wr_id r))) = mset (map hr_name rows)"
    using stored_headers_of_save [OF assms(1)] by (simp add: image_mset.compositionality comp_def)
  ultimately show ?thesis
    using mset_eq_imp_distinct_iff by blast
qed

lemma Webhook_of_save:
  assumes "saved_as e i w t r rows t1" and "Webhook e t1 (wr_id r) = Inr w1"
  shows "wb_headers w1 = webhookHeaders e t1 (wr_id r)"
  using assms(2) by (auto simp: Webhook_def load_webhook_def split: option.splits dest!: row_with_Some)

text \<open>C13: after a successful save, with a codec that decrypts what it encrypts, a delivery of the saved
  webhook carries for every submitted header, under its canonical name, the value that was entered,
  or, for a secret left blank, the value that was decrypted from the stored one before. The request
  headers can be built unless one of these old secrets cannot be decrypted any more.
\<close>

theorem saved_headers_are_sent:
  assumes "SaveWebhook svc e i input t = Inr (w, t1)" and "codec_inverts svc" and "Webhook e t1 (wb_id w) = Inr w1"
  shows "case webhookRequestHeaders svc w1 ev of
      Inr hs \<Rightarrow> \<forall>hi\<in>set (wi_headers input). \<exists>v. submitted_value svc e t i hi = Inr v \<and>
        map_of hs (CanonicalMIMEHeaderKey (TrimSpace (hi_name hi))) = Some v
    | Inl er \<Rightarrow> \<exists>hi\<in>set (wi_headers input). submitted_value svc e t i hi = Inl er"
  using assms(1)
proof (rule SaveWebhook_Inr)
  fix headers existing r rows
  let ?w = "webhook_of_input (trimmed_input input) (normalizeWebhookEvents (wi_events input)) headers"
  assume ex: "webhookHeadersByID e t i = Inr existing" and p: "list_all2 (prepared_from svc existing) (wi_headers input) headers"
    and d: "distinct (map (\<lambda>h. en_lower e (hd_name h)) headers)" and s: "saved_as e i ?w t r rows t1"
    and w: "w = masked (load_webhook e t1 r)"
  have hs: "wb_headers ?w = headers" by (simp add: webhook_of_input_def)
  have "wb_id w = wr_id r" by (simp add: w masked_def normalizeStoredWebhook_def load_webhook_def scanWebhook_def)
  with assms(3) have w1: "wb_headers w1 = webhookHeaders e t1 (wr_id r)"
    using Webhook_of_save [OF s] by simp
  have set_eq: "set (wb_headers w1) = stored_header ` set rows"
    using arg_cong [OF stored_headers_of_save [OF s], of set_mset] by (simp add: w1)
  have names: "distinct (map hd_name (wb_headers w1))"
    unfolding w1 by (rule stored_names_of_save [OF s]) (simp add: hs d)
  have sent: "\<exists>g\<in>set (wb_headers w1). hd_name g = hd_name h \<and> header_value svc g = header_value svc h" if h: "h \<in> set headers" for h
  proof -
    from row_of_header [OF s] h obtain x where "x \<in> set rows" "hr_name x = hd_name h" "hr_value x = hd_value h" "hr_sensitive x = hd_sensitive h"
      unfolding hs by blast
    then show ?thesis
      by (intro bexI [of _ "stored_header x"] conjI header_value_cong) (simp_all add: set_eq)
  qed
  show ?thesis
  proof (cases "webhookRequestHeaders svc w1 ev")
    case (Inr m)
    have "\<exists>v. submitted_value svc e t i hi = Inr v \<and> map_of m (CanonicalMIMEHeaderKey (TrimSpace (hi_name hi))) = Some v"
      if hi: "hi \<in> set (wi_headers input)" for hi
    proof -
      from p hi obtain h where h: "h \<in> set headers" "prepared_from svc existing hi h"
        by (metis list_all2_conv_all_nth in_set_conv_nth)
      then have "hd_name h = CanonicalMIMEHeaderKey (TrimSpace (hi_name hi))"
        by (auto simp: prepared_from_def normalizeWebhookHeaderName_def Let_def split: if_splits)
      with sent [OF h(1)] request_headers_Inr [OF Inr [unfolded webhookRequestHeaders_def] names] prepared_sends [OF h(2) ex assms(2)]
      show ?thesis by force
    qed
    with Inr show ?thesis by simp
  next
    case (Inl er)
    from request_headers_Inl [OF Inl [unfolded webhookRequestHeaders_def]]
    obtain g where g: "g \<in> set (wb_headers w1)" "header_value svc g = Inl er" by blast
    from g(1) set_eq obtain x where x: "x \<in> set rows" "g = stored_header x" by blast
    from header_of_row [OF s x(1)] obtain h where h: "h \<in> set headers" "hr_value x = hd_value h" "hr_sensitive x = hd_sensitive h"
      by (auto simp: hs)
    then have "header_value svc g = header_value svc h" by (intro header_value_cong) (simp_all add: x(2))
    with g(2) have "header_value svc h = Inl er" by simp
    moreover from list_all2_right [OF p h(1)] obtain hi where hi: "hi \<in> set (wi_headers input)" "prepared_from svc existing hi h"
      by blast
    ultimately show ?thesis
      using prepared_sends [OF hi(2) ex assms(2)] Inl by auto
  qed
qed

text \<open>An edit that leaves the secret blank still sends it.\<close>

theorem saved_headers_are_sent_witness:
  "\<exists>w t1 w1 hs. SaveWebhook demo_service demo_env 1
       (demo_input [\<lparr>hi_id = 1, hi_name = ''X-KEY'', hi_value = [], hi_sensitive = True\<rparr>]) one_webhook = Inr (w, t1) \<and>
     Webhook demo_env t1 (wb_id w) = Inr w1 \<and>
     webhookRequestHeaders demo_service w1 (webhookTemplateSampleEvent ''page.updated'' sample_actor sample_recipient) = Inr hs \<and>
     map_of hs ''X-Key'' = Some ''k''"
proof -
  let ?in = "demo_input [\<lparr>hi_id = 1, hi_name = ''X-KEY'', hi_value = [], hi_sensitive = True\<rparr>]"
  let ?ev = "webhookTemplateSampleEvent ''page.updated'' sample_actor sample_recipient"
  have "case SaveWebhook demo_service demo_env 1 ?in one_webhook of
      Inr (w, t1) \<Rightarrow> (case Webhook demo_env t1 (wb_id w) of Inr _ \<Rightarrow> True | Inl _ \<Rightarrow> False) | Inl _ \<Rightarrow> False" by code_simp
  then obtain w t1 where s1: "SaveWebhook demo_service demo_env 1 ?in one_webhook = Inr (w, t1)" and
    x: "case Webhook demo_env t1 (wb_id w) of Inr _ \<Rightarrow> True | Inl _ \<Rightarrow> False"
    by (cases "SaveWebhook demo_service demo_env 1 ?in one_webhook") auto
  from x obtain w1 where "Webhook demo_env t1 (wb_id w) = Inr w1"
    by (cases "Webhook demo_env t1 (wb_id w)") auto
  note s = s1 this
  have c: "codec_inverts demo_service" by (auto simp: codec_inverts_def demo_service_def)
  have v: "submitted_value demo_service demo_env one_webhook 1 \<lparr>hi_id = 1, hi_name = ''X-KEY'', hi_value = [], hi_sensitive = True\<rparr> = Inr ''k''"
    by code_simp
  have n: "CanonicalMIMEHeaderKey (TrimSpace ''X-KEY'') = ''X-Key''" by code_simp
  have i: "wi_headers ?in = [\<lparr>hi_id = 1, hi_name = ''X-KEY'', hi_value = [], hi_sensitive = True\<rparr>]" by (simp add: demo_input_def)
  from saved_headers_are_sent [OF s(1) c s(2), of ?ev] s show ?thesis
    by (auto simp: i v n split: sum.splits)
qed

section \<open>Emission\<close>

text \<open>The outcome of one delivery: status, attempts and error.\<close>

definition delivery_outcome :: "webhooks_service \<Rightarrow> outgoing_event \<Rightarrow> webhook \<Rightarrow> int \<times> nat \<times> error option" where
  "delivery_outcome svc ev w =
     (case prepare_delivery svc (normalizeStoredWebhook w) ev None of
        Inl er \<Rightarrow> (0, 0, Some er)
      | Inr (rq, n) \<Rightarrow> (let out = wk_send svc rq n in (so_status out, so_attempts out, so_error out)))"

definition outcome_row :: "webhooks_service \<Rightarrow> outgoing_event \<Rightarrow> webhook \<Rightarrow> int \<times> string \<times> int \<times> int \<times> string" where
  "outcome_row svc ev w =
     (case delivery_outcome svc ev w of (status, attempts, er) \<Rightarrow>
        (wb_id w, oe_event ev, status, int attempts, case er of None \<Rightarrow> [] | Some x \<Rightarrow> wk_error_text svc x))"

definition history_row :: "webhook_delivery \<Rightarrow> int \<times> string \<times> int \<times> int \<times> string" where
  "history_row d = (wd_webhook d, wd_event d, wd_status d, wd_attempts d, wd_error d)"

lemma wb_id_normalize [simp]: "wb_id (normalizeStoredWebhook w) = wb_id w"
  by (simp add: normalizeStoredWebhook_def)

text \<open>Rows were added to the history and nothing else changed.\<close>

definition adds_history :: "webhook_tables \<Rightarrow> (int \<times> string \<times> int \<times> int \<times> string) list \<Rightarrow> webhook_tables \<Rightarrow> bool" where
  "adds_history t vs t1 =
     (\<exists>rows n. t1 = t\<lparr>wt_deliveries := wt_deliveries t @ rows, wt_next_delivery := n\<rparr> \<and> map history_row rows = vs)"

lemma adds_history_refl: "adds_history t [] t"
  unfolding adds_history_def by (intro exI [of _ "[]"] exI [of _ "wt_next_delivery t"]) simp

lemma adds_history_trans: "adds_history t vs t1 \<Longrightarrow> adds_history t1 ws t2 \<Longrightarrow> adds_history t (vs @ ws) t2"
  unfolding adds_history_def
  by (elim exE conjE, rule_tac x = "rows @ rowsa" in exI, rule_tac x = na in exI) simp

lemma adds_history_rows: "adds_history t vs t1 \<Longrightarrow> wt_rows t1 = wt_rows t"
  by (auto simp: adds_history_def)

lemma recordWebhookDelivery_row:
  assumes "list_ex (\<lambda>r. wr_id r = i) (wt_rows t)" and "0 \<le> attempts"
  shows "fst (recordWebhookDelivery e i event status attempts message t) = None \<and>
    adds_history t [(i, event, status, attempts, message)] (snd (recordWebhookDelivery e i event status attempts message t))"
proof -
  let ?d = "\<lparr>wd_id = wt_next_delivery t, wd_webhook = i, wd_event = event, wd_status = status, wd_attempts = attempts,
    wd_error = message, wd_created = en_now e\<rparr>"
  have "recordWebhookDelivery e i event status attempts message t =
    (None, t\<lparr>wt_deliveries := wt_deliveries t @ [?d], wt_next_delivery := wt_next_delivery t + 1\<rparr>)"
    using assms by (simp add: recordWebhookDelivery_def AddWebhookDelivery_def)
  moreover have "history_row ?d = (i, event, status, attempts, message)"
    by (simp add: history_row_def)
  ultimately show ?thesis
    unfolding adds_history_def by (simp add: exI [of _ "[?d]"] exI [of _ "wt_next_delivery t + 1"])
qed

lemma deliver_row:
  assumes "list_ex (\<lambda>r. wr_id r = wb_id w) (wt_rows t)"
  shows "fst (deliver svc e (normalizeStoredWebhook w) ev t) = snd (snd (delivery_outcome svc ev w)) \<and>
    adds_history t [outcome_row svc ev w] (snd (deliver svc e (normalizeStoredWebhook w) ev t))"
proof (cases "prepare_delivery svc (normalizeStoredWebhook w) ev None")
  case (Inl er)
  with recordWebhookDelivery_row [OF assms, of 0 e "oe_event ev" 0 "wk_error_text svc er"] show ?thesis
    by (simp add: deliver_def deliverWithNotification_def fail_delivery_def delivery_outcome_def outcome_row_def)
next
  case (Inr x)
  then obtain rq n where x: "prepare_delivery svc (normalizeStoredWebhook w) ev None = Inr (rq, n)"
    by (cases x) auto
  let ?out = "wk_send svc rq n"
  from recordWebhookDelivery_row [OF assms, of "int (so_attempts ?out)" e "oe_event ev" "so_status ?out"
      "case so_error ?out of None \<Rightarrow> [] | Some er \<Rightarrow> wk_error_text svc er"] x show ?thesis
    by (cases "so_error ?out") (simp_all add: deliver_def deliverWithNotification_def delivery_outcome_def outcome_row_def Let_def)
qed

definition delivery_errors :: "webhooks_service \<Rightarrow> outgoing_event \<Rightarrow> webhook list \<Rightarrow> error list" where
  "delivery_errors svc ev ws = List.map_filter (\<lambda>w. snd (snd (delivery_outcome svc ev w))) ws"

lemma emit_all_rows:
  assumes "\<forall>w\<in>set ws. list_ex (\<lambda>r. wr_id r = wb_id w) (wt_rows t)"
  shows "fst (emit_all svc e ev ws t) = delivery_errors svc ev (filter (subscribes ev) ws) \<and>
    adds_history t (map (outcome_row svc ev) (filter (subscribes ev) ws)) (snd (emit_all svc e ev ws t))"
  using assms
proof (induction ws arbitrary: t)
  case Nil
  then show ?case by (simp add: delivery_errors_def List.map_filter_simps adds_history_refl)
next
  case (Cons w ws)
  show ?case
  proof (cases "subscribes ev w")
    case False
    with Cons show ?thesis by simp
  next
    case True
    obtain r t1 where d: "deliver svc e (normalizeStoredWebhook w) ev t = (r, t1)" by fastforce
    from Cons.prems have "list_ex (\<lambda>r. wr_id r = wb_id w) (wt_rows t)" by simp
    from deliver_row [OF this, of svc e ev] d have
      oc: "r = snd (snd (delivery_outcome svc ev w))" "adds_history t [outcome_row svc ev w] t1" by simp_all
    obtain errs t2 where l: "emit_all svc e ev ws t1 = (errs, t2)" by fastforce
    have "\<forall>w\<in>set ws. list_ex (\<lambda>r. wr_id r = wb_id w) (wt_rows t1)"
      using Cons.prems adds_history_rows [OF oc(2)] by simp
    from Cons.IH [OF this] l have
      "errs = delivery_errors svc ev (filter (subscribes ev) ws)"
      "adds_history t1 (map (outcome_row svc ev) (filter (subscribes ev) ws)) t2" by simp_all
    with True d l oc adds_history_trans [OF oc(2)] show ?thesis
      by (simp add: delivery_errors_def List.map_filter_simps split: option.split)
  qed
qed

text \<open>emitting an event delivers it to every enabled webhook that lists the event, in name order, and to
  no other. Each delivery leaves one history row with its own outcome, which no other
  delivery affects, the errors of the failed ones are returned, and nothing else is written.
\<close>

lemma emit_reaches_each_subscriber:
  "fst (Emit svc e ev t) = delivery_errors svc (stamped e ev) (filter (subscribes (stamped e ev)) (store_Webhooks e t)) \<and>
   adds_history t (map (outcome_row svc (stamped e ev)) (filter (subscribes (stamped e ev)) (store_Webhooks e t))) (snd (Emit svc e ev t))"
proof -
  have "\<forall>w\<in>set (store_Webhooks e t). list_ex (\<lambda>r. wr_id r = wb_id w) (wt_rows t)"
    by (auto simp: store_Webhooks_def load_webhook_def scanWebhook_def list_ex_iff)
  from emit_all_rows [OF this, of svc e "stamped e ev"] show ?thesis
    by (simp add: Emit_def)
qed

end
