(* ===== verification/NotificationProperties.thy ===== *)
theory NotificationProperties
  imports Notifications WebhookProperties
begin

text \<open>
  What the inbox guarantees: an operation of one account leaves the notifications of the others alone, a
  plugin that repeats a request gets the notification it has already made, every mentioned
  account gets one notification that reaches each subscribed webhook once, and an announcement
  that is too long is lost.
\<close>

section \<open>Accounts and inputs to apply the theorems to\<close>

definition demo_user :: "int \<Rightarrow> string \<Rightarrow> user_row" where
  "demo_user i name = \<lparr>uw_id = i, uw_username = name, uw_email = [], uw_display = name, uw_role = UserRoleAdmin, uw_enabled = True,
     uw_version = 1, uw_oidc_observed = False, uw_oidc_admin = False, uw_proxy_observed = False, uw_proxy_admin = False,
     uw_last_login = None, uw_source = ''local'', uw_username_ov = False, uw_email_ov = False, uw_display_ov = False\<rparr>"

definition demo_accounts :: accounts where
  "demo_accounts = no_accounts\<lparr>ac_users := [demo_user 1 ''ann'', demo_user 2 ''bob'']\<rparr>"

definition demo_inbox :: inbox where
  "demo_inbox = \<lparr>ib_rows = [], ib_next = 1, ib_announced = [], ib_hooks = no_webhooks\<rparr>"

definition demo_notifications :: notifications_service where
  "demo_notifications = \<lparr>ns_sinks = [Emit demo_service]\<rparr>"

definition demo_create :: "string \<Rightarrow> create_input" where
  "demo_create title = \<lparr>ci_recipient = 2, ci_actor = 1, ci_source = ''plugin'', ci_source_name = ''Plugin'', ci_title = title,
     ci_body = [], ci_url = ''/pages/a'', ci_key = ''k1''\<rparr>"

definition long_update :: plugin_update where
  "long_update = \<lparr>pu_id = ''p'', pu_name = replicate 2001 (CHR ''x''), pu_current = ''1'', pu_available = ''2''\<rparr>"

section \<open>The inbox of an account\<close>

datatype inbox_command = ReadOne int | UnreadOne int | ReadAll | RemoveOne int | OpenOne int

definition inbox_step :: "env \<Rightarrow> int \<Rightarrow> inbox_command \<Rightarrow> inbox \<Rightarrow> inbox" where
  "inbox_step e uid c ib = (case c of
       ReadOne i \<Rightarrow> (case MarkNotificationRead e uid i ib of Inl _ \<Rightarrow> ib | Inr ib1 \<Rightarrow> ib1)
     | UnreadOne i \<Rightarrow> (case MarkNotificationUnread uid i ib of Inl _ \<Rightarrow> ib | Inr ib1 \<Rightarrow> ib1)
     | ReadAll \<Rightarrow> MarkAllNotificationsRead e uid ib
     | RemoveOne i \<Rightarrow> (case DeleteNotification uid i ib of Inl _ \<Rightarrow> ib | Inr ib1 \<Rightarrow> ib1)
     | OpenOne i \<Rightarrow> (case OpenNotification e uid i ib of Inl _ \<Rightarrow> ib | Inr r \<Rightarrow> snd r))"

lemma filter_update_other:
  "(\<And>r. P r \<Longrightarrow> \<not> Q r) \<Longrightarrow> (\<And>r. P r \<Longrightarrow> \<not> Q (f r)) \<Longrightarrow> filter Q (update_rows P f rows) = filter Q rows"
  by (induction rows) (auto simp: update_rows_def)

lemma filter_delete_other: "(\<And>r. P r \<Longrightarrow> \<not> Q r) \<Longrightarrow> filter Q (delete_rows P rows) = filter Q rows"
  by (induction rows) (auto simp: delete_rows_def)

lemma nt_recipient_mark_read [simp]: "nt_recipient (mark_read e n) = nt_recipient n"
  by (simp add: mark_read_def)

lemmas inbox_ops = MarkNotificationRead_def MarkNotificationUnread_def DeleteNotification_def OpenNotification_def
  store_MarkNotificationRead_def store_MarkNotificationUnread_def store_DeleteNotification_def store_OpenNotification_def
  MarkAllNotificationsRead_def

lemma inbox_step_other_rows:
  "other \<noteq> uid \<Longrightarrow>
   filter (\<lambda>n. nt_recipient n = other) (ib_rows (inbox_step e uid c ib)) = filter (\<lambda>n. nt_recipient n = other) (ib_rows ib)"
  by (cases c) (auto simp: inbox_step_def inbox_ops intro!: filter_update_other filter_delete_other split: option.split)

lemma inbox_isolated:
  "other \<noteq> uid \<Longrightarrow> app_Notifications other limit (inbox_step e uid c ib) = app_Notifications other limit ib"
  by (simp add: app_Notifications_def store_Notifications_def Let_def inbox_step_other_rows)

section \<open>Creation\<close>

lemma user_row_of_User: "User a i = Inr u \<Longrightarrow> u_id u = i \<and> user_row_of a i \<noteq> None"
  by (auto simp: User_def user_row_of_def to_user_def split: option.splits dest: row_with_Some)

text \<open>The request of a plugin, by which a repetition is recognised.\<close>

lemma CreateNotification_stored:
  assumes "CreateNotification e a n ib = Inr (r, created, ib1)"
    and "nt_source_type n = NotificationSourcePlugin" "nt_key n \<noteq> []"
  shows "row_with (same_request n) (ib_rows ib1) = Some r"
proof (cases "row_with (same_request n) (ib_rows ib)")
  case None
  with assms have "r = n\<lparr>nt_id := ib_next ib, nt_read := None, nt_created := en_now e\<rparr>" "ib_rows ib1 = ib_rows ib @ [r]"
    by (auto simp: CreateNotification_def Let_def split: if_splits)
  with None assms(2,3) show ?thesis
    by (simp add: row_with_append same_request_def)
next
  case (Some x)
  with assms show ?thesis by (auto simp: CreateNotification_def)
qed

lemma CreateNotification_found:
  "nt_source_type n = NotificationSourcePlugin \<Longrightarrow> nt_key n \<noteq> [] \<Longrightarrow> row_with (same_request n) (ib_rows ib) = Some r \<Longrightarrow>
   CreateNotification e a n ib = Inr (r, False, ib)"
  by (simp add: CreateNotification_def)

lemma Send_Inr:
  assumes "Send svc e a input ib = (Inr n, ib1)"
  obtains u created ib0 where "User a (ci_recipient input) = Inr u" "u_enabled u" "validIdempotencyKey (TrimSpace (ci_key input))"
    "CreateNotification e a ((new_notification NotificationKindPlugin (TrimSpace (ci_title input)) (TrimSpace (ci_body input))
        (TrimSpace (ci_url input)) (ci_recipient input) (ci_actor input))
        \<lparr>nt_source_type := NotificationSourcePlugin, nt_source := ci_source input, nt_source_name := ci_source_name input,
         nt_key := TrimSpace (ci_key input)\<rparr>) ib = Inr (n, created, ib0)"
    "ib1 = (if created then emitCreated svc e n u ib0 else ib0)"
proof -
  let ?i = "normalizeCreateInput input"
  have f: "ci_recipient ?i = ci_recipient input" "ci_key ?i = TrimSpace (ci_key input)" "ci_title ?i = TrimSpace (ci_title input)"
    "ci_body ?i = TrimSpace (ci_body input)" "ci_url ?i = TrimSpace (ci_url input)" "ci_actor ?i = ci_actor input"
    "ci_source ?i = ci_source input" "ci_source_name ?i = ci_source_name input"
    by (simp_all add: normalizeCreateInput_def)
  from assms obtain u created ib0 where v: "validateCreateInput ?i = Inr ()" and u: "User a (ci_recipient input) = Inr u" "u_enabled u"
    and c: "CreateNotification e a ((new_notification NotificationKindPlugin (TrimSpace (ci_title input)) (TrimSpace (ci_body input))
        (TrimSpace (ci_url input)) (u_id u) (ci_actor input))
        \<lparr>nt_source_type := NotificationSourcePlugin, nt_source := ci_source input, nt_source_name := ci_source_name input,
         nt_key := TrimSpace (ci_key input)\<rparr>) ib = Inr (n, created, ib0)"
    and ib1: "ib1 = (if created then emitCreated svc e n u ib0 else ib0)"
    unfolding Send_def Let_def f by (auto simp: result_simps split: sum.splits prod.splits)
  have "u_id u = ci_recipient input" using user_row_of_User [OF u(1)] by simp
  moreover have "validIdempotencyKey (TrimSpace (ci_key input))"
    using v by (simp add: validateCreateInput_def fields_error_def field_unless_def f split: if_splits)
  ultimately show thesis using that u c ib1 by metis
qed

lemma ib_rows_emitCreated [simp]: "ib_rows (emitCreated svc e n u ib) = ib_rows ib"
  by (simp add: emitCreated_def)

text \<open>C16: when a plugin's accepted request is followed directly by another request of it for the same
  recipient with the same key, and that one is accepted as well, the plugin gets the notification of the
  first request, whatever title, body and link the second one has; nothing is stored and no event is
  sent again.\<close>

theorem plugin_notification_sent_once:
  assumes "Send svc e a input ib = (Inr n, ib1)" and "Send svc' e' a' again ib1 = (Inr m, ib2)"
    and "ci_source again = ci_source input" "ci_recipient again = ci_recipient input"
    and "TrimSpace (ci_key again) = TrimSpace (ci_key input)"
  shows "m = n \<and> ib2 = ib1"
proof -
  let ?n = "(new_notification NotificationKindPlugin (TrimSpace (ci_title input)) (TrimSpace (ci_body input))
      (TrimSpace (ci_url input)) (ci_recipient input) (ci_actor input))
      \<lparr>nt_source_type := NotificationSourcePlugin, nt_source := ci_source input, nt_source_name := ci_source_name input,
       nt_key := TrimSpace (ci_key input)\<rparr>"
  let ?m = "(new_notification NotificationKindPlugin (TrimSpace (ci_title again)) (TrimSpace (ci_body again))
      (TrimSpace (ci_url again)) (ci_recipient again) (ci_actor again))
      \<lparr>nt_source_type := NotificationSourcePlugin, nt_source := ci_source again, nt_source_name := ci_source_name again,
       nt_key := TrimSpace (ci_key again)\<rparr>"
  from assms(1) obtain u created ib0 where k: "validIdempotencyKey (TrimSpace (ci_key input))"
    and c: "CreateNotification e a ?n ib = Inr (n, created, ib0)" and i: "ib1 = (if created then emitCreated svc e n u ib0 else ib0)"
    by (rule Send_Inr)
  from assms(2) obtain u' created' ib0' where c': "CreateNotification e' a' ?m ib1 = Inr (m, created', ib0')"
    and i': "ib2 = (if created' then emitCreated svc' e' m u' ib0' else ib0')"
    by (rule Send_Inr)
  have t: "nt_source_type ?n = NotificationSourcePlugin" "nt_key ?n \<noteq> []" "nt_source_type ?m = NotificationSourcePlugin" "nt_key ?m \<noteq> []"
    using k assms(5) by (simp_all add: validIdempotencyKey_def)
  have "same_request ?m = same_request ?n"
    using assms(3-5) by (auto simp: same_request_def new_notification_def fun_eq_iff)
  with CreateNotification_stored [OF c t(1,2)] i have "row_with (same_request ?m) (ib_rows ib1) = Some n"
    by simp
  from CreateNotification_found [OF t(3,4) this, of e' a'] c' i' show ?thesis by simp
qed

theorem plugin_notification_sent_once_witness:
  "\<exists>n ib1. Send demo_notifications demo_env demo_accounts (demo_create ''One'') demo_inbox = (Inr n, ib1) \<and>
     Send demo_notifications demo_env demo_accounts (demo_create ''Two'') ib1 = (Inr n, ib1) \<and> nt_title n = ''One''"
proof -
  have "case Send demo_notifications demo_env demo_accounts (demo_create ''One'') demo_inbox of
      (Inr n, ib1) \<Rightarrow> nt_title n = ''One'' \<and>
        (case Send demo_notifications demo_env demo_accounts (demo_create ''Two'') ib1 of (Inr m, ib2) \<Rightarrow> True | (Inl _, _) \<Rightarrow> False)
    | (Inl _, _) \<Rightarrow> False" by code_simp
  then obtain n ib1 m ib2 where s: "Send demo_notifications demo_env demo_accounts (demo_create ''One'') demo_inbox = (Inr n, ib1)"
    "nt_title n = ''One''" "Send demo_notifications demo_env demo_accounts (demo_create ''Two'') ib1 = (Inr m, ib2)"
    by (auto split: prod.splits sum.splits)
  with plugin_notification_sent_once [OF s(1,3)] show ?thesis
    by (auto simp: demo_create_def)
qed

section \<open>Mentions\<close>

text \<open>The accounts that a text mentions, in the order of the text.\<close>

definition mentioned :: "env \<Rightarrow> accounts \<Rightarrow> string list \<Rightarrow> user list" where
  "mentioned e a names =
     concat (map (\<lambda>name. case UserByUsername e a name of Inl _ \<Rightarrow> [] | Inr u \<Rightarrow> if u_enabled u then [u] else []) names)"

definition webhook_rows :: "webhooks_service \<Rightarrow> env \<Rightarrow> webhook_tables \<Rightarrow> notification \<times> user \<Rightarrow> (int \<times> string \<times> int \<times> int \<times> string) list" where
  "webhook_rows wsvc e t x = map (outcome_row wsvc (created_event (fst x) (snd x)))
     (filter (subscribes (created_event (fst x) (snd x))) (store_Webhooks e t))"

lemma stamped_created: "stamped e (created_event n u) = created_event n u"
  by (simp add: stamped_def created_event_def)

lemma adds_history_webhooks: "adds_history t vs t1 \<Longrightarrow> store_Webhooks e t1 = store_Webhooks e t"
  by (auto simp: adds_history_def store_Webhooks_def load_webhook_def webhookHeaders_def)

lemma emitCreated_history:
  "ns_sinks svc = [Emit wsvc] \<Longrightarrow>
   adds_history (ib_hooks ib) (webhook_rows wsvc e (ib_hooks ib) (n, u)) (ib_hooks (emitCreated svc e n u ib)) \<and>
   ib_next (emitCreated svc e n u ib) = ib_next ib \<and> ib_announced (emitCreated svc e n u ib) = ib_announced ib"
  using emit_all_rows [of "store_Webhooks e (ib_hooks ib)" "ib_hooks ib" wsvc e "created_event n u"]
  by (simp add: emitCreated_def Emit_def stamped_created webhook_rows_def store_Webhooks_def load_webhook_def scanWebhook_def list_ex_iff) blast

definition mention_row :: "env \<Rightarrow> int \<Rightarrow> string \<Rightarrow> string \<Rightarrow> string \<Rightarrow> user \<Rightarrow> int \<Rightarrow> notification" where
  "mention_row e actor title body destination u i =
     (new_notification NotificationKindMention title body destination (u_id u) actor)
       \<lparr>nt_id := i, nt_source_type := NotificationSourceCore, nt_source_name := ''Kumbuka'', nt_created := en_now e\<rparr>"

text \<open>The notifications of a list of accounts, numbered from the next identifier.\<close>

fun mention_rows :: "env \<Rightarrow> int \<Rightarrow> string \<Rightarrow> string \<Rightarrow> string \<Rightarrow> user list \<Rightarrow> int \<Rightarrow> notification list" where
  "mention_rows e actor title body destination [] i = []"
| "mention_rows e actor title body destination (u # us) i =
     mention_row e actor title body destination u i # mention_rows e actor title body destination us (i + 1)"

lemma createCore_mention:
  assumes "user_row_of a (u_id u) \<noteq> None" "actor = 0 \<or> user_row_of a actor \<noteq> None" "ns_sinks svc = [Emit wsvc]"
  obtains ib1 where "createCore svc e a u actor NotificationKindMention title body destination ib = (None, ib1)"
    "ib_rows ib1 = ib_rows ib @ [mention_row e actor title body destination u (ib_next ib)]" "ib_next ib1 = ib_next ib + 1"
    "adds_history (ib_hooks ib) (webhook_rows wsvc e (ib_hooks ib) (mention_row e actor title body destination u (ib_next ib), u)) (ib_hooks ib1)"
proof -
  let ?n = "mention_row e actor title body destination u (ib_next ib)"
  let ?ib = "ib\<lparr>ib_rows := ib_rows ib @ [?n], ib_next := ib_next ib + 1\<rparr>"
  have "CreateNotification e a ((new_notification NotificationKindMention title body destination (u_id u) actor)
      \<lparr>nt_source_type := NotificationSourceCore, nt_source_name := ''Kumbuka''\<rparr>) ib = Inr (?n, True, ?ib)"
    using assms(1,2) by (auto simp: CreateNotification_def new_notification_def mention_row_def Let_def)
  then have "createCore svc e a u actor NotificationKindMention title body destination ib = (None, emitCreated svc e ?n u ?ib)"
    by (simp add: createCore_def)
  with emitCreated_history [OF assms(3), of ?ib e ?n u] show thesis
    by (intro that [of "emitCreated svc e ?n u ?ib"]) auto
qed

lemma mention_loop_rows:
  assumes "actor = 0 \<or> user_row_of a actor \<noteq> None" and "ns_sinks svc = [Emit wsvc]"
  shows "\<exists>ib1. mention_loop svc e a actor title body destination names ib = (None, ib1) \<and>
    ib_rows ib1 = ib_rows ib @ mention_rows e actor title body destination (mentioned e a names) (ib_next ib) \<and>
    adds_history (ib_hooks ib) (concat (map (webhook_rows wsvc e (ib_hooks ib))
      (zip (mention_rows e actor title body destination (mentioned e a names) (ib_next ib)) (mentioned e a names)))) (ib_hooks ib1)"
proof (induction names arbitrary: ib)
  case Nil
  then show ?case by (simp add: mentioned_def adds_history_refl)
next
  case (Cons name names)
  show ?case
  proof (cases "\<exists>u. UserByUsername e a name = Inr u \<and> u_enabled u")
    case False
    then have "mention_loop svc e a actor title body destination (name # names) ib = mention_loop svc e a actor title body destination names ib"
      by (auto simp: UserByUsername_def is_not_found_def split: option.splits)
    moreover from False have "mentioned e a (name # names) = mentioned e a names"
      by (auto simp: mentioned_def split: sum.splits)
    ultimately show ?thesis using Cons [of ib] by simp
  next
    case True
    then obtain u where u: "UserByUsername e a name = Inr u" "u_enabled u" by blast
    then have "user_row_of a (u_id u) \<noteq> None"
      by (auto simp: UserByUsername_def user_row_of_def to_user_def row_with_None split: option.splits dest: row_with_Some)
    from createCore_mention [OF this assms, of e title body destination ib] obtain ib1 where
      c: "createCore svc e a u actor NotificationKindMention title body destination ib = (None, ib1)"
        "ib_rows ib1 = ib_rows ib @ [mention_row e actor title body destination u (ib_next ib)]" "ib_next ib1 = ib_next ib + 1"
      and h: "adds_history (ib_hooks ib) (webhook_rows wsvc e (ib_hooks ib) (mention_row e actor title body destination u (ib_next ib), u)) (ib_hooks ib1)" .
    from Cons [of ib1] obtain ib2 where
      l: "mention_loop svc e a actor title body destination names ib1 = (None, ib2)"
        "ib_rows ib2 = ib_rows ib1 @ mention_rows e actor title body destination (mentioned e a names) (ib_next ib1)"
      and g: "adds_history (ib_hooks ib1) (concat (map (webhook_rows wsvc e (ib_hooks ib1))
        (zip (mention_rows e actor title body destination (mentioned e a names) (ib_next ib1)) (mentioned e a names)))) (ib_hooks ib2)"
      by blast
    have m: "mentioned e a (name # names) = u # mentioned e a names"
      using u by (simp add: mentioned_def)
    have w: "webhook_rows wsvc e (ib_hooks ib1) = webhook_rows wsvc e (ib_hooks ib)"
      using adds_history_webhooks [OF h, of e] by (simp add: webhook_rows_def fun_eq_iff)
    from adds_history_trans [OF h g [unfolded w]] c l u show ?thesis
      by (intro exI [of _ ib2]) (simp add: m)
  qed
qed

text \<open>C15: the mentions of a valid text by an existing account are all delivered: each name that belongs to an
  enabled account makes one new notification, in the order of the text and numbered in sequence,
  whatever becomes of the webhooks, and for each of them every webhook that subscribes to notifications gets
  one delivery with its own row of history.\<close>

theorem mentions_reach_inbox_and_webhooks:
  assumes "ns_sinks svc = [Emit wsvc]" and "user_row_of a actor \<noteq> None"
    and "validateCoreNotification actor (TrimSpace title) mention_body (TrimSpace destination) = Inr ()"
  shows "\<exists>ib1. SendMentions svc e a actor content title destination ib = (None, ib1) \<and>
    ib_rows ib1 = ib_rows ib @
      mention_rows e actor (TrimSpace title) mention_body (TrimSpace destination) (mentioned e a (Usernames content)) (ib_next ib) \<and>
    adds_history (ib_hooks ib) (concat (map (webhook_rows wsvc e (ib_hooks ib))
      (zip (mention_rows e actor (TrimSpace title) mention_body (TrimSpace destination) (mentioned e a (Usernames content)) (ib_next ib))
        (mentioned e a (Usernames content))))) (ib_hooks ib1)"
  unfolding SendMentions_def Let_def assms(3) sum.case by (rule mention_loop_rows [OF disjI2 [OF assms(2)] assms(1)])

theorem mentions_reach_inbox_and_webhooks_witness:
  "\<exists>ib1. SendMentions demo_notifications demo_env demo_accounts 1 ''Ask @Bob or @nobody, @ann'' '' Hello '' ''/pages/a'' demo_inbox = (None, ib1) \<and>
     map nt_recipient (ib_rows ib1) = [2, 1]"
proof -
  have v: "validateCoreNotification 1 (TrimSpace '' Hello '') mention_body (TrimSpace ''/pages/a'') = Inr ()" by code_simp
  have a: "user_row_of demo_accounts 1 \<noteq> None" by code_simp
  have k: "ns_sinks demo_notifications = [Emit demo_service]" by (simp add: demo_notifications_def)
  have r: "map nt_recipient (ib_rows demo_inbox @ mention_rows demo_env 1 (TrimSpace '' Hello '') mention_body (TrimSpace ''/pages/a'')
      (mentioned demo_env demo_accounts (Usernames ''Ask @Bob or @nobody, @ann'')) (ib_next demo_inbox)) = [2, 1]" by code_simp
  from mentions_reach_inbox_and_webhooks [OF k a v, of demo_env "''Ask @Bob or @nobody, @ann''" demo_inbox] r show ?thesis
    by auto
qed

section \<open>Announcements\<close>

lemma claim_grows:
  "fold claim_update us s = s' \<Longrightarrow> set (snd s) \<subseteq> set (snd s') \<and> (\<forall>u\<in>set us. validPluginUpdateNotice u \<longrightarrow> (pu_id u, pu_available u) \<in> set (snd s'))"
proof (induction us arbitrary: s)
  case (Cons u us)
  from Cons.IH [of "claim_update u s"] Cons.prems show ?case
    by (auto simp: claim_update_def Let_def split: if_splits)
qed simp

lemma claim_known:
  "\<forall>u\<in>set us. validPluginUpdateNotice u \<longrightarrow> (pu_id u, pu_available u) \<in> set (snd s) \<Longrightarrow> fold claim_update us s = s"
  by (induction us) (auto simp: claim_update_def Let_def)

lemma claimed_once:
  assumes "ClaimPluginUpdateAnnouncements updates ib = (new, ib1)"
  shows "ClaimPluginUpdateAnnouncements updates ib1 = ([], ib1) \<and> ib_rows ib1 = ib_rows ib"
proof -
  from assms obtain an where an: "fold claim_update updates ([], ib_announced ib) = (new, an)" "ib1 = ib\<lparr>ib_announced := an\<rparr>"
    by (auto simp: ClaimPluginUpdateAnnouncements_def split: prod.splits)
  from claim_grows [OF an(1)] have "fold claim_update updates ([], an) = ([], an)"
    by (intro claim_known) simp
  with an show ?thesis by (simp add: ClaimPluginUpdateAnnouncements_def)
qed

lemma SendCore_refused:
  "\<not> validNotificationBody (TrimSpace body) \<Longrightarrow> \<exists>er. SendCore svc e a i actor kind title body destination ib = (Some er, ib)"
  by (simp add: SendCore_def Let_def validateCoreDelivery_def fields_error_def field_unless_def content_fields_def)

text \<open>C17: an announcement of plugin updates whose text the inbox refuses, as it does beyond 2,000 bytes,
  fails after the updates have been recorded as announced: no administrator is notified, and
  announcing the same updates again succeeds without doing anything.\<close>

theorem refused_announcement_is_lost:
  assumes "ClaimPluginUpdateAnnouncements updates ib = (new, ib1)" and "new \<noteq> []" and "EnabledAdministratorIDs a \<noteq> []"
    and "\<not> validNotificationBody (TrimSpace (snd (pluginUpdateNotification (sort_func (name_order e) new))))"
  shows "\<exists>er. NotifyPluginUpdates svc e a updates ib = (Some er, ib1) \<and> ib_rows ib1 = ib_rows ib \<and>
    NotifyPluginUpdates svc e' a' updates ib1 = (None, ib1)"
proof -
  obtain title body where b: "pluginUpdateNotification (sort_func (name_order e) new) = (title, body)" by fastforce
  obtain i ids where i: "EnabledAdministratorIDs a = i # ids" using assms(3) by (cases "EnabledAdministratorIDs a") auto
  from assms(4) b have "\<not> validNotificationBody (TrimSpace body)" by simp
  from SendCore_refused [OF this, of svc e a i 0 NotificationKindPluginUpdate title "''/admin/plugins''" ib1] obtain er where
    "SendCore svc e a i 0 NotificationKindPluginUpdate title body ''/admin/plugins'' ib1 = (Some er, ib1)" by blast
  with assms(1,2) i b have "NotifyPluginUpdates svc e a updates ib = (Some er, ib1)"
    by (simp add: NotifyPluginUpdates_def Let_def)
  with claimed_once [OF assms(1)] show ?thesis
    by (auto simp: NotifyPluginUpdates_def Let_def)
qed

theorem refused_announcement_is_lost_witness:
  "\<exists>er ib1. NotifyPluginUpdates demo_notifications demo_env demo_accounts [long_update] demo_inbox = (Some er, ib1) \<and> ib_rows ib1 = [] \<and>
     NotifyPluginUpdates demo_notifications demo_env demo_accounts [long_update] ib1 = (None, ib1)"
proof -
  let ?ib = "demo_inbox\<lparr>ib_announced := [(''p'', ''2'')]\<rparr>"
  have "validPluginUpdateNotice \<lparr>pu_id = ''p'', pu_name = [], pu_current = ''1'', pu_available = ''2''\<rparr>" by code_simp
  then have "validPluginUpdateNotice long_update" by (simp add: validPluginUpdateNotice_def long_update_def)
  then have c: "ClaimPluginUpdateAnnouncements [long_update] demo_inbox = ([long_update], ?ib)"
    by (simp add: ClaimPluginUpdateAnnouncements_def claim_update_def demo_inbox_def long_update_def)
  have a: "EnabledAdministratorIDs demo_accounts \<noteq> []" by code_simp
  let ?body = "snd (pluginUpdateNotification (sort_func (name_order demo_env) [long_update]))"
  have body: "?body = CHR ''x'' # replicate 2000 (CHR ''x'') @ '' 2 is available; currently 1.''"
    by (simp add: pluginUpdateNotification_def long_update_def replicate_Suc [symmetric] del: replicate_Suc)
  have "leading_space ?body = None" "trailing_space ?body = None"
    unfolding body by (simp_all add: leading_space_def trailing_space_def white_space_def suffix_def)
  then have "TrimSpace ?body = ?body" by (rule TrimSpace_id)
  then have "length (TrimSpace ?body) > 2000" by (simp only: body) simp
  then have v: "\<not> validNotificationBody (TrimSpace ?body)" by (simp add: validNotificationBody_def)
  from refused_announcement_is_lost [OF c _ a v, of demo_notifications demo_env demo_accounts] show ?thesis
    by (auto simp: demo_inbox_def)
qed

end
