(* ===== verification/Navigation.thy ===== *)
theory Navigation
  imports Store
begin

text \<open>
  The navigation tree (\<open>pkg/navigation/tree.go\<close>): pages are entered into a tree of branches by the
  parts of their slugs, and the branches become sorted nodes with counts and the marks of the current
  page. The maps of the branches are association lists; their order is that of insertion, where
  Go's is random, and \<open>nodes_order_irrelevant\<close> shows that the result does not depend on it.
\<close>

section \<open>The tree\<close>

record nav_page =
  np_id :: int
  np_slug :: string
  np_title :: string
  np_icon :: string

record nav_options =
  nv_active :: string
  nv_expanded :: "string list"
  nv_counts :: bool
  nv_icons :: strmap

datatype branch = Branch (br_id: int) (br_title: string) (br_slug: string) (br_icon: string) (br_page: bool)
  (br_children: "(string \<times> branch) list")

datatype nav_node = Node (nn_id: int) (nn_title: string) (nn_slug: string) (nn_icon: string) (nn_root: bool) (nn_page: bool)
  (nn_active: bool) (nn_contains: bool) (nn_open: bool) (nn_count: nat) (nn_show: bool) (nn_children: "nav_node list")

definition icon_of :: "nav_options \<Rightarrow> string \<Rightarrow> string" where
  "icon_of opts slug = (case map_of (nv_icons opts) slug of None \<Rightarrow> [] | Some i \<Rightarrow> i)"

text \<open>A new branch for a part, and what a page does to the branch of a part of its slug.\<close>

definition child_slug :: "string \<Rightarrow> string \<Rightarrow> string" where
  "child_slug slug part = (if slug \<noteq> [] then slug @ ''/'' @ part else part)"

definition new_branch :: "string \<Rightarrow> branch \<Rightarrow> branch" where
  "new_branch part current = Branch 0 part (child_slug (br_slug current) part) [] False []"

definition visit_branch :: "nav_options \<Rightarrow> nav_page \<Rightarrow> bool \<Rightarrow> branch \<Rightarrow> branch" where
  "visit_branch opts p is_last b =
     (case b of Branch i t s ic pg cs \<Rightarrow>
      let ic1 = (if icon_of opts s \<noteq> [] then icon_of opts s else ic) in
      if \<not> is_last then Branch i t s ic1 pg cs
      else Branch (np_id p) (np_title p) s (if np_icon p \<noteq> [] \<and> icon_of opts s = [] then np_icon p else ic1) True cs)"

primrec set_child :: "string \<Rightarrow> branch \<Rightarrow> (string \<times> branch) list \<Rightarrow> (string \<times> branch) list" where
  "set_child k c [] = [(k, c)]"
| "set_child k c (x # xs) = (if fst x = k then (k, c) # xs else x # set_child k c xs)"

definition with_child :: "string \<Rightarrow> branch \<Rightarrow> branch \<Rightarrow> branch" where
  "with_child k c b = (case b of Branch i t s ic pg cs \<Rightarrow> Branch i t s ic pg (set_child k c cs))"

definition child_or_new :: "string \<Rightarrow> branch \<Rightarrow> branch" where
  "child_or_new part b = (case map_of (br_children b) part of Some c \<Rightarrow> c | None \<Rightarrow> new_branch part b)"

fun add_parts :: "nav_options \<Rightarrow> nav_page \<Rightarrow> string list \<Rightarrow> branch \<Rightarrow> branch" where
  "add_parts opts p [] b = b"
| "add_parts opts p (part # parts) b =
     (if part = [] then add_parts opts p parts b
      else with_child part (add_parts opts p parts (visit_branch opts p (parts = []) (child_or_new part b))) b)"

definition page_parts :: "nav_page \<Rightarrow> string list" where
  "page_parts p = Split (CHR ''/'') (TrimByte (CHR ''/'') (np_slug p))"

definition nav_root :: branch where
  "nav_root = Branch 0 [] [] [] False []"

definition build_tree :: "nav_options \<Rightarrow> nav_page list \<Rightarrow> branch" where
  "build_tree opts pages = fold (\<lambda>p. add_parts opts p (page_parts p)) pages nav_root"

section \<open>The nodes\<close>

definition compareNodes :: "env \<Rightarrow> nav_node \<Rightarrow> nav_node \<Rightarrow> int" where
  "compareNodes e l r =
     (let leftFolder = nn_children l \<noteq> []; rightFolder = nn_children r \<noteq> [] in
      if leftFolder \<and> \<not> rightFolder then -1
      else if \<not> leftFolder \<and> rightFolder then 1
      else cmp_then (cmp_compare (en_lower e (nn_title l)) (en_lower e (nn_title r))) (cmp_compare (nn_slug l) (nn_slug r)))"

definition make_node :: "nat \<Rightarrow> string \<Rightarrow> string list \<Rightarrow> bool \<Rightarrow> branch \<Rightarrow> nav_node list \<Rightarrow> nav_node" where
  "make_node depth active expanded counts c children =
     (let is_active = br_page c \<and> br_slug c = active in
      Node (br_id c) (br_title c) (br_slug c) (br_icon c) (depth = 0) (br_page c) is_active
        (is_active \<or> list_ex nn_contains children) (br_slug c \<in> set expanded)
        ((if br_page c then 1 else 0) + sum_list (map nn_count children)) counts children)"

lemma size_child: "x \<in> set cs \<Longrightarrow> size (snd x) < Suc (size_list (size_prod (\<lambda>_. 0) size) cs)"
  by (induction cs) (auto simp: less_Suc_eq_le)

function nodes :: "env \<Rightarrow> branch \<Rightarrow> nat \<Rightarrow> string \<Rightarrow> string list \<Rightarrow> bool \<Rightarrow> nav_node list" where
  "nodes e (Branch i t s ic pg cs) depth active expanded counts =
     sort_func (compareNodes e)
       (map (\<lambda>x. make_node depth active expanded counts (snd x) (nodes e (snd x) (depth + 1) active expanded counts)) cs)"
  by pat_completeness auto
termination
  by (relation "measure (\<lambda>(e, b, depth, active, expanded, counts). size b)") (auto dest: size_child)

definition nav_path :: "string \<Rightarrow> string" where
  "nav_path s = TrimByte (CHR ''/'') (TrimSpace s)"

definition Build :: "env \<Rightarrow> nav_page list \<Rightarrow> nav_options \<Rightarrow> nav_node list" where
  "Build e pages opts =
     nodes e (build_tree opts pages) 0 (nav_path (nv_active opts)) (filter (\<lambda>s. s \<noteq> []) (map nav_path (nv_expanded opts))) (nv_counts opts)"

text \<open>\<open>None\<close> is a slug that is not found.\<close>

function find_children :: "nav_node list \<Rightarrow> string \<Rightarrow> nav_node list option" where
  "find_children [] slug = None"
| "find_children (n # ns) slug =
     (if nn_slug n = slug then Some (nn_children n)
      else (case find_children (nn_children n) slug of Some d \<Rightarrow> Some d | None \<Rightarrow> find_children ns slug))"
  by pat_completeness auto
termination
proof (relation "measure (\<lambda>(ns, slug). size_list size ns)")
  show "((nn_children n, slug), (n # ns, slug)) \<in> measure (\<lambda>(ns, slug). size_list size ns)" for n ns and slug :: string
    by (cases n) simp
qed auto

definition Children :: "nav_node list \<Rightarrow> string \<Rightarrow> nav_node list" where
  "Children tree slug = (case find_children tree (nav_path slug) of Some d \<Rightarrow> d | None \<Rightarrow> [])"

section \<open>The pages of a tree\<close>

type_synonym nav_entry = "string \<times> int \<times> string"

definition own_entry :: "branch \<Rightarrow> nav_entry multiset" where
  "own_entry b = (if br_page b then {#(br_slug b, br_id b, br_title b)#} else {#})"

function page_entries :: "branch \<Rightarrow> nav_entry multiset" where
  "page_entries (Branch i t s ic pg cs) = sum_list (map (\<lambda>x. own_entry (snd x) + page_entries (snd x)) cs)"
  by pat_completeness auto
termination
  by (relation "measure size") (auto dest: size_child)

fun page_at :: "branch \<Rightarrow> string list \<Rightarrow> bool" where
  "page_at b [] = br_page b"
| "page_at b (part # parts) = (case map_of (br_children b) part of None \<Rightarrow> False | Some c \<Rightarrow> page_at c parts)"

inductive wf_branch :: "branch \<Rightarrow> bool" where
  "(\<forall>x\<in>set (br_children b). fst x \<noteq> [] \<and> br_slug (snd x) = child_slug (br_slug b) (fst x) \<and> wf_branch (snd x)) \<Longrightarrow>
   distinct (map fst (br_children b)) \<Longrightarrow> wf_branch b"

inductive_simps wf_branch_iff: "wf_branch b"

definition full_slug :: "string \<Rightarrow> string list \<Rightarrow> string" where
  "full_slug s parts = (if s = [] then Join parts ''/'' else Join (s # parts) ''/'')"

lemma full_slug_Cons: "part \<noteq> [] \<Longrightarrow> parts \<noteq> [] \<Longrightarrow> full_slug (child_slug s part) parts = full_slug s (part # parts)"
  by (cases parts) (auto simp: full_slug_def child_slug_def)

lemma full_slug_single: "full_slug s [part] = child_slug s part"
  by (simp add: full_slug_def child_slug_def)

lemma with_child_simps [simp]:
  "br_id (with_child k c b) = br_id b" "br_title (with_child k c b) = br_title b" "br_slug (with_child k c b) = br_slug b"
  "br_page (with_child k c b) = br_page b" "br_children (with_child k c b) = set_child k c (br_children b)"
  by (cases b, simp add: with_child_def)+

lemma add_parts_own [simp]:
  "br_id (add_parts opts p parts b) = br_id b" "br_title (add_parts opts p parts b) = br_title b"
  "br_slug (add_parts opts p parts b) = br_slug b" "br_page (add_parts opts p parts b) = br_page b"
  by (induction parts arbitrary: b) auto

lemma visit_branch_simps [simp]:
  "br_slug (visit_branch opts p is_last b) = br_slug b" "br_children (visit_branch opts p is_last b) = br_children b"
  "br_page (visit_branch opts p is_last b) = (br_page b \<or> is_last)"
  "br_id (visit_branch opts p is_last b) = (if is_last then np_id p else br_id b)"
  "br_title (visit_branch opts p is_last b) = (if is_last then np_title p else br_title b)"
  by (cases b, simp add: visit_branch_def Let_def)+

lemma new_branch_simps [simp]:
  "br_slug (new_branch part b) = child_slug (br_slug b) part" "br_children (new_branch part b) = []" "\<not> br_page (new_branch part b)"
  by (simp_all add: new_branch_def)

lemma page_entries_children: "page_entries b = sum_list (map (\<lambda>x. own_entry (snd x) + page_entries (snd x)) (br_children b))"
  by (cases b) simp

lemma page_entries_visit [simp]: "page_entries (visit_branch opts p is_last b) = page_entries b"
  by (simp add: page_entries_children [of "visit_branch opts p is_last b"] page_entries_children [of b])

lemma page_entries_new [simp]: "page_entries (new_branch part b) = {#}"
  by (simp add: page_entries_children [of "new_branch part b"])

lemma map_of_set_child: "map_of (set_child k c cs) j = (if j = k then Some c else map_of cs j)"
  by (induction cs) auto

lemma keys_set_child: "fst ` set (set_child k c cs) = insert k (fst ` set cs)"
  by (induction cs) auto

lemma distinct_set_child: "distinct (map fst cs) \<Longrightarrow> distinct (map fst (set_child k c cs))"
  by (induction cs) (auto simp: keys_set_child)

lemma set_set_child: "x \<in> set (set_child k c cs) \<Longrightarrow> x = (k, c) \<or> x \<in> set cs"
  by (induction cs) (auto split: if_splits)

text \<open>Replacing one child changes the entries by those of the old and the new child.\<close>

definition child_entries :: "(string \<times> branch) list \<Rightarrow> nav_entry multiset" where
  "child_entries cs = sum_list (map (\<lambda>x. own_entry (snd x) + page_entries (snd x)) cs)"

lemma page_entries_alt: "page_entries b = child_entries (br_children b)"
  unfolding child_entries_def by (rule page_entries_children)

lemma child_entries_replace:
  "map_of cs k = Some c \<Longrightarrow>
   child_entries (set_child k c' cs) + (own_entry c + page_entries c) = child_entries cs + (own_entry c' + page_entries c')"
  by (induction cs) (auto simp: child_entries_def ac_simps split: if_splits)

lemma child_entries_add:
  "map_of cs k = None \<Longrightarrow> child_entries (set_child k c' cs) = child_entries cs + (own_entry c' + page_entries c')"
  by (induction cs) (auto simp: child_entries_def ac_simps split: if_splits)

lemma page_entries_with_child:
  "page_entries (with_child k c b) + (own_entry (child_or_new k b) + page_entries (child_or_new k b)) =
   page_entries b + (own_entry c + page_entries c)"
proof (cases "map_of (br_children b) k")
  case None
  then have "own_entry (child_or_new k b) = {#}" "page_entries (child_or_new k b) = {#}"
    by (simp_all add: child_or_new_def own_entry_def)
  with None show ?thesis
    unfolding page_entries_alt [of "with_child k c b"] page_entries_alt [of b] with_child_simps by (simp add: child_entries_add)
next
  case (Some d)
  then have "child_or_new k b = d" by (simp add: child_or_new_def)
  with child_entries_replace [OF Some, of c] show ?thesis
    unfolding page_entries_alt [of "with_child k c b"] page_entries_alt [of b] with_child_simps by simp
qed

lemma wf_child: "wf_branch b \<Longrightarrow> map_of (br_children b) k = Some c \<Longrightarrow> k \<noteq> [] \<and> br_slug c = child_slug (br_slug b) k \<and> wf_branch c"
  using map_of_SomeD [of "br_children b" k c] unfolding wf_branch_iff [of b] by fastforce

lemma wf_with_child:
  "wf_branch b \<Longrightarrow> k \<noteq> [] \<Longrightarrow> br_slug c = child_slug (br_slug b) k \<Longrightarrow> wf_branch c \<Longrightarrow> wf_branch (with_child k c b)"
  by (subst wf_branch_iff, subst (asm) (1) wf_branch_iff) (auto simp: distinct_set_child dest!: set_set_child)

lemma wf_child_or_new:
  "wf_branch b \<Longrightarrow> k \<noteq> [] \<Longrightarrow> wf_branch (child_or_new k b) \<and> br_slug (child_or_new k b) = child_slug (br_slug b) k"
  using wf_child by (auto simp: child_or_new_def wf_branch_iff [of "new_branch k b"] split: option.splits)

lemma wf_visit: "wf_branch b \<Longrightarrow> wf_branch (visit_branch opts p is_last b)"
  by (subst wf_branch_iff, subst (asm) wf_branch_iff) simp

lemma wf_add_parts: "wf_branch b \<Longrightarrow> wf_branch (add_parts opts p parts b)"
proof (induction parts arbitrary: b)
  case (Cons part parts)
  then show ?case
    using wf_child_or_new [OF Cons.prems] by (auto intro!: wf_with_child wf_visit)
qed simp

lemma page_at_add_parts:
  "[] \<notin> set parts \<Longrightarrow> qs \<noteq> [] \<Longrightarrow> parts \<noteq> [] \<Longrightarrow> page_at (add_parts opts p parts b) qs \<longleftrightarrow> qs = parts \<or> page_at b qs"
proof (induction parts arbitrary: b qs)
  case (Cons part parts)
  obtain q qs' where qs: "qs = q # qs'" using Cons.prems(2) by (cases qs) auto
  let ?c = "visit_branch opts p (parts = []) (child_or_new part b)"
  have old: "page_at ?c rs = page_at (child_or_new part b) rs" if "rs \<noteq> []" for rs
    using that by (cases rs) simp_all
  have child: "page_at b (part # qs') = page_at (child_or_new part b) qs'"
    by (cases qs') (auto simp: child_or_new_def split: option.split)
  have "page_at (add_parts opts p parts ?c) qs' \<longleftrightarrow> qs' = parts \<or> page_at (child_or_new part b) qs'"
  proof (cases "parts = [] \<or> qs' = []")
    case True
    then show ?thesis
      using old [of qs'] by (cases "parts = []"; cases "qs' = []") auto
  next
    case False
    with Cons.IH [of qs' ?c] Cons.prems(1) old [of qs'] show ?thesis by simp
  qed
  with Cons.prems(1) child show ?case by (auto simp: qs map_of_set_child)
qed simp

lemma add_parts_entries:
  "[] \<notin> set parts \<Longrightarrow> parts \<noteq> [] \<Longrightarrow> wf_branch b \<Longrightarrow> \<not> page_at b parts \<Longrightarrow>
   page_entries (add_parts opts p parts b) = page_entries b + {#(full_slug (br_slug b) parts, np_id p, np_title p)#}"
proof (induction parts arbitrary: b)
  case (Cons part parts)
  let ?old = "child_or_new part b"
  let ?c = "visit_branch opts p (parts = []) ?old"
  let ?new = "add_parts opts p parts ?c"
  let ?e = "(full_slug (br_slug b) (part # parts), np_id p, np_title p)"
  have part: "part \<noteq> []" and s: "br_slug ?old = child_slug (br_slug b) part" and w: "wf_branch ?old"
    using Cons.prems wf_child_or_new [OF Cons.prems(3)] by auto
  have no: "\<not> page_at ?old parts"
    using Cons.prems(4) by (cases parts) (auto simp: child_or_new_def split: option.splits)
  have "own_entry ?new + page_entries ?new = own_entry ?old + page_entries ?old + {#?e#}"
  proof (cases "parts = []")
    case True
    with no s show ?thesis by (simp add: own_entry_def full_slug_single)
  next
    case False
    then have "\<not> page_at ?c parts"
      using no by (cases parts) simp_all
    with Cons.IH [of ?c] Cons.prems(1) False w wf_visit have
      "page_entries ?new = page_entries ?old + {#(full_slug (br_slug ?old) parts, np_id p, np_title p)#}" by simp
    with False s part show ?thesis by (simp add: own_entry_def full_slug_Cons)
  qed
  with page_entries_with_child [of part ?new b] have "page_entries (with_child part ?new b) = page_entries b + {#?e#}"
    by (simp add: ac_simps)
  then show ?case using part by simp
qed simp

lemma build_tree_entries:
  assumes "distinct (map page_parts ps)" and "\<forall>p\<in>set ps. [] \<notin> set (page_parts p)"
    and "wf_branch b" and "br_slug b = []" and "\<forall>p\<in>set ps. \<not> page_at b (page_parts p)"
  shows "page_entries (fold (\<lambda>p. add_parts opts p (page_parts p)) ps b) =
    page_entries b + mset (map (\<lambda>p. (TrimByte (CHR ''/'') (np_slug p), np_id p, np_title p)) ps)"
  using assms
proof (induction ps arbitrary: b)
  case (Cons p ps)
  have ne: "page_parts q \<noteq> []" for q by (simp add: page_parts_def)
  let ?b = "add_parts opts p (page_parts p) b"
  have "\<forall>q\<in>set ps. \<not> page_at ?b (page_parts q)"
    using Cons.prems page_at_add_parts [of "page_parts p" _ opts p b] ne by (auto, metis image_eqI)
  with Cons.IH [of ?b] Cons.prems wf_add_parts have
    "page_entries (fold (\<lambda>p. add_parts opts p (page_parts p)) ps ?b) =
      page_entries ?b + mset (map (\<lambda>p. (TrimByte (CHR ''/'') (np_slug p), np_id p, np_title p)) ps)" by simp
  moreover have "page_entries ?b = page_entries b + {#(TrimByte (CHR ''/'') (np_slug p), np_id p, np_title p)#}"
    using add_parts_entries [of "page_parts p" b opts p] Cons.prems ne [of p] by (simp add: full_slug_def page_parts_def)
  ultimately show ?case by simp
qed simp

section \<open>The pages of the nodes\<close>

text \<open>The entries of the pages among the nodes and below them.\<close>

function node_entries :: "nav_node \<Rightarrow> nav_entry multiset" where
  "node_entries (Node i t s ic r pg ac co op cnt sh cs) =
     (if pg then {#(s, i, t)#} else {#}) + sum_list (map node_entries cs)"
  by pat_completeness auto
termination
proof (relation "measure size")
  show "(x, Node i t s ic r pg ac co op cnt sh cs) \<in> measure size" if "x \<in> set cs" for x i t s ic r pg ac co op cnt sh cs
    using that by (induction cs) (auto simp: less_Suc_eq_le)
qed simp

lemma sum_list_sort_func: "sum_list (map f (sort_func cmp xs)) = sum_list (map f xs)"
  for f :: "'a \<Rightarrow> 'b::comm_monoid_add"
  by (metis mset_sort_func mset_map sum_mset_sum_list)

lemma nodes_alt:
  "nodes e b depth active expanded counts = sort_func (compareNodes e)
    (map (\<lambda>x. make_node depth active expanded counts (snd x) (nodes e (snd x) (depth + 1) active expanded counts)) (br_children b))"
  by (cases b) simp

lemma make_node_simps:
  "node_entries (make_node depth active expanded counts c cs) = own_entry c + sum_list (map node_entries cs)"
  "nn_count (make_node depth active expanded counts c cs) = (if br_page c then 1 else 0) + sum_list (map nn_count cs)"
  "nn_contains (make_node depth active expanded counts c cs) \<longleftrightarrow> (br_page c \<and> br_slug c = active) \<or> list_ex nn_contains cs"
  "nn_children (make_node depth active expanded counts c cs) = cs"
  by (simp_all add: make_node_def Let_def own_entry_def)

lemma nodes_entries: "sum_list (map node_entries (nodes e b depth active expanded counts)) = page_entries b"
proof (induction e b depth active expanded counts rule: nodes.induct)
  case (1 e i t s ic pg cs depth active expanded counts)
  then show ?case
    by (simp add: sum_list_sort_func comp_def make_node_simps cong: map_cong)
qed

text \<open>A node counts the pages from it on, and contains the current page if it is one of them.\<close>

definition node_ok :: "string \<Rightarrow> nav_node \<Rightarrow> bool" where
  "node_ok active n = (nn_count n = size (node_entries n) \<and> (nn_contains n \<longleftrightarrow> active \<in> fst ` set_mset (node_entries n)))"

function flatten :: "nav_node \<Rightarrow> nav_node list" where
  "flatten (Node i t s ic r pg ac co op cnt sh cs) = Node i t s ic r pg ac co op cnt sh cs # concat (map flatten cs)"
  by pat_completeness auto
termination
proof (relation "measure size")
  show "(x, Node i t s ic r pg ac co op cnt sh cs) \<in> measure size" if "x \<in> set cs" for x i t s ic r pg ac co op cnt sh cs
    using that by (induction cs) (auto simp: less_Suc_eq_le)
qed simp

lemma flatten_alt: "flatten n = n # concat (map flatten (nn_children n))"
  by (cases n) simp

lemma size_sum_list: "size (sum_list ms) = sum_list (map size ms)" for ms :: "'a multiset list"
  by (induction ms) auto

lemma set_mset_sum_list: "set_mset (sum_list ms) = (\<Union>m\<in>set ms. set_mset m)"
  by (induction ms) auto

lemma make_node_ok:
  assumes "\<forall>n\<in>set cs. node_ok active n"
  shows "node_ok active (make_node depth active expanded counts c cs)"
proof -
  from assms have "map nn_count cs = map size (map node_entries cs)"
    by (simp add: node_ok_def)
  then have "sum_list (map nn_count cs) = size (sum_list (map node_entries cs))"
    by (simp only: size_sum_list)
  moreover from assms have "list_ex nn_contains cs \<longleftrightarrow> (\<exists>n\<in>set cs. active \<in> fst ` set_mset (node_entries n))"
    by (auto simp: list_ex_iff node_ok_def)
  ultimately show ?thesis
    by (auto simp: node_ok_def make_node_simps own_entry_def set_mset_sum_list)
qed

lemma nodes_ok: "n \<in> set (concat (map flatten (nodes e b depth active expanded counts))) \<Longrightarrow> node_ok active n"
proof (induction e b depth active expanded counts arbitrary: n rule: nodes.induct)
  case (1 e i t s ic pg cs depth active expanded counts)
  then obtain x where x: "x \<in> set cs"
    "n \<in> set (flatten (make_node depth active expanded counts (snd x) (nodes e (snd x) (depth + 1) active expanded counts)))"
    by auto
  have below: "node_ok active m" if "m \<in> set (concat (map flatten (nodes e (snd x) (depth + 1) active expanded counts)))" for m
    using 1(1) [OF x(1) that] .
  have "node_ok active m" if "m \<in> set (nodes e (snd x) (depth + 1) active expanded counts)" for m
    using that by (intro below) (auto simp: flatten_alt [of m] intro!: bexI [of _ m])
  then have top: "node_ok active (make_node depth active expanded counts (snd x) (nodes e (snd x) (depth + 1) active expanded counts))"
    by (intro make_node_ok) blast
  from x(2) have "n = make_node depth active expanded counts (snd x) (nodes e (snd x) (depth + 1) active expanded counts) \<or>
      n \<in> set (concat (map flatten (nodes e (snd x) (depth + 1) active expanded counts)))"
    by (subst (asm) flatten_alt) (auto simp: make_node_simps)
  with below top show ?case by blast
qed

section \<open>The order of a map\<close>

interpretation node_order: comparison "compareNodes e" for e
  by unfold_locales (auto simp: compareNodes_def Let_def cmp_then_def cmp_compare_def split: if_splits)

lemma sorted_strict:
  "sorted_wrt (\<lambda>x y. compareNodes e x y \<le> 0) ns \<Longrightarrow> distinct (map nn_slug ns) \<Longrightarrow> sorted_wrt (\<lambda>x y. compareNodes e x y < 0) ns"
proof (induction ns)
  case (Cons n ns)
  have "compareNodes e n m < 0" if "m \<in> set ns" for m
  proof -
    from that Cons.prems have "compareNodes e n m \<le> 0" "nn_slug n \<noteq> nn_slug m" by auto
    then show ?thesis
      by (auto simp: compareNodes_def Let_def cmp_then_def cmp_compare_def split: if_splits)
  qed
  with Cons show ?case by simp
qed simp

text \<open>The children of a branch have different slugs, so the nodes do not depend on the order in which
  its map is visited.\<close>

lemma nodes_order_irrelevant:
  assumes "wf_branch b" and "mset (br_children b') = mset (br_children b)"
  shows "nodes e b' depth active expanded counts = nodes e b depth active expanded counts"
proof -
  let ?f = "\<lambda>x. make_node depth active expanded counts (snd x) (nodes e (snd x) (depth + 1) active expanded counts)"
  have slug: "nn_slug (?f x) = child_slug (br_slug b) (fst x)" if "x \<in> set (br_children b)" for x
    using assms(1) that by (subst (asm) wf_branch_iff) (simp add: make_node_def Let_def)
  have "distinct (map (child_slug (br_slug b)) (map fst (br_children b)))"
  proof -
    have "distinct (map fst (br_children b))"
      using assms(1) by (subst (asm) wf_branch_iff) blast
    then show ?thesis
      unfolding distinct_map [of "child_slug (br_slug b)"] by (intro conjI inj_onI) (auto simp: child_slug_def split: if_splits)
  qed
  then have "distinct (map nn_slug (map ?f (br_children b)))"
    by (simp only: map_map comp_def slug cong: map_cong)
  then have d: "distinct (map nn_slug (sort_func (compareNodes e) (map ?f (br_children b))))"
    by (rule mset_eq_imp_distinct_iff [THEN iffD2, rotated]) (simp only: mset_map mset_sort_func)
  have "mset (sort_func (compareNodes e) (map ?f (br_children b))) = mset (sort_func (compareNodes e) (map ?f (br_children b')))"
    by (simp only: mset_sort_func mset_map assms(2))
  from node_order.sorted_unique [OF this sorted_strict [OF node_order.sorted_sort_func d] node_order.sorted_sort_func]
  show ?thesis by (simp add: nodes_alt [of e b] nodes_alt [of e b'])
qed

text \<open>C25: the navigation built from pages of distinct slugs without empty parts shows each of them once,
  with its slug, identity and title; and every folder or page in it counts the pages from it on and
  is marked as containing the current page exactly if one of them has its slug.\<close>

theorem navigation_shows_each_page_once:
  assumes "distinct (map page_parts pages)" and "\<forall>p\<in>set pages. [] \<notin> set (page_parts p)"
  shows "sum_list (map node_entries (Build e pages opts)) =
      mset (map (\<lambda>p. (TrimByte (CHR ''/'') (np_slug p), np_id p, np_title p)) pages) \<and>
    list_all (\<lambda>n. nn_count n = size (node_entries n) \<and>
        nn_contains n = (nav_path (nv_active opts) \<in> fst ` set_mset (node_entries n)))
      (concat (map flatten (Build e pages opts)))"
proof -
  have "wf_branch nav_root" by (subst wf_branch_iff) (simp add: nav_root_def)
  moreover have "\<not> page_at nav_root (page_parts p)" for p
    by (cases "page_parts p") (simp_all add: nav_root_def page_parts_def)
  ultimately have "page_entries (build_tree opts pages) = mset (map (\<lambda>p. (TrimByte (CHR ''/'') (np_slug p), np_id p, np_title p)) pages)"
    using build_tree_entries [OF assms, of nav_root opts] by (simp add: build_tree_def nav_root_def)
  then show ?thesis
    using nodes_ok by (auto simp: Build_def nodes_entries list_all_iff node_ok_def)
qed

definition demo_pages :: "nav_page list" where
  "demo_pages = [\<lparr>np_id = 1, np_slug = ''a/b'', np_title = ''B'', np_icon = []\<rparr>, \<lparr>np_id = 2, np_slug = ''/a/'', np_title = ''A'', np_icon = []\<rparr>,
     \<lparr>np_id = 3, np_slug = ''c/d'', np_title = ''D'', np_icon = []\<rparr>]"

definition demo_options :: nav_options where
  "demo_options = \<lparr>nv_active = ''a/b'', nv_expanded = [''a''], nv_counts = True, nv_icons = []\<rparr>"

theorem navigation_shows_each_page_once_witness:
  "sum_list (map node_entries (Build \<lparr>en_now = 0, en_lower = id, en_sql_lower = id, en_format = (\<lambda>t. [])\<rparr>
       demo_pages demo_options)) = {#(''a/b'', 1, ''B''), (''a'', 2, ''A''), (''c/d'', 3, ''D'')#}"
proof -
  have "distinct (map page_parts demo_pages)" "\<forall>p\<in>set demo_pages. [] \<notin> set (page_parts p)" by code_simp+
  from navigation_shows_each_page_once [OF this] have
    "sum_list (map node_entries (Build \<lparr>en_now = 0, en_lower = id, en_sql_lower = id, en_format = (\<lambda>t. [])\<rparr>
       demo_pages demo_options)) = mset (map (\<lambda>p. (TrimByte (CHR ''/'') (np_slug p), np_id p, np_title p)) demo_pages)" by blast
  moreover have "map (\<lambda>p. (TrimByte (CHR ''/'') (np_slug p), np_id p, np_title p)) demo_pages =
    [(''a/b'', 1, ''B''), (''a'', 2, ''A''), (''c/d'', 3, ''D'')]" by code_simp
  ultimately show ?thesis by simp
qed

end
