(* ===== verification/IconCache.thy ===== *)
theory IconCache
  imports Store
begin

text \<open>
  The icons of the navigation (\<open>application/navigation/navigation.go\<close>, \<open>postgres/navigation.go\<close>): a cache in
  the process beside the table, filled on first use, patched after an icon is set and dropped after
  pages are written. The operations of concurrent requests interleave; a step of the relation
  below is one statement of the database or one section under the lock of the cache.
\<close>

section \<open>The table and the cache\<close>

type_synonym icon_map = "string \<Rightarrow> string option"

text \<open>
  \<open>is_snapshot\<close> is what a load in progress has read; it holds the lock. \<open>is_patches\<close> are the calls of
  \<open>SetNavigationIcon\<close> whose statement has been executed and whose update of the cache is to come, and
  \<open>is_stale\<close> counts the page writes that have committed and not yet dropped the cache.
\<close>

record icon_state =
  is_db :: icon_map
  is_cache :: icon_map
  is_loaded :: bool
  is_snapshot :: "icon_map option"
  is_patches :: "(string \<times> string) list"
  is_stale :: nat

definition icon_value :: "string \<Rightarrow> string option" where
  "icon_value icon = (if icon = [] then None else Some icon)"

text \<open>What \<open>SetNavigationIcon\<close> makes of its arguments.\<close>

definition icon_input :: "(string \<Rightarrow> bool) \<Rightarrow> string \<Rightarrow> string \<Rightarrow> error + (string \<times> string)" where
  "icon_input is_icon path icon =
     (let path = TrimByte (CHR ''/'') (TrimSpace path); icon = TrimSpace icon in
      if path = [] then Inl (NewValidationError ''path'' ''Choose a navigation path.'')
      else if icon \<noteq> [] \<and> \<not> is_icon icon then Inl (NewValidationError ''icon'' ''Choose an icon from the available icon catalog.'')
      else Inr (path, icon))"

text \<open>The statements of the store: an empty icon deletes the row, any other one replaces it.\<close>

definition store_SetNavigationIcon :: "string \<Rightarrow> string \<Rightarrow> icon_map \<Rightarrow> error + icon_map" where
  "store_SetNavigationIcon path icon m =
     (let path = TrimByte (CHR ''/'') (TrimSpace path); icon = TrimSpace icon in
      if path = [] then Inl ErrNotFound else Inr (m(path := icon_value icon)))"

definition load_query :: "icon_state \<Rightarrow> icon_state" where
  "load_query s = s\<lparr>is_snapshot := Some (is_db s)\<rparr>"

definition load_done :: "icon_map \<Rightarrow> icon_state \<Rightarrow> icon_state" where
  "load_done m s = s\<lparr>is_cache := m, is_loaded := True, is_snapshot := None\<rparr>"

definition set_cache :: "string \<Rightarrow> string \<Rightarrow> icon_state \<Rightarrow> icon_state" where
  "set_cache path icon s = (if is_loaded s then s\<lparr>is_cache := (is_cache s)(path := icon_value icon)\<rparr> else s)"

definition InvalidateIcons :: "icon_state \<Rightarrow> icon_state" where
  "InvalidateIcons s = s\<lparr>is_cache := Map.empty, is_loaded := False\<rparr>"

text \<open>The use cases without interference.\<close>

definition NavigationIcons :: "icon_state \<Rightarrow> icon_map \<times> icon_state" where
  "NavigationIcons s =
     (if is_loaded s then (is_cache s, s) else (is_db s, load_done (is_db s) s))"

definition SetNavigationIcon :: "(string \<Rightarrow> bool) \<Rightarrow> string \<Rightarrow> string \<Rightarrow> icon_state \<Rightarrow> error + icon_state" where
  "SetNavigationIcon is_icon path icon s =
     bindR (icon_input is_icon path icon) (\<lambda>(path, icon).
     bindR (store_SetNavigationIcon path icon (is_db s)) (\<lambda>m.
     Inr (set_cache path icon (s\<lparr>is_db := m\<rparr>))))"

section \<open>Interleaving\<close>

inductive icon_step :: "(string \<Rightarrow> bool) \<Rightarrow> icon_state \<Rightarrow> icon_state \<Rightarrow> bool" for is_icon where
  query: "\<not> is_loaded s \<Longrightarrow> is_snapshot s = None \<Longrightarrow> icon_step is_icon s (load_query s)"
| loaded: "is_snapshot s = Some m \<Longrightarrow> icon_step is_icon s (load_done m s)"
| store: "icon_input is_icon p i = Inr (path, icon) \<Longrightarrow> store_SetNavigationIcon path icon (is_db s) = Inr m \<Longrightarrow>
    icon_step is_icon s (s\<lparr>is_db := m, is_patches := is_patches s @ [(path, icon)]\<rparr>)"
| patch: "is_snapshot s = None \<Longrightarrow> is_patches s = xs @ (path, icon) # ys \<Longrightarrow>
    icon_step is_icon s ((set_cache path icon s)\<lparr>is_patches := xs @ ys\<rparr>)"
| pages: "icon_step is_icon s (s\<lparr>is_db := m, is_stale := is_stale s + 1\<rparr>)"
| invalidate: "is_snapshot s = None \<Longrightarrow> is_stale s = Suc n \<Longrightarrow> icon_step is_icon s ((InvalidateIcons s)\<lparr>is_stale := n\<rparr>)"

definition cold :: "icon_map \<Rightarrow> icon_state" where
  "cold m = \<lparr>is_db = m, is_cache = Map.empty, is_loaded = False, is_snapshot = None, is_patches = [], is_stale = 0\<rparr>"

inductive icon_reachable :: "(string \<Rightarrow> bool) \<Rightarrow> icon_state \<Rightarrow> bool" for is_icon where
  start: "icon_reachable is_icon (cold m)"
| step: "icon_reachable is_icon s \<Longrightarrow> icon_step is_icon s t \<Longrightarrow> icon_reachable is_icon t"

text \<open>
  What a call has yet to write into the cache is what the table holds under the path of the call: no
  other writer has overtaken it, and the store has not trimmed its path further. The states that
  are reached without leaving this condition are calm.
\<close>

definition in_step :: "icon_state \<Rightarrow> bool" where
  "in_step s =
     list_all (\<lambda>(path, icon). TrimByte (CHR ''/'') (TrimSpace path) = path \<and> is_db s path = icon_value icon) (is_patches s)"

inductive calm :: "(string \<Rightarrow> bool) \<Rightarrow> icon_state \<Rightarrow> bool" for is_icon where
  start: "calm is_icon (cold m)"
| step: "calm is_icon s \<Longrightarrow> icon_step is_icon s t \<Longrightarrow> in_step t \<Longrightarrow> calm is_icon t"

lemma calm_reachable: "calm is_icon s \<Longrightarrow> icon_reachable is_icon s"
  by (induction rule: calm.induct) (auto intro: icon_reachable.intros)

section \<open>Coherence\<close>

text \<open>A copy of the table is right but for the paths that are about to be patched.\<close>

definition copy_of :: "icon_state \<Rightarrow> icon_map \<Rightarrow> bool" where
  "copy_of s m = (\<forall>k. m k = is_db s k \<or> k \<in> fst ` set (is_patches s))"

definition coherent :: "icon_state \<Rightarrow> bool" where
  "coherent s = (in_step s \<and>
     (is_stale s = 0 \<longrightarrow> (is_loaded s \<longrightarrow> copy_of s (is_cache s)) \<and> (\<forall>m. is_snapshot s = Some m \<longrightarrow> copy_of s m)))"

lemma coherent_cold: "coherent (cold m)"
  by (simp add: coherent_def in_step_def cold_def)

lemma coherent_store:
  assumes "coherent s" and "store_SetNavigationIcon path icon (is_db s) = Inr m"
    and t: "t = s\<lparr>is_db := m, is_patches := is_patches s @ [(path, icon)]\<rparr>" and "in_step t"
  shows "coherent t"
proof -
  from assms(2,4) have "m = (is_db s)(path := icon_value (TrimSpace icon))"
    by (auto simp: store_SetNavigationIcon_def Let_def in_step_def t split: if_splits)
  then have "copy_of t x" if "copy_of s x" for x
    using that by (auto simp: copy_of_def t)
  with assms(1,4) show ?thesis
    by (auto simp: coherent_def t)
qed

lemma coherent_patch:
  assumes "coherent s" and "is_snapshot s = None" and p: "is_patches s = xs @ (path, icon) # ys"
    and t: "t = (set_cache path icon s)\<lparr>is_patches := xs @ ys\<rparr>"
  shows "coherent t"
proof -
  have db: "is_db t = is_db s" "is_stale t = is_stale s" "is_snapshot t = None" "is_loaded t = is_loaded s" "is_patches t = xs @ ys"
    using assms(2) by (simp_all add: t set_cache_def)
  from assms(1) p have v: "is_db s path = icon_value icon" and i: "in_step s"
    by (auto simp: coherent_def in_step_def)
  from i have "in_step t" by (simp add: in_step_def db p)
  moreover have "copy_of t (is_cache t)" if "is_loaded s" "copy_of s (is_cache s)"
    using that v p by (auto simp: copy_of_def db) (auto simp: t set_cache_def split: if_splits)
  ultimately show ?thesis
    using assms(1) by (auto simp: coherent_def db)
qed

lemma coherent_step:
  assumes "coherent s" and "icon_step is_icon s t" and "in_step t"
  shows "coherent t"
  using assms(2)
proof cases
  case query
  with assms show ?thesis by (auto simp: coherent_def copy_of_def load_query_def in_step_def)
next
  case (loaded m)
  with assms show ?thesis by (auto simp: coherent_def copy_of_def load_done_def in_step_def)
next
  case (store p i path icon m)
  with assms coherent_store show ?thesis by blast
next
  case (patch xs path icon ys)
  with assms coherent_patch show ?thesis by blast
next
  case (pages m)
  with assms(3) show ?thesis by (simp add: coherent_def)
next
  case (invalidate n)
  with assms(3) show ?thesis by (auto simp: coherent_def InvalidateIcons_def)
qed

lemma calm_coherent: "calm is_icon s \<Longrightarrow> coherent s"
  by (induction rule: calm.induct) (auto intro: coherent_cold coherent_step)

text \<open>C24: as long as no writer of an icon is overtaken by another one, the icons that a request gets from
  the cache are those of the table, except for a path whose icon is being set and while the cache is
  about to be dropped; with nothing under way they are exactly those of the table. (The paths that are set are stable under
  the trimming of the store.)\<close>

theorem icon_cache_coherent:
  assumes "calm is_icon s" and "is_stale s = 0"
  shows "\<forall>k. fst (NavigationIcons s) k = is_db s k \<or> k \<in> fst ` set (is_patches s)"
  using calm_coherent [OF assms(1)] assms(2)
  by (simp add: coherent_def copy_of_def NavigationIcons_def)

text \<open>A load, and an icon that is set while the cache is filled.\<close>

definition warm :: "string \<Rightarrow> (string \<times> string) list \<Rightarrow> icon_state" where
  "warm icon patches = \<lparr>is_db = Map.empty(''a'' \<mapsto> icon), is_cache = Map.empty, is_loaded = True, is_snapshot = None,
     is_patches = patches, is_stale = 0\<rparr>"

lemma store_a: "icon \<noteq> [] \<Longrightarrow> TrimSpace icon = icon \<Longrightarrow> store_SetNavigationIcon ''a'' icon m = Inr (m(''a'' \<mapsto> icon))"
proof -
  assume i: "icon \<noteq> []" "TrimSpace icon = icon"
  have "TrimByte (CHR ''/'') (TrimSpace ''a'') = ''a''" by code_simp
  with i show ?thesis by (simp add: store_SetNavigationIcon_def icon_value_def)
qed

lemma trims: "TrimByte (CHR ''/'') (TrimSpace ''a'') = ''a''" "TrimSpace ''x'' = ''x''" "TrimSpace ''y'' = ''y''"
  by code_simp+

lemma input_a: "TrimSpace icon = icon \<Longrightarrow> icon_input (\<lambda>_. True) ''a'' icon = Inr (''a'', icon)"
  by (simp add: icon_input_def trims)

lemma step_load: "icon_step is_icon (cold m) (load_query (cold m))"
  "icon_step is_icon (load_query (cold m)) (load_done m (load_query (cold m)))"
  by (rule icon_step.query; simp add: cold_def) (rule icon_step.loaded; simp add: load_query_def cold_def)

lemma step_set:
  assumes "icon \<noteq> []" "TrimSpace icon = icon"
  shows "icon_step (\<lambda>_. True) s (s\<lparr>is_db := (is_db s)(''a'' \<mapsto> icon), is_patches := is_patches s @ [(''a'', icon)]\<rparr>)"
  by (rule icon_step.store [OF input_a [OF assms(2)] store_a [OF assms]])

lemma warm_loaded: "load_done Map.empty (load_query (cold Map.empty)) = (warm [] [])\<lparr>is_db := Map.empty\<rparr>"
  by (simp add: load_done_def load_query_def cold_def warm_def)

lemma calm_warm: "calm (\<lambda>_. True) (warm ''x'' [(''a'', ''x'')])"
proof -
  have "calm (\<lambda>_. True) (load_query (cold Map.empty))"
    by (rule calm.step [OF calm.start step_load(1)]) (simp add: in_step_def load_query_def cold_def)
  then have "calm (\<lambda>_. True) ((warm [] [])\<lparr>is_db := Map.empty\<rparr>)"
    unfolding warm_loaded [symmetric] by (rule calm.step [OF _ step_load(2)]) (simp add: in_step_def load_done_def load_query_def cold_def)
  then have "calm (\<lambda>_. True) ((warm [] [])\<lparr>is_db := Map.empty(''a'' \<mapsto> ''x''), is_patches := [(''a'', ''x'')]\<rparr>)"
    by (rule calm.step) (use step_set [of "''x''" "(warm [] [])\<lparr>is_db := Map.empty\<rparr>"] trims in
      \<open>auto simp: in_step_def icon_value_def warm_def\<close>)
  then show ?thesis by (simp add: warm_def)
qed

theorem icon_cache_coherent_witness:
  "(\<forall>k. fst (NavigationIcons (warm ''x'' [(''a'', ''x'')])) k = is_db (warm ''x'' [(''a'', ''x'')]) k \<or> k = ''a'') \<and>
   fst (NavigationIcons (warm ''x'' [(''a'', ''x'')])) ''a'' = None"
proof -
  have s: "is_stale (warm ''x'' [(''a'', ''x'')]) = 0" by (simp add: warm_def)
  have p: "is_patches (warm ''x'' [(''a'', ''x'')]) = [(''a'', ''x'')]" by (simp add: warm_def)
  have n: "fst (NavigationIcons (warm ''x'' [(''a'', ''x'')])) ''a'' = None" by (simp add: NavigationIcons_def warm_def)
  from icon_cache_coherent [OF calm_warm s] n show ?thesis by (simp add: p)
qed

text \<open>Two calls that set the icon of one path and overtake each other leave the cache with the icon
  that the table no longer has, with nothing under way that would correct it.\<close>

lemma overtaken_icon_stays_stale:
  "\<exists>s. icon_reachable (\<lambda>_. True) s \<and> is_patches s = [] \<and> is_stale s = 0 \<and> is_snapshot s = None \<and>
     is_db s ''a'' = Some ''y'' \<and> fst (NavigationIcons s) ''a'' = Some ''x''"
proof -
  let ?s1 = "warm ''x'' [(''a'', ''x'')]" and ?s2 = "warm ''y'' [(''a'', ''x''), (''a'', ''y'')]"
  have "icon_step (\<lambda>_. True) ?s1 ?s2"
    using step_set [of "''y''" ?s1] trims by (simp add: warm_def)
  with calm_reachable [OF calm_warm] have r2: "icon_reachable (\<lambda>_. True) ?s2" by (rule icon_reachable.step)
  let ?s3 = "(set_cache ''a'' ''y'' ?s2)\<lparr>is_patches := [(''a'', ''x'')]\<rparr>"
  have "icon_step (\<lambda>_. True) ?s2 ?s3"
    using icon_step.patch [of ?s2 "[(''a'', ''x'')]" "''a''" "''y''" "[]"] by (simp add: warm_def)
  with r2 have r3: "icon_reachable (\<lambda>_. True) ?s3" by (rule icon_reachable.step)
  let ?s4 = "(set_cache ''a'' ''x'' ?s3)\<lparr>is_patches := []\<rparr>"
  have "icon_step (\<lambda>_. True) ?s3 ?s4"
    using icon_step.patch [of ?s3 "[]" "''a''" "''x''" "[]"] by (simp add: warm_def set_cache_def)
  with r3 have "icon_reachable (\<lambda>_. True) ?s4" by (rule icon_reachable.step)
  then show ?thesis
    by (intro exI [of _ ?s4]) (simp add: warm_def set_cache_def NavigationIcons_def icon_value_def)
qed

text \<open>Even alone, a path that begins with a slash and a space is stored under one key and cached under another.\<close>

lemma spaced_path_is_misplaced:
  "icon_input (\<lambda>_. True) ''/ a'' ''x'' = Inr ('' a'', ''x'') \<and> store_SetNavigationIcon '' a'' ''x'' Map.empty = Inr [''a'' \<mapsto> ''x'']"
proof -
  have "TrimByte (CHR ''/'') (TrimSpace ''/ a'') = '' a''" "TrimByte (CHR ''/'') (TrimSpace '' a'') = ''a''" by code_simp+
  then show ?thesis by (simp add: icon_input_def store_SetNavigationIcon_def trims icon_value_def)
qed

end
