(* ===== verification/Plugins.thy ===== *)
theory Plugins
  imports GoStrings Slugs "HOL-Library.List_Lexorder" "HOL-Library.Char_ord" "HOL-Library.Word"
begin

text \<open>
  Plugins (\<open>pkg/plugin\<close>): the data of a plugin, the order of the dependencies
  (\<open>bootstrap.go\<close>) and the registry of active contributions with its checks and its render plan
  (\<open>registry.go\<close>, \<open>registry_validation.go\<close>, \<open>renderplan.go\<close>). A contribution is an interface
  value; the model has what its methods answer and, as every callback of a runtime instance
  refers to it, the instance it belongs to. A nil interface value is \<open>None\<close>. Contributions of
  which the registry reads only the id are lists of ids.
\<close>

section \<open>Data\<close>

datatype plugin_error =
    InvalidDescriptor string
  | AlreadyRegistered string
  | RequiresActive string string
  | InvalidMacro string
  | MacroTaken string
  | NilCallback string string
  | TooManyHighlighters string
  | HighlighterTaken string
  | InvalidID string string
  | NotRegistered string
  | NoLongerRegistered string
  | RequiredBy string string
  | DependencyCycle string
  | RequiresEnabled string string
  | RegistryNotEmpty
  | ManagerClosed
  | ManagerNotEmpty
  | AlreadyInstalled string
  | NotInstalled string
  | RequiredPlugin
  | UpgradeMismatch
  | PackageMismatch
  | IdentityMismatch
  | DuplicateStored string
  | DuplicateBuiltin string
  | BuiltinUnavailable string
  | BuiltinMismatch
  | LoadFailed string plugin_error
  | MissingRequired string
  | External string

record source_rule =
  sr_contains :: string
  sr_fence :: string
  sr_macro :: string
  sr_substitution :: string

record source_usage =
  su_module :: string
  su_rules :: "source_rule list"

text \<open>What the methods \<open>Name\<close>, \<open>Priority\<close> and, where the value has it, \<open>SourceUsage\<close> answer.\<close>

record callback =
  cb_handle :: nat
  cb_name :: string
  cb_priority :: int
  cb_usage :: "source_usage option"

record widget_module =
  wm_id :: string
  wm_surface :: string
  wm_width :: string
  wm_order :: int
  wm_widget :: callback

record contributions =
  ct_instance :: nat
  ct_content_preprocessors :: "callback option list"
  ct_content_changes :: "(string \<times> callback option) list"
  ct_preprocessors :: "callback option list"
  ct_markdown :: "callback option list"
  ct_highlighters :: "(string \<times> callback option) list"
  ct_postprocessors :: "callback option list"
  ct_macros :: "callback option list"
  ct_widgets :: "widget_module list"
  ct_exporters :: "(string \<times> callback option) list"
  ct_browser :: "string list"
  ct_editor :: "string list"
  ct_actions :: "(string \<times> callback option) list"
  ct_resources :: "string list"
  ct_completions :: "string list"
  ct_inserts :: "string list"
  ct_menus :: "string list"
  ct_settings :: "string list"
  ct_styles :: "string list"
  ct_policies :: "string list"

record descriptor =
  ds_id :: string
  ds_name :: string
  ds_description :: string
  ds_default :: bool
  ds_requires :: "string list"

text \<open>An entry of the registry; its lifetime is an address.\<close>

record plugin_entry =
  et_life :: nat
  et_descriptor :: descriptor
  et_contributions :: contributions

text \<open>The manifest of a package (a type of the SDK): the fields that the manager reads, and the rest.\<close>

record manifest_module =
  mm_id :: string
  mm_type :: string
  mm_fields :: nat

record manifest =
  mf_id :: string
  mf_name :: string
  mf_description :: string
  mf_version :: string
  mf_default :: bool
  mf_requires :: "string list"
  mf_modules :: "manifest_module list"
  mf_rest :: string

record managed_plugin =
  mp_enabled :: bool
  mp_manifest :: manifest
  mp_readme :: string
  mp_settings :: "(string \<times> bool) list"
  mp_digest :: string
  mp_instance :: "nat option"

type_synonym plugin_catalog = "(string \<times> managed_plugin) list"

section \<open>The order of dependencies\<close>

definition plugin_on :: "plugin_catalog \<Rightarrow> string \<Rightarrow> bool" where
  "plugin_on cat i = (case map_of cat i of None \<Rightarrow> False | Some p \<Rightarrow> mp_enabled p)"

definition plugin_requires :: "plugin_catalog \<Rightarrow> string \<Rightarrow> string list" where
  "plugin_requires cat i = (case map_of cat i of None \<Rightarrow> [] | Some p \<Rightarrow> mf_requires (mp_manifest p))"

text \<open>
  The closure \<open>visit\<close>: the ids in state 1 are those of the calls under way (\<open>path\<close>), the ids in state 2
  those in the result.
\<close>

lemma plugin_on_key: "plugin_on cat i \<Longrightarrow> i \<in> fst ` set cat"
  by (force simp: plugin_on_def split: option.splits dest: map_of_SomeD)

lemma path_grows:
  assumes "plugin_on cat i" and "i \<notin> set path"
  shows "card (fst ` set cat - insert i (set path)) < card (fst ` set cat - set path)"
proof (rule psubset_card_mono)
  show "fst ` set cat - insert i (set path) \<subset> fst ` set cat - set path"
    using plugin_on_key [OF assms(1)] assms(2) by blast
qed simp

function visit :: "plugin_catalog \<Rightarrow> string list \<Rightarrow> string \<Rightarrow> string list \<Rightarrow> plugin_error + string list"
  and visit_requirements :: "plugin_catalog \<Rightarrow> string list \<Rightarrow> string \<Rightarrow> string list \<Rightarrow> string list \<Rightarrow> plugin_error + string list" where
  "visit cat path i order =
     (if i \<in> set order then Inr order
      else if i \<in> set path then Inl (DependencyCycle i)
      else bindR (if plugin_on cat i then visit_requirements cat (i # path) i (plugin_requires cat i) order else Inr order)
        (\<lambda>order. Inr (order @ [i])))"
| "visit_requirements cat path i [] order = Inr order"
| "visit_requirements cat path i (d # ds) order =
     (if \<not> plugin_on cat d then Inl (RequiresEnabled i d)
      else bindR (visit cat path d order) (visit_requirements cat path i ds))"
  by pat_completeness auto
termination
  by (relation "measures
      [\<lambda>x. case x of Inl (cat, path, i, order) \<Rightarrow> card (fst ` set cat - set path)
        | Inr (cat, path, i, ds, order) \<Rightarrow> card (fst ` set cat - set path),
       \<lambda>x. case x of Inl _ \<Rightarrow> 0 | Inr (cat, path, i, ds, order) \<Rightarrow> Suc (length ds)]")
     (auto simp: path_grows)

definition dependencyOrder :: "plugin_catalog \<Rightarrow> plugin_error + string list" where
  "dependencyOrder cat = forR (sort (map fst cat)) (visit cat []) []"


text \<open>What an order has to satisfy, and the relation it follows.\<close>

definition requires_rel :: "plugin_catalog \<Rightarrow> (string \<times> string) set" where
  "requires_rel cat = {(d, i). plugin_on cat i \<and> d \<in> set (plugin_requires cat i)}"

definition requirements_on :: "plugin_catalog \<Rightarrow> bool" where
  "requirements_on cat = (\<forall>i d. plugin_on cat i \<longrightarrow> d \<in> set (plugin_requires cat i) \<longrightarrow> plugin_on cat d)"

definition follows_requirements :: "plugin_catalog \<Rightarrow> string list \<Rightarrow> bool" where
  "follows_requirements cat order =
     (distinct order \<and>
      (\<forall>xs i ys. order = xs @ i # ys \<longrightarrow> plugin_on cat i \<longrightarrow> (\<forall>d\<in>set (plugin_requires cat i). plugin_on cat d \<and> d \<in> set xs)))"

lemma follows_snoc:
  assumes "follows_requirements cat order" and "i \<notin> set order"
    and "plugin_on cat i \<Longrightarrow> \<forall>d\<in>set (plugin_requires cat i). plugin_on cat d \<and> d \<in> set order"
  shows "follows_requirements cat (order @ [i])"
  unfolding follows_requirements_def
proof (intro conjI allI impI)
  show "distinct (order @ [i])" using assms(1,2) by (simp add: follows_requirements_def)
next
  fix xs j ys
  assume eq: "order @ [i] = xs @ j # ys" and on: "plugin_on cat j"
  show "\<forall>d\<in>set (plugin_requires cat j). plugin_on cat d \<and> d \<in> set xs"
  proof (cases ys rule: rev_cases)
    case Nil
    with eq assms(3) on show ?thesis by simp
  next
    case (snoc zs k)
    with eq have "order = xs @ j # zs" by simp
    with assms(1) on show ?thesis by (auto simp: follows_requirements_def)
  qed
qed

declare visit.simps [simp del]

lemma visit_sound:
  "visit cat path i order = Inr out \<Longrightarrow> follows_requirements cat order \<Longrightarrow>
     follows_requirements cat out \<and> set order \<subseteq> set out \<and> i \<in> set out \<and> set out \<inter> set path \<subseteq> set order"
  "visit_requirements cat path i ds order = Inr out \<Longrightarrow> follows_requirements cat order \<Longrightarrow>
     follows_requirements cat out \<and> set order \<subseteq> set out \<and> (\<forall>d\<in>set ds. plugin_on cat d \<and> d \<in> set out) \<and>
     set out \<inter> set path \<subseteq> set order"
proof (induction cat path i order and cat path i ds order arbitrary: out and out rule: visit_visit_requirements.induct)
  case (1 cat path i order)
  show ?case
  proof (cases "i \<in> set order")
    case True
    with "1.prems" show ?thesis by (simp add: visit.simps)
  next
    case False
    with "1.prems"(1) have new: "i \<notin> set path" by (auto simp: visit.simps split: if_splits)
    from "1.prems"(1) False new obtain o' where
      o': "(if plugin_on cat i then visit_requirements cat (i # path) i (plugin_requires cat i) order else Inr order) = Inr o'"
      and out: "out = o' @ [i]"
      by (auto simp: visit.simps result_simps)
    have props: "follows_requirements cat o' \<and> set order \<subseteq> set o' \<and>
        (plugin_on cat i \<longrightarrow> (\<forall>d\<in>set (plugin_requires cat i). plugin_on cat d \<and> d \<in> set o')) \<and> set o' \<inter> set (i # path) \<subseteq> set order"
    proof (cases "plugin_on cat i")
      case True
      with o' "1.IH" [OF False new True _ "1.prems"(2)] show ?thesis by simp
    next
      case False
      with o' "1.prems"(2) show ?thesis by auto
    qed
    with False have "i \<notin> set o'" by auto
    with props have "follows_requirements cat out" unfolding out by (intro follows_snoc) auto
    with props out new show ?thesis by auto
  qed
next
  case (2 cat path i order)
  then show ?case by simp
next
  case (3 cat path i d ds order)
  from "3.prems"(1) have on: "plugin_on cat d" by (auto split: if_splits)
  with "3.prems"(1) obtain m where m: "visit cat path d order = Inr m" "visit_requirements cat path i ds m = Inr out"
    by (auto simp: result_simps)
  have on': "\<not> \<not> plugin_on cat d" using on by simp
  note v = "3.IH"(1) [OF on' m(1) "3.prems"(2)]
  with "3.IH"(2) [OF on' m(1) m(2)] have "follows_requirements cat out \<and> set m \<subseteq> set out \<and>
      (\<forall>d\<in>set ds. plugin_on cat d \<and> d \<in> set out) \<and> set out \<inter> set path \<subseteq> set m" by blast
  with v on show ?case by auto
qed

lemma visit_fails:
  "visit cat path i order = Inl e \<Longrightarrow> \<forall>x\<in>set path. (i, x) \<in> (requires_rel cat)\<^sup>+ \<Longrightarrow>
     \<not> requirements_on cat \<or> \<not> acyclic (requires_rel cat)"
  "visit_requirements cat path i ds order = Inl e \<Longrightarrow> plugin_on cat i \<Longrightarrow> set ds \<subseteq> set (plugin_requires cat i) \<Longrightarrow>
     \<forall>x\<in>set path. (i, x) \<in> (requires_rel cat)\<^sup>* \<Longrightarrow> \<not> requirements_on cat \<or> \<not> acyclic (requires_rel cat)"
proof (induction cat path i order and cat path i ds order arbitrary: e and e rule: visit_visit_requirements.induct)
  case (1 cat path i order)
  show ?case
  proof (cases "i \<in> set path")
    case True
    with "1.prems"(2) show ?thesis by (auto simp: acyclic_def)
  next
    case False
    with "1.prems"(1) have new: "i \<notin> set order" and on: "plugin_on cat i"
      and r: "visit_requirements cat (i # path) i (plugin_requires cat i) order = Inl e"
      by (auto simp: visit.simps result_simps split: if_splits)
    have "\<forall>x\<in>set (i # path). (i, x) \<in> (requires_rel cat)\<^sup>*"
      using "1.prems"(2) by (auto dest: trancl_into_rtrancl)
    with "1.IH" [OF new False on r on] show ?thesis by simp
  qed
next
  case (2 cat path i order)
  then show ?case by simp
next
  case (3 cat path i d ds order)
  show ?case
  proof (cases "plugin_on cat d")
    case False
    with "3.prems"(2,3) show ?thesis by (auto simp: requirements_on_def)
  next
    case True
    then have on': "\<not> \<not> plugin_on cat d" by simp
    from "3.prems"(2,3) have "(d, i) \<in> requires_rel cat" by (auto simp: requires_rel_def)
    with "3.prems"(4) have p: "\<forall>x\<in>set path. (d, x) \<in> (requires_rel cat)\<^sup>+" by (meson rtrancl_into_trancl2)
    from "3.prems"(1) True consider "visit cat path d order = Inl e"
      | m where "visit cat path d order = Inr m" "visit_requirements cat path i ds m = Inl e"
      by (auto simp: result_simps)
    then show ?thesis
    proof cases
      case 1
      with "3.IH"(1) [OF on' _ p] show ?thesis by blast
    next
      case 2
      with "3.IH"(2) [OF on' 2(1) 2(2)] "3.prems"(2-4) show ?thesis by simp
    qed
  qed
qed

lemma takeWhile_first: "i \<notin> set xs \<Longrightarrow> takeWhile (\<lambda>x. x \<noteq> i) (xs @ i # ys) = xs"
  by (induction xs) auto

lemma follows_acyclic:
  assumes "follows_requirements cat order" and "\<And>i. plugin_on cat i \<Longrightarrow> i \<in> set order"
  shows "acyclic (requires_rel cat)"
proof -
  define pos where "pos i = length (takeWhile (\<lambda>x. x \<noteq> i) order)" for i
  have less: "pos d < pos i" if "(d, i) \<in> requires_rel cat" for d i
  proof -
    from that have on: "plugin_on cat i" and d: "d \<in> set (plugin_requires cat i)" by (auto simp: requires_rel_def)
    from assms(2) [OF on] obtain xs ys where o: "order = xs @ i # ys" and "i \<notin> set xs" by (meson split_list_first)
    then have "pos i = length xs" by (simp add: pos_def takeWhile_first)
    from assms(1) on d o have "d \<in> set xs" by (auto simp: follows_requirements_def)
    then obtain us vs where x: "xs = us @ d # vs" and "d \<notin> set us" by (meson split_list_first)
    then have "pos d = length us" by (simp add: pos_def o takeWhile_first)
    with \<open>pos i = length xs\<close> x show ?thesis by simp
  qed
  have "pos a < pos b" if "(a, b) \<in> (requires_rel cat)\<^sup>+" for a b
    using that by (induction rule: trancl_induct) (auto dest: less)
  then show ?thesis by (fastforce simp: acyclic_def)
qed

lemma forR_visit:
  "forR names (visit cat []) order = Inr out \<Longrightarrow> follows_requirements cat order \<Longrightarrow>
   follows_requirements cat out \<and> set order \<subseteq> set out \<and> set names \<subseteq> set out"
proof (induction names arbitrary: order)
  case (Cons i names)
  then obtain m where m: "visit cat [] i order = Inr m" "forR names (visit cat []) m = Inr out"
    by (auto simp: result_simps)
  with visit_sound(1) [OF m(1) Cons.prems(2)] Cons.IH [OF m(2)] show ?case by auto
qed simp

lemma forR_visit_fails:
  "forR names (visit cat []) order = Inl e \<Longrightarrow> \<not> requirements_on cat \<or> \<not> acyclic (requires_rel cat)"
proof (induction names arbitrary: order)
  case (Cons i names)
  then show ?case using visit_fails(1) [of cat "[]" i order] by (auto simp: result_simps)
qed simp

lemma dependencyOrder_follows:
  assumes "dependencyOrder cat = Inr order"
  shows "follows_requirements cat order \<and> fst ` set cat \<subseteq> set order"
  using forR_visit [OF assms [unfolded dependencyOrder_def]] by (simp add: follows_requirements_def)

lemma visit_keys:
  "visit cat path i order = Inr out \<Longrightarrow> i \<in> fst ` set cat \<Longrightarrow> set out \<subseteq> set order \<union> fst ` set cat"
  "visit_requirements cat path i ds order = Inr out \<Longrightarrow> set out \<subseteq> set order \<union> fst ` set cat"
proof (induction cat path i order and cat path i ds order arbitrary: out and out rule: visit_visit_requirements.induct)
  case (1 cat path i order)
  show ?case
  proof (cases "i \<in> set order \<or> i \<in> set path \<or> \<not> plugin_on cat i")
    case True
    with "1.prems"(1) have "out = order \<or> out = order @ [i]" by (auto simp: visit.simps split: if_splits)
    with "1.prems"(2) show ?thesis by (elim disjE) simp_all
  next
    case False
    with "1.prems"(1) obtain o' where "visit_requirements cat (i # path) i (plugin_requires cat i) order = Inr o'" "out = o' @ [i]"
      by (auto simp: visit.simps result_simps)
    with "1.IH" False "1.prems"(2) show ?thesis by auto
  qed
next
  case (2 cat path i order)
  then show ?case by simp
next
  case (3 cat path i d ds order)
  from "3.prems" have on: "plugin_on cat d" by (auto split: if_splits)
  with "3.prems" obtain m where m: "visit cat path d order = Inr m" "visit_requirements cat path i ds m = Inr out"
    by (auto simp: result_simps)
  from "3.IH"(1) [OF _ m(1) plugin_on_key [OF on]] "3.IH"(2) [OF _ m] on show ?case by auto
qed

lemma dependencyOrder_keys:
  assumes "dependencyOrder cat = Inr order"
  shows "set order = fst ` set cat"
proof
  have "set order \<subseteq> fst ` set cat"
    by (rule forR_invariant [OF assms [unfolded dependencyOrder_def], where P = "\<lambda>order. set order \<subseteq> fst ` set cat"])
      (auto dest!: visit_keys(1))
  then show "set order \<subseteq> fst ` set cat" .
qed (use dependencyOrder_follows [OF assms] in blast)

lemma dependencyOrder_requirements:
  assumes "dependencyOrder cat = Inr order"
  shows "requirements_on cat"
  unfolding requirements_on_def
proof (intro allI impI)
  fix i d assume on: "plugin_on cat i" and d: "d \<in> set (plugin_requires cat i)"
  note f = dependencyOrder_follows [OF assms]
  with plugin_on_key [OF on] have "i \<in> set order" by blast
  then obtain xs ys where "order = xs @ i # ys" by (meson split_list)
  with f on d show "plugin_on cat d" by (auto simp: follows_requirements_def)
qed

text \<open>C22: the plugins of a catalog have an order exactly if every enabled plugin has its requirements
  enabled and no enabled plugins require each other in a circle; the order then names every
  plugin once, with the requirements of an enabled plugin before it.\<close>

theorem plugins_are_ordered:
  "case dependencyOrder cat of
     Inl e \<Rightarrow> \<not> (requirements_on cat \<and> acyclic (requires_rel cat))
   | Inr order \<Rightarrow> requirements_on cat \<and> acyclic (requires_rel cat) \<and> follows_requirements cat order \<and> set order = fst ` set cat"
proof (cases "dependencyOrder cat")
  case (Inl e)
  then show ?thesis using forR_visit_fails [of _ cat "[]" e] by (auto simp: dependencyOrder_def)
next
  case (Inr order)
  note f = dependencyOrder_follows [OF Inr] and k = dependencyOrder_keys [OF Inr]
  then have in_order: "i \<in> set order" if "plugin_on cat i" for i
    using plugin_on_key [OF that] by blast
  with Inr f k dependencyOrder_requirements [OF Inr] follows_acyclic [OF _ in_order] show ?thesis by simp
qed

end
