(* ===== verification/PluginRegistry.thy ===== *)
theory PluginRegistry
  imports Plugins
begin

text \<open>
  The registry of active contributions (\<open>registry.go\<close>, \<open>registry_validation.go\<close>,
  \<open>renderplan.go\<close>): the checks of a registration, the render plan of a generation, and what the
  registry keeps: no two entries of a plugin, requirements before the plugins that name them, no
  macro or code highlighter twice, and a plan that is the plan of the entries.
\<close>

section \<open>The environment of the manager\<close>

text \<open>
  The package reader and the package type of the SDK, the runtime (\<open>Runtime.Load\<close> with
  \<open>Instance.Contributions\<close>), stored feature settings and their decoding, SHA-256, and the plugins that the
  operator requires.
\<close>

record package =
  pk_manifest :: manifest
  pk_readme :: string
  pk_digest :: string

record host =
  ho_required :: "string list"
  ho_read :: "string \<Rightarrow> plugin_error + package"
  ho_load :: "package \<Rightarrow> plugin_error + contributions"
  ho_value :: "string \<Rightarrow> string \<Rightarrow> string option"
  ho_bool :: "string \<Rightarrow> bool option"
  ho_hash :: "string \<Rightarrow> string"

section \<open>The render plan\<close>

record render_selector =
  sl_plugin :: string
  sl_module :: string
  sl_key :: string
  sl_aware :: bool

record content_binding =
  cg_selector :: render_selector
  cg_module :: callback
  cg_priority :: int
  cg_order :: nat

record preprocessor_binding =
  pg_selector :: render_selector
  pg_module :: callback
  pg_order :: nat

record widget_binding =
  wg_plugin :: string
  wg_module :: string
  wg_surface :: string
  wg_width :: string
  wg_order :: int
  wg_widget :: callback

record render_plan =
  rp_generation :: "64 word"
  rp_content :: "content_binding list"
  rp_preprocessors :: "preprocessor_binding list"
  rp_markdown :: "(render_selector \<times> callback) list"
  rp_highlighter :: "(render_selector \<times> string \<times> callback) option"
  rp_macros :: "string \<rightharpoonup> render_selector \<times> callback"
  rp_postprocessors :: "(render_selector \<times> callback) list"
  rp_widgets :: "widget_binding list"
  rp_policies :: "string list"
  rp_usage :: "(string \<times> source_usage) list"
  rp_fingerprint :: string
  rp_lifetimes :: "nat list"

record plan_builder =
  bl_plan :: render_plan
  bl_seen :: "string list"

definition usage_key :: "string \<Rightarrow> string \<Rightarrow> string" where
  "usage_key plugin module = plugin @ char_of (0::nat) # module"

definition selector :: "string \<Rightarrow> callback \<Rightarrow> plan_builder \<Rightarrow> render_selector \<times> plan_builder" where
  "selector plugin c b =
     (case cb_usage c of
        None \<Rightarrow> (\<lparr>sl_plugin = plugin, sl_module = [], sl_key = [], sl_aware = False\<rparr>, b)
      | Some usage \<Rightarrow>
          let key = (if su_module usage \<noteq> [] then usage_key plugin (su_module usage) else []);
              aware = (su_module usage \<noteq> [] \<and> su_rules usage \<noteq> []);
              s = \<lparr>sl_plugin = plugin, sl_module = su_module usage, sl_key = key, sl_aware = aware\<rparr> in
          if \<not> aware \<or> key \<in> set (bl_seen b) then (s, b)
          else (s, b\<lparr>bl_seen := key # bl_seen b, bl_plan := (bl_plan b)\<lparr>rp_usage := rp_usage (bl_plan b) @ [(plugin, usage)]\<rparr>\<rparr>))"

text \<open>
  One loop of \<open>addEntry\<close>: the selector of each module, then its binding. \<open>Register\<close> has refused nil
  modules (\<open>validateExecutableContributions\<close>), so \<open>None\<close> does not occur.
\<close>

fun add_modules :: "string \<Rightarrow> (render_selector \<Rightarrow> callback \<Rightarrow> render_plan \<Rightarrow> render_plan) \<Rightarrow> callback option list \<Rightarrow>
    plan_builder \<Rightarrow> plan_builder" where
  "add_modules plugin add [] b = b"
| "add_modules plugin add (None # ms) b = add_modules plugin add ms b"
| "add_modules plugin add (Some c # ms) b =
     (let (s, b) = selector plugin c b in add_modules plugin add ms (b\<lparr>bl_plan := add s c (bl_plan b)\<rparr>))"

definition add_content :: "render_selector \<Rightarrow> callback \<Rightarrow> render_plan \<Rightarrow> render_plan" where
  "add_content s c p = p\<lparr>rp_content := rp_content p @ [\<lparr>cg_selector = s, cg_module = c, cg_priority = cb_priority c, cg_order = 0\<rparr>]\<rparr>"

definition add_preprocessor :: "render_selector \<Rightarrow> callback \<Rightarrow> render_plan \<Rightarrow> render_plan" where
  "add_preprocessor s c p =
     p\<lparr>rp_preprocessors := rp_preprocessors p @ [\<lparr>pg_selector = s, pg_module = c, pg_order = length (rp_preprocessors p)\<rparr>]\<rparr>"

definition add_markdown :: "render_selector \<Rightarrow> callback \<Rightarrow> render_plan \<Rightarrow> render_plan" where
  "add_markdown s c p = p\<lparr>rp_markdown := rp_markdown p @ [(s, c)]\<rparr>"

definition add_highlighter :: "string \<Rightarrow> render_selector \<Rightarrow> callback \<Rightarrow> render_plan \<Rightarrow> render_plan" where
  "add_highlighter module s c p = p\<lparr>rp_highlighter := Some (s, module, c)\<rparr>"

definition add_macro :: "render_selector \<Rightarrow> callback \<Rightarrow> render_plan \<Rightarrow> render_plan" where
  "add_macro s c p = p\<lparr>rp_macros := (rp_macros p)(cb_name c \<mapsto> (s, c))\<rparr>"

definition add_postprocessor :: "render_selector \<Rightarrow> callback \<Rightarrow> render_plan \<Rightarrow> render_plan" where
  "add_postprocessor s c p = p\<lparr>rp_postprocessors := rp_postprocessors p @ [(s, c)]\<rparr>"

definition add_widget :: "string \<Rightarrow> widget_module \<Rightarrow> plan_builder \<Rightarrow> plan_builder" where
  "add_widget plugin w b =
     b\<lparr>bl_plan := (bl_plan b)\<lparr>rp_widgets := rp_widgets (bl_plan b) @ [\<lparr>wg_plugin = plugin, wg_module = wm_id w, wg_surface = wm_surface w,
       wg_width = wm_width w, wg_order = wm_order w, wg_widget = wm_widget w\<rparr>]\<rparr>\<rparr>"

definition addEntry :: "plugin_entry \<Rightarrow> plan_builder \<Rightarrow> plan_builder" where
  "addEntry en b =
     (let plugin = ds_id (et_descriptor en); c = et_contributions en;
          b = b\<lparr>bl_plan := (bl_plan b)\<lparr>rp_lifetimes := rp_lifetimes (bl_plan b) @ [et_life en]\<rparr>\<rparr>;
          b = add_modules plugin add_content (ct_content_preprocessors c) b;
          b = add_modules plugin add_preprocessor (ct_preprocessors c) b;
          b = add_modules plugin add_markdown (ct_markdown c) b;
          b = fold (\<lambda>(module, h). add_modules plugin (add_highlighter module) [h]) (ct_highlighters c) b;
          b = add_modules plugin add_macro (ct_macros c) b;
          b = add_modules plugin add_postprocessor (ct_postprocessors c) b;
          b = fold (add_widget plugin) (ct_widgets c) b in
      b\<lparr>bl_plan := (bl_plan b)\<lparr>rp_policies := rp_policies (bl_plan b) @ ct_policies c\<rparr>\<rparr>)"

text \<open>The bytes that the fingerprint is the digest of.\<close>

definition rule_bytes :: "source_rule \<Rightarrow> string" where
  "rule_bytes r = sr_contains r @ char_of (0::nat) # sr_fence r @ char_of (0::nat) # sr_macro r @ char_of (0::nat) #
     sr_substitution r @ [char_of (255::nat)]"

definition usage_bytes :: "(string \<times> source_usage) list \<Rightarrow> string" where
  "usage_bytes us = concat (map (\<lambda>(plugin, u). plugin @ char_of (0::nat) # su_module u @ char_of (0::nat) #
     concat (map rule_bytes (su_rules u)) @ [char_of (254::nat)]) us)"

definition renderUsageFingerprint :: "host \<Rightarrow> (string \<times> source_usage) list \<Rightarrow> string" where
  "renderUsageFingerprint h us = ho_hash h (usage_bytes us)"

definition finish_plan :: "host \<Rightarrow> render_plan \<Rightarrow> render_plan" where
  "finish_plan h p =
     (let content = sort_key cg_priority (rp_content p) in
      p\<lparr>rp_content := map (\<lambda>(i, c). c\<lparr>cg_order := i\<rparr>) (zip [0..<length content] content),
        rp_widgets := sort_key wg_order (rp_widgets p),
        rp_fingerprint := renderUsageFingerprint h (rp_usage p)\<rparr>)"

definition empty_plan :: "64 word \<Rightarrow> render_plan" where
  "empty_plan generation = \<lparr>rp_generation = generation, rp_content = [], rp_preprocessors = [], rp_markdown = [],
     rp_highlighter = None, rp_macros = Map.empty, rp_postprocessors = [], rp_widgets = [], rp_policies = [], rp_usage = [],
     rp_fingerprint = [], rp_lifetimes = []\<rparr>"

definition buildRenderPlan :: "host \<Rightarrow> plugin_entry list \<Rightarrow> 64 word \<Rightarrow> render_plan" where
  "buildRenderPlan h entries generation =
     finish_plan h (bl_plan (fold addEntry entries \<lparr>bl_plan = empty_plan generation, bl_seen = []\<rparr>))"

section \<open>The checks of a registration\<close>

text \<open>\<open>^[a-z0-9][a-z0-9._-]*$\<close>\<close>

definition id_start :: "char \<Rightarrow> bool" where
  "id_start c = (IsLowercaseLetter c \<or> IsDigit c)"

definition validID :: "string \<Rightarrow> bool" where
  "validID s = (case s of [] \<Rightarrow> False
     | c # cs \<Rightarrow> id_start c \<and> list_all (\<lambda>c. id_start c \<or> c = CHR ''.'' \<or> c = CHR ''_'' \<or> c = CHR ''-'') cs)"

record registration_state =
  rs_active :: "string list"
  rs_macros :: "string list"
  rs_highlighter :: string

definition validateDescriptor :: "descriptor \<Rightarrow> plugin_error + unit" where
  "validateDescriptor d = requireR (validID (ds_id d) \<and> ds_name d \<noteq> []) (InvalidDescriptor (ds_id d)) (Inr ())"

definition macro_names :: "contributions \<Rightarrow> string list" where
  "macro_names c = map cb_name (List.map_filter id (ct_macros c))"

definition collectRegistrationState :: "plugin_entry list \<Rightarrow> registration_state" where
  "collectRegistrationState entries =
     \<lparr>rs_active = map (\<lambda>en. ds_id (et_descriptor en)) entries,
      rs_macros = concat (map (\<lambda>en. macro_names (et_contributions en)) entries),
      rs_highlighter = fold (\<lambda>en owner. if ct_highlighters (et_contributions en) \<noteq> [] then ds_id (et_descriptor en) else owner) entries []\<rparr>"

definition validateDependencies :: "descriptor \<Rightarrow> registration_state \<Rightarrow> plugin_error + unit" where
  "validateDependencies d st =
     (if ds_id d \<in> set (rs_active st) then Inl (AlreadyRegistered (ds_id d))
      else forR (ds_requires d) (\<lambda>r u. requireR (r \<in> set (rs_active st)) (RequiresActive (ds_id d) r) (Inr u)) ())"

fun validateMacros :: "string \<Rightarrow> callback option list \<Rightarrow> string list \<Rightarrow> plugin_error + unit" where
  "validateMacros plugin [] names = Inr ()"
| "validateMacros plugin (None # ms) names = Inl (InvalidMacro plugin)"
| "validateMacros plugin (Some c # ms) names =
     (if \<not> validID (cb_name c) then Inl (InvalidMacro plugin)
      else if cb_name c \<in> set names then Inl (MacroTaken (cb_name c))
      else validateMacros plugin ms (cb_name c # names))"

definition no_nil :: "plugin_error \<Rightarrow> callback option list \<Rightarrow> plugin_error + unit" where
  "no_nil err ms = requireR (None \<notin> set ms) err (Inr ())"

definition validateExecutableContributions :: "string \<Rightarrow> contributions \<Rightarrow> plugin_error + unit" where
  "validateExecutableContributions plugin c =
     bindR (no_nil (NilCallback ''content preprocessor'' plugin) (ct_content_preprocessors c)) (\<lambda>_.
     bindR (no_nil (NilCallback ''preprocessor'' plugin) (ct_preprocessors c)) (\<lambda>_.
     bindR (no_nil (NilCallback ''Markdown extension'' plugin) (ct_markdown c)) (\<lambda>_.
     no_nil (NilCallback ''postprocessor'' plugin) (ct_postprocessors c))))"

definition validateCodeHighlighter :: "string \<Rightarrow> (string \<times> callback option) list \<Rightarrow> string \<Rightarrow> plugin_error + unit" where
  "validateCodeHighlighter plugin hs owner =
     (if length hs > 1 then Inl (TooManyHighlighters plugin)
      else if hs = [] then Inr ()
      else if snd (hd hs) = None then Inl (NilCallback ''code highlighter'' plugin)
      else requireR (owner = []) (HighlighterTaken owner) (Inr ()))"

definition named_no_nil :: "string \<Rightarrow> (string \<times> callback option) list \<Rightarrow> plugin_error + unit" where
  "named_no_nil kind ms = forR ms (\<lambda>(i, m) u. requireR (m \<noteq> None) (NilCallback kind i) (Inr u)) ()"

definition validateContributionCallbacks :: "contributions \<Rightarrow> plugin_error + unit" where
  "validateContributionCallbacks c =
     bindR (named_no_nil ''content change handler'' (ct_content_changes c)) (\<lambda>_.
     bindR (named_no_nil ''exporter'' (ct_exporters c)) (\<lambda>_.
     named_no_nil ''admin action'' (ct_actions c)))"

definition check_id :: "string \<Rightarrow> string \<Rightarrow> string list \<Rightarrow> plugin_error + string list" where
  "check_id kind i seen =
     (if \<not> validID i then Inl (InvalidID kind i)
      else if kind @ '':'' @ i \<in> set seen then Inl (InvalidID kind i)
      else Inr ((kind @ '':'' @ i) # seen))"

definition checkAll :: "string \<Rightarrow> string list \<Rightarrow> string list \<Rightarrow> plugin_error + string list" where
  "checkAll kind ids = forR ids (check_id kind)"

definition id_groups :: "contributions \<Rightarrow> (string \<times> string list) list" where
  "id_groups c =
     [(''code-highlighter'', map fst (ct_highlighters c)), (''content-change'', map fst (ct_content_changes c)),
      (''widget'', map wm_id (ct_widgets c)), (''exporter'', map fst (ct_exporters c)), (''browser'', ct_browser c),
      (''editor'', ct_editor c), (''admin-action'', map fst (ct_actions c)), (''admin-resource'', ct_resources c),
      (''editor-completion'', ct_completions c), (''editor-insert'', ct_inserts c), (''editor-menu'', ct_menus c),
      (''settings'', ct_settings c), (''content-style'', ct_styles c), (''render-policy'', ct_policies c)]"

definition validateContributionIDs :: "contributions \<Rightarrow> plugin_error + unit" where
  "validateContributionIDs c =
     bindR (validateContributionCallbacks c) (\<lambda>_.
     bindR (forR (id_groups c) (\<lambda>(kind, ids). checkAll kind ids) []) (\<lambda>_. Inr ()))"

definition validateRegistration :: "descriptor \<Rightarrow> contributions \<Rightarrow> plugin_entry list \<Rightarrow> plugin_error + unit" where
  "validateRegistration d c entries =
     (let st = collectRegistrationState entries in
      bindR (validateDescriptor d) (\<lambda>_.
      bindR (validateDependencies d st) (\<lambda>_.
      bindR (validateMacros (ds_id d) (ct_macros c) (rs_macros st)) (\<lambda>_.
      bindR (validateExecutableContributions (ds_id d) c) (\<lambda>_.
      bindR (validateCodeHighlighter (ds_id d) (ct_highlighters c) (rs_highlighter st)) (\<lambda>_.
      validateContributionIDs c))))))"

section \<open>The registry\<close>

record registry =
  rg_entries :: "plugin_entry list"
  rg_generation :: "64 word"
  rg_plan :: "render_plan option"

definition entry_id :: "plugin_entry \<Rightarrow> string" where
  "entry_id en = ds_id (et_descriptor en)"

definition publishEntries :: "host \<Rightarrow> plugin_entry list \<Rightarrow> registry \<Rightarrow> registry" where
  "publishEntries h entries r =
     r\<lparr>rg_entries := entries, rg_generation := rg_generation r + 1,
       rg_plan := Some (buildRenderPlan h entries (rg_generation r + 1))\<rparr>"

definition rebuildRenderPlan :: "host \<Rightarrow> registry \<Rightarrow> registry" where
  "rebuildRenderPlan h r =
     (let r = (if rg_generation r = 0 then r\<lparr>rg_generation := 1\<rparr> else r) in
      r\<lparr>rg_plan := Some (buildRenderPlan h (rg_entries r) (rg_generation r))\<rparr>)"

text \<open>The new entry gets a lifetime at the address \<open>life\<close>, which the caller takes fresh.\<close>

definition Register :: "host \<Rightarrow> nat \<Rightarrow> descriptor \<Rightarrow> contributions \<Rightarrow> registry \<Rightarrow> plugin_error + registry" where
  "Register h life d c r =
     bindR (validateRegistration d c (rg_entries r)) (\<lambda>_.
     Inr (publishEntries h (rg_entries r @ [\<lparr>et_life = life, et_descriptor = d, et_contributions = c\<rparr>]) r))"

definition entry_index :: "string \<Rightarrow> plugin_entry list \<Rightarrow> nat option" where
  "entry_index i entries =
     (let n = length (takeWhile (\<lambda>en. entry_id en \<noteq> i) entries) in if n < length entries then Some n else None)"

definition remove_at :: "nat \<Rightarrow> 'a list \<Rightarrow> 'a list" where
  "remove_at n xs = take n xs @ drop (Suc n) xs"

definition Unregister :: "host \<Rightarrow> string \<Rightarrow> registry \<Rightarrow> plugin_error + registry" where
  "Unregister h i r =
     (case entry_index i (rg_entries r) of
        None \<Rightarrow> Inl (NotRegistered i)
      | Some n \<Rightarrow>
          bindR (forR (rg_entries r) (\<lambda>en u. requireR (i \<notin> set (ds_requires (et_descriptor en))) (RequiredBy (entry_id en) i) (Inr u)) ())
            (\<lambda>_. Inr (publishEntries h (remove_at n (rg_entries r)) r)))"

section \<open>Transitions\<close>

text \<open>
  \<open>lifetime.go\<close>: a change of the registry is tried on a candidate, then the store commits, then the
  candidate is published. A replacement keeps the position of the entry.
\<close>

definition validateTransitionPresence :: "string \<Rightarrow> (descriptor \<times> contributions) option \<Rightarrow> bool \<Rightarrow> nat option \<Rightarrow> plugin_error + unit" where
  "validateTransitionPresence i replacement replace index =
     (if replacement = None \<or> (index \<noteq> None) = replace then Inr ()
      else if index \<noteq> None then Inl (AlreadyRegistered i) else Inl (NoLongerRegistered i))"

definition insert_at :: "nat \<Rightarrow> 'a \<Rightarrow> 'a list \<Rightarrow> 'a list" where
  "insert_at n x xs = take n xs @ x # drop n xs"

definition moveNewestEntry :: "host \<Rightarrow> nat \<Rightarrow> registry \<Rightarrow> registry" where
  "moveNewestEntry h n r =
     (let entries = insert_at n (last (rg_entries r)) (butlast (rg_entries r)) in
      r\<lparr>rg_entries := entries, rg_plan := Some (buildRenderPlan h entries (rg_generation r))\<rparr>)"

definition transitionCandidate :: "host \<Rightarrow> nat \<Rightarrow> string \<Rightarrow> (descriptor \<times> contributions) option \<Rightarrow> nat option \<Rightarrow> registry \<Rightarrow> plugin_error + registry" where
  "transitionCandidate h life i replacement index r =
     (let candidate = r\<lparr>rg_plan := None\<rparr> in
      case replacement of
        None \<Rightarrow> Unregister h i candidate
      | Some (d, c) \<Rightarrow>
          (case index of
             None \<Rightarrow> Register h life d c candidate
           | Some n \<Rightarrow> bindR (Register h life d c (candidate\<lparr>rg_entries := remove_at n (rg_entries candidate)\<rparr>))
               (\<lambda>candidate. Inr (moveNewestEntry h n candidate))))"

definition entry_catalog :: "plugin_entry list \<Rightarrow> plugin_catalog" where
  "entry_catalog entries = map (\<lambda>en. (entry_id en,
     \<lparr>mp_enabled = True, mp_manifest = \<lparr>mf_id = [], mf_name = [], mf_description = [], mf_version = [], mf_default = False,
        mf_requires = ds_requires (et_descriptor en), mf_modules = [], mf_rest = []\<rparr>,
      mp_readme = [], mp_settings = [], mp_digest = [], mp_instance = None\<rparr>)) entries"

definition validateTransitionDependencies :: "plugin_entry list \<Rightarrow> plugin_error + unit" where
  "validateTransitionDependencies entries = bindR (dependencyOrder (entry_catalog entries)) (\<lambda>_. Inr ())"

definition transitionLifetime :: "plugin_entry list \<Rightarrow> nat option \<Rightarrow> nat option" where
  "transitionLifetime entries index = map_option (\<lambda>n. et_life (entries ! n)) index"

definition transition :: "host \<Rightarrow> nat \<Rightarrow> string \<Rightarrow> (descriptor \<times> contributions) option \<Rightarrow> bool \<Rightarrow> (plugin_error + 's) \<Rightarrow>
    registry \<Rightarrow> plugin_error + (nat option \<times> registry \<times> 's)" where
  "transition h life i replacement replace commit r =
     (let index = entry_index i (rg_entries r) in
      bindR (validateTransitionPresence i replacement replace index) (\<lambda>_.
      bindR (transitionCandidate h life i replacement index r) (\<lambda>candidate.
      bindR (validateTransitionDependencies (rg_entries candidate)) (\<lambda>_.
      bindR commit (\<lambda>st. Inr (transitionLifetime (rg_entries r) index, candidate, st))))))"

definition initialize :: "host \<Rightarrow> plugin_entry list \<Rightarrow> registry \<Rightarrow> plugin_error + registry" where
  "initialize h entries r = requireR (rg_entries r = []) RegistryNotEmpty (Inr (publishEntries h entries r))"

definition detach :: "host \<Rightarrow> string list \<Rightarrow> registry \<Rightarrow> registry" where
  "detach h ids r =
     (let entries = filter (\<lambda>en. entry_id en \<notin> set ids) (rg_entries r) in
      if length entries \<noteq> length (rg_entries r) then publishEntries h entries r else r)"

section \<open>What the registry keeps\<close>

lemma selector_lifetimes: "rp_lifetimes (bl_plan (snd (selector plugin c b))) = rp_lifetimes (bl_plan b)"
  by (simp add: selector_def Let_def split: option.split)

lemma add_modules_lifetimes:
  assumes "\<And>s c p. rp_lifetimes (add s c p) = rp_lifetimes p"
  shows "rp_lifetimes (bl_plan (add_modules plugin add ms b)) = rp_lifetimes (bl_plan b)"
proof (induction ms arbitrary: b)
  case (Cons m ms)
  then show ?case
    by (cases m; cases "selector plugin (the m) b")
      (use assms selector_lifetimes [of plugin "the m" b] in \<open>auto\<close>)
qed simp

lemma fold_lifetimes:
  assumes "\<And>x b. rp_lifetimes (bl_plan (f x b)) = rp_lifetimes (bl_plan b)"
  shows "rp_lifetimes (bl_plan (fold f xs b)) = rp_lifetimes (bl_plan b)"
  by (induction xs arbitrary: b) (simp_all add: assms)

lemmas add_defs = add_content_def add_preprocessor_def add_markdown_def add_highlighter_def add_macro_def
  add_postprocessor_def add_widget_def

lemma addEntry_lifetimes: "rp_lifetimes (bl_plan (addEntry en b)) = rp_lifetimes (bl_plan b) @ [et_life en]"
  by (simp add: addEntry_def Let_def add_modules_lifetimes fold_lifetimes add_defs split_beta)

lemma plan_lifetimes: "rp_lifetimes (buildRenderPlan h entries g) = map et_life entries"
proof -
  have "rp_lifetimes (bl_plan (fold addEntry entries b)) = rp_lifetimes (bl_plan b) @ map et_life entries" for b
    by (induction entries arbitrary: b) (simp_all add: addEntry_lifetimes)
  then show ?thesis by (simp add: buildRenderPlan_def finish_plan_def empty_plan_def Let_def)
qed

text \<open>Of the entries whatever their order, and of the registry.\<close>

definition entries_ok :: "plugin_entry list \<Rightarrow> bool" where
  "entries_ok entries =
     (distinct (map entry_id entries) \<and> [] \<notin> entry_id ` set entries \<and>
      distinct (concat (map (\<lambda>en. macro_names (et_contributions en)) entries)) \<and>
      length (concat (map (\<lambda>en. ct_highlighters (et_contributions en)) entries)) \<le> 1)"

definition requirements_active :: "plugin_entry list \<Rightarrow> bool" where
  "requirements_active entries = (\<forall>en\<in>set entries. set (ds_requires (et_descriptor en)) \<subseteq> entry_id ` set entries)"

definition registry_ok :: "host \<Rightarrow> registry \<Rightarrow> bool" where
  "registry_ok h r =
     (entries_ok (rg_entries r) \<and> requirements_active (rg_entries r) \<and>
      (\<forall>p. rg_plan r = Some p \<longrightarrow> p = buildRenderPlan h (rg_entries r) (rg_generation r)))"

lemma forR_require [simp]:
  "forR xs (\<lambda>x _. requireR (P x) (err x) (Inr ())) () = Inr u \<longleftrightarrow> list_all P xs"
  by (induction xs) (auto simp: requireR_def)

lemma validateMacros_ok:
  "validateMacros plugin ms names = Inr u \<Longrightarrow>
   distinct (map cb_name (List.map_filter id ms)) \<and> set (map cb_name (List.map_filter id ms)) \<inter> set names = {}"
  by (induction plugin ms names rule: validateMacros.induct) (auto simp: List.map_filter_def split: if_splits)

lemma owner_no_highlighters:
  "fold (\<lambda>en owner. if hs en \<noteq> [] then i en else owner) es ow = [] \<Longrightarrow> \<forall>en\<in>set es. i en \<noteq> [] \<Longrightarrow>
   ow = [] \<and> (\<forall>en\<in>set es. hs en = [])"
proof (induction es arbitrary: ow)
  case (Cons en es)
  from Cons.prems have "i en \<noteq> []" and rest: "\<forall>en\<in>set es. i en \<noteq> []" by auto
  from Cons.IH [OF Cons.prems(1) [unfolded fold_simps] rest] this(1) show ?case by (cases "hs en = []") auto
qed simp

lemma entries_ok_mset: "mset es = mset es' \<Longrightarrow> entries_ok es = entries_ok es'"
proof -
  assume m: "mset es = mset es'"
  have c: "mset (concat (map f es)) = mset (concat (map f es'))" for f :: "plugin_entry \<Rightarrow> 'b list"
    by (metis m mset_concat mset_map sum_mset_sum_list)
  have s: "set es = set es'" using m by (rule mset_eq_setD)
  have d: "distinct (map entry_id es) = distinct (map entry_id es')"
    by (rule mset_eq_imp_distinct_iff) (simp add: m)
  show ?thesis
    unfolding entries_ok_def s d mset_eq_imp_distinct_iff [OF c] mset_eq_length [OF c] ..
qed

lemma entries_ok_append1: "entries_ok (es @ [en]) \<Longrightarrow> entries_ok es"
  by (auto simp: entries_ok_def)

lemma mset_remove_at: "n < length xs \<Longrightarrow> mset xs = mset (remove_at n xs @ [xs ! n])"
  by (subst id_take_nth_drop [of n xs]) (simp_all add: remove_at_def)

lemma mset_insert_at: "mset (insert_at n x xs) = add_mset x (mset xs)"
  by (simp add: insert_at_def flip: union_code mset_append)

lemma entry_index_Some:
  assumes "entry_index i es = Some n"
  shows "n < length es" "entry_id (es ! n) = i"
proof -
  from assms show n: "n < length es" by (auto simp: entry_index_def Let_def split: if_splits)
  from assms have "n = length (takeWhile (\<lambda>en. entry_id en \<noteq> i) es)"
    by (auto simp: entry_index_def Let_def split: if_splits)
  with n show "entry_id (es ! n) = i" using nth_length_takeWhile [of "\<lambda>en. entry_id en \<noteq> i" es] by simp
qed

lemma entry_index_None: "entry_index i es = None \<longleftrightarrow> i \<notin> entry_id ` set es"
proof -
  have "length (takeWhile (\<lambda>en. entry_id en \<noteq> i) es) = length es \<longleftrightarrow> i \<notin> entry_id ` set es"
    by (induction es) auto
  then show ?thesis
    using length_takeWhile_le [of "\<lambda>en. entry_id en \<noteq> i" es] by (auto simp: entry_index_def Let_def split: if_splits)
qed

lemma Register_ok:
  assumes "Register h life d c r = Inr r'" and "entries_ok (rg_entries r)"
  defines "en \<equiv> \<lparr>et_life = life, et_descriptor = d, et_contributions = c\<rparr>"
  shows "r' = publishEntries h (rg_entries r @ [en]) r \<and> entries_ok (rg_entries r @ [en]) \<and>
    set (ds_requires d) \<subseteq> entry_id ` set (rg_entries r) \<and> ds_id d \<notin> entry_id ` set (rg_entries r)"
proof -
  let ?st = "collectRegistrationState (rg_entries r)"
  from assms(1) have r': "r' = publishEntries h (rg_entries r @ [en]) r"
    and v: "validateDescriptor d = Inr ()" "validateDependencies d ?st = Inr ()"
      "validateMacros (ds_id d) (ct_macros c) (rs_macros ?st) = Inr ()"
      "validateCodeHighlighter (ds_id d) (ct_highlighters c) (rs_highlighter ?st) = Inr ()"
    by (auto simp: Register_def validateRegistration_def Let_def result_simps en_def)
  from v(1) have "ds_id d \<noteq> []" by (auto simp: validateDescriptor_def validID_def requireR_def split: if_splits)
  moreover from v(2) have "ds_id d \<notin> entry_id ` set (rg_entries r)" "set (ds_requires d) \<subseteq> entry_id ` set (rg_entries r)"
    by (auto simp: validateDependencies_def collectRegistrationState_def entry_id_def list_all_iff split: if_splits)
  moreover have "distinct (macro_names c)"
    "set (macro_names c) \<inter> set (concat (map (\<lambda>en. macro_names (et_contributions en)) (rg_entries r))) = {}"
    using validateMacros_ok [OF v(3)] unfolding macro_names_def collectRegistrationState_def by simp_all
  moreover have "length (concat (map (\<lambda>en. ct_highlighters (et_contributions en)) (rg_entries r @ [en]))) \<le> 1"
  proof (cases "ct_highlighters c = []")
    case True
    with assms(2) show ?thesis by (simp add: en_def entries_ok_def)
  next
    case False
    with v(4) have "rs_highlighter ?st = []" "length (ct_highlighters c) \<le> 1"
      by (auto simp: validateCodeHighlighter_def requireR_def split: if_splits)
    moreover have "\<forall>en\<in>set (rg_entries r). entry_id en \<noteq> []"
      using assms(2) unfolding entries_ok_def by force
    moreover have "rs_highlighter ?st = fold (\<lambda>en owner. if ct_highlighters (et_contributions en) \<noteq> [] then entry_id en else owner) (rg_entries r) []"
      unfolding collectRegistrationState_def entry_id_def registration_state.select_convs ..
    ultimately have none: "\<forall>en\<in>set (rg_entries r). ct_highlighters (et_contributions en) = []" and one: "length (ct_highlighters c) \<le> 1"
      using owner_no_highlighters [of "\<lambda>en. ct_highlighters (et_contributions en)" entry_id "rg_entries r" "[]"] by metis+
    from none have nil: "concat (map (\<lambda>en. ct_highlighters (et_contributions en)) (rg_entries r)) = []" by simp
    show ?thesis unfolding map_append concat_append nil using one by (simp add: en_def)
  qed
  ultimately show ?thesis
    using r' assms(2) by (simp add: entries_ok_def en_def entry_id_def inf_commute)
qed

text \<open>The entries after a transition.\<close>

definition replaced_entries :: "nat \<Rightarrow> string \<Rightarrow> (descriptor \<times> contributions) option \<Rightarrow> plugin_entry list \<Rightarrow> plugin_entry list" where
  "replaced_entries life i replacement es =
     (case (replacement, entry_index i es) of
        (Some (d, c), Some n) \<Rightarrow> es[n := \<lparr>et_life = life, et_descriptor = d, et_contributions = c\<rparr>]
      | (Some (d, c), None) \<Rightarrow> es @ [\<lparr>et_life = life, et_descriptor = d, et_contributions = c\<rparr>]
      | (None, Some n) \<Rightarrow> remove_at n es
      | (None, None) \<Rightarrow> es)"

lemma insert_remove_at: "n < length xs \<Longrightarrow> insert_at n x (remove_at n xs) = xs[n := x]"
  by (simp add: insert_at_def remove_at_def upd_conv_take_nth_drop)

lemma entry_catalog_lookup:
  assumes "distinct (map entry_id es)" and "en \<in> set es"
  shows "plugin_on (entry_catalog es) (entry_id en) \<and> plugin_requires (entry_catalog es) (entry_id en) = ds_requires (et_descriptor en)"
proof -
  have "distinct (map fst (entry_catalog es))" using assms(1) by (simp add: entry_catalog_def comp_def)
  moreover have "(entry_id en, \<lparr>mp_enabled = True, mp_manifest = \<lparr>mf_id = [], mf_name = [], mf_description = [], mf_version = [],
      mf_default = False, mf_requires = ds_requires (et_descriptor en), mf_modules = [], mf_rest = []\<rparr>,
      mp_readme = [], mp_settings = [], mp_digest = [], mp_instance = None\<rparr>) \<in> set (entry_catalog es)"
    using assms(2) by (auto simp: entry_catalog_def)
  ultimately show ?thesis by (simp add: plugin_on_def plugin_requires_def map_of_is_SomeI)
qed

lemma entry_catalog_keys: "fst ` set (entry_catalog es) = entry_id ` set es"
  by (force simp: entry_catalog_def)

lemma requirements_from_order:
  assumes "validateTransitionDependencies es = Inr u" and "distinct (map entry_id es)"
  shows "requirements_active es"
  unfolding requirements_active_def
proof (intro ballI subsetI)
  fix en d assume en: "en \<in> set es" and d: "d \<in> set (ds_requires (et_descriptor en))"
  from assms(1) obtain order where "dependencyOrder (entry_catalog es) = Inr order"
    by (auto simp: validateTransitionDependencies_def result_simps)
  then have "requirements_on (entry_catalog es)" by (rule dependencyOrder_requirements)
  with entry_catalog_lookup [OF assms(2) en] d have "plugin_on (entry_catalog es) d"
    by (auto simp: requirements_on_def)
  then show "d \<in> entry_id ` set es" using plugin_on_key entry_catalog_keys by metis
qed

lemma transition_entries:
  assumes t: "transition h life i replacement replace commit r = Inr (old, r', st)" and ok: "entries_ok (rg_entries r)"
  shows "rg_entries r' = replaced_entries life i replacement (rg_entries r) \<and> registry_ok h r' \<and> rg_plan r' \<noteq> None \<and>
    old = map_option (\<lambda>n. et_life (rg_entries r ! n)) (entry_index i (rg_entries r)) \<and> commit = Inr st \<and>
    (replacement = None \<longrightarrow> entry_index i (rg_entries r) \<noteq> None) \<and>
    (replacement \<noteq> None \<longrightarrow> (entry_index i (rg_entries r) \<noteq> None) = replace)"
proof -
  let ?es = "rg_entries r" and ?index = "entry_index i (rg_entries r)"
  from t have p: "validateTransitionPresence i replacement replace ?index = Inr ()"
    and cand: "transitionCandidate h life i replacement ?index r = Inr r'"
    and deps: "validateTransitionDependencies (rg_entries r') = Inr ()" and "commit = Inr st"
    and old: "old = map_option (\<lambda>n. et_life (?es ! n)) ?index"
    by (auto simp: transition_def Let_def result_simps transitionLifetime_def)
  have "rg_entries r' = replaced_entries life i replacement ?es \<and> entries_ok (rg_entries r') \<and>
    rg_plan r' = Some (buildRenderPlan h (rg_entries r') (rg_generation r')) \<and> (replacement = None \<longrightarrow> ?index \<noteq> None)"
  proof (cases replacement)
    case None
    with cand obtain n where n: "?index = Some n" and r': "r' = publishEntries h (remove_at n ?es) (r\<lparr>rg_plan := None\<rparr>)"
      by (auto simp: transitionCandidate_def Unregister_def Let_def result_simps split: option.splits)
    have "entries_ok (remove_at n ?es)"
      using ok mset_remove_at [OF entry_index_Some(1) [OF n]] entries_ok_mset entries_ok_append1 by metis
    with n r' None show ?thesis by (simp add: replaced_entries_def publishEntries_def)
  next
    case (Some dc)
    obtain d c where dc: "dc = (d, c)" by (cases dc)
    let ?en = "\<lparr>et_life = life, et_descriptor = d, et_contributions = c\<rparr>"
    show ?thesis
    proof (cases ?index)
      case None
      with cand Some dc have "Register h life d c (r\<lparr>rg_plan := None\<rparr>) = Inr r'"
        by (simp add: transitionCandidate_def)
      from Register_ok [OF this] ok None Some dc show ?thesis
        by (simp add: replaced_entries_def publishEntries_def)
    next
      case n: (Some n)
      let ?rest = "remove_at n ?es"
      from cand Some dc n obtain r1 where r1: "Register h life d c (r\<lparr>rg_plan := None, rg_entries := ?rest\<rparr>) = Inr r1"
        and r': "r' = moveNewestEntry h n r1"
        by (auto simp: transitionCandidate_def result_simps)
      have rest: "entries_ok ?rest"
        using ok mset_remove_at [OF entry_index_Some(1) [OF n]] entries_ok_mset entries_ok_append1 by metis
      with Register_ok [OF r1] have e: "rg_entries r1 = ?rest @ [?en]" "entries_ok (?rest @ [?en])"
        by (simp_all add: publishEntries_def)
      have "rg_entries r' = ?es[n := ?en]"
        using entry_index_Some(1) [OF n] by (simp add: r' moveNewestEntry_def e insert_remove_at Let_def)
      moreover have "entries_ok (rg_entries r')"
        using e(2) by (subst entries_ok_mset [of _ "?rest @ [?en]"]) (simp_all add: r' moveNewestEntry_def e(1) Let_def mset_insert_at)
      ultimately show ?thesis
        using Some dc n by (simp add: replaced_entries_def r' moveNewestEntry_def Let_def)
    qed
  qed
  with deps requirements_from_order [OF deps] old \<open>commit = Inr st\<close> p show ?thesis
    by (auto simp: registry_ok_def entries_ok_def validateTransitionPresence_def split: if_splits)
qed

end
