(* ===== verification/PluginLifecycle.thy ===== *)
theory PluginLifecycle
  imports PluginRegistry "HOL-Library.AList"
begin

text \<open>
  The plugin manager (\<open>manager.go\<close>, \<open>lifecycle.go\<close>, \<open>bootstrap.go\<close>), the lifetimes of entries
  (\<open>lifetime.go\<close>) and the installations in the database (\<open>postgres/plugin_installations.go\<close>).
  Lifetimes and runtime instances are shared objects: lists of the state, addressed by their
  index. An operation of the manager holds its lock to the end, but leases are taken and released
  beside it and instances close later; the steps of that interleaving are those of
  \<open>plugin_step\<close>. Closing an instance does not fail in the model, a lease is
  taken and released as one step although the code goes through its lifetimes one by one, and
  \<open>Close\<close> retires the plugins in the order of the list and not of a Go map.
\<close>

section \<open>The store\<close>

record install =
  in_enabled :: bool
  in_manifest :: manifest
  in_digest :: string
  in_readme :: string

record plugin_store =
  st_installs :: "(string \<times> install) list"
  st_packages :: "((string \<times> string) \<times> string) list"

definition ListPlugins :: "plugin_store \<Rightarrow> (string \<times> install) list" where
  "ListPlugins st = sort_key fst (st_installs st)"

definition PluginPackage :: "string \<Rightarrow> string \<Rightarrow> plugin_store \<Rightarrow> plugin_error + string" where
  "PluginPackage i digest st =
     (case map_of (st_packages st) (i, digest) of None \<Rightarrow> Inl (External ''no rows in result set'') | Some archive \<Rightarrow> Inr archive)"

text \<open>A seed that finds the plugin installed is rolled back with its package.\<close>

definition persistPlugin :: "string \<Rightarrow> install \<Rightarrow> string \<Rightarrow> bool \<Rightarrow> plugin_store \<Rightarrow> plugin_store" where
  "persistPlugin i r archive replace st =
     (let packages = (if map_of (st_packages st) (i, in_digest r) = None then ((i, in_digest r), archive) # st_packages st else st_packages st) in
      if map_of (st_installs st) i \<noteq> None \<and> \<not> replace then st
      else st\<lparr>st_installs := AList.update i r (st_installs st), st_packages := packages\<rparr>)"

definition SeedPlugin :: "string \<Rightarrow> install \<Rightarrow> string \<Rightarrow> plugin_store \<Rightarrow> plugin_store" where
  "SeedPlugin i r archive st = persistPlugin i r archive False st"

definition SavePlugin :: "string \<Rightarrow> install \<Rightarrow> string \<Rightarrow> plugin_store \<Rightarrow> plugin_store" where
  "SavePlugin i r archive st = persistPlugin i r archive True st"

definition SetPluginEnabled :: "string \<Rightarrow> bool \<Rightarrow> plugin_store \<Rightarrow> plugin_error + plugin_store" where
  "SetPluginEnabled i on st =
     (case map_of (st_installs st) i of
        None \<Rightarrow> Inl (NotInstalled i)
      | Some r \<Rightarrow> Inr (st\<lparr>st_installs := AList.update i (r\<lparr>in_enabled := on\<rparr>) (st_installs st)\<rparr>))"

definition DeletePlugin :: "string \<Rightarrow> plugin_store \<Rightarrow> plugin_store" where
  "DeletePlugin i st = st\<lparr>st_installs := AList.delete i (st_installs st)\<rparr>"

section \<open>The state\<close>

text \<open>A lifetime; \<open>lt_instance\<close> is the instance of its entry, which the code does not store.\<close>

record lifetime =
  lt_refs :: int
  lt_retired :: bool
  lt_done :: bool
  lt_instance :: nat

record plugin_instance =
  pi_open :: bool
  pi_contributions :: contributions

record retirement =
  re_life :: "nat option"
  re_instance :: nat
  re_done :: bool

text \<open>
  \<open>sy_retiring\<close> holds the calls of \<open>retire\<close> that the operation under way has yet to make, \<open>sy_leases\<close> the
  leases that have not been released, \<open>sy_panic\<close> whether a closed channel was closed again.
\<close>

record plugin_system =
  sy_registry :: registry
  sy_lifetimes :: "lifetime list"
  sy_instances :: "plugin_instance list"
  sy_loaded :: plugin_catalog
  sy_order :: "string list"
  sy_closed :: bool
  sy_retirements :: "retirement list"
  sy_retiring :: "(nat option \<times> nat) list"
  sy_leases :: "nat list list"
  sy_store :: plugin_store
  sy_panic :: bool

section \<open>Lifetimes\<close>

definition newLifetime :: "nat \<Rightarrow> lifetime" where
  "newLifetime n = \<lparr>lt_refs = 0, lt_retired = False, lt_done = False, lt_instance = n\<rparr>"

definition set_life :: "nat \<Rightarrow> lifetime \<Rightarrow> plugin_system \<Rightarrow> plugin_system" where
  "set_life a l sy = sy\<lparr>sy_lifetimes := (sy_lifetimes sy)[a := l]\<rparr>"

definition acquire :: "nat \<Rightarrow> plugin_system \<Rightarrow> plugin_system" where
  "acquire a sy = (let l = sy_lifetimes sy ! a in set_life a (l\<lparr>lt_refs := lt_refs l + 1\<rparr>) sy)"

text \<open>\<open>close(l.done)\<close>, if the lifetime is retired and no longer referred to.\<close>

definition close_done :: "nat \<Rightarrow> lifetime \<Rightarrow> plugin_system \<Rightarrow> plugin_system" where
  "close_done a l sy =
     (if lt_refs l = 0 then set_life a (l\<lparr>lt_done := True\<rparr>) (sy\<lparr>sy_panic := sy_panic sy \<or> lt_done l\<rparr>) else set_life a l sy)"

definition release_life :: "nat \<Rightarrow> plugin_system \<Rightarrow> plugin_system" where
  "release_life a sy =
     (let l = sy_lifetimes sy ! a; l = l\<lparr>lt_refs := lt_refs l - 1\<rparr> in
      if lt_retired l then close_done a l sy else set_life a l sy)"

definition retire_life :: "nat \<Rightarrow> plugin_system \<Rightarrow> plugin_system" where
  "retire_life a sy = (let l = sy_lifetimes sy ! a in close_done a (l\<lparr>lt_retired := True\<rparr>) sy)"

definition close_instance :: "nat \<Rightarrow> plugin_system \<Rightarrow> plugin_system" where
  "close_instance n sy = sy\<lparr>sy_instances := (sy_instances sy)[n := (sy_instances sy ! n)\<lparr>pi_open := False\<rparr>]\<rparr>"

text \<open>\<open>Manager.retire\<close>; the last branch leaves the closing to the goroutine, the step \<open>finish\<close>.\<close>

definition retire :: "nat option \<Rightarrow> nat \<Rightarrow> plugin_system \<Rightarrow> plugin_system" where
  "retire life n sy =
     (let sy = sy\<lparr>sy_retirements := filter (\<lambda>r. \<not> re_done r) (sy_retirements sy)\<rparr> in
      case life of
        None \<Rightarrow> close_instance n (sy\<lparr>sy_retirements := sy_retirements sy @ [\<lparr>re_life = None, re_instance = n, re_done = True\<rparr>]\<rparr>)
      | Some a \<Rightarrow>
          let sy = retire_life a sy in
          if lt_done (sy_lifetimes sy ! a)
          then close_instance n (sy\<lparr>sy_retirements := sy_retirements sy @ [\<lparr>re_life = Some a, re_instance = n, re_done = True\<rparr>]\<rparr>)
          else sy\<lparr>sy_retirements := sy_retirements sy @ [\<lparr>re_life = Some a, re_instance = n, re_done = False\<rparr>]\<rparr>)"

section \<open>Operations of the manager\<close>

definition is_required :: "host \<Rightarrow> string \<Rightarrow> bool" where
  "is_required h i = (i \<in> set (ho_required h))"

definition to_descriptor :: "manifest \<Rightarrow> descriptor" where
  "to_descriptor m = \<lparr>ds_id = mf_id m, ds_name = mf_name m, ds_description = mf_description m, ds_default = mf_default m,
     ds_requires = mf_requires m\<rparr>"

definition recordFor :: "managed_plugin \<Rightarrow> install" where
  "recordFor p = \<lparr>in_enabled = mp_enabled p, in_manifest = mp_manifest p, in_digest = mp_digest p, in_readme = mp_readme p\<rparr>"

definition featureSettingStorageKey :: "string \<Rightarrow> string" where
  "featureSettingStorageKey i = ''feature:'' @ i"

definition loadSettings :: "host \<Rightarrow> manifest \<Rightarrow> plugin_error + (string \<times> bool) list" where
  "loadSettings h m =
     forR (mf_modules m) (\<lambda>md settings.
       if mm_type md \<noteq> ''settings'' \<or> mm_fields md \<noteq> 0 then Inr settings
       else (case ho_value h (mf_id m) (featureSettingStorageKey (mm_id md)) of
           None \<Rightarrow> Inr (AList.update (mm_id md) True settings)
         | Some v \<Rightarrow> (case ho_bool h v of
             None \<Rightarrow> Inl (External ''decode plugin setting'')
           | Some on \<Rightarrow> Inr (AList.update (mm_id md) on settings)))) []"

definition metadataFromPackage :: "host \<Rightarrow> package \<Rightarrow> bool \<Rightarrow> plugin_error + managed_plugin" where
  "metadataFromPackage h pkg on =
     bindR (loadSettings h (pk_manifest pkg)) (\<lambda>settings.
     Inr \<lparr>mp_enabled = on, mp_manifest = pk_manifest pkg, mp_readme = pk_readme pkg, mp_settings = settings,
       mp_digest = pk_digest pkg, mp_instance = None\<rparr>)"

text \<open>A new instance gets the next address.\<close>

definition load_instance :: "host \<Rightarrow> package \<Rightarrow> plugin_system \<Rightarrow> plugin_error + (nat \<times> plugin_system)" where
  "load_instance h pkg sy =
     bindR (ho_load h pkg) (\<lambda>c. let n = length (sy_instances sy) in
       Inr (n, sy\<lparr>sy_instances := sy_instances sy @ [\<lparr>pi_open = True, pi_contributions = c\<lparr>ct_instance := n\<rparr>\<rparr>]\<rparr>))"

definition prepare_plugin :: "host \<Rightarrow> package \<Rightarrow> bool \<Rightarrow> plugin_system \<Rightarrow> plugin_error + (managed_plugin \<times> plugin_system)" where
  "prepare_plugin h pkg on sy =
     (let on = (on \<or> is_required h (mf_id (pk_manifest pkg))) in
      bindR (metadataFromPackage h pkg on) (\<lambda>item.
      if on then bindR (load_instance h pkg sy) (\<lambda>(n, sy). Inr (item\<lparr>mp_instance := Some n\<rparr>, sy))
      else Inr (item, sy)))"

definition close_new :: "managed_plugin \<Rightarrow> plugin_system \<Rightarrow> plugin_system" where
  "close_new item sy = (case mp_instance item of None \<Rightarrow> sy | Some n \<Rightarrow> close_instance n sy)"

definition loaded_instance :: "string \<Rightarrow> plugin_system \<Rightarrow> nat option" where
  "loaded_instance i sy = (case map_of (sy_loaded sy) i of None \<Rightarrow> None | Some p \<Rightarrow> mp_instance p)"

definition commit_plugin :: "string \<Rightarrow> managed_plugin \<Rightarrow> string option \<Rightarrow> plugin_store \<Rightarrow> plugin_error + plugin_store" where
  "commit_plugin i item archive st =
     (case archive of None \<Rightarrow> SetPluginEnabled i (mp_enabled item) st | Some a \<Rightarrow> Inr (SavePlugin i (recordFor item) a st))"

text \<open>What the registry publishes for an item: nothing without an instance.\<close>

definition publish_entry :: "host \<Rightarrow> string \<Rightarrow> managed_plugin \<Rightarrow> string option \<Rightarrow> plugin_system \<Rightarrow>
    plugin_error + (nat option \<times> registry \<times> plugin_store)" where
  "publish_entry h i item archive sy =
     (let commit = commit_plugin i item archive (sy_store sy); r = sy_registry sy; life = length (sy_lifetimes sy) in
      case mp_instance item of
        Some n \<Rightarrow> transition h life i (Some (to_descriptor (mp_manifest item), pi_contributions (sy_instances sy ! n)))
          (loaded_instance i sy \<noteq> None) commit r
      | None \<Rightarrow>
          if loaded_instance i sy \<noteq> None then transition h life i None True commit r
          else bindR commit (\<lambda>st. Inr (None, r, st)))"

definition new_life :: "managed_plugin \<Rightarrow> lifetime list" where
  "new_life item = (case mp_instance item of None \<Rightarrow> [] | Some n \<Rightarrow> [newLifetime n])"

definition to_retire :: "nat option \<Rightarrow> nat option \<Rightarrow> (nat option \<times> nat) list" where
  "to_retire old inst = (case inst of None \<Rightarrow> [] | Some n \<Rightarrow> [(old, n)])"

definition publish :: "host \<Rightarrow> string \<Rightarrow> managed_plugin \<Rightarrow> string option \<Rightarrow> plugin_system \<Rightarrow> plugin_error option \<times> plugin_system" where
  "publish h i item archive sy =
     (case dependencyOrder (AList.update i item (sy_loaded sy)) of
        Inl err \<Rightarrow> (Some err, close_new item sy)
      | Inr order \<Rightarrow>
          (case publish_entry h i item archive sy of
             Inl err \<Rightarrow> (Some err, close_new item sy)
           | Inr (old, r, st) \<Rightarrow>
               (None, sy\<lparr>sy_registry := r, sy_store := st, sy_loaded := AList.update i item (sy_loaded sy), sy_order := order,
                  sy_lifetimes := sy_lifetimes sy @ new_life item,
                  sy_retiring := sy_retiring sy @ to_retire old (loaded_instance i sy)\<rparr>)))"

definition find_plugin :: "string \<Rightarrow> plugin_system \<Rightarrow> plugin_error + managed_plugin" where
  "find_plugin i sy =
     (if sy_closed sy then Inl ManagerClosed
      else case map_of (sy_loaded sy) i of None \<Rightarrow> Inl (NotInstalled i) | Some p \<Rightarrow> Inr p)"

text \<open>An operation that ends in an error before it has changed anything, or goes on.\<close>

definition tryS :: "plugin_error + 'a \<Rightarrow> plugin_system \<Rightarrow> ('a \<Rightarrow> plugin_error option \<times> plugin_system) \<Rightarrow> plugin_error option \<times> plugin_system" where
  "tryS m sy f = (case m of Inl err \<Rightarrow> (Some err, sy) | Inr x \<Rightarrow> f x)"

definition Install :: "host \<Rightarrow> string \<Rightarrow> plugin_system \<Rightarrow> plugin_error option \<times> plugin_system" where
  "Install h archive sy =
     tryS (ho_read h archive) sy (\<lambda>pkg.
     let i = mf_id (pk_manifest pkg) in
     if sy_closed sy then (Some ManagerClosed, sy)
     else if map_of (sy_loaded sy) i \<noteq> None then (Some (AlreadyInstalled i), sy)
     else tryS (prepare_plugin h pkg True sy) sy (\<lambda>(item, sy). publish h i item (Some archive) sy))"

definition packageMatchesInventory :: "package \<Rightarrow> managed_plugin \<Rightarrow> bool" where
  "packageMatchesInventory pkg item = (pk_digest pkg = mp_digest item \<and> pk_manifest pkg = mp_manifest item)"

definition readPackage :: "host \<Rightarrow> managed_plugin \<Rightarrow> plugin_store \<Rightarrow> plugin_error + package" where
  "readPackage h item st =
     bindR (PluginPackage (mf_id (mp_manifest item)) (mp_digest item) st) (\<lambda>archive.
     bindR (ho_read h archive) (\<lambda>pkg.
     requireR (packageMatchesInventory pkg item) PackageMismatch (Inr pkg)))"

definition Enable :: "host \<Rightarrow> string \<Rightarrow> plugin_system \<Rightarrow> plugin_error option \<times> plugin_system" where
  "Enable h i sy =
     tryS (find_plugin i sy) sy (\<lambda>item.
     if mp_enabled item then (None, sy)
     else tryS (readPackage h item (sy_store sy)) sy (\<lambda>pkg.
       tryS (prepare_plugin h pkg True sy) sy (\<lambda>(item, sy). publish h i item None sy)))"

definition Disable :: "host \<Rightarrow> string \<Rightarrow> plugin_system \<Rightarrow> plugin_error option \<times> plugin_system" where
  "Disable h i sy =
     (if is_required h i then (Some RequiredPlugin, sy)
      else tryS (find_plugin i sy) sy (\<lambda>item.
        if \<not> mp_enabled item then (None, sy)
        else publish h i (item\<lparr>mp_instance := None, mp_enabled := False\<rparr>) None sy))"

definition Upgrade :: "host \<Rightarrow> string \<Rightarrow> string \<Rightarrow> plugin_system \<Rightarrow> plugin_error option \<times> plugin_system" where
  "Upgrade h i archive sy =
     tryS (ho_read h archive) sy (\<lambda>pkg.
     if mf_id (pk_manifest pkg) \<noteq> i then (Some UpgradeMismatch, sy)
     else tryS (find_plugin i sy) sy (\<lambda>previous.
       tryS (prepare_plugin h pkg (mp_enabled previous) sy) sy (\<lambda>(item, sy). publish h i item (Some archive) sy)))"

definition Uninstall :: "host \<Rightarrow> string \<Rightarrow> plugin_system \<Rightarrow> plugin_error option \<times> plugin_system" where
  "Uninstall h i sy =
     (if is_required h i then (Some RequiredPlugin, sy)
      else tryS (find_plugin i sy) sy (\<lambda>item.
        let loaded = AList.delete i (sy_loaded sy); commit = Inr (DeletePlugin i (sy_store sy)) in
        tryS (dependencyOrder loaded) sy (\<lambda>order.
        tryS (if mp_instance item \<noteq> None then transition h 0 i None True commit (sy_registry sy)
              else bindR commit (\<lambda>st. Inr (None, sy_registry sy, st))) sy (\<lambda>(old, r, st).
          (None, sy\<lparr>sy_registry := r, sy_store := st, sy_loaded := loaded, sy_order := order,
             sy_retiring := sy_retiring sy @ to_retire old (mp_instance item)\<rparr>)))))"

text \<open>
  \<open>Close\<close> up to its waiting: every entry is detached and every instance retired. The lifetimes are
  those of the detached entries.
\<close>

definition life_of :: "string \<Rightarrow> registry \<Rightarrow> nat option" where
  "life_of i r = map_option (\<lambda>n. et_life (rg_entries r ! n)) (entry_index i (rg_entries r))"

definition Close :: "host \<Rightarrow> plugin_system \<Rightarrow> plugin_system" where
  "Close h sy =
     (if sy_closed sy then sy
      else sy\<lparr>sy_closed := True, sy_registry := detach h (map fst (sy_loaded sy)) (sy_registry sy),
        sy_retiring := sy_retiring sy @ concat (map (\<lambda>(i, p). to_retire (life_of i (sy_registry sy)) (mp_instance p)) (sy_loaded sy)),
        sy_loaded := [], sy_order := []\<rparr>)"

section \<open>Start-up\<close>

record builtin =
  bi_id :: string
  bi_version :: string
  bi_digest :: string

record distribution =
  dn_catalog :: "builtin list"
  dn_package :: "string \<Rightarrow> plugin_error + string"

definition validateBuiltin :: "host \<Rightarrow> builtin \<Rightarrow> string \<Rightarrow> plugin_error + package" where
  "validateBuiltin h b archive =
     bindR (ho_read h archive) (\<lambda>pkg.
     requireR (mf_id (pk_manifest pkg) = bi_id b \<and> mf_version (pk_manifest pkg) = bi_version b \<and> pk_digest pkg = bi_digest b)
       BuiltinMismatch (Inr pkg))"

definition catalogFromRecords :: "host \<Rightarrow> (string \<times> install) list \<Rightarrow> plugin_error + plugin_catalog" where
  "catalogFromRecords h records =
     forR records (\<lambda>(i, r) cat.
       if map_of cat i \<noteq> None then Inl (DuplicateStored i)
       else if i \<noteq> mf_id (in_manifest r) then Inl IdentityMismatch
       else bindR (loadSettings h (in_manifest r)) (\<lambda>settings.
         Inr (cat @ [(i, \<lparr>mp_enabled = in_enabled r, mp_manifest = in_manifest r, mp_readme = in_readme r, mp_settings = settings,
           mp_digest = in_digest r, mp_instance = None\<rparr>)]))) []"

definition builtin_item :: "host \<Rightarrow> distribution \<Rightarrow> builtin \<Rightarrow> plugin_error + (managed_plugin \<times> string)" where
  "builtin_item h d b =
     bindR (dn_package d (bi_id b)) (\<lambda>archive.
     bindR (validateBuiltin h b archive) (\<lambda>pkg.
     bindR (metadataFromPackage h pkg (mf_default (pk_manifest pkg) \<or> is_required h (bi_id b))) (\<lambda>item.
     Inr (item, archive))))"

text \<open>What an error leaves in the store stays there.\<close>

fun seed_loop :: "host \<Rightarrow> distribution \<Rightarrow> plugin_catalog \<Rightarrow> builtin list \<Rightarrow> string list \<Rightarrow> bool \<Rightarrow> plugin_store \<Rightarrow>
    (plugin_error + bool) \<times> plugin_store" where
  "seed_loop h d cat [] seen seeded st = (Inr seeded, st)"
| "seed_loop h d cat (b # bs) seen seeded st =
     (if bi_id b \<in> set seen then (Inl (DuplicateBuiltin (bi_id b)), st)
      else if map_of cat (bi_id b) \<noteq> None then seed_loop h d cat bs (bi_id b # seen) seeded st
      else (case builtin_item h d b of
          Inl err \<Rightarrow> (Inl err, st)
        | Inr (item, archive) \<Rightarrow>
            seed_loop h d cat bs (bi_id b # seen) True (SeedPlugin (mf_id (mp_manifest item)) (recordFor item) archive st)))"

definition seedMissingPlugins :: "host \<Rightarrow> distribution option \<Rightarrow> plugin_catalog \<Rightarrow> plugin_store \<Rightarrow> (plugin_error + bool) \<times> plugin_store" where
  "seedMissingPlugins h d cat st = (case d of None \<Rightarrow> (Inr False, st) | Some d \<Rightarrow> seed_loop h d cat (dn_catalog d) [] False st)"

fun enable_loop :: "string list \<Rightarrow> plugin_catalog \<Rightarrow> plugin_store \<Rightarrow> (plugin_error + plugin_catalog) \<times> plugin_store" where
  "enable_loop [] cat st = (Inr cat, st)"
| "enable_loop (i # is) cat st =
     (case map_of cat i of
        None \<Rightarrow> (Inl (MissingRequired i), st)
      | Some item \<Rightarrow>
          if mp_enabled item then enable_loop is cat st
          else (case SetPluginEnabled i True st of
              Inl err \<Rightarrow> (Inl err, st)
            | Inr st \<Rightarrow> enable_loop is (AList.update i (item\<lparr>mp_enabled := True\<rparr>) cat) st))"

definition enableRequiredPlugins :: "host \<Rightarrow> plugin_catalog \<Rightarrow> plugin_store \<Rightarrow> (plugin_error + plugin_catalog) \<times> plugin_store" where
  "enableRequiredPlugins h cat st =
     (let required = sort (remdups (ho_required h)) in
      case find (\<lambda>i. map_of cat i = None) required of
        Some i \<Rightarrow> (Inl (MissingRequired i), st)
      | None \<Rightarrow> enable_loop required cat st)"

text \<open>
  \<open>prepareBootstrapInstances\<close>: the catalog with its instances, the candidate registry, the prepared
  instances and the state.
\<close>

definition boot_instance :: "host \<Rightarrow> managed_plugin \<Rightarrow> plugin_system \<Rightarrow> plugin_error + (nat \<times> plugin_system)" where
  "boot_instance h item sy =
     bindR (readPackage h item (sy_store sy)) (\<lambda>pkg.
     case load_instance h pkg sy of Inl err \<Rightarrow> Inl (LoadFailed (mf_id (mp_manifest item)) err) | Inr x \<Rightarrow> Inr x)"

fun prepare_instances :: "host \<Rightarrow> string list \<Rightarrow> plugin_catalog \<Rightarrow> registry \<Rightarrow> nat list \<Rightarrow> plugin_system \<Rightarrow>
    plugin_error option \<times> plugin_catalog \<times> registry \<times> nat list \<times> plugin_system" where
  "prepare_instances h [] cat cand prepared sy = (None, cat, cand, prepared, sy)"
| "prepare_instances h (i # is) cat cand prepared sy =
     (case map_of cat i of
        None \<Rightarrow> prepare_instances h is cat cand prepared sy
      | Some item \<Rightarrow>
          if \<not> mp_enabled item then prepare_instances h is cat cand prepared sy
          else (case boot_instance h item sy of
              Inl err \<Rightarrow> (Some err, cat, cand, prepared, sy)
            | Inr (n, sy) \<Rightarrow>
                (case Register h (length (sy_lifetimes sy)) (to_descriptor (mp_manifest item)) (pi_contributions (sy_instances sy ! n)) cand of
                   Inl err \<Rightarrow> (Some err, cat, cand, prepared @ [n], sy)
                 | Inr cand \<Rightarrow> prepare_instances h is (AList.update i (item\<lparr>mp_instance := Some n\<rparr>) cat) cand (prepared @ [n])
                     (sy\<lparr>sy_lifetimes := sy_lifetimes sy @ [newLifetime n]\<rparr>))))"

definition empty_registry :: registry where
  "empty_registry = \<lparr>rg_entries = [], rg_generation = 0, rg_plan = None\<rparr>"

definition boot_publish :: "host \<Rightarrow> plugin_catalog \<Rightarrow> string list \<Rightarrow> plugin_system \<Rightarrow> plugin_error option \<times> plugin_system" where
  "boot_publish h cat order sy =
     (case prepare_instances h order cat empty_registry [] sy of
        (Some err, _, _, prepared, sy) \<Rightarrow> (Some err, fold close_instance prepared sy)
      | (None, cat, cand, prepared, sy) \<Rightarrow>
          (case initialize h (rg_entries cand) (sy_registry sy) of
             Inl err \<Rightarrow> (Some err, fold close_instance prepared sy)
           | Inr r \<Rightarrow> (None, sy\<lparr>sy_registry := r, sy_loaded := cat, sy_order := order\<rparr>)))"

definition Bootstrap :: "host \<Rightarrow> distribution option \<Rightarrow> plugin_system \<Rightarrow> plugin_error option \<times> plugin_system" where
  "Bootstrap h d sy =
     (if sy_closed sy \<or> sy_loaded sy \<noteq> [] then (Some ManagerNotEmpty, sy)
      else tryS (catalogFromRecords h (ListPlugins (sy_store sy))) sy (\<lambda>cat.
        case seedMissingPlugins h d cat (sy_store sy) of
          (Inl err, st) \<Rightarrow> (Some err, sy\<lparr>sy_store := st\<rparr>)
        | (Inr seeded, st) \<Rightarrow>
            tryS (if seeded then catalogFromRecords h (ListPlugins st) else Inr cat) (sy\<lparr>sy_store := st\<rparr>) (\<lambda>cat.
            case enableRequiredPlugins h cat st of
              (Inl err, st) \<Rightarrow> (Some err, sy\<lparr>sy_store := st\<rparr>)
            | (Inr cat, st) \<Rightarrow>
                tryS (dependencyOrder cat) (sy\<lparr>sy_store := st\<rparr>) (\<lambda>order. boot_publish h cat order (sy\<lparr>sy_store := st\<rparr>)))))"

section \<open>Operations and leases\<close>

datatype plugin_op =
    BootstrapOp "distribution option"
  | InstallOp string
  | EnableOp string
  | DisableOp string
  | UpgradeOp string string
  | UninstallOp string
  | CloseOp

fun run_op :: "host \<Rightarrow> plugin_op \<Rightarrow> plugin_system \<Rightarrow> plugin_error option \<times> plugin_system" where
  "run_op h (BootstrapOp d) sy = Bootstrap h d sy"
| "run_op h (InstallOp archive) sy = Install h archive sy"
| "run_op h (EnableOp i) sy = Enable h i sy"
| "run_op h (DisableOp i) sy = Disable h i sy"
| "run_op h (UpgradeOp i archive) sy = Upgrade h i archive sy"
| "run_op h (UninstallOp i) sy = Uninstall h i sy"
| "run_op h CloseOp sy = (None, Close h sy)"

definition take_lease :: "nat list \<Rightarrow> plugin_system \<Rightarrow> plugin_system" where
  "take_lease lives sy = fold acquire lives (sy\<lparr>sy_leases := lives # sy_leases sy\<rparr>)"

definition AcquireRenderPlan :: "host \<Rightarrow> plugin_system \<Rightarrow> render_plan \<times> plugin_system" where
  "AcquireRenderPlan h sy =
     (let sy = (if rg_plan (sy_registry sy) = None then sy\<lparr>sy_registry := rebuildRenderPlan h (sy_registry sy)\<rparr> else sy);
          plan = the (rg_plan (sy_registry sy)) in
      (plan, take_lease (rp_lifetimes plan) sy))"

definition AcquireEntry :: "string \<Rightarrow> plugin_system \<Rightarrow> (plugin_entry \<times> plugin_system) option" where
  "AcquireEntry i sy =
     (case entry_index i (rg_entries (sy_registry sy)) of
        None \<Rightarrow> None
      | Some n \<Rightarrow> let en = rg_entries (sy_registry sy) ! n in Some (en, take_lease [et_life en] sy))"

definition AcquireEntries :: "plugin_system \<Rightarrow> plugin_entry list \<times> plugin_system" where
  "AcquireEntries sy = (let es = rg_entries (sy_registry sy) in (es, take_lease (map et_life es) sy))"

text \<open>The function that releases a lease; a second call does nothing, so it has no step.\<close>

definition release_lease :: "nat list \<Rightarrow> plugin_system \<Rightarrow> plugin_system" where
  "release_lease lives sy = fold release_life lives (sy\<lparr>sy_leases := remove1 lives (sy_leases sy)\<rparr>)"

text \<open>The goroutine of \<open>retire\<close>, once the lifetime is done.\<close>

definition finish_retirement :: "retirement \<Rightarrow> plugin_system \<Rightarrow> plugin_system" where
  "finish_retirement r sy =
     close_instance (re_instance r) (sy\<lparr>sy_retirements := map (\<lambda>x. if x = r then x\<lparr>re_done := True\<rparr> else x) (sy_retirements sy)\<rparr>)"

inductive plugin_step :: "host \<Rightarrow> plugin_system \<Rightarrow> plugin_system \<Rightarrow> bool" for h where
  operate: "sy_retiring sy = [] \<Longrightarrow> plugin_step h sy (snd (run_op h op sy))"
| retire: "sy_retiring sy = (life, n) # xs \<Longrightarrow> plugin_step h sy (retire life n (sy\<lparr>sy_retiring := xs\<rparr>))"
| finish: "r \<in> set (sy_retirements sy) \<Longrightarrow> \<not> re_done r \<Longrightarrow> re_life r = Some a \<Longrightarrow> lt_done (sy_lifetimes sy ! a) \<Longrightarrow>
    plugin_step h sy (finish_retirement r sy)"
| lease_plan: "plugin_step h sy (snd (AcquireRenderPlan h sy))"
| lease_entry: "AcquireEntry i sy = Some (en, sy') \<Longrightarrow> plugin_step h sy sy'"
| lease_entries: "plugin_step h sy (snd (AcquireEntries sy))"
| release: "lives \<in> set (sy_leases sy) \<Longrightarrow> plugin_step h sy (release_lease lives sy)"

definition fresh_system :: "plugin_store \<Rightarrow> plugin_system" where
  "fresh_system st = \<lparr>sy_registry = empty_registry, sy_lifetimes = [], sy_instances = [], sy_loaded = [], sy_order = [],
     sy_closed = False, sy_retirements = [], sy_retiring = [], sy_leases = [], sy_store = st, sy_panic = False\<rparr>"

inductive plugin_reachable :: "host \<Rightarrow> plugin_system \<Rightarrow> bool" for h where
  start: "plugin_reachable h (fresh_system st)"
| step: "plugin_reachable h sy \<Longrightarrow> plugin_step h sy sy' \<Longrightarrow> plugin_reachable h sy'"

end
