(* ===== verification/PluginSafety.thy ===== *)
theory PluginSafety
  imports PluginLifecycle
begin

text \<open>
  Lifetimes and instances under every interleaving: an instance is open exactly as long as an
  entry, a call of \<open>retire\<close> that is still to come or a retirement that waits for its leases owns it. An
  owner is given by its lifetime.
\<close>

section \<open>Owners\<close>

definition entry_pair :: "plugin_entry \<Rightarrow> nat option \<times> nat" where
  "entry_pair en = (Some (et_life en), ct_instance (et_contributions en))"

definition waiting :: "plugin_system \<Rightarrow> retirement list" where
  "waiting sy = filter (\<lambda>r. \<not> re_done r) (sy_retirements sy)"

definition live_pairs :: "plugin_system \<Rightarrow> (nat option \<times> nat) list" where
  "live_pairs sy = map entry_pair (rg_entries (sy_registry sy)) @ sy_retiring sy"

definition waiting_pairs :: "plugin_system \<Rightarrow> (nat option \<times> nat) list" where
  "waiting_pairs sy = map (\<lambda>r. (re_life r, re_instance r)) (waiting sy)"

text \<open>A pair names a lifetime and its instance.\<close>

definition paired :: "lifetime list \<Rightarrow> nat option \<times> nat \<Rightarrow> bool" where
  "paired ls p = (case fst p of None \<Rightarrow> False | Some a \<Rightarrow> a < length ls \<and> lt_instance (ls ! a) = snd p)"

definition lives :: "(nat option \<times> nat) list \<Rightarrow> nat multiset" where
  "lives ps = mset (map (\<lambda>p. the (fst p)) ps)"

text \<open>\<open>L\<close> are the lifetimes of the entries and of the retirements to come, \<open>W\<close> those of the retirements that wait.\<close>

definition instances_ok :: "lifetime list \<Rightarrow> plugin_instance list \<Rightarrow> nat multiset \<Rightarrow> bool" where
  "instances_ok ls ns A =
     ((\<forall>a\<in>#A. a < length ls) \<and>
      (\<forall>a<length ls. lt_instance (ls ! a) < length ns \<and> pi_open (ns ! lt_instance (ls ! a)) = (a \<in># A)) \<and>
      (\<forall>n<length ns. pi_open (ns ! n) \<longrightarrow> (\<exists>a<length ls. lt_instance (ls ! a) = n)) \<and>
      (\<forall>a<length ls. \<forall>b<length ls. lt_instance (ls ! a) = lt_instance (ls ! b) \<longrightarrow> a = b))"

definition retired_ok :: "lifetime list \<Rightarrow> nat multiset \<Rightarrow> nat multiset \<Rightarrow> bool" where
  "retired_ok ls L W =
     ((\<forall>a. count (L + W) a \<le> 1) \<and> (\<forall>a\<in>#L. \<not> lt_retired (ls ! a)) \<and> (\<forall>a\<in>#W. lt_retired (ls ! a)) \<and>
      (\<forall>a<length ls. lt_retired (ls ! a) \<longrightarrow> lt_done (ls ! a) \<or> a \<in># W))"

text \<open>\<open>H\<close> is the multiset of the lifetimes that leases hold.\<close>

definition refs_ok :: "lifetime list \<Rightarrow> nat multiset \<Rightarrow> bool" where
  "refs_ok ls H =
     ((\<forall>a<length ls. lt_refs (ls ! a) = int (count H a) \<and> lt_done (ls ! a) = (lt_retired (ls ! a) \<and> count H a = 0)) \<and>
      (\<forall>a\<in>#H. a < length ls))"

definition held :: "plugin_system \<Rightarrow> nat multiset" where
  "held sy = mset (concat (sy_leases sy))"

definition heap_ok :: "plugin_system \<Rightarrow> bool" where
  "heap_ok sy =
     (list_all (paired (sy_lifetimes sy)) (live_pairs sy @ waiting_pairs sy) \<and>
      instances_ok (sy_lifetimes sy) (sy_instances sy) (lives (live_pairs sy @ waiting_pairs sy)) \<and>
      retired_ok (sy_lifetimes sy) (lives (live_pairs sy)) (lives (waiting_pairs sy)) \<and>
      refs_ok (sy_lifetimes sy) (held sy) \<and> set_mset (held sy) \<subseteq> set_mset (lives (live_pairs sy @ waiting_pairs sy)) \<and>
      \<not> sy_panic sy)"

lemma paired_append: "paired ls p \<Longrightarrow> paired (ls @ ms) p"
  by (auto simp: paired_def nth_append split: option.splits)

lemma instances_new:
  assumes "instances_ok ls ns A" and "pi_open i = own"
  shows "instances_ok (ls @ [newLifetime (length ns)]) (ns @ [i]) (if own then add_mset (length ls) A else A)"
proof -
  have "a \<noteq> length ls" if "a \<in># A" for a using assms(1) that by (auto simp: instances_ok_def)
  with assms show ?thesis
    by (auto simp: instances_ok_def nth_append less_Suc_eq newLifetime_def)
qed

lemma instances_closed:
  "instances_ok ls ns A \<Longrightarrow> \<not> pi_open i \<Longrightarrow> instances_ok ls (ns @ [i]) A"
  by (auto simp: instances_ok_def nth_append less_Suc_eq)

lemma retired_new:
  assumes "retired_ok ls L W" and "\<forall>a\<in>#L + W. a < length ls"
  shows "retired_ok (ls @ [newLifetime n]) (add_mset (length ls) L) W"
proof -
  have "count (L + W) (length ls) = 0" using assms(2) by (metis less_irrefl not_in_iff)
  then have "count (add_mset (length ls) L + W) a \<le> 1" for a
    using assms(1) unfolding retired_ok_def by (cases "a = length ls") simp_all
  with assms show ?thesis
    by (auto simp: retired_ok_def nth_append less_Suc_eq newLifetime_def)
qed

lemma retired_append:
  assumes "retired_ok ls L W" and "\<forall>a\<in>#L + W. a < length ls"
  shows "retired_ok (ls @ [newLifetime n]) L W"
  using assms by (auto simp: retired_ok_def nth_append less_Suc_eq newLifetime_def)

lemma refs_new:
  assumes "refs_ok ls H"
  shows "refs_ok (ls @ [newLifetime n]) H"
proof -
  have "count H (length ls) = 0" using assms by (auto simp: refs_ok_def not_in_iff)
  with assms show ?thesis by (auto simp: refs_ok_def nth_append less_Suc_eq newLifetime_def)
qed

text \<open>A retirement moves an owner from the live to the waiting ones, a closing takes it away.\<close>

lemma instances_close:
  assumes "instances_ok ls ns (add_mset a A)" and "a < length ls" and "a \<notin># A" and "n = lt_instance (ls ! a)"
  shows "instances_ok ls (ns[n := (ns ! n)\<lparr>pi_open := False\<rparr>]) A"
proof -
  let ?ns = "ns[n := (ns ! n)\<lparr>pi_open := False\<rparr>]"
  have other: "lt_instance (ls ! b) \<noteq> n" if "b < length ls" "b \<noteq> a" for b
    using assms that unfolding instances_ok_def by metis
  have "n < length ns" using assms unfolding instances_ok_def by blast
  then have "pi_open (?ns ! lt_instance (ls ! b)) = (b \<in># A)" if "b < length ls" for b
    using assms other [OF that] that by (cases "b = a") (auto simp: instances_ok_def)
  moreover have "\<exists>b<length ls. lt_instance (ls ! b) = m" if "m < length ns" "pi_open (?ns ! m)" for m
    using assms(1) that by (cases "m = n") (auto simp: instances_ok_def)
  ultimately show ?thesis using assms(1) unfolding instances_ok_def by simp
qed

lemma retired_move:
  assumes "retired_ok ls (add_mset a L) W" and "a < length ls"
  shows "retired_ok (ls[a := (ls ! a)\<lparr>lt_retired := True, lt_done := d\<rparr>]) L (add_mset a W)"
proof -
  from assms(1) have "a \<notin># L" "a \<notin># W" by (auto simp: retired_ok_def not_in_iff dest: spec [of _ a])
  moreover have "add_mset a L + W = L + add_mset a W" by simp
  ultimately show ?thesis using assms unfolding retired_ok_def by (auto simp: nth_list_update)
qed

lemma retired_close:
  assumes "retired_ok ls L (add_mset a W)" and "lt_done (ls ! a)"
  shows "retired_ok ls L W"
proof -
  have "count (L + W) b \<le> count (L + add_mset a W) b" for b by simp
  with assms show ?thesis unfolding retired_ok_def by (auto intro: order_trans)
qed

lemma refs_retire:
  assumes "refs_ok ls H" and "a < length ls"
  shows "refs_ok (ls[a := (ls ! a)\<lparr>lt_retired := True, lt_done := (lt_refs (ls ! a) = 0)\<rparr>]) H"
  using assms by (auto simp: refs_ok_def nth_list_update)

lemma refs_acquire:
  assumes "refs_ok ls H" and "a < length ls" and "\<not> lt_retired (ls ! a)"
  shows "refs_ok (ls[a := (ls ! a)\<lparr>lt_refs := lt_refs (ls ! a) + 1\<rparr>]) (add_mset a H)"
  using assms by (auto simp: refs_ok_def nth_list_update)

lemma refs_release:
  assumes "refs_ok ls (add_mset a H)"
  shows "refs_ok (ls[a := (ls ! a)\<lparr>lt_refs := lt_refs (ls ! a) - 1,
    lt_done := (lt_retired (ls ! a) \<and> lt_refs (ls ! a) - 1 = 0)\<rparr>]) H"
  using assms by (auto simp: refs_ok_def nth_list_update)

text \<open>What a change of counters leaves alone.\<close>

definition same_owners :: "lifetime list \<Rightarrow> lifetime list \<Rightarrow> bool" where
  "same_owners ls ms =
     (length ms = length ls \<and> (\<forall>a<length ls. lt_instance (ms ! a) = lt_instance (ls ! a) \<and>
        lt_retired (ms ! a) = lt_retired (ls ! a) \<and> (lt_done (ls ! a) \<longrightarrow> lt_done (ms ! a))))"

lemma same_owners_update:
  "a < length ls \<Longrightarrow> lt_instance l = lt_instance (ls ! a) \<Longrightarrow> lt_retired l = lt_retired (ls ! a) \<Longrightarrow>
   (lt_done (ls ! a) \<Longrightarrow> lt_done l) \<Longrightarrow> same_owners ls (ls[a := l])"
  by (auto simp: same_owners_def nth_list_update)

lemma same_owners_paired: "same_owners ls ms \<Longrightarrow> paired ls p \<Longrightarrow> paired ms p"
  by (auto simp: same_owners_def paired_def split: option.splits)

lemma same_owners_instances: "same_owners ls ms \<Longrightarrow> instances_ok ls ns A \<Longrightarrow> instances_ok ms ns A"
  unfolding same_owners_def instances_ok_def by (intro conjI; metis)

lemma same_owners_retired:
  "same_owners ls ms \<Longrightarrow> \<forall>a\<in>#L + W. a < length ls \<Longrightarrow> retired_ok ls L W \<Longrightarrow> retired_ok ms L W"
  by (auto simp: same_owners_def retired_ok_def)

section \<open>Leases\<close>

text \<open>\<open>heap_ok\<close> with the leases given apart, for the time in which a lease is taken or released.\<close>

definition heap_with :: "plugin_system \<Rightarrow> nat multiset \<Rightarrow> bool" where
  "heap_with sy H =
     (list_all (paired (sy_lifetimes sy)) (live_pairs sy @ waiting_pairs sy) \<and>
      instances_ok (sy_lifetimes sy) (sy_instances sy) (lives (live_pairs sy @ waiting_pairs sy)) \<and>
      retired_ok (sy_lifetimes sy) (lives (live_pairs sy)) (lives (waiting_pairs sy)) \<and>
      refs_ok (sy_lifetimes sy) H \<and> set_mset H \<subseteq> set_mset (lives (live_pairs sy @ waiting_pairs sy)) \<and> \<not> sy_panic sy)"

lemma heap_ok_with: "heap_ok sy = heap_with sy (held sy)"
  by (simp add: heap_ok_def heap_with_def)

lemma lives_append: "lives (ps @ qs) = lives ps + lives qs"
  by (simp add: lives_def)

lemma heap_with_counters:
  assumes "heap_with sy H" and "same_owners (sy_lifetimes sy) ms" and "refs_ok ms H'"
    and "set_mset H' \<subseteq> set_mset (lives (live_pairs sy @ waiting_pairs sy))"
  shows "heap_with (sy\<lparr>sy_lifetimes := ms\<rparr>) H'"
proof -
  let ?sy = "sy\<lparr>sy_lifetimes := ms\<rparr>"
  have pairs: "live_pairs ?sy = live_pairs sy" "waiting_pairs ?sy = waiting_pairs sy"
    by (simp_all add: live_pairs_def waiting_pairs_def waiting_def)
  from assms(1) have "\<forall>a\<in>#lives (live_pairs sy) + lives (waiting_pairs sy). a < length (sy_lifetimes sy)"
    by (simp add: heap_with_def instances_ok_def lives_append)
  with assms show ?thesis
    by (auto simp: heap_with_def pairs list_all_iff intro: same_owners_paired same_owners_instances same_owners_retired)
qed

lemma acquire_heap:
  assumes "heap_with sy H" and live: "a \<in># lives (live_pairs sy)"
  shows "heap_with (acquire a sy) (add_mset a H)"
  unfolding acquire_def set_life_def Let_def
proof (rule heap_with_counters [OF assms(1)])
  have "a < length (sy_lifetimes sy)" "\<not> lt_retired (sy_lifetimes sy ! a)"
    using assms by (auto simp: heap_with_def instances_ok_def retired_ok_def lives_append)
  note assms = assms this
  show "set_mset (add_mset a H) \<subseteq> set_mset (lives (live_pairs sy @ waiting_pairs sy))"
    using assms by (simp add: heap_with_def lives_append)
  show "same_owners (sy_lifetimes sy) ((sy_lifetimes sy)[a := (sy_lifetimes sy ! a)\<lparr>lt_refs := lt_refs (sy_lifetimes sy ! a) + 1\<rparr>])"
    by (intro same_owners_update assms; simp)
  show "refs_ok ((sy_lifetimes sy)[a := (sy_lifetimes sy ! a)\<lparr>lt_refs := lt_refs (sy_lifetimes sy ! a) + 1\<rparr>]) (add_mset a H)"
    using assms by (intro refs_acquire) (simp_all add: heap_with_def)
qed

lemma acquire_same [simp]:
  "live_pairs (acquire a sy) = live_pairs sy" "sy_leases (acquire a sy) = sy_leases sy"
  by (simp_all add: acquire_def set_life_def Let_def live_pairs_def)

lemma fold_acquire_heap:
  "heap_with sy H \<Longrightarrow> set as \<subseteq> set_mset (lives (live_pairs sy)) \<Longrightarrow> heap_with (fold acquire as sy) (H + mset as)"
proof (induction as arbitrary: sy H)
  case (Cons a as)
  from Cons.prems have "heap_with (acquire a sy) (add_mset a H)" by (simp add: acquire_heap)
  from Cons.IH [OF this] Cons.prems show ?case by simp
qed simp

lemma fold_acquire_leases: "sy_leases (fold acquire as sy) = sy_leases sy"
  by (induction as arbitrary: sy) simp_all

lemma take_lease_heap:
  assumes "heap_ok sy" and "set as \<subseteq> set_mset (lives (live_pairs sy))"
  shows "heap_ok (take_lease as sy)"
proof -
  have "heap_with (sy\<lparr>sy_leases := as # sy_leases sy\<rparr>) (held sy)"
    using assms(1) by (simp add: heap_ok_with heap_with_def live_pairs_def waiting_pairs_def waiting_def)
  from fold_acquire_heap [OF this, of as] assms(2) show ?thesis
    by (simp add: heap_ok_with take_lease_def held_def fold_acquire_leases live_pairs_def ac_simps)
qed

lemma release_life_heap:
  assumes "heap_with sy (add_mset a H)"
  shows "heap_with (release_life a sy) H"
proof -
  let ?ls = "sy_lifetimes sy"
  let ?l = "?ls ! a"
  let ?l' = "?l\<lparr>lt_refs := lt_refs ?l - 1, lt_done := (lt_retired ?l \<and> lt_refs ?l - 1 = 0)\<rparr>"
  from assms have r: "refs_ok ?ls (add_mset a H)" by (simp add: heap_with_def)
  then have "a < length ?ls" and nd: "\<not> lt_done ?l" by (auto simp: refs_ok_def)
  with assms have "release_life a sy = sy\<lparr>sy_lifetimes := ?ls[a := ?l']\<rparr>"
    by (cases "?l") (auto simp: release_life_def close_done_def set_life_def Let_def heap_with_def)
  moreover have "heap_with (sy\<lparr>sy_lifetimes := ?ls[a := ?l']\<rparr>) H"
    by (intro heap_with_counters [OF assms _ refs_release [OF r]] same_owners_update \<open>a < length ?ls\<close>)
      (use nd assms in \<open>simp_all add: heap_with_def\<close>)
  ultimately show ?thesis by simp
qed

lemma release_life_leases [simp]: "sy_leases (release_life a sy) = sy_leases sy"
  by (simp add: release_life_def close_done_def set_life_def Let_def)

lemma fold_release_leases: "sy_leases (fold release_life as sy) = sy_leases sy"
  by (induction as arbitrary: sy) simp_all

lemma fold_release_heap: "heap_with sy (H + mset as) \<Longrightarrow> heap_with (fold release_life as sy) H"
  by (induction as arbitrary: sy) (simp_all add: release_life_heap)

lemma mset_concat_remove1: "xs \<in> set xss \<Longrightarrow> mset (concat xss) = mset (concat (remove1 xs xss)) + mset xs"
  by (induction xss) (auto simp: ac_simps)

lemma release_lease_heap:
  assumes "heap_ok sy" and "as \<in> set (sy_leases sy)"
  shows "heap_ok (release_lease as sy)"
proof -
  note mset_concat_remove1 [OF assms(2)]
  then have "heap_with (sy\<lparr>sy_leases := remove1 as (sy_leases sy)\<rparr>) (mset (concat (remove1 as (sy_leases sy))) + mset as)"
    using assms(1) by (simp add: heap_ok_with heap_with_def held_def live_pairs_def waiting_pairs_def waiting_def)
  then show ?thesis
    by (simp add: heap_ok_with release_lease_def held_def fold_release_leases fold_release_heap)
qed

section \<open>Retirements\<close>

lemma update_instance: "lt_instance l = lt_instance (ls ! a) \<Longrightarrow> lt_instance (ls[a := l] ! b) = lt_instance (ls ! b)"
  by (cases "a < length ls"; cases "b = a") (simp_all add: list_update_beyond)

lemma retire_heap:
  assumes ok: "heap_ok sy" and r: "sy_retiring sy = (life, n) # xs"
  shows "heap_ok (retire life n (sy\<lparr>sy_retiring := xs\<rparr>))"
proof -
  let ?ls = "sy_lifetimes sy"
  let ?L = "lives (map entry_pair (rg_entries (sy_registry sy)) @ xs)" and ?W = "lives (waiting_pairs sy)"
  from ok r have "paired ?ls (life, n)" by (simp add: heap_ok_def live_pairs_def)
  then obtain a where a: "life = Some a" "a < length ?ls" "n = lt_instance (?ls ! a)"
    by (auto simp: paired_def split: option.splits)
  let ?d = "lt_refs (?ls ! a) = 0"
  let ?ms = "?ls[a := (?ls ! a)\<lparr>lt_retired := True, lt_done := ?d\<rparr>]"
  have L: "lives (live_pairs sy) = add_mset a ?L" by (simp add: live_pairs_def r a(1) lives_def)
  from ok have ro: "retired_ok ?ls (add_mset a ?L) ?W" and refs: "refs_ok ?ls (held sy)" and np: "\<not> sy_panic sy"
    and hs: "set_mset (held sy) \<subseteq> insert a (set_mset (?L + ?W))"
    and io: "instances_ok ?ls (sy_instances sy) (add_mset a (?L + ?W))"
    by (simp_all add: heap_ok_def L lives_append)
  have nr: "\<not> lt_retired (?ls ! a)" using ro by (simp add: retired_ok_def)
  with refs a(2) have nd: "\<not> lt_done (?ls ! a)" by (simp add: refs_ok_def)
  have new: "a \<notin># ?L + ?W" using ro by (auto simp: retired_ok_def not_in_iff dest: spec [of _ a])
  let ?sy = "sy\<lparr>sy_retiring := xs, sy_retirements := waiting sy, sy_lifetimes := ?ms\<rparr>"
  have retired: "retire_life a (sy\<lparr>sy_retiring := xs, sy_retirements := waiting sy\<rparr>) = ?sy"
    using nd np by (cases "?ls ! a") (auto simp: retire_life_def close_done_def set_life_def Let_def waiting_def)
  have dn: "lt_done (?ms ! a) = ?d" using a(2) by simp
  have ms: "lt_instance (?ms ! b) = lt_instance (?ls ! b)" "length ?ms = length ?ls" for b
    by (rule update_instance) simp_all
  have pairs: "paired ?ms p = paired ?ls p" for p by (simp only: paired_def ms)
  have i': "instances_ok ?ms ns A = instances_ok ?ls ns A" for ns A by (simp only: instances_ok_def ms)
  have ro': "retired_ok ?ms ?L (add_mset a ?W)" by (rule retired_move [OF ro a(2)])
  have refs': "refs_ok ?ms (held sy)" by (rule refs_retire [OF refs a(2)])
  have lp: "list_all (paired ?ls) (map entry_pair (rg_entries (sy_registry sy)) @ xs @ waiting_pairs sy)"
    using ok r by (simp add: heap_ok_def live_pairs_def)
  show ?thesis
  proof (cases ?d)
    case True
    let ?t = "close_instance n (?sy\<lparr>sy_retirements := waiting sy @ [\<lparr>re_life = Some a, re_instance = n, re_done = True\<rparr>]\<rparr>)"
    have t: "retire life n (sy\<lparr>sy_retiring := xs\<rparr>) = ?t"
      using True retired dn by (simp add: retire_def a(1) Let_def waiting_def [symmetric])
    have p: "live_pairs ?t = map entry_pair (rg_entries (sy_registry sy)) @ xs" "waiting_pairs ?t = waiting_pairs sy"
      by (simp_all add: live_pairs_def waiting_pairs_def waiting_def close_instance_def)
    have "instances_ok ?ls (sy_instances ?t) (?L + ?W)"
      using instances_close [OF io a(2) new a(3)] by (simp add: close_instance_def)
    moreover have "retired_ok ?ms ?L ?W" by (rule retired_close [OF ro']) (simp add: a(2) True)
    moreover have "a \<notin># held sy" using refs a(2) True by (simp add: refs_ok_def not_in_iff)
    moreover have "held ?t = held sy" by (simp add: held_def close_instance_def)
    ultimately show ?thesis
      using lp refs' np hs unfolding heap_ok_def t p
      by (simp add: pairs i' lives_append close_instance_def list_all_iff add.assoc) blast
  next
    case False
    let ?t = "?sy\<lparr>sy_retirements := waiting sy @ [\<lparr>re_life = Some a, re_instance = n, re_done = False\<rparr>]\<rparr>"
    have t: "retire life n (sy\<lparr>sy_retiring := xs\<rparr>) = ?t"
      using False retired dn by (simp add: retire_def a(1) Let_def waiting_def [symmetric])
    have p: "live_pairs ?t = map entry_pair (rg_entries (sy_registry sy)) @ xs" "waiting_pairs ?t = waiting_pairs sy @ [(Some a, n)]"
      by (simp_all add: live_pairs_def waiting_pairs_def waiting_def)
    have W: "lives [(Some a, n)] = {#a#}" and pa: "paired ?ls (Some a, n)" using a by (simp_all add: lives_def paired_def)
    have "held ?t = held sy" by (simp add: held_def)
    then show ?thesis
      using lp refs' np io ro' pa hs unfolding heap_ok_def t p
      by (simp add: pairs i' lives_append W list_all_iff add.assoc)
  qed
qed

lemma filter_finish:
  "filter (\<lambda>x. \<not> re_done x) (map (\<lambda>x. if x = r then x\<lparr>re_done := True\<rparr> else x) rs) =
   filter (\<lambda>x. x \<noteq> r) (filter (\<lambda>x. \<not> re_done x) rs)"
  by (induction rs) auto

lemma distinct_lives: "\<forall>a. count (lives ps) a \<le> 1 \<Longrightarrow> distinct ps"
proof (induction ps)
  case (Cons p ps)
  then have c: "count (lives (p # ps)) a \<le> 1" for a by blast
  have "count (lives ps) a \<le> 1" for a using c [of a] by (simp add: lives_def split: if_splits)
  moreover have "p \<notin> set ps"
  proof
    assume "p \<in> set ps"
    then have "the (fst p) \<in># lives ps" by (auto simp: lives_def)
    then have "count (lives ps) (the (fst p)) > 0" by simp
    with c [of "the (fst p)"] show False by (simp add: lives_def)
  qed
  ultimately show ?case using Cons.IH by simp
qed simp

lemma lives_waiting: "lives (waiting_pairs sy) = image_mset (\<lambda>r. the (re_life r)) (mset (waiting sy))"
  by (simp add: lives_def waiting_pairs_def comp_def)

lemma finish_heap:
  assumes ok: "heap_ok sy" and r: "r \<in> set (sy_retirements sy)" "\<not> re_done r" "re_life r = Some a"
    and d: "lt_done (sy_lifetimes sy ! a)"
  shows "heap_ok (finish_retirement r sy)"
proof -
  let ?ls = "sy_lifetimes sy" and ?t = "finish_retirement r sy" and ?f = "\<lambda>x. (re_life x, re_instance x)"
  let ?L = "lives (live_pairs sy)"
  from r have w: "r \<in> set (waiting sy)" by (simp add: waiting_def)
  from ok have ro: "retired_ok ?ls ?L (lives (waiting_pairs sy))" by (simp add: heap_ok_def)
  then have "count (lives (waiting_pairs sy)) a \<le> 1" for a
    by (auto simp: retired_ok_def intro: order_trans [of _ "count ?L a + count (lives (waiting_pairs sy)) a"])
  then have "distinct (waiting_pairs sy)" by (simp add: distinct_lives)
  then have dw: "distinct (waiting sy)" unfolding waiting_pairs_def by (simp add: distinct_map)
  have wt: "waiting ?t = remove1 r (waiting sy)"
    unfolding distinct_remove1_removeAll [OF dw] removeAll_filter_not_eq
    by (simp add: waiting_def finish_retirement_def close_instance_def filter_finish eq_commute)
  with w have "mset (waiting sy) = add_mset r (mset (waiting ?t))" by simp
  then have W: "lives (waiting_pairs sy) = add_mset a (lives (waiting_pairs ?t))"
    by (simp add: lives_waiting r(3))
  have live: "live_pairs ?t = live_pairs sy" by (simp add: live_pairs_def finish_retirement_def close_instance_def)
  have sub: "set (waiting_pairs ?t) \<subseteq> set (waiting_pairs sy)"
    using set_remove1_subset [of r "waiting sy"] by (auto simp: waiting_pairs_def wt)
  from w ok have "paired ?ls (?f r)" by (auto simp: heap_ok_def waiting_pairs_def list_all_iff)
  then have a: "a < length ?ls" "re_instance r = lt_instance (?ls ! a)" by (simp_all add: paired_def r(3))
  from ro have "count (?L + lives (waiting_pairs sy)) a \<le> 1" unfolding retired_ok_def by blast
  then have new: "a \<notin># ?L + lives (waiting_pairs ?t)" unfolding W by (simp flip: count_eq_zero_iff)
  from ok have "instances_ok ?ls (sy_instances sy) (add_mset a (?L + lives (waiting_pairs ?t)))"
    by (simp add: heap_ok_def lives_append W)
  from instances_close [OF this a(1) new a(2)]
  have "instances_ok ?ls (sy_instances ?t) (?L + lives (waiting_pairs ?t))"
    by (simp add: finish_retirement_def close_instance_def)
  moreover have "retired_ok ?ls ?L (lives (waiting_pairs ?t))"
    using retired_close [OF ro [unfolded W] d] .
  moreover have "sy_lifetimes ?t = ?ls" "held ?t = held sy" "sy_panic ?t = sy_panic sy"
    by (simp_all add: finish_retirement_def close_instance_def held_def)
  moreover have "set_mset (held sy) \<subseteq> set_mset (?L + lives (waiting_pairs ?t))"
  proof -
    from ok have "refs_ok ?ls (held sy)" "set_mset (held sy) \<subseteq> insert a (set_mset (?L + lives (waiting_pairs ?t)))"
      by (simp_all add: heap_ok_def lives_append W)
    moreover from this(1) d a(1) have "a \<notin># held sy" by (simp add: refs_ok_def not_in_iff)
    ultimately show ?thesis by blast
  qed
  moreover have "list_all (paired ?ls) (live_pairs sy @ waiting_pairs ?t)"
    using ok sub by (auto simp: heap_ok_def list_all_iff)
  moreover have "refs_ok ?ls (held sy)" "\<not> sy_panic sy" using ok by (simp_all add: heap_ok_def)
  ultimately show ?thesis
    by (simp add: heap_ok_def live lives_append)
qed

section \<open>Operations and their owners\<close>

lemma lives_mset: "mset ps = mset qs \<Longrightarrow> lives ps = lives qs"
  by (simp add: lives_def)

lemma heap_same:
  assumes "heap_ok sy" and "mset (live_pairs sy') = mset (live_pairs sy)" and "sy_retirements sy' = sy_retirements sy"
    and "sy_lifetimes sy' = sy_lifetimes sy" and "sy_instances sy' = sy_instances sy" and "sy_leases sy' = sy_leases sy"
    and "sy_panic sy' = sy_panic sy"
  shows "heap_ok sy'"
proof -
  have l: "lives (live_pairs sy') = lives (live_pairs sy)" by (rule lives_mset [OF assms(2)])
  have w: "waiting_pairs sy' = waiting_pairs sy" by (simp add: waiting_pairs_def waiting_def assms(3))
  show ?thesis
    using assms(1) mset_eq_setD [OF assms(2)]
    by (simp add: heap_ok_def lives_append l w assms(4-7) held_def list_all_iff)
qed

lemma heap_bounds: "heap_ok sy \<Longrightarrow> \<forall>a\<in>#lives (live_pairs sy) + lives (waiting_pairs sy). a < length (sy_lifetimes sy)"
  by (simp add: heap_ok_def instances_ok_def lives_append)

lemma heap_new:
  assumes ok: "heap_ok sy" and new: "mset (live_pairs sy') = add_mset (Some (length (sy_lifetimes sy)), length (sy_instances sy)) (mset (live_pairs sy))"
    and "sy_retirements sy' = sy_retirements sy"
    and l: "sy_lifetimes sy' = sy_lifetimes sy @ [newLifetime (length (sy_instances sy))]"
    and i: "sy_instances sy' = sy_instances sy @ [\<lparr>pi_open = True, pi_contributions = c\<rparr>]"
    and "sy_leases sy' = sy_leases sy" and "sy_panic sy' = sy_panic sy"
  shows "heap_ok sy'"
proof -
  let ?ls = "sy_lifetimes sy" and ?ns = "sy_instances sy"
  let ?p = "(Some (length ?ls), length ?ns)"
  have lv: "lives (live_pairs sy') = add_mset (length ?ls) (lives (live_pairs sy))"
    using lives_mset [of "live_pairs sy'" "?p # live_pairs sy"] new by (simp add: lives_def)
  have w: "waiting_pairs sy' = waiting_pairs sy" by (simp add: waiting_pairs_def waiting_def assms(3))
  have st: "set (live_pairs sy') = insert ?p (set (live_pairs sy))"
    using new by (metis set_mset_add_mset_insert set_mset_mset)
  have "paired (sy_lifetimes sy') ?p" by (simp add: paired_def l newLifetime_def)
  then have "list_all (paired (sy_lifetimes sy')) (live_pairs sy' @ waiting_pairs sy')"
    using ok by (auto simp: heap_ok_def list_all_iff st w l intro: paired_append)
  moreover have "instances_ok (sy_lifetimes sy') (sy_instances sy') (lives (live_pairs sy' @ waiting_pairs sy'))"
    using ok instances_new [of ?ls ?ns "lives (live_pairs sy @ waiting_pairs sy)" "\<lparr>pi_open = True, pi_contributions = c\<rparr>" True]
    by (simp add: heap_ok_def l i lives_append lv w)
  moreover have "retired_ok (sy_lifetimes sy') (lives (live_pairs sy')) (lives (waiting_pairs sy'))"
    using ok retired_new [OF _ heap_bounds [OF ok]] by (simp add: heap_ok_def l lv w)
  moreover have "refs_ok (sy_lifetimes sy') (held sy')"
    using ok refs_new by (simp add: heap_ok_def l held_def assms(6))
  moreover have "set_mset (held sy') \<subseteq> set_mset (lives (live_pairs sy' @ waiting_pairs sy'))"
    using ok by (auto simp: heap_ok_def lives_append lv w held_def assms(6))
  ultimately show ?thesis using ok by (simp add: heap_ok_def assms(7))
qed

lemma heap_instance_closed:
  assumes "heap_ok sy" and "\<not> pi_open i"
  shows "heap_ok (sy\<lparr>sy_instances := sy_instances sy @ [i]\<rparr>)"
  using assms instances_closed [OF _ assms(2)]
  by (simp add: heap_ok_def live_pairs_def waiting_pairs_def waiting_def held_def)

section \<open>What the manager keeps\<close>

definition loaded_ok :: "host \<Rightarrow> plugin_store \<Rightarrow> string \<Rightarrow> managed_plugin \<Rightarrow> bool" where
  "loaded_ok h st i p =
     (mf_id (mp_manifest p) = i \<and> mp_enabled p = (mp_instance p \<noteq> None) \<and> (is_required h i \<longrightarrow> mp_enabled p) \<and>
      (\<exists>r. map_of (st_installs st) i = Some r \<and> in_enabled r = mp_enabled p \<and> in_manifest r = mp_manifest p \<and> in_digest r = mp_digest p))"

definition entries_loaded :: "plugin_entry list \<Rightarrow> plugin_catalog \<Rightarrow> bool" where
  "entries_loaded es cat =
     (\<forall>i n. (\<exists>p. map_of cat i = Some p \<and> mp_instance p = Some n) =
       (\<exists>en\<in>set es. entry_id en = i \<and> ct_instance (et_contributions en) = n))"

definition book_ok :: "host \<Rightarrow> plugin_system \<Rightarrow> bool" where
  "book_ok h sy =
     (registry_ok h (sy_registry sy) \<and> distinct (map fst (sy_loaded sy)) \<and>
      (\<forall>i p. map_of (sy_loaded sy) i = Some p \<longrightarrow> loaded_ok h (sy_store sy) i p) \<and>
      entries_loaded (rg_entries (sy_registry sy)) (sy_loaded sy) \<and> requirements_on (sy_loaded sy))"

definition system_ok :: "host \<Rightarrow> plugin_system \<Rightarrow> bool" where
  "system_ok h sy = (heap_ok sy \<and> book_ok h sy)"

lemma set_replaced:
  assumes "distinct (map entry_id es)"
  shows "set (replaced_entries a i (Some (d, c)) es) =
      insert \<lparr>et_life = a, et_descriptor = d, et_contributions = c\<rparr> {en \<in> set es. entry_id en \<noteq> i}"
    "set (replaced_entries a i None es) = {en \<in> set es. entry_id en \<noteq> i}"
proof -
  have other: "es ! m \<in> {en \<in> set es. entry_id en \<noteq> i} \<longleftrightarrow> m \<noteq> k"
    if k: "entry_index i es = Some k" and "m < length es" for k m
    using that entry_index_Some [OF k] nth_eq_iff_index_eq [OF assms, of m k] by auto
  have upd: "set (es[k := x]) = insert x {en \<in> set es. entry_id en \<noteq> i}" if k: "entry_index i es = Some k" for k x
  proof -
    have "set (es[k := x]) = insert x {es ! m | m. m < length es \<and> m \<noteq> k}"
      using entry_index_Some(1) [OF k] by (fastforce simp: set_conv_nth nth_list_update)
    also have "{es ! m | m. m < length es \<and> m \<noteq> k} = {en \<in> set es. entry_id en \<noteq> i}"
      using other [OF k] by (fastforce simp: set_conv_nth)
    finally show ?thesis .
  qed
  have rem: "set (remove_at k es) = {en \<in> set es. entry_id en \<noteq> i}" if k: "entry_index i es = Some k" for k
  proof -
    have "mset es = add_mset (es ! k) (mset (remove_at k es))"
      using mset_remove_at [OF entry_index_Some(1) [OF k]] by simp
    then have s: "set es = insert (es ! k) (set (remove_at k es))" by (metis set_mset_add_mset_insert set_mset_mset)
    have "mset (map entry_id es) = add_mset (entry_id (es ! k)) (mset (map entry_id (remove_at k es)))"
      using \<open>mset es = _\<close> by simp
    with assms have "entry_id (es ! k) \<notin> set (map entry_id (remove_at k es))"
      by (metis distinct.simps(2) mset.simps(2) mset_eq_imp_distinct_iff)
    then have "entry_id x \<noteq> entry_id (es ! k)" if "x \<in> set (remove_at k es)" for x
      using that by (metis imageI set_map)
    with s entry_index_Some(2) [OF k] show ?thesis by auto
  qed
  have none: "{en \<in> set es. entry_id en \<noteq> i} = set es" if "entry_index i es = None"
    using that by (auto simp: entry_index_None)
  show "set (replaced_entries a i (Some (d, c)) es) =
      insert \<lparr>et_life = a, et_descriptor = d, et_contributions = c\<rparr> {en \<in> set es. entry_id en \<noteq> i}"
    using none by (cases "entry_index i es") (auto simp: replaced_entries_def upd)
  show "set (replaced_entries a i None es) = {en \<in> set es. entry_id en \<noteq> i}"
    using none by (cases "entry_index i es") (auto simp: replaced_entries_def rem)
qed

lemma loaded_instance_index:
  assumes "entries_loaded es cat" and "distinct (map entry_id es)"
  shows "(case map_of cat i of None \<Rightarrow> None | Some p \<Rightarrow> mp_instance p) =
    map_option (\<lambda>k. ct_instance (et_contributions (es ! k))) (entry_index i es)"
proof (cases "entry_index i es")
  case None
  then have "i \<notin> entry_id ` set es" by (simp add: entry_index_None)
  with assms(1) have "\<nexists>p n. map_of cat i = Some p \<and> mp_instance p = Some n" unfolding entries_loaded_def by (metis imageI)
  then show ?thesis using None by (auto split: option.split)
next
  case (Some k)
  have "es ! k \<in> set es" "entry_id (es ! k) = i" using entry_index_Some [OF Some] by simp_all
  then have "\<exists>en\<in>set es. entry_id en = i \<and> ct_instance (et_contributions en) = ct_instance (et_contributions (es ! k))"
    by blast
  with assms(1) obtain p where "map_of cat i = Some p" "mp_instance p = Some (ct_instance (et_contributions (es ! k)))"
    unfolding entries_loaded_def by blast
  then show ?thesis by (simp add: Some)
qed

text \<open>What becomes of the owners when an entry is replaced: the old one is on its way to be retired.\<close>

lemma owners_replaced:
  assumes "distinct (map entry_id es)"
  shows "mset (map entry_pair (replaced_entries a i (Some (d, c)) es)) +
      mset (to_retire (map_option (\<lambda>k. et_life (es ! k)) (entry_index i es))
        (map_option (\<lambda>k. ct_instance (et_contributions (es ! k))) (entry_index i es))) =
      add_mset (Some a, ct_instance c) (mset (map entry_pair es))"
    "mset (map entry_pair (replaced_entries a i None es)) +
      mset (to_retire (map_option (\<lambda>k. et_life (es ! k)) (entry_index i es))
        (map_option (\<lambda>k. ct_instance (et_contributions (es ! k))) (entry_index i es))) = mset (map entry_pair es)"
proof -
  have m: "mset es = add_mset (es ! k) (mset (remove_at k es))" if "entry_index i es = Some k" for k
    using mset_remove_at [OF entry_index_Some(1) [OF that]] by simp
  have u: "mset (es[k := x]) = add_mset x (mset (remove_at k es))" if k: "entry_index i es = Some k" for k x
    using mset_insert_at [of k x "remove_at k es"] insert_remove_at [OF entry_index_Some(1) [OF k], of x] by simp
  show "mset (map entry_pair (replaced_entries a i (Some (d, c)) es)) +
      mset (to_retire (map_option (\<lambda>k. et_life (es ! k)) (entry_index i es))
        (map_option (\<lambda>k. ct_instance (et_contributions (es ! k))) (entry_index i es))) =
      add_mset (Some a, ct_instance c) (mset (map entry_pair es))"
    by (cases "entry_index i es") (simp_all add: replaced_entries_def to_retire_def u m entry_pair_def)
  show "mset (map entry_pair (replaced_entries a i None es)) +
      mset (to_retire (map_option (\<lambda>k. et_life (es ! k)) (entry_index i es))
        (map_option (\<lambda>k. ct_instance (et_contributions (es ! k))) (entry_index i es))) = mset (map entry_pair es)"
    by (cases "entry_index i es") (simp_all add: replaced_entries_def to_retire_def m entry_pair_def)
qed

section \<open>The operations keep it\<close>

text \<open>\<open>sy\<close> is \<open>sy0\<close> after \<open>prepare_plugin\<close> has made \<open>item\<close>.\<close>

definition prepared_for :: "host \<Rightarrow> string \<Rightarrow> managed_plugin \<Rightarrow> plugin_system \<Rightarrow> plugin_system \<Rightarrow> bool" where
  "prepared_for h i item sy0 sy =
     (mf_id (mp_manifest item) = i \<and> mp_enabled item = (mp_instance item \<noteq> None) \<and> (is_required h i \<longrightarrow> mp_enabled item) \<and>
      (case mp_instance item of
         None \<Rightarrow> sy = sy0
       | Some n \<Rightarrow> n = length (sy_instances sy0) \<and> (\<exists>c. ct_instance c = n \<and>
           sy = sy0\<lparr>sy_instances := sy_instances sy0 @ [\<lparr>pi_open = True, pi_contributions = c\<rparr>]\<rparr>)))"

lemma prepare_plugin_ok:
  assumes "prepare_plugin h pkg on sy0 = Inr (item, sy)"
  shows "prepared_for h (mf_id (pk_manifest pkg)) item sy0 sy \<and> mp_manifest item = pk_manifest pkg \<and> mp_digest item = pk_digest pkg"
  using assms
  by (auto simp: prepare_plugin_def metadataFromPackage_def load_instance_def prepared_for_def Let_def result_simps split: if_splits
    intro!: exI [of _ "c\<lparr>ct_instance := n\<rparr>" for c n])

text \<open>An error leaves the manager, the registry and the store as they were; a new instance is closed.\<close>

lemma close_new_ok:
  assumes "prepared_for h i item sy0 sy"
  shows "\<exists>junk. close_new item sy = sy0\<lparr>sy_instances := sy_instances sy0 @ junk\<rparr> \<and> list_all (\<lambda>i. \<not> pi_open i) junk \<and> length junk \<le> 1"
proof (cases "mp_instance item")
  case None
  with assms show ?thesis by (intro exI [of _ "[]"]) (simp add: prepared_for_def close_new_def)
next
  case (Some n)
  with assms obtain c where c: "sy = sy0\<lparr>sy_instances := sy_instances sy0 @ [\<lparr>pi_open = True, pi_contributions = c\<rparr>]\<rparr>"
    and n: "n = length (sy_instances sy0)" by (auto simp: prepared_for_def)
  then have "close_new item sy = sy0\<lparr>sy_instances := sy_instances sy0 @ [\<lparr>pi_open = False, pi_contributions = c\<rparr>]\<rparr>"
    by (simp add: close_new_def Some close_instance_def)
  then show ?thesis by (intro exI [of _ "[\<lparr>pi_open = False, pi_contributions = c\<rparr>]"]) simp
qed

lemma junk_ok:
  assumes "system_ok h sy" and "list_all (\<lambda>i. \<not> pi_open i) junk" and "length junk \<le> 1"
  shows "system_ok h (sy\<lparr>sy_instances := sy_instances sy @ junk\<rparr>)"
proof (cases junk)
  case Nil
  with assms(1) show ?thesis by simp
next
  case (Cons i js)
  with assms show ?thesis using heap_instance_closed [of sy i] by (simp add: system_ok_def book_ok_def)
qed

lemma commit_ok:
  assumes c: "commit_plugin i item archive st = Inr st'"
    and keep: "archive = None \<Longrightarrow> \<exists>p. loaded_ok h st i p \<and> mp_manifest item = mp_manifest p \<and> mp_digest item = mp_digest p"
    and item: "mf_id (mp_manifest item) = i" "mp_enabled item = (mp_instance item \<noteq> None)" "is_required h i \<longrightarrow> mp_enabled item"
  shows "loaded_ok h st' i item \<and> (\<forall>j p. j \<noteq> i \<longrightarrow> loaded_ok h st' j p = loaded_ok h st j p)"
proof (cases archive)
  case None
  from keep [OF None] c item show ?thesis
    by (auto simp: commit_plugin_def None SetPluginEnabled_def loaded_ok_def update_conv' split: option.splits)
next
  case (Some a)
  with c have "st' = SavePlugin i (recordFor item) a st" by (simp add: commit_plugin_def)
  with item show ?thesis
    by (simp add: SavePlugin_def persistPlugin_def Let_def loaded_ok_def recordFor_def update_conv')
qed

lemma entries_loaded_update:
  assumes "entries_loaded es cat" and "set es' = X \<union> {en \<in> set es. entry_id en \<noteq> i}"
    and "\<And>n. (mp_instance item = Some n) = (\<exists>en\<in>X. ct_instance (et_contributions en) = n)" and "\<forall>en\<in>X. entry_id en = i"
  shows "entries_loaded es' (AList.update i item cat)"
  unfolding entries_loaded_def
proof (intro allI)
  fix j n
  show "(\<exists>p. map_of (AList.update i item cat) j = Some p \<and> mp_instance p = Some n) =
    (\<exists>en\<in>set es'. entry_id en = j \<and> ct_instance (et_contributions en) = n)"
  proof (cases "j = i")
    case True
    with assms(2-4) show ?thesis by (auto simp: update_conv')
  next
    case False
    with assms(1) have "(\<exists>p. map_of cat j = Some p \<and> mp_instance p = Some n) =
      (\<exists>en\<in>set es. entry_id en = j \<and> ct_instance (et_contributions en) = n)" by (simp add: entries_loaded_def)
    with False assms(2,4) show ?thesis by (auto simp: update_conv')
  qed
qed

lemma publish_success:
  assumes ok: "system_ok h sy0" and prep: "prepared_for h i item sy0 sy"
    and keep: "archive = None \<Longrightarrow> \<exists>p. map_of (sy_loaded sy0) i = Some p \<and> mp_manifest item = mp_manifest p \<and> mp_digest item = mp_digest p"
    and dep: "dependencyOrder (AList.update i item (sy_loaded sy)) = Inr order"
    and pub: "publish_entry h i item archive sy = Inr (old, r, st)"
  shows "system_ok h (sy\<lparr>sy_registry := r, sy_store := st, sy_loaded := AList.update i item (sy_loaded sy), sy_order := order,
      sy_lifetimes := sy_lifetimes sy @ new_life item, sy_retiring := sy_retiring sy @ to_retire old (loaded_instance i sy)\<rparr>)"
    (is "system_ok h ?t")
proof -
  let ?es = "rg_entries (sy_registry sy0)" and ?life = "length (sy_lifetimes sy0)"
  let ?commit = "commit_plugin i item archive (sy_store sy0)"
  from prep have item: "mf_id (mp_manifest item) = i" "mp_enabled item = (mp_instance item \<noteq> None)" "is_required h i \<longrightarrow> mp_enabled item"
    unfolding prepared_for_def by blast+
  from prep have same: "sy_registry sy = sy_registry sy0" "sy_store sy = sy_store sy0" "sy_loaded sy = sy_loaded sy0"
    "sy_lifetimes sy = sy_lifetimes sy0" "sy_retiring sy = sy_retiring sy0" "sy_retirements sy = sy_retirements sy0"
    "sy_leases sy = sy_leases sy0" "sy_panic sy = sy_panic sy0"
    by (auto simp: prepared_for_def split: option.splits)
  from ok have heap: "heap_ok sy0" and reg: "registry_ok h (sy_registry sy0)" and dl: "distinct (map fst (sy_loaded sy0))"
    and lo: "\<And>i p. map_of (sy_loaded sy0) i = Some p \<Longrightarrow> loaded_ok h (sy_store sy0) i p" and el: "entries_loaded ?es (sy_loaded sy0)"
    by (simp_all add: system_ok_def book_ok_def)
  from reg have eok: "entries_ok ?es" and de: "distinct (map entry_id ?es)" by (simp_all add: registry_ok_def entries_ok_def)
  have li: "loaded_instance i sy = map_option (\<lambda>k. ct_instance (et_contributions (?es ! k))) (entry_index i ?es)"
    unfolding loaded_instance_def same by (rule loaded_instance_index [OF el de])
  define new where "new = (case mp_instance item of None \<Rightarrow> None
    | Some n \<Rightarrow> Some (to_descriptor (mp_manifest item), pi_contributions (sy_instances sy ! n)))"
  have own: "ds_id d = i" if "new = Some (d, c)" for d c
    using that item(1) by (auto simp: new_def to_descriptor_def split: option.splits)
  have facts: "rg_entries r = replaced_entries ?life i new ?es \<and> registry_ok h r \<and>
      old = map_option (\<lambda>k. et_life (?es ! k)) (entry_index i ?es) \<and> ?commit = Inr st"
  proof (cases "mp_instance item = None \<and> loaded_instance i sy = None")
    case True
    then have "entry_index i ?es = None" by (simp add: li)
    with True pub reg show ?thesis
      by (auto simp: publish_entry_def Let_def same result_simps new_def replaced_entries_def)
  next
    case False
    with pub obtain repl where t: "transition h ?life i new repl ?commit (sy_registry sy0) = Inr (old, r, st)"
      by (auto simp: publish_entry_def Let_def same new_def split: option.splits if_splits)
    show ?thesis using transition_entries [OF t eok] by blast
  qed
  then have com: "?commit = Inr st" by simp
  have "loaded_ok h st i item \<and> (\<forall>j p. j \<noteq> i \<longrightarrow> loaded_ok h st j p = loaded_ok h (sy_store sy0) j p)"
    by (rule commit_ok [OF com _ item]) (use keep lo in blast)
  then have "\<forall>j p. map_of (AList.update i item (sy_loaded sy0)) j = Some p \<longrightarrow> loaded_ok h st j p"
    using lo by (auto simp: update_conv')
  moreover have "entries_loaded (rg_entries r) (AList.update i item (sy_loaded sy0))"
  proof (rule entries_loaded_update [OF el])
    let ?X = "case new of None \<Rightarrow> {} | Some (d, c) \<Rightarrow> {\<lparr>et_life = ?life, et_descriptor = d, et_contributions = c\<rparr>}"
    show "set (rg_entries r) = ?X \<union> {en \<in> set ?es. entry_id en \<noteq> i}"
      using facts set_replaced [OF de] by (auto split: option.splits)
    show "(mp_instance item = Some n) = (\<exists>en\<in>?X. ct_instance (et_contributions en) = n)" for n
      using prep by (auto simp: new_def prepared_for_def nth_append split: option.splits)
    show "\<forall>en\<in>?X. entry_id en = i"
      using own by (auto simp: entry_id_def split: option.splits)
  qed
  ultimately have "book_ok h ?t"
    using facts dl dependencyOrder_requirements [OF dep] by (simp add: book_ok_def same distinct_update)
  moreover have "heap_ok ?t"
  proof (cases "mp_instance item")
    case None
    then have "mset (live_pairs ?t) = mset (live_pairs sy0)"
      using facts owners_replaced(2) [OF de, of ?life i] by (simp add: live_pairs_def same li new_def ac_simps)
    moreover from None prep have "sy = sy0" by (simp add: prepared_for_def)
    ultimately show ?thesis by (intro heap_same [OF heap]) (simp_all add: new_life_def None)
  next
    case (Some n)
    with prep obtain c where n: "n = length (sy_instances sy0)" and c: "ct_instance c = n"
      and sy: "sy = sy0\<lparr>sy_instances := sy_instances sy0 @ [\<lparr>pi_open = True, pi_contributions = c\<rparr>]\<rparr>"
      by (auto simp: prepared_for_def)
    then have nw: "new = Some (to_descriptor (mp_manifest item), c)" by (simp add: new_def Some)
    have "mset (live_pairs ?t) = add_mset (Some ?life, n) (mset (live_pairs sy0))"
      using facts owners_replaced(1) [OF de, of ?life i] by (simp add: live_pairs_def same li nw c ac_simps)
    then show ?thesis by (intro heap_new [OF heap]) (simp_all add: new_life_def Some n sy)
  qed
  ultimately show ?thesis by (simp add: system_ok_def)
qed

lemma publish_ok:
  assumes "system_ok h sy0" and "prepared_for h i item sy0 sy"
    and "archive = None \<Longrightarrow> \<exists>p. map_of (sy_loaded sy0) i = Some p \<and> mp_manifest item = mp_manifest p \<and> mp_digest item = mp_digest p"
  shows "system_ok h (snd (publish h i item archive sy))"
proof -
  have closed: "system_ok h (close_new item sy)"
    using close_new_ok [OF assms(2)] junk_ok [OF assms(1)] by metis
  show ?thesis
    using closed publish_success [OF assms] by (auto simp: publish_def split: sum.split)
qed

lemma tryS_ok:
  assumes "system_ok h sy" and "\<And>x. m = Inr x \<Longrightarrow> system_ok h (snd (f x))"
  shows "system_ok h (snd (tryS m sy f))"
  using assms by (auto simp: tryS_def split: sum.split)

lemma Install_ok:
  assumes "system_ok h sy"
  shows "system_ok h (snd (Install h archive sy))"
  unfolding Install_def Let_def
proof (rule tryS_ok [OF assms])
  fix pkg
  have "system_ok h (snd (tryS (prepare_plugin h pkg True sy) sy (\<lambda>(item, sy). publish h (mf_id (pk_manifest pkg)) item (Some archive) sy)))"
    by (rule tryS_ok [OF assms]) (auto dest: prepare_plugin_ok intro: publish_ok [OF assms])
  with assms show "system_ok h (snd (if sy_closed sy then (Some ManagerClosed, sy)
      else if map_of (sy_loaded sy) (mf_id (pk_manifest pkg)) \<noteq> None then (Some (AlreadyInstalled (mf_id (pk_manifest pkg))), sy)
      else tryS (prepare_plugin h pkg True sy) sy (\<lambda>(item, sy). publish h (mf_id (pk_manifest pkg)) item (Some archive) sy)))"
    by simp
qed

lemma find_plugin_Inr: "find_plugin i sy = Inr p \<longleftrightarrow> \<not> sy_closed sy \<and> map_of (sy_loaded sy) i = Some p"
  by (auto simp: find_plugin_def split: option.splits)

lemma system_loaded: "system_ok h sy \<Longrightarrow> map_of (sy_loaded sy) i = Some p \<Longrightarrow> loaded_ok h (sy_store sy) i p"
  by (simp add: system_ok_def book_ok_def)

lemma Enable_ok:
  assumes "system_ok h sy"
  shows "system_ok h (snd (Enable h i sy))"
  unfolding Enable_def
proof (rule tryS_ok [OF assms])
  fix p assume "find_plugin i sy = Inr p"
  then have p: "map_of (sy_loaded sy) i = Some p" by (simp add: find_plugin_Inr)
  then have i: "mf_id (mp_manifest p) = i" using system_loaded [OF assms] by (simp add: loaded_ok_def)
  have "system_ok h (snd (tryS (prepare_plugin h pkg True sy) sy (\<lambda>(item, sy). publish h i item None sy)))"
    if "readPackage h p (sy_store sy) = Inr pkg" for pkg
  proof (rule tryS_ok [OF assms])
    fix x assume "prepare_plugin h pkg True sy = Inr x"
    moreover obtain item sy' where x: "x = (item, sy')" by (cases x)
    ultimately have item: "prepared_for h (mf_id (pk_manifest pkg)) item sy sy'" "mp_manifest item = pk_manifest pkg"
      "mp_digest item = pk_digest pkg" using prepare_plugin_ok [of h pkg True sy item sy'] by simp_all
    from that have "pk_manifest pkg = mp_manifest p" "pk_digest pkg = mp_digest p"
      by (auto simp: readPackage_def packageMatchesInventory_def result_simps)
    with item i p have "prepared_for h i item sy sy'" "\<exists>p. map_of (sy_loaded sy) i = Some p \<and> mp_manifest item = mp_manifest p \<and>
      mp_digest item = mp_digest p" by simp_all
    then show "system_ok h (snd (case x of (item, sy) \<Rightarrow> publish h i item None sy))"
      unfolding x prod.case by (rule publish_ok [OF assms])
  qed
  then show "system_ok h (snd (if mp_enabled p then (None, sy) else tryS (readPackage h p (sy_store sy)) sy
      (\<lambda>pkg. tryS (prepare_plugin h pkg True sy) sy (\<lambda>(item, sy). publish h i item None sy))))"
    using assms by (simp add: tryS_ok [OF assms])
qed

lemma Disable_ok:
  assumes "system_ok h sy"
  shows "system_ok h (snd (Disable h i sy))"
proof (cases "is_required h i")
  case True
  with assms show ?thesis by (simp add: Disable_def)
next
  case False
  have "system_ok h (snd (publish h i (p\<lparr>mp_instance := None, mp_enabled := False\<rparr>) None sy))" if "find_plugin i sy = Inr p" for p
  proof (rule publish_ok [OF assms])
    from that have p: "map_of (sy_loaded sy) i = Some p" by (simp add: find_plugin_Inr)
    with system_loaded [OF assms] False show "prepared_for h i (p\<lparr>mp_instance := None, mp_enabled := False\<rparr>) sy sy"
      by (auto simp: prepared_for_def loaded_ok_def)
    show "\<exists>q. map_of (sy_loaded sy) i = Some q \<and> mp_manifest (p\<lparr>mp_instance := None, mp_enabled := False\<rparr>) = mp_manifest q \<and>
      mp_digest (p\<lparr>mp_instance := None, mp_enabled := False\<rparr>) = mp_digest q" using p by simp
  qed
  with assms False show ?thesis by (auto simp: Disable_def intro!: tryS_ok)
qed

lemma Upgrade_ok:
  assumes "system_ok h sy"
  shows "system_ok h (snd (Upgrade h i archive sy))"
proof -
  have "system_ok h (snd (tryS (prepare_plugin h pkg on sy) sy (\<lambda>(item, sy). publish h i item (Some archive) sy)))"
    if "mf_id (pk_manifest pkg) = i" for pkg on
    by (rule tryS_ok [OF assms]) (use that in \<open>auto dest: prepare_plugin_ok intro: publish_ok [OF assms]\<close>)
  with assms show ?thesis by (simp add: Upgrade_def tryS_ok [OF assms])
qed

lemma delete_loaded_ok: "j \<noteq> i \<Longrightarrow> loaded_ok h (DeletePlugin i st) j p = loaded_ok h st j p"
  by (simp add: loaded_ok_def DeletePlugin_def delete_conv')

lemma Uninstall_ok:
  assumes ok: "system_ok h sy"
  shows "system_ok h (snd (Uninstall h i sy))"
proof (cases "is_required h i")
  case True
  with assms show ?thesis by (simp add: Uninstall_def)
next
  case False
  let ?es = "rg_entries (sy_registry sy)" and ?cat = "sy_loaded sy"
  from ok have heap: "heap_ok sy" and reg: "registry_ok h (sy_registry sy)" and dl: "distinct (map fst ?cat)"
    and lo: "\<And>i p. map_of ?cat i = Some p \<Longrightarrow> loaded_ok h (sy_store sy) i p" and el: "entries_loaded ?es ?cat"
    by (simp_all add: system_ok_def book_ok_def)
  from reg have eok: "entries_ok ?es" and de: "distinct (map entry_id ?es)" by (simp_all add: registry_ok_def entries_ok_def)
  have after: "system_ok h (sy\<lparr>sy_registry := r, sy_store := st, sy_loaded := AList.delete i ?cat, sy_order := order,
      sy_retiring := sy_retiring sy @ to_retire old (mp_instance p)\<rparr>)" (is "system_ok h ?t")
    if p: "map_of ?cat i = Some p"
      and dep: "dependencyOrder (AList.delete i ?cat) = Inr order"
      and t: "(if mp_instance p \<noteq> None then transition h 0 i None True (Inr (DeletePlugin i (sy_store sy))) (sy_registry sy)
        else bindR (Inr (DeletePlugin i (sy_store sy))) (\<lambda>st. Inr (None, sy_registry sy, st))) = Inr (old, r, st)" for p order old r st
  proof -
    have li: "mp_instance p = map_option (\<lambda>k. ct_instance (et_contributions (?es ! k))) (entry_index i ?es)"
      using loaded_instance_index [OF el de, of i] p by simp
    have facts: "rg_entries r = replaced_entries 0 i None ?es \<and> registry_ok h r \<and>
        old = map_option (\<lambda>k. et_life (?es ! k)) (entry_index i ?es) \<and> st = DeletePlugin i (sy_store sy)"
    proof (cases "mp_instance p")
      case None
      then have "entry_index i ?es = None" by (simp add: li)
      with None t reg show ?thesis by (auto simp: replaced_entries_def)
    next
      case (Some n)
      with t have "transition h 0 i None True (Inr (DeletePlugin i (sy_store sy))) (sy_registry sy) = Inr (old, r, st)" by simp
      from transition_entries [OF this eok] show ?thesis by simp
    qed
    have "mset (live_pairs ?t) = mset (live_pairs sy)"
      using facts owners_replaced(2) [OF de, of 0 i] by (simp add: live_pairs_def li ac_simps)
    then have "heap_ok ?t" by (intro heap_same [OF heap]) simp_all
    moreover have "entries_loaded (rg_entries r) (AList.delete i ?cat)"
      using facts set_replaced(2) [OF de, of 0 i] el by (fastforce simp: entries_loaded_def delete_conv')
    ultimately show ?thesis
      using facts dl lo dependencyOrder_requirements [OF dep] by (auto simp: system_ok_def book_ok_def distinct_delete delete_conv' delete_loaded_ok split: if_splits)
  qed
  show ?thesis
    unfolding Uninstall_def Let_def using False after
    by (auto intro!: tryS_ok [OF ok] simp: find_plugin_Inr split del: if_split)
qed

text \<open>\<open>Close\<close> retires the instances of all entries.\<close>

lemma entry_index_self:
  assumes "distinct (map entry_id es)" and "en \<in> set es"
  shows "\<exists>k. entry_index (entry_id en) es = Some k \<and> es ! k = en"
proof -
  obtain k where k: "entry_index (entry_id en) es = Some k"
    using assms(2) entry_index_None [of "entry_id en" es] by (cases "entry_index (entry_id en) es") auto
  from assms(2) obtain m where m: "m < length es" "es ! m = en" by (auto simp: in_set_conv_nth)
  with assms(1) entry_index_Some [OF k] have "m = k" by (metis length_map nth_eq_iff_index_eq nth_map)
  with k m show ?thesis by blast
qed

lemma closed_owners:
  assumes el: "entries_loaded es cat" and de: "distinct (map entry_id es)" and dc: "distinct (map fst cat)"
  shows "mset (concat (map (\<lambda>(i, p). to_retire (map_option (\<lambda>k. et_life (es ! k)) (entry_index i es)) (mp_instance p)) cat)) =
    mset (map entry_pair es)"
proof -
  define life where "life i = map_option (\<lambda>k. et_life (es ! k)) (entry_index i es)" for i
  define inst where "inst i = the (case map_of cat i of None \<Rightarrow> None | Some p \<Rightarrow> mp_instance p)" for i
  define ids where "ids = map fst (filter (\<lambda>(i, p). mp_instance p \<noteq> None) cat)"
  have part: "concat (map (\<lambda>(i, p). to_retire (life i) (mp_instance p)) xs) = map (\<lambda>i. (life i, inst i)) (map fst (filter (\<lambda>(i, p). mp_instance p \<noteq> None) xs))"
    if "set xs \<subseteq> set cat" for xs
    using that
  proof (induction xs)
    case (Cons x xs)
    obtain i p where x: "x = (i, p)" by (cases x)
    with Cons.prems dc have "map_of cat i = Some p" by simp
    with Cons x show ?case by (auto simp: to_retire_def inst_def split: option.splits)
  qed simp
  have "distinct ids"
    using dc unfolding ids_def by (rule distinct_map_filter)
  moreover have "set ids = set (map entry_id es)"
  proof -
    have "i \<in> set ids \<longleftrightarrow> (\<exists>p n. map_of cat i = Some p \<and> mp_instance p = Some n)" for i
      using dc by (force simp: ids_def image_iff)
    moreover have "(\<exists>p n. map_of cat i = Some p \<and> mp_instance p = Some n) =
        (\<exists>n. \<exists>en\<in>set es. entry_id en = i \<and> ct_instance (et_contributions en) = n)" for i
      using el unfolding entries_loaded_def by blast
    ultimately show ?thesis by (auto simp: set_eq_iff)
  qed
  ultimately have "mset ids = mset (map entry_id es)" using de set_eq_iff_mset_eq_distinct [of ids "map entry_id es"] by blast
  then have "mset (map (\<lambda>i. (life i, inst i)) ids) = mset (map (\<lambda>i. (life i, inst i)) (map entry_id es))"
    by (metis mset_map)
  also have "map (\<lambda>i. (life i, inst i)) (map entry_id es) = map entry_pair es"
  proof -
    have "(life (entry_id en), inst (entry_id en)) = entry_pair en" if en: "en \<in> set es" for en
      using entry_index_self [OF de en] loaded_instance_index [OF el de, of "entry_id en"]
      by (auto simp: life_def inst_def entry_pair_def)
    then show ?thesis by simp
  qed
  finally show ?thesis using part [OF order_refl] unfolding ids_def life_def by simp
qed

lemma Close_ok:
  assumes ok: "system_ok h sy"
  shows "system_ok h (Close h sy)"
proof (cases "sy_closed sy")
  case True
  with ok show ?thesis by (simp add: Close_def)
next
  case False
  let ?es = "rg_entries (sy_registry sy)" and ?cat = "sy_loaded sy"
  from ok have heap: "heap_ok sy" and reg: "registry_ok h (sy_registry sy)" and dl: "distinct (map fst ?cat)"
    and el: "entries_loaded ?es ?cat"
    by (simp_all add: system_ok_def book_ok_def)
  from reg have de: "distinct (map entry_id ?es)" by (simp add: registry_ok_def entries_ok_def)
  have "entry_id en \<in> set (map fst ?cat)" if "en \<in> set ?es" for en
  proof -
    from that el obtain p where "map_of ?cat (entry_id en) = Some p" unfolding entries_loaded_def by blast
    then show ?thesis by (metis domI dom_map_of_conv_image_fst set_map)
  qed
  then have none: "filter (\<lambda>en. entry_id en \<notin> set (map fst ?cat)) ?es = []" by (simp add: filter_empty_conv)
  then have d: "rg_entries (detach h (map fst ?cat) (sy_registry sy)) = []"
    by (auto simp: detach_def Let_def publishEntries_def)
  have r: "registry_ok h (detach h (map fst ?cat) (sy_registry sy))"
    using none reg by (auto simp: detach_def Let_def publishEntries_def registry_ok_def entries_ok_def requirements_active_def)
  have "mset (live_pairs (Close h sy)) = mset (live_pairs sy)"
    using False closed_owners [OF el de dl] by (simp add: Close_def live_pairs_def d life_of_def ac_simps del: mset_concat)
  then have "heap_ok (Close h sy)" by (intro heap_same [OF heap]) (simp_all add: Close_def)
  moreover have "book_ok h (Close h sy)"
    using False r by (simp add: book_ok_def Close_def d entries_loaded_def requirements_on_def plugin_on_def)
  ultimately show ?thesis by (simp add: system_ok_def)
qed

section \<open>Start-up keeps it\<close>

lemma heap_registry: "heap_ok sy \<Longrightarrow> rg_entries r = rg_entries (sy_registry sy) \<Longrightarrow> heap_ok (sy\<lparr>sy_registry := r\<rparr>)"
  by (rule heap_same) (simp_all add: live_pairs_def)

text \<open>Closing the instance of an entry that is given up.\<close>

lemma heap_drop:
  assumes ok: "heap_ok sy" and es: "rg_entries (sy_registry sy) = en # es" and r: "rg_entries r = es"
    and free: "et_life en \<notin># held sy"
  shows "heap_ok (close_instance (ct_instance (et_contributions en)) (sy\<lparr>sy_registry := r\<rparr>))" (is "heap_ok ?t")
proof -
  let ?a = "et_life en" and ?n = "ct_instance (et_contributions en)" and ?ls = "sy_lifetimes sy"
  let ?L = "lives (map entry_pair es @ sy_retiring sy)" and ?W = "lives (waiting_pairs sy)"
  have lp: "live_pairs sy = entry_pair en # map entry_pair es @ sy_retiring sy"
    by (simp add: live_pairs_def es)
  have L: "lives (live_pairs sy) = add_mset ?a ?L" by (simp add: lp lives_def entry_pair_def)
  have t: "live_pairs ?t = map entry_pair es @ sy_retiring sy" "waiting_pairs ?t = waiting_pairs sy"
    "sy_lifetimes ?t = ?ls" "held ?t = held sy" "sy_panic ?t = sy_panic sy"
    by (simp_all add: live_pairs_def waiting_pairs_def waiting_def close_instance_def held_def r)
  from ok have p: "list_all (paired ?ls) (entry_pair en # map entry_pair es @ sy_retiring sy @ waiting_pairs sy)"
    and ro: "retired_ok ?ls (add_mset ?a ?L) ?W" and refs: "refs_ok ?ls (held sy)" and np: "\<not> sy_panic sy"
    and io: "instances_ok ?ls (sy_instances sy) (add_mset ?a (?L + ?W))"
    unfolding heap_ok_def L lives_append [of "live_pairs sy"] by (simp_all add: lp)
  from p have a: "?a < length ?ls" "?n = lt_instance (?ls ! ?a)" by (simp_all add: paired_def entry_pair_def)
  have c: "count (add_mset ?a ?L + ?W) b \<le> 1" for b using ro unfolding retired_ok_def by blast
  have new: "?a \<notin># ?L + ?W" using c [of ?a] by (simp flip: count_eq_zero_iff)
  have "count (?L + ?W) b \<le> 1" for b
    using c [of b] by (simp split: if_splits)
  then have "retired_ok ?ls ?L ?W" using ro unfolding retired_ok_def by simp
  moreover have "instances_ok ?ls (sy_instances ?t) (?L + ?W)"
    using instances_close [OF io a(1) new a(2)] by (simp add: close_instance_def)
  moreover have "set_mset (held sy) \<subseteq> set_mset (?L + ?W)"
    using ok free unfolding heap_ok_def L lives_append [of "live_pairs sy"] by auto
  ultimately show ?thesis
    using p refs np by (simp add: heap_ok_def t lives_append add.assoc)
qed

lemma heap_drop_all:
  "heap_ok (sy\<lparr>sy_registry := r\<rparr>) \<Longrightarrow> rg_entries r = es \<Longrightarrow> rg_entries (sy_registry sy) = [] \<Longrightarrow> \<forall>en\<in>set es. et_life en \<notin># held sy \<Longrightarrow>
   heap_ok (fold close_instance (map (\<lambda>en. ct_instance (et_contributions en)) es) sy)"
proof (induction es arbitrary: sy r)
  case Nil
  from heap_registry [OF Nil.prems(1), of "sy_registry sy"] Nil.prems show ?case by simp
next
  case (Cons en es)
  let ?n = "ct_instance (et_contributions en)"
  have "held (sy\<lparr>sy_registry := r\<rparr>) = held sy" and h: "held (close_instance ?n sy) = held sy"
    by (simp_all add: held_def close_instance_def)
  with heap_drop [OF Cons.prems(1), of en es "r\<lparr>rg_entries := es\<rparr>"] Cons.prems(2,4)
  moreover have "close_instance ?n (sy\<lparr>sy_registry := q\<rparr>) = (close_instance ?n sy)\<lparr>sy_registry := q\<rparr>" for q
    by (cases sy) (simp add: close_instance_def)
  ultimately have "heap_ok ((close_instance ?n sy)\<lparr>sy_registry := r\<lparr>rg_entries := es\<rparr>\<rparr>)" by simp
  from Cons.IH [OF this] Cons.prems(3,4) h show ?case by (simp add: close_instance_def)
qed

lemma fold_close_append:
  "\<forall>n\<in>set ns. n < length (sy_instances sy) \<Longrightarrow>
   fold close_instance ns (sy\<lparr>sy_instances := sy_instances sy @ [i]\<rparr>) =
   (fold close_instance ns sy)\<lparr>sy_instances := sy_instances (fold close_instance ns sy) @ [i]\<rparr>"
proof (induction ns arbitrary: sy)
  case (Cons n ns)
  have "close_instance n (sy\<lparr>sy_instances := sy_instances sy @ [i]\<rparr>) =
    (close_instance n sy)\<lparr>sy_instances := sy_instances (close_instance n sy) @ [i]\<rparr>"
    using Cons.prems by (simp add: close_instance_def nth_append list_update_append)
  with Cons.IH [of "close_instance n sy"] Cons.prems show ?case by (simp add: close_instance_def)
qed simp

definition boot_loaded :: "host \<Rightarrow> plugin_store \<Rightarrow> string \<Rightarrow> managed_plugin \<Rightarrow> bool" where
  "boot_loaded h st i p =
     (mf_id (mp_manifest p) = i \<and> (mp_instance p \<noteq> None \<longrightarrow> mp_enabled p) \<and>
      (\<exists>r. map_of (st_installs st) i = Some r \<and> in_enabled r = mp_enabled p \<and> in_manifest r = mp_manifest p \<and> in_digest r = mp_digest p))"

definition boot_catalog :: "host \<Rightarrow> plugin_store \<Rightarrow> plugin_catalog \<Rightarrow> bool" where
  "boot_catalog h st cat = (distinct (map fst cat) \<and> (\<forall>i p. map_of cat i = Some p \<longrightarrow> boot_loaded h st i p))"

definition from_record :: "(string \<times> install) set \<Rightarrow> string \<times> managed_plugin \<Rightarrow> bool" where
  "from_record R x =
     (mf_id (mp_manifest (snd x)) = fst x \<and> mp_instance (snd x) = None \<and>
      (\<exists>r. (fst x, r) \<in> R \<and> in_enabled r = mp_enabled (snd x) \<and> in_manifest r = mp_manifest (snd x) \<and> in_digest r = mp_digest (snd x)))"

lemma catalog_loop:
  assumes "forR rs (\<lambda>(i, r) cat.
       if map_of cat i \<noteq> None then Inl (DuplicateStored i)
       else if i \<noteq> mf_id (in_manifest r) then Inl IdentityMismatch
       else bindR (loadSettings h (in_manifest r)) (\<lambda>settings.
         Inr (cat @ [(i, \<lparr>mp_enabled = in_enabled r, mp_manifest = in_manifest r, mp_readme = in_readme r, mp_settings = settings,
           mp_digest = in_digest r, mp_instance = None\<rparr>)]))) cat0 = Inr cat"
    and "distinct (map fst cat0)" and "\<forall>x\<in>set cat0. from_record R x" and "set rs \<subseteq> R"
  shows "map fst cat = map fst cat0 @ map fst rs \<and> distinct (map fst cat) \<and> (\<forall>x\<in>set cat. from_record R x)"
  using assms
proof (induction rs arbitrary: cat0)
  case (Cons x rs)
  obtain i r where x: "x = (i, r)" by (cases x)
  let ?body = "\<lambda>(i, r) cat.
       if map_of cat i \<noteq> None then Inl (DuplicateStored i)
       else if i \<noteq> mf_id (in_manifest r) then Inl IdentityMismatch
       else bindR (loadSettings h (in_manifest r)) (\<lambda>settings.
         Inr (cat @ [(i, \<lparr>mp_enabled = in_enabled r, mp_manifest = in_manifest r, mp_readme = in_readme r, mp_settings = settings,
           mp_digest = in_digest r, mp_instance = None\<rparr>)]))"
  from Cons.prems(1) x obtain settings where new: "map_of cat0 i = None" "mf_id (in_manifest r) = i"
    and rest: "forR rs ?body (cat0 @ [(i, \<lparr>mp_enabled = in_enabled r, mp_manifest = in_manifest r,
           mp_readme = in_readme r, mp_settings = settings, mp_digest = in_digest r, mp_instance = None\<rparr>)]) = Inr cat"
    by (auto simp: result_simps split: if_splits)
  define y where "y = (i, \<lparr>mp_enabled = in_enabled r, mp_manifest = in_manifest r,
           mp_readme = in_readme r, mp_settings = settings, mp_digest = in_digest r, mp_instance = None\<rparr>)"
  have "from_record R y" using Cons.prems(4) new(2) by (auto simp: from_record_def y_def x)
  moreover have "fst y = i" by (simp add: y_def)
  ultimately have step: "map fst cat = map fst (cat0 @ [y]) @ map fst rs \<and> distinct (map fst cat) \<and> (\<forall>x\<in>set cat. from_record R x)"
    using Cons.prems(2-4) new(1) by (intro Cons.IH [OF rest [folded y_def]]) (auto simp: map_of_eq_None_iff)
  then have "map fst cat = map fst cat0 @ map fst (x # rs)" using \<open>fst y = i\<close> by (simp add: x)
  with step show ?case by blast
qed simp

lemma catalogFromRecords_ok:
  assumes "catalogFromRecords h (ListPlugins st) = Inr cat"
  shows "boot_catalog h st cat \<and> (\<forall>i p. map_of cat i = Some p \<longrightarrow> mp_instance p = None)"
proof -
  have loop: "map fst cat = map fst (ListPlugins st) \<and> distinct (map fst cat) \<and> (\<forall>x\<in>set cat. from_record (set (ListPlugins st)) x)"
    by (rule catalog_loop [OF assms [unfolded catalogFromRecords_def], of "set (ListPlugins st)", unfolded list.map append_Nil]) simp_all
  have m: "mset (map fst (ListPlugins st)) = mset (map fst (st_installs st))"
    by (simp add: ListPlugins_def)
  from loop have keys: "map fst cat = map fst (ListPlugins st)" and dc: "distinct (map fst cat)" by blast+
  from dc have "distinct (map fst (ListPlugins st))" unfolding keys .
  then have d: "distinct (map fst (st_installs st))" using m by (metis mset_eq_imp_distinct_iff)
  have "boot_loaded h st i p \<and> mp_instance p = None" if "map_of cat i = Some p" for i p
  proof -
    from map_of_SomeD [OF that] loop obtain r where "(i, r) \<in> set (ListPlugins st)" "mf_id (mp_manifest p) = i" "mp_instance p = None"
      "in_enabled r = mp_enabled p" "in_manifest r = mp_manifest p" "in_digest r = mp_digest p"
      by (fastforce simp: from_record_def)
    with d show ?thesis by (auto simp: boot_loaded_def ListPlugins_def)
  qed
  with dc show ?thesis by (simp only: boot_catalog_def) blast
qed

lemma seed_loop_false: "seed_loop h d cat bs seen seeded st = (Inr False, st') \<Longrightarrow> st' = st \<and> \<not> seeded"
  by (induction h d cat bs seen seeded st rule: seed_loop.induct) (auto split: if_splits sum.splits)

lemma seedMissing_false: "seedMissingPlugins h d cat st = (Inr False, st') \<Longrightarrow> st' = st"
  by (auto simp: seedMissingPlugins_def dest: seed_loop_false split: option.splits)

lemma enable_loop_ok:
  assumes "enable_loop is cat st = (Inr cat', st')" and "boot_catalog h st cat" and "\<forall>i p. map_of cat i = Some p \<longrightarrow> mp_instance p = None"
  shows "boot_catalog h st' cat' \<and> (\<forall>i p. map_of cat' i = Some p \<longrightarrow> mp_instance p = None) \<and>
    (\<forall>i. i \<in> set is \<or> plugin_on cat i \<longrightarrow> plugin_on cat' i)"
  using assms
proof (induction "is" cat st rule: enable_loop.induct)
  case (2 i "is" cat st)
  from "2.prems"(1) obtain p where p: "map_of cat i = Some p" by (auto split: option.splits)
  show ?case
  proof (cases "mp_enabled p")
    case True
    with "2.prems" p "2.IH"(1) [OF p True] show ?thesis by (auto simp: plugin_on_def split: option.splits)
  next
    case False
    with "2.prems"(1) p obtain st1 where st1: "SetPluginEnabled i True st = Inr st1"
      and rest: "enable_loop is (AList.update i (p\<lparr>mp_enabled := True\<rparr>) cat) st1 = (Inr cat', st')"
      by (auto split: sum.splits)
    from st1 obtain r where r: "map_of (st_installs st) i = Some r"
      and st1': "st1 = st\<lparr>st_installs := AList.update i (r\<lparr>in_enabled := True\<rparr>) (st_installs st)\<rparr>"
      by (auto simp: SetPluginEnabled_def split: option.splits)
    from "2.prems"(2) p have bp: "boot_loaded h st i p" by (simp add: boot_catalog_def)
    have "boot_catalog h st1 (AList.update i (p\<lparr>mp_enabled := True\<rparr>) cat)"
      using "2.prems"(2) bp r by (auto simp: boot_catalog_def boot_loaded_def st1' update_conv' distinct_update)
    moreover have "\<forall>j q. map_of (AList.update i (p\<lparr>mp_enabled := True\<rparr>) cat) j = Some q \<longrightarrow> mp_instance q = None"
      using "2.prems"(3) p by (auto simp: update_conv')
    moreover have "plugin_on (AList.update i (p\<lparr>mp_enabled := True\<rparr>) cat) j = (j = i \<or> plugin_on cat j)" for j
      by (auto simp: plugin_on_def update_conv' split: option.splits)
    ultimately show ?thesis using "2.IH"(2) [OF p False st1 rest] by auto
  qed
qed simp

lemma enableRequired_ok:
  assumes "enableRequiredPlugins h cat st = (Inr cat', st')" and "boot_catalog h st cat" and "\<forall>i p. map_of cat i = Some p \<longrightarrow> mp_instance p = None"
  shows "boot_catalog h st' cat' \<and> (\<forall>i p. map_of cat' i = Some p \<longrightarrow> mp_instance p = None) \<and>
    (\<forall>i p. map_of cat' i = Some p \<longrightarrow> is_required h i \<longrightarrow> mp_enabled p)"
proof -
  from assms(1) have "enable_loop (sort (remdups (ho_required h))) cat st = (Inr cat', st')"
    by (auto simp: enableRequiredPlugins_def Let_def split: option.splits)
  from enable_loop_ok [OF this assms(2,3)] show ?thesis
    by (auto simp: is_required_def plugin_on_def split: option.splits)
qed

text \<open>The instances that are still to be loaded, and the state of \<open>prepare_instances\<close>.\<close>

definition to_load :: "plugin_catalog \<Rightarrow> string set" where
  "to_load cat = {i. \<exists>p. map_of cat i = Some p \<and> mp_enabled p \<and> mp_instance p = None}"

definition boot_ok :: "host \<Rightarrow> plugin_system \<Rightarrow> plugin_catalog \<Rightarrow> registry \<Rightarrow> nat list \<Rightarrow> plugin_system \<Rightarrow> bool" where
  "boot_ok h sy0 cat cand prepared sy =
     (heap_ok (sy\<lparr>sy_registry := cand\<rparr>) \<and> entries_ok (rg_entries cand) \<and> requirements_active (rg_entries cand) \<and>
      prepared = map (\<lambda>en. ct_instance (et_contributions en)) (rg_entries cand) \<and> boot_catalog h (sy_store sy0) cat \<and>
      entries_loaded (rg_entries cand) cat \<and>
      (\<forall>i p. map_of cat i = Some p \<longrightarrow> is_required h i \<longrightarrow> mp_enabled p) \<and> requirements_on cat \<and>
      (\<forall>en\<in>set (rg_entries cand). et_life en \<notin># held sy0) \<and>
      (\<exists>ns ls. sy = sy0\<lparr>sy_instances := ns, sy_lifetimes := ls\<rparr>))"

lemma boot_instance_Inr:
  assumes "boot_instance h item sy = Inr (n, sy1)"
  shows "\<exists>c. n = length (sy_instances sy) \<and> ct_instance c = n \<and>
    sy1 = sy\<lparr>sy_instances := sy_instances sy @ [\<lparr>pi_open = True, pi_contributions = c\<rparr>]\<rparr>"
proof -
  from assms obtain pkg where "(case load_instance h pkg sy of Inl err \<Rightarrow> Inl (LoadFailed (mf_id (mp_manifest item)) err) | Inr x \<Rightarrow> Inr x) = Inr (n, sy1)"
    unfolding boot_instance_def bindR_eq_Inr by blast
  then have "load_instance h pkg sy = Inr (n, sy1)" by (cases "load_instance h pkg sy") simp_all
  then obtain c where "n = length (sy_instances sy)"
    "sy1 = sy\<lparr>sy_instances := sy_instances sy @ [\<lparr>pi_open = True, pi_contributions = c\<lparr>ct_instance := length (sy_instances sy)\<rparr>\<rparr>]\<rparr>"
    by (auto simp: load_instance_def Let_def result_simps)
  then show ?thesis by (intro exI [of _ "c\<lparr>ct_instance := n\<rparr>"]) simp
qed

lemma requirements_on_instance:
  assumes "map_of cat i = Some p"
  shows "requirements_on (AList.update i (p\<lparr>mp_instance := n\<rparr>) cat) = requirements_on cat"
proof -
  have "plugin_on (AList.update i (p\<lparr>mp_instance := n\<rparr>) cat) j = plugin_on cat j"
    "plugin_requires (AList.update i (p\<lparr>mp_instance := n\<rparr>) cat) j = plugin_requires cat j" for j
    using assms by (simp_all add: plugin_on_def plugin_requires_def update_conv')
  then show ?thesis by (simp add: requirements_on_def)
qed

text \<open>One plugin is loaded and registered.\<close>

lemma boot_step:
  assumes ok: "boot_ok h sy0 cat cand prepared sy" and p: "map_of cat i = Some p" "mp_enabled p"
    and b: "boot_instance h p sy = Inr (n, sy1)"
    and r: "Register h (length (sy_lifetimes sy1)) (to_descriptor (mp_manifest p)) (pi_contributions (sy_instances sy1 ! n)) cand = Inr cand1"
  shows "boot_ok h sy0 (AList.update i (p\<lparr>mp_instance := Some n\<rparr>) cat) cand1 (prepared @ [n])
    (sy1\<lparr>sy_lifetimes := sy_lifetimes sy1 @ [newLifetime n]\<rparr>)"
proof -
  from boot_instance_Inr [OF b] obtain c where n: "n = length (sy_instances sy)" and c: "ct_instance c = n"
    and sy1: "sy1 = sy\<lparr>sy_instances := sy_instances sy @ [\<lparr>pi_open = True, pi_contributions = c\<rparr>]\<rparr>" by blast
  let ?en = "\<lparr>et_life = length (sy_lifetimes sy), et_descriptor = to_descriptor (mp_manifest p), et_contributions = c\<rparr>"
  let ?sy = "sy1\<lparr>sy_lifetimes := sy_lifetimes sy1 @ [newLifetime n]\<rparr>"
  from ok have heap: "heap_ok (sy\<lparr>sy_registry := cand\<rparr>)" and eok: "entries_ok (rg_entries cand)"
    and req: "requirements_active (rg_entries cand)" and el: "entries_loaded (rg_entries cand) cat"
    and bc: "boot_catalog h (sy_store sy0) cat" and pre: "prepared = map (\<lambda>en. ct_instance (et_contributions en)) (rg_entries cand)"
    by (simp_all add: boot_ok_def)
  have "pi_contributions (sy_instances sy1 ! n) = c" by (simp add: sy1 n)
  with r have r': "Register h (length (sy_lifetimes sy)) (to_descriptor (mp_manifest p)) c cand = Inr cand1" by (simp add: sy1)
  note reg = Register_ok [OF r' eok]
  then have es: "rg_entries cand1 = rg_entries cand @ [?en]" by (simp add: publishEntries_def)
  from bc p have bl: "boot_loaded h (sy_store sy0) i p" unfolding boot_catalog_def by blast
  then have id: "mf_id (mp_manifest p) = i" by (simp add: boot_loaded_def)
  have eid: "entry_id ?en = i" by (simp add: entry_id_def to_descriptor_def id)
  have "heap_ok (?sy\<lparr>sy_registry := cand1\<rparr>)"
    by (rule heap_new [OF heap, of _ c]) (simp_all add: live_pairs_def es sy1 n c [unfolded n] entry_pair_def)
  moreover have "requirements_active (rg_entries cand1)"
    using req reg unfolding requirements_active_def es by (auto simp: to_descriptor_def)
  moreover have "entries_loaded (rg_entries cand1) (AList.update i (p\<lparr>mp_instance := Some n\<rparr>) cat)"
  proof (rule entries_loaded_update [OF el, of _ "{?en}"])
    have "entry_id en \<noteq> i" if "en \<in> set (rg_entries cand)" for en
      using reg that by (auto simp: to_descriptor_def id)
    then show "set (rg_entries cand1) = {?en} \<union> {en \<in> set (rg_entries cand). entry_id en \<noteq> i}" by (auto simp: es)
  qed (use c eid in auto)
  moreover have "boot_catalog h (sy_store sy0) (AList.update i (p\<lparr>mp_instance := Some n\<rparr>) cat)"
    using bc bl p(2) by (auto simp: boot_catalog_def boot_loaded_def distinct_update update_conv')
  moreover have "\<forall>j q. map_of (AList.update i (p\<lparr>mp_instance := Some n\<rparr>) cat) j = Some q \<longrightarrow> is_required h j \<longrightarrow> mp_enabled q"
    using ok p by (auto simp: boot_ok_def update_conv')
  moreover have "\<exists>ns ls. ?sy = sy0\<lparr>sy_instances := ns, sy_lifetimes := ls\<rparr>"
  proof -
    from ok obtain ns ls where "sy = sy0\<lparr>sy_instances := ns, sy_lifetimes := ls\<rparr>" by (auto simp: boot_ok_def)
    then show ?thesis
      by (intro exI [of _ "sy_instances ?sy"] exI [of _ "sy_lifetimes ?sy"]) (simp add: sy1)
  qed
  moreover have "entries_ok (rg_entries cand1)" unfolding es using reg by blast
  moreover have "requirements_on (AList.update i (p\<lparr>mp_instance := Some n\<rparr>) cat)"
    using ok p(1) by (simp add: boot_ok_def requirements_on_instance)
  moreover have "\<forall>en\<in>set (rg_entries cand1). et_life en \<notin># held sy0"
  proof -
    from ok have "held (sy\<lparr>sy_registry := cand\<rparr>) = held sy0" by (auto simp: boot_ok_def held_def)
    with heap have "length (sy_lifetimes sy) \<notin># held sy0" by (auto simp: heap_ok_def refs_ok_def)
    with ok show ?thesis by (simp add: es boot_ok_def)
  qed
  moreover have "prepared @ [n] = map (\<lambda>en. ct_instance (et_contributions en)) (rg_entries cand1)" by (simp add: es pre c)
  ultimately show ?thesis unfolding boot_ok_def by blast
qed

lemma prepare_instances_ok:
  assumes "prepare_instances h is cat cand prepared sy = (res, cat', cand', prepared', sy')" and "boot_ok h sy0 cat cand prepared sy"
  shows "boot_ok h sy0 cat' cand' prepared' sy' \<and> (res = None \<longrightarrow> to_load cat' \<subseteq> to_load cat - set is) \<or>
    res \<noteq> None \<and> (\<exists>ps sx c. prepared' = ps @ [length (sy_instances sx)] \<and> boot_ok h sy0 cat' cand' ps sx \<and>
      sy' = sx\<lparr>sy_instances := sy_instances sx @ [\<lparr>pi_open = True, pi_contributions = c\<rparr>]\<rparr>)"
  using assms
proof (induction h "is" cat cand prepared sy rule: prepare_instances.induct)
  case (2 h i "is" cat cand prepared sy)
  show ?case
  proof (cases "\<exists>p. map_of cat i = Some p \<and> mp_enabled p")
    case False
    then have skip: "i \<notin> to_load cat" by (auto simp: to_load_def)
    have "prepare_instances h is cat cand prepared sy = (res, cat', cand', prepared', sy')"
      using "2.prems"(1) False by (auto split: option.splits)
    with "2.IH" "2.prems"(2) False skip show ?thesis by (cases "map_of cat i") fastforce+
  next
    case True
    then obtain p where p: "map_of cat i = Some p" "mp_enabled p" by blast
    then have ne: "\<not> \<not> mp_enabled p" by simp
    show ?thesis
    proof (cases "boot_instance h p sy")
      case (Inl err)
      with "2.prems" p show ?thesis by auto
    next
      case (Inr x)
      obtain n sy1 where x: "x = (n, sy1)" by (cases x)
      note b = Inr [unfolded x]
      show ?thesis
      proof (cases "Register h (length (sy_lifetimes sy1)) (to_descriptor (mp_manifest p)) (pi_contributions (sy_instances sy1 ! n)) cand")
        case (Inl err)
        with "2.prems"(1) p b have "res \<noteq> None" "cat' = cat" "cand' = cand" "prepared' = prepared @ [n]" "sy' = sy1" by auto
        with boot_instance_Inr [OF b] "2.prems"(2) show ?thesis by blast
      next
        case (Inr cand1)
        note ok = boot_step [OF "2.prems"(2) p b Inr]
        from "2.prems"(1) p b Inr have rest: "prepare_instances h is (AList.update i (p\<lparr>mp_instance := Some n\<rparr>) cat) cand1 (prepared @ [n])
            (sy1\<lparr>sy_lifetimes := sy_lifetimes sy1 @ [newLifetime n]\<rparr>) = (res, cat', cand', prepared', sy')" by simp
        have "to_load (AList.update i (p\<lparr>mp_instance := Some n\<rparr>) cat) = to_load cat - {i}"
          by (auto simp: to_load_def update_conv')
        with "2.IH"(3) [OF p(1) ne b refl Inr rest ok] show ?thesis by auto
      qed
    qed
  qed
qed auto

lemma store_any: "system_ok h sy \<Longrightarrow> sy_loaded sy = [] \<Longrightarrow> system_ok h (sy\<lparr>sy_store := st\<rparr>)"
  using heap_same [of sy "sy\<lparr>sy_store := st\<rparr>"] by (simp add: system_ok_def book_ok_def live_pairs_def)

lemma given_up_ok:
  assumes "boot_ok h sy0 cat cand ps sx" and "system_ok h sy0" and "sy_loaded sy0 = []" and e: "rg_entries (sy_registry sy0) = []"
  shows "system_ok h (fold close_instance ps sx)"
proof -
  from assms(1) obtain ns ls where sx: "sx = sy0\<lparr>sy_instances := ns, sy_lifetimes := ls\<rparr>" and heap: "heap_ok (sx\<lparr>sy_registry := cand\<rparr>)"
    and ps: "ps = map (\<lambda>en. ct_instance (et_contributions en)) (rg_entries cand)"
    and free: "\<forall>en\<in>set (rg_entries cand). et_life en \<notin># held sx" by (auto simp: boot_ok_def held_def)
  have "sy_registry (fold close_instance ns sy) = sy_registry sy \<and> sy_loaded (fold close_instance ns sy) = sy_loaded sy \<and>
    sy_store (fold close_instance ns sy) = sy_store sy" for ns sy
    by (induction ns arbitrary: sy) (simp_all add: close_instance_def)
  then have "book_ok h (fold close_instance ps sx)" using assms(2,3) by (simp add: system_ok_def book_ok_def sx)
  moreover have "heap_ok (fold close_instance ps sx)"
    unfolding ps using heap_drop_all [OF heap refl _ free] e by (simp add: sx)
  ultimately show ?thesis by (simp add: system_ok_def)
qed

lemma boot_bounds:
  assumes "boot_ok h sy0 cat cand ps sx"
  shows "\<forall>n\<in>set ps. n < length (sy_instances sx)"
proof
  fix n assume "n \<in> set ps"
  with assms obtain en where en: "en \<in> set (rg_entries cand)" "n = ct_instance (et_contributions en)" by (auto simp: boot_ok_def)
  from assms have "heap_ok (sx\<lparr>sy_registry := cand\<rparr>)" by (simp add: boot_ok_def)
  then have pr: "list_all (paired (sy_lifetimes sx)) (map entry_pair (rg_entries cand))"
    and io: "\<forall>a<length (sy_lifetimes sx). lt_instance (sy_lifetimes sx ! a) < length (sy_instances sx)"
    by (simp_all add: heap_ok_def live_pairs_def instances_ok_def)
  from pr en have "paired (sy_lifetimes sx) (Some (et_life en), n)" by (simp add: list_all_iff entry_pair_def)
  with io show "n < length (sy_instances sx)" by (auto simp: paired_def)
qed

lemma boot_publish_ok:
  assumes ok: "system_ok h sy" and l: "sy_loaded sy = []" and bc: "boot_catalog h (sy_store sy) cat"
    and none: "\<forall>i p. map_of cat i = Some p \<longrightarrow> mp_instance p = None"
    and req: "\<forall>i p. map_of cat i = Some p \<longrightarrow> is_required h i \<longrightarrow> mp_enabled p" and order: "set order = fst ` set cat"
    and ron: "requirements_on cat"
  shows "system_ok h (snd (boot_publish h cat order sy))"
proof -
  from ok l have e: "rg_entries (sy_registry sy) = []"
    by (auto simp: system_ok_def book_ok_def entries_loaded_def) (metis list.set_intros(1) neq_Nil_conv)
  obtain res cat' cand' prepared sy' where p: "prepare_instances h order cat empty_registry [] sy = (res, cat', cand', prepared, sy')"
    by (metis prod_cases5)
  have start: "boot_ok h sy cat empty_registry [] sy"
    unfolding boot_ok_def
  proof (intro conjI)
    show "heap_ok (sy\<lparr>sy_registry := empty_registry\<rparr>)"
      using ok e by (intro heap_registry) (simp_all add: system_ok_def empty_registry_def)
    show "entries_loaded (rg_entries empty_registry) cat"
      using none by (auto simp: entries_loaded_def empty_registry_def)
    show "\<exists>ns ls. sy = sy\<lparr>sy_instances := ns, sy_lifetimes := ls\<rparr>"
      by (intro exI [of _ "sy_instances sy"] exI [of _ "sy_lifetimes sy"]) simp
  qed (use bc req ron in \<open>simp_all add: empty_registry_def entries_ok_def requirements_active_def\<close>)
  note res = prepare_instances_ok [OF p start]
  show ?thesis
  proof (cases res)
    case (Some err)
    with p have r: "snd (boot_publish h cat order sy) = fold close_instance prepared sy'" by (simp add: boot_publish_def)
    from res consider "boot_ok h sy cat' cand' prepared sy'"
      | ps sx c where "prepared = ps @ [length (sy_instances sx)]" "boot_ok h sy cat' cand' ps sx"
        "sy' = sx\<lparr>sy_instances := sy_instances sx @ [\<lparr>pi_open = True, pi_contributions = c\<rparr>]\<rparr>" by blast
    then show ?thesis
    proof cases
      case 1
      then show ?thesis unfolding r by (rule given_up_ok [OF _ ok l e])
    next
      case 2
      have len: "length (sy_instances (fold close_instance ps sx)) = length (sy_instances sx)" for ps sx
        by (induction ps arbitrary: sx) (simp_all add: close_instance_def)
      have "fold close_instance prepared sy' =
          (fold close_instance ps sx)\<lparr>sy_instances := sy_instances (fold close_instance ps sx) @ [\<lparr>pi_open = False, pi_contributions = c\<rparr>]\<rparr>"
        unfolding 2(1,3) fold_append comp_apply fold_close_append [OF boot_bounds [OF 2(2)]]
        by (simp add: close_instance_def len list_update_append nth_append)
      then show ?thesis
        unfolding r using junk_ok [OF given_up_ok [OF 2(2) ok l e], of "[\<lparr>pi_open = False, pi_contributions = c\<rparr>]"] by simp
    qed
  next
    case None
    with res have b: "boot_ok h sy cat' cand' prepared sy'" and tl: "to_load cat' \<subseteq> to_load cat - set order" by auto
    from b have heap: "heap_ok (sy'\<lparr>sy_registry := cand'\<rparr>)" and eok: "entries_ok (rg_entries cand')"
      and ra: "requirements_active (rg_entries cand')" and bc': "boot_catalog h (sy_store sy) cat'"
      and el: "entries_loaded (rg_entries cand') cat'" and rq: "\<forall>i p. map_of cat' i = Some p \<longrightarrow> is_required h i \<longrightarrow> mp_enabled p"
      and ron': "requirements_on cat'"
      and "\<exists>ns ls. sy' = sy\<lparr>sy_instances := ns, sy_lifetimes := ls\<rparr>" by (simp_all add: boot_ok_def)
    then have same: "sy_registry sy' = sy_registry sy" "sy_store sy' = sy_store sy" by auto
    let ?r = "publishEntries h (rg_entries cand') (sy_registry sy)"
    let ?t = "sy'\<lparr>sy_registry := ?r, sy_loaded := cat', sy_order := order\<rparr>"
    from None p have r: "snd (boot_publish h cat order sy) = ?t"
      by (simp add: boot_publish_def initialize_def same e)
    have "to_load cat \<subseteq> fst ` set cat" by (force simp: to_load_def dest: map_of_SomeD)
    with tl order have "to_load cat' = {}" by auto
    then have "loaded_ok h (sy_store sy) i p" if "map_of cat' i = Some p" for i p
      using bc' rq that by (auto simp: boot_catalog_def boot_loaded_def loaded_ok_def to_load_def)
    moreover have "registry_ok h ?r" using eok ra by (simp add: registry_ok_def publishEntries_def)
    moreover have "entries_loaded (rg_entries ?r) cat'" using el by (simp add: publishEntries_def)
    ultimately have "book_ok h ?t" using bc' ron' by (simp add: book_ok_def boot_catalog_def same)
    moreover have "heap_ok ?t"
      by (rule heap_same [OF heap]) (simp_all add: live_pairs_def publishEntries_def)
    ultimately show ?thesis unfolding r by (simp add: system_ok_def)
  qed
qed

lemma Bootstrap_ok:
  assumes ok: "system_ok h sy"
  shows "system_ok h (snd (Bootstrap h d sy))"
proof (cases "sy_closed sy \<or> sy_loaded sy \<noteq> []")
  case True
  with ok show ?thesis by (auto simp: Bootstrap_def)
next
  case False
  then have l: "sy_loaded sy = []" by simp
  have st: "system_ok h (sy\<lparr>sy_store := st\<rparr>)" for st by (rule store_any [OF ok l])
  have pub: "system_ok h (snd (case enableRequiredPlugins h cat st of
              (Inl err, st) \<Rightarrow> (Some err, sy\<lparr>sy_store := st\<rparr>)
            | (Inr cat, st) \<Rightarrow>
                tryS (dependencyOrder cat) (sy\<lparr>sy_store := st\<rparr>) (\<lambda>order. boot_publish h cat order (sy\<lparr>sy_store := st\<rparr>))))"
    if c: "catalogFromRecords h (ListPlugins st) = Inr cat" for cat st
  proof -
    obtain m st1 where en: "enableRequiredPlugins h cat st = (m, st1)" by (cases "enableRequiredPlugins h cat st")
    show ?thesis
    proof (cases m)
      case (Inl err)
      with en st show ?thesis by simp
    next
      case (Inr cat1)
      note c1 = enableRequired_ok [OF en [unfolded Inr]] catalogFromRecords_ok [OF c]
      have "system_ok h (snd (tryS (dependencyOrder cat1) (sy\<lparr>sy_store := st1\<rparr>) (\<lambda>order. boot_publish h cat1 order (sy\<lparr>sy_store := st1\<rparr>))))"
        by (rule tryS_ok [OF st], rule boot_publish_ok [OF st]) (use c1 l dependencyOrder_keys dependencyOrder_requirements in auto)
      with en Inr show ?thesis by simp
    qed
  qed
  have seeded: "system_ok h (snd (case seedMissingPlugins h d cat (sy_store sy) of
          (Inl err, st) \<Rightarrow> (Some err, sy\<lparr>sy_store := st\<rparr>)
        | (Inr seeded, st) \<Rightarrow>
            tryS (if seeded then catalogFromRecords h (ListPlugins st) else Inr cat) (sy\<lparr>sy_store := st\<rparr>) (\<lambda>cat.
            case enableRequiredPlugins h cat st of
              (Inl err, st) \<Rightarrow> (Some err, sy\<lparr>sy_store := st\<rparr>)
            | (Inr cat, st) \<Rightarrow>
                tryS (dependencyOrder cat) (sy\<lparr>sy_store := st\<rparr>) (\<lambda>order. boot_publish h cat order (sy\<lparr>sy_store := st\<rparr>)))))"
    if c: "catalogFromRecords h (ListPlugins (sy_store sy)) = Inr cat" for cat
  proof -
    obtain m st1 where sd: "seedMissingPlugins h d cat (sy_store sy) = (m, st1)" by (cases "seedMissingPlugins h d cat (sy_store sy)")
    show ?thesis
    proof (cases m)
      case (Inl err)
      with sd st show ?thesis by simp
    next
      case (Inr seeded)
      have "catalogFromRecords h (ListPlugins st1) = Inr cat1"
        if "(if seeded then catalogFromRecords h (ListPlugins st1) else Inr cat) = Inr cat1" for cat1
        using that c seedMissing_false [of h d cat "sy_store sy" st1] sd Inr by (auto split: if_splits)
      with pub tryS_ok [OF st, of "if seeded then catalogFromRecords h (ListPlugins st1) else Inr cat"] show ?thesis
        by (simp only: sd Inr prod.case sum.case)
    qed
  qed
  show ?thesis
    unfolding Bootstrap_def if_not_P [OF False] by (rule tryS_ok [OF ok seeded])
qed

end
