(* ===== verification/PluginProperties.thy ===== *)
theory PluginProperties
  imports PluginSafety
begin

text \<open>
  What holds of the plugin manager in every state that operations, leases and retirements reach in
  any order.
\<close>

section \<open>Steps\<close>

lemma run_op_ok: "system_ok h sy \<Longrightarrow> system_ok h (snd (run_op h op sy))"
  by (cases op) (simp_all add: Bootstrap_ok Install_ok Enable_ok Disable_ok Upgrade_ok Uninstall_ok Close_ok)

lemma lease_ok:
  assumes "system_ok h sy" and "set as \<subseteq> set_mset (lives (map entry_pair (rg_entries (sy_registry sy))))"
  shows "system_ok h (take_lease as sy)"
proof -
  have "sy_registry (fold acquire as sy) = sy_registry sy \<and> sy_loaded (fold acquire as sy) = sy_loaded sy \<and>
      sy_store (fold acquire as sy) = sy_store sy" for sy
    by (induction as arbitrary: sy) (simp_all add: acquire_def set_life_def Let_def)
  then show ?thesis
    using assms take_lease_heap [of sy as]
    by (simp add: system_ok_def book_ok_def take_lease_def live_pairs_def lives_append le_supI1)
qed

lemma release_ok:
  assumes "system_ok h sy" and "as \<in> set (sy_leases sy)"
  shows "system_ok h (release_lease as sy)"
proof -
  have "sy_registry (fold release_life as sy) = sy_registry sy \<and> sy_loaded (fold release_life as sy) = sy_loaded sy \<and>
      sy_store (fold release_life as sy) = sy_store sy" for sy
    by (induction as arbitrary: sy) (simp_all add: release_life_def close_done_def set_life_def Let_def)
  then show ?thesis
    using assms release_lease_heap [of sy as] by (simp add: system_ok_def book_ok_def release_lease_def)
qed

lemma retire_ok:
  assumes "system_ok h sy" and "sy_retiring sy = (life, n) # xs"
  shows "system_ok h (retire life n (sy\<lparr>sy_retiring := xs\<rparr>))"
proof -
  have "sy_registry (retire life n sy) = sy_registry sy \<and> sy_loaded (retire life n sy) = sy_loaded sy \<and> sy_store (retire life n sy) = sy_store sy" for sy
    by (simp add: retire_def retire_life_def close_done_def set_life_def close_instance_def Let_def split: option.split)
  then show ?thesis
    using assms retire_heap [of sy life n xs] by (simp add: system_ok_def book_ok_def)
qed

lemma finish_ok:
  assumes "system_ok h sy" and "r \<in> set (sy_retirements sy)" and "\<not> re_done r" and "re_life r = Some a" and "lt_done (sy_lifetimes sy ! a)"
  shows "system_ok h (finish_retirement r sy)"
  using assms finish_heap [of sy r a] by (simp add: system_ok_def book_ok_def finish_retirement_def close_instance_def)

lemma entry_lives: "set_mset (lives (map entry_pair es)) = et_life ` set es"
  by (force simp: lives_def entry_pair_def)

lemma plan_lease_ok:
  assumes ok: "system_ok h sy"
  shows "system_ok h (snd (AcquireRenderPlan h sy))"
proof -
  let ?r = "if rg_plan (sy_registry sy) = None then rebuildRenderPlan h (sy_registry sy) else sy_registry sy"
  let ?sy = "sy\<lparr>sy_registry := ?r\<rparr>"
  from ok have "registry_ok h (sy_registry sy)" by (simp add: system_ok_def book_ok_def)
  then have r: "registry_ok h ?r" "rg_entries ?r = rg_entries (sy_registry sy)" "rg_plan ?r \<noteq> None"
    by (auto simp: registry_ok_def rebuildRenderPlan_def Let_def)
  then have plan: "rp_lifetimes (the (rg_plan ?r)) = map et_life (rg_entries ?r)"
    by (auto simp: registry_ok_def plan_lifetimes)
  have "system_ok h ?sy"
    using ok r heap_registry [of sy ?r] by (simp add: system_ok_def book_ok_def)
  then have "system_ok h (take_lease (rp_lifetimes (the (rg_plan ?r))) ?sy)"
    by (rule lease_ok) (simp add: plan entry_lives)
  moreover have "snd (AcquireRenderPlan h sy) = take_lease (rp_lifetimes (the (rg_plan ?r))) ?sy"
    by (simp add: AcquireRenderPlan_def Let_def)
  ultimately show ?thesis by simp
qed

lemma plugin_step_ok: "plugin_step h sy sy' \<Longrightarrow> system_ok h sy \<Longrightarrow> system_ok h sy'"
proof (induction rule: plugin_step.induct)
  case (operate sy op)
  then show ?case by (simp add: run_op_ok)
next
  case (retire sy life n xs)
  then show ?case by (simp add: retire_ok)
next
  case (finish r sy a)
  then show ?case by (simp add: finish_ok)
next
  case (lease_plan sy)
  then show ?case by (simp add: plan_lease_ok)
next
  case (lease_entry i sy en sy')
  then obtain k where k: "entry_index i (rg_entries (sy_registry sy)) = Some k"
    and "en = rg_entries (sy_registry sy) ! k" "sy' = take_lease [et_life en] sy"
    by (auto simp: AcquireEntry_def Let_def split: option.splits)
  with lease_entry.prems show ?case
    by (auto intro!: lease_ok simp: entry_lives dest: entry_index_Some(1))
next
  case (lease_entries sy)
  then show ?case by (simp add: AcquireEntries_def Let_def lease_ok entry_lives)
next
  case (release as sy)
  then show ?case by (simp add: release_ok)
qed

lemma fresh_ok: "system_ok h (fresh_system st)"
  by (simp add: system_ok_def heap_ok_def book_ok_def fresh_system_def empty_registry_def live_pairs_def waiting_pairs_def waiting_def
      lives_def held_def instances_ok_def retired_ok_def refs_ok_def registry_ok_def entries_ok_def requirements_active_def
      entries_loaded_def requirements_on_def plugin_on_def)

lemma reachable_ok: "plugin_reachable h sy \<Longrightarrow> system_ok h sy"
  by (induction rule: plugin_reachable.induct) (auto intro: fresh_ok plugin_step_ok)

section \<open>Leases and instances\<close>

lemma held_open:
  assumes "heap_ok sy" and "a \<in># held sy"
  shows "a < length (sy_lifetimes sy) \<and> pi_open (sy_instances sy ! lt_instance (sy_lifetimes sy ! a))"
proof -
  from assms have "a \<in># lives (live_pairs sy @ waiting_pairs sy)" by (auto simp: heap_ok_def)
  with assms(1) show ?thesis by (auto simp: heap_ok_def instances_ok_def)
qed

text \<open>C18: whatever the manager does meanwhile, the instance behind a lifetime that a render or another
  operation has leased is open until the lease is released, and no lifetime is ever signalled
  twice.\<close>

theorem leased_plugins_stay_open:
  assumes "plugin_reachable h sy" and "as \<in> set (sy_leases sy)" and "a \<in> set as"
  shows "pi_open (sy_instances sy ! lt_instance (sy_lifetimes sy ! a)) \<and> \<not> lt_done (sy_lifetimes sy ! a) \<and> \<not> sy_panic sy"
proof -
  from reachable_ok [OF assms(1)] have ok: "heap_ok sy" by (simp add: system_ok_def)
  from assms(2,3) have a: "a \<in># held sy" by (auto simp: held_def)
  with ok have "\<not> lt_done (sy_lifetimes sy ! a)" by (auto simp: heap_ok_def refs_ok_def)
  with held_open [OF ok a] ok show ?thesis by (simp add: heap_ok_def)
qed

text \<open>C19: a retired instance is not kept open without need: once no lease holds its lifetime, the
  retirement that waits for it has a step to take, and the step closes the instance, which was open
  until then.\<close>

theorem released_plugins_get_closed:
  assumes "plugin_reachable h sy" and "r \<in> set (sy_retirements sy)" and "\<not> re_done r"
    and "re_life r \<notin> Some ` \<Union> (set ` set (sy_leases sy))"
  shows "\<exists>sy'. plugin_step h sy sy' \<and> pi_open (sy_instances sy ! re_instance r) \<and> \<not> pi_open (sy_instances sy' ! re_instance r)"
proof -
  from reachable_ok [OF assms(1)] have ok: "heap_ok sy" by (simp add: system_ok_def)
  let ?ls = "sy_lifetimes sy"
  from assms(2,3) have w: "(re_life r, re_instance r) \<in> set (waiting_pairs sy)"
    by (auto simp: waiting_pairs_def waiting_def)
  with ok have "paired ?ls (re_life r, re_instance r)" by (auto simp: heap_ok_def list_all_iff)
  then obtain a where a: "re_life r = Some a" "a < length ?ls" "lt_instance (?ls ! a) = re_instance r"
    by (auto simp: paired_def split: option.splits)
  with w have aw: "a \<in># lives (waiting_pairs sy)" by (force simp: lives_def)
  with ok have "lt_retired (?ls ! a)" by (simp add: heap_ok_def retired_ok_def)
  moreover from assms(4) a(1) have "a \<notin># held sy" by (auto simp: held_def)
  ultimately have "lt_done (?ls ! a)" using ok a(2) by (simp add: heap_ok_def refs_ok_def not_in_iff)
  then have "plugin_step h sy (finish_retirement r sy)" using plugin_step.finish assms(2,3) a(1) by blast
  moreover from ok aw a have "pi_open (sy_instances sy ! re_instance r)" "re_instance r < length (sy_instances sy)"
    by (auto simp: heap_ok_def instances_ok_def lives_append)
  ultimately show ?thesis by (intro exI [of _ "finish_retirement r sy"]) (simp add: finish_retirement_def close_instance_def)
qed

section \<open>The books\<close>


section \<open>Failures\<close>

definition changes_one :: "plugin_op \<Rightarrow> bool" where
  "changes_one op = (case op of BootstrapOp _ \<Rightarrow> False | CloseOp \<Rightarrow> False | _ \<Rightarrow> True)"

definition unchanged :: "plugin_system \<Rightarrow> plugin_system \<Rightarrow> bool" where
  "unchanged sy sy' = (\<exists>junk. sy' = sy\<lparr>sy_instances := sy_instances sy @ junk\<rparr> \<and> list_all (\<lambda>i. \<not> pi_open i) junk)"

lemma unchanged_refl: "unchanged sy sy"
  unfolding unchanged_def by (rule exI [of _ "[]"]) simp

lemma unchanged_tryS:
  assumes "fst (tryS m sy f) = Some err" and "\<And>x. m = Inr x \<Longrightarrow> fst (f x) = Some err \<Longrightarrow> unchanged sy (snd (f x))"
  shows "unchanged sy (snd (tryS m sy f))"
  using assms unchanged_refl by (auto simp: tryS_def split: sum.splits)

lemma unchanged_publish:
  assumes "prepare_plugin h pkg on sy = Inr x"
  shows "fst (case x of (item, sy) \<Rightarrow> publish h i item archive sy) = Some err \<Longrightarrow> unchanged sy (snd (case x of (item, sy) \<Rightarrow> publish h i item archive sy))"
proof -
  obtain item sy' where x: "x = (item, sy')" by (cases x)
  with assms have "prepared_for h (mf_id (pk_manifest pkg)) item sy sy'" by (simp add: prepare_plugin_ok)
  from close_new_ok [OF this] have "unchanged sy (close_new item sy')" by (auto simp: unchanged_def)
  then show "fst (case x of (item, sy) \<Rightarrow> publish h i item archive sy) = Some err \<Longrightarrow> unchanged sy (snd (case x of (item, sy) \<Rightarrow> publish h i item archive sy))"
    by (auto simp: x publish_def split: sum.splits)
qed

lemma unchanged_try_publish:
  "fst (tryS (prepare_plugin h pkg on sy) sy (\<lambda>(item, sy). publish h i item archive sy)) = Some err \<Longrightarrow>
   unchanged sy (snd (tryS (prepare_plugin h pkg on sy) sy (\<lambda>(item, sy). publish h i item archive sy)))"
  by (rule unchanged_tryS) (assumption, rule unchanged_publish)

lemma unchanged_publish_off:
  "mp_instance item = None \<Longrightarrow> fst (publish h i item archive sy) = Some err \<Longrightarrow> unchanged sy (snd (publish h i item archive sy))"
  by (auto simp: publish_def close_new_def unchanged_refl split: sum.splits)

lemma unchanged_Install: "fst (Install h archive sy) = Some err \<Longrightarrow> unchanged sy (snd (Install h archive sy))"
  unfolding Install_def Let_def
  by (rule unchanged_tryS, assumption) (simp add: unchanged_refl unchanged_try_publish split: if_splits)

lemma unchanged_Enable: "fst (Enable h i sy) = Some err \<Longrightarrow> unchanged sy (snd (Enable h i sy))"
  unfolding Enable_def
  by (rule unchanged_tryS, assumption)
    (simp split: if_splits, rule unchanged_tryS, assumption, rule unchanged_try_publish)

lemma unchanged_Disable: "fst (Disable h i sy) = Some err \<Longrightarrow> unchanged sy (snd (Disable h i sy))"
proof (cases "is_required h i")
  case False
  assume "fst (Disable h i sy) = Some err"
  with False show ?thesis
    unfolding Disable_def if_not_P [OF False]
    by - (rule unchanged_tryS, assumption, simp add: unchanged_publish_off split: if_splits)
qed (simp add: Disable_def unchanged_refl)

lemma unchanged_Upgrade: "fst (Upgrade h i archive sy) = Some err \<Longrightarrow> unchanged sy (snd (Upgrade h i archive sy))"
  unfolding Upgrade_def
  by (rule unchanged_tryS, assumption)
    (simp add: unchanged_refl split: if_splits, rule unchanged_tryS, assumption, rule unchanged_try_publish)

lemma unchanged_Uninstall: "fst (Uninstall h i sy) = Some err \<Longrightarrow> unchanged sy (snd (Uninstall h i sy))"
proof (cases "is_required h i")
  case False
  assume "fst (Uninstall h i sy) = Some err"
  with False show ?thesis
    unfolding Uninstall_def if_not_P [OF False] Let_def
    by - (rule unchanged_tryS, assumption, rule unchanged_tryS, assumption, rule unchanged_tryS, assumption, simp add: split_beta)
qed (simp add: Uninstall_def unchanged_refl)

text \<open>C21: an installation, upgrade, change of state or removal that ends in an error leaves the registry,
  the loaded plugins, the database and the leases as they were; an instance it has started is
  closed.\<close>

theorem failed_change_changes_nothing:
  assumes "changes_one op" and "fst (run_op h op sy) = Some err"
  shows "unchanged sy (snd (run_op h op sy))"
  using assms
  by (cases op) (simp_all add: changes_one_def unchanged_Install unchanged_Enable unchanged_Disable unchanged_Upgrade unchanged_Uninstall)

section \<open>An upgrade under a lease\<close>

text \<open>
  A plugin is installed, a render takes its lease, the plugin is upgraded and the old version is
  retired; the old instance stays open. An archive is its plugin's id, or the id after an \<open>x\<close>.
\<close>

definition demo_manifest :: "string \<Rightarrow> manifest" where
  "demo_manifest i = \<lparr>mf_id = i, mf_name = ''N'', mf_description = [], mf_version = ''1'', mf_default = False,
     mf_requires = [], mf_modules = [], mf_rest = []\<rparr>"

definition demo_contributions :: contributions where
  "demo_contributions = \<lparr>ct_instance = 0, ct_content_preprocessors = [], ct_content_changes = [], ct_preprocessors = [],
     ct_markdown = [], ct_highlighters = [], ct_postprocessors = [], ct_macros = [], ct_widgets = [], ct_exporters = [],
     ct_browser = [], ct_editor = [], ct_actions = [], ct_resources = [], ct_completions = [], ct_inserts = [], ct_menus = [],
     ct_settings = [], ct_styles = [], ct_policies = []\<rparr>"

definition demo_host :: host where
  "demo_host = \<lparr>ho_required = [],
     ho_read = (\<lambda>archive. if archive = [] then Inl (External ''empty'')
       else if hd archive = CHR ''x'' then Inr \<lparr>pk_manifest = demo_manifest (tl archive), pk_readme = [], pk_digest = archive\<rparr>
       else Inr \<lparr>pk_manifest = demo_manifest archive, pk_readme = [], pk_digest = archive\<rparr>),
     ho_load = (\<lambda>_. Inr demo_contributions), ho_value = (\<lambda>_ _. None), ho_bool = (\<lambda>_. None), ho_hash = (\<lambda>s. s)\<rparr>"

definition demo1 :: plugin_system where
  "demo1 = snd (run_op demo_host (InstallOp ''a'') (fresh_system \<lparr>st_installs = [], st_packages = []\<rparr>))"

definition demo2 :: plugin_system where
  "demo2 = snd (AcquireEntries demo1)"

definition demo3 :: plugin_system where
  "demo3 = snd (run_op demo_host (UpgradeOp ''a'' ''xa'') demo2)"

definition demo4 :: plugin_system where
  "demo4 = retire (Some 0) 0 (demo3\<lparr>sy_retiring := []\<rparr>)"

definition demo5 :: plugin_system where
  "demo5 = release_lease [0] demo4"

lemma demo_retiring: "sy_retiring demo2 = []" "sy_retiring demo3 = (Some 0, 0) # []"
  by code_simp+

lemma demo1_reachable: "plugin_reachable demo_host demo1"
  unfolding demo1_def
  by (rule plugin_reachable.step [OF plugin_reachable.start], rule plugin_step.operate) (simp add: fresh_system_def)

lemma demo4_reachable: "plugin_reachable demo_host demo4"
proof -
  from demo1_reachable have "plugin_reachable demo_host demo2"
    unfolding demo2_def by (rule plugin_reachable.step) (rule plugin_step.lease_entries)
  then have "plugin_reachable demo_host demo3"
    unfolding demo3_def by (rule plugin_reachable.step) (rule plugin_step.operate, rule demo_retiring)
  then show ?thesis
    unfolding demo4_def by (rule plugin_reachable.step) (rule plugin_step.retire, rule demo_retiring)
qed

lemma demo4_values: "sy_leases demo4 = [[0]]"
  "sy_retirements demo4 = [\<lparr>re_life = Some 0, re_instance = 0, re_done = False\<rparr>]"
  "map lt_instance (sy_lifetimes demo4) = [0, 1]"
  by code_simp+

lemma demo5_reachable: "plugin_reachable demo_host demo5"
  unfolding demo5_def by (rule plugin_reachable.step [OF demo4_reachable], rule plugin_step.release) (simp add: demo4_values)

theorem leased_plugins_stay_open_witness:
  "pi_open (sy_instances demo4 ! lt_instance (sy_lifetimes demo4 ! 0)) \<and> \<not> lt_done (sy_lifetimes demo4 ! 0) \<and> \<not> sy_panic demo4"
  by (rule leased_plugins_stay_open [OF demo4_reachable, of "[0]"]) (simp_all add: demo4_values)

lemma demo5_values: "sy_leases demo5 = []"
  "sy_retirements demo5 = [\<lparr>re_life = Some 0, re_instance = 0, re_done = False\<rparr>]"
  by code_simp+

theorem released_plugins_get_closed_witness:
  "\<exists>sy'. plugin_step demo_host demo5 sy' \<and> pi_open (sy_instances demo5 ! 0) \<and> \<not> pi_open (sy_instances sy' ! 0)"
  using released_plugins_get_closed [OF demo5_reachable, of "\<lparr>re_life = Some 0, re_instance = 0, re_done = False\<rparr>"]
  by (simp add: demo5_values)




theorem failed_change_changes_nothing_witness:
  "unchanged demo1 (snd (run_op demo_host (InstallOp ''a'') demo1))"
proof (rule failed_change_changes_nothing)
  show "changes_one (InstallOp ''a'')" by (simp add: changes_one_def)
  show "fst (run_op demo_host (InstallOp ''a'') demo1) = Some (AlreadyInstalled ''a'')" by code_simp
qed

end
