(* ===== verification/Spec2Isabelle.thy ===== *)
theory Spec2Isabelle
  imports Access RevisionProperties Discussions HeadingNumbers MutationProperties ReviewLifecycle Histories AccountSafety NotificationProperties Navigation IconCache PluginProperties
begin

text \<open>
  Kumbuka, a self-hosted wiki in Go: the page store, the use cases over it and the text
  algorithms they rest on.

  The program. \<open>src/pkg\<close> holds the pure parts (slugs, moves, wiki links, heading numbers, revision
  comparison, review suggestions, the domain types), \<open>src/internal/postgres\<close> one file of SQL
  transactions per concern over one schema, \<open>src/internal/application\<close> the use cases, which check
  the account, normalise the input, run one transaction and then report its effects (events,
  notifications, audit records), and \<open>src/internal/http\<close> the pages and the JSON API over the use
  cases.

  The state. \<open>db\<close> (theory \<open>Store\<close>) is a record with one list per table of the page store; a list keeps the
  insertion order of the rows, and serial columns are counters of the record. Accounts, identities,
  sessions and tokens have a state of their own (\<open>accounts\<close>, theory \<open>Accounts\<close>; with the groups,
  \<open>directory\<close>, theory \<open>Memberships\<close>), and so have webhooks (\<open>webhook_tables\<close>), the inbox (\<open>inbox\<close>), the icons of the navigation
  (\<open>icon_state\<close>) and the plugins (\<open>plugin_system\<close>, theory \<open>PluginLifecycle\<close>: the registry, the loaded plugins,
  lifetimes and runtime instances as lists of shared objects, and the installations of the database). A transaction is a function
  from the state to an error or a new state, so a failed transaction has no state to leave
  behind. A statement of the source that hits a constraint of the schema
  (\<open>migrations/021_baseline.sql\<close>) is a branch that returns the error. Effects outside the
  database are returned as a list of \<open>effect\<close> values in the order the code causes them.

  The theories, in the order of their imports:
  \<^item> \<open>Prelude\<close>: results with an error branch (\<open>bindR\<close>, \<open>forR\<close>), tables as lists (\<open>row_with\<close>, \<open>update_rows\<close>,
    \<open>delete_rows\<close>), \<open>slices.SortFunc\<close>, and the interfaces \<open>comparison\<close> (a comparison function
    of a sort), \<open>invariant_system\<close> and \<open>monotone_system\<close> (a state with commands).
  \<^item> \<open>GoStrings\<close>: the operations of \<open>strings\<close>, \<open>strconv\<close> and \<open>unicode/utf8\<close> that the code uses, on
    strings of bytes.
  \<^item> \<open>Domain\<close>: the types and validators of \<open>pkg/domain\<close>, and \<open>pkg/pageurl\<close>.
  \<^item> \<open>Slugs\<close>: \<open>pkg/ascii\<close>, \<open>pkg/markdown/slug.go\<close>, \<open>pkg/pagemove\<close>; a slug is in normal form.
  \<^item> \<open>Access\<close>: \<open>postgres/page_access.go\<close> and \<open>application/access\<close>. The repository behind the access
    service and the policy it gives the use cases are interfaces, interpreted on the tables.
  \<^item> \<open>Revisions\<close>, \<open>RevisionProperties\<close>: \<open>pkg/revision\<close>; the line counts come from a longest common
    subsequence, and diff rows carry the line numbers of both sides.
  \<^item> \<open>Suggestions\<close>: \<open>pkg/reviewsuggestions\<close> and \<open>pages/suggestions.go\<close>; applying several line
    replacements bottom-up equals replacing the lines of the original.
  \<^item> \<open>WikiLinks\<close>, \<open>HeadingNumbers\<close>: the link scanner of \<open>pkg/markdown/renderer.go\<close> and
    \<open>heading_numbering.go\<close>.
  \<^item> \<open>Store\<close>: the tables, the reads (\<open>page_queries.go\<close>, \<open>page_revisions.go\<close>, \<open>permalink.go\<close>) and the
    invariant \<open>db_ok\<close>.
  \<^item> \<open>PageSave\<close>, \<open>SaveProperties\<close>: the save transaction (\<open>page_save.go\<close> and the files it calls) on every
    branch: new page, plain save, rename, unchanged save, lost update.
  \<^item> \<open>PageMove\<close>: \<open>page_moves.go\<close>; paths, aliases, link targets and the rewriting of incoming links.
  \<^item> \<open>RecycleBin\<close>: \<open>page_recycle_bin.go\<close>, \<open>page_bulk.go\<close>, \<open>tags.go\<close>.
  \<^item> \<open>Reviews\<close>, \<open>ReviewFeedback\<close>, \<open>Discussions\<close>: \<open>page_approvals.go\<close>, \<open>page_review_feedback.go\<close>,
    \<open>page_comments.go\<close> and the use cases \<open>pages/page_reviews.go\<close>, \<open>page_review_comments.go\<close>,
    \<open>page_discussions.go\<close>, \<open>page_side_effects.go\<close>.
  \<^item> \<open>Mutations\<close>, \<open>MutationProperties\<close>: the page mutations of \<open>pages/mutations.go\<close>, \<open>content_update.go\<close>
    and \<open>page_bulk.go\<close>: saving, moving, deleting, reviewing, restoring, importing.
  \<^item> \<open>ReviewLifecycle\<close>, \<open>Histories\<close>: how each transaction moves the reviews along their state machine and
    what it adds to the histories of pages.
  \<^item> \<open>Accounts\<close>, \<open>Identities\<close>, \<open>AccountAdmin\<close>: \<open>user_admin.go\<close>, \<open>local_auth.go\<close>, \<open>authentication.go\<close>, \<open>oidc.go\<close>,
    \<open>oidc_groups.go\<close>, \<open>tokens.go\<close> and the use cases of \<open>application/users\<close>, \<open>authentication/trusted_proxy.go\<close>
    and \<open>application/tokens\<close>: credentials, sessions, proxy and OpenID identities, access tokens.
  \<^item> \<open>Memberships\<close>: \<open>groups.go\<close> and what deleting a group takes with it in the other tables.
  \<^item> \<open>AccountProperties\<close>, \<open>AccountRuns\<close>, \<open>AccountSafety\<close>: the consistency of the account tables, kept by every
    transaction; runs of account commands as an \<open>invariant_system\<close>; what holds along every run (who can
    and who can no longer sign in).
  \<^item> \<open>Webhooks\<close>, \<open>WebhookProperties\<close>: \<open>postgres/webhooks.go\<close> and \<open>application/webhooks\<close>: stored secrets,
    validation, delivery of an event to its subscribers.
  \<^item> \<open>Mentions\<close>: \<open>pkg/mention\<close>; which mentions of a page body are addressed to a person.
  \<^item> \<open>Notifications\<close>, \<open>NotificationProperties\<close>: \<open>application/notifications\<close>, \<open>postgres/notifications.go\<close>,
    \<open>postgres/plugin_updates.go\<close>; the inbox, idempotent sends, the announcement of plugin updates.
  \<^item> \<open>Navigation\<close>: \<open>pkg/navigation/tree.go\<close>; every page is in the tree once, and the order of insertion
    does not matter.
  \<^item> \<open>IconCache\<close>: the icons of the navigation (\<open>application/navigation\<close>, \<open>postgres/navigation.go\<close>); a
    step relation interleaves the table, the loads of the cache and its updates.
  \<^item> \<open>Plugins\<close>, \<open>PluginRegistry\<close>, \<open>PluginLifecycle\<close>: \<open>pkg/plugin\<close> (\<open>bootstrap.go\<close>, \<open>registry.go\<close>,
    \<open>registry_validation.go\<close>, \<open>renderplan.go\<close>, \<open>lifetime.go\<close>, \<open>lifecycle.go\<close>, \<open>manager.go\<close>) and
    \<open>postgres/plugin_installations.go\<close>: the order of dependencies, the checks of a registration, render plans,
    installing, enabling, upgrading and removing a plugin, start-up, and a step relation that interleaves
    these operations with the leases of renders and the retirement of replaced instances.
  \<^item> \<open>PluginSafety\<close>, \<open>PluginProperties\<close>: the ownership of instances by entries, retirements and leases as an
    invariant of every interleaving, and what it means for the leases, the books of the manager
    and a failed change.
  This theory composes the page store: a command for every transaction, runs of commands, and what holds in
  every state that a run reaches.

  Parameters. Code that is not in the repository is an argument: the clock and the
  lower-casing and number formatting of the runtime (\<open>env\<close>), the renderer and plugin usage of a
  page (fields of a save request), the unified diff of go-difflib, the fence scanner of the
  Markdown SDK, the access policy and the notification ports of a use case, password hashes,
  SHA-256, random tokens and secrets, \<open>mail.ParseAddress\<close>, the registration policy and the
  authentication modes of the configuration, the secret codec, Notifykit, JSON validity and the
  URL and header checks of a webhook, the package reader and the runtime of plugins with their stored
  settings. A law that a
  theorem needs of one is a premise of that theorem and holds in its witness.

  Recursion. Every loop of the source is structural recursion, has a proved measure, or (the scan for
  mentions) is a partial function that is proved to return; no
  fuel is used.

  Not modelled: the WebAssembly runtime of plugins and the calls into it, the final wait of the manager's
  \<open>Close\<close>, HTTP with the protocol exchanges, cookies and sessions of a sign-in,
  rendering, import and export, media, templates and settings (listed with their
  reasons in the manifest); in the modelled files, the list and search queries
  that only fill views, the author names joined into rows, foreign keys from pages to accounts, the range of
  32-bit columns, the collation of \<open>ORDER BY\<close>, the difference between bytes and characters in
  \<open>length(slug)\<close>, best-effort logging, and errors of the database itself (a lost
  connection, a full disk). Each transaction is one step: its row locks and
  isolation are assumed to serialise it against the others. One plugin manager works on the database;
  its operations hold its lock, and only leases and the closing of instances run beside them. The
  nearest rule of a path is left to the database where two rules tie (\<open>nearest_choice\<close>). Where the
  code ranges over a Go map, the model takes the order of a list; \<open>nodes_order_irrelevant\<close> of
  \<open>Navigation\<close> shows for the tree that it does not matter.
\<close>

section \<open>The store as a system\<close>

text \<open>
  Every transaction of the page store as a command. A transaction that fails leaves the state as
  it was. The accounts, groups and settings that the page store reads are copies in its state; the
  transactions that write them are in \<open>AccountRuns\<close> and \<open>Memberships\<close>, and here the command
  \<open>Provision\<close> adds to the copies.
\<close>

datatype command =
    Provision "user list" "group list" "(int \<times> int) list" bool
  | SaveCmd save_request
  | SaveIfUnchangedCmd time save_request
  | DeletePageCmd string int
  | RestorePageCmd string
  | PurgePage string
  | MovePageCmd string string move_options user
  | BulkMove "string list" string user
  | BulkStatus "string list" string
  | BulkTag "string list" string
  | BulkGroup "string list" int
  | BulkDelete "string list" int
  | DeleteTagCmd int
  | MarkReviewed string int
  | RequestReviewCmd string int "int list" int string
  | UpdateReviewCmd int string int "int list" int string
  | CancelReviewCmd int string int
  | DecideReviewCmd int string int bool string string
  | CommentOnReview int string int string int int string bool string string
  | ApplyReviewSuggestionsCmd int string int int "int list" bool string string "string list" plugin_usage page_render
  | CommentOnPage string int int string string string
  | SuggestOnPage string int string string comment_suggestion string
  | ApplyCommentSuggestionCmd string int int string string "string list" plugin_usage page_render
  | ResolveCommentCmd string int bool

definition commit :: "db \<Rightarrow> error + db \<Rightarrow> db" where
  "commit d r = (case r of Inl _ \<Rightarrow> d | Inr d' \<Rightarrow> d')"

definition commit_snd :: "db \<Rightarrow> error + ('a \<times> db) \<Rightarrow> db" where
  "commit_snd d r = (case r of Inl _ \<Rightarrow> d | Inr x \<Rightarrow> snd x)"

fun run_command :: "env \<Rightarrow> command \<Rightarrow> db \<Rightarrow> db" where
  "run_command e (Provision us gs ms flag) d =
     d\<lparr>db_users := db_users d @ us, db_groups := db_groups d @ gs, db_members := db_members d @ ms, db_discussions := flag\<rparr>"
| "run_command e (SaveCmd q) d = commit_snd d (store_SavePage e q d)"
| "run_command e (SaveIfUnchangedCmd t q) d = commit_snd d (store_SavePageIfUnchanged e t q d)"
| "run_command e (DeletePageCmd slug user) d = commit d (DeletePage e slug user d)"
| "run_command e (RestorePageCmd slug) d = commit d (RestorePage slug d)"
| "run_command e (PurgePage slug) d = commit d (PermanentlyDeletePage slug d)"
| "run_command e (MovePageCmd old new opts u) d = commit d (MovePage e old new opts u d)"
| "run_command e (BulkMove slugs target u) d = commit d (BulkMovePages e slugs target u d)"
| "run_command e (BulkStatus slugs st) d = commit d (BulkSetPageStatus e slugs st d)"
| "run_command e (BulkTag slugs tag) d = commit d (BulkAddPageTag e slugs tag d)"
| "run_command e (BulkGroup slugs gid) d = commit d (BulkAssignPageGroup slugs gid d)"
| "run_command e (BulkDelete slugs user) d = commit d (BulkDeletePages e slugs user d)"
| "run_command e (DeleteTagCmd tid) d = commit d (DeleteTag tid d)"
| "run_command e (MarkReviewed slug actor) d = commit d (MarkPageReviewed e slug actor d)"
| "run_command e (RequestReviewCmd slug actor us gid note) d = commit_snd d (RequestPageReview e slug actor us gid note d)"
| "run_command e (UpdateReviewCmd i slug actor us gid note) d = commit_snd d (UpdatePageReview e i slug actor us gid note d)"
| "run_command e (CancelReviewCmd i slug actor) d = commit_snd d (CancelPageReview e i slug actor d)"
| "run_command e (DecideReviewCmd i slug reviewer admin decision note) d =
     commit_snd d (DecidePageReview e i slug reviewer admin decision note d)"
| "run_command e (CommentOnReview i slug user side a b body sg orig repl) d =
     commit_snd d (AddPageReviewComment e i slug user side a b body sg orig repl d)"
| "run_command e (ApplyReviewSuggestionsCmd i slug expected actor ids al md msg links usage render) d =
     commit_snd d (ApplyPageReviewSuggestions e i slug expected actor ids al md msg links usage render d)"
| "run_command e (CommentOnPage slug user parent anchor quote body) d =
     commit_snd d (AddPageComment e slug user parent anchor quote body d)"
| "run_command e (SuggestOnPage slug user anchor body s md) d =
     commit_snd d (AddPageSuggestion e slug user anchor body s md d)"
| "run_command e (ApplyCommentSuggestionCmd slug cid actor md msg links usage render) d =
     commit_snd d (ApplyPageCommentSuggestion e slug cid actor md msg links usage render d)"
| "run_command e (ResolveCommentCmd slug cid resolved) d = commit d (ResolvePageComment e slug cid resolved d)"

text \<open>A run is a sequence of commands, each with what it takes from outside.\<close>

definition step :: "env \<times> command \<Rightarrow> db \<Rightarrow> db" where
  "step x d = run_command (fst x) (snd x) d"

definition run :: "(env \<times> command) list \<Rightarrow> db" where
  "run cs = fold step cs empty_db"

section \<open>Every command keeps the invariant\<close>

lemma commit_keeps:
  "db_ok d \<Longrightarrow> (\<And>d'. r = Inr d' \<Longrightarrow> db_ok d') \<Longrightarrow> db_ok (commit d r)"
  "db_ok d \<Longrightarrow> (\<And>x d'. q = Inr (x, d') \<Longrightarrow> db_ok d') \<Longrightarrow> db_ok (commit_snd d q)"
  by (auto simp: commit_def commit_snd_def split: sum.splits)

lemma SavePageIfUnchanged_keeps_ok: "db_ok d \<Longrightarrow> store_SavePageIfUnchanged e t q d = Inr (p, d') \<Longrightarrow> db_ok d'"
  by (drule store_SavePageIfUnchanged_cases(1)) (rule save_keeps_consistency_lemma)

lemma MovePage_keeps_ok: "db_ok d \<Longrightarrow> MovePage e old new opts u d = Inr d' \<Longrightarrow> db_ok d'"
  unfolding MovePage_def by (rule movePage_keeps_ok)

lemma Provision_core: "core (run_command e (Provision us gs ms flag) d) = core d"
  by (simp add: core_def)

lemmas keeps_ok =
  save_keeps_consistency_lemma SavePageIfUnchanged_keeps_ok DeletePage_keeps_ok RestorePage_keeps_ok
  PermanentlyDeletePage_keeps_ok MovePage_keeps_ok BulkMovePages_keeps_ok BulkSetPageStatus_keeps_ok
  BulkAddPageTag_keeps_ok BulkAssignPageGroup_keeps_ok BulkDeletePages_keeps_ok DeleteTag_keeps_ok
  MarkPageReviewed_keeps_ok RequestPageReview_keeps_ok UpdatePageReview_keeps_ok CancelPageReview_keeps_ok
  DecidePageReview_keeps_ok AddPageReviewComment_keeps_ok ApplyPageReviewSuggestions_keeps_ok
  AddPageComment_keeps_ok AddPageSuggestion_keeps_ok ApplyPageCommentSuggestion_keeps_ok ResolvePageComment_keeps_ok

lemma run_command_keeps_ok:
  assumes "db_ok d"
  shows "db_ok (run_command e c d)"
proof (cases c)
  case (Provision us gs ms flag)
  then show ?thesis using assms db_ok_core [OF Provision_core [of e us gs ms flag d]] by simp
qed (simp, intro commit_keeps, rule assms, erule keeps_ok [OF assms])+


definition frame :: "db \<Rightarrow> db \<Rightarrow> bool" where
  "frame d d' = (review_table d' = review_table d \<and> history_table d' = history_table d)"

section \<open>Every command respects the history\<close>

text \<open>Commands that leave pages, revisions and reviews alone.\<close>

lemma frame_core: "core d' = core d \<Longrightarrow> frame d d'"
  unfolding frame_def by (intro conjI history_table_core review_table_core)

lemma frame_update_pages:
  assumes "\<And>r. pw_id (f r) = pw_id r"
  shows "frame d (d\<lparr>db_pages := update_rows P f (db_pages d)\<rparr>)"
  unfolding frame_def by (rule conjI, simp add: review_table_def, rule history_table_update_pages, rule assms)

lemma frame_eq_core: "core d' = core d2 \<Longrightarrow> frame d d' = frame d d2"
  by (simp add: frame_def history_table_core [of d' d2] review_table_core [of d' d2])

lemma frame_audit [simp]: "frame d (insertPageActionAudit user a s m x) = frame d x"
  by (rule frame_eq_core) (simp add: insertPageActionAudit_def)

lemma frame_commands:
  "DeletePage e slug user d = Inr d' \<Longrightarrow> frame d d'"
  "RestorePage slug d = Inr d' \<Longrightarrow> frame d d'"
  "MarkPageReviewed e slug actor d = Inr d' \<Longrightarrow> frame d d'"
  "BulkSetPageStatus e slugs st d = Inr d' \<Longrightarrow> frame d d'"
  "BulkDeletePages e slugs user d = Inr d' \<Longrightarrow> frame d d'"
  by (auto simp: DeletePage_def RestorePage_def MarkPageReviewed_def BulkSetPageStatus_def BulkDeletePages_def
      frame_update_pages split: if_splits)

lemma core_commands:
  "BulkAddPageTag e slugs tag d = Inr d' \<Longrightarrow> core d' = core d"
  "BulkAssignPageGroup slugs gid d = Inr d' \<Longrightarrow> core d' = core d"
  "DeleteTag tid d = Inr d' \<Longrightarrow> core d' = core d"
  "ResolvePageComment e slug cid resolved d = Inr d' \<Longrightarrow> core d' = core d"
  by (auto simp: BulkAddPageTag_def BulkAssignPageGroup_def DeleteTag_def ResolvePageComment_def Let_def
      dest!: core_upsert_tag split: option.splits if_splits prod.splits)

lemma core_comment_commands:
  "AddPageComment e slug user parent anchor quote body d = Inr (x, d') \<Longrightarrow> core d' = core d"
  "AddPageSuggestion e slug user anchor body s md d = Inr (y, d') \<Longrightarrow> core d' = core d"
  "AddPageReviewComment e i slug user side a b body sg orig repl d = Inr (z, d') \<Longrightarrow> core d' = core d"
  by (auto simp: AddPageComment_def AddPageSuggestion_def insert_comment_def Let_def result_simps
      dest!: AddPageReviewComment_Inr split: option.splits if_splits)

lemma apply_commands:
  assumes "db_ok d"
  shows "ApplyPageReviewSuggestions e i slug expected actor ids al md msg links usage render d = Inr (p, d') \<Longrightarrow>
      reviews_progress d d' \<and> history_grows d d'"
    and "ApplyPageCommentSuggestion e slug cid actor md msg links usage render d = Inr (q, d') \<Longrightarrow>
      reviews_progress d d' \<and> history_grows d d'"
proof -
  have "store_ok d" using assms by (simp add: db_ok_def)
  assume "ApplyPageReviewSuggestions e i slug expected actor ids al md msg links usage render d = Inr (p, d')"
  with \<open>store_ok d\<close> obtain u where "applyPreparedPageUpdate e u (markReviewSuggestionsApplied e i actor ids) d = Inr d'"
    by (rule ApplyPageReviewSuggestions_Inr) (rule that)
  then show "reviews_progress d d' \<and> history_grows d d'"
    by (blast intro: applyPreparedPageUpdate_progress applyPreparedPageUpdate_grows core_mark_applied)
next
  assume "ApplyPageCommentSuggestion e slug cid actor md msg links usage render d = Inr (q, d')"
  then obtain u where "applyPreparedPageUpdate e u (markCommentSuggestionApplied e cid actor) d = Inr d'"
    by (rule ApplyPageCommentSuggestion_Inr) (rule that)
  then show "reviews_progress d d' \<and> history_grows d d'"
    by (auto intro!: applyPreparedPageUpdate_progress applyPreparedPageUpdate_grows)
qed

text \<open>What a committed command may do to the state, in both respects.\<close>

definition later :: "db \<Rightarrow> db \<Rightarrow> bool" where
  "later d d' = (reviews_progress d d' \<and> history_grows d d')"

lemma commit_later:
  "(\<And>d'. r = Inr d' \<Longrightarrow> later d d') \<Longrightarrow> later d (commit d r)"
  "(\<And>x d'. q = Inr (x, d') \<Longrightarrow> later d d') \<Longrightarrow> later d (commit_snd d q)"
  by (auto simp: commit_def commit_snd_def later_def split: sum.splits)

lemma frame_later: "frame d d' \<Longrightarrow> later d d'"
  by (simp add: frame_def later_def reviews_progress_table history_grows_table)

lemma SavePage_later: "db_ok d \<Longrightarrow> store_SavePage e q d = Inr (p, d') \<Longrightarrow> later d d'"
  by (simp add: later_def SavePage_progress SavePage_grows)

lemma SavePageIfUnchanged_later: "db_ok d \<Longrightarrow> store_SavePageIfUnchanged e t q d = Inr (p, d') \<Longrightarrow> later d d'"
  by (drule store_SavePageIfUnchanged_cases(1)) (rule SavePage_later)

lemma move_later:
  "MovePage e old new opts u d = Inr d' \<Longrightarrow> later d d'"
  "BulkMovePages e slugs target u d = Inr d' \<Longrightarrow> later d d'"
  by (simp_all add: later_def MovePage_def reviews_progress_table review_table_movePage review_table_BulkMovePages
      BulkMovePages_grows revisions_added_grows movePage_added)

lemma purge_later: "PermanentlyDeletePage slug d = Inr d' \<Longrightarrow> later d d'"
  by (simp add: later_def PermanentlyDeletePage_progress PermanentlyDeletePage_grows)

lemma review_later:
  "RequestPageReview e slug actor us gid note d = Inr (q, d') \<Longrightarrow> later d d'"
  "UpdatePageReview e i slug actor us gid note d = Inr (q, d') \<Longrightarrow> later d d'"
  "db_ok d \<Longrightarrow> CancelPageReview e i slug actor d = Inr (x, d') \<Longrightarrow> later d d'"
  "db_ok d \<Longrightarrow> DecidePageReview e i slug reviewer admin decision note d = Inr (x, d') \<Longrightarrow> later d d'"
  by (simp_all add: later_def RequestPageReview_progress UpdatePageReview_progress CancelPageReview_progress
      DecidePageReview_progress history_grows_table history_table_RequestPageReview history_table_UpdatePageReview
      history_table_CancelPageReview history_table_DecidePageReview)

lemma apply_later:
  "db_ok d \<Longrightarrow> ApplyPageReviewSuggestions e i slug expected actor ids al md msg links usage render d = Inr (p, d') \<Longrightarrow> later d d'"
  "db_ok d \<Longrightarrow> ApplyPageCommentSuggestion e slug cid actor md msg links usage render d = Inr (p, d') \<Longrightarrow> later d d'"
  using apply_commands by (auto simp: later_def)

lemmas frame_later_commands = frame_commands [THEN frame_later] core_commands [THEN frame_core, THEN frame_later]
  core_comment_commands [THEN frame_core, THEN frame_later]

lemma run_command_later:
  assumes "db_ok d"
  shows "later d (run_command e c d)"
proof (cases c)
  case (Provision us gs ms flag)
  then show ?thesis using frame_later [OF frame_core [OF Provision_core]] by simp
qed (simp, rule commit_later,
  erule frame_later_commands move_later purge_later review_later(1,2) SavePage_later [OF assms]
    SavePageIfUnchanged_later [OF assms] review_later(3,4) [OF assms] apply_later [OF assms])+

section \<open>Runs\<close>

lemma later_refl [simp]: "later d d"
  by (simp add: later_def)

lemma later_trans: "db_ok d1 \<Longrightarrow> later d1 d2 \<Longrightarrow> later d2 d3 \<Longrightarrow> later d1 d3"
  by (auto simp: later_def intro: reviews_progress_trans history_grows_trans)

interpretation wiki: monotone_system empty_db step db_ok later
  by unfold_locales (auto simp: db_ok_empty step_def run_command_keeps_ok run_command_later intro: later_trans)

lemma run_ok: "db_ok (run cs)"
  unfolding run_def by (rule wiki.inv_run)

lemma run_later: "later (run cs) (run (cs @ ds))"
  unfolding run_def by (rule wiki.later_run)


lemma run_append: "run (cs @ ds) = fold step ds (run cs)"
  by (simp add: run_def)

section \<open>Properties of all runs\<close>


text \<open>C2: A review request follows its state machine for as long as its page exists: in any later state of any run
  it is still about the same page and revision and asked by the same account, its status was
  reached along the steps of the machine, an approved, cancelled or superseded review has
  kept that status, and a review that is pending has never been anything else.\<close>

theorem review_lifecycle:
  assumes "v \<in> set (db_reviews (run cs))" and "w \<in> set (db_reviews (run (cs @ ds)))" and "vw_id w = vw_id v"
  shows "vw_page w = vw_page v \<and> vw_revision w = vw_revision v \<and> vw_requested_by w = vw_requested_by v \<and>
    review_path (vw_status v) (vw_status w) \<and>
    (vw_status v \<in> {PageReviewStatusApproved, PageReviewStatusCanceled, PageReviewStatusSuperseded} \<longrightarrow> vw_status w = vw_status v) \<and>
    (pending w \<longrightarrow> pending v)"
proof -
  have ok: "reviews_ok (run cs)" using run_ok by (simp add: db_ok_def store_ok_def)
  then have "\<forall>v \<in> set (db_reviews (run cs)). vw_id v < db_next_review (run cs)" and d: "distinct (map vw_id (db_reviews (run cs)))"
    by (simp_all add: reviews_ok_def)
  with assms(1,3) have "vw_id w < db_next_review (run cs)" by fastforce
  moreover have "reviews_progress (run cs) (run (cs @ ds))" using run_later by (simp add: later_def)
  ultimately obtain u where u: "u \<in> set (db_reviews (run cs))" "same_review u w"
    using assms(2) unfolding reviews_progress_def by blast
  have "u = v" by (rule distinct_map_inj [OF d u(1) assms(1)]) (use u(2) assms(3) in \<open>simp add: same_review_def\<close>)
  with u(2) have s: "same_review v w" by simp
  then have p: "review_path (vw_status v) (vw_status w)" by (simp add: same_review_def)
  have "pending w \<longrightarrow> pending v" using pending_review_was_pending [OF p] by (simp add: pending_def)
  with s p closed_review_stays [OF p] show ?thesis unfolding same_review_def by blast
qed

definition sample_run :: "(env \<times> command) list" where
  "sample_run = [(sample_env 10, SaveCmd (sample_request [] ''a'' ''x'')), (sample_env 20, RequestReviewCmd ''a'' 1 [] 0 ''please'')]"

definition sample_decide :: "(env \<times> command) list" where
  "sample_decide = [(sample_env 30, DecideReviewCmd 1 ''a'' 2 True PageReviewStatusApproved [])]"

lemma sample_run_saved: "run [(sample_env 10, SaveCmd (sample_request [] ''a'' ''x''))] = sample_db"
  using sample_saved by (auto simp: run_def step_def commit_snd_def)

lemma sample_run_reviewing: "run sample_run = reviewing_db"
proof -
  have "run sample_run = run_command (sample_env 20) (RequestReviewCmd ''a'' 1 [] 0 ''please'') sample_db"
    using run_append [of "[(sample_env 10, SaveCmd (sample_request [] ''a'' ''x''))]"] sample_run_saved
    by (simp add: sample_run_def step_def)
  with reviewing_db_reached show ?thesis by (auto simp: commit_snd_def)
qed

theorem review_lifecycle_witness:
  "\<exists>v w. v \<in> set (db_reviews (run sample_run)) \<and> w \<in> set (db_reviews (run (sample_run @ sample_decide))) \<and>
     review_path (vw_status v) (vw_status w) \<and> vw_status w = PageReviewStatusApproved"
proof -
  let ?d = "run_command (sample_env 30) (DecideReviewCmd 1 ''a'' 2 True PageReviewStatusApproved []) reviewing_db"
  have d: "run (sample_run @ sample_decide) = ?d"
    by (simp add: run_append sample_run_reviewing sample_decide_def step_def)
  have v: "map vw_id (db_reviews reviewing_db) = [1]" by code_simp
  have w: "map (\<lambda>v. (vw_id v, vw_status v)) (db_reviews ?d) = [(1, PageReviewStatusApproved)]" by code_simp
  from v obtain v where v: "db_reviews reviewing_db = [v]" "vw_id v = 1" by auto
  from w obtain w where w: "db_reviews ?d = [w]" "vw_id w = 1" "vw_status w = PageReviewStatusApproved" by auto
  have "v \<in> set (db_reviews (run sample_run))" "w \<in> set (db_reviews (run (sample_run @ sample_decide)))" "vw_id w = vw_id v"
    using v w by (simp_all add: sample_run_reviewing d)
  with review_lifecycle [OF this] w(3) show ?thesis by blast
qed

text \<open>C3: The history of a page is never rewritten: in any later state of any run the revisions of a page id are
  either gone altogether or continue those it had, and once the revisions of a page have been
  removed no page ever gets that id, and so a history, again.\<close>

theorem history_only_grows:
  "(revisions_of (run (cs @ ds)) i = [] \<or> prefix (revisions_of (run cs) i) (revisions_of (run (cs @ ds)) i)) \<and>
   (revisions_of (run cs) i \<noteq> [] \<and> revisions_of (run (cs @ ds)) i = [] \<longrightarrow>
      i \<notin> page_ids (run (cs @ ds @ es)) \<and> revisions_of (run (cs @ ds @ es)) i = [])"
proof -
  have ok: "store_ok (run xs)" for xs using run_ok by (simp add: db_ok_def)
  have grows: "history_grows (run xs) (run (xs @ ys))" for xs ys using run_later by (simp add: later_def)
  have "revisions_of (run (cs @ ds)) i = [] \<or> prefix (revisions_of (run cs) i) (revisions_of (run (cs @ ds)) i)"
    using grows [of cs ds] revisions_of_no_page [OF ok] by (auto simp: history_grows_def)
  moreover have "i \<notin> page_ids (run (cs @ ds @ es))"
    if a: "revisions_of (run cs) i \<noteq> []" "revisions_of (run (cs @ ds)) i = []"
  proof -
    have "i < db_next_page (run cs)" using a(1) revisions_of_no_page [OF ok] page_id_bound [OF ok] by blast
    then have "i < db_next_page (run (cs @ ds))" using grows [of cs ds] by (simp add: history_grows_def)
    moreover have "i \<notin> page_ids (run (cs @ ds))"
      using run_ok [of "cs @ ds"] a(2) by (auto simp: db_ok_def head_ok_def page_ids_def)
    ultimately show ?thesis using grows [of "cs @ ds" es] by (auto simp: history_grows_def)
  qed
  ultimately show ?thesis using revisions_of_no_page [OF ok] by blast
qed

definition sample_purge :: "(env \<times> command) list" where
  "sample_purge = [(sample_env 30, DeletePageCmd ''a'' 1), (sample_env 40, PurgePage ''a'')]"

theorem history_only_grows_witness:
  "\<exists>i. revisions_of (run [(sample_env 10, SaveCmd (sample_request [] ''a'' ''x''))]) i \<noteq> [] \<and>
     i \<notin> page_ids (run ([(sample_env 10, SaveCmd (sample_request [] ''a'' ''x''))] @ sample_purge @
       [(sample_env 50, SaveCmd (sample_request [] ''a'' ''y''))]))"
proof -
  let ?cs = "[(sample_env 10, SaveCmd (sample_request [] ''a'' ''x''))]"
  have "run (?cs @ sample_purge) = fold step sample_purge sample_db"
    by (simp only: run_append sample_run_saved)
  moreover have "revisions_of (fold step sample_purge sample_db) 1 = []" by code_simp
  moreover have "revisions_of sample_db 1 \<noteq> []" by code_simp
  ultimately have "revisions_of (run ?cs) 1 \<noteq> []" "revisions_of (run (?cs @ sample_purge)) 1 = []"
    by (simp_all only: sample_run_saved not_False_eq_True)
  with history_only_grows [of ?cs sample_purge 1 "[(sample_env 50, SaveCmd (sample_request [] ''a'' ''y''))]"]
  show ?thesis by blast
qed

end
